(* ===== verification/Prelude.thy ===== *)
theory Prelude
  imports Main "HOL-Library.AList" "HOL-Library.List_Lexorder" "HOL-Library.Product_Lexorder"
begin

text \<open>
  Shared vocabulary of the development: Python's text and byte strings, the string methods the
  modelled code calls, insertion-ordered dictionaries, and results with errors.

  A Python \<open>str\<close> is a list of code points, written \<open>str\<close>; \<open>lit ''abc''\<close> is the literal
  \<open>"abc"\<close>.  A \<open>bytes\<close> value is a list of integers, each from 0 to 255 (\<open>byte_list\<close>).
  Python integers do not overflow and are \<open>int\<close>.
\<close>

section \<open>Text and bytes\<close>

type_synonym str = "int list"
type_synonym bytes = "int list"

named_theorems str_simps \<open>rewriting of the modelled Python string operations\<close>

definition lit :: "string \<Rightarrow> str" where
  "lit s = map of_char s"

lemma lit_Nil [simp]: "lit [] = []"
  by (simp add: lit_def)

lemma lit_Cons [simp]: "lit (c # s) = of_char c # lit s"
  by (simp add: lit_def)

lemma lit_append: "lit (s @ t) = lit s @ lit t"
  by (simp add: lit_def)

lemma length_lit: "length (lit s) = length s"
  by (simp add: lit_def)

definition byte_list :: "bytes \<Rightarrow> bool" where
  "byte_list bs \<longleftrightarrow> list_all (\<lambda>b. 0 \<le> b \<and> b < 256) bs"

lemma byte_list_simps [simp]:
  "byte_list []"
  "byte_list (b # bs) \<longleftrightarrow> 0 \<le> b \<and> b < 256 \<and> byte_list bs"
  "byte_list (xs @ ys) \<longleftrightarrow> byte_list xs \<and> byte_list ys"
  by (auto simp: byte_list_def)

lemma byte_list_take [intro]: "byte_list bs \<Longrightarrow> byte_list (take n bs)"
  by (metis append_take_drop_id byte_list_simps(3))

lemma byte_list_drop [intro]: "byte_list bs \<Longrightarrow> byte_list (drop n bs)"
  by (metis append_take_drop_id byte_list_simps(3))


section \<open>String methods\<close>

definition startswith :: "int list \<Rightarrow> int list \<Rightarrow> bool" where
  "startswith s p \<longleftrightarrow> take (length p) s = p"

definition endswith :: "int list \<Rightarrow> int list \<Rightarrow> bool" where
  "endswith s p \<longleftrightarrow> length p \<le> length s \<and> drop (length s - length p) s = p"

lemma startswith_Nil [simp]: "startswith s []"
  by (simp add: startswith_def)

lemma startswith_Cons [simp]:
  "startswith [] (p # ps) \<longleftrightarrow> False"
  "startswith (x # xs) (p # ps) \<longleftrightarrow> x = p \<and> startswith xs ps"
  by (auto simp: startswith_def)

lemma startswith_iff: "startswith s p \<longleftrightarrow> (\<exists>t. s = p @ t)"
  by (metis append_eq_conv_conj startswith_def)

lemma startswith_append [simp]: "startswith (p @ t) p"
  by (auto simp: startswith_iff)

lemma startswith_length: "startswith s p \<Longrightarrow> length p \<le> length s"
  by (auto simp: startswith_iff)

text \<open>\<open>s.find(c)\<close> for a one-character needle; \<open>None\<close> is the \<open>-1\<close> of the source.\<close>

fun find1 :: "int \<Rightarrow> int list \<Rightarrow> nat option" where
  "find1 c [] = None"
| "find1 c (x # xs) = (if x = c then Some 0 else map_option Suc (find1 c xs))"

lemma find1_None: "find1 c s = None \<longleftrightarrow> c \<notin> set s"
  by (induction s) auto

lemma find1_Some: "find1 c s = Some k \<Longrightarrow> k < length s \<and> s ! k = c \<and> c \<notin> set (take k s)"
  by (induction s arbitrary: k) (auto split: if_splits simp: nth_Cons')

text \<open>\<open>sub in s\<close>\<close>

fun contains :: "int list \<Rightarrow> int list \<Rightarrow> bool" where
  "contains [] p \<longleftrightarrow> p = []"
| "contains (x # xs) p \<longleftrightarrow> startswith (x # xs) p \<or> contains xs p"

lemma contains_iff: "contains s p \<longleftrightarrow> (\<exists>a b. s = a @ p @ b)"
proof (induction s)
  case Nil
  then show ?case by auto
next
  case (Cons x xs)
  show ?case
  proof
    assume "contains (x # xs) p"
    then show "\<exists>a b. x # xs = a @ p @ b"
      using Cons by (metis append_Cons append_Nil contains.simps(2) startswith_iff)
  next
    assume "\<exists>a b. x # xs = a @ p @ b"
    then obtain a b where ab: "x # xs = a @ p @ b" by blast
    show "contains (x # xs) p"
    proof (cases a)
      case Nil
      with ab have "startswith (x # xs) p" by simp
      then show ?thesis by (simp only: contains.simps) simp
    next
      case (Cons y ys)
      with ab have "\<exists>a b. xs = a @ p @ b" by auto
      with Cons.IH show ?thesis by simp
    qed
  qed
qed

text \<open>\<open>s.split(c)\<close> for a one-character separator, and \<open>c.join(parts)\<close>.\<close>

fun split_on :: "int \<Rightarrow> int list \<Rightarrow> int list list" where
  "split_on c [] = [[]]"
| "split_on c (x # xs) =
     (if x = c then [] # split_on c xs
      else (case split_on c xs of [] \<Rightarrow> [[x]] | y # ys \<Rightarrow> (x # y) # ys))"

fun join_with :: "int list \<Rightarrow> int list list \<Rightarrow> int list" where
  "join_with c [] = []"
| "join_with c [x] = x"
| "join_with c (x # y # ys) = x @ c @ join_with c (y # ys)"

lemma split_on_ne [simp]: "split_on c s \<noteq> []"
  by (induction s) (auto split: list.splits)

lemma join_split: "join_with [c] (split_on c s) = s"
proof (induction s)
  case Nil
  then show ?case by simp
next
  case (Cons x xs)
  then obtain y ys where y: "split_on c xs = y # ys"
    by (meson list.exhaust split_on_ne)
  with Cons show ?case
    by (cases ys) auto
qed

lemma split_on_no: "c \<notin> set s \<Longrightarrow> split_on c s = [s]"
  by (induction s) auto

lemma split_on_append: "c \<notin> set s \<Longrightarrow> split_on c (s @ c # t) = s # split_on c t"
  by (induction s) (auto split: list.splits)

lemma split_on_pieces: "p \<in> set (split_on c s) \<Longrightarrow> c \<notin> set p"
  by (induction s arbitrary: p) (fastforce split: list.splits if_splits)+

lemma split_on_app:
  "split_on c (a @ b) = butlast (split_on c a) @ split_on c (last (split_on c a) @ b)"
proof (induction a)
  case Nil
  then show ?case by simp
next
  case (Cons x a)
  obtain z zs where z: "split_on c a = z # zs"
    by (meson list.exhaust split_on_ne)
  show ?case
  proof (cases "x \<noteq> c \<and> zs = []")
    case True
    then have "a = z" using z join_split [of c a] by simp
    then show ?thesis using True z by simp
  next
    case False
    with Cons z show ?thesis by (auto split: list.splits)
  qed
qed

lemma split_on_hd: "c \<notin> set l \<Longrightarrow> hd (split_on c (l @ b)) = l @ hd (split_on c b)"
  by (induction l) (auto split: list.splits simp: neq_Nil_conv)

lemma split_on_tl: "tl (split_on c s) = [] \<longleftrightarrow> c \<notin> set s"
  by (induction s) (auto split: list.splits)

lemma split_on_butlast: "butlast (split_on c s) = [] \<longleftrightarrow> c \<notin> set s"
  by (metis butlast.simps(2) list.collapse split_on_ne split_on_tl butlast.simps(1) list.sel(3) list.distinct(1))

lemma last_split_ne: "last (split_on c s) \<noteq> [] \<longleftrightarrow> s \<noteq> [] \<and> last s \<noteq> c"
proof (induction s)
  case (Cons x s)
  then show ?case
    using join_split [of c s] by (cases "s = []") (auto split: list.splits)
qed simp

text \<open>The piece being read when an input is cut is no longer than some piece of the whole.\<close>

lemma split_on_last_prefix: "\<exists>q \<in> set (split_on c (a @ b)). length (last (split_on c a)) \<le> length q"
proof -
  have "c \<notin> set (last (split_on c a))"
    using split_on_pieces last_in_set split_on_ne by blast
  then have "length (last (split_on c a)) \<le> length (hd (split_on c (last (split_on c a) @ b)))"
    by (simp add: split_on_hd)
  then show ?thesis
    by (metis UnI2 list.set_sel(1) set_append split_on_app split_on_ne)
qed

text \<open>Joining with a separator after every part, as a writer of lines does.\<close>

definition lines_of :: "int list list \<Rightarrow> int list" where
  "lines_of ls = concat (map (\<lambda>l. l @ [10]) ls)"

lemma split_lines_of:
  "\<forall>l\<in>set ls. 10 \<notin> set l \<Longrightarrow> 10 \<notin> set t \<Longrightarrow> split_on 10 (lines_of ls @ t) = ls @ [t]"
  by (induction ls) (auto simp: lines_of_def split_on_no split_on_append)

section \<open>Character classes and stripping\<close>

text \<open>\<open>str.isspace\<close> for one character, and the line boundaries of \<open>str.splitlines\<close>.\<close>

definition is_space :: "int \<Rightarrow> bool" where
  "is_space c \<longleftrightarrow> (9 \<le> c \<and> c \<le> 13) \<or> (28 \<le> c \<and> c \<le> 32) \<or> c = 133 \<or> c = 160 \<or> c = 5760
     \<or> (8192 \<le> c \<and> c \<le> 8202) \<or> c = 8232 \<or> c = 8233 \<or> c = 8239 \<or> c = 8287 \<or> c = 12288"

definition is_linebreak :: "int \<Rightarrow> bool" where
  "is_linebreak c \<longleftrightarrow> (10 \<le> c \<and> c \<le> 13) \<or> (28 \<le> c \<and> c \<le> 30) \<or> c = 133 \<or> c = 8232 \<or> c = 8233"

definition is_ascii_digit :: "int \<Rightarrow> bool" where
  "is_ascii_digit c \<longleftrightarrow> 48 \<le> c \<and> c \<le> 57"

definition is_ascii_alnum :: "int \<Rightarrow> bool" where
  "is_ascii_alnum c \<longleftrightarrow> is_ascii_digit c \<or> (65 \<le> c \<and> c \<le> 90) \<or> (97 \<le> c \<and> c \<le> 122)"

definition rstrip_of :: "(int \<Rightarrow> bool) \<Rightarrow> int list \<Rightarrow> int list" where
  "rstrip_of p s = rev (dropWhile p (rev s))"

definition lstrip_of :: "(int \<Rightarrow> bool) \<Rightarrow> int list \<Rightarrow> int list" where
  "lstrip_of p s = dropWhile p s"

definition strip :: "int list \<Rightarrow> int list" where
  "strip s = rstrip_of is_space (lstrip_of is_space s)"

lemma rstrip_of_split: "\<exists>t. s = rstrip_of p s @ t \<and> list_all p t"
proof -
  have "rev s = takeWhile p (rev s) @ dropWhile p (rev s)"
    by simp
  then have "s = rstrip_of p s @ rev (takeWhile p (rev s))"
    by (metis rev_append rev_rev_ident rstrip_of_def)
  moreover have "list_all p (rev (takeWhile p (rev s)))"
    by (auto simp: list_all_iff dest: set_takeWhileD)
  ultimately show ?thesis by blast
qed

fun splitlines_acc :: "int list \<Rightarrow> int list \<Rightarrow> int list list" where
  "splitlines_acc cur [] = (if cur = [] then [] else [rev cur])"
| "splitlines_acc cur (x # xs) =
     (if is_linebreak x
      then rev cur # splitlines_acc [] (if x = 13 \<and> xs \<noteq> [] \<and> hd xs = 10 then tl xs else xs)
      else splitlines_acc (x # cur) xs)"

definition splitlines :: "str \<Rightarrow> str list" where
  "splitlines s = splitlines_acc [] s"

text \<open>Lines without a boundary inside are the lines of the text that writes each with a newline.\<close>

definition unbroken :: "str \<Rightarrow> bool" where "unbroken s \<longleftrightarrow> (\<forall>c\<in>set s. \<not> is_linebreak c)"

lemma splitlines_acc_unbroken: "unbroken (rev cur) \<Longrightarrow> l \<in> set (splitlines_acc cur s) \<Longrightarrow> unbroken l"
proof (induction cur s rule: splitlines_acc.induct)
  case (2 cur x xs)
  then show ?case by (cases "is_linebreak x") (auto simp: unbroken_def split: if_splits)
qed (auto split: if_splits)

lemma splitlines_unbroken: "l \<in> set (splitlines s) \<Longrightarrow> unbroken l"
  unfolding splitlines_def by (rule splitlines_acc_unbroken [of "[]"]) (simp add: unbroken_def)

lemma splitlines_acc_line:
  "unbroken l \<Longrightarrow> splitlines_acc cur (l @ 10 # s) = (rev cur @ l) # splitlines_acc [] s"
  by (induction l arbitrary: cur) (auto simp: unbroken_def is_linebreak_def)

lemma splitlines_acc_last: "unbroken l \<Longrightarrow> splitlines_acc cur l = (if cur = [] \<and> l = [] then [] else [rev cur @ l])"
  by (induction l arbitrary: cur) (auto simp: unbroken_def)

lemma splitlines_lines_of: "\<forall>l\<in>set ls. unbroken l \<Longrightarrow> splitlines (lines_of ls) = ls"
  unfolding splitlines_def lines_of_def by (induction ls) (simp_all add: splitlines_acc_line)

lemma strip_id:
  assumes "s \<noteq> [] \<Longrightarrow> \<not> is_space (hd s) \<and> \<not> is_space (last s)"
  shows "strip s = s"
proof (cases "s = []")
  case False
  then have "lstrip_of is_space s = s" "dropWhile is_space (rev s) = rev s"
    using assms by (auto simp: lstrip_of_def neq_Nil_conv dropWhile_eq_self_iff hd_rev)
  then show ?thesis by (simp add: strip_def rstrip_of_def)
qed (simp add: strip_def rstrip_of_def lstrip_of_def)

text \<open>\<open>str.split()\<close>\<close>

fun split_words :: "str \<Rightarrow> str \<Rightarrow> str list" where
  "split_words cur [] = (if cur = [] then [] else [cur])"
| "split_words cur (c # s) =
     (if is_space c then (if cur = [] then [] else [cur]) @ split_words [] s else split_words (cur @ [c]) s)"

text \<open>The value of a run of ASCII digits, as \<open>int(s)\<close> reads it.\<close>

definition digits_value :: "int list \<Rightarrow> int" where
  "digits_value s = foldl (\<lambda>n c. n * 10 + (c - 48)) 0 s"

section \<open>Decimal numerals\<close>

fun decimal :: "nat \<Rightarrow> str" where
  "decimal n = (if n < 10 then [48 + int n] else decimal (n div 10) @ [48 + int (n mod 10)])"

declare decimal.simps [simp del]

text \<open>\<open>str(n)\<close> of a Python integer.\<close>

definition int_repr :: "int \<Rightarrow> str" where
  "int_repr n = (if n < 0 then 45 # decimal (nat (- n)) else decimal (nat n))"

lemma decimal_digits: "list_all is_ascii_digit (decimal n)"
proof (induction n rule: decimal.induct)
  case (1 n)
  have "is_ascii_digit (48 + int (n mod 10))" "n < 10 \<Longrightarrow> is_ascii_digit (48 + int n)"
    by (auto simp: is_ascii_digit_def)
  with 1 show ?case
    by (subst decimal.simps) simp
qed

lemma decimal_ne [simp]: "decimal n \<noteq> []"
  by (subst decimal.simps) auto

lemma digits_value_snoc: "digits_value (s @ [c]) = digits_value s * 10 + (c - 48)"
  by (simp add: digits_value_def)

lemma digits_value_decimal: "digits_value (decimal n) = int n"
proof (induction n rule: decimal.induct)
  case (1 n)
  show ?case
  proof (cases "n < 10")
    case True
    then show ?thesis by (subst decimal.simps) (simp add: digits_value_def)
  next
    case False
    then have "digits_value (decimal n) = int (n div 10) * 10 + int (n mod 10)"
      using 1 by (subst decimal.simps) (simp add: digits_value_snoc)
    then show ?thesis by presburger
  qed
qed

lemma decimal_hd: "hd (decimal n) = 48 \<Longrightarrow> decimal n = [48]"
proof (induction n rule: decimal.induct)
  case (1 n)
  show ?case
  proof (cases "n < 10")
    case True
    then show ?thesis using 1(2) by (subst decimal.simps) (subst (asm) decimal.simps, simp)
  next
    case False
    then have "hd (decimal (n div 10)) = 48"
      using 1(2) by (subst (asm) decimal.simps) simp
    with False 1 have "decimal (n div 10) = [48]" by simp
    then have "digits_value (decimal (n div 10)) = 0" by (simp add: digits_value_def)
    with False show ?thesis by (simp add: digits_value_decimal)
  qed
qed

section \<open>Insertion-ordered dictionaries\<close>

text \<open>
  A Python dict is the association list of its items in insertion order, with distinct keys;
  \<open>map_of\<close> is \<open>d.get\<close> and \<open>AList.update\<close> is \<open>d[k] = v\<close>, which keeps the place of a
  key that is already there.
\<close>

type_synonym ('k, 'v) dict = "('k \<times> 'v) list"

abbreviation dict_set :: "'k \<Rightarrow> 'v \<Rightarrow> ('k, 'v) dict \<Rightarrow> ('k, 'v) dict" where
  "dict_set \<equiv> AList.update"

definition dict_of :: "('k \<times> 'v) list \<Rightarrow> ('k, 'v) dict" where
  "dict_of ps = fold (\<lambda>(k, v). dict_set k v) ps []"

lemma dict_set_fresh: "k \<notin> fst ` set d \<Longrightarrow> dict_set k v d = d @ [(k, v)]"
  by (induction d) auto

lemma dict_of_distinct: "distinct (map fst ps) \<Longrightarrow> dict_of ps = ps"
proof (induction ps rule: rev_induct)
  case Nil
  then show ?case by (simp add: dict_of_def)
next
  case (snoc p ps)
  then have "dict_of ps = ps" "fst p \<notin> fst ` set ps" by auto
  then show ?case by (cases p) (simp add: dict_of_def dict_set_fresh)
qed

lemma distinct_dict_of: "distinct (map fst (dict_of ps))"
proof (induction ps rule: rev_induct)
  case Nil
  then show ?case by (simp add: dict_of_def)
next
  case (snoc p ps)
  then show ?case by (cases p) (simp add: dict_of_def distinct_update)
qed

lemma set_map_filter: "set (List.map_filter f xs) = {y. \<exists>x\<in>set xs. f x = Some y}"
  by (induction xs) (auto simp: map_filter_simps split: option.splits)

section \<open>Results with errors\<close>

text \<open>A function that may raise returns \<open>Inl\<close> of the exception or \<open>Inr\<close> of its value.\<close>

definition rbind :: "'e + 'a \<Rightarrow> ('a \<Rightarrow> 'e + 'b) \<Rightarrow> 'e + 'b" where
  "rbind m f = (case m of Inl e \<Rightarrow> Inl e | Inr a \<Rightarrow> f a)"

lemma rbind_simps [simp]: "rbind (Inl e) f = Inl e" "rbind (Inr a) f = f a"
  by (simp_all add: rbind_def)

lemma rbind_Inr: "rbind m f = Inr b \<longleftrightarrow> (\<exists>a. m = Inr a \<and> f a = Inr b)"
  by (cases m) auto

lemma rbind_Inl: "rbind m f = Inl e \<longleftrightarrow> m = Inl e \<or> (\<exists>a. m = Inr a \<and> f a = Inl e)"
  by (cases m) auto

fun rmap :: "('a \<Rightarrow> 'e + 'b) \<Rightarrow> 'a list \<Rightarrow> 'e + 'b list" where
  "rmap f [] = Inr []"
| "rmap f (x # xs) = rbind (f x) (\<lambda>y. rbind (rmap f xs) (\<lambda>ys. Inr (y # ys)))"

lemma rmap_Inr: "rmap f xs = Inr ys \<longleftrightarrow> list_all2 (\<lambda>x y. f x = Inr y) xs ys"
  by (induction xs arbitrary: ys) (auto simp: rbind_Inr list_all2_Cons1)

lemma rmap_Inl: "rmap f xs = Inl e \<Longrightarrow> \<exists>x\<in>set xs. f x = Inl e"
  by (induction xs) (auto simp: rbind_Inl)

end
