(* ===== verification/Utf8.thy ===== *)
theory Utf8
  imports Prelude
begin

text \<open>
  The UTF-8 codec as CPython implements it, with \<open>errors="replace"\<close>: encoding writes \<open>?\<close> for a
  surrogate, decoding writes one U+FFFD per maximal ill-formed prefix.  The \<open>final\<close> flag is the
  one of the incremental decoder: without it an incomplete sequence at the end of the input is
  kept back instead of being replaced.  The capture classes of \<^verbatim>\<open>scripts/harness/watchdog.py\<close>
  and \<^verbatim>\<open>scripts/harness/selfhost.py\<close> decode with it.
\<close>

section \<open>Encoding\<close>

definition scalar :: "int \<Rightarrow> bool" where
  "scalar c \<longleftrightarrow> (0 \<le> c \<and> c < 0xD800) \<or> (0xE000 \<le> c \<and> c < 0x110000)"

definition utf8_encode1 :: "int \<Rightarrow> bytes" where
  "utf8_encode1 c =
     (if c < 0x80 then [c]
      else if c < 0x800 then [0xC0 + c div 64, 0x80 + c mod 64]
      else if 0xD800 \<le> c \<and> c < 0xE000 then [0x3F]
      else if c < 0x10000 then [0xE0 + c div 4096, 0x80 + c div 64 mod 64, 0x80 + c mod 64]
      else [0xF0 + c div 262144, 0x80 + c div 4096 mod 64, 0x80 + c div 64 mod 64, 0x80 + c mod 64])"

definition utf8_encode :: "str \<Rightarrow> bytes" where
  "utf8_encode s = concat (map utf8_encode1 s)"

lemma utf8_encode_simps [simp]:
  "utf8_encode [] = []"
  "utf8_encode (c # s) = utf8_encode1 c @ utf8_encode s"
  by (simp_all add: utf8_encode_def)

lemma utf8_encode_append: "utf8_encode (s @ t) = utf8_encode s @ utf8_encode t"
  by (simp add: utf8_encode_def)

section \<open>Decoding\<close>

definition is_cont :: "int \<Rightarrow> bool" where
  "is_cont b \<longleftrightarrow> 0x80 \<le> b \<and> b < 0xC0"

text \<open>One decoding step: a scalar and its length, an ill-formed prefix and its length, or an
  incomplete sequence that ends the input.\<close>

datatype ustep = UEmit int nat | UBad nat | UWait

definition utf8_step3 :: "int \<Rightarrow> bytes \<Rightarrow> ustep" where
  "utf8_step3 b s =
     (case s of
        [] \<Rightarrow> UWait
      | c # s' \<Rightarrow>
          if \<not> is_cont c \<or> (if c < 0xA0 then b = 0xE0 else b = 0xED) then UBad 1
          else (case s' of
                  [] \<Rightarrow> UWait
                | d # _ \<Rightarrow> if \<not> is_cont d then UBad 2
                          else UEmit ((b - 0xE0) * 4096 + (c - 0x80) * 64 + (d - 0x80)) 3))"

definition utf8_step4 :: "int \<Rightarrow> bytes \<Rightarrow> ustep" where
  "utf8_step4 b s =
     (case s of
        [] \<Rightarrow> UWait
      | c # s' \<Rightarrow>
          if \<not> is_cont c \<or> (if c < 0x90 then b = 0xF0 else b = 0xF4) then UBad 1
          else (case s' of
                  [] \<Rightarrow> UWait
                | d # s'' \<Rightarrow>
                    if \<not> is_cont d then UBad 2
                    else (case s'' of
                            [] \<Rightarrow> UWait
                          | e # _ \<Rightarrow> if \<not> is_cont e then UBad 3
                              else UEmit ((b - 0xF0) * 262144 + (c - 0x80) * 4096
                                          + (d - 0x80) * 64 + (e - 0x80)) 4)))"

fun utf8_step :: "bytes \<Rightarrow> ustep" where
  "utf8_step [] = UWait"
| "utf8_step (b # s) =
     (if b < 0x80 then UEmit b 1
      else if b < 0xC2 then UBad 1
      else if b < 0xE0 then
        (case s of [] \<Rightarrow> UWait
         | c # _ \<Rightarrow> if is_cont c then UEmit ((b - 0xC0) * 64 + (c - 0x80)) 2 else UBad 1)
      else if b < 0xF0 then utf8_step3 b s
      else if b < 0xF5 then utf8_step4 b s
      else UBad 1)"

declare utf8_step.simps(2) [simp del]

lemma utf8_step_progress:
  "utf8_step s = UEmit c n \<Longrightarrow> 0 < n"
  "utf8_step s = UBad n \<Longrightarrow> 0 < n"
  by (cases s; auto simp: utf8_step.simps utf8_step3_def utf8_step4_def split: if_splits list.splits)+

function utf8_decode :: "bool \<Rightarrow> bytes \<Rightarrow> str" where
  "utf8_decode final s =
     (if s = [] then []
      else case utf8_step s of
             UEmit c n \<Rightarrow> c # utf8_decode final (drop n s)
           | UBad n \<Rightarrow> 0xFFFD # utf8_decode final (drop n s)
           | UWait \<Rightarrow> if final then [0xFFFD] else [])"
  by pat_completeness auto
termination
  by (relation "measure (\<lambda>(final, s). length s)") (auto dest: utf8_step_progress)

declare utf8_decode.simps [simp del]

lemma utf8_decode_Nil [simp]: "utf8_decode final [] = []"
  by (simp add: utf8_decode.simps)

section \<open>Round trips\<close>

text \<open>The bytes of a scalar, split into its six-bit groups.\<close>

lemma six_bit_groups:
  fixes c :: int
  shows "c = c div 64 * 64 + c mod 64" "0 \<le> c mod 64" "c mod 64 < 64"
    "c div 64 div 64 = c div 4096" "c div 4096 div 64 = c div 262144"
  by (simp_all add: div_mult2_eq [symmetric])

lemma encode1_two:
  assumes "0x80 \<le> c" "c < 0x800"
  obtains a d where "utf8_encode1 c = [0xC0 + a, 0x80 + d]" "c = a * 64 + d"
    "2 \<le> a" "a < 32" "0 \<le> d" "d < 64"
proof
  show "utf8_encode1 c = [0xC0 + c div 64, 0x80 + c mod 64]"
    using assms by (simp add: utf8_encode1_def)
qed (use assms in auto)

lemma encode1_three:
  assumes "0x800 \<le> c" "c < 0x10000" "\<not> (0xD800 \<le> c \<and> c < 0xE000)"
  obtains a b d where "utf8_encode1 c = [0xE0 + a, 0x80 + b, 0x80 + d]"
    "c = a * 4096 + b * 64 + d" "0 \<le> a" "a < 16" "0 \<le> b" "b < 64" "0 \<le> d" "d < 64"
    "a = 0 \<longrightarrow> 32 \<le> b" "a = 13 \<longrightarrow> b < 32"
proof
  show "utf8_encode1 c = [0xE0 + c div 4096, 0x80 + c div 64 mod 64, 0x80 + c mod 64]"
    using assms by (auto simp: utf8_encode1_def)
  show eq: "c = c div 4096 * 4096 + c div 64 mod 64 * 64 + c mod 64"
    using six_bit_groups(1) [of c] six_bit_groups(1) [of "c div 64"] six_bit_groups(4) [of c]
    by linarith
  show "c div 4096 = 0 \<longrightarrow> 32 \<le> c div 64 mod 64"
    using eq assms six_bit_groups(3) [of c] by linarith
  show "c div 4096 = 13 \<longrightarrow> c div 64 mod 64 < 32"
    using eq assms six_bit_groups(2) [of c] by linarith
qed (use assms in auto)

lemma encode1_four:
  assumes "0x10000 \<le> c" "c < 0x110000"
  obtains a b d e where "utf8_encode1 c = [0xF0 + a, 0x80 + b, 0x80 + d, 0x80 + e]"
    "c = a * 262144 + b * 4096 + d * 64 + e" "0 \<le> a" "a < 5" "0 \<le> b" "b < 64"
    "0 \<le> d" "d < 64" "0 \<le> e" "e < 64" "a = 0 \<longrightarrow> 16 \<le> b" "a = 4 \<longrightarrow> b < 16"
proof
  show "utf8_encode1 c =
      [0xF0 + c div 262144, 0x80 + c div 4096 mod 64, 0x80 + c div 64 mod 64, 0x80 + c mod 64]"
    using assms by (auto simp: utf8_encode1_def)
  show eq: "c = c div 262144 * 262144 + c div 4096 mod 64 * 4096 + c div 64 mod 64 * 64 + c mod 64"
    using six_bit_groups(1) [of c] six_bit_groups(1) [of "c div 64"] six_bit_groups(4) [of c]
      six_bit_groups(1) [of "c div 4096"] six_bit_groups(5) [of c]
    by linarith
  have low: "c div 64 mod 64 * 64 + c mod 64 < 4096" "0 \<le> c div 64 mod 64 * 64 + c mod 64"
    using six_bit_groups(2,3) [of c] six_bit_groups(2,3) [of "c div 64"] by linarith+
  show "c div 262144 = 0 \<longrightarrow> 16 \<le> c div 4096 mod 64"
    using eq assms low by linarith
  show "c div 262144 = 4 \<longrightarrow> c div 4096 mod 64 < 16"
    using eq assms low by linarith
qed (use assms in auto)

lemma utf8_step_encode1:
  assumes "scalar c"
  shows "utf8_step (utf8_encode1 c @ s) = UEmit c (length (utf8_encode1 c))"
proof -
  consider "c < 0x80" | "0x80 \<le> c" "c < 0x800" | "0x800 \<le> c" "c < 0x10000" | "0x10000 \<le> c"
    by linarith
  then show ?thesis
  proof cases
    case 1
    with assms show ?thesis
      by (simp add: utf8_encode1_def utf8_step.simps)
  next
    case 2
    then obtain a d where "utf8_encode1 c = [0xC0 + a, 0x80 + d]" "c = a * 64 + d"
      "2 \<le> a" "a < 32" "0 \<le> d" "d < 64"
      by (rule encode1_two)
    then show ?thesis
      by (simp add: utf8_step.simps is_cont_def)
  next
    case 3
    moreover from assms have "\<not> (0xD800 \<le> c \<and> c < 0xE000)"
      by (auto simp: scalar_def)
    ultimately obtain a b d where "utf8_encode1 c = [0xE0 + a, 0x80 + b, 0x80 + d]"
      "c = a * 4096 + b * 64 + d" "0 \<le> a" "a < 16" "0 \<le> b" "b < 64" "0 \<le> d" "d < 64"
      "a = 0 \<longrightarrow> 32 \<le> b" "a = 13 \<longrightarrow> b < 32"
      by (rule encode1_three)
    then show ?thesis
      by (auto simp add: utf8_step.simps utf8_step3_def is_cont_def)
  next
    case 4
    moreover from assms have "c < 0x110000"
      by (auto simp: scalar_def)
    ultimately obtain a b d e where "utf8_encode1 c = [0xF0 + a, 0x80 + b, 0x80 + d, 0x80 + e]"
      "c = a * 262144 + b * 4096 + d * 64 + e" "0 \<le> a" "a < 5" "0 \<le> b" "b < 64"
      "0 \<le> d" "d < 64" "0 \<le> e" "e < 64" "a = 0 \<longrightarrow> 16 \<le> b" "a = 4 \<longrightarrow> b < 16"
      by (rule encode1_four)
    then show ?thesis
      by (auto simp add: utf8_step.simps utf8_step4_def is_cont_def)
  qed
qed

lemma utf8_decode_encode: "list_all scalar s \<Longrightarrow> utf8_decode final (utf8_encode s @ t) = s @ utf8_decode final t"
proof (induction s)
  case Nil
  then show ?case by simp
next
  case (Cons c s)
  then have c: "utf8_step (utf8_encode1 c @ (utf8_encode s @ t)) = UEmit c (length (utf8_encode1 c))"
    by (intro utf8_step_encode1) simp
  have "utf8_encode1 c \<noteq> []"
    by (simp add: utf8_encode1_def)
  with c Cons show ?case
    by (subst utf8_decode.simps) simp
qed

text \<open>Cutting the encoding of one scalar leaves an incomplete sequence, never an ill-formed one.\<close>

lemma utf8_step_cut:
  assumes "scalar c" and "0 < n" and "n < length (utf8_encode1 c)"
  shows "utf8_step (take n (utf8_encode1 c)) = UWait"
proof -
  consider "c < 0x80" | "0x80 \<le> c" "c < 0x800" | "0x800 \<le> c" "c < 0x10000" | "0x10000 \<le> c"
    by linarith
  then show ?thesis
  proof cases
    case 1
    with assms show ?thesis
      by (simp add: utf8_encode1_def)
  next
    case 2
    then obtain a d where e: "utf8_encode1 c = [0xC0 + a, 0x80 + d]"
      "c = a * 64 + d" "2 \<le> a" "a < 32" "0 \<le> d" "d < 64"
      by (rule encode1_two)
    with assms have "n = 1" by simp
    with e show ?thesis
      by (simp add: utf8_step.simps)
  next
    case 3
    moreover from assms have "\<not> (0xD800 \<le> c \<and> c < 0xE000)"
      by (auto simp: scalar_def)
    ultimately obtain a b d where e: "utf8_encode1 c = [0xE0 + a, 0x80 + b, 0x80 + d]"
      "c = a * 4096 + b * 64 + d" "0 \<le> a" "a < 16" "0 \<le> b" "b < 64" "0 \<le> d" "d < 64" "a = 0 \<longrightarrow> 32 \<le> b" "a = 13 \<longrightarrow> b < 32"
      by (rule encode1_three)
    with assms have "n = 1 \<or> n = 2" by auto
    with e(1,3-) show ?thesis
      by (auto simp: utf8_step.simps utf8_step3_def is_cont_def)
  next
    case 4
    moreover from assms have "c < 0x110000"
      by (auto simp: scalar_def)
    ultimately obtain a b d f where e: "utf8_encode1 c = [0xF0 + a, 0x80 + b, 0x80 + d, 0x80 + f]"
      "c = a * 262144 + b * 4096 + d * 64 + f" "0 \<le> a" "a < 5" "0 \<le> b" "b < 64"
      "0 \<le> d" "d < 64" "0 \<le> f" "f < 64" "a = 0 \<longrightarrow> 16 \<le> b" "a = 4 \<longrightarrow> b < 16"
      by (rule encode1_four)
    with assms have "n = 1 \<or> n = 2 \<or> n = 3" by auto
    with e(1,3-) show ?thesis
      by (auto simp: utf8_step.simps utf8_step4_def is_cont_def numeral_2_eq_2 numeral_3_eq_3)
  qed
qed

text \<open>
  A byte prefix of an encoded text decodes, without \<open>final\<close>, to a prefix of the text: cutting
  never invents a replacement character.
\<close>

lemma utf8_decode_cut:
  "list_all scalar s \<Longrightarrow> \<exists>k. utf8_decode False (take n (utf8_encode s)) = take k s"
proof (induction s arbitrary: n)
  case Nil
  then show ?case by simp
next
  case (Cons c s)
  let ?e = "utf8_encode1 c"
  show ?case
  proof (cases "length ?e \<le> n")
    case True
    then have "take n (utf8_encode (c # s)) = utf8_encode [c] @ take (n - length ?e) (utf8_encode s)"
      by simp
    moreover obtain k where "utf8_decode False (take (n - length ?e) (utf8_encode s)) = take k s"
      using Cons.IH Cons.prems by auto
    ultimately have "utf8_decode False (take n (utf8_encode (c # s))) = take (Suc k) (c # s)"
      using Cons.prems utf8_decode_encode [of "[c]" False "take (n - length ?e) (utf8_encode s)"]
      by simp
    then show ?thesis by blast
  next
    case False
    then have cut: "take n (utf8_encode (c # s)) = take n ?e" by simp
    have "utf8_decode False (take n ?e) = []"
    proof (cases "n = 0")
      case True
      then show ?thesis by simp
    next
      case f: False
      with False Cons.prems have "utf8_step (take n ?e) = UWait"
        by (intro utf8_step_cut) auto
      then show ?thesis
        by (subst utf8_decode.simps) simp
    qed
    then have "utf8_decode False (take n (utf8_encode (c # s))) = take 0 (c # s)"
      unfolding cut by simp
    then show ?thesis by blast
  qed
qed

end
