(* ===== verification/Capture.thy ===== *)
theory Capture
  imports Utf8
begin

text \<open>
  The bounded output captures: \<open>_BoundedTextCapture\<close> of \<^verbatim>\<open>scripts/harness/watchdog.py\<close> and
  \<open>_TeeCapture\<close> of \<^verbatim>\<open>scripts/harness/selfhost.py\<close>.  Both keep a byte prefix of everything
  written, of at most a fixed length, and say when bytes were dropped; that shared contract is the
  locale \<open>prefix_sink\<close>, interpreted on both.
\<close>

section \<open>The contract of a bounded capture\<close>

locale prefix_sink =
  fixes put :: "'v \<Rightarrow> 's \<Rightarrow> 's"
    and enc :: "'v \<Rightarrow> int list"
    and kept :: "'s \<Rightarrow> int list"
    and lost :: "'s \<Rightarrow> bool"
    and bound :: "'s \<Rightarrow> int"
    and ok :: "'s \<Rightarrow> bool"
  assumes kept_put: "ok s \<Longrightarrow> kept (put v s) = kept s @ take (nat (bound s) - length (kept s)) (enc v)"
    and lost_put: "ok s \<Longrightarrow> lost (put v s) \<longleftrightarrow> lost s \<or> nat (bound s) < length (kept s) + length (enc v)"
    and bound_put: "bound (put v s) = bound s"
    and ok_put: "ok s \<Longrightarrow> ok (put v s)"
    and ok_kept: "ok s \<Longrightarrow> length (kept s) \<le> nat (bound s)"
    and ok_lost: "ok s \<Longrightarrow> lost s \<Longrightarrow> length (kept s) = nat (bound s)"
begin

text \<open>However the output is cut into writes, the capture holds the prefix of the whole output that
  fits, and reports a loss exactly when the output is longer than the bound.\<close>

lemma fold_put:
  assumes "ok s"
  shows "ok (fold put vs s) \<and> bound (fold put vs s) = bound s
    \<and> kept (fold put vs s) = take (nat (bound s)) (kept s @ concat (map enc vs))
    \<and> (lost (fold put vs s) \<longleftrightarrow> lost s \<or> nat (bound s) < length (kept s) + length (concat (map enc vs)))"
  using assms
proof (induction vs arbitrary: s)
  case Nil
  then show ?case using ok_kept [of s] by simp
next
  case (Cons v vs)
  note IH = Cons.IH [OF ok_put [OF Cons.prems, of v]]
  have k: "length (kept s) \<le> nat (bound s)"
    using Cons.prems by (rule ok_kept)
  have "take (nat (bound s)) ((kept s @ take (nat (bound s) - length (kept s)) (enc v)) @ concat (map enc vs))
      = take (nat (bound s)) (kept s @ concat (map enc (v # vs)))"
    using k by (cases "length (enc v) \<le> nat (bound s) - length (kept s)") auto
  moreover have "lost (put v s) \<or> nat (bound s) < length (kept (put v s)) + length (concat (map enc vs))
      \<longleftrightarrow> lost s \<or> nat (bound s) < length (kept s) + length (concat (map enc (v # vs)))"
    using k Cons.prems ok_lost [OF Cons.prems]
    by (auto simp: kept_put lost_put min_def split: if_splits)
  ultimately show ?case
    using IH Cons.prems by (simp add: bound_put kept_put)
qed

lemma fold_put_bound: "ok s \<Longrightarrow> length (kept (fold put vs s)) \<le> nat (bound s)"
  using fold_put [of s vs] by simp

end

section \<open>\<open>_BoundedTextCapture\<close>\<close>

text \<open>A value handed to \<open>write\<close> is text or bytes; text is encoded with \<open>errors="replace"\<close>.\<close>

datatype written = WStr str | WBytes bytes

fun written_len :: "written \<Rightarrow> int" where
  "written_len (WStr s) = int (length s)"
| "written_len (WBytes b) = int (length b)"

fun encoded :: "written \<Rightarrow> bytes" where
  "encoded (WStr s) = utf8_encode s"
| "encoded (WBytes b) = b"

record bounded_capture =
  bc_limit_bytes :: int
  bc_retained :: bytes
  bc_retained_bytes :: int
  bc_truncated :: bool

definition CAPTURE_TRUNCATION_MARKER :: str where
  "CAPTURE_TRUNCATION_MARKER = lit ''\<newline>[mtest-check: output truncated]\<newline>''"

definition BoundedTextCapture :: "int \<Rightarrow> bounded_capture" where
  "BoundedTextCapture limit_bytes =
     \<lparr>bc_limit_bytes = limit_bytes, bc_retained = [], bc_retained_bytes = 0, bc_truncated = False\<rparr>"

definition bounded_write :: "written \<Rightarrow> bounded_capture \<Rightarrow> int \<times> bounded_capture" where
  "bounded_write value c =
     (let enc = encoded value;
          remaining = bc_limit_bytes c - bc_retained_bytes c;
          retained = take (nat (max 0 remaining)) enc;
          c = (if retained = [] then c
               else c\<lparr>bc_retained := bc_retained c @ retained,
                      bc_retained_bytes := bc_retained_bytes c + int (length retained)\<rparr>);
          c = (if length retained < length enc then c\<lparr>bc_truncated := True\<rparr> else c)
      in (written_len value, c))"

definition bounded_finish :: "bounded_capture \<Rightarrow> str" where
  "bounded_finish c =
     utf8_decode (\<not> bc_truncated c) (bc_retained c)
     @ (if bc_truncated c then CAPTURE_TRUNCATION_MARKER else [])"

definition bounded_ok :: "bounded_capture \<Rightarrow> bool" where
  "bounded_ok c \<longleftrightarrow> 0 \<le> bc_limit_bytes c \<and> bc_retained_bytes c = int (length (bc_retained c))
     \<and> bc_retained_bytes c \<le> bc_limit_bytes c
     \<and> (bc_truncated c \<longrightarrow> bc_retained_bytes c = bc_limit_bytes c)"

definition bounded_put :: "written \<Rightarrow> bounded_capture \<Rightarrow> bounded_capture" where
  "bounded_put v c = snd (bounded_write v c)"

lemma bounded_write_len: "fst (bounded_write v c) = written_len v"
  by (simp add: bounded_write_def Let_def)

interpretation bounded: prefix_sink bounded_put encoded bc_retained bc_truncated bc_limit_bytes bounded_ok
proof (unfold_locales, goal_cases)
  case (1 s v)
  then show ?case
    by (auto simp: bounded_put_def bounded_write_def bounded_ok_def Let_def nat_diff_distrib')
next
  case (2 s v)
  then show ?case
    by (auto simp: bounded_put_def bounded_write_def bounded_ok_def Let_def)
next
  case (3 v s)
  then show ?case
    by (auto simp: bounded_put_def bounded_write_def Let_def)
next
  case (4 s v)
  then show ?case
    by (auto simp: bounded_put_def bounded_write_def bounded_ok_def Let_def)
next
  case (5 s)
  then show ?case
    by (auto simp: bounded_ok_def)
next
  case (6 s)
  then show ?case
    by (auto simp: bounded_ok_def)
qed

lemma bounded_ok_init: "0 \<le> n \<Longrightarrow> bounded_ok (BoundedTextCapture n)"
  by (simp add: bounded_ok_def BoundedTextCapture_def)


section \<open>\<open>_TeeCapture\<close>\<close>

text \<open>
  The self-host harness's capture also passes every byte on to the caller's own stream.  What that
  stream does with one \<open>write\<close> and \<open>flush\<close> is the environment's choice: it takes the chunk, it
  fails with an \<open>OSError\<close> or \<open>ValueError\<close> after some prefix of the chunk went through, or it raises
  something the capture does not catch.  \<open>tc_delivered\<close> is what reached the caller's stream.
\<close>

datatype pass_result = PassOk | PassFailed nat | PassRaised nat

record tee_capture =
  tc_passthrough :: bool
  tc_delivered :: bytes
  tc_limit_bytes :: int
  tc_retained :: bytes
  tc_truncated :: bool

definition TEE_TRUNCATION_MARKER :: str where
  "TEE_TRUNCATION_MARKER = lit ''\<newline>[selfhost: capture limit reached; output truncated]\<newline>''"

definition TeeCapture :: "bool \<Rightarrow> int \<Rightarrow> tee_capture" where
  "TeeCapture passthrough limit_bytes =
     \<lparr>tc_passthrough = passthrough, tc_delivered = [], tc_limit_bytes = limit_bytes,
      tc_retained = [], tc_truncated = False\<rparr>"

text \<open>\<open>None\<close> as the result is the exception that propagates out of \<open>write\<close>; the retained prefix has
  been updated by then.\<close>

definition TeeCapture_write :: "pass_result \<Rightarrow> written \<Rightarrow> tee_capture \<Rightarrow> int option \<times> tee_capture" where
  "TeeCapture_write env value c =
     (let enc = encoded value;
          remaining = tc_limit_bytes c - int (length (tc_retained c));
          retained = take (nat (max 0 remaining)) enc;
          c = (if retained = [] then c else c\<lparr>tc_retained := tc_retained c @ retained\<rparr>);
          c = (if length retained < length enc then c\<lparr>tc_truncated := True\<rparr> else c)
      in if tc_passthrough c then
           (case env of
              PassOk \<Rightarrow>
                (Some (written_len value), c\<lparr>tc_delivered := tc_delivered c @ enc\<rparr>)
            | PassFailed n \<Rightarrow>
                (Some (written_len value),
                 c\<lparr>tc_delivered := tc_delivered c @ take n enc, tc_passthrough := False\<rparr>)
            | PassRaised n \<Rightarrow>
                (None, c\<lparr>tc_delivered := tc_delivered c @ take n enc\<rparr>))
         else (Some (written_len value), c))"

definition TeeCapture_finish :: "tee_capture \<Rightarrow> str" where
  "TeeCapture_finish c =
     utf8_decode True (tc_retained c) @ (if tc_truncated c then TEE_TRUNCATION_MARKER else [])"

definition TeeCapture_ok :: "tee_capture \<Rightarrow> bool" where
  "TeeCapture_ok c \<longleftrightarrow> int (length (tc_retained c)) \<le> tc_limit_bytes c
     \<and> (tc_truncated c \<longrightarrow> int (length (tc_retained c)) = tc_limit_bytes c)"

definition TeeCapture_put :: "pass_result \<times> written \<Rightarrow> tee_capture \<Rightarrow> tee_capture" where
  "TeeCapture_put v c = snd (TeeCapture_write (fst v) (snd v) c)"

interpretation tee: prefix_sink TeeCapture_put "encoded \<circ> snd" tc_retained tc_truncated tc_limit_bytes TeeCapture_ok
proof (unfold_locales, goal_cases)
  case (1 s v)
  then show ?case
    by (auto simp: TeeCapture_put_def TeeCapture_write_def TeeCapture_ok_def Let_def nat_diff_distrib' split: pass_result.splits)
next
  case (2 s v)
  then show ?case
    by (auto simp: TeeCapture_put_def TeeCapture_write_def TeeCapture_ok_def Let_def
        simp flip: length_greater_0_conv split: pass_result.splits)
next
  case (3 v s)
  then show ?case
    by (auto simp: TeeCapture_put_def TeeCapture_write_def Let_def split: pass_result.splits)
next
  case (4 s v)
  then show ?case
    by (auto simp: TeeCapture_put_def TeeCapture_write_def TeeCapture_ok_def Let_def split: pass_result.splits)
next
  case (5 s)
  then show ?case
    by (auto simp: TeeCapture_ok_def)
next
  case (6 s)
  then show ?case
    by (auto simp: TeeCapture_ok_def)
qed

lemma TeeCapture_ok_init: "0 \<le> n \<Longrightarrow> TeeCapture_ok (TeeCapture p n)"
  by (simp add: TeeCapture_ok_def TeeCapture_def)

section \<open>What the captured text says\<close>

lemma bounded_run:
  assumes "0 \<le> n"
  shows "bc_retained (fold bounded_put vs (BoundedTextCapture n)) = take (nat n) (concat (map encoded vs))"
    and "bc_truncated (fold bounded_put vs (BoundedTextCapture n)) \<longleftrightarrow> n < int (length (concat (map encoded vs)))"
  using bounded.fold_put [OF bounded_ok_init [OF assms], of vs] assms
  by (auto simp: BoundedTextCapture_def)

lemma bounded_finish_text:
  assumes "0 \<le> limit" and "list_all scalar s" and "concat (map encoded vs) = utf8_encode s"
  shows "\<exists>k. bounded_finish (fold bounded_put vs (BoundedTextCapture limit))
           = (if limit < int (length (utf8_encode s)) then take k s @ CAPTURE_TRUNCATION_MARKER else s)"
proof (cases "limit < int (length (utf8_encode s))")
  case True
  obtain k where "utf8_decode False (take (nat limit) (utf8_encode s)) = take k s"
    using utf8_decode_cut [OF assms(2)] by blast
  with True show ?thesis
    using bounded_run [OF assms(1), of vs] assms(3) by (auto simp: bounded_finish_def)
next
  case False
  then have "take (nat limit) (utf8_encode s) = utf8_encode s" by simp
  with False show ?thesis
    using bounded_run [OF assms(1), of vs] assms(3) utf8_decode_encode [OF assms(2), of True "[]"]
    by (simp add: bounded_finish_def)
qed

text \<open>
  The bounded capture never invents text: when the child's output, however it is cut into
  writes, is the UTF-8 encoding of a text, \<open>finish\<close> returns that text when it fits and otherwise
  a prefix of it followed by the truncation marker; a cut through a character leaves no U+FFFD.
\<close>

theorem bounded_finish_prefix:
  assumes "0 \<le> limit" and "list_all scalar s" and "concat (map encoded vs) = utf8_encode s"
  shows "\<exists>k. bounded_finish (fold bounded_put vs (BoundedTextCapture limit))
           = (if limit < int (length (utf8_encode s)) then take k s @ CAPTURE_TRUNCATION_MARKER else s)"
  using assms by (rule bounded_finish_text)

text \<open>A three-byte character cut by a two-byte limit is dropped, not replaced.\<close>

theorem bounded_finish_prefix_witness:
  "\<exists>k. bounded_finish (fold bounded_put [WBytes [0x61, 0xE2], WBytes [0x82, 0xAC]] (BoundedTextCapture 3))
     = take k [0x61, 0x20AC] @ CAPTURE_TRUNCATION_MARKER"
  using bounded_finish_prefix [of 3 "[0x61, 0x20AC]" "[WBytes [0x61, 0xE2], WBytes [0x82, 0xAC]]"]
  by (simp add: scalar_def utf8_encode1_def)

text \<open>
  Whatever the caller's own stream does with the bytes, the retained
  bytes are exactly the prefix of the run's output that fits the limit, and \<open>truncated\<close> holds
  exactly when the output is longer than the limit.
\<close>

theorem tee_capture_prefix:
  assumes "0 \<le> limit"
  shows "tc_retained (fold TeeCapture_put vs (TeeCapture p limit)) = take (nat limit) (concat (map (encoded \<circ> snd) vs))
    \<and> (tc_truncated (fold TeeCapture_put vs (TeeCapture p limit))
        \<longleftrightarrow> limit < int (length (concat (map (encoded \<circ> snd) vs))))"
  using tee.fold_put [OF TeeCapture_ok_init [OF assms], of vs] assms
  by (auto simp: TeeCapture_def)

theorem tee_capture_prefix_witness:
  "tc_retained (fold TeeCapture_put [(PassFailed 1, WBytes [1, 2]), (PassOk, WBytes [3])] (TeeCapture True 2)) = [1, 2]
   \<and> tc_truncated (fold TeeCapture_put [(PassFailed 1, WBytes [1, 2]), (PassOk, WBytes [3])] (TeeCapture True 2))"
  using tee_capture_prefix [of 2 "[(PassFailed 1, WBytes [1, 2]), (PassOk, WBytes [3])]" True]
  by simp

text \<open>While no write raises, the caller's stream receives a prefix of the output, all of it when it
  never failed.\<close>

fun passed :: "pass_result \<Rightarrow> bool" where
  "passed PassOk = True"
| "passed _ = False"

lemma tee_delivers_all:
  assumes "list_all (passed \<circ> fst) vs" and "tc_passthrough c"
  shows "tc_delivered (fold TeeCapture_put vs c) = tc_delivered c @ concat (map (encoded \<circ> snd) vs)"
  using assms
proof (induction vs arbitrary: c)
  case Nil
  then show ?case by simp
next
  case (Cons v vs)
  obtain r w where v: "v = (r, w)" by force
  with Cons.prems have r: "r = PassOk" by (cases r) auto
  with v Cons show ?case
    by (simp add: TeeCapture_put_def TeeCapture_write_def Let_def)
qed

lemma TeeCapture_write_passes_all:
  "passed env \<Longrightarrow> tc_passthrough c \<Longrightarrow> tc_delivered (snd (TeeCapture_write env v c)) = tc_delivered c @ encoded v"
  by (cases env) (auto simp: TeeCapture_write_def Let_def)

end
