(* ===== verification/Marker.thy ===== *)
theory Marker
  imports Capture
begin

text \<open>
  The marker retention of \<^verbatim>\<open>scripts/harness/watchdog.py\<close>: \<open>MarkerRetention\<close> keeps the last complete
  line of a child's output that starts with a prefix, and the scanning part of \<open>_tee_stream\<close> finds
  the lines in the chunks it reads, discarding a line that grows past a limit.
\<close>

section \<open>\<open>MarkerRetention\<close>\<close>

record marker_retention =
  mr_prefix :: str
  mr_text :: str
  mr_frozen :: bool
  mr_capture_complete :: bool

definition MarkerRetention :: "str \<Rightarrow> marker_retention" where
  "MarkerRetention prefix =
     \<lparr>mr_prefix = prefix, mr_text = [], mr_frozen = False, mr_capture_complete = True\<rparr>"

definition mr_record :: "str \<Rightarrow> marker_retention \<Rightarrow> marker_retention" where
  "mr_record line m = (if mr_frozen m then m else m\<lparr>mr_text := line\<rparr>)"

definition mr_freeze :: "marker_retention \<Rightarrow> marker_retention" where
  "mr_freeze m = m\<lparr>mr_frozen := True\<rparr>"

definition mark_capture_incomplete :: "marker_retention \<Rightarrow> marker_retention" where
  "mark_capture_incomplete m = m\<lparr>mr_capture_complete := False\<rparr>"

lemma mr_record_frozen [simp]: "mr_frozen m \<Longrightarrow> mr_record l m = m"
  by (simp add: mr_record_def)

lemma mr_record_fields [simp]:
  "mr_prefix (mr_record l m) = mr_prefix m" "mr_frozen (mr_record l m) = mr_frozen m"
  "mr_capture_complete (mr_record l m) = mr_capture_complete m"
  by (simp_all add: mr_record_def)

section \<open>Finding the marker lines in a chunk\<close>

definition MARKER_SCAN_LIMIT_BYTES :: nat where
  "MARKER_SCAN_LIMIT_BYTES = 65536"

text \<open>The scanning state of one drainer: bytes not yet ended by a newline, whether the line they
  belong to is being discarded, and the retention it feeds.\<close>

record scan =
  sc_pending :: bytes
  sc_discarding :: bool
  sc_retention :: marker_retention

definition record_line :: "bytes \<Rightarrow> bytes \<Rightarrow> bool \<Rightarrow> marker_retention \<Rightarrow> marker_retention" where
  "record_line prefix line discarding m =
     (if \<not> discarding \<and> startswith line prefix then mr_record (utf8_decode True line) m else m)"

function scan_lines :: "bytes \<Rightarrow> scan \<Rightarrow> scan" where
  "scan_lines prefix s =
     (case find1 10 (sc_pending s) of
        None \<Rightarrow> s
      | Some break_at \<Rightarrow>
          let line = take (Suc break_at) (sc_pending s) in
          scan_lines prefix
            \<lparr>sc_pending = drop (Suc break_at) (sc_pending s), sc_discarding = False,
             sc_retention = record_line prefix line (sc_discarding s) (sc_retention s)\<rparr>)"
  by pat_completeness auto
termination
  by (relation "measure (\<lambda>(prefix, s). length (sc_pending s))") (auto dest: find1_Some)

declare scan_lines.simps [simp del]

definition scan_chunk :: "bytes \<Rightarrow> bytes \<Rightarrow> scan \<Rightarrow> scan" where
  "scan_chunk prefix chunk s =
     (let s = scan_lines prefix (s\<lparr>sc_pending := sc_pending s @ chunk\<rparr>)
      in if MARKER_SCAN_LIMIT_BYTES < length (sc_pending s)
         then s\<lparr>sc_pending := [], sc_discarding := True\<rparr> else s)"

section \<open>The retained marker, independent of the chunks\<close>

text \<open>The specification: of the complete lines of the whole output, the last one that starts with
  the prefix, decoded; the text kept before when there is none.\<close>

definition complete_lines :: "bytes \<Rightarrow> bytes list" where
  "complete_lines bs = map (\<lambda>l. l @ [10]) (butlast (split_on 10 bs))"

definition last_marker :: "bytes \<Rightarrow> bytes \<Rightarrow> str \<Rightarrow> str" where
  "last_marker prefix bs before =
     (let ls = filter (\<lambda>l. startswith l prefix) (complete_lines bs)
      in if ls = [] then before else utf8_decode True (last ls))"

lemma complete_lines_Nil: "complete_lines bs = [] \<longleftrightarrow> 10 \<notin> set bs"
  by (simp add: complete_lines_def split_on_butlast)

lemma split_on_find1:
  "find1 c s = Some k \<Longrightarrow> split_on c s = take k s # split_on c (drop (Suc k) s)"
  by (induction s arbitrary: k) (auto split: if_splits list.splits)

lemma split_on_find1_None: "find1 c s = None \<Longrightarrow> split_on c s = [s]"
  by (simp add: find1_None split_on_no)

lemma scan_lines_spec:
  "scan_lines prefix s =
     (if 10 \<in> set (sc_pending s)
      then \<lparr>sc_pending = last (split_on 10 (sc_pending s)), sc_discarding = False,
            sc_retention = fold (\<lambda>l. record_line prefix l False) (tl (complete_lines (sc_pending s)))
              (record_line prefix (hd (complete_lines (sc_pending s))) (sc_discarding s) (sc_retention s))\<rparr>
      else s)"
proof (induction prefix s rule: scan_lines.induct)
  case (1 prefix s)
  show ?case
  proof (cases "find1 10 (sc_pending s)")
    case None
    then show ?thesis
      using find1_None [of 10 "sc_pending s"] by (subst scan_lines.simps) simp
  next
    case (Some k)
    then have k: "k < length (sc_pending s)" "sc_pending s ! k = 10"
      by (auto dest: find1_Some)
    have mem: "10 \<in> set (sc_pending s)"
      using k nth_mem by force
    have line: "take (Suc k) (sc_pending s) = take k (sc_pending s) @ [10]"
      using k by (simp add: take_Suc_conv_app_nth)
    let ?rest = "drop (Suc k) (sc_pending s)"
    have cl: "complete_lines (sc_pending s) = take (Suc k) (sc_pending s) # complete_lines ?rest"
      by (simp add: complete_lines_def split_on_find1 [OF Some] line)
    have none: "10 \<notin> set ?rest \<Longrightarrow> complete_lines ?rest = []"
      by (simp add: complete_lines_def split_on_no)
    have some: "10 \<in> set ?rest \<Longrightarrow> complete_lines ?rest \<noteq> []"
      by (simp add: complete_lines_Nil)
    show ?thesis
      using "1" [OF Some refl] mem none some
      by (subst scan_lines.simps) (cases "complete_lines ?rest", auto simp: Some cl split_on_find1 [OF Some] split_on_no)
  qed
qed

lemma scan_chunk_bound: "length (sc_pending (scan_chunk prefix chunk s)) \<le> MARKER_SCAN_LIMIT_BYTES"
  by (auto simp: scan_chunk_def Let_def)


lemma record_line_False: "record_line p l False m = (if startswith l p then mr_record (utf8_decode True l) m else m)"
  by (simp add: record_line_def)

lemma fold_record_lines:
  assumes "\<not> mr_frozen m"
  shows "fold (\<lambda>l. record_line p l False) ls m =
    m\<lparr>mr_text := (let xs = filter (\<lambda>l. startswith l p) ls
                  in if xs = [] then mr_text m else utf8_decode True (last xs))\<rparr>"
  using assms
  by (induction ls arbitrary: m) (auto simp: record_line_False mr_record_def Let_def)

lemma fold_record_frozen: "mr_frozen m \<Longrightarrow> fold (\<lambda>l. record_line p l d) ls m = m"
  by (induction ls) (auto simp: record_line_def)

text \<open>Lines of an output that arrives in two parts.\<close>

lemma complete_lines_append:
  "complete_lines (a @ b) = complete_lines a @ complete_lines (last (split_on 10 a) @ b)"
  by (subst complete_lines_def, subst split_on_app) (simp add: complete_lines_def butlast_append)

lemma last_split_append: "last (split_on c (a @ b)) = last (split_on c (last (split_on c a) @ b))"
  by (subst split_on_app) simp

text \<open>What the scanner does with one chunk, when the retention is open and no line is over-long.\<close>

definition scan_after :: "bytes \<Rightarrow> marker_retention \<Rightarrow> bytes \<Rightarrow> scan" where
  "scan_after p m bs =
     \<lparr>sc_pending = last (split_on 10 bs), sc_discarding = False,
      sc_retention = m\<lparr>mr_text := last_marker p bs (mr_text m)\<rparr>\<rparr>"

lemma scan_lines_after:
  assumes "\<not> mr_frozen m"
  shows "scan_lines p \<lparr>sc_pending = bs, sc_discarding = False, sc_retention = m\<rparr> = scan_after p m bs"
proof (cases "10 \<in> set bs")
  case True
  then have "complete_lines bs \<noteq> []"
    by (simp add: complete_lines_Nil)
  then have "fold (\<lambda>l. record_line p l False) (tl (complete_lines bs))
      (record_line p (hd (complete_lines bs)) False m) = fold (\<lambda>l. record_line p l False) (complete_lines bs) m"
    by (cases "complete_lines bs") auto
  with True show ?thesis
    by (simp add: scan_lines_spec scan_after_def fold_record_lines [OF assms] last_marker_def)
next
  case False
  then show ?thesis
    by (simp add: scan_lines_spec scan_after_def split_on_no last_marker_def complete_lines_def)
qed

lemma last_marker_append:
  "last_marker p (a @ b) t = last_marker p (last (split_on 10 a) @ b) (last_marker p a t)"
  by (auto simp: last_marker_def complete_lines_append [of a b] Let_def)

lemma scan_chunk_after:
  assumes "\<not> mr_frozen m" and "length (last (split_on 10 (bs @ c))) \<le> MARKER_SCAN_LIMIT_BYTES"
  shows "scan_chunk p c (scan_after p m bs) = scan_after p m (bs @ c)"
proof -
  let ?m = "m\<lparr>mr_text := last_marker p bs (mr_text m)\<rparr>"
  have "scan_lines p ((scan_after p m bs)\<lparr>sc_pending := sc_pending (scan_after p m bs) @ c\<rparr>)
      = scan_after p ?m (last (split_on 10 bs) @ c)"
    using assms(1) by (simp add: scan_after_def scan_lines_after [unfolded scan_after_def])
  also have "\<dots> = scan_after p m (bs @ c)"
    by (simp add: scan_after_def last_split_append [of 10 bs c] last_marker_append [of p bs c])
  finally show ?thesis
    using assms(2) by (simp add: scan_chunk_def Let_def scan_after_def)
qed

text \<open>Feeding the chunks a drainer reads, one after the other.\<close>

definition scan_chunks :: "str \<Rightarrow> bytes list \<Rightarrow> marker_retention \<Rightarrow> scan" where
  "scan_chunks prefix chunks m =
     fold (scan_chunk (utf8_encode prefix)) chunks
       \<lparr>sc_pending = [], sc_discarding = False, sc_retention = m\<rparr>"

lemma scan_chunks_after:
  assumes "\<not> mr_frozen m"
    and "\<forall>l \<in> set (split_on 10 (concat chunks)). length l \<le> MARKER_SCAN_LIMIT_BYTES"
  shows "fold (scan_chunk p) chunks (scan_after p m []) = scan_after p m (concat chunks)"
  using assms(2)
proof (induction chunks rule: rev_induct)
  case Nil
  then show ?case by simp
next
  case (snoc c chunks)
  have "\<forall>l \<in> set (split_on 10 (concat chunks)). length l \<le> MARKER_SCAN_LIMIT_BYTES"
  proof
    fix l assume "l \<in> set (split_on 10 (concat chunks))"
    then consider "l \<in> set (butlast (split_on 10 (concat chunks)))" | "l = last (split_on 10 (concat chunks))"
      by (metis append_butlast_last_id rotate1.simps(2) set_ConsD set_rotate1 split_on_ne)
    then show "length l \<le> MARKER_SCAN_LIMIT_BYTES"
    proof cases
      case 1
      then have "l \<in> set (split_on 10 (concat chunks @ c))"
        by (subst split_on_app) simp
      with snoc.prems show ?thesis by simp
    next
      case 2
      with snoc.prems split_on_last_prefix [of 10 "concat chunks" c] show ?thesis
        by (metis concat_append concat.simps append_Nil2 le_trans)
    qed
  qed
  then have "fold (scan_chunk p) chunks (scan_after p m []) = scan_after p m (concat chunks)"
    by (rule snoc.IH)
  moreover have "length (last (split_on 10 (concat chunks @ c))) \<le> MARKER_SCAN_LIMIT_BYTES"
    using snoc.prems last_in_set [OF split_on_ne] by simp
  ultimately show ?case
    using scan_chunk_after [OF assms(1)] by simp
qed

lemma scan_after_Nil: "scan_after p m [] = \<lparr>sc_pending = [], sc_discarding = False, sc_retention = m\<rparr>"
  by (simp add: scan_after_def last_marker_def complete_lines_def)



text \<open>
  The discard only happens once a chunk has been scanned, so a line that outgrows the limit inside
  the chunk that also ends it is retained whole: the scan limit bounds what is kept pending between
  chunks, not the length of a retained marker line.
\<close>

lemma overlong_marker_retained:
  assumes "startswith a (utf8_encode prefix)" and "10 \<notin> set a" and "10 \<notin> set b"
    and "length a \<le> MARKER_SCAN_LIMIT_BYTES" and "\<not> mr_frozen m"
  shows "mr_text (sc_retention (scan_chunks prefix [a, b @ [10]] m)) = utf8_decode True (a @ b @ [10])"
proof -
  have "startswith (a @ b @ [10]) (utf8_encode prefix)"
    using assms(1) by (auto simp: startswith_iff)
  moreover have "split_on 10 (a @ b @ [10]) = [a @ b, []]"
    using assms(2,3) split_on_append [of 10 "a @ b" "[]"] by simp
  ultimately have s: "scan_after (utf8_encode prefix) m (a @ b @ [10]) =
      \<lparr>sc_pending = [], sc_discarding = False, sc_retention = m\<lparr>mr_text := utf8_decode True (a @ b @ [10])\<rparr>\<rparr>"
    by (simp add: scan_after_def last_marker_def complete_lines_def Let_def)
  have "scan_chunk (utf8_encode prefix) a (scan_after (utf8_encode prefix) m []) = scan_after (utf8_encode prefix) m a"
    using scan_chunk_after [OF assms(5), of "[]" a] assms(2,4) by (simp add: split_on_no)
  moreover have "scan_chunk (utf8_encode prefix) (b @ [10]) (scan_after (utf8_encode prefix) m a)
      = scan_after (utf8_encode prefix) m (a @ b @ [10])"
    using scan_chunk_after [OF assms(5), of a "b @ [10]"] s by (simp add: scan_after_def)
  ultimately show ?thesis
    using s by (simp add: scan_chunks_def scan_after_Nil)
qed

lemma utf8_decode_ascii: "list_all (\<lambda>b. 0 \<le> b \<and> b < 128) bs \<Longrightarrow> utf8_decode final bs = bs"
proof (induction bs)
  case Nil
  then show ?case by simp
next
  case (Cons b bs)
  then show ?case
    by (subst utf8_decode.simps) (simp add: utf8_step.simps)
qed

definition PIPE_CHUNK_BYTES :: nat where
  "PIPE_CHUNK_BYTES = 65536"

text \<open>
  Two reads of at most one pipe block each
  make the retention keep a marker line of twice the scan limit.
\<close>

theorem marker_line_exceeds_scan_limit:
  "\<exists>chunks. list_all (\<lambda>c. length c \<le> PIPE_CHUNK_BYTES) chunks
     \<and> length (mr_text (sc_retention (scan_chunks [77] chunks (MarkerRetention [77])))) = 2 * MARKER_SCAN_LIMIT_BYTES"
proof -
  let ?a = "replicate 65536 (77::int)" and ?b = "replicate 65535 (120::int)"
  have pre: "startswith ?a (utf8_encode [77])"
  proof -
    have "?a = [77] @ replicate 65535 77"
      by (simp flip: replicate_Suc)
    then show ?thesis
      using startswith_append [of "[77]" "replicate 65535 77"] by (simp add: utf8_encode1_def)
  qed
  have "mr_text (sc_retention (scan_chunks [77] [?a, ?b @ [10]] (MarkerRetention [77])))
      = utf8_decode True (?a @ ?b @ [10])"
    by (rule overlong_marker_retained [OF pre])
       (simp_all add: MARKER_SCAN_LIMIT_BYTES_def MarkerRetention_def)
  also have "\<dots> = ?a @ ?b @ [10]"
    by (rule utf8_decode_ascii) (simp add: list_all_iff)
  finally have "length (mr_text (sc_retention (scan_chunks [77] [?a, ?b @ [10]] (MarkerRetention [77]))))
      = 2 * MARKER_SCAN_LIMIT_BYTES"
    by (simp add: MARKER_SCAN_LIMIT_BYTES_def)
  moreover have "list_all (\<lambda>c. length c \<le> PIPE_CHUNK_BYTES) [?a, ?b @ [10]]"
    by (simp add: PIPE_CHUNK_BYTES_def)
  ultimately show ?thesis by blast
qed

end
