(* ===== verification/Drain.thy ===== *)
theory Drain
  imports Marker
begin

text \<open>
  The drainers of \<^verbatim>\<open>scripts/harness/watchdog.py\<close>: \<open>_StreamTee\<close>, which forwards a child's bytes
  to a caller's stream until it is sealed, the loop of \<open>_tee_stream\<close>, and the functions that
  prepare, await, settle and seal the drainers of one child.  Every result of the operating
  system or of the caller's stream is an argument chosen by the environment.
\<close>

section \<open>\<open>_StreamTee\<close>\<close>

text \<open>The caller's stream: one with a byte buffer, one with only a text \<open>write\<close>, or neither.\<close>

datatype caller_stream = ByteBuffered | TextOnly | NoStream

record stream_tee =
  tee_binary :: bool
  tee_text :: bool
  tee_sealed :: bool
  tee_bytes_out :: bytes
  tee_text_out :: str

definition StreamTee :: "caller_stream \<Rightarrow> stream_tee" where
  "StreamTee stream =
     \<lparr>tee_binary = (stream = ByteBuffered), tee_text = (stream = TextOnly), tee_sealed = False,
      tee_bytes_out = [], tee_text_out = []\<rparr>"

text \<open>How one write and flush of the caller's stream ends; a failure lets a prefix through.\<close>

datatype sink = SinkOk | SinkIOError nat | SinkAttributeError nat | SinkRaised nat

text \<open>The part of \<open>write\<close> that runs under the lock.  The flag says that an exception escapes: the
  byte branch catches \<open>OSError\<close> and \<open>ValueError\<close> only, the text branch \<open>AttributeError\<close> as well.\<close>

definition tee_emit :: "sink \<Rightarrow> bytes \<Rightarrow> stream_tee \<Rightarrow> bool \<times> stream_tee" where
  "tee_emit env chunk t =
     (if tee_binary t then
        (case env of
           SinkOk \<Rightarrow> (False, t\<lparr>tee_bytes_out := tee_bytes_out t @ chunk\<rparr>)
         | SinkIOError n \<Rightarrow>
             (False, t\<lparr>tee_bytes_out := tee_bytes_out t @ take n chunk, tee_binary := False\<rparr>)
         | SinkAttributeError n \<Rightarrow> (True, t\<lparr>tee_bytes_out := tee_bytes_out t @ take n chunk\<rparr>)
         | SinkRaised n \<Rightarrow> (True, t\<lparr>tee_bytes_out := tee_bytes_out t @ take n chunk\<rparr>))
      else if tee_text t then
        (let s = utf8_decode True chunk in
         case env of
           SinkOk \<Rightarrow> (False, t\<lparr>tee_text_out := tee_text_out t @ s\<rparr>)
         | SinkIOError n \<Rightarrow> (False, t\<lparr>tee_text_out := tee_text_out t @ take n s, tee_text := False\<rparr>)
         | SinkAttributeError n \<Rightarrow>
             (False, t\<lparr>tee_text_out := tee_text_out t @ take n s, tee_text := False\<rparr>)
         | SinkRaised n \<Rightarrow> (True, t\<lparr>tee_text_out := tee_text_out t @ take n s\<rparr>))
      else (False, t))"

definition tee_write :: "sink \<Rightarrow> bytes \<Rightarrow> stream_tee \<Rightarrow> bool \<times> stream_tee" where
  "tee_write env chunk t = (if tee_sealed t then (False, t) else tee_emit env chunk t)"

text \<open>\<open>seal\<close> when no write races it; the flag says whether the lock was taken in time.\<close>

definition tee_seal :: "bool \<Rightarrow> stream_tee \<Rightarrow> bool \<times> stream_tee" where
  "tee_seal acquired t =
     (let t = t\<lparr>tee_sealed := True\<rparr>
      in if acquired then (True, t\<lparr>tee_binary := False, tee_text := False\<rparr>) else (False, t))"

definition tee_output :: "stream_tee \<Rightarrow> bytes \<times> str" where
  "tee_output t = (tee_bytes_out t, tee_text_out t)"

lemma tee_emit_sealed [simp]: "tee_sealed (snd (tee_emit env chunk t)) = tee_sealed t"
  by (auto simp: tee_emit_def Let_def split: sink.splits)

lemma tee_emit_closed: "\<not> tee_binary t \<Longrightarrow> \<not> tee_text t \<Longrightarrow> tee_emit env chunk t = (False, t)"
  by (simp add: tee_emit_def)

lemma tee_emit_ok: "tee_binary t \<Longrightarrow> tee_emit SinkOk chunk t = (False, t\<lparr>tee_bytes_out := tee_bytes_out t @ chunk\<rparr>)"
  by (simp add: tee_emit_def)

section \<open>Writing and sealing as concurrent steps\<close>

text \<open>
  The drainer thread writes while the supervisor seals.  A step is one atomic action of either:
  the drainer checks the sealed event, takes the lock, checks again, writes and releases; the
  sealer sets the event, takes the lock or times out on it, drops both streams and releases.
\<close>

datatype drainer_pc = DIdle | DChecked bytes | DLocked bytes | DWriting bytes | DDead
datatype sealer_pc = SIdle | SWaiting | SHolding | SReturned bool
datatype lock_owner = LDrainer | LSealer

record tee_sys =
  ts_tee :: stream_tee
  ts_lock :: "lock_owner option"
  ts_drainer :: drainer_pc
  ts_sealer :: sealer_pc

definition tee_sys_init :: "caller_stream \<Rightarrow> tee_sys" where
  "tee_sys_init stream =
     \<lparr>ts_tee = StreamTee stream, ts_lock = None, ts_drainer = DIdle, ts_sealer = SIdle\<rparr>"

inductive tee_step :: "tee_sys \<Rightarrow> tee_sys \<Rightarrow> bool" where
  write_refused: "ts_drainer s = DIdle \<Longrightarrow> tee_sealed (ts_tee s) \<Longrightarrow> tee_step s s"
| write_checked: "ts_drainer s = DIdle \<Longrightarrow> \<not> tee_sealed (ts_tee s) \<Longrightarrow>
     tee_step s (s\<lparr>ts_drainer := DChecked chunk\<rparr>)"
| write_locks: "ts_drainer s = DChecked chunk \<Longrightarrow> ts_lock s = None \<Longrightarrow>
     tee_step s (s\<lparr>ts_drainer := DLocked chunk, ts_lock := Some LDrainer\<rparr>)"
| write_dropped: "ts_drainer s = DLocked chunk \<Longrightarrow> tee_sealed (ts_tee s) \<Longrightarrow>
     tee_step s (s\<lparr>ts_drainer := DIdle, ts_lock := None\<rparr>)"
| write_starts: "ts_drainer s = DLocked chunk \<Longrightarrow> \<not> tee_sealed (ts_tee s) \<Longrightarrow>
     tee_step s (s\<lparr>ts_drainer := DWriting chunk\<rparr>)"
| write_ends: "ts_drainer s = DWriting chunk \<Longrightarrow> tee_emit env chunk (ts_tee s) = (raised, t) \<Longrightarrow>
     tee_step s (s\<lparr>ts_drainer := (if raised then DDead else DIdle), ts_lock := None, ts_tee := t\<rparr>)"
| seal_starts: "ts_sealer s = SIdle \<Longrightarrow>
     tee_step s (s\<lparr>ts_sealer := SWaiting, ts_tee := (ts_tee s)\<lparr>tee_sealed := True\<rparr>\<rparr>)"
| seal_locks: "ts_sealer s = SWaiting \<Longrightarrow> ts_lock s = None \<Longrightarrow>
     tee_step s (s\<lparr>ts_sealer := SHolding, ts_lock := Some LSealer\<rparr>)"
| seal_times_out: "ts_sealer s = SWaiting \<Longrightarrow> ts_lock s \<noteq> None \<Longrightarrow>
     tee_step s (s\<lparr>ts_sealer := SReturned False\<rparr>)"
| seal_drops: "ts_sealer s = SHolding \<Longrightarrow>
     tee_step s (s\<lparr>ts_sealer := SReturned True, ts_lock := None,
                  ts_tee := (ts_tee s)\<lparr>tee_binary := False, tee_text := False\<rparr>\<rparr>)"
| seal_again: "ts_sealer s = SReturned r \<Longrightarrow> tee_step s (s\<lparr>ts_sealer := SIdle\<rparr>)"

inductive tee_steps :: "tee_sys \<Rightarrow> tee_sys \<Rightarrow> bool" where
  tee_refl: "tee_steps s s"
| tee_trans: "tee_steps s t \<Longrightarrow> tee_step t u \<Longrightarrow> tee_steps s u"

text \<open>The invariant: the lock's owner agrees with both program counters, and a seal in progress or
  returned has set the event.\<close>

definition drainer_holds :: "drainer_pc \<Rightarrow> bool" where
  "drainer_holds pc \<longleftrightarrow> (case pc of DLocked _ \<Rightarrow> True | DWriting _ \<Rightarrow> True | _ \<Rightarrow> False)"

definition tee_closed :: "stream_tee \<Rightarrow> bool" where
  "tee_closed t \<longleftrightarrow> \<not> tee_binary t \<and> \<not> tee_text t"

definition tee_inv :: "tee_sys \<Rightarrow> bool" where
  "tee_inv s \<longleftrightarrow> (ts_lock s = Some LDrainer \<longleftrightarrow> drainer_holds (ts_drainer s))
     \<and> (ts_lock s = Some LSealer \<longleftrightarrow> ts_sealer s = SHolding)
     \<and> (ts_sealer s \<noteq> SIdle \<longrightarrow> tee_sealed (ts_tee s))
     \<and> (ts_sealer s = SReturned True \<longrightarrow> tee_closed (ts_tee s))"

lemma tee_step_inv: "tee_step s t \<Longrightarrow> tee_inv s \<Longrightarrow> tee_inv t"
proof (induction rule: tee_step.induct)
  case (write_ends s chunk env raised t)
  then have "tee_sealed t = tee_sealed (ts_tee s)" "tee_closed (ts_tee s) \<Longrightarrow> tee_closed t"
    by (metis snd_conv tee_emit_sealed) (metis snd_conv tee_closed_def tee_emit_closed write_ends(2))
  with write_ends show ?case
    by (auto simp: tee_inv_def drainer_holds_def)
qed (auto simp: tee_inv_def drainer_holds_def tee_closed_def)

lemma tee_steps_inv: "tee_steps s t \<Longrightarrow> tee_inv s \<Longrightarrow> tee_inv t"
  by (induction rule: tee_steps.induct) (auto intro: tee_step_inv)

lemma tee_init_inv: "tee_inv (tee_sys_init stream)"
  by (simp add: tee_inv_def tee_sys_init_def drainer_holds_def)

lemma tee_step_sealed: "tee_step s t \<Longrightarrow> tee_sealed (ts_tee s) \<Longrightarrow> tee_sealed (ts_tee t)"
proof (induction rule: tee_step.induct)
  case (write_ends s chunk env raised t)
  then have "tee_sealed t = tee_sealed (ts_tee s)"
    by (metis snd_conv tee_emit_sealed)
  with write_ends show ?case by simp
qed auto

lemma tee_steps_sealed: "tee_steps s t \<Longrightarrow> tee_sealed (ts_tee s) \<Longrightarrow> tee_sealed (ts_tee t)"
  by (induction rule: tee_steps.induct) (auto intro: tee_step_sealed)

lemma tee_step_closed:
  "tee_step s t \<Longrightarrow> tee_closed (ts_tee s) \<Longrightarrow>
     tee_closed (ts_tee t) \<and> tee_output (ts_tee t) = tee_output (ts_tee s)"
  by (induction rule: tee_step.induct) (auto simp: tee_closed_def tee_output_def tee_emit_closed)

lemma tee_steps_closed:
  "tee_steps s t \<Longrightarrow> tee_closed (ts_tee s) \<Longrightarrow>
     tee_closed (ts_tee t) \<and> tee_output (ts_tee t) = tee_output (ts_tee s)"
  by (induction rule: tee_steps.induct) (auto dest: tee_step_closed)

text \<open>
  A seal that returns True is final: in every interleaving of the drainer's writes with seals,
  once a seal has returned True nothing more reaches the caller's stream.
\<close>

theorem seal_true_final:
  assumes "tee_steps (tee_sys_init stream) s" and "ts_sealer s = SReturned True" and "tee_steps s t"
  shows "tee_output (ts_tee t) = tee_output (ts_tee s)"
proof -
  from assms(1) have "tee_inv s"
    by (rule tee_steps_inv [OF _ tee_init_inv])
  with assms(2) have "tee_closed (ts_tee s)"
    by (simp add: tee_inv_def)
  with assms(3) show ?thesis
    by (blast dest: tee_steps_closed)
qed

text \<open>A run that writes one chunk and then seals.\<close>

definition run_written :: tee_sys where
  "run_written = (tee_sys_init ByteBuffered)\<lparr>ts_tee := (StreamTee ByteBuffered)\<lparr>tee_bytes_out := [65]\<rparr>\<rparr>"

definition run_sealed :: tee_sys where
  "run_sealed = run_written\<lparr>ts_sealer := SReturned True,
     ts_tee := \<lparr>tee_binary = False, tee_text = False, tee_sealed = True,
                tee_bytes_out = [65], tee_text_out = []\<rparr>\<rparr>"

lemma run_in_flight:
  "tee_steps (tee_sys_init ByteBuffered)
     ((tee_sys_init ByteBuffered)\<lparr>ts_drainer := DWriting [65], ts_lock := Some LDrainer\<rparr>)"
proof -
  let ?i = "tee_sys_init ByteBuffered"
  have "tee_step ?i (?i\<lparr>ts_drainer := DChecked [65]\<rparr>)"
    by (rule write_checked) (simp_all add: tee_sys_init_def StreamTee_def)
  moreover have "tee_step (?i\<lparr>ts_drainer := DChecked [65]\<rparr>)
      (?i\<lparr>ts_drainer := DLocked [65], ts_lock := Some LDrainer\<rparr>)"
    using write_locks [of "?i\<lparr>ts_drainer := DChecked [65]\<rparr>" "[65]"] by (simp add: tee_sys_init_def)
  moreover have "tee_step (?i\<lparr>ts_drainer := DLocked [65], ts_lock := Some LDrainer\<rparr>)
      (?i\<lparr>ts_drainer := DWriting [65], ts_lock := Some LDrainer\<rparr>)"
    using write_starts [of "?i\<lparr>ts_drainer := DLocked [65], ts_lock := Some LDrainer\<rparr>" "[65]"]
    by (simp add: tee_sys_init_def StreamTee_def)
  ultimately show ?thesis
    by (meson tee_refl tee_trans)
qed

lemma run_written_steps: "tee_steps (tee_sys_init ByteBuffered) run_written"
proof (rule tee_trans [OF run_in_flight])
  let ?w = "(tee_sys_init ByteBuffered)\<lparr>ts_drainer := DWriting [65], ts_lock := Some LDrainer\<rparr>"
  have "tee_emit SinkOk [65] (ts_tee ?w) = (False, (StreamTee ByteBuffered)\<lparr>tee_bytes_out := [65]\<rparr>)"
    by (simp add: tee_emit_def tee_sys_init_def StreamTee_def)
  from write_ends [of ?w "[65]", OF _ this] show "tee_step ?w run_written"
    by (simp add: run_written_def tee_sys_init_def)
qed

lemma run_sealed_steps: "tee_steps (tee_sys_init ByteBuffered) run_sealed"
proof -
  let ?t = "(ts_tee run_written)\<lparr>tee_sealed := True\<rparr>"
  have "tee_step run_written (run_written\<lparr>ts_sealer := SWaiting, ts_tee := ?t\<rparr>)"
    by (rule seal_starts) (simp add: run_written_def tee_sys_init_def)
  moreover have "tee_step (run_written\<lparr>ts_sealer := SWaiting, ts_tee := ?t\<rparr>)
      (run_written\<lparr>ts_sealer := SHolding, ts_tee := ?t, ts_lock := Some LSealer\<rparr>)"
    using seal_locks [of "run_written\<lparr>ts_sealer := SWaiting, ts_tee := ?t\<rparr>"]
    by (simp add: run_written_def tee_sys_init_def)
  moreover have "tee_step (run_written\<lparr>ts_sealer := SHolding, ts_tee := ?t, ts_lock := Some LSealer\<rparr>) run_sealed"
    using seal_drops [of "run_written\<lparr>ts_sealer := SHolding, ts_tee := ?t, ts_lock := Some LSealer\<rparr>"]
    by (simp add: run_sealed_def run_written_def tee_sys_init_def StreamTee_def)
  ultimately show ?thesis
    by (meson run_written_steps tee_trans)
qed

theorem seal_true_final_witness:
  "\<exists>t. tee_steps run_sealed t \<and> ts_drainer t = DIdle \<and> tee_output (ts_tee t) = ([65], [])"
proof (intro exI conjI)
  have "tee_step run_sealed run_sealed"
    by (rule write_refused) (simp_all add: run_sealed_def run_written_def tee_sys_init_def)
  then show steps: "tee_steps run_sealed run_sealed"
    by (meson tee_refl tee_trans)
  show "ts_drainer run_sealed = DIdle"
    by (simp add: run_sealed_def run_written_def tee_sys_init_def)
  have "tee_output (ts_tee run_sealed) = tee_output (ts_tee run_sealed)"
    by (rule seal_true_final [OF run_sealed_steps _ steps]) (simp add: run_sealed_def)
  then show "tee_output (ts_tee run_sealed) = ([65], [])"
    by (simp add: run_sealed_def tee_output_def)
qed

text \<open>What may still land once the event is set: the one write already in flight, and only while
  it holds the lock.\<close>

definition in_flight :: "drainer_pc \<Rightarrow> bytes option" where
  "in_flight pc = (case pc of DWriting chunk \<Rightarrow> Some chunk | _ \<Rightarrow> None)"

definition same_targets :: "stream_tee \<Rightarrow> stream_tee \<Rightarrow> bool" where
  "same_targets a b \<longleftrightarrow> tee_binary a = tee_binary b \<and> tee_text a = tee_text b \<and> tee_output a = tee_output b"

lemma tee_emit_targets:
  "same_targets a b \<Longrightarrow> tee_output (snd (tee_emit env c a)) = tee_output (snd (tee_emit env c b))"
  by (cases env) (auto simp: same_targets_def tee_emit_def tee_output_def Let_def)

definition sealed_from :: "tee_sys \<Rightarrow> tee_sys \<Rightarrow> bool" where
  "sealed_from s t \<longleftrightarrow>
     (case in_flight (ts_drainer s) of
        None \<Rightarrow> in_flight (ts_drainer t) = None \<and> tee_output (ts_tee t) = tee_output (ts_tee s)
      | Some c \<Rightarrow>
          (in_flight (ts_drainer t) = Some c \<and> same_targets (ts_tee t) (ts_tee s))
          \<or> (in_flight (ts_drainer t) = None
             \<and> (\<exists>env. tee_output (ts_tee t) = tee_output (snd (tee_emit env c (ts_tee s))))))"

lemma sealed_from_step:
  "tee_step t u \<Longrightarrow> tee_inv t \<Longrightarrow> tee_sealed (ts_tee t) \<Longrightarrow> sealed_from s t \<Longrightarrow> sealed_from s u"
proof (induction rule: tee_step.induct)
  case (write_ends v chunk env raised t)
  then have "in_flight (ts_drainer s) = Some chunk" "same_targets (ts_tee v) (ts_tee s)"
    by (auto simp: sealed_from_def in_flight_def split: option.splits)
  moreover from this write_ends have "tee_output t = tee_output (snd (tee_emit env chunk (ts_tee s)))"
    by (metis snd_conv tee_emit_targets)
  ultimately show ?case
    by (auto simp: sealed_from_def in_flight_def)
next
  case (seal_drops v)
  then have "in_flight (ts_drainer v) = None"
    by (auto simp: tee_inv_def drainer_holds_def in_flight_def split: drainer_pc.splits)
  with seal_drops show ?case
    by (auto simp: sealed_from_def tee_output_def split: option.splits)
qed (auto simp: sealed_from_def in_flight_def same_targets_def tee_output_def split: option.splits)

text \<open>
  C25 (sealing bounds what can still be written): once the sealed event is set, every later state of
  every interleaving has the same output, except that the single write in flight at that moment,
  if there is one, may still end in one of the ways the caller's stream allows.
\<close>

theorem seal_one_chunk:
  assumes "tee_steps (tee_sys_init stream) s" and "tee_sealed (ts_tee s)" and "tee_steps s t"
  shows "tee_output (ts_tee t) = tee_output (ts_tee s)
    \<or> (\<exists>chunk env. in_flight (ts_drainer s) = Some chunk
         \<and> tee_output (ts_tee t) = tee_output (snd (tee_emit env chunk (ts_tee s))))"
proof -
  from assms(1) have inv: "tee_inv s"
    by (rule tee_steps_inv [OF _ tee_init_inv])
  from assms(3) inv assms(2) have "sealed_from s t"
  proof (induction rule: tee_steps.induct)
    case (tee_refl s)
    then show ?case
      by (auto simp: sealed_from_def same_targets_def split: option.splits)
  next
    case (tee_trans s t u)
    then show ?case
      using sealed_from_step tee_steps_inv tee_steps_sealed by blast
  qed
  then show ?thesis
    by (auto simp: sealed_from_def same_targets_def split: option.splits)
qed

text \<open>The seal arrives while \<open>[65]\<close> is being written; the write then ends and its chunk lands.\<close>

theorem seal_one_chunk_witness:
  "\<exists>s t. tee_sealed (ts_tee s) \<and> tee_steps s t \<and> tee_output (ts_tee s) = ([], [])
     \<and> tee_output (ts_tee t) = ([65], [])
     \<and> (\<exists>chunk env. in_flight (ts_drainer s) = Some chunk
          \<and> tee_output (ts_tee t) = tee_output (snd (tee_emit env chunk (ts_tee s))))"
proof -
  let ?w = "(tee_sys_init ByteBuffered)\<lparr>ts_drainer := DWriting [65], ts_lock := Some LDrainer\<rparr>"
  let ?s = "?w\<lparr>ts_sealer := SWaiting, ts_tee := (ts_tee ?w)\<lparr>tee_sealed := True\<rparr>\<rparr>"
  let ?r = "(ts_tee ?s)\<lparr>tee_bytes_out := [65]\<rparr>"
  let ?t = "?s\<lparr>ts_drainer := DIdle, ts_lock := None, ts_tee := ?r\<rparr>"
  have "tee_step ?w ?s"
    by (rule seal_starts) (simp add: tee_sys_init_def)
  then have s: "tee_steps (tee_sys_init ByteBuffered) ?s"
    by (rule tee_trans [OF run_in_flight])
  have "tee_emit SinkOk [65] (ts_tee ?s) = (False, ?r)"
    by (simp add: tee_emit_def tee_sys_init_def StreamTee_def)
  from write_ends [of ?s "[65]", OF _ this] have "tee_step ?s ?t"
    by simp
  then have t: "tee_steps ?s ?t"
    by (meson tee_refl tee_trans)
  have out: "tee_output (ts_tee ?s) = ([], [])" "tee_output (ts_tee ?t) = ([65], [])" "tee_sealed (ts_tee ?s)"
    by (simp_all add: tee_output_def tee_sys_init_def StreamTee_def)
  with seal_one_chunk [OF s _ t] have "\<exists>chunk env. in_flight (ts_drainer ?s) = Some chunk
      \<and> tee_output (ts_tee ?t) = tee_output (snd (tee_emit env chunk (ts_tee ?s)))"
    by auto
  with t out show ?thesis by blast
qed

section \<open>The loop of \<open>_tee_stream\<close>\<close>

text \<open>
  One tick is one pass of the loop: whether the stop flag is seen, what \<open>poll\<close> says, what the read
  returns and how the caller's stream takes the chunk.  \<open>dr_failed_fileno\<close> is the early return for a
  pipe that is already closed, which leaves before the \<open>finally\<close> that closes the source.
\<close>

datatype poll_result = PollInterrupted | PollError | PollNothing | PollEvents
datatype read_result = ReadInterrupted | ReadError | ReadChunk bytes

record drain_tick =
  tk_stop :: bool
  tk_poll :: poll_result
  tk_read :: read_result
  tk_sink :: sink

record drainer =
  dr_tee :: stream_tee
  dr_pending :: bytes
  dr_discarding :: bool
  dr_reached_eof :: bool
  dr_source_open :: bool
  dr_started :: bool

datatype drain_status = Draining | LeftLoop | Escaped

definition scan_into :: "bytes \<Rightarrow> drainer \<Rightarrow> marker_retention option \<Rightarrow> drainer \<times> marker_retention option" where
  "scan_into chunk d retention =
     (case retention of
        None \<Rightarrow> (d, None)
      | Some m \<Rightarrow>
          let s = scan_chunk (utf8_encode (mr_prefix m)) chunk
                    \<lparr>sc_pending = dr_pending d, sc_discarding = dr_discarding d, sc_retention = m\<rparr>
          in (d\<lparr>dr_pending := sc_pending s, dr_discarding := sc_discarding s\<rparr>, Some (sc_retention s)))"

definition close_source :: "drainer \<Rightarrow> drainer" where
  "close_source d = d\<lparr>dr_source_open := False\<rparr>"

definition drain_step ::
  "drain_tick \<Rightarrow> drainer \<times> marker_retention option \<Rightarrow> drain_status \<times> drainer \<times> marker_retention option" where
  "drain_step tick st =
     (case st of (d, retention) \<Rightarrow>
        if tk_stop tick then (LeftLoop, close_source d, retention)
        else case tk_poll tick of
          PollInterrupted \<Rightarrow> (Draining, d, retention)
        | PollError \<Rightarrow> (LeftLoop, close_source d, retention)
        | PollNothing \<Rightarrow> (Draining, d, retention)
        | PollEvents \<Rightarrow>
            (case tk_read tick of
               ReadInterrupted \<Rightarrow> (Draining, d, retention)
             | ReadError \<Rightarrow> (LeftLoop, close_source d, retention)
             | ReadChunk chunk \<Rightarrow>
                 if chunk = [] then (LeftLoop, close_source (d\<lparr>dr_reached_eof := True\<rparr>), retention)
                 else (case tee_write (tk_sink tick) chunk (dr_tee d) of
                         (True, t) \<Rightarrow> (Escaped, close_source (d\<lparr>dr_tee := t\<rparr>), retention)
                       | (False, t) \<Rightarrow>
                           (Draining, scan_into chunk (d\<lparr>dr_tee := t\<rparr>) retention))))"

fun drain_loop ::
  "drain_tick list \<Rightarrow> drainer \<times> marker_retention option \<Rightarrow> drain_status \<times> drainer \<times> marker_retention option" where
  "drain_loop [] st = (Draining, st)"
| "drain_loop (tick # ticks) st =
     (case drain_step tick st of
        (Draining, st') \<Rightarrow> drain_loop ticks st'
      | (status, st') \<Rightarrow> (status, st'))"

definition tee_stream ::
  "bool \<Rightarrow> drain_tick list \<Rightarrow> drainer \<times> marker_retention option \<Rightarrow> drain_status \<times> drainer \<times> marker_retention option" where
  "tee_stream fileno_ok ticks st = (if fileno_ok then drain_loop ticks st else (LeftLoop, st))"

text \<open>What a drainer read before it left, and the cases of one step.\<close>

fun chunks_read :: "drain_tick list \<Rightarrow> bytes list" where
  "chunks_read [] = []"
| "chunks_read (tick # ticks) =
     (if tk_stop tick then []
      else case tk_poll tick of
        PollError \<Rightarrow> []
      | PollEvents \<Rightarrow>
          (case tk_read tick of
             ReadInterrupted \<Rightarrow> chunks_read ticks
           | ReadError \<Rightarrow> []
           | ReadChunk c \<Rightarrow> if c = [] then [] else c # chunks_read ticks)
      | _ \<Rightarrow> chunks_read ticks)"

lemmas drain_splits = if_splits poll_result.splits read_result.splits prod.splits bool.splits
  option.splits drain_status.splits

lemma scan_lines_prefix: "mr_prefix (sc_retention (scan_lines p s)) = mr_prefix (sc_retention s)"
proof (induction p s rule: scan_lines.induct)
  case (1 p s)
  then show ?case
    by (subst scan_lines.simps) (auto simp: Let_def record_line_def split: option.splits)
qed

lemma scan_chunk_prefix [simp]: "mr_prefix (sc_retention (scan_chunk p c s)) = mr_prefix (sc_retention s)"
  by (simp add: scan_chunk_def Let_def scan_lines_prefix)

lemma scan_into_fields [simp]:
  "dr_tee (fst (scan_into c d r)) = dr_tee d"
  "dr_reached_eof (fst (scan_into c d r)) = dr_reached_eof d"
  "dr_source_open (fst (scan_into c d r)) = dr_source_open d"
  by (auto simp: scan_into_def Let_def split: option.splits)

lemma close_source_fields [simp]:
  "dr_tee (close_source d) = dr_tee d" "dr_pending (close_source d) = dr_pending d"
  "dr_reached_eof (close_source d) = dr_reached_eof d" "\<not> dr_source_open (close_source d)"
  by (simp_all add: close_source_def)

lemma scan_into_bound:
  "length (dr_pending d) \<le> MARKER_SCAN_LIMIT_BYTES \<Longrightarrow>
     length (dr_pending (fst (scan_into c d r))) \<le> MARKER_SCAN_LIMIT_BYTES"
  by (auto simp: scan_into_def Let_def scan_chunk_bound split: option.splits)

lemma drain_step_bound:
  "length (dr_pending (fst st)) \<le> MARKER_SCAN_LIMIT_BYTES \<Longrightarrow>
     length (dr_pending (fst (snd (drain_step tick st)))) \<le> MARKER_SCAN_LIMIT_BYTES"
  by (auto simp: drain_step_def scan_into_bound split: drain_splits)

text \<open>
  C38 (a flooding child costs a bounded amount of memory): whatever the child writes and however the
  loop ends, the bytes a drainer holds back for the marker scan never exceed the scan limit.
\<close>

theorem drain_memory_bound:
  assumes "length (dr_pending (fst st)) \<le> MARKER_SCAN_LIMIT_BYTES"
  shows "length (dr_pending (fst (snd (drain_loop ticks st)))) \<le> MARKER_SCAN_LIMIT_BYTES"
  using assms
proof (induction ticks arbitrary: st)
  case Nil
  then show ?case by simp
next
  case (Cons tick ticks)
  from drain_step_bound [OF Cons.prems, of tick] Cons.IH [of "snd (drain_step tick st)"] show ?case
    by (auto split: prod.splits drain_status.splits)
qed

definition fresh_drainer :: "caller_stream \<Rightarrow> drainer" where
  "fresh_drainer stream =
     \<lparr>dr_tee = StreamTee stream, dr_pending = [], dr_discarding = False, dr_reached_eof = False,
      dr_source_open = True, dr_started = False\<rparr>"

theorem drain_memory_bound_witness:
  "length (dr_pending (fst (snd (drain_loop
      [\<lparr>tk_stop = False, tk_poll = PollEvents, tk_read = ReadChunk [65, 66], tk_sink = SinkOk\<rparr>]
      (fresh_drainer ByteBuffered, Some (MarkerRetention [77])))))) \<le> MARKER_SCAN_LIMIT_BYTES"
  by (rule drain_memory_bound) (simp add: fresh_drainer_def)

text \<open>A drainer that left its loop has closed its source; only a zero-length read proves the end of
  file.\<close>

lemma drain_step_left: "fst (drain_step tick st) \<noteq> Draining \<Longrightarrow> \<not> dr_source_open (fst (snd (drain_step tick st)))"
  by (auto simp: drain_step_def split: drain_splits)

lemma drain_loop_closes: "fst (drain_loop ticks st) \<noteq> Draining \<Longrightarrow> \<not> dr_source_open (fst (snd (drain_loop ticks st)))"
proof (induction ticks arbitrary: st)
  case Nil
  then show ?case by simp
next
  case (Cons tick ticks)
  then show ?case
    using drain_step_left [of tick st] by (auto split: prod.splits drain_status.splits)
qed

lemma drain_step_eof:
  "dr_reached_eof (fst (snd (drain_step tick st))) \<Longrightarrow> dr_reached_eof (fst st)
     \<or> \<not> tk_stop tick \<and> tk_poll tick = PollEvents \<and> tk_read tick = ReadChunk []"
  by (auto simp: drain_step_def split: drain_splits)

lemma drain_loop_eof:
  "dr_reached_eof (fst (snd (drain_loop ticks st))) \<Longrightarrow> dr_reached_eof (fst st)
     \<or> (\<exists>tick \<in> set ticks. \<not> tk_stop tick \<and> tk_poll tick = PollEvents \<and> tk_read tick = ReadChunk [])"
proof (induction ticks arbitrary: st)
  case Nil
  then show ?case by simp
next
  case (Cons tick ticks)
  obtain status st' where s: "drain_step tick st = (status, st')"
    by (cases "drain_step tick st")
  show ?case
  proof (cases "status = Draining")
    case True
    with Cons.prems s have "dr_reached_eof (fst (snd (drain_loop ticks st')))" by simp
    from Cons.IH [OF this] drain_step_eof [of tick st] s show ?thesis by auto
  next
    case False
    with Cons.prems s have "dr_reached_eof (fst st')" by (auto split: drain_status.splits)
    with drain_step_eof [of tick st] s show ?thesis by auto
  qed
qed

text \<open>While the caller's stream takes every chunk, one step forwards what it read and feeds it to the
  marker scan.\<close>

definition scan_of :: "drainer \<Rightarrow> marker_retention \<Rightarrow> scan" where
  "scan_of d m = \<lparr>sc_pending = dr_pending d, sc_discarding = dr_discarding d, sc_retention = m\<rparr>"

lemma scan_into_Some:
  "scan_into c d (Some m) =
     (let s = scan_chunk (utf8_encode (mr_prefix m)) c (scan_of d m)
      in (d\<lparr>dr_pending := sc_pending s, dr_discarding := sc_discarding s\<rparr>, Some (sc_retention s)))"
  by (simp add: scan_into_def scan_of_def)

lemma scan_of_update: "scan_of (d\<lparr>dr_pending := sc_pending s, dr_discarding := sc_discarding s\<rparr>) (sc_retention s) = s"
  by (simp add: scan_of_def)

lemma scan_of_tee [simp]: "scan_of (d\<lparr>dr_tee := t\<rparr>) m = scan_of d m"
  by (simp add: scan_of_def)

text \<open>
  A drainer forwards everything it reads: while the caller's byte stream is open and accepts
  every write, the drainer's output is exactly the chunks it read, in order, and its retention is
  that of the marker scan over the same chunks.
\<close>

theorem drain_forwards:
  assumes "list_all (\<lambda>k. tk_sink k = SinkOk) ticks"
    and "tee_binary (dr_tee d)" and "\<not> tee_sealed (dr_tee d)"
    and "drain_loop ticks (d, Some m) = (status, d', r')"
  shows "tee_bytes_out (dr_tee d') = tee_bytes_out (dr_tee d) @ concat (chunks_read ticks)
    \<and> r' = Some (sc_retention (fold (scan_chunk (utf8_encode (mr_prefix m))) (chunks_read ticks) (scan_of d m)))"
  using assms
proof (induction ticks arbitrary: d m)
  case Nil
  then show ?case by (simp add: scan_of_def)
next
  case (Cons k ks)
  show ?case
  proof (cases "\<not> tk_stop k \<and> tk_poll k = PollEvents \<and> (\<exists>c. tk_read k = ReadChunk c \<and> c \<noteq> [])")
    case True
    then obtain c where c: "\<not> tk_stop k" "tk_poll k = PollEvents" "tk_read k = ReadChunk c" "c \<noteq> []"
      by blast
    let ?s = "scan_chunk (utf8_encode (mr_prefix m)) c (scan_of d m)"
    let ?t = "(dr_tee d)\<lparr>tee_bytes_out := tee_bytes_out (dr_tee d) @ c\<rparr>"
    let ?d = "d\<lparr>dr_tee := ?t, dr_pending := sc_pending ?s, dr_discarding := sc_discarding ?s\<rparr>"
    have "drain_step k (d, Some m) = (Draining, ?d, Some (sc_retention ?s))"
      using c Cons.prems(1-3)
      by (simp add: drain_step_def tee_write_def tee_emit_ok scan_into_Some Let_def)
    with Cons.prems have "drain_loop ks (?d, Some (sc_retention ?s)) = (status, d', r')" by simp
    from Cons.IH [OF _ _ _ this] Cons.prems have
      "tee_bytes_out (dr_tee d') = tee_bytes_out (dr_tee ?d) @ concat (chunks_read ks)
       \<and> r' = Some (sc_retention (fold (scan_chunk (utf8_encode (mr_prefix (sc_retention ?s)))) (chunks_read ks)
                (scan_of ?d (sc_retention ?s))))"
      by simp
    moreover have "scan_of ?d (sc_retention ?s) = ?s" by (simp add: scan_of_def)
    moreover have "mr_prefix (sc_retention ?s) = mr_prefix m" by (simp add: scan_of_def)
    moreover have "chunks_read (k # ks) = c # chunks_read ks" using c by simp
    ultimately show ?thesis by simp
  next
    case False
    with Cons show ?thesis
      by (auto simp: drain_step_def scan_of_def split: drain_splits)
  qed
qed

theorem drain_forwards_witness:
  "tee_bytes_out (dr_tee (fst (snd (drain_loop
      [\<lparr>tk_stop = False, tk_poll = PollEvents, tk_read = ReadChunk [77, 49], tk_sink = SinkOk\<rparr>,
       \<lparr>tk_stop = False, tk_poll = PollInterrupted, tk_read = ReadError, tk_sink = SinkOk\<rparr>,
       \<lparr>tk_stop = False, tk_poll = PollEvents, tk_read = ReadChunk [10], tk_sink = SinkOk\<rparr>,
       \<lparr>tk_stop = False, tk_poll = PollEvents, tk_read = ReadChunk [], tk_sink = SinkOk\<rparr>]
      (fresh_drainer ByteBuffered, Some (MarkerRetention [77])))))) = [77, 49, 10]"
proof -
  let ?ks = "[\<lparr>tk_stop = False, tk_poll = PollEvents, tk_read = ReadChunk [77, 49], tk_sink = SinkOk\<rparr>,
       \<lparr>tk_stop = False, tk_poll = PollInterrupted, tk_read = ReadError, tk_sink = SinkOk\<rparr>,
       \<lparr>tk_stop = False, tk_poll = PollEvents, tk_read = ReadChunk [10], tk_sink = SinkOk\<rparr>,
       \<lparr>tk_stop = False, tk_poll = PollEvents, tk_read = ReadChunk [], tk_sink = SinkOk\<rparr>]"
  let ?r = "drain_loop ?ks (fresh_drainer ByteBuffered, Some (MarkerRetention [77]))"
  have "tee_bytes_out (dr_tee (fst (snd ?r))) =
      tee_bytes_out (dr_tee (fresh_drainer ByteBuffered)) @ concat (chunks_read ?ks)"
    by (rule conjunct1 [OF drain_forwards [of ?ks "fresh_drainer ByteBuffered" "MarkerRetention [77]"
        "fst ?r" "fst (snd ?r)" "snd (snd ?r)"]]) (simp_all add: fresh_drainer_def StreamTee_def)
  then show ?thesis
    by (simp add: fresh_drainer_def StreamTee_def)
qed

section \<open>Preparing, awaiting and sealing the drainers of one child\<close>

text \<open>
  The tuples \<open>threads\<close>, \<open>tees\<close>, \<open>sources\<close> and \<open>eof_events\<close> of \<open>_DrainState\<close> are parallel and of one
  length; entry by entry they are the fields of a \<open>drainer\<close>.
\<close>

record drain_state =
  ds_drainers :: "drainer list"
  ds_stop :: bool
  ds_retention :: "marker_retention option"

definition prepare_drainers ::
  "bool \<Rightarrow> bool \<Rightarrow> caller_stream \<Rightarrow> caller_stream \<Rightarrow> marker_retention \<Rightarrow> drain_state" where
  "prepare_drainers stdout_piped stderr_piped sys_stdout sys_stderr retention =
     \<lparr>ds_drainers = (if stdout_piped then [fresh_drainer sys_stdout] else [])
                     @ (if stderr_piped then [fresh_drainer sys_stderr] else []),
      ds_stop = False, ds_retention = Some retention\<rparr>"

text \<open>\<open>thread.start()\<close> may raise; the threads before it have started by then.\<close>

definition start_drainers :: "nat option \<Rightarrow> drain_state \<Rightarrow> bool \<times> drain_state" where
  "start_drainers failing_at st =
     (let n = (case failing_at of None \<Rightarrow> length (ds_drainers st) | Some k \<Rightarrow> min k (length (ds_drainers st)));
          start = map (\<lambda>d. d\<lparr>dr_started := True\<rparr>)
      in (failing_at \<noteq> None \<and> n < length (ds_drainers st),
          st\<lparr>ds_drainers := start (take n (ds_drainers st)) @ drop n (ds_drainers st)\<rparr>))"

definition all_reached_eof :: "drain_state \<Rightarrow> bool" where
  "all_reached_eof st \<longleftrightarrow> list_all dr_reached_eof (ds_drainers st)"

text \<open>The bounded join lets the drainers progress; \<open>st\<close> is their state when the budget is spent.\<close>

definition await_drainer_eof :: "drain_state option \<Rightarrow> bool" where
  "await_drainer_eof state = (case state of None \<Rightarrow> True | Some st \<Rightarrow> all_reached_eof st)"

definition seal_drainer :: "bool \<Rightarrow> drainer \<Rightarrow> drainer" where
  "seal_drainer acquired d =
     (let (sealed, t) = tee_seal acquired (dr_tee d); d' = d\<lparr>dr_tee := t\<rparr>
      in if sealed \<and> dr_started d then d' else close_source d')"

definition seal_drainers :: "bool list \<Rightarrow> drain_state option \<Rightarrow> drain_state option" where
  "seal_drainers acquired state =
     (case state of
        None \<Rightarrow> None
      | Some st \<Rightarrow>
          let st = (if ds_retention st \<noteq> None \<and> \<not> all_reached_eof st
                    then st\<lparr>ds_retention := map_option mark_capture_incomplete (ds_retention st)\<rparr> else st);
              st = st\<lparr>ds_stop := True\<rparr>;
              st = st\<lparr>ds_retention := map_option mr_freeze (ds_retention st)\<rparr>
          in Some (st\<lparr>ds_drainers := map2 seal_drainer acquired (ds_drainers st)\<rparr>))"

text \<open>Settling is the bounded wait, in which the drainers progress, and then the seal.\<close>

definition settle_drainers ::
  "(drain_state \<Rightarrow> drain_state) \<Rightarrow> bool list \<Rightarrow> drain_state option \<Rightarrow> drain_state option" where
  "settle_drainers progress acquired state = seal_drainers acquired (map_option progress state)"

lemma seal_drainer_sealed [simp]: "tee_sealed (dr_tee (seal_drainer a d))"
  by (auto simp: seal_drainer_def tee_seal_def Let_def close_source_def)

lemma seal_drainer_eof [simp]: "dr_reached_eof (seal_drainer a d) = dr_reached_eof d"
  by (auto simp: seal_drainer_def tee_seal_def Let_def close_source_def)

lemma seal_drainers_eof:
  "length acq = length ds \<Longrightarrow> list_all dr_reached_eof (map2 seal_drainer acq ds) = list_all dr_reached_eof ds"
  by (induction acq ds rule: list_induct2) auto

lemma seal_drainer_released:
  "tee_closed (dr_tee (seal_drainer a d)) \<or> \<not> dr_source_open (seal_drainer a d)"
  by (auto simp: seal_drainer_def tee_seal_def tee_closed_def Let_def)

text \<open>
  After a seal nothing is left open: the stop flag is set, the marker is frozen, every caller
  stream refuses writes, every drainer whose writer could not be waited out has lost its pipe, and
  the capture is reported complete only if it was before and every pipe reached end of file.
\<close>

theorem seal_drainers_spec:
  assumes "seal_drainers acquired (Some st) = Some st'" and "length acquired = length (ds_drainers st)"
  shows "ds_stop st'
    \<and> list_all (\<lambda>d. tee_sealed (dr_tee d)) (ds_drainers st')
    \<and> list_all (\<lambda>d. tee_closed (dr_tee d) \<or> \<not> dr_source_open d) (ds_drainers st')
    \<and> (\<forall>m. ds_retention st' = Some m \<longrightarrow> mr_frozen m
          \<and> (mr_capture_complete m \<longleftrightarrow>
               mr_capture_complete (the (ds_retention st)) \<and> list_all dr_reached_eof (ds_drainers st')))"
proof -
  have ds: "ds_drainers st' = map2 seal_drainer acquired (ds_drainers st)" and "ds_stop st'"
    using assms(1) by (auto simp: seal_drainers_def Let_def)
  have "list_all dr_reached_eof (ds_drainers st') \<longleftrightarrow> all_reached_eof st"
    using assms(2) by (simp add: ds all_reached_eof_def seal_drainers_eof)
  moreover have "list_all (\<lambda>d. tee_sealed (dr_tee d)) (ds_drainers st')"
    unfolding ds by (auto simp: list_all_iff dest!: set_zip_rightD)
  moreover have "list_all (\<lambda>d. tee_closed (dr_tee d) \<or> \<not> dr_source_open d) (ds_drainers st')"
    unfolding ds using seal_drainer_released by (auto simp: list_all_iff)
  ultimately show ?thesis
    using assms(1) \<open>ds_stop st'\<close>
    by (auto simp: seal_drainers_def Let_def mr_freeze_def mark_capture_incomplete_def split: if_splits)
qed

text \<open>A drainer parked in a write: its tee stays open to that write, its pipe is closed.\<close>

theorem seal_drainers_spec_witness:
  "\<exists>st'. seal_drainers [False, True]
        (Some (snd (start_drainers None (prepare_drainers True True ByteBuffered ByteBuffered (MarkerRetention [77])))))
      = Some st'
    \<and> list_all (\<lambda>d. tee_sealed (dr_tee d)) (ds_drainers st')
    \<and> map dr_source_open (ds_drainers st') = [False, True]
    \<and> map_option mr_capture_complete (ds_retention st') = Some False"
proof -
  let ?st = "snd (start_drainers None (prepare_drainers True True ByteBuffered ByteBuffered (MarkerRetention [77])))"
  let ?d = "(fresh_drainer ByteBuffered)\<lparr>dr_started := True\<rparr>"
  let ?m = "mr_freeze (mark_capture_incomplete (MarkerRetention [77]))"
  let ?st' = "\<lparr>ds_drainers = [seal_drainer False ?d, seal_drainer True ?d], ds_stop = True, ds_retention = Some ?m\<rparr>"
  have st: "?st = \<lparr>ds_drainers = [?d, ?d], ds_stop = False, ds_retention = Some (MarkerRetention [77])\<rparr>"
    by (simp add: start_drainers_def prepare_drainers_def)
  have not_eof: "\<not> all_reached_eof ?st"
    by (simp add: st all_reached_eof_def fresh_drainer_def)
  have st': "seal_drainers [False, True] (Some ?st) = Some ?st'"
    using not_eof by (simp add: seal_drainers_def st Let_def)
  from seal_drainers_spec [OF st'] have "list_all (\<lambda>d. tee_sealed (dr_tee d)) (ds_drainers ?st')"
    by (simp add: st)
  moreover have "map dr_source_open (ds_drainers ?st') = [False, True]"
    by (simp add: seal_drainer_def tee_seal_def close_source_def fresh_drainer_def)
  moreover have "map_option mr_capture_complete (ds_retention ?st') = Some False"
    by (simp add: mr_freeze_def mark_capture_incomplete_def)
  ultimately show ?thesis
    by (intro exI [of _ ?st'] conjI st')
qed

text \<open>Sealing twice is sealing once, so a cancellation may interrupt a settle and settle again.\<close>

lemma seal_drainer_idem: "seal_drainer True (seal_drainer True d) = seal_drainer True d"
  by (simp add: seal_drainer_def tee_seal_def Let_def close_source_def)

end
