(* ===== verification/Deadline.thy ===== *)
theory Deadline
  imports Complex_Main Drain
begin

text \<open>
  The structured endings of a supervised command in \<^verbatim>\<open>scripts/harness/watchdog.py\<close>, the deadline
  sentinel that must agree with them, the validation before a spawn, the exit status of the
  command-line entry point, and the operations on the child's process group.
\<close>

section \<open>Terminations\<close>

text \<open>\<open>HarnessError\<close> carries a message; each message of the source is one constructor.\<close>

datatype harness_detail =
    EmptyCommand
  | BadTimeout
  | BadSentinel
  | SpawnFailed
  | TimeoutWithoutSentinel
  | NonTimeoutWithSentinel
  | SentinelNotCleared
  | InternalFailure str "str list" bool "int option"
  | SentinelNotCreated
  | SupervisorRaised

datatype ending =
    Exited int
  | Signaled int
  | TimedOut
  | Cancelled int
  | HarnessError harness_detail

definition TIMEOUT_EXIT_CODE :: int where
  "TIMEOUT_EXIT_CODE = 124"

definition SIGINT :: int where "SIGINT = 2"
definition SIGKILL :: int where "SIGKILL = 9"
definition SIGTERM :: int where "SIGTERM = 15"
definition SIGSTOP :: int where "SIGSTOP = 19"

text \<open>\<open>_exit_with_termination\<close>: the process's own status, or the signal it re-raises on itself; the
  return value behind \<open>os.kill\<close> is reached when the signal does not kill it.\<close>

datatype exit_action = ExitWith int | RaiseSignal bool int int

definition exit_with_termination :: "ending \<Rightarrow> exit_action" where
  "exit_with_termination t =
     (case t of
        Exited code \<Rightarrow> ExitWith code
      | TimedOut \<Rightarrow> ExitWith TIMEOUT_EXIT_CODE
      | HarnessError _ \<Rightarrow> ExitWith 70
      | Signaled signo \<Rightarrow> RaiseSignal (signo \<noteq> SIGKILL \<and> signo \<noteq> SIGSTOP) signo (128 + signo)
      | Cancelled signo \<Rightarrow> RaiseSignal (signo \<noteq> SIGKILL \<and> signo \<noteq> SIGSTOP) signo (128 + signo))"

section \<open>The deadline sentinel\<close>

text \<open>What a path names.  \<open>exists()\<close> and \<open>is_file()\<close> follow links, \<open>is_symlink()\<close> does not.\<close>

datatype path_state = Absent | RegularFile | OtherFile | LinkToFile | LinkToOther | DanglingLink

definition path_exists :: "path_state \<Rightarrow> bool" where
  "path_exists p \<longleftrightarrow> p \<in> {RegularFile, OtherFile, LinkToFile, LinkToOther}"

definition path_is_symlink :: "path_state \<Rightarrow> bool" where
  "path_is_symlink p \<longleftrightarrow> p \<in> {LinkToFile, LinkToOther, DanglingLink}"

definition path_is_file :: "path_state \<Rightarrow> bool" where
  "path_is_file p \<longleftrightarrow> p \<in> {RegularFile, LinkToFile}"

definition validate_deadline_proof :: "ending \<Rightarrow> path_state option \<Rightarrow> ending" where
  "validate_deadline_proof t sentinel =
     (let sentinel_present =
            (case sentinel of None \<Rightarrow> False | Some p \<Rightarrow> path_exists p \<or> path_is_symlink p);
          sentinel_matches =
            (sentinel_present \<and> (case sentinel of None \<Rightarrow> False | Some p \<Rightarrow> path_is_file p \<and> \<not> path_is_symlink p))
      in if t = TimedOut then
           (if \<not> sentinel_matches then HarnessError TimeoutWithoutSentinel else t)
         else if sentinel_present then HarnessError NonTimeoutWithSentinel
         else t)"

text \<open>\<open>unlink_fails\<close> is the environment's answer to \<open>unlink(missing_ok=True)\<close>.\<close>

definition clear_non_timeout_sentinel ::
  "bool \<Rightarrow> ending \<Rightarrow> path_state option \<Rightarrow> ending \<times> path_state option" where
  "clear_non_timeout_sentinel unlink_fails t sentinel =
     (if t = TimedOut \<or> sentinel = None then (validate_deadline_proof t sentinel, sentinel)
      else if unlink_fails then (HarnessError SentinelNotCleared, sentinel)
      else (validate_deadline_proof t (Some Absent), Some Absent))"

definition is_harness_error :: "ending \<Rightarrow> bool" where
  "is_harness_error t \<longleftrightarrow> (case t of HarnessError _ \<Rightarrow> True | _ \<Rightarrow> False)"

lemma is_harness_error_simps [simp]:
  "is_harness_error (HarnessError d)" "\<not> is_harness_error TimedOut" "\<not> is_harness_error (Exited c)"
  "\<not> is_harness_error (Signaled n)" "\<not> is_harness_error (Cancelled n)"
  by (simp_all add: is_harness_error_def)

text \<open>
  The proof returns the termination unchanged exactly
  when a timeout finds its sentinel as a regular file that is no link, or any other ending finds
  nothing at all under that name; every other combination is a harness error.
\<close>

theorem validate_deadline_proof_spec:
  "validate_deadline_proof t sentinel = t \<longleftrightarrow>
     is_harness_error t \<and> (t = HarnessError NonTimeoutWithSentinel \<or> sentinel \<in> {None, Some Absent})
     \<or> t = TimedOut \<and> sentinel = Some RegularFile
     \<or> \<not> is_harness_error t \<and> t \<noteq> TimedOut \<and> sentinel \<in> {None, Some Absent}"
  by (cases t; cases sentinel)
     (auto simp: validate_deadline_proof_def path_exists_def path_is_symlink_def path_is_file_def
       is_harness_error_def Let_def split: path_state.splits, (metis path_state.exhaust)+)

lemma validate_deadline_proof_cases:
  "validate_deadline_proof t sentinel = t \<or> is_harness_error (validate_deadline_proof t sentinel)"
  by (simp add: validate_deadline_proof_def Let_def)

text \<open>What a result that was cleared or proved says about the sentinel.\<close>

definition sentinel_agrees :: "ending \<Rightarrow> path_state option \<Rightarrow> bool" where
  "sentinel_agrees t sentinel \<longleftrightarrow>
     (if t = TimedOut then sentinel = Some RegularFile
      else is_harness_error t \<or> sentinel = None \<or> sentinel = Some Absent)"

lemma validate_agrees: "sentinel_agrees (validate_deadline_proof t s) s"
  by (cases s) (auto simp: sentinel_agrees_def validate_deadline_proof_def path_exists_def
      path_is_symlink_def path_is_file_def Let_def, (metis path_state.exhaust)+)

lemma clear_agrees:
  "clear_non_timeout_sentinel u t s = (t', s') \<Longrightarrow> sentinel_agrees t' s' \<and> (t' = t \<or> is_harness_error t')"
  using validate_agrees [of t s] validate_agrees [of t "Some Absent"]
    validate_deadline_proof_cases [of t s] validate_deadline_proof_cases [of t "Some Absent"]
  by (auto simp: clear_non_timeout_sentinel_def sentinel_agrees_def split: if_splits)

section \<open>Validation before the spawn\<close>

text \<open>A Python \<open>float\<close>: a rational, an infinity or not a number.\<close>

datatype pyfloat = Fin rat | PosInf | NegInf | NaN

definition MAX_TIMEOUT_SECONDS :: rat where
  "MAX_TIMEOUT_SECONDS = 3600"

definition DEFAULT_TIMEOUT_SECONDS :: rat where
  "DEFAULT_TIMEOUT_SECONDS = 900"

fun valid_timeout_seconds :: "pyfloat \<Rightarrow> bool" where
  "valid_timeout_seconds (Fin t) \<longleftrightarrow> 0 < t \<and> t \<le> MAX_TIMEOUT_SECONDS"
| "valid_timeout_seconds _ \<longleftrightarrow> False"

definition valid_deadline_sentinel :: "path_state option \<Rightarrow> bool" where
  "valid_deadline_sentinel sentinel =
     (case sentinel of None \<Rightarrow> True | Some p \<Rightarrow> path_is_file p \<and> \<not> path_is_symlink p)"

section \<open>The child's process group\<close>

text \<open>
  What the supervisor can learn of its child: whether any process of the group is still running,
  the leader's wait status once it has ended, and whether the leader was reaped.
\<close>

record child =
  ch_alive :: bool
  ch_status :: "int option"
  ch_reaped :: bool

text \<open>The kernel's answers.  \<open>ESRCH\<close>, and on Darwin \<open>EPERM\<close>, say that no process of the group is
  left running; \<open>wait\<close> returns only a status the leader has.\<close>

datatype kill_outcome = KillOk | KillNoGroup | KillZombieOnly | KillRaises str
datatype wait_outcome = WaitReturns int | WaitRaises str

definition kill_possible :: "kill_outcome \<Rightarrow> child \<Rightarrow> bool" where
  "kill_possible k c \<longleftrightarrow> (case k of KillNoGroup \<Rightarrow> \<not> ch_alive c | KillZombieOnly \<Rightarrow> \<not> ch_alive c | _ \<Rightarrow> True)"

definition wait_possible :: "wait_outcome \<Rightarrow> child \<Rightarrow> bool" where
  "wait_possible w c \<longleftrightarrow> (case w of WaitReturns st \<Rightarrow> ch_status c = Some st | WaitRaises _ \<Rightarrow> True)"

text \<open>A group left to itself: processes end, the leader's status appears and never changes.\<close>

definition evolves :: "child \<Rightarrow> child \<Rightarrow> bool" where
  "evolves c c' \<longleftrightarrow> (ch_alive c' \<longrightarrow> ch_alive c) \<and> (ch_status c = None \<or> ch_status c' = ch_status c)
     \<and> ch_reaped c' = ch_reaped c \<and> (ch_alive c' \<or> ch_status c' \<noteq> None)"

text \<open>An operation with an impossible environment has no behaviour, \<open>None\<close>; otherwise it ends with
  an exception's name or a value, and a new child state.\<close>

definition signal_group :: "kill_outcome \<Rightarrow> int \<Rightarrow> child \<Rightarrow> ((str + bool) \<times> child) option" where
  "signal_group k signum c =
     (if \<not> kill_possible k c then None
      else Some (case k of
        KillOk \<Rightarrow>
          (Inr True,
           if signum = SIGKILL
           then c\<lparr>ch_alive := False,
                  ch_status := (case ch_status c of None \<Rightarrow> Some (- SIGKILL) | Some st \<Rightarrow> Some st)\<rparr>
           else c)
      | KillNoGroup \<Rightarrow> (Inr False, c)
      | KillZombieOnly \<Rightarrow> (Inr False, c)
      | KillRaises e \<Rightarrow> (Inl e, c)))"

definition reap :: "wait_outcome \<Rightarrow> child \<Rightarrow> ((str + int) \<times> child) option" where
  "reap w c =
     (if \<not> wait_possible w c then None
      else Some (case w of
        WaitReturns st \<Rightarrow> (Inr st, c\<lparr>ch_reaped := True\<rparr>)
      | WaitRaises e \<Rightarrow> (Inl e, c)))"

definition reap_only :: "wait_outcome \<Rightarrow> child \<Rightarrow> (str option \<times> child) option" where
  "reap_only w c =
     (case reap w c of
        None \<Rightarrow> None
      | Some (Inl e, c) \<Rightarrow> Some (Some e, c)
      | Some (Inr _, c) \<Rightarrow> Some (None, c))"

text \<open>Sweeping with SIGKILL and reaping, the ending that \<open>_terminate_process_group\<close>,
  \<open>_forward_signal_and_cleanup\<close> and \<open>_force_process_group_cleanup\<close> share.\<close>

definition sweep_and_reap :: "kill_outcome \<Rightarrow> wait_outcome \<Rightarrow> child \<Rightarrow> (str option \<times> child) option" where
  "sweep_and_reap k w c =
     (case signal_group k SIGKILL c of
        None \<Rightarrow> None
      | Some (Inl e, c) \<Rightarrow> Some (Some e, c)
      | Some (Inr _, c) \<Rightarrow> reap_only w c)"

text \<open>\<open>grace\<close> is the group when the grace period is over.\<close>

record group_env =
  ge_first :: kill_outcome
  ge_grace :: child
  ge_wait_raises :: "str option"
  ge_sweep :: kill_outcome
  ge_reap :: wait_outcome

definition terminate_process_group :: "group_env \<Rightarrow> child \<Rightarrow> (str option \<times> child) option" where
  "terminate_process_group env c =
     (case signal_group (ge_first env) SIGTERM c of
        None \<Rightarrow> None
      | Some (Inl e, c) \<Rightarrow> Some (Some e, c)
      | Some (Inr False, c) \<Rightarrow> reap_only (ge_reap env) c
      | Some (Inr True, c) \<Rightarrow>
          if evolves c (ge_grace env) then sweep_and_reap (ge_sweep env) (ge_reap env) (ge_grace env)
          else None)"

definition forward_signal_and_cleanup :: "group_env \<Rightarrow> int \<Rightarrow> child \<Rightarrow> (str option \<times> child) option" where
  "forward_signal_and_cleanup env signum c =
     (case signal_group (ge_first env) signum c of
        None \<Rightarrow> None
      | Some (Inl e, c) \<Rightarrow> Some (Some e, c)
      | Some (Inr False, c) \<Rightarrow> reap_only (ge_reap env) c
      | Some (Inr True, c) \<Rightarrow>
          if \<not> evolves c (ge_grace env) then None
          else (case ge_wait_raises env of
                  Some e \<Rightarrow> Some (Some e, ge_grace env)
                | None \<Rightarrow> sweep_and_reap (ge_sweep env) (ge_reap env) (ge_grace env)))"

text \<open>Three attempts; the exception of the last one when all fail.\<close>

fun force_attempts ::
  "(kill_outcome \<times> wait_outcome) list \<Rightarrow> nat \<Rightarrow> str option \<Rightarrow> child \<Rightarrow> (str option \<times> child) option" where
  "force_attempts _ 0 failure c = Some (failure, c)"
| "force_attempts [] (Suc n) failure c = None"
| "force_attempts ((k, w) # envs) (Suc n) failure c =
     (case sweep_and_reap k w c of
        None \<Rightarrow> None
      | Some (None, c) \<Rightarrow> Some (None, c)
      | Some (Some e, c) \<Rightarrow> force_attempts envs n (Some e) c)"

definition force_process_group_cleanup ::
  "(kill_outcome \<times> wait_outcome) list \<Rightarrow> child \<Rightarrow> (str option \<times> child) option" where
  "force_process_group_cleanup envs c = force_attempts envs 3 None c"

definition group_gone :: "child \<Rightarrow> bool" where
  "group_gone c \<longleftrightarrow> \<not> ch_alive c \<and> ch_reaped c"

lemmas group_defs = signal_group_def kill_possible_def reap_def reap_only_def wait_possible_def
  sweep_and_reap_def group_gone_def

lemma signal_group_False: "signal_group k n c = Some (Inr False, d) \<Longrightarrow> \<not> ch_alive d"
  by (auto simp: signal_group_def kill_possible_def split: if_splits kill_outcome.splits)

lemma signal_group_kill: "signal_group k SIGKILL c = Some (Inr b, d) \<Longrightarrow> \<not> ch_alive d"
  by (auto simp: signal_group_def kill_possible_def split: if_splits kill_outcome.splits)

lemma reap_only_gone: "reap_only w c = Some (None, d) \<Longrightarrow> \<not> ch_alive c \<Longrightarrow> group_gone d"
  by (auto simp: reap_only_def reap_def group_gone_def split: if_splits wait_outcome.splits option.splits)

lemma sweep_and_reap_gone: "sweep_and_reap k w c = Some (None, c') \<Longrightarrow> group_gone c'"
  by (auto simp: sweep_and_reap_def split: option.splits sum.splits)
     (meson signal_group_kill reap_only_gone)

lemma terminate_gone: "terminate_process_group env c = Some (None, c') \<Longrightarrow> group_gone c'"
  by (auto simp: terminate_process_group_def split: if_splits option.splits sum.splits bool.splits;
      meson signal_group_False reap_only_gone sweep_and_reap_gone)

lemma forward_gone: "forward_signal_and_cleanup env n c = Some (None, c') \<Longrightarrow> group_gone c'"
  by (auto simp: forward_signal_and_cleanup_def split: if_splits option.splits sum.splits bool.splits;
      meson signal_group_False reap_only_gone sweep_and_reap_gone)

lemma force_attempts_gone:
  "force_attempts envs n f c = Some (None, c') \<Longrightarrow> n \<noteq> 0 \<or> f \<noteq> None \<Longrightarrow> group_gone c'"
  by (induction envs n f c rule: force_attempts.induct)
     (auto dest: sweep_and_reap_gone split: option.splits)

lemma force_gone: "force_process_group_cleanup envs c = Some (None, c') \<Longrightarrow> group_gone c'"
  by (simp add: force_process_group_cleanup_def force_attempts_gone)

text \<open>
  The cleanup procedures clean up: whenever one of the three returns without an exception, no
  process of the child's group is running and the leader has been reaped, whatever the kernel
  answered and however the group behaved in the grace period.
\<close>

theorem cleanup_leaves_no_group:
  "terminate_process_group env c = Some (None, c') \<or> forward_signal_and_cleanup env n c = Some (None, c')
     \<or> force_process_group_cleanup envs c = Some (None, c') \<Longrightarrow> \<not> ch_alive c' \<and> ch_reaped c'"
  using terminate_gone forward_gone force_gone by (auto simp: group_gone_def)

theorem cleanup_leaves_no_group_witness:
  "\<exists>env c'. forward_signal_and_cleanup env 2 \<lparr>ch_alive = True, ch_status = None, ch_reaped = False\<rparr> = Some (None, c')
     \<and> ch_status c' = Some (-9) \<and> \<not> ch_alive c' \<and> ch_reaped c'"
proof -
  let ?c = "\<lparr>ch_alive = True, ch_status = None, ch_reaped = False\<rparr>"
  let ?env = "\<lparr>ge_first = KillOk, ge_grace = ?c, ge_wait_raises = None, ge_sweep = KillOk, ge_reap = WaitReturns (-9)\<rparr>"
  let ?c' = "\<lparr>ch_alive = False, ch_status = Some (-9), ch_reaped = True\<rparr>"
  have run: "forward_signal_and_cleanup ?env 2 ?c = Some (None, ?c')"
    by (simp add: forward_signal_and_cleanup_def group_defs evolves_def SIGKILL_def)
  then have "\<not> ch_alive ?c' \<and> ch_reaped ?c'"
    by (rule cleanup_leaves_no_group [OF disjI2, OF disjI1])
  with run show ?thesis by (intro exI [of _ ?env] exI [of _ ?c']) simp
qed

end
