(* ===== verification/Supervise.thy ===== *)
theory Supervise
  imports Deadline
begin

text \<open>
  \<open>run_command\<close> of \<^verbatim>\<open>scripts/harness/watchdog.py\<close> as a state machine.  One program counter per
  statement that calls out or changes the supervisor's state; one definition per statement, with
  the environment's answers as arguments; a caller's signal may arrive between any two of them and
  runs \<open>request_cancellation\<close>.  The relation \<open>sup_step\<close> is their union.
\<close>

section \<open>State\<close>

datatype sup_pc =
    PSpawn
  | PPrepare
  | PStart
  | PCheckPending
  | PWait
  | PTimeout
  | PTerminate
  | PTimeoutSettle
  | PTimeoutProof
  | PTimeoutLeave ending
  | PAwaitEof
  | PSweep
  | PReap
  | PTermination int
  | PSettle ending
  | PFinalCheck ending
  | PReturning ending
  | PCancel int
  | PCancelSettle int
  | PInternal str
  | PRestore ending
  | PSeal ending
  | PDone ending
  | PEscaped int

text \<open>\<open>sp_signals\<close> is a ghost: every caller signal the handler ran for, in order.\<close>

record sup =
  sp_pc :: sup_pc
  sp_process :: bool
  sp_child :: child
  sp_cleaned :: bool
  sp_in_cleanup :: bool
  sp_pending :: "int option"
  sp_marker :: "marker_retention option"
  sp_drain :: "drain_state option"
  sp_complete_before_sweep :: bool
  sp_sentinel :: "path_state option"
  sp_signals :: "int list"

section \<open>The statements\<close>

text \<open>The validation before anything is installed; \<open>Inl\<close> is an early return.\<close>

definition run_command_start ::
  "bool \<Rightarrow> bool \<Rightarrow> pyfloat \<Rightarrow> path_state option \<Rightarrow> marker_retention option \<Rightarrow> (ending \<times> path_state option) + sup" where
  "run_command_start unlink_fails command_empty timeout_seconds deadline_sentinel marker_retention =
     (if command_empty then
        Inl (clear_non_timeout_sentinel unlink_fails (HarnessError EmptyCommand) deadline_sentinel)
      else if \<not> valid_timeout_seconds timeout_seconds then
        Inl (clear_non_timeout_sentinel unlink_fails (HarnessError BadTimeout) deadline_sentinel)
      else if \<not> valid_deadline_sentinel deadline_sentinel then
        Inl (clear_non_timeout_sentinel unlink_fails (HarnessError BadSentinel) deadline_sentinel)
      else
        Inr \<lparr>sp_pc = PSpawn, sp_process = False,
             sp_child = \<lparr>ch_alive = False, ch_status = None, ch_reaped = False\<rparr>,
             sp_cleaned = False, sp_in_cleanup = False, sp_pending = None,
             sp_marker = marker_retention, sp_drain = None, sp_complete_before_sweep = True,
             sp_sentinel = deadline_sentinel, sp_signals = []\<rparr>)"

text \<open>The handler.  It only records while no child exists, while a cleanup runs, or while another
  exception is being handled; otherwise it leaves the statement for the cancellation arm.  Once the
  inner \<open>try\<close> has been left there is no arm to catch it.\<close>

definition handling_exception :: "sup_pc \<Rightarrow> bool" where
  "handling_exception pc \<longleftrightarrow>
     (case pc of PCancel _ \<Rightarrow> True | PCancelSettle _ \<Rightarrow> True | PInternal _ \<Rightarrow> True | _ \<Rightarrow> False)"

definition request_cancellation :: "int \<Rightarrow> sup \<Rightarrow> sup" where
  "request_cancellation signum s =
     (let s = s\<lparr>sp_signals := sp_signals s @ [signum]\<rparr> in
      if sp_pending s \<noteq> None then s
      else
        let s = s\<lparr>sp_pending := Some signum\<rparr> in
        if \<not> sp_process s \<or> sp_in_cleanup s \<or> handling_exception (sp_pc s) then s
        else case sp_pc s of
          PRestore _ \<Rightarrow> s\<lparr>sp_pc := PEscaped signum\<rparr>
        | _ \<Rightarrow> s\<lparr>sp_pc := PCancel signum\<rparr>)"

text \<open>The handlers are installed from the spawn until they are restored.\<close>

definition handlers_installed :: "sup_pc \<Rightarrow> bool" where
  "handlers_installed pc \<longleftrightarrow>
     (case pc of PSeal _ \<Rightarrow> False | PDone _ \<Rightarrow> False | PEscaped _ \<Rightarrow> False | _ \<Rightarrow> True)"

text \<open>A result on its way out has its sentinel cleared first.\<close>

definition clear_and :: "(ending \<Rightarrow> sup_pc) \<Rightarrow> bool \<Rightarrow> ending \<Rightarrow> sup \<Rightarrow> sup" where
  "clear_and pc unlink_fails t s =
     (case clear_non_timeout_sentinel unlink_fails t (sp_sentinel s) of
        (t', p) \<Rightarrow> s\<lparr>sp_pc := pc t', sp_sentinel := p\<rparr>)"

datatype spawn_outcome = SpawnOk | SpawnOSError | SpawnRaises str

definition do_spawn :: "spawn_outcome \<Rightarrow> bool \<Rightarrow> sup \<Rightarrow> sup" where
  "do_spawn out unlink_fails s =
     (case out of
        SpawnOk \<Rightarrow>
          s\<lparr>sp_process := True, sp_child := \<lparr>ch_alive = True, ch_status = None, ch_reaped = False\<rparr>,
            sp_pc := (if sp_marker s = None then PCheckPending else PPrepare)\<rparr>
      | SpawnOSError \<Rightarrow>
          (case sp_pending s of
             Some n \<Rightarrow> clear_and PRestore unlink_fails (Cancelled n) s
           | None \<Rightarrow> clear_and PRestore unlink_fails (HarnessError SpawnFailed) s)
      | SpawnRaises e \<Rightarrow> s\<lparr>sp_pc := PInternal e\<rparr>)"

definition do_prepare :: "caller_stream \<Rightarrow> caller_stream \<Rightarrow> str option \<Rightarrow> sup \<Rightarrow> sup" where
  "do_prepare out err raises s =
     (case raises of
        Some e \<Rightarrow> s\<lparr>sp_pc := PInternal e\<rparr>
      | None \<Rightarrow> s\<lparr>sp_drain := map_option (prepare_drainers True True out err) (sp_marker s), sp_pc := PStart\<rparr>)"

definition do_start :: "nat option \<Rightarrow> str \<Rightarrow> sup \<Rightarrow> sup" where
  "do_start failing_at e s =
     (case sp_drain s of
        None \<Rightarrow> s\<lparr>sp_pc := PCheckPending\<rparr>
      | Some st \<Rightarrow>
          (case start_drainers failing_at st of
             (raised, st') \<Rightarrow>
               s\<lparr>sp_drain := Some st', sp_pc := (if raised then PInternal e else PCheckPending)\<rparr>))"

definition do_check_pending :: "sup \<Rightarrow> sup" where
  "do_check_pending s =
     (case sp_pending s of Some n \<Rightarrow> s\<lparr>sp_pc := PCancel n\<rparr> | None \<Rightarrow> s\<lparr>sp_pc := PWait\<rparr>)"

text \<open>The polling loop that waits for the leader on Linux: each poll is whether \<open>waitid\<close> reported an
  exit, and the clock when it did not.  \<open>None\<close> is a loop still running when the polls end.\<close>

fun wait_for_exit_without_reaping :: "rat \<Rightarrow> (bool \<times> rat) list \<Rightarrow> bool option" where
  "wait_for_exit_without_reaping deadline [] = None"
| "wait_for_exit_without_reaping deadline ((exited, now) # polls) =
     (if exited then Some True
      else if deadline - now \<le> 0 then Some False
      else wait_for_exit_without_reaping deadline polls)"

text \<open>The wait for the leader: it saw the exit, the deadline passed first, or it raised.\<close>

datatype watch_outcome = LeaderExited | DeadlinePassed | WatchRaises str

definition do_wait :: "watch_outcome \<Rightarrow> sup \<Rightarrow> sup option" where
  "do_wait out s =
     (case out of
        LeaderExited \<Rightarrow>
          if ch_status (sp_child s) = None then None else Some (s\<lparr>sp_pc := PAwaitEof\<rparr>)
      | DeadlinePassed \<Rightarrow> Some (s\<lparr>sp_pc := PTimeout\<rparr>)
      | WatchRaises e \<Rightarrow> Some (s\<lparr>sp_pc := PInternal e\<rparr>))"

definition do_timeout :: "sup \<Rightarrow> sup" where
  "do_timeout s = s\<lparr>sp_in_cleanup := True, sp_pc := PTerminate\<rparr>"

definition do_terminate :: "group_env \<Rightarrow> sup \<Rightarrow> sup option" where
  "do_terminate env s =
     (case terminate_process_group env (sp_child s) of
        None \<Rightarrow> None
      | Some (Some e, c) \<Rightarrow> Some (s\<lparr>sp_child := c, sp_in_cleanup := False, sp_pc := PInternal e\<rparr>)
      | Some (None, c) \<Rightarrow> Some (s\<lparr>sp_child := c, sp_cleaned := True, sp_pc := PTimeoutSettle\<rparr>))"

definition do_timeout_settle :: "(drain_state \<Rightarrow> drain_state) \<Rightarrow> bool list \<Rightarrow> sup \<Rightarrow> sup" where
  "do_timeout_settle progress acquired s =
     s\<lparr>sp_drain := settle_drainers progress acquired (sp_drain s), sp_pc := PTimeoutProof\<rparr>"

text \<open>The notice and the proof.  The notice suppresses broken pipes, \<open>OSError\<close> and \<open>ValueError\<close>.\<close>

definition do_timeout_proof :: "str option \<Rightarrow> sup \<Rightarrow> sup" where
  "do_timeout_proof notify_raises s =
     (case notify_raises of
        Some e \<Rightarrow> s\<lparr>sp_in_cleanup := False, sp_pc := PInternal e\<rparr>
      | None \<Rightarrow> s\<lparr>sp_pc := PTimeoutLeave (validate_deadline_proof TimedOut (sp_sentinel s))\<rparr>)"

definition do_timeout_leave :: "ending \<Rightarrow> sup \<Rightarrow> sup" where
  "do_timeout_leave t s = s\<lparr>sp_in_cleanup := False, sp_pc := PReturning t\<rparr>"

definition do_await_eof :: "(drain_state \<Rightarrow> drain_state) \<Rightarrow> sup \<Rightarrow> sup" where
  "do_await_eof progress s =
     (let d = map_option progress (sp_drain s)
      in s\<lparr>sp_drain := d, sp_complete_before_sweep := await_drainer_eof d,
           sp_in_cleanup := True, sp_pc := PSweep\<rparr>)"

definition do_sweep :: "kill_outcome \<Rightarrow> sup \<Rightarrow> sup option" where
  "do_sweep k s =
     (case signal_group k SIGKILL (sp_child s) of
        None \<Rightarrow> None
      | Some (Inl e, c) \<Rightarrow> Some (s\<lparr>sp_child := c, sp_in_cleanup := False, sp_pc := PInternal e\<rparr>)
      | Some (Inr _, c) \<Rightarrow> Some (s\<lparr>sp_child := c, sp_pc := PReap\<rparr>))"

definition do_reap :: "wait_outcome \<Rightarrow> sup \<Rightarrow> sup option" where
  "do_reap w s =
     (case reap w (sp_child s) of
        None \<Rightarrow> None
      | Some (Inl e, c) \<Rightarrow> Some (s\<lparr>sp_child := c, sp_in_cleanup := False, sp_pc := PInternal e\<rparr>)
      | Some (Inr status, c) \<Rightarrow>
          Some (s\<lparr>sp_child := c, sp_cleaned := True, sp_in_cleanup := False, sp_pc := PTermination status\<rparr>))"

definition do_termination :: "int \<Rightarrow> sup \<Rightarrow> sup" where
  "do_termination status s =
     (let t = (if status < 0 then Signaled (- status) else Exited status);
          s = (if \<not> sp_complete_before_sweep s
               then s\<lparr>sp_drain := map_option (\<lambda>st. st\<lparr>ds_retention := map_option mark_capture_incomplete (ds_retention st)\<rparr>)
                                   (sp_drain s)\<rparr>
               else s)
      in case sp_pending s of
           Some n \<Rightarrow> s\<lparr>sp_pc := PCancel n\<rparr>
         | None \<Rightarrow> s\<lparr>sp_pc := PSettle t\<rparr>)"

definition do_settle :: "(drain_state \<Rightarrow> drain_state) \<Rightarrow> bool list \<Rightarrow> ending \<Rightarrow> sup \<Rightarrow> sup" where
  "do_settle progress acquired t s =
     s\<lparr>sp_drain := settle_drainers progress acquired (sp_drain s), sp_pc := PFinalCheck t\<rparr>"

definition do_final_check :: "bool \<Rightarrow> ending \<Rightarrow> sup \<Rightarrow> sup" where
  "do_final_check unlink_fails t s =
     (case sp_pending s of
        Some n \<Rightarrow> s\<lparr>sp_pc := PCancel n\<rparr>
      | None \<Rightarrow> clear_and PReturning unlink_fails t s)"

text \<open>The cancellation arm.\<close>

definition do_cancel :: "group_env \<Rightarrow> int \<Rightarrow> sup \<Rightarrow> sup option" where
  "do_cancel env n s =
     (if sp_cleaned s then Some (s\<lparr>sp_pc := PCancelSettle n\<rparr>)
      else case forward_signal_and_cleanup env n (sp_child s) of
        None \<Rightarrow> None
      | Some (Some e, c) \<Rightarrow> Some (s\<lparr>sp_child := c, sp_pc := PInternal e\<rparr>)
      | Some (None, c) \<Rightarrow> Some (s\<lparr>sp_child := c, sp_cleaned := True, sp_pc := PCancelSettle n\<rparr>))"

definition do_cancel_settle :: "(drain_state \<Rightarrow> drain_state) \<Rightarrow> bool list \<Rightarrow> bool \<Rightarrow> int \<Rightarrow> sup \<Rightarrow> sup" where
  "do_cancel_settle progress acquired unlink_fails n s =
     clear_and PRestore unlink_fails (Cancelled n)
       (s\<lparr>sp_drain := settle_drainers progress acquired (sp_drain s)\<rparr>)"

text \<open>The outermost arm: one more attempt to clean up, then three forced ones.\<close>

definition do_internal ::
  "group_env \<Rightarrow> (kill_outcome \<times> wait_outcome) list \<Rightarrow> bool \<Rightarrow> str \<Rightarrow> sup \<Rightarrow> sup option" where
  "do_internal env forced unlink_fails e s =
     (if \<not> sp_process s \<or> sp_cleaned s then
        Some (clear_and PRestore unlink_fails
                (HarnessError (InternalFailure e [] False (sp_pending s))) s)
      else case terminate_process_group env (sp_child s) of
        None \<Rightarrow> None
      | Some (None, c) \<Rightarrow>
          Some (clear_and PRestore unlink_fails
                  (HarnessError (InternalFailure e [] False (sp_pending s)))
                  (s\<lparr>sp_child := c, sp_cleaned := True, sp_in_cleanup := False\<rparr>))
      | Some (Some e1, c) \<Rightarrow>
          (case force_process_group_cleanup forced c of
             None \<Rightarrow> None
           | Some (None, c) \<Rightarrow>
               Some (clear_and PRestore unlink_fails
                       (HarnessError (InternalFailure e [e1] False (sp_pending s)))
                       (s\<lparr>sp_child := c, sp_cleaned := True, sp_in_cleanup := False\<rparr>))
           | Some (Some e2, c) \<Rightarrow>
               Some (clear_and PRestore unlink_fails
                       (HarnessError (InternalFailure e [e1, e2] True (sp_pending s)))
                       (s\<lparr>sp_child := c, sp_in_cleanup := False\<rparr>))))"

text \<open>The outer \<open>finally\<close>: the handlers are restored, then the drainers are sealed.\<close>

definition do_restore :: "ending \<Rightarrow> sup \<Rightarrow> sup" where
  "do_restore t s = s\<lparr>sp_pc := PSeal t\<rparr>"

definition do_seal :: "bool list \<Rightarrow> ending \<Rightarrow> sup \<Rightarrow> sup" where
  "do_seal acquired t s = s\<lparr>sp_drain := seal_drainers acquired (sp_drain s), sp_pc := PDone t\<rparr>"

section \<open>The steps\<close>

text \<open>The result of the run is fixed once it has been proved or cleared; until then the sentinel's
  path may change under the supervisor.\<close>

definition concluded :: "sup_pc \<Rightarrow> bool" where
  "concluded pc \<longleftrightarrow>
     (case pc of PTimeoutLeave _ \<Rightarrow> True | PReturning _ \<Rightarrow> True | PRestore _ \<Rightarrow> True
      | PSeal _ \<Rightarrow> True | PDone _ \<Rightarrow> True | PEscaped _ \<Rightarrow> True | _ \<Rightarrow> False)"

inductive sup_block :: "sup \<Rightarrow> sup \<Rightarrow> bool" where
  spawn: "sp_pc s = PSpawn \<Longrightarrow> sup_block s (do_spawn out u s)"
| prepare: "sp_pc s = PPrepare \<Longrightarrow> sup_block s (do_prepare o1 o2 r s)"
| start: "sp_pc s = PStart \<Longrightarrow> sup_block s (do_start f e s)"
| check_pending: "sp_pc s = PCheckPending \<Longrightarrow> sup_block s (do_check_pending s)"
| wait: "sp_pc s = PWait \<Longrightarrow> do_wait w s = Some t \<Longrightarrow> sup_block s t"
| timeout: "sp_pc s = PTimeout \<Longrightarrow> sup_block s (do_timeout s)"
| terminate: "sp_pc s = PTerminate \<Longrightarrow> do_terminate env s = Some t \<Longrightarrow> sup_block s t"
| timeout_settle: "sp_pc s = PTimeoutSettle \<Longrightarrow> sup_block s (do_timeout_settle g a s)"
| timeout_proof: "sp_pc s = PTimeoutProof \<Longrightarrow> sup_block s (do_timeout_proof r s)"
| timeout_leave: "sp_pc s = PTimeoutLeave t \<Longrightarrow> sup_block s (do_timeout_leave t s)"
| await_eof: "sp_pc s = PAwaitEof \<Longrightarrow> sup_block s (do_await_eof g s)"
| sweep: "sp_pc s = PSweep \<Longrightarrow> do_sweep k s = Some t \<Longrightarrow> sup_block s t"
| reap_leader: "sp_pc s = PReap \<Longrightarrow> do_reap w s = Some t \<Longrightarrow> sup_block s t"
| termination_known: "sp_pc s = PTermination st \<Longrightarrow> sup_block s (do_termination st s)"
| settle: "sp_pc s = PSettle t \<Longrightarrow> sup_block s (do_settle g a t s)"
| final_check: "sp_pc s = PFinalCheck t \<Longrightarrow> sup_block s (do_final_check u t s)"
| returning: "sp_pc s = PReturning t \<Longrightarrow> sup_block s (s\<lparr>sp_pc := PRestore t\<rparr>)"
| cancel: "sp_pc s = PCancel n \<Longrightarrow> do_cancel env n s = Some t \<Longrightarrow> sup_block s t"
| cancel_settle: "sp_pc s = PCancelSettle n \<Longrightarrow> sup_block s (do_cancel_settle g a u n s)"
| internal: "sp_pc s = PInternal e \<Longrightarrow> do_internal env forced u e s = Some t \<Longrightarrow> sup_block s t"
| restore: "sp_pc s = PRestore t \<Longrightarrow> sup_block s (do_restore t s)"
| seal: "sp_pc s = PSeal t \<Longrightarrow> sup_block s (do_seal a t s)"

inductive sup_step :: "sup \<Rightarrow> sup \<Rightarrow> bool" where
  block: "sup_block s t \<Longrightarrow> sup_step s t"
| signal: "handlers_installed (sp_pc s) \<Longrightarrow> sup_step s (request_cancellation n s)"
| child_moves: "sp_process s \<Longrightarrow> evolves (sp_child s) c \<Longrightarrow> sup_step s (s\<lparr>sp_child := c\<rparr>)"
| sentinel_moves: "\<not> concluded (sp_pc s) \<Longrightarrow>
     sup_step s (s\<lparr>sp_sentinel := map_option (\<lambda>_. p) (sp_sentinel s)\<rparr>)"

inductive sup_reach :: "sup \<Rightarrow> sup \<Rightarrow> bool" where
  reach_start: "sup_reach s s"
| reach_step: "sup_reach s t \<Longrightarrow> sup_step t u \<Longrightarrow> sup_reach s u"

section \<open>The invariant\<close>

definition truthful :: "ending \<Rightarrow> sup \<Rightarrow> bool" where
  "truthful t s \<longleftrightarrow>
     (case t of
        Exited c \<Rightarrow> sp_process s \<and> ch_status (sp_child s) = Some c \<and> 0 \<le> c
      | Signaled n \<Rightarrow> sp_process s \<and> ch_status (sp_child s) = Some (- n) \<and> 0 < n
      | TimedOut \<Rightarrow> sp_process s
      | Cancelled n \<Rightarrow> sp_pending s = Some n
      | HarnessError _ \<Rightarrow> True)"

definition result_ok :: "ending \<Rightarrow> sup \<Rightarrow> bool" where
  "result_ok t s \<longleftrightarrow> sentinel_agrees t (sp_sentinel s)
     \<and> (is_harness_error t \<or> (sp_process s \<longrightarrow> sp_cleaned s) \<and> truthful t s)"

definition first_signal :: "int list \<Rightarrow> int option" where
  "first_signal signals = (case signals of [] \<Rightarrow> None | n # _ \<Rightarrow> Some n)"

definition pc_inv :: "sup \<Rightarrow> bool" where
  "pc_inv s \<longleftrightarrow>
     (case sp_pc s of
        PSpawn \<Rightarrow> \<not> sp_process s \<and> \<not> sp_cleaned s \<and> \<not> sp_in_cleanup s
      | PPrepare \<Rightarrow> sp_process s \<and> \<not> sp_cleaned s \<and> \<not> sp_in_cleanup s
      | PStart \<Rightarrow> sp_process s \<and> \<not> sp_cleaned s \<and> \<not> sp_in_cleanup s
      | PCheckPending \<Rightarrow> sp_process s \<and> \<not> sp_cleaned s \<and> \<not> sp_in_cleanup s
      | PWait \<Rightarrow> sp_process s \<and> \<not> sp_cleaned s \<and> \<not> sp_in_cleanup s
      | PTimeout \<Rightarrow> sp_process s \<and> \<not> sp_cleaned s \<and> \<not> sp_in_cleanup s
      | PTerminate \<Rightarrow> sp_process s \<and> \<not> sp_cleaned s \<and> sp_in_cleanup s
      | PTimeoutSettle \<Rightarrow> sp_cleaned s \<and> sp_in_cleanup s
      | PTimeoutProof \<Rightarrow> sp_cleaned s \<and> sp_in_cleanup s
      | PTimeoutLeave t \<Rightarrow> sp_cleaned s \<and> sp_in_cleanup s \<and> result_ok t s
      | PAwaitEof \<Rightarrow> sp_process s \<and> \<not> sp_cleaned s \<and> \<not> sp_in_cleanup s \<and> ch_status (sp_child s) \<noteq> None
      | PSweep \<Rightarrow> sp_process s \<and> \<not> sp_cleaned s \<and> sp_in_cleanup s \<and> ch_status (sp_child s) \<noteq> None
      | PReap \<Rightarrow> sp_process s \<and> \<not> sp_cleaned s \<and> sp_in_cleanup s
          \<and> ch_status (sp_child s) \<noteq> None \<and> \<not> ch_alive (sp_child s)
      | PTermination st \<Rightarrow> sp_cleaned s \<and> \<not> sp_in_cleanup s \<and> ch_status (sp_child s) = Some st
      | PSettle t \<Rightarrow> sp_cleaned s \<and> \<not> sp_in_cleanup s \<and> t \<noteq> TimedOut \<and> truthful t s
      | PFinalCheck t \<Rightarrow> sp_cleaned s \<and> \<not> sp_in_cleanup s \<and> t \<noteq> TimedOut \<and> truthful t s
      | PReturning t \<Rightarrow> sp_cleaned s \<and> \<not> sp_in_cleanup s \<and> result_ok t s
      | PCancel n \<Rightarrow> sp_process s \<and> sp_pending s = Some n
      | PCancelSettle n \<Rightarrow> sp_cleaned s \<and> sp_pending s = Some n
      | PInternal e \<Rightarrow> True
      | PRestore t \<Rightarrow> result_ok t s
      | PSeal t \<Rightarrow> result_ok t s
      | PDone t \<Rightarrow> result_ok t s
      | PEscaped n \<Rightarrow> sp_process s \<and> sp_pending s = Some n)"

definition sup_inv :: "sup \<Rightarrow> bool" where
  "sup_inv s \<longleftrightarrow> (sp_cleaned s \<longrightarrow> sp_process s \<and> group_gone (sp_child s))
     \<and> first_signal (sp_signals s) = sp_pending s
     \<and> pc_inv s"

lemma truthful_pc [simp]:
  "truthful t (s\<lparr>sp_pc := pc, sp_sentinel := p\<rparr>) = truthful t s"
  "truthful t (s\<lparr>sp_pc := pc\<rparr>) = truthful t s"
  "truthful t (s\<lparr>sp_drain := d\<rparr>) = truthful t s"
  by (auto simp: truthful_def split: ending.splits)

lemma clear_and_result:
  assumes "is_harness_error t \<or> (sp_process s \<longrightarrow> sp_cleaned s) \<and> truthful t s"
  obtains t' p where "clear_and pc u t s = s\<lparr>sp_pc := pc t', sp_sentinel := p\<rparr>"
    and "result_ok t' (s\<lparr>sp_pc := pc t', sp_sentinel := p\<rparr>)"
proof -
  obtain t' p where c: "clear_non_timeout_sentinel u t (sp_sentinel s) = (t', p)" by force
  from clear_agrees [OF c] assms have "result_ok t' (s\<lparr>sp_pc := pc t', sp_sentinel := p\<rparr>)"
    by (auto simp: result_ok_def)
  moreover have "clear_and pc u t s = s\<lparr>sp_pc := pc t', sp_sentinel := p\<rparr>"
    by (simp add: clear_and_def c)
  ultimately show ?thesis using that by blast
qed

lemma clear_and_restore_inv:
  assumes "sup_inv s" and "is_harness_error t \<or> (sp_process s \<longrightarrow> sp_cleaned s) \<and> truthful t s"
  shows "sup_inv (clear_and PRestore u t s)"
  using assms(1) by (rule_tac clear_and_result [OF assms(2), of PRestore u]) (simp add: sup_inv_def pc_inv_def)

text \<open>One lemma per statement that computes.\<close>

lemma do_spawn_inv:
  assumes "sup_inv s" and "sp_pc s = PSpawn"
  shows "sup_inv (do_spawn out u s)"
proof (cases out)
  case SpawnOSError
  have "sup_inv (clear_and PRestore u (case sp_pending s of Some n \<Rightarrow> Cancelled n | None \<Rightarrow> HarnessError SpawnFailed) s)"
    by (rule clear_and_restore_inv)
       (use assms in \<open>auto simp: sup_inv_def pc_inv_def truthful_def split: option.splits\<close>)
  with SpawnOSError show ?thesis
    by (auto simp: do_spawn_def split: option.splits)
qed (use assms in \<open>auto simp: do_spawn_def sup_inv_def pc_inv_def\<close>)

lemma do_start_inv: "sup_inv s \<Longrightarrow> sp_pc s = PStart \<Longrightarrow> sup_inv (do_start f e s)"
  by (auto simp: do_start_def sup_inv_def pc_inv_def split: option.splits prod.splits)

lemma do_terminate_inv: "sup_inv s \<Longrightarrow> sp_pc s = PTerminate \<Longrightarrow> do_terminate env s = Some t \<Longrightarrow> sup_inv t"
  using terminate_gone [of env "sp_child s"]
  by (auto simp: do_terminate_def sup_inv_def pc_inv_def split: option.splits prod.splits)

lemma do_timeout_proof_inv: "sup_inv s \<Longrightarrow> sp_pc s = PTimeoutProof \<Longrightarrow> sup_inv (do_timeout_proof r s)"
  using validate_agrees [of TimedOut "sp_sentinel s"] validate_deadline_proof_cases [of TimedOut "sp_sentinel s"]
  by (auto simp: do_timeout_proof_def sup_inv_def pc_inv_def result_ok_def truthful_def split: option.splits)

lemma do_sweep_inv: "sup_inv s \<Longrightarrow> sp_pc s = PSweep \<Longrightarrow> do_sweep k s = Some t \<Longrightarrow> sup_inv t"
  by (auto simp: do_sweep_def sup_inv_def pc_inv_def signal_group_def kill_possible_def group_gone_def
      split: if_splits kill_outcome.splits)

lemma do_reap_inv: "sup_inv s \<Longrightarrow> sp_pc s = PReap \<Longrightarrow> do_reap w s = Some t \<Longrightarrow> sup_inv t"
  by (auto simp: do_reap_def sup_inv_def pc_inv_def reap_def wait_possible_def group_gone_def
      split: if_splits wait_outcome.splits)

lemma do_termination_inv: "sup_inv s \<Longrightarrow> sp_pc s = PTermination st \<Longrightarrow> sup_inv (do_termination st s)"
  by (auto simp: do_termination_def sup_inv_def pc_inv_def truthful_def Let_def split: option.splits)

lemma do_final_check_inv: "sup_inv s \<Longrightarrow> sp_pc s = PFinalCheck t \<Longrightarrow> sup_inv (do_final_check u t s)"
proof (cases "sp_pending s")
  case None
  assume *: "sup_inv s" "sp_pc s = PFinalCheck t"
  then have "is_harness_error t \<or> (sp_process s \<longrightarrow> sp_cleaned s) \<and> truthful t s"
    by (auto simp: sup_inv_def pc_inv_def)
  then show ?thesis
    using * None
    by (rule_tac clear_and_result [of t s PReturning u]) (auto simp: do_final_check_def sup_inv_def pc_inv_def)
next
  case (Some n)
  assume "sup_inv s" "sp_pc s = PFinalCheck t"
  with Some show ?thesis
    by (auto simp: do_final_check_def sup_inv_def pc_inv_def)
qed

lemma do_cancel_inv: "sup_inv s \<Longrightarrow> sp_pc s = PCancel n \<Longrightarrow> do_cancel env n s = Some t \<Longrightarrow> sup_inv t"
  using forward_gone [of env n "sp_child s"]
  by (auto simp: do_cancel_def sup_inv_def pc_inv_def split: if_splits option.splits prod.splits)

lemma do_cancel_settle_inv:
  assumes "sup_inv s" and "sp_pc s = PCancelSettle n"
  shows "sup_inv (do_cancel_settle g a u n s)"
  unfolding do_cancel_settle_def
proof (rule clear_and_restore_inv)
  let ?s = "s\<lparr>sp_drain := settle_drainers g a (sp_drain s)\<rparr>"
  show "sup_inv ?s"
    using assms by (auto simp: sup_inv_def pc_inv_def)
  show "is_harness_error (Cancelled n) \<or> (sp_process ?s \<longrightarrow> sp_cleaned ?s) \<and> truthful (Cancelled n) ?s"
    using assms by (auto simp: sup_inv_def pc_inv_def truthful_def)
qed

lemma internal_clean_inv:
  "sup_inv s \<Longrightarrow> sp_pc s = PInternal e \<Longrightarrow> sp_process s \<Longrightarrow> group_gone c \<Longrightarrow>
     sup_inv (clear_and PRestore u (HarnessError d)
       (s\<lparr>sp_child := c, sp_cleaned := True, sp_in_cleanup := False\<rparr>))"
  by (rule clear_and_restore_inv) (auto simp: sup_inv_def pc_inv_def)

lemma internal_unclean_inv:
  "sup_inv s \<Longrightarrow> sp_pc s = PInternal e \<Longrightarrow> \<not> sp_cleaned s \<Longrightarrow>
     sup_inv (clear_and PRestore u (HarnessError d) (s\<lparr>sp_child := c, sp_in_cleanup := False\<rparr>))"
  by (rule clear_and_restore_inv) (auto simp: sup_inv_def pc_inv_def)

lemma do_internal_inv:
  assumes "sup_inv s" and "sp_pc s = PInternal e" and "do_internal env forced u e s = Some t"
  shows "sup_inv t"
proof (cases "\<not> sp_process s \<or> sp_cleaned s")
  case True
  with assms show ?thesis
    by (auto simp: do_internal_def intro!: clear_and_restore_inv)
next
  case False
  with assms terminate_gone [of env "sp_child s"] force_gone [of forced] show ?thesis
    by (auto simp: do_internal_def split: option.splits
        intro!: internal_clean_inv [OF assms(1,2)] internal_unclean_inv [OF assms(1,2)])
qed

lemmas block_inv = do_spawn_inv do_start_inv do_terminate_inv do_timeout_proof_inv do_sweep_inv
  do_reap_inv do_termination_inv do_final_check_inv do_cancel_inv do_cancel_settle_inv do_internal_inv

lemma sup_block_inv: "sup_block s t \<Longrightarrow> sup_inv s \<Longrightarrow> sup_inv t"
proof (induction rule: sup_block.induct)
  case (prepare s o1 o2 r)
  then show ?case
    by (auto simp: do_prepare_def sup_inv_def pc_inv_def split: option.splits)
next
  case (check_pending s)
  then show ?case
    by (auto simp: do_check_pending_def sup_inv_def pc_inv_def split: option.splits)
next
  case (wait s w t)
  then show ?case
    by (auto simp: do_wait_def sup_inv_def pc_inv_def split: watch_outcome.splits if_splits)
next
  case (timeout s)
  then show ?case
    by (auto simp: do_timeout_def sup_inv_def pc_inv_def)
next
  case (timeout_settle s g a)
  then show ?case
    by (auto simp: do_timeout_settle_def sup_inv_def pc_inv_def)
next
  case (timeout_leave s t)
  then show ?case
    by (auto simp: do_timeout_leave_def sup_inv_def pc_inv_def result_ok_def truthful_def split: ending.splits)
next
  case (await_eof s g)
  then show ?case
    by (auto simp: do_await_eof_def sup_inv_def pc_inv_def Let_def)
next
  case (settle s t g a)
  then show ?case
    by (auto simp: do_settle_def sup_inv_def pc_inv_def truthful_def split: ending.splits)
next
  case (returning s t)
  then show ?case
    by (auto simp: sup_inv_def pc_inv_def result_ok_def)
next
  case (restore s t)
  then show ?case
    by (auto simp: do_restore_def sup_inv_def pc_inv_def result_ok_def)
next
  case (seal s t a)
  then show ?case
    by (auto simp: do_seal_def sup_inv_def pc_inv_def result_ok_def truthful_def split: ending.splits)
qed (blast intro: block_inv)+

lemma first_signal_append: "first_signal (xs @ [n]) = (case first_signal xs of None \<Rightarrow> Some n | Some m \<Rightarrow> Some m)"
  by (cases xs) (auto simp: first_signal_def)

lemma request_cancellation_inv:
  "handlers_installed (sp_pc s) \<Longrightarrow> sup_inv s \<Longrightarrow> sup_inv (request_cancellation n s)"
  by (cases "sp_pc s")
     (auto simp: request_cancellation_def sup_inv_def pc_inv_def result_ok_def truthful_def Let_def
       handlers_installed_def handling_exception_def first_signal_append split: option.splits ending.splits)

lemma sup_step_inv: "sup_step s t \<Longrightarrow> sup_inv s \<Longrightarrow> sup_inv t"
proof (induction rule: sup_step.induct)
  case (block s t)
  then show ?case by (rule sup_block_inv)
next
  case (signal s n)
  then show ?case by (rule request_cancellation_inv)
next
  case (child_moves s c)
  then show ?case
    by (cases "sp_pc s")
       (auto simp: sup_inv_def pc_inv_def evolves_def group_gone_def result_ok_def truthful_def split: ending.splits)
next
  case (sentinel_moves s p)
  then show ?case
    by (cases "sp_pc s") (auto simp: sup_inv_def pc_inv_def concluded_def truthful_def split: ending.splits)
qed

lemma sup_reach_inv: "sup_reach s t \<Longrightarrow> sup_inv s \<Longrightarrow> sup_inv t"
  by (induction rule: sup_reach.induct) (auto intro: sup_step_inv)

lemma run_command_start_inv: "run_command_start u e ts p m = Inr s \<Longrightarrow> sup_inv s"
  by (auto simp: run_command_start_def sup_inv_def pc_inv_def first_signal_def split: if_splits)

section \<open>What a finished run says\<close>

text \<open>
  C3 (no run leaves a process behind): in every interleaving of the supervisor's statements, the
  caller's signals and the child's own moves, a run that ends with any termination but a harness
  error has no live process in the child's group and has reaped the leader.
\<close>

theorem run_leaves_no_group:
  assumes "run_command_start u no_command ts p m = Inr s0" and "sup_reach s0 s"
    and "sp_pc s = PDone t" and "\<not> is_harness_error t" and "sp_process s"
  shows "\<not> ch_alive (sp_child s) \<and> ch_reaped (sp_child s)"
  using sup_reach_inv [OF assms(2) run_command_start_inv [OF assms(1)]] assms(3-5)
  by (auto simp: sup_inv_def pc_inv_def result_ok_def group_gone_def)

text \<open>
  C4 (the termination is truthful): an exit code or a signal is the leader's own wait status, a
  cancellation names the first signal the caller sent, a timeout still has its sentinel as a plain
  file, and every other ending has cleared it.
\<close>

theorem run_is_truthful:
  assumes "run_command_start u no_command ts p m = Inr s0" and "sup_reach s0 s" and "sp_pc s = PDone t"
  shows "case t of
      Exited c \<Rightarrow> ch_status (sp_child s) = Some c \<and> 0 \<le> c \<and> sp_sentinel s \<in> {None, Some Absent}
    | Signaled n \<Rightarrow> ch_status (sp_child s) = Some (- n) \<and> 0 < n \<and> sp_sentinel s \<in> {None, Some Absent}
    | TimedOut \<Rightarrow> sp_process s \<and> sp_sentinel s = Some RegularFile
    | Cancelled n \<Rightarrow> first_signal (sp_signals s) = Some n \<and> sp_sentinel s \<in> {None, Some Absent}
    | HarnessError _ \<Rightarrow> True"
  using sup_reach_inv [OF assms(2) run_command_start_inv [OF assms(1)]] assms(3)
  by (auto simp: sup_inv_def pc_inv_def result_ok_def truthful_def sentinel_agrees_def split: ending.splits)

text \<open>A run with a concrete environment, for the witnesses.\<close>

definition start_state :: sup where
  "start_state =
     \<lparr>sp_pc = PSpawn, sp_process = False,
      sp_child = \<lparr>ch_alive = False, ch_status = None, ch_reaped = False\<rparr>,
      sp_cleaned = False, sp_in_cleanup = False, sp_pending = None, sp_marker = None, sp_drain = None,
      sp_complete_before_sweep = True, sp_sentinel = Some RegularFile, sp_signals = []\<rparr>"

lemma start_state_starts:
  "run_command_start False False (Fin 900) (Some RegularFile) None = Inr start_state"
  by (simp add: run_command_start_def start_state_def valid_deadline_sentinel_def path_is_file_def
      path_is_symlink_def MAX_TIMEOUT_SECONDS_def)

lemma reach_block: "sup_reach s t \<Longrightarrow> sup_block t u \<Longrightarrow> sup_reach s u"
  by (meson sup_step.block reach_step)

text \<open>Spawned, polled, interrupted by SIGINT, and left alive until the sweep.\<close>

definition waiting_state :: sup where
  "waiting_state = start_state\<lparr>sp_process := True, sp_pc := PWait,
     sp_child := \<lparr>ch_alive = True, ch_status = None, ch_reaped = False\<rparr>\<rparr>"

lemma waiting_reached: "sup_reach start_state waiting_state"
proof -
  have "sup_block start_state (do_spawn SpawnOk False start_state)"
    by (rule spawn) (simp add: start_state_def)
  then have "sup_reach start_state (do_spawn SpawnOk False start_state)"
    by (rule reach_block [OF reach_start])
  moreover have "sup_block (do_spawn SpawnOk False start_state)
      (do_check_pending (do_spawn SpawnOk False start_state))"
    by (rule check_pending) (simp add: do_spawn_def start_state_def)
  moreover have "do_check_pending (do_spawn SpawnOk False start_state) = waiting_state"
    by (simp add: do_spawn_def start_state_def do_check_pending_def waiting_state_def)
  ultimately show ?thesis
    using reach_block by metis
qed

definition dead_child :: child where
  "dead_child = \<lparr>ch_alive = False, ch_status = Some (-9), ch_reaped = True\<rparr>"

definition cancelled_state :: sup where
  "cancelled_state = waiting_state\<lparr>sp_pc := PDone (Cancelled 2), sp_child := dead_child, sp_cleaned := True,
     sp_pending := Some 2, sp_sentinel := Some Absent, sp_signals := [2]\<rparr>"

lemma cancelled_reached: "sup_reach start_state cancelled_state"
proof -
  let ?c = "sp_child waiting_state"
  let ?env = "\<lparr>ge_first = KillOk, ge_grace = ?c, ge_wait_raises = None, ge_sweep = KillOk, ge_reap = WaitReturns (-9)\<rparr>"
  let ?s1 = "waiting_state\<lparr>sp_signals := [2], sp_pending := Some 2, sp_pc := PCancel 2\<rparr>"
  let ?s2 = "?s1\<lparr>sp_child := dead_child, sp_cleaned := True, sp_pc := PCancelSettle 2\<rparr>"
  let ?s3 = "?s2\<lparr>sp_sentinel := Some Absent, sp_pc := PRestore (Cancelled 2)\<rparr>"
  have "sup_step waiting_state (request_cancellation 2 waiting_state)"
    by (rule signal) (simp add: waiting_state_def handlers_installed_def)
  moreover have "request_cancellation 2 waiting_state = ?s1"
    by (simp add: request_cancellation_def waiting_state_def start_state_def handling_exception_def)
  ultimately have "sup_reach start_state ?s1"
    using waiting_reached reach_step by metis
  moreover have "do_cancel ?env 2 ?s1 = Some ?s2"
    by (simp add: do_cancel_def waiting_state_def start_state_def forward_signal_and_cleanup_def group_defs
        evolves_def SIGKILL_def dead_child_def)
  then have "sup_block ?s1 ?s2"
    by (rule cancel [rotated]) simp
  moreover have "do_cancel_settle (\<lambda>st. st) [] False 2 ?s2 = ?s3"
    by (simp add: do_cancel_settle_def waiting_state_def start_state_def clear_and_def
        clear_non_timeout_sentinel_def validate_deadline_proof_def path_exists_def path_is_symlink_def
        settle_drainers_def seal_drainers_def)
  then have "sup_block ?s2 ?s3"
    using cancel_settle [of ?s2 2 "\<lambda>st. st" "[]" False] by simp
  moreover have "sup_block ?s3 (?s3\<lparr>sp_pc := PSeal (Cancelled 2)\<rparr>)"
    using restore [of ?s3 "Cancelled 2"] by (simp add: do_restore_def)
  moreover have "sup_block (?s3\<lparr>sp_pc := PSeal (Cancelled 2)\<rparr>) cancelled_state"
    using seal [of "?s3\<lparr>sp_pc := PSeal (Cancelled 2)\<rparr>" "Cancelled 2" "[]"]
    by (simp add: do_seal_def cancelled_state_def seal_drainers_def waiting_state_def start_state_def)
  ultimately show ?thesis
    by (meson reach_block)
qed

theorem run_leaves_no_group_witness:
  "sup_reach start_state cancelled_state \<and> sp_pc cancelled_state = PDone (Cancelled 2)
   \<and> \<not> ch_alive (sp_child cancelled_state) \<and> ch_reaped (sp_child cancelled_state)"
  using run_leaves_no_group [OF start_state_starts cancelled_reached, of "Cancelled 2"] cancelled_reached
  by (simp add: cancelled_state_def waiting_state_def)

theorem run_is_truthful_witness:
  "sp_pc cancelled_state = PDone (Cancelled 2) \<and> first_signal (sp_signals cancelled_state) = Some 2
   \<and> sp_sentinel cancelled_state \<in> {None, Some Absent}"
  using run_is_truthful [OF start_state_starts cancelled_reached, of "Cancelled 2"]
  by (simp add: cancelled_state_def)

section \<open>Every run ends\<close>

text \<open>The number of statements a run can still execute.\<close>

fun rank :: "sup_pc \<Rightarrow> nat" where
  "rank PSpawn = 19"
| "rank PPrepare = 18"
| "rank PStart = 17"
| "rank PCheckPending = 16"
| "rank PWait = 15"
| "rank PAwaitEof = 14"
| "rank PSweep = 13"
| "rank PReap = 12"
| "rank PTimeout = 11"
| "rank PTerminate = 10"
| "rank (PTermination _) = 10"
| "rank PTimeoutSettle = 9"
| "rank (PSettle _) = 9"
| "rank PTimeoutProof = 8"
| "rank (PFinalCheck _) = 8"
| "rank (PTimeoutLeave _) = 7"
| "rank (PReturning _) = 6"
| "rank (PCancel _) = 5"
| "rank (PCancelSettle _) = 4"
| "rank (PInternal _) = 3"
| "rank (PRestore _) = 2"
| "rank (PSeal _) = 1"
| "rank (PDone _) = 0"
| "rank (PEscaped _) = 0"

lemma rank_clear_and:
  "rank (sp_pc (clear_and PRestore u t s)) = 2"
  "rank (sp_pc (clear_and PReturning u t s)) = 6"
  by (simp_all add: clear_and_def split: prod.split)

lemmas do_defs = do_spawn_def do_prepare_def do_start_def do_check_pending_def do_wait_def do_timeout_def
  do_terminate_def do_timeout_settle_def do_timeout_proof_def do_timeout_leave_def do_await_eof_def
  do_sweep_def do_reap_def do_termination_def do_settle_def do_final_check_def do_cancel_def
  do_cancel_settle_def do_internal_def do_restore_def do_seal_def

lemma sup_block_rank: "sup_block s t \<Longrightarrow> rank (sp_pc t) < rank (sp_pc s)"
  by (induction rule: sup_block.induct)
     (auto simp: do_defs rank_clear_and Let_def
       split: option.splits spawn_outcome.splits watch_outcome.splits prod.splits sum.splits if_splits)

lemma request_cancellation_rank: "handlers_installed (sp_pc s) \<Longrightarrow> sup_inv s \<Longrightarrow> rank (sp_pc (request_cancellation n s)) \<le> rank (sp_pc s)"
  by (cases "sp_pc s") (auto simp: request_cancellation_def handling_exception_def Let_def
      sup_inv_def pc_inv_def handlers_installed_def)

text \<open>Runs that count the supervisor's own statements.\<close>

inductive sup_run :: "sup \<Rightarrow> nat \<Rightarrow> sup \<Rightarrow> bool" where
  run_start: "sup_run s 0 s"
| run_block: "sup_run s n t \<Longrightarrow> sup_block t u \<Longrightarrow> sup_run s (Suc n) u"
| run_other: "sup_run s n t \<Longrightarrow> sup_step t u \<Longrightarrow> \<not> sup_block t u \<Longrightarrow> sup_run s n u"

lemma sup_run_inv: "sup_run s n t \<Longrightarrow> sup_inv s \<Longrightarrow> sup_inv t"
  by (induction rule: sup_run.induct) (auto intro: sup_block_inv sup_step_inv)

lemma sup_step_rank: "sup_step s t \<Longrightarrow> sup_inv s \<Longrightarrow> rank (sp_pc t) \<le> rank (sp_pc s)"
proof (induction rule: sup_step.induct)
  case (block s t)
  then show ?case using sup_block_rank by force
qed (auto intro: request_cancellation_rank)

lemma sup_run_rank: "sup_run s n t \<Longrightarrow> sup_inv s \<Longrightarrow> n + rank (sp_pc t) \<le> rank (sp_pc s)"
proof (induction rule: sup_run.induct)
  case (run_start s)
  then show ?case by simp
next
  case (run_block s n t u)
  then show ?case using sup_block_rank [of t u] by simp
next
  case (run_other s n t u)
  then show ?case using sup_step_rank [of t u] sup_run_inv by fastforce
qed

text \<open>No state but a finished one is stuck, whatever the kernel answers next.\<close>

lemma sup_progress:
  assumes "sup_inv s" and "rank (sp_pc s) \<noteq> 0"
  shows "\<exists>t. sup_block s t"
proof (cases "sp_pc s")
  case PWait
  then show ?thesis
    using wait [of s DeadlinePassed] by (auto simp: do_wait_def)
next
  case PTerminate
  let ?env = "\<lparr>ge_first = KillRaises [], ge_grace = sp_child s, ge_wait_raises = None, ge_sweep = KillOk, ge_reap = WaitRaises []\<rparr>"
  have "do_terminate ?env s \<noteq> None"
    by (simp add: do_terminate_def terminate_process_group_def signal_group_def kill_possible_def)
  with PTerminate show ?thesis
    using terminate by blast
next
  case PSweep
  have "do_sweep (KillRaises []) s \<noteq> None"
    by (simp add: do_sweep_def signal_group_def kill_possible_def)
  with PSweep show ?thesis
    using sweep by blast
next
  case PReap
  have "do_reap (WaitRaises []) s \<noteq> None"
    by (simp add: do_reap_def reap_def wait_possible_def)
  with PReap show ?thesis
    using reap_leader by blast
next
  case (PCancel n)
  let ?env = "\<lparr>ge_first = KillRaises [], ge_grace = sp_child s, ge_wait_raises = None, ge_sweep = KillOk, ge_reap = WaitRaises []\<rparr>"
  have "do_cancel ?env n s \<noteq> None"
    by (simp add: do_cancel_def forward_signal_and_cleanup_def signal_group_def kill_possible_def)
  with PCancel show ?thesis
    using cancel by blast
next
  case (PInternal e)
  let ?env = "\<lparr>ge_first = KillRaises [], ge_grace = sp_child s, ge_wait_raises = None, ge_sweep = KillOk, ge_reap = WaitRaises []\<rparr>"
  have "do_internal ?env (replicate 3 (KillRaises [], WaitRaises [])) False e s \<noteq> None"
    by (simp add: do_internal_def terminate_process_group_def signal_group_def kill_possible_def
        force_process_group_cleanup_def numeral_3_eq_3 sweep_and_reap_def)
  with PInternal show ?thesis
    using internal by blast
qed (use assms(2) in \<open>(simp_all, (blast intro: spawn prepare start check_pending timeout timeout_settle
    timeout_proof timeout_leave await_eof termination_known settle final_check returning cancel_settle
    restore seal)+)\<close>)



section \<open>Signals\<close>

text \<open>While a cleanup runs a signal is recorded and nothing else changes.\<close>

lemma cleanup_not_interrupted:
  "sp_in_cleanup s \<or> \<not> sp_process s \<Longrightarrow> sp_pc (request_cancellation n s) = sp_pc s"
  by (auto simp: request_cancellation_def Let_def)

text \<open>Only the first signal of a run can change where it is.\<close>

lemma later_signal_ignored:
  "sp_pending s \<noteq> None \<Longrightarrow> request_cancellation n s = s\<lparr>sp_signals := sp_signals s @ [n]\<rparr>"
  by (simp add: request_cancellation_def Let_def)

lemma escape_only_from_restore:
  "sup_step s t \<Longrightarrow> sp_pc t = PEscaped n \<Longrightarrow> sp_pc s \<noteq> PEscaped n \<Longrightarrow>
     (\<exists>r. sp_pc s = PRestore r) \<and> sp_pending s = None"
proof (induction rule: sup_step.induct)
  case (block s t)
  then have "rank (sp_pc s) \<noteq> 0"
    using sup_block_rank by force
  from block show ?case
    by (induction rule: sup_block.induct)
       (auto simp: do_defs clear_and_def Let_def
         split: option.splits spawn_outcome.splits watch_outcome.splits prod.splits sum.splits if_splits)
next
  case (signal s n)
  then show ?case
    by (auto simp: request_cancellation_def Let_def split: if_splits sup_pc.splits)
qed auto

text \<open>A run whose child exits with 0 and which is about to restore the caller's handlers.\<close>

definition exited_child :: child where
  "exited_child = \<lparr>ch_alive = False, ch_status = Some 0, ch_reaped = False\<rparr>"

definition restoring_state :: sup where
  "restoring_state = waiting_state\<lparr>sp_child := exited_child\<lparr>ch_reaped := True\<rparr>,
     sp_cleaned := True, sp_sentinel := Some Absent, sp_pc := PRestore (Exited 0)\<rparr>"

lemma restoring_reached: "sup_reach start_state restoring_state"
proof -
  let ?w = "waiting_state\<lparr>sp_child := exited_child\<rparr>"
  let ?r = "?w\<lparr>sp_child := exited_child\<lparr>ch_reaped := True\<rparr>, sp_cleaned := True\<rparr>"
  have "sup_step waiting_state ?w"
    by (rule child_moves) (simp_all add: waiting_state_def evolves_def exited_child_def)
  then have "sup_reach start_state ?w"
    using waiting_reached reach_step by blast
  moreover have "sup_block ?w (?w\<lparr>sp_pc := PAwaitEof\<rparr>)"
    by (rule wait [of _ LeaderExited]) (simp_all add: do_wait_def waiting_state_def exited_child_def)
  moreover have "sup_block (?w\<lparr>sp_pc := PAwaitEof\<rparr>) (?w\<lparr>sp_in_cleanup := True, sp_pc := PSweep\<rparr>)"
    using await_eof [of "?w\<lparr>sp_pc := PAwaitEof\<rparr>" "\<lambda>st. st"]
    by (simp add: do_await_eof_def waiting_state_def start_state_def await_drainer_eof_def)
  moreover have "sup_block (?w\<lparr>sp_in_cleanup := True, sp_pc := PSweep\<rparr>) (?w\<lparr>sp_in_cleanup := True, sp_pc := PReap\<rparr>)"
    by (rule sweep [of _ KillNoGroup]) (simp_all add: do_sweep_def group_defs exited_child_def)
  moreover have "sup_block (?w\<lparr>sp_in_cleanup := True, sp_pc := PReap\<rparr>) (?r\<lparr>sp_pc := PTermination 0\<rparr>)"
    by (rule reap_leader [of _ "WaitReturns 0"])
       (simp_all add: do_reap_def group_defs exited_child_def waiting_state_def start_state_def)
  moreover have "sup_block (?r\<lparr>sp_pc := PTermination 0\<rparr>) (?r\<lparr>sp_pc := PSettle (Exited 0)\<rparr>)"
    using termination_known [of "?r\<lparr>sp_pc := PTermination 0\<rparr>" 0]
    by (simp add: do_termination_def waiting_state_def start_state_def)
  moreover have "sup_block (?r\<lparr>sp_pc := PSettle (Exited 0)\<rparr>) (?r\<lparr>sp_pc := PFinalCheck (Exited 0)\<rparr>)"
    using settle [of "?r\<lparr>sp_pc := PSettle (Exited 0)\<rparr>" "Exited 0" "\<lambda>st. st" "[]"]
    by (simp add: do_settle_def waiting_state_def start_state_def settle_drainers_def seal_drainers_def)
  moreover have "sup_block (?r\<lparr>sp_pc := PFinalCheck (Exited 0)\<rparr>)
      (?r\<lparr>sp_sentinel := Some Absent, sp_pc := PReturning (Exited 0)\<rparr>)"
    using final_check [of "?r\<lparr>sp_pc := PFinalCheck (Exited 0)\<rparr>" "Exited 0" False]
    by (simp add: do_final_check_def waiting_state_def start_state_def clear_and_def
        clear_non_timeout_sentinel_def validate_deadline_proof_def path_exists_def path_is_symlink_def)
  moreover have "sup_block (?r\<lparr>sp_sentinel := Some Absent, sp_pc := PReturning (Exited 0)\<rparr>) restoring_state"
    using returning [of "?r\<lparr>sp_sentinel := Some Absent, sp_pc := PReturning (Exited 0)\<rparr>" "Exited 0"]
    by (simp add: restoring_state_def waiting_state_def)
  ultimately show ?thesis
    by (meson reach_block)
qed


section \<open>\<open>run_captured_command\<close>\<close>

text \<open>
  The captured form redirects the caller's streams onto two bounded captures, gives \<open>run_command\<close> a
  marker no line can match, and returns what was retained.  What the supervised run writes to the
  two streams, drained chunks and its own diagnostics alike, is the environment's; \<open>None\<close> is the
  \<open>ValueError\<close> for a limit that is not positive.
\<close>

record supervised =
  sv_termination :: ending
  sv_stdout :: "written list"
  sv_stderr :: "written list"
  sv_retention :: marker_retention

record captured_command =
  cc_termination :: ending
  cc_stdout :: str
  cc_stderr :: str
  cc_capture_complete :: bool

definition run_captured_command :: "(marker_retention \<Rightarrow> supervised) \<Rightarrow> int \<Rightarrow> captured_command option" where
  "run_captured_command run_command capture_limit_bytes =
     (if capture_limit_bytes \<le> 0 then None
      else
        let retention = MarkerRetention (0 # lit ''mtest-captured-command-no-marker'');
            run = run_command retention;
            stdout = fold bounded_put (sv_stdout run) (BoundedTextCapture capture_limit_bytes);
            stderr = fold bounded_put (sv_stderr run) (BoundedTextCapture capture_limit_bytes)
        in Some \<lparr>cc_termination = sv_termination run, cc_stdout = bounded_finish stdout,
                 cc_stderr = bounded_finish stderr,
                 cc_capture_complete = mr_capture_complete (sv_retention run)\<rparr>)"

text \<open>
  For output that is text in UTF-8, \<open>stdout\<close> is the
  whole text when it fits the limit and otherwise a prefix of it followed by the marker that says so.
\<close>

theorem run_captured_command_stdout:
  assumes "run_captured_command run limit = Some c" and "list_all scalar s"
    and "concat (map encoded (sv_stdout (run (MarkerRetention (0 # lit ''mtest-captured-command-no-marker''))))) = utf8_encode s"
  shows "cc_stdout c = s \<and> int (length (utf8_encode s)) \<le> limit
    \<or> (\<exists>k. cc_stdout c = take k s @ CAPTURE_TRUNCATION_MARKER) \<and> limit < int (length (utf8_encode s))"
proof -
  let ?run = "run (MarkerRetention (0 # lit ''mtest-captured-command-no-marker''))"
  have "0 \<le> limit" and c: "cc_stdout c = bounded_finish (fold bounded_put (sv_stdout ?run) (BoundedTextCapture limit))"
    using assms(1) by (auto simp: run_captured_command_def Let_def split: if_splits)
  then show ?thesis
    using bounded_finish_text [OF _ assms(2,3), of limit] by (auto split: if_splits)
qed

theorem run_captured_command_stdout_witness:
  "\<exists>c. run_captured_command (\<lambda>m. \<lparr>sv_termination = Exited 0, sv_stdout = [WBytes [104], WBytes [105]], sv_stderr = [], sv_retention = m\<rparr>) 10 = Some c
     \<and> (cc_stdout c = [104, 105] \<or> (\<exists>k. cc_stdout c = take k [104, 105] @ CAPTURE_TRUNCATION_MARKER))"
proof -
  let ?run = "\<lambda>m. \<lparr>sv_termination = Exited 0, sv_stdout = [WBytes [104], WBytes [105]], sv_stderr = [], sv_retention = m\<rparr>"
  obtain c where c: "run_captured_command ?run 10 = Some c"
    by (simp add: run_captured_command_def Let_def)
  have "cc_stdout c = [104, 105] \<and> int (length (utf8_encode [104, 105])) \<le> 10
    \<or> (\<exists>k. cc_stdout c = take k [104, 105] @ CAPTURE_TRUNCATION_MARKER) \<and> 10 < int (length (utf8_encode [104, 105]))"
    by (rule run_captured_command_stdout [OF c]) (simp_all add: scalar_def utf8_encode1_def)
  with c show ?thesis by blast
qed

end
