(* ===== verification/Inventory.thy ===== *)
theory Inventory
  imports Deadline "HOL-Library.Multiset"
begin

text \<open>
  The first half of scripts/harness/selfhost.py: the command line, the suite roots, and the
  inventory of test functions derived from the sources on disk.  A path below the repository root
  is the list of its components; what the file system answers (\<open>exists\<close>, \<open>is_symlink\<close>,
  \<open>is_file\<close>, the walk of a directory, the text of a file) is the record \<open>repo_fs\<close>, an
  argument of the operations.  \<open>ValueError\<close>, \<open>AssertionError\<close> and \<open>OSError\<close> are the
  exceptions the command line catches.
\<close>

type_synonym path = "str list"

definition path_text :: "path \<Rightarrow> str" where
  "path_text p = join_with [47] p"

datatype value_fault =
    RepeatedWorkers
  | BadWorkers str
  | WorkerDigitLimit
  | MissingWorkers str
  | UnsafeRoot str
  | NotUnderTests str
  | NotRealRoot str
  | NotRealTestFile path
  | NotRegularFile path
  | NoTestFiles
  | BadTimeoutText str
  | BadTimeoutRange str
  | SourceNotUtf8 path
  | StreamDigits
  | ConsoleDigits

datatype assert_fault = NoTestFunctions str | DuplicateTestNames str

datatype selfhost_exn = ValueError value_fault | AssertionError assert_fault | OSError

section \<open>The command line\<close>

record request =
  rq_workers :: str
  rq_roots :: "str list"

definition WORKER_FLAGS :: "str list" where
  "WORKER_FLAGS = [lit ''-n'', lit ''--workers'']"

definition DEFAULT_WORKERS :: str where
  "DEFAULT_WORKERS = lit ''auto''"

text \<open>\<open>value.isascii() and value.isdecimal()\<close>\<close>

definition is_ascii_decimal :: "str \<Rightarrow> bool" where
  "is_ascii_decimal s \<longleftrightarrow> s \<noteq> [] \<and> list_all is_ascii_digit s"

definition check_workers :: "str \<Rightarrow> selfhost_exn + str" where
  "check_workers value =
     (if value = lit ''auto'' then Inr value
      else if \<not> is_ascii_decimal value then Inl (ValueError (BadWorkers value))
      else if 4300 < length value then Inl (ValueError WorkerDigitLimit)
      else if \<not> 0 < digits_value value then Inl (ValueError (BadWorkers value))
      else Inr value)"

text \<open>The flag an argument like \<open>-n=4\<close> starts with.\<close>

definition flag_value :: "str \<Rightarrow> str option" where
  "flag_value argument =
     (case List.find (\<lambda>flag. startswith argument (flag @ [61])) WORKER_FLAGS of
        None \<Rightarrow> None
      | Some matched \<Rightarrow> Some (drop (length matched + 1) argument))"

definition set_workers :: "str option \<Rightarrow> str \<Rightarrow> selfhost_exn + str option" where
  "set_workers workers value =
     (if workers \<noteq> None then Inl (ValueError RepeatedWorkers)
      else rbind (check_workers value) (\<lambda>v. Inr (Some v)))"

fun request_loop :: "str option \<Rightarrow> str list \<Rightarrow> str option \<Rightarrow> str list \<Rightarrow>
    selfhost_exn + str option \<times> str list" where
  "request_loop workers roots pending [] =
     (case pending of
        Some flag \<Rightarrow> Inl (ValueError (MissingWorkers flag))
      | None \<Rightarrow> Inr (workers, roots))"
| "request_loop workers roots pending (argument # argv) =
     (if pending \<noteq> None then
        rbind (set_workers workers argument) (\<lambda>w. request_loop w roots None argv)
      else if argument \<in> set WORKER_FLAGS then request_loop workers roots (Some argument) argv
      else case flag_value argument of
        None \<Rightarrow> request_loop workers (roots @ [argument]) None argv
      | Some value \<Rightarrow> rbind (set_workers workers value) (\<lambda>w. request_loop w roots None argv))"

definition parse_request :: "str list \<Rightarrow> str \<Rightarrow> selfhost_exn + request" where
  "parse_request argv default_workers =
     rbind (request_loop None [] None argv) (\<lambda>(workers, roots).
       Inr \<lparr> rq_workers = (case workers of None \<Rightarrow> default_workers | Some w \<Rightarrow> w), rq_roots = roots \<rparr>)"

section \<open>Test functions of a source\<close>

definition valid_test_name :: "str \<Rightarrow> bool" where
  "valid_test_name name \<longleftrightarrow>
     startswith name (lit ''test_'') \<and> length name \<noteq> length (lit ''test_'')
     \<and> list_all (\<lambda>c. is_ascii_alnum c \<or> c = 95) name"

text \<open>One pass of the loop over the lines: the name it appends, if any.\<close>

definition line_test_name :: "str \<Rightarrow> str option" where
  "line_test_name line =
     (if \<not> startswith line (lit ''def '') then None
      else
        let declaration = drop (length (lit ''def '')) line
        in case find1 40 declaration of
             None \<Rightarrow> None
           | Some opening \<Rightarrow>
               let prefix' = take opening declaration;
                   name = rstrip_of is_space prefix';
                   spaces = drop (length name) prefix'
               in if spaces \<noteq> [] \<and> \<not> list_all is_space spaces then None
                  else if \<not> startswith name (lit ''test_'') \<or> length name = length (lit ''test_'') then None
                  else if name = [] \<or> \<not> list_all (\<lambda>c. is_ascii_alnum c \<or> c = 95) name then None
                  else Some name)"

definition independent_test_function_names :: "str \<Rightarrow> str \<Rightarrow> selfhost_exn + str list" where
  "independent_test_function_names source origin =
     (let names = List.map_filter line_test_name (splitlines source)
      in if names = [] then Inl (AssertionError (NoTestFunctions origin))
         else if \<not> distinct names then Inl (AssertionError (DuplicateTestNames origin))
         else Inr names)"

section \<open>Roots\<close>

text \<open>One step of \<open>os.walk\<close>: a directory with its files, or the error it reports.\<close>

datatype walk_event = WalkDir path "str list" | WalkError

datatype read_fault = ReadOSError | ReadDecodeError

record repo_fs =
  fs_exists :: "path \<Rightarrow> bool"
  fs_symlink :: "path \<Rightarrow> bool"
  fs_file :: "path \<Rightarrow> bool"
  fs_walk :: "path \<Rightarrow> walk_event list"
  fs_read :: "path \<Rightarrow> read_fault + str"

definition DEFAULT_ROOTS :: "str list" where
  "DEFAULT_ROOTS = [lit ''tests/unit'', lit ''tests/integration'']"

fun strip_dot_slash :: "str \<Rightarrow> str" where
  "strip_dot_slash (a # b # r) = (if a = 46 \<and> b = 47 then strip_dot_slash r else a # b # r)"
| "strip_dot_slash s = s"

text \<open>\<open>Path(root).parts\<close> of a relative text.\<close>

definition path_parts :: "str \<Rightarrow> path" where
  "path_parts s = filter (\<lambda>c. c \<noteq> [] \<and> c \<noteq> [46]) (split_on 47 s)"

definition normalized_root :: "repo_fs \<Rightarrow> str \<Rightarrow> selfhost_exn + path" where
  "normalized_root fs original =
     (let rt = rstrip_of (\<lambda>c. c = 47) (strip_dot_slash original);
          candidate = path_parts rt
      in if rt = [] \<or> startswith rt [47] \<or> [46, 46] \<in> set candidate
         then Inl (ValueError (UnsafeRoot rt))
         else if candidate \<noteq> [lit ''tests''] \<and> take 1 candidate \<noteq> [lit ''tests'']
         then Inl (ValueError (NotUnderTests rt))
         else if \<not> fs_exists fs candidate \<or> fs_symlink fs candidate
         then Inl (ValueError (NotRealRoot rt))
         else Inr candidate)"

definition normalized_roots :: "repo_fs \<Rightarrow> str list \<Rightarrow> selfhost_exn + path list" where
  "normalized_roots fs paths =
     rmap (normalized_root fs) (if paths \<noteq> [] then paths else DEFAULT_ROOTS)"

section \<open>The inventory\<close>

text \<open>\<open>Path.match("test_*.mojo")\<close>\<close>

definition matches_glob :: "str \<Rightarrow> bool" where
  "matches_glob name \<longleftrightarrow>
     length (lit ''test_.mojo'') \<le> length name \<and> startswith name (lit ''test_'')
     \<and> endswith name (lit ''.mojo'')"

fun scan_entries :: "repo_fs \<Rightarrow> path \<Rightarrow> str list \<Rightarrow> selfhost_exn + path list" where
  "scan_entries fs directory [] = Inr []"
| "scan_entries fs directory (entry # entries) =
     (if \<not> matches_glob entry then scan_entries fs directory entries
      else if fs_symlink fs (directory @ [entry]) \<or> \<not> fs_file fs (directory @ [entry])
      then Inl (ValueError (NotRegularFile (directory @ [entry])))
      else rbind (scan_entries fs directory entries) (\<lambda>rest. Inr ((directory @ [entry]) # rest)))"

fun scan_walk :: "repo_fs \<Rightarrow> walk_event list \<Rightarrow> selfhost_exn + path list" where
  "scan_walk fs [] = Inr []"
| "scan_walk fs (WalkError # events) = Inl OSError"
| "scan_walk fs (WalkDir directory entries # events) =
     rbind (scan_entries fs directory entries) (\<lambda>found.
     rbind (scan_walk fs events) (\<lambda>rest. Inr (found @ rest)))"

definition test_files_under :: "repo_fs \<Rightarrow> path \<Rightarrow> selfhost_exn + path list" where
  "test_files_under fs rt =
     (if fs_file fs rt then
        (if \<not> matches_glob (last rt) \<or> fs_symlink fs rt
         then Inl (ValueError (NotRealTestFile rt)) else Inr [rt])
      else rbind (scan_walk fs (fs_walk fs rt)) (\<lambda>found. Inr (sort found)))"

type_synonym inventory = "(str, str list) dict"

definition inv_paths :: "inventory \<Rightarrow> str list" where
  "inv_paths inventory = map fst inventory"

definition total_tests :: "inventory \<Rightarrow> int" where
  "total_tests inventory = sum_list (map (\<lambda>(_, names). int (length names)) inventory)"

definition add_test_file :: "repo_fs \<Rightarrow> path \<Rightarrow> inventory \<Rightarrow> selfhost_exn + inventory" where
  "add_test_file fs file tests =
     (let relative = path_text file
      in if map_of tests relative \<noteq> None then Inr tests
         else case fs_read fs file of
           Inl ReadOSError \<Rightarrow> Inl OSError
         | Inl ReadDecodeError \<Rightarrow> Inl (ValueError (SourceNotUtf8 file))
         | Inr source \<Rightarrow>
             rbind (independent_test_function_names source relative) (\<lambda>names.
               Inr (dict_set relative names tests)))"

fun add_test_files :: "repo_fs \<Rightarrow> path list \<Rightarrow> inventory \<Rightarrow> selfhost_exn + inventory" where
  "add_test_files fs [] tests = Inr tests"
| "add_test_files fs (file # files) tests =
     rbind (add_test_file fs file tests) (\<lambda>tests'. add_test_files fs files tests')"

fun add_roots :: "repo_fs \<Rightarrow> path list \<Rightarrow> inventory \<Rightarrow> selfhost_exn + inventory" where
  "add_roots fs [] tests = Inr tests"
| "add_roots fs (rt # roots) tests =
     rbind (test_files_under fs rt) (\<lambda>files.
     rbind (add_test_files fs files tests) (\<lambda>tests'. add_roots fs roots tests'))"

definition derive_inventory :: "repo_fs \<Rightarrow> path list \<Rightarrow> selfhost_exn + inventory" where
  "derive_inventory fs roots =
     rbind (add_roots fs roots []) (\<lambda>tests.
       if tests = [] then Inl (ValueError NoTestFiles) else Inr (sort_key fst tests))"

section \<open>The command and its ceiling\<close>

definition mtest_argv :: "str \<Rightarrow> str \<Rightarrow> path list \<Rightarrow> str \<Rightarrow> str \<Rightarrow> str list" where
  "mtest_argv mtest_path native_object roots workers json_path =
     [mtest_path, lit ''-I'', lit ''build'', lit ''-I'', lit ''tests/support'',
      lit ''--build-arg=--Werror'', lit ''--build-arg=--no-optimization'',
      lit ''--build-arg=-Xlinker'', lit ''--build-arg='' @ native_object,
      lit ''-n'', workers, lit ''--json'', json_path]
     @ map path_text roots"

definition SELFHOST_TIMEOUT_SECONDS :: pyfloat where
  "SELFHOST_TIMEOUT_SECONDS = Fin 1800"

text \<open>\<open>parse_float\<close> is Python's \<open>float(s)\<close>, \<open>None\<close> its \<open>ValueError\<close>; \<open>raw\<close> is the
  environment's entry.\<close>

definition timeout_seconds :: "(str \<Rightarrow> pyfloat option) \<Rightarrow> str option \<Rightarrow> selfhost_exn + pyfloat" where
  "timeout_seconds parse_float raw =
     (case raw of
        None \<Rightarrow> Inr SELFHOST_TIMEOUT_SECONDS
      | Some t \<Rightarrow>
          (case parse_float t of
             None \<Rightarrow> Inl (ValueError (BadTimeoutText t))
           | Some (Fin s) \<Rightarrow>
               if 0 < s \<and> s \<le> MAX_TIMEOUT_SECONDS then Inr (Fin s)
               else Inl (ValueError (BadTimeoutRange t))
           | Some _ \<Rightarrow> Inl (ValueError (BadTimeoutRange t))))"

section \<open>Properties\<close>

lemma rstrip_last: "n \<noteq> [] \<Longrightarrow> \<not> P (last n) \<Longrightarrow> list_all P w \<Longrightarrow> rstrip_of P (n @ w) = n"
proof -
  assume n: "n \<noteq> []" "\<not> P (last n)" and w: "list_all P w"
  then obtain m c where "n = m @ [c]" "\<not> P c" by (metis append_butlast_last_id)
  moreover have "\<forall>x\<in>set (rev w). P x" using w by (simp add: list_all_iff)
  ultimately show ?thesis
    by (simp add: rstrip_of_def dropWhile_append2 del: set_rev)
qed

lemma find1_append: "c \<notin> set a \<Longrightarrow> find1 c (a @ c # b) = Some (length a)"
  by (induction a) auto

lemma valid_test_name_chars:
  assumes "valid_test_name n"
  shows "n \<noteq> []" "40 \<notin> set n" "\<not> is_space (last n)"
proof -
  show ne: "n \<noteq> []" using assms by (auto simp: valid_test_name_def)
  have "\<forall>c\<in>set n. is_ascii_alnum c \<or> c = 95"
    using assms by (simp add: valid_test_name_def list_all_iff)
  then show "40 \<notin> set n" "\<not> is_space (last n)"
    using last_in_set [OF ne] by (auto simp: is_ascii_alnum_def is_ascii_digit_def is_space_def)
qed

lemma line_test_name_Some:
  "line_test_name line = Some n \<longleftrightarrow>
     (\<exists>w r. line = lit ''def '' @ n @ w @ 40 # r \<and> list_all is_space w \<and> valid_test_name n)"
proof
  assume s: "line_test_name line = Some n"
  then obtain d k where d: "line = lit ''def '' @ d" and k: "find1 40 d = Some k"
    by (auto simp: line_test_name_def startswith_iff Let_def split: if_splits option.splits)
  have n: "n = rstrip_of is_space (take k d)" and v: "valid_test_name n"
    using s by (auto simp: line_test_name_def d k valid_test_name_def Let_def split: if_splits)
  obtain w where w: "take k d = n @ w" "list_all is_space w"
    using rstrip_of_split [of "take k d" is_space] n by metis
  have "d = take k d @ d ! k # drop (Suc k) d" "d ! k = 40"
    using find1_Some [OF k] id_take_nth_drop [of k d] by simp_all
  with w have "d = n @ w @ 40 # drop (Suc k) d" by simp
  with d w(2) v show "\<exists>w r. line = lit ''def '' @ n @ w @ 40 # r \<and> list_all is_space w \<and> valid_test_name n"
    by metis
next
  assume "\<exists>w r. line = lit ''def '' @ n @ w @ 40 # r \<and> list_all is_space w \<and> valid_test_name n"
  then obtain w r where line: "line = lit ''def '' @ n @ w @ 40 # r" and w: "list_all is_space w"
    and v: "valid_test_name n" by blast
  have "40 \<notin> set (n @ w)"
    using valid_test_name_chars [OF v] w by (auto simp: list_all_iff is_space_def)
  then have "find1 40 (n @ w @ 40 # r) = Some (length (n @ w))"
    using find1_append [of 40 "n @ w" r] by simp
  moreover have "rstrip_of is_space (n @ w) = n"
    using valid_test_name_chars [OF v] w by (intro rstrip_last)
  ultimately show "line_test_name line = Some n"
    using v w valid_test_name_chars(1) [OF v] by (simp add: line_test_name_def line valid_test_name_def Let_def)
qed

text \<open>
  The oracle's names: the names derived from a source are distinct, at least one, and exactly
  the identifiers with the test prefix that some line declares as a top-level function with an
  opening parenthesis.
\<close>

theorem test_names_exact:
  assumes "independent_test_function_names source origin = Inr names"
  shows "names \<noteq> [] \<and> distinct names
    \<and> set names = {n. valid_test_name n \<and> (\<exists>w r. list_all is_space w
         \<and> lit ''def '' @ n @ w @ lit ''('' @ r \<in> set (splitlines source))}"
proof -
  from assms have names: "names = List.map_filter line_test_name (splitlines source)"
    and ok: "names \<noteq> []" "distinct names"
    by (auto simp: independent_test_function_names_def Let_def split: if_splits)
  have "set names = {n. \<exists>l\<in>set (splitlines source). line_test_name l = Some n}"
    unfolding names by (rule set_map_filter)
  also have "\<dots> = {n. valid_test_name n \<and> (\<exists>w r. list_all is_space w
         \<and> lit ''def '' @ n @ w @ lit ''('' @ r \<in> set (splitlines source))}"
    unfolding line_test_name_Some by auto
  finally show ?thesis using ok by blast
qed

theorem test_names_exact_witness:
  "distinct [lit ''test_a'', lit ''test_b'']
   \<and> lit ''test_b'' \<in> {n. valid_test_name n \<and> (\<exists>w r. list_all is_space w
         \<and> lit ''def '' @ n @ w @ lit ''('' @ r \<in> set (splitlines (lit ''def test_a():'' @ [10] @ lit ''def test_b () :'' @ [10] @ lit '' def test_c():'')))}"
proof -
  have "independent_test_function_names (lit ''def test_a():'' @ [10] @ lit ''def test_b () :'' @ [10] @ lit '' def test_c():'') []
      = Inr [lit ''test_a'', lit ''test_b'']"
    by code_simp
  note exact = test_names_exact [OF this]
  show ?thesis
    by (intro conjI exact [THEN conjunct2, THEN conjunct1]
        exact [THEN conjunct2, THEN conjunct2, THEN equalityD1, THEN subsetD]) simp
qed

subsection \<open>The inventory\<close>

text \<open>The test files a root stands for.\<close>

definition files_of_root :: "repo_fs \<Rightarrow> path \<Rightarrow> path set" where
  "files_of_root fs rt =
     (if fs_file fs rt then {rt}
      else {d @ [e] |d e. matches_glob e \<and> (\<exists>es. WalkDir d es \<in> set (fs_walk fs rt) \<and> e \<in> set es)})"

lemma scan_entries_set:
  "scan_entries fs d es = Inr fs' \<Longrightarrow> set fs' = {d @ [e] |e. e \<in> set es \<and> matches_glob e}"
  by (induction es arbitrary: fs') (auto simp: rbind_Inr split: if_splits)

lemma scan_walk_set:
  "scan_walk fs evs = Inr fs' \<Longrightarrow>
     set fs' = {d @ [e] |d e. matches_glob e \<and> (\<exists>es. WalkDir d es \<in> set evs \<and> e \<in> set es)}"
proof (induction evs arbitrary: fs')
  case (Cons ev evs)
  show ?case
  proof (cases ev)
    case (WalkDir d es)
    with Cons.prems obtain a b where "scan_entries fs d es = Inr a" "scan_walk fs evs = Inr b" "fs' = a @ b"
      by (auto simp: rbind_Inr)
    then show ?thesis
      using scan_entries_set Cons.IH by (fastforce simp: WalkDir)
  qed (use Cons in simp)
qed simp

lemma test_files_under_set: "test_files_under fs rt = Inr files \<Longrightarrow> set files = files_of_root fs rt"
  using scan_walk_set by (fastforce simp: test_files_under_def files_of_root_def rbind_Inr split: if_splits)

text \<open>An entry of the inventory is the parse of a file that was read.\<close>

definition entry_ok :: "repo_fs \<Rightarrow> path set \<Rightarrow> str \<times> str list \<Rightarrow> bool" where
  "entry_ok fs F e \<longleftrightarrow> (\<exists>f\<in>F. \<exists>src. fst e = path_text f \<and> fs_read fs f = Inr src
     \<and> independent_test_function_names src (fst e) = Inr (snd e))"

definition inv_ok :: "repo_fs \<Rightarrow> path set \<Rightarrow> inventory \<Rightarrow> bool" where
  "inv_ok fs F tests \<longleftrightarrow> distinct (map fst tests) \<and> fst ` set tests = path_text ` F
     \<and> list_all (entry_ok fs F) tests"

lemma entry_ok_mono: "F \<subseteq> G \<Longrightarrow> entry_ok fs F e \<Longrightarrow> entry_ok fs G e"
  by (auto simp: entry_ok_def)

lemma add_test_file_ok:
  assumes "inv_ok fs F tests" "add_test_file fs f tests = Inr tests'"
  shows "inv_ok fs (insert f F) tests'"
proof (cases "map_of tests (path_text f) = None")
  case False
  then have "tests' = tests" "path_text f \<in> path_text ` F"
    using assms by (auto simp: add_test_file_def inv_ok_def map_of_eq_None_iff)
  then show ?thesis
    using assms(1) entry_ok_mono [OF subset_insertI [of F f], of fs] by (auto simp: inv_ok_def list_all_iff)
next
  case True
  then obtain src names where r: "fs_read fs f = Inr src"
    "independent_test_function_names src (path_text f) = Inr names" "tests' = dict_set (path_text f) names tests"
    using assms(2) by (auto simp: add_test_file_def rbind_Inr Let_def split: sum.splits read_fault.splits)
  have fresh: "path_text f \<notin> fst ` set tests"
    using True by (simp add: map_of_eq_None_iff)
  then have "tests' = tests @ [(path_text f, names)]"
    using r(3) by (simp add: dict_set_fresh)
  moreover have "entry_ok fs (insert f F) (path_text f, names)"
    using r by (auto simp: entry_ok_def)
  ultimately show ?thesis
    using assms(1) fresh entry_ok_mono [OF subset_insertI [of F f], of fs] by (auto simp: inv_ok_def list_all_iff)
qed

lemma add_test_files_ok:
  "inv_ok fs F tests \<Longrightarrow> add_test_files fs files tests = Inr tests' \<Longrightarrow> inv_ok fs (set files \<union> F) tests'"
proof (induction files arbitrary: F tests)
  case (Cons f files)
  then obtain t where t: "add_test_file fs f tests = Inr t" "add_test_files fs files t = Inr tests'"
    by (auto simp: rbind_Inr)
  then show ?case
    using Cons.IH [OF add_test_file_ok [OF Cons.prems(1) t(1)]] by simp
qed simp

lemma add_roots_ok:
  "inv_ok fs F tests \<Longrightarrow> add_roots fs roots tests = Inr tests' \<Longrightarrow>
     inv_ok fs (\<Union> (files_of_root fs ` set roots) \<union> F) tests'"
proof (induction roots arbitrary: F tests)
  case (Cons rt roots)
  then obtain files t where t: "test_files_under fs rt = Inr files" "add_test_files fs files tests = Inr t"
    "add_roots fs roots t = Inr tests'"
    by (auto simp: rbind_Inr)
  show ?case
    using Cons.IH [OF add_test_files_ok [OF Cons.prems(1) t(2)] t(3)]
    by (simp add: test_files_under_set [OF t(1)] Un_assoc Un_left_commute)
qed simp

text \<open>
  C28 (the inventory is complete): a derived inventory lists, sorted and without repetition, exactly
  the test files at or under the requested roots, each with the test functions its own source
  declares, at least one per file.
\<close>

theorem derived_inventory_complete:
  assumes "derive_inventory fs roots = Inr found"
  shows "found \<noteq> [] \<and> sorted (inv_paths found) \<and> distinct (inv_paths found)
    \<and> set (inv_paths found) = path_text ` (\<Union>rt\<in>set roots. files_of_root fs rt)
    \<and> (\<forall>(relative, names)\<in>set found. names \<noteq> [] \<and> distinct names
         \<and> (\<exists>file src. relative = path_text file \<and> fs_read fs file = Inr src
              \<and> independent_test_function_names src relative = Inr names))"
proof -
  from assms obtain tests where t: "add_roots fs roots [] = Inr tests" "tests \<noteq> []" "found = sort_key fst tests"
    by (auto simp: derive_inventory_def rbind_Inr split: if_splits)
  have ok: "inv_ok fs (\<Union> (files_of_root fs ` set roots)) tests"
    using add_roots_ok [OF _ t(1), of "{}"] by (simp add: inv_ok_def)
  have "distinct (map fst found) \<longleftrightarrow> distinct (map fst tests)"
    unfolding t(3) by (rule mset_eq_imp_distinct_iff) simp
  moreover have "found \<noteq> []" using t(2,3) by (metis set_empty set_sort)
  moreover have "set found = set tests" by (simp add: t(3))
  moreover have "names \<noteq> [] \<and> distinct names
         \<and> (\<exists>file src. relative = path_text file \<and> fs_read fs file = Inr src
              \<and> independent_test_function_names src relative = Inr names)"
    if "(relative, names) \<in> set tests" for relative names
    using that ok unfolding inv_ok_def list_all_iff entry_ok_def
    by (fastforce simp: independent_test_function_names_def Let_def split: if_splits)
  ultimately show ?thesis
    using ok by (auto simp: inv_paths_def inv_ok_def t(3) simp flip: image_image)
qed

theorem derived_inventory_complete_witness:
  "set (inv_paths [(lit ''tests/test_a.mojo'', [lit ''test_x''])])
     = path_text ` (\<Union>rt\<in>set [[lit ''tests'']]. files_of_root
         \<lparr> fs_exists = (\<lambda>_. True), fs_symlink = (\<lambda>_. False), fs_file = (\<lambda>p. length p = 2),
           fs_walk = (\<lambda>p. [WalkDir p [lit ''test_a.mojo'', lit ''README'']]),
           fs_read = (\<lambda>_. Inr (lit ''def test_x():'')) \<rparr> rt)"
proof -
  have "derive_inventory \<lparr> fs_exists = (\<lambda>_. True), fs_symlink = (\<lambda>_. False), fs_file = (\<lambda>p. length p = 2),
           fs_walk = (\<lambda>p. [WalkDir p [lit ''test_a.mojo'', lit ''README'']]),
           fs_read = (\<lambda>_. Inr (lit ''def test_x():'')) \<rparr> [[lit ''tests'']]
      = Inr [(lit ''tests/test_a.mojo'', [lit ''test_x''])]"
    by code_simp
  note c = derived_inventory_complete [OF this]
  show ?thesis
    by (rule c [THEN conjunct2, THEN conjunct2, THEN conjunct2, THEN conjunct1])
qed

subsection \<open>The command line\<close>

text \<open>An operand: no worker flag, alone or with its value attached.\<close>

definition operand :: "str \<Rightarrow> bool" where
  "operand a \<longleftrightarrow> a \<notin> set WORKER_FLAGS \<and> flag_value a = None"

lemma check_workers_id: "check_workers v = Inr w \<Longrightarrow> w = v"
  by (auto simp: check_workers_def split: if_splits)

lemma request_plain:
  "list_all operand argv \<Longrightarrow> request_loop w roots None argv = Inr (w, roots @ argv)"
  by (induction argv arbitrary: roots) (auto simp: operand_def)

text \<open>Once a count is given, only operands may follow.\<close>

lemma request_after: "request_loop (Some w) roots pend argv = Inr (w', roots') \<Longrightarrow>
    pend = None \<and> list_all operand argv \<and> w' = Some w \<and> roots' = roots @ argv"
proof (induction argv arbitrary: roots pend)
  case Nil
  then show ?case by (auto split: option.splits)
next
  case (Cons a argv)
  show ?case
  proof (cases "pend = None \<and> operand a")
    case True
    with Cons.prems have "request_loop (Some w) (roots @ [a]) None argv = Inr (w', roots')"
      by (auto simp: operand_def)
    from Cons.IH [OF this] True show ?thesis by simp
  next
    case False
    with Cons.prems have "request_loop (Some w) roots (Some a) argv = Inr (w', roots')"
      by (auto simp: operand_def set_workers_def split: if_splits option.splits)
    from Cons.IH [OF this] show ?thesis by simp
  qed
qed

text \<open>The words that set the count.\<close>

definition worker_words :: "str \<Rightarrow> str list \<Rightarrow> bool" where
  "worker_words w ws \<longleftrightarrow> (\<exists>flag\<in>set WORKER_FLAGS. ws = [flag, w] \<or> ws = [flag @ [61] @ w])"

lemma flag_value_Some: "flag_value a = Some w \<longleftrightarrow> (\<exists>flag\<in>set WORKER_FLAGS. a = flag @ [61] @ w)"
  by (auto simp: flag_value_def WORKER_FLAGS_def startswith_iff)

lemma flag_not_attached: "flag \<in> set WORKER_FLAGS \<Longrightarrow> flag @ 61 # w \<notin> set WORKER_FLAGS"
  by (auto simp: WORKER_FLAGS_def)

lemma request_words:
  assumes "worker_words w ws" "check_workers w = Inr w" "list_all operand post"
  shows "request_loop None roots None (ws @ post) = Inr (Some w, roots @ post)"
proof -
  obtain flag where flag: "flag \<in> set WORKER_FLAGS" "ws = [flag, w] \<or> ws = [flag @ [61] @ w]"
    using assms(1) by (auto simp: worker_words_def)
  from flag(2) show ?thesis
  proof
    assume "ws = [flag, w]"
    then show ?thesis
      using flag(1) assms(2) request_plain [OF assms(3)] by (simp add: set_workers_def)
  next
    assume ws: "ws = [flag @ [61] @ w]"
    have "flag_value (flag @ [61] @ w) = Some w"
      using flag(1) by (auto simp: flag_value_Some)
    then show ?thesis
      using flag_not_attached [OF flag(1)] assms(2) request_plain [OF assms(3)]
      by (simp add: ws set_workers_def)
  qed
qed

lemma request_operands:
  "list_all operand pre \<Longrightarrow> request_loop w roots None (pre @ argv) = request_loop w (roots @ pre) None argv"
  by (induction pre arbitrary: roots) (auto simp: operand_def)

lemma request_loop_cases:
  "request_loop None roots None argv = Inr (w', roots') \<Longrightarrow>
     (w' = None \<and> list_all operand argv \<and> roots' = roots @ argv)
     \<or> (\<exists>w pre ws post. w' = Some w \<and> check_workers w = Inr w \<and> worker_words w ws
          \<and> argv = pre @ ws @ post \<and> list_all operand (pre @ post) \<and> roots' = roots @ pre @ post)"
proof (induction argv arbitrary: roots)
  case Nil
  then show ?case by simp
next
  case (Cons a argv)
  consider (plain) "operand a" | (alone) "a \<in> set WORKER_FLAGS"
    | (attached) w where "a \<notin> set WORKER_FLAGS" "flag_value a = Some w"
    by (cases "flag_value a") (auto simp: operand_def)
  then show ?case
  proof cases
    case plain
    then have "request_loop None (roots @ [a]) None argv = Inr (w', roots')"
      using Cons.prems by (auto simp: operand_def)
    from Cons.IH [OF this] show ?thesis
    proof
      assume "\<exists>w pre ws post. w' = Some w \<and> check_workers w = Inr w \<and> worker_words w ws
          \<and> argv = pre @ ws @ post \<and> list_all operand (pre @ post) \<and> roots' = (roots @ [a]) @ pre @ post"
      then obtain w pre ws post where "w' = Some w" "check_workers w = Inr w" "worker_words w ws"
          "a # argv = (a # pre) @ ws @ post" "list_all operand ((a # pre) @ post)" "roots' = roots @ (a # pre) @ post"
        using plain by auto
      then show ?thesis by blast
    qed (use plain in simp)
  next
    case alone
    then have "request_loop None roots (Some a) argv = Inr (w', roots')"
      using Cons.prems by simp
    then obtain w argv' where w: "argv = w # argv'" "check_workers w = Inr w"
        "request_loop (Some w) roots None argv' = Inr (w', roots')"
      by (cases argv) (auto simp: set_workers_def rbind_Inr dest: check_workers_id)
    have "worker_words w [a, w]" using alone by (auto simp: worker_words_def)
    then show ?thesis
      using request_after [OF w(3)] w
      by (intro disjI2 exI [of _ w] exI [of _ "[]"] exI [of _ "[a, w]"] exI [of _ argv']) simp
  next
    case attached
    then have w: "check_workers w = Inr w" "request_loop (Some w) roots None argv = Inr (w', roots')"
      using Cons.prems by (auto simp: set_workers_def rbind_Inr dest: check_workers_id)
    have "worker_words w [a]" using attached by (auto simp: worker_words_def flag_value_Some)
    then show ?thesis
      using request_after [OF w(2)] w
      by (intro disjI2 exI [of _ w] exI [of _ "[]"] exI [of _ "[a]"] exI [of _ argv]) simp
  qed
qed

text \<open>
  A request is accepted exactly when the worker count is given at most
  once, as a flag followed by its value or joined to it with an equals sign, and is \<open>auto\<close> or a
  positive decimal number; every other word is a root, in order.
\<close>

theorem parse_request_exact:
  "parse_request argv d = Inr q \<longleftrightarrow>
     (list_all operand argv \<and> q = \<lparr> rq_workers = d, rq_roots = argv \<rparr>)
     \<or> (\<exists>w pre ws post. (w = lit ''auto''
            \<or> is_ascii_decimal w \<and> length w \<le> 4300 \<and> 0 < digits_value w)
          \<and> worker_words w ws \<and> argv = pre @ ws @ post \<and> list_all operand (pre @ post)
          \<and> q = \<lparr> rq_workers = w, rq_roots = pre @ post \<rparr>)"
proof -
  have ok: "check_workers w = Inr w \<longleftrightarrow>
      w = lit ''auto'' \<or> is_ascii_decimal w \<and> length w \<le> 4300 \<and> 0 < digits_value w" for w
    by (auto simp: check_workers_def)
  show ?thesis
    unfolding ok [symmetric]
  proof
    assume "parse_request argv d = Inr q"
    then obtain w' roots' where r: "request_loop None [] None argv = Inr (w', roots')"
      "q = \<lparr> rq_workers = (case w' of None \<Rightarrow> d | Some w \<Rightarrow> w), rq_roots = roots' \<rparr>"
      by (auto simp: parse_request_def rbind_Inr)
    from request_loop_cases [OF r(1)]
    show "(list_all operand argv \<and> q = \<lparr> rq_workers = d, rq_roots = argv \<rparr>)
     \<or> (\<exists>w pre ws post. check_workers w = Inr w \<and> worker_words w ws \<and> argv = pre @ ws @ post
          \<and> list_all operand (pre @ post) \<and> q = \<lparr> rq_workers = w, rq_roots = pre @ post \<rparr>)"
    proof
      assume "w' = None \<and> list_all operand argv \<and> roots' = [] @ argv"
      then show ?thesis using r(2) by simp
    next
      assume "\<exists>w pre ws post. w' = Some w \<and> check_workers w = Inr w \<and> worker_words w ws
          \<and> argv = pre @ ws @ post \<and> list_all operand (pre @ post) \<and> roots' = [] @ pre @ post"
      then obtain w pre ws post where "w' = Some w" "check_workers w = Inr w" "worker_words w ws"
          "argv = pre @ ws @ post" "list_all operand (pre @ post)" "roots' = pre @ post"
        by auto
      moreover from this r(2) have "q = \<lparr> rq_workers = w, rq_roots = pre @ post \<rparr>" by simp
      ultimately show ?thesis by blast
    qed
  next
    assume "(list_all operand argv \<and> q = \<lparr> rq_workers = d, rq_roots = argv \<rparr>)
     \<or> (\<exists>w pre ws post. check_workers w = Inr w \<and> worker_words w ws \<and> argv = pre @ ws @ post
          \<and> list_all operand (pre @ post) \<and> q = \<lparr> rq_workers = w, rq_roots = pre @ post \<rparr>)"
    then show "parse_request argv d = Inr q"
    proof
      assume "list_all operand argv \<and> q = \<lparr> rq_workers = d, rq_roots = argv \<rparr>"
      then show ?thesis by (simp add: parse_request_def request_plain)
    next
      assume "\<exists>w pre ws post. check_workers w = Inr w \<and> worker_words w ws \<and> argv = pre @ ws @ post
          \<and> list_all operand (pre @ post) \<and> q = \<lparr> rq_workers = w, rq_roots = pre @ post \<rparr>"
      then obtain w pre ws post where "check_workers w = Inr w" "worker_words w ws" "argv = pre @ ws @ post"
          "list_all operand pre" "list_all operand post" "q = \<lparr> rq_workers = w, rq_roots = pre @ post \<rparr>"
        by auto
      then show ?thesis by (simp add: parse_request_def request_operands request_words)
    qed
  qed
qed

text \<open>
  Roots stay below tests: every normalized root is a real file or directory, not a link
  itself, whose components start with \<open>tests\<close> and contain no parent step.
\<close>

theorem roots_stay_below_tests:
  assumes "normalized_roots fs paths = Inr roots"
  shows "roots \<noteq> [] \<and> (\<forall>rt\<in>set roots. rt \<noteq> [] \<and> hd rt = lit ''tests''
     \<and> (\<forall>c\<in>set rt. c \<noteq> [] \<and> c \<noteq> lit ''.'' \<and> c \<noteq> lit ''..'' \<and> 47 \<notin> set c)
     \<and> fs_exists fs rt \<and> \<not> fs_symlink fs rt)"
proof -
  let ?raw = "if paths \<noteq> [] then paths else DEFAULT_ROOTS"
  have l: "list_all2 (\<lambda>x y. normalized_root fs x = Inr y) ?raw roots"
    using assms by (simp add: normalized_roots_def rmap_Inr)
  then have "roots \<noteq> []"
    by (auto simp: DEFAULT_ROOTS_def split: if_splits)
  moreover have "rt \<noteq> [] \<and> hd rt = lit ''tests''
     \<and> (\<forall>c\<in>set rt. c \<noteq> [] \<and> c \<noteq> lit ''.'' \<and> c \<noteq> lit ''..'' \<and> 47 \<notin> set c)
     \<and> fs_exists fs rt \<and> \<not> fs_symlink fs rt" if rt: "rt \<in> set roots" for rt
  proof -
    obtain i where i: "i < length roots" "rt = roots ! i"
      using rt by (metis in_set_conv_nth)
    then obtain x where "normalized_root fs x = Inr rt"
      using list_all2_nthD2 [OF l i(1)] by blast
    then have p: "\<exists>s. rt = path_parts s" "take 1 rt = [lit ''tests'']" "[46, 46] \<notin> set rt"
      "fs_exists fs rt" "\<not> fs_symlink fs rt"
      by (auto simp: normalized_root_def Let_def split: if_splits)
    have "c \<noteq> [] \<and> c \<noteq> lit ''.'' \<and> 47 \<notin> set c" if "c \<in> set rt" for c
      using that p(1) split_on_pieces [of c 47] by (fastforce simp: path_parts_def)
    then show ?thesis
      using p(2-) by (cases rt) auto
  qed
  ultimately show ?thesis by blast
qed

theorem roots_stay_below_tests_witness:
  "hd [lit ''tests'', lit ''unit''] = lit ''tests''"
proof -
  have "normalized_roots \<lparr> fs_exists = (\<lambda>_. True), fs_symlink = (\<lambda>_. False), fs_file = (\<lambda>_. False),
      fs_walk = (\<lambda>_. []), fs_read = (\<lambda>_. Inl ReadOSError) \<rparr> [lit ''.//'' @ lit ''tests//unit/'']
    = Inl (ValueError (UnsafeRoot (lit ''/tests//unit'')))"
    by code_simp
  have "normalized_roots \<lparr> fs_exists = (\<lambda>_. True), fs_symlink = (\<lambda>_. False), fs_file = (\<lambda>_. False),
      fs_walk = (\<lambda>_. []), fs_read = (\<lambda>_. Inl ReadOSError) \<rparr> [lit ''./tests//unit/'']
    = Inr [[lit ''tests'', lit ''unit'']]"
    by code_simp
  from roots_stay_below_tests [OF this] show ?thesis by simp
qed

end
