(* ===== verification/Json.thy ===== *)
theory Json
  imports Prelude "HOL-Library.Multiset"
begin

text \<open>
  Python's \<open>json\<close> module as the modelled code uses it: \<open>json.loads\<close> on a text with the
  two hooks the strict consumers install (\<open>parse_constant\<close> and \<open>object_pairs_hook\<close>), and
  \<open>json.dumps\<close> in the compact form with sorted keys.  The scanner follows CPython's: white
  space is space, tab, line feed and carriage return; a control character inside a string is
  refused; a \<open>\\u\<close> escape of a high surrogate is joined with a following low one; a number
  falls back to its longest valid prefix; the pairs hook runs when its object closes.  An integer
  of more than 4300 digits is Python's plain \<open>ValueError\<close> (\<open>JDigits\<close>), not a
  \<open>JSONDecodeError\<close> (\<open>JDecode\<close>).  A float keeps the text it was read from.

  The scanner takes fuel; \<open>scan_value_fuel\<close> shows that two units per character are enough.
  The interpreter's recursion limit is not modelled.
\<close>

section \<open>Values and errors\<close>

datatype json =
    JNull
  | JBool bool
  | JInt int
  | JFloat str
  | JStr str
  | JArr "json list"
  | JObj "(str \<times> json) list"

type_synonym jobj = "(str, json) dict"

datatype jerr = JDecode | JDigits | JNonFinite str | JDuplicateKey str | JFuel

record json_hooks =
  constant_hook :: "str \<Rightarrow> jerr + json"
  pairs_hook :: "(str \<times> json) list \<Rightarrow> jerr + json"

text \<open>\<open>d.get(k)\<close> on a parsed object; a missing key reads as \<open>None\<close>.\<close>

definition jget :: "jobj \<Rightarrow> str \<Rightarrow> json" where
  "jget d k = (case map_of d k of None \<Rightarrow> JNull | Some v \<Rightarrow> v)"

text \<open>\<open>isinstance(v, int)\<close>: Python's \<open>bool\<close> is an \<open>int\<close>.\<close>

definition is_int :: "json \<Rightarrow> bool" where
  "is_int v = (case v of JInt _ \<Rightarrow> True | JBool _ \<Rightarrow> True | _ \<Rightarrow> False)"

text \<open>The number an \<open>int\<close> value compares as.\<close>

definition int_of_json :: "json \<Rightarrow> int" where
  "int_of_json v = (case v of JInt n \<Rightarrow> n | JBool b \<Rightarrow> of_bool b | _ \<Rightarrow> 0)"

section \<open>Scanning\<close>

definition is_json_ws :: "int \<Rightarrow> bool" where
  "is_json_ws c \<longleftrightarrow> c = 32 \<or> c = 9 \<or> c = 10 \<or> c = 13"

abbreviation skip_ws :: "str \<Rightarrow> str" where
  "skip_ws \<equiv> dropWhile is_json_ws"

definition hex_digit :: "int \<Rightarrow> int option" where
  "hex_digit c = (if 48 \<le> c \<and> c \<le> 57 then Some (c - 48)
     else if 97 \<le> c \<and> c \<le> 102 then Some (c - 87)
     else if 65 \<le> c \<and> c \<le> 70 then Some (c - 55) else None)"

text \<open>The four hexadecimal digits of a \<open>\\u\<close> escape and what follows them.\<close>

definition hex4 :: "str \<Rightarrow> (int \<times> str) option" where
  "hex4 s = (if 4 \<le> length s \<and> list_all (\<lambda>c. hex_digit c \<noteq> None) (take 4 s)
     then Some (foldl (\<lambda>n c. n * 16 + the (hex_digit c)) 0 (take 4 s), drop 4 s) else None)"

definition is_high :: "int \<Rightarrow> bool" where
  "is_high c \<longleftrightarrow> 55296 \<le> c \<and> c \<le> 56319"

definition is_low :: "int \<Rightarrow> bool" where
  "is_low c \<longleftrightarrow> 56320 \<le> c \<and> c \<le> 57343"

definition join_surrogates :: "int \<Rightarrow> int \<Rightarrow> int" where
  "join_surrogates h l = 65536 + (h - 55296) * 1024 + (l - 56320)"

text \<open>The low half that may follow a high surrogate, when it is an escape.\<close>

definition low_escape :: "str \<Rightarrow> (int \<times> str) option" where
  "low_escape s = (if startswith s [92, 117]
     then (case hex4 (drop 2 s) of
             Some (l, r) \<Rightarrow> if is_low l then Some (l, r) else None
           | None \<Rightarrow> None)
     else None)"

definition unescape :: "int \<Rightarrow> int option" where
  "unescape c = (if c = 34 \<or> c = 92 \<or> c = 47 then Some c
     else if c = 98 then Some 8 else if c = 102 then Some 12 else if c = 110 then Some 10
     else if c = 114 then Some 13 else if c = 116 then Some 9 else None)"

definition emit :: "int \<Rightarrow> jerr + (str \<times> str) \<Rightarrow> jerr + (str \<times> str)" where
  "emit c m = rbind m (\<lambda>(t, r). Inr (c # t, r))"

lemma hex4_length: "hex4 s = Some (c, r) \<Longrightarrow> length s = length r + 4"
  by (auto simp: hex4_def split: if_splits)

lemma low_escape_length: "low_escape s = Some (c, r) \<Longrightarrow> length r < length s"
  by (auto simp: low_escape_def split: if_splits option.splits dest!: hex4_length startswith_length)

text \<open>A string literal, from after its opening quote to after its closing one.\<close>

function scan_string :: "str \<Rightarrow> jerr + (str \<times> str)" where
  "scan_string s =
     (case s of
        [] \<Rightarrow> Inl JDecode
      | c # r \<Rightarrow>
          if c = 34 then Inr ([], r)
          else if c \<le> 31 then Inl JDecode
          else if c \<noteq> 92 then emit c (scan_string r)
          else
            (case r of
               [] \<Rightarrow> Inl JDecode
             | e # r1 \<Rightarrow>
                 if e \<noteq> 117
                 then (case unescape e of None \<Rightarrow> Inl JDecode | Some x \<Rightarrow> emit x (scan_string r1))
                 else
                   (case hex4 r1 of
                      None \<Rightarrow> Inl JDecode
                    | Some (h, r2) \<Rightarrow>
                        (case (if is_high h then low_escape r2 else None) of
                           Some (l, r3) \<Rightarrow> emit (join_surrogates h l) (scan_string r3)
                         | None \<Rightarrow> emit h (scan_string r2)))))"
  by pat_completeness auto
termination
  by (relation "measure length")
    (auto split: if_splits dest!: hex4_length low_escape_length)

declare scan_string.simps [simp del]

text \<open>A number: the longest prefix that is one.\<close>

definition int_part :: "str \<Rightarrow> (str \<times> str) option" where
  "int_part s = (case s of
       [] \<Rightarrow> None
     | c # r \<Rightarrow> if c = 48 then Some ([48], r)
                else if is_ascii_digit c then Some (takeWhile is_ascii_digit s, dropWhile is_ascii_digit s)
                else None)"

definition frac_part :: "str \<Rightarrow> str \<times> str" where
  "frac_part s = (case s of
       c # d # r \<Rightarrow> if c = 46 \<and> is_ascii_digit d
                     then (c # takeWhile is_ascii_digit (d # r), dropWhile is_ascii_digit (d # r)) else ([], s)
     | _ \<Rightarrow> ([], s))"

definition exp_part :: "str \<Rightarrow> str \<times> str" where
  "exp_part s = (case s of
       [] \<Rightarrow> ([], s)
     | c # r \<Rightarrow>
         if c = 101 \<or> c = 69
         then let sg = (if startswith r [43] \<or> startswith r [45] then take 1 r else []);
                  ds = takeWhile is_ascii_digit (drop (length sg) r)
              in if ds = [] then ([], s) else (c # sg @ ds, drop (length sg + length ds) r)
         else ([], s))"

definition scan_number :: "str \<Rightarrow> jerr + (json \<times> str)" where
  "scan_number s =
     (let neg = startswith s [45]; s1 = (if neg then tl s else s)
      in case int_part s1 of
           None \<Rightarrow> Inl JDecode
         | Some (ds, s2) \<Rightarrow>
             let (fr, s3) = frac_part s2; (ex, s4) = exp_part s3
             in if fr \<noteq> [] \<or> ex \<noteq> []
                then Inr (JFloat ((if neg then [45] else []) @ ds @ fr @ ex), s4)
                else if 4300 < length ds then Inl JDigits
                else Inr (JInt (if neg then - digits_value ds else digits_value ds), s4))"

fun scan_value :: "nat \<Rightarrow> json_hooks \<Rightarrow> str \<Rightarrow> jerr + (json \<times> str)"
and scan_members :: "nat \<Rightarrow> json_hooks \<Rightarrow> (str \<times> json) list \<Rightarrow> str \<Rightarrow> jerr + (json \<times> str)"
and scan_elements :: "nat \<Rightarrow> json_hooks \<Rightarrow> json list \<Rightarrow> str \<Rightarrow> jerr + (json \<times> str)"
where
  "scan_value 0 H s = Inl JFuel"
| "scan_value (Suc n) H s =
     (if s = [] then Inl JDecode
      else if hd s = 34 then rbind (scan_string (tl s)) (\<lambda>(t, r). Inr (JStr t, r))
      else if hd s = 123 then
        (let r = skip_ws (tl s)
         in if startswith r [125] then rbind (pairs_hook H []) (\<lambda>v. Inr (v, tl r))
            else scan_members n H [] r)
      else if hd s = 91 then
        (let r = skip_ws (tl s)
         in if startswith r [93] then Inr (JArr [], tl r) else scan_elements n H [] r)
      else if startswith s (lit ''null'') then Inr (JNull, drop 4 s)
      else if startswith s (lit ''true'') then Inr (JBool True, drop 4 s)
      else if startswith s (lit ''false'') then Inr (JBool False, drop 5 s)
      else if startswith s (lit ''NaN'') then
        rbind (constant_hook H (lit ''NaN'')) (\<lambda>v. Inr (v, drop 3 s))
      else if startswith s (lit ''Infinity'') then
        rbind (constant_hook H (lit ''Infinity'')) (\<lambda>v. Inr (v, drop 8 s))
      else if startswith s (lit ''-Infinity'') then
        rbind (constant_hook H (lit ''-Infinity'')) (\<lambda>v. Inr (v, drop 9 s))
      else scan_number s)"
| "scan_members 0 H acc s = Inl JFuel"
| "scan_members (Suc n) H acc s =
     (if \<not> startswith s [34] then Inl JDecode
      else rbind (scan_string (tl s)) (\<lambda>(k, r0).
        let r1 = skip_ws r0
        in if \<not> startswith r1 [58] then Inl JDecode
           else rbind (scan_value n H (skip_ws (tl r1))) (\<lambda>(v, r2).
             let r3 = skip_ws r2; items = acc @ [(k, v)]
             in if startswith r3 [125] then rbind (pairs_hook H items) (\<lambda>ob. Inr (ob, tl r3))
                else if startswith r3 [44] then scan_members n H items (skip_ws (tl r3))
                else Inl JDecode)))"
| "scan_elements 0 H acc s = Inl JFuel"
| "scan_elements (Suc n) H acc s =
     rbind (scan_value n H s) (\<lambda>(v, r0).
       let r1 = skip_ws r0
       in if startswith r1 [93] then Inr (JArr (acc @ [v]), tl r1)
          else if startswith r1 [44] then scan_elements n H (acc @ [v]) (skip_ws (tl r1))
          else Inl JDecode)"

declare scan_value.simps(2) [simp del] scan_members.simps(2) [simp del] scan_elements.simps(2) [simp del]

text \<open>\<open>json.loads(s, ...)\<close>\<close>

definition loads_with :: "json_hooks \<Rightarrow> str \<Rightarrow> jerr + json" where
  "loads_with H s =
     (if startswith s [65279] then Inl JDecode
      else let t = skip_ws s
           in rbind (scan_value (2 * length t + 1) H t) (\<lambda>(v, r).
                if skip_ws r = [] then Inr v else Inl JDecode))"

text \<open>\<open>json.loads(s)\<close> with no hook: the last of two equal keys wins, \<open>NaN\<close> is a float.\<close>

definition plain_hooks :: json_hooks where
  "plain_hooks = \<lparr> constant_hook = (\<lambda>t. Inr (JFloat t)), pairs_hook = (\<lambda>ps. Inr (JObj (dict_of ps))) \<rparr>"

definition json_loads :: "str \<Rightarrow> jerr + json" where
  "json_loads s = loads_with plain_hooks s"

section \<open>The fuel is enough\<close>

lemma dropWhile_length: "length (dropWhile P s) \<le> length s"
  by (simp add: length_dropWhile_le)

lemma emit_Inr: "emit c m = Inr (t, r) \<longleftrightarrow> (\<exists>t'. t = c # t' \<and> m = Inr (t', r))"
  by (cases m) (auto simp: emit_def)

lemma emit_Inl: "emit c m = Inl e \<longleftrightarrow> m = Inl e"
  by (cases m) (auto simp: emit_def split: prod.splits)

text \<open>One character of a string literal at a time.\<close>

lemma scan_string_step_Inr:
  "scan_string s = Inr (t, r) \<Longrightarrow>
     length r < length s \<or> (\<exists>s' t'. length s' < length s \<and> scan_string s' = Inr (t', r))"
  apply (subst (asm) scan_string.simps)
  apply (auto simp: emit_Inr split: list.splits if_splits option.splits prod.splits)
      apply (fastforce dest: hex4_length low_escape_length)+
  done

lemma scan_string_step_Inl:
  "scan_string s = Inl e \<Longrightarrow>
     e = JDecode \<or> (\<exists>s'. length s' < length s \<and> scan_string s' = Inl e)"
  apply (subst (asm) scan_string.simps)
  apply (auto simp: emit_Inl split: list.splits if_splits option.splits prod.splits)
      apply (fastforce dest: hex4_length low_escape_length)+
  done

lemma scan_string_length: "scan_string s = Inr (t, r) \<Longrightarrow> length r < length s"
proof (induction s arbitrary: t rule: length_induct)
  case (1 s)
  then show ?case
    using scan_string_step_Inr [OF "1.prems"] by (meson order.strict_trans)
qed

lemma scan_string_Inl: "scan_string s = Inl e \<Longrightarrow> e = JDecode"
proof (induction s rule: length_induct)
  case (1 s)
  then show ?case
    using scan_string_step_Inl by blast
qed

lemma frac_part_length: "frac_part s = (t, r) \<Longrightarrow> length r \<le> length s"
  by (auto simp: frac_part_def le_SucI length_dropWhile_le split: list.splits if_splits)

lemma exp_part_length: "exp_part s = (t, r) \<Longrightarrow> length r \<le> length s"
  by (auto simp: exp_part_def Let_def split: list.splits if_splits)

lemma int_part_length: "int_part s = Some (t, r) \<Longrightarrow> length r < length s"
proof -
  have "length (dropWhile is_ascii_digit xs) < Suc (length xs)" for xs
    by (simp add: le_imp_less_Suc length_dropWhile_le)
  then show "int_part s = Some (t, r) \<Longrightarrow> length r < length s"
    by (auto simp: int_part_def split: list.splits if_splits)
qed

lemma scan_number_length: "scan_number s = Inr (v, r) \<Longrightarrow> length r < length s"
  by (force simp: scan_number_def Let_def split: option.splits prod.splits if_splits
      dest!: int_part_length frac_part_length exp_part_length)

lemma scan_number_Inl: "scan_number s = Inl e \<Longrightarrow> e = JDecode \<or> e = JDigits"
  by (auto simp: scan_number_def Let_def split: option.splits prod.splits if_splits)

lemma skip_ws_length: "length (skip_ws s) \<le> length s"
  by (simp add: length_dropWhile_le)

lemma startswith_tl: "startswith s [c] \<Longrightarrow> Suc (length (tl s)) = length s"
  by (cases s) auto

lemma scan_lengths:
  "scan_value n H s = Inr (v, r) \<Longrightarrow> length r < length s"
  "scan_members n H acc s = Inr (v, r) \<Longrightarrow> length r < length s"
  "scan_elements n H vs s = Inr (v, r) \<Longrightarrow> length r < length s"
proof (induction n arbitrary: s v r acc vs)
  case 0
  {
    case 1 then show ?case by simp
  next
    case 2 then show ?case by simp
  next
    case 3 then show ?case by simp
  }
next
  case (Suc n)
  {
    case 1
    show ?case
    proof (cases "s \<noteq> [] \<and> (hd s = 123 \<or> hd s = 91)")
      case True
      then obtain c s' where s: "s = c # s'" by (cases s) auto
      have "length r < length s \<or> r = tl (skip_ws s')"
        using 1 True skip_ws_length [of s'] Suc.IH(2) [of "[]" "skip_ws s'" v r]
          Suc.IH(3) [of "[]" "skip_ws s'" v r]
        by (auto simp: s scan_value.simps(2) Let_def rbind_Inr split: if_splits)
      then show ?thesis
        using skip_ws_length [of s'] by (auto simp: s)
    next
      case False
      have t: "s \<noteq> [] \<Longrightarrow> length (tl s) < length s" by (cases s) auto
      from False show ?thesis
        using 1 t scan_number_length [of s v r]
        by (fastforce simp: scan_value.simps(2) rbind_Inr split: if_splits dest: scan_string_length)
    qed
  next
    case 2
    then obtain k r0 w r2 where *: "startswith s [34]" "scan_string (tl s) = Inr (k, r0)"
      "startswith (skip_ws r0) [58]" "scan_value n H (skip_ws (tl (skip_ws r0))) = Inr (w, r2)"
      and rest: "(if startswith (skip_ws r2) [125] then rbind (pairs_hook H (acc @ [(k, w)])) (\<lambda>ob. Inr (ob, tl (skip_ws r2)))
                  else if startswith (skip_ws r2) [44] then scan_members n H (acc @ [(k, w)]) (skip_ws (tl (skip_ws r2)))
                  else Inl JDecode) = Inr (v, r)"
      by (auto simp: scan_members.simps(2) Let_def rbind_Inr split: if_splits)
    have "length r2 < length s"
      using *(1) scan_string_length [OF *(2)] Suc.IH(1) [OF *(4)] startswith_tl [OF *(1)]
        skip_ws_length [of r0] skip_ws_length [of "tl (skip_ws r0)"] startswith_tl [OF *(3)] by linarith
    then show ?case
      using rest skip_ws_length [of r2] skip_ws_length [of "tl (skip_ws r2)"]
        startswith_tl [of "skip_ws r2" 125] startswith_tl [of "skip_ws r2" 44]
        Suc.IH(2) [of "acc @ [(k, w)]" "skip_ws (tl (skip_ws r2))" v r]
      by (auto simp: rbind_Inr split: if_splits)
  next
    case 3
    then obtain w r2 where *: "scan_value n H s = Inr (w, r2)"
      and rest: "(if startswith (skip_ws r2) [93] then Inr (JArr (vs @ [w]), tl (skip_ws r2))
                  else if startswith (skip_ws r2) [44] then scan_elements n H (vs @ [w]) (skip_ws (tl (skip_ws r2)))
                  else Inl JDecode) = Inr (v, r)"
      by (auto simp: scan_elements.simps(2) Let_def rbind_Inr split: if_splits)
    then show ?case
      using rest skip_ws_length [of r2] skip_ws_length [of "tl (skip_ws r2)"] Suc.IH(1) [OF *]
        startswith_tl [of "skip_ws r2" 93] startswith_tl [of "skip_ws r2" 44]
        Suc.IH(3) [of "vs @ [w]" "skip_ws (tl (skip_ws r2))" v r]
      by (auto split: if_splits)
  }
qed

text \<open>Hooks that raise only their own errors never make a scan with enough fuel run out.\<close>

definition hooks_ok :: "json_hooks \<Rightarrow> bool" where
  "hooks_ok H \<longleftrightarrow> (\<forall>t. constant_hook H t \<noteq> Inl JFuel) \<and> (\<forall>ps. pairs_hook H ps \<noteq> Inl JFuel)"

lemma scan_fuel:
  assumes H: "hooks_ok H"
  shows "2 * length s + 1 \<le> n \<Longrightarrow> scan_value n H s \<noteq> Inl JFuel"
    and "2 * length s + 2 \<le> n \<Longrightarrow> scan_members n H acc s \<noteq> Inl JFuel"
    and "2 * length s + 2 \<le> n \<Longrightarrow> scan_elements n H vs s \<noteq> Inl JFuel"
proof (induction n arbitrary: s acc vs)
  case 0
  {
    case 1 then show ?case by simp
  next
    case 2 then show ?case by simp
  next
    case 3 then show ?case by simp
  }
next
  case (Suc n)
  {
    case 1
    show ?case
    proof (cases "s \<noteq> [] \<and> (hd s = 123 \<or> hd s = 91)")
      case True
      then obtain c s' where s: "s = c # s'" by (cases s) auto
      have n: "2 * length (skip_ws s') + 2 \<le> n"
        using 1 skip_ws_length [of s'] by (simp add: s)
      show ?thesis
        using True Suc.IH(2) [OF n, of "[]"] Suc.IH(3) [OF n, of "[]"] H
        by (auto simp: s scan_value.simps(2) Let_def rbind_Inl hooks_ok_def)
    next
      case False
      then show ?thesis
        using H by (auto simp: scan_value.simps(2) rbind_Inl hooks_ok_def split: if_splits
            dest: scan_string_Inl scan_number_Inl)
    qed
  next
    case 2
    show ?case
    proof
      assume *: "scan_members (Suc n) H acc s = Inl JFuel"
      then obtain k r0 where k: "startswith s [34]" "scan_string (tl s) = Inr (k, r0)"
        "startswith (skip_ws r0) [58]"
        and rest: "rbind (scan_value n H (skip_ws (tl (skip_ws r0)))) (\<lambda>(v, r2).
             let r3 = skip_ws r2; items = acc @ [(k, v)]
             in if startswith r3 [125] then rbind (pairs_hook H items) (\<lambda>ob. Inr (ob, tl r3))
                else if startswith r3 [44] then scan_members n H items (skip_ws (tl r3))
                else Inl JDecode) = Inl JFuel"
        by (auto simp: scan_members.simps(2) Let_def rbind_Inl split: if_splits dest: scan_string_Inl)
      have short: "length (skip_ws (tl (skip_ws r0))) + 1 < length s"
        using scan_string_length [OF k(2)] startswith_tl [OF k(1)]
          skip_ws_length [of r0] skip_ws_length [of "tl (skip_ws r0)"] startswith_tl [OF k(3)] by linarith
      then have "scan_value n H (skip_ws (tl (skip_ws r0))) \<noteq> Inl JFuel"
        using Suc.IH(1) 2 by simp
      with rest obtain w r2 where w: "scan_value n H (skip_ws (tl (skip_ws r0))) = Inr (w, r2)"
        and last: "startswith (skip_ws r2) [44]"
        "scan_members n H (acc @ [(k, w)]) (skip_ws (tl (skip_ws r2))) = Inl JFuel"
        using H by (auto simp: Let_def rbind_Inl hooks_ok_def split: if_splits)
      have "length (skip_ws (tl (skip_ws r2))) < length s"
        using scan_lengths(1) [OF w] short skip_ws_length [of r2] skip_ws_length [of "tl (skip_ws r2)"]
          startswith_tl [OF last(1)] by linarith
      then show False
        using Suc.IH(2) last(2) 2 by simp
    qed
  next
    case 3
    show ?case
    proof
      assume "scan_elements (Suc n) H vs s = Inl JFuel"
      then have rest: "rbind (scan_value n H s) (\<lambda>(v, r0).
       let r1 = skip_ws r0
       in if startswith r1 [93] then Inr (JArr (vs @ [v]), tl r1)
          else if startswith r1 [44] then scan_elements n H (vs @ [v]) (skip_ws (tl r1))
          else Inl JDecode) = Inl JFuel"
        by (simp add: scan_elements.simps(2))
      have "scan_value n H s \<noteq> Inl JFuel"
        using Suc.IH(1) 3 by simp
      with rest obtain w r2 where w: "scan_value n H s = Inr (w, r2)"
        and last: "startswith (skip_ws r2) [44]"
        "scan_elements n H (vs @ [w]) (skip_ws (tl (skip_ws r2))) = Inl JFuel"
        by (auto simp: Let_def rbind_Inl split: if_splits)
      have "length (skip_ws (tl (skip_ws r2))) < length s"
        using scan_lengths(1) [OF w] skip_ws_length [of r2] skip_ws_length [of "tl (skip_ws r2)"]
          startswith_tl [OF last(1)] by linarith
      then show False
        using Suc.IH(3) last(2) 3 by simp
    qed
  }
qed

lemma loads_fuel: "hooks_ok H \<Longrightarrow> loads_with H s \<noteq> Inl JFuel"
  using scan_fuel(1) by (fastforce simp: loads_with_def Let_def rbind_Inl split: if_splits)

section \<open>Printing\<close>

definition hex_char :: "int \<Rightarrow> int" where
  "hex_char d = (if d < 10 then 48 + d else 87 + d)"

definition u_escape :: "int \<Rightarrow> str" where
  "u_escape c = [92, 117, hex_char (c div 4096 mod 16), hex_char (c div 256 mod 16),
     hex_char (c div 16 mod 16), hex_char (c mod 16)]"

text \<open>One character as \<open>json.dumps\<close> writes it with \<open>ensure_ascii\<close>.\<close>

definition json_char :: "int \<Rightarrow> str" where
  "json_char c =
     (if c = 34 then [92, 34] else if c = 92 then [92, 92] else if c = 10 then [92, 110]
      else if c = 13 then [92, 114] else if c = 9 then [92, 116] else if c = 12 then [92, 102]
      else if c = 8 then [92, 98]
      else if 32 \<le> c \<and> c \<le> 126 then [c]
      else if c < 65536 then u_escape c
      else u_escape (55296 + (c - 65536) div 1024) @ u_escape (56320 + (c - 65536) mod 1024))"

definition json_str :: "str \<Rightarrow> str" where
  "json_str t = [34] @ concat (map json_char t) @ [34]"

text \<open>
  The compact form of \<open>separators=(",", ":")\<close>, keys in the order of the object.  The modelled
  callers print no float; a \<open>JFloat\<close> prints the text it was read from.
\<close>

fun json_text :: "json \<Rightarrow> str" where
  "json_text JNull = lit ''null''"
| "json_text (JBool b) = (if b then lit ''true'' else lit ''false'')"
| "json_text (JInt n) = int_repr n"
| "json_text (JFloat t) = t"
| "json_text (JStr t) = json_str t"
| "json_text (JArr vs) = [91] @ join_with [44] (map json_text vs) @ [93]"
| "json_text (JObj kvs) = [123] @ join_with [44] (map (\<lambda>(k, v). json_str k @ [58] @ json_text v) kvs) @ [125]"

text \<open>\<open>sort_keys=True\<close>\<close>

fun sort_keys :: "json \<Rightarrow> json" where
  "sort_keys (JArr vs) = JArr (map sort_keys vs)"
| "sort_keys (JObj kvs) = JObj (sort_key fst (map (\<lambda>(k, v). (k, sort_keys v)) kvs))"
| "sort_keys v = v"

text \<open>A string of scalar values: no lone surrogate, nothing past the last code point.\<close>

definition scalar_text :: "str \<Rightarrow> bool" where
  "scalar_text t = list_all (\<lambda>c. (0 \<le> c \<and> c < 55296) \<or> (57344 \<le> c \<and> c < 1114112)) t"

fun printable :: "json \<Rightarrow> bool" where
  "printable JNull \<longleftrightarrow> True"
| "printable (JBool b) \<longleftrightarrow> True"
| "printable (JInt n) \<longleftrightarrow> length (decimal (nat \<bar>n\<bar>)) \<le> 4300"
| "printable (JFloat t) \<longleftrightarrow> False"
| "printable (JStr t) \<longleftrightarrow> scalar_text t"
| "printable (JArr vs) \<longleftrightarrow> list_all printable vs"
| "printable (JObj kvs) \<longleftrightarrow> distinct (map fst kvs) \<and> list_all (\<lambda>(k, v). scalar_text k \<and> printable v) kvs"

section \<open>What is printed parses back\<close>

lemma scan_string_quote: "scan_string (34 # r) = Inr ([], r)"
  by (subst scan_string.simps) simp

lemma scan_string_plain: "31 < c \<Longrightarrow> c \<noteq> 34 \<Longrightarrow> c \<noteq> 92 \<Longrightarrow> scan_string (c # r) = emit c (scan_string r)"
  by (subst scan_string.simps) simp

lemma scan_string_escape:
  "e \<noteq> 117 \<Longrightarrow> unescape e = Some x \<Longrightarrow> scan_string (92 # e # r) = emit x (scan_string r)"
  by (subst scan_string.simps) simp

lemma scan_string_u:
  "hex4 s = Some (h, r) \<Longrightarrow> \<not> is_high h \<Longrightarrow> scan_string (92 # 117 # s) = emit h (scan_string r)"
  by (subst scan_string.simps) simp

lemma scan_string_pair:
  "hex4 s = Some (h, r) \<Longrightarrow> is_high h \<Longrightarrow> low_escape r = Some (l, r') \<Longrightarrow>
     scan_string (92 # 117 # s) = emit (join_surrogates h l) (scan_string r')"
  by (subst scan_string.simps) simp

lemma hex_digit_char: "0 \<le> d \<Longrightarrow> d < 16 \<Longrightarrow> hex_digit (hex_char d) = Some d"
  by (simp add: hex_digit_def hex_char_def)

lemma hex4_chars:
  "0 \<le> a \<Longrightarrow> a < 16 \<Longrightarrow> 0 \<le> b \<Longrightarrow> b < 16 \<Longrightarrow> 0 \<le> d \<Longrightarrow> d < 16 \<Longrightarrow> 0 \<le> e \<Longrightarrow> e < 16 \<Longrightarrow>
     hex4 (hex_char a # hex_char b # hex_char d # hex_char e # r) = Some (((a * 16 + b) * 16 + d) * 16 + e, r)"
  by (simp add: hex4_def hex_digit_char)

lemma hex_horner:
  "16 * p + m0 = c \<Longrightarrow> 16 * q + m1 = p \<Longrightarrow> 16 * t + m2 = q \<Longrightarrow>
     ((t * 16 + m2) * 16 + m1) * 16 + m0 = (c::int)"
  by simp

lemma u_escape_value:
  fixes c :: int
  assumes c: "0 \<le> c" "c < 65536"
  shows "((c div 4096 mod 16 * 16 + c div 256 mod 16) * 16 + c div 16 mod 16) * 16 + c mod 16 = c"
proof -
  have d: "c div 16 div 16 = c div 256" "c div 256 div 16 = c div 4096"
    by (simp_all flip: zdiv_zmult2_eq)
  have m: "c div 4096 mod 16 = c div 4096"
    using c by simp
  show ?thesis
    unfolding m
    by (rule hex_horner [of "c div 16" _ _ "c div 256"]) (simp_all flip: d)
qed

lemma hex4_u_escape:
  assumes "0 \<le> c" "c < 65536"
  shows "hex4 (drop 2 (u_escape c) @ r) = Some (c, r)"
proof -
  have "drop 2 (u_escape c) @ r = hex_char (c div 4096 mod 16) # hex_char (c div 256 mod 16)
      # hex_char (c div 16 mod 16) # hex_char (c mod 16) # r"
    by (simp add: u_escape_def)
  moreover have "0 \<le> d mod 16 \<and> d mod 16 < 16" for d :: int
    by simp
  ultimately show ?thesis
    using hex4_chars u_escape_value [OF assms] by metis
qed

lemma u_escape_split: "u_escape c = 92 # 117 # drop 2 (u_escape c)"
  by (simp add: u_escape_def)

lemma scan_json_char:
  assumes c: "(0 \<le> c \<and> c < 55296) \<or> (57344 \<le> c \<and> c < 1114112)"
  shows "scan_string (json_char c @ s) = emit c (scan_string s)"
proof (cases "c < 65536")
  case True
  then have "scan_string (u_escape c @ s) = emit c (scan_string s)"
    using c scan_string_u [OF hex4_u_escape [of c s]]
    by (subst u_escape_split) (auto simp: is_high_def)
  moreover have "scan_string (92 # e # s) = emit x (scan_string s)" if "e \<noteq> 117" "unescape e = Some x" for e x
    using that by (rule scan_string_escape)
  ultimately show ?thesis
    using True by (simp add: json_char_def scan_string_plain unescape_def)
next
  case False
  define h l where "h = 55296 + (c - 65536) div 1024" and "l = 56320 + (c - 65536) mod 1024"
  have h: "is_high h" and l: "is_low l" and j: "join_surrogates h l = c"
    using c False by (auto simp: is_high_def is_low_def join_surrogates_def h_def l_def)
  have "hex4 (drop 2 (u_escape h) @ u_escape l @ s) = Some (h, u_escape l @ s)"
    using h by (intro hex4_u_escape) (auto simp: is_high_def)
  moreover have "low_escape (u_escape l @ s) = Some (l, s)"
    using l hex4_u_escape [of l s]
    by (subst u_escape_split) (auto simp: low_escape_def is_low_def)
  ultimately have "scan_string (u_escape h @ u_escape l @ s) = emit c (scan_string s)"
    using scan_string_pair [OF _ h] j by (subst u_escape_split) simp
  with False show ?thesis
    by (simp add: json_char_def h_def l_def)
qed

lemma scan_json_str:
  "scalar_text t \<Longrightarrow> scan_string (concat (map json_char t) @ 34 # r) = Inr (t, r)"
proof (induction t)
  case Nil
  then show ?case by (simp add: scan_string_quote)
next
  case (Cons c t)
  then show ?case
    by (simp add: scalar_text_def scan_json_char emit_def)
qed

text \<open>What may follow a value in the compact form.\<close>

definition value_end :: "str \<Rightarrow> bool" where
  "value_end r \<longleftrightarrow> r = [] \<or> hd r = 44 \<or> hd r = 93 \<or> hd r = 125 \<or> is_json_ws (hd r)"

lemma takeWhile_digits:
  "list_all is_ascii_digit ds \<Longrightarrow> value_end r \<Longrightarrow>
     takeWhile is_ascii_digit (ds @ r) = ds \<and> dropWhile is_ascii_digit (ds @ r) = r"
  by (cases r) (auto simp: list_all_iff value_end_def is_json_ws_def is_ascii_digit_def takeWhile_tail dropWhile_append
      takeWhile_eq_all_conv split: if_splits)

lemma int_part_decimal: "value_end r \<Longrightarrow> int_part (decimal n @ r) = Some (decimal n, r)"
proof -
  assume r: "value_end r"
  obtain d ds where d: "decimal n = d # ds" by (meson decimal_ne list.exhaust)
  then show ?thesis
    using takeWhile_digits [OF decimal_digits r, of n] decimal_digits [of n] decimal_hd [of n]
    by (auto simp: int_part_def)
qed

lemma frac_exp_end: "value_end r \<Longrightarrow> frac_part r = ([], r) \<and> exp_part r = ([], r)"
  by (cases r) (auto simp: frac_part_def exp_part_def value_end_def is_json_ws_def split: list.splits)

lemma decimal_first: "is_ascii_digit (hd (decimal n @ r))"
  by (metis decimal_digits decimal_ne hd_append2 list.set_sel(1) list_all_iff)

lemma scan_int_repr:
  assumes n: "length (decimal (nat \<bar>n\<bar>)) \<le> 4300" and r: "value_end r"
  shows "scan_number (int_repr n @ r) = Inr (JInt n, r)"
proof -
  have h: "\<not> startswith (decimal m @ r) [45]" for m
    using decimal_first [of m r] by (cases "decimal m @ r") (auto simp: is_ascii_digit_def)
  show ?thesis
    using n int_part_decimal [OF r] frac_exp_end [OF r] h digits_value_decimal
    by (cases "n < 0") (auto simp: scan_number_def int_repr_def)
qed

lemma int_repr_first: "hd (int_repr n @ r) = 45 \<and> is_ascii_digit (hd (tl (int_repr n @ r))) \<or> is_ascii_digit (hd (int_repr n @ r))"
  using decimal_first by (simp add: int_repr_def)

lemma startswith_not_hd: "hd s \<noteq> c \<Longrightarrow> \<not> startswith s (c # p)"
  by (cases s) auto

lemma startswith_not_second: "hd (tl s) \<noteq> d \<Longrightarrow> \<not> startswith s (c # d # p)"
  by (cases s; cases "tl s") auto

lemma scan_value_int:
  assumes "length (decimal (nat \<bar>n\<bar>)) \<le> 4300" "value_end r" "0 < k"
  shows "scan_value k H (int_repr n @ r) = Inr (JInt n, r)"
proof -
  obtain j where k: "k = Suc j" using assms(3) gr0_implies_Suc by blast
  define s where "s = int_repr n @ r"
  have ne: "s \<noteq> []" by (simp add: s_def int_repr_def)
  have num: "scan_number s = Inr (JInt n, r)"
    unfolding s_def using assms(1,2) by (rule scan_int_repr)
  have "hd s \<notin> {34, 123, 91, 110, 116, 102, 78, 73}"
    using int_repr_first [of n r] by (auto simp: s_def is_ascii_digit_def)
  moreover have "\<not> startswith s (45 # 73 # p)" for p
    using int_repr_first [of n r] startswith_not_second [of s 73 45 p] startswith_not_hd [of s 45 "73 # p"]
    by (auto simp: s_def is_ascii_digit_def)
  ultimately show ?thesis
    using num ne unfolding k s_def [symmetric]
    by (subst scan_value.simps(2)) (simp add: startswith_not_hd)
qed

text \<open>Hooks that keep an object whose keys are distinct.\<close>

definition keeps_distinct :: "json_hooks \<Rightarrow> bool" where
  "keeps_distinct H \<longleftrightarrow> (\<forall>ps. distinct (map fst ps) \<longrightarrow> pairs_hook H ps = Inr (JObj ps))"

definition scans_back :: "json_hooks \<Rightarrow> json \<Rightarrow> bool" where
  "scans_back H v \<longleftrightarrow> (\<forall>n r. value_end r \<longrightarrow> 2 * length (json_text v @ r) + 1 \<le> n
     \<longrightarrow> scan_value n H (json_text v @ r) = Inr (v, r))"

lemma scans_backD:
  "scans_back H v \<Longrightarrow> value_end r \<Longrightarrow> 2 * length (json_text v @ r) + 1 \<le> n
     \<Longrightarrow> scan_value n H (json_text v @ r) = Inr (v, r)"
  by (simp add: scans_back_def)

lemma value_end_simps [simp]:
  "value_end []" "value_end (44 # r)" "value_end (93 # r)" "value_end (125 # r)"
  by (simp_all add: value_end_def)

lemma ws_simps [simp]:
  "is_json_ws 44 = False" "is_json_ws 93 = False" "is_json_ws 125 = False" "is_json_ws 34 = False"
  "is_json_ws 58 = False" "is_json_ws 123 = False" "is_json_ws 91 = False"
  by (simp_all add: is_json_ws_def)

lemma printable_first:
  "printable v \<Longrightarrow> \<exists>c t. json_text v = c # t \<and> \<not> is_json_ws c \<and> c \<noteq> 93 \<and> c \<noteq> 65279"
proof (cases v)
  case (JInt n)
  obtain c t where "int_repr n = c # t"
    by (cases "int_repr n") (auto simp: int_repr_def split: if_splits)
  then show ?thesis
    using JInt int_repr_first [of n "[]"] by (auto simp: is_json_ws_def is_ascii_digit_def)
qed (auto simp: is_json_ws_def lit_def json_str_def)

lemma skip_ws_text: "printable v \<Longrightarrow> skip_ws (json_text v @ r) = json_text v @ r"
  using printable_first [of v] by auto

lemma join_with_Cons: "join_with c (x # xs) = x @ (if xs = [] then [] else c @ join_with c xs)"
  by (cases xs) auto

lemma scan_elements_back:
  "vs \<noteq> [] \<Longrightarrow> list_all printable vs \<Longrightarrow> list_all (scans_back H) vs \<Longrightarrow>
     2 * length (join_with [44] (map json_text vs) @ 93 # r) + 2 \<le> n \<Longrightarrow>
     scan_elements n H acc (join_with [44] (map json_text vs) @ 93 # r) = Inr (JArr (acc @ vs), r)"
proof (induction vs arbitrary: n acc)
  case Nil
  then show ?case by simp
next
  case (Cons v vs)
  then obtain m where n: "n = Suc m" by (cases n) auto
  show ?case
  proof (cases "vs = []")
    case True
    then have "scan_value m H (json_text v @ 93 # r) = Inr (v, 93 # r)"
      using Cons.prems n by (intro scans_backD) auto
    with True n show ?thesis by (simp add: scan_elements.simps(2))
  next
    case False
    let ?rest = "join_with [44] (map json_text vs) @ 93 # r"
    have v: "scan_value m H (json_text v @ 44 # ?rest) = Inr (v, 44 # ?rest)"
      using Cons.prems n False by (intro scans_backD) (auto simp: join_with_Cons)
    obtain w ws where ws: "vs = w # ws" using False by (cases vs) auto
    have "skip_ws ?rest = ?rest"
      using Cons.prems(2) skip_ws_text [of w] by (simp add: ws join_with_Cons)
    moreover have "scan_elements m H (acc @ [v]) ?rest = Inr (JArr ((acc @ [v]) @ vs), r)"
      using Cons.prems n False by (intro Cons.IH) (auto simp: join_with_Cons)
    ultimately show ?thesis
      using v n False by (simp add: scan_elements.simps(2) join_with_Cons)
  qed
qed

abbreviation member_text :: "str \<times> json \<Rightarrow> str" where
  "member_text \<equiv> (\<lambda>(k, v). json_str k @ [58] @ json_text v)"

lemma scan_member_key:
  "scalar_text k \<Longrightarrow> printable v \<Longrightarrow>
     scan_members (Suc m) H acc (member_text (k, v) @ r) =
     rbind (scan_value m H (json_text v @ r)) (\<lambda>(w, r2).
             let r3 = skip_ws r2; items = acc @ [(k, w)]
             in if startswith r3 [125] then rbind (pairs_hook H items) (\<lambda>ob. Inr (ob, tl r3))
                else if startswith r3 [44] then scan_members m H items (skip_ws (tl r3))
                else Inl JDecode)"
  by (simp add: scan_members.simps(2) json_str_def scan_json_str skip_ws_text Let_def)

lemma scan_members_back:
  "kvs \<noteq> [] \<Longrightarrow> list_all (\<lambda>(k, v). scalar_text k \<and> printable v \<and> scans_back H v) kvs \<Longrightarrow>
     2 * length (join_with [44] (map member_text kvs) @ 125 # r) + 2 \<le> n \<Longrightarrow>
     scan_members n H acc (join_with [44] (map member_text kvs) @ 125 # r) =
       rbind (pairs_hook H (acc @ kvs)) (\<lambda>ob. Inr (ob, r))"
proof (induction kvs arbitrary: n acc)
  case Nil
  then show ?case by simp
next
  case (Cons p kvs)
  obtain k v where p: "p = (k, v)" by force
  from Cons obtain m where n: "n = Suc m" by (cases n) auto
  have kv: "scalar_text k" "printable v" "scans_back H v"
    using Cons.prems by (auto simp: p)
  show ?case
  proof (cases "kvs = []")
    case True
    then have "scan_value m H (json_text v @ 125 # r) = Inr (v, 125 # r)"
      using Cons.prems n kv by (intro scans_backD) (auto simp: p)
    with True n kv show ?thesis
      by (simp add: p scan_member_key [simplified])
  next
    case False
    let ?rest = "join_with [44] (map member_text kvs) @ 125 # r"
    have v: "scan_value m H (json_text v @ 44 # ?rest) = Inr (v, 44 # ?rest)"
      using Cons.prems n False kv by (intro scans_backD) (auto simp: join_with_Cons p)
    obtain k' v' ws where ws: "kvs = (k', v') # ws" using False by (cases kvs) auto
    have "skip_ws ?rest = ?rest"
      by (simp add: ws join_with_Cons json_str_def)
    moreover have "scan_members m H (acc @ [(k, v)]) ?rest
        = rbind (pairs_hook H ((acc @ [(k, v)]) @ kvs)) (\<lambda>ob. Inr (ob, r))"
      using Cons.prems n False by (intro Cons.IH) (auto simp: join_with_Cons p)
    moreover have "join_with [44] (map member_text (p # kvs)) @ 125 # r = member_text (k, v) @ 44 # ?rest"
      using False by (simp add: p join_with_Cons)
    ultimately show ?thesis
      using v kv by (simp only: n scan_member_key) (simp add: p)
  qed
qed

lemma printable_scans_back:
  assumes H: "keeps_distinct H"
  shows "printable v \<Longrightarrow> scans_back H v"
proof (induction v)
  case (JInt n)
  then show ?case by (simp add: scans_back_def scan_value_int)
next
  case (JStr t)
  have "scan_value n H (json_str t @ r) = Inr (JStr t, r)" if "0 < n" for n r
    using that JStr by (cases n) (auto simp: scan_value.simps(2) json_str_def scan_json_str)
  then show ?case by (simp add: scans_back_def)
next
  case (JArr vs)
  show ?case
    unfolding scans_back_def
  proof (intro allI impI)
    fix n r assume *: "value_end r" "2 * length (json_text (JArr vs) @ r) + 1 \<le> n"
    then obtain m where n: "n = Suc m" by (cases n) auto
    show "scan_value n H (json_text (JArr vs) @ r) = Inr (JArr vs, r)"
    proof (cases "vs = []")
      case True
      then show ?thesis by (simp add: n scan_value.simps(2))
    next
      case False
      then obtain w ws where ws: "vs = w # ws" by (cases vs) auto
      let ?b = "join_with [44] (map json_text vs) @ 93 # r"
      have b: "skip_ws ?b = ?b" "\<not> startswith ?b [93]"
        using JArr.prems skip_ws_text [of w] printable_first [of w] by (auto simp: ws join_with_Cons)
      have "scan_elements m H [] ?b = Inr (JArr ([] @ vs), r)"
        using False JArr * n by (intro scan_elements_back) (auto simp: list_all_iff)
      with b show ?thesis by (simp add: n scan_value.simps(2))
    qed
  qed
next
  case (JObj kvs)
  show ?case
    unfolding scans_back_def
  proof (intro allI impI)
    fix n r assume *: "value_end r" "2 * length (json_text (JObj kvs) @ r) + 1 \<le> n"
    then obtain m where n: "n = Suc m" by (cases n) auto
    have h: "pairs_hook H kvs = Inr (JObj kvs)"
      using H JObj.prems by (simp add: keeps_distinct_def)
    show "scan_value n H (json_text (JObj kvs) @ r) = Inr (JObj kvs, r)"
    proof (cases "kvs = []")
      case True
      then show ?thesis using h by (simp add: n scan_value.simps(2))
    next
      case False
      then obtain k' v' ws where ws: "kvs = (k', v') # ws" by (cases kvs) auto
      let ?b = "join_with [44] (map member_text kvs) @ 125 # r"
      have b: "skip_ws ?b = ?b" "\<not> startswith ?b [125]"
        by (simp_all add: ws join_with_Cons json_str_def)
      have "list_all (\<lambda>(k, v). scalar_text k \<and> printable v \<and> scans_back H v) kvs"
        using JObj by (fastforce simp: list_all_iff)
      then have "scan_members m H [] ?b = rbind (pairs_hook H ([] @ kvs)) (\<lambda>ob. Inr (ob, r))"
        using False * n by (intro scan_members_back) auto
      with b h show ?thesis by (simp add: n scan_value.simps(2))
    qed
  qed
next
  case (JBool b)
  have "scan_value n H (json_text (JBool b) @ r) = Inr (JBool b, r)" if "0 < n" for n r
    using that by (cases n; cases b) (auto simp: scan_value.simps(2) lit_def)
  then show ?case by (simp add: scans_back_def)
next
  case JNull
  have "scan_value n H (json_text JNull @ r) = Inr (JNull, r)" if "0 < n" for n r
    using that by (cases n) (auto simp: scan_value.simps(2) lit_def)
  then show ?case by (simp add: scans_back_def)
qed simp

lemma loads_json_text:
  assumes "keeps_distinct H" "printable v" "list_all is_json_ws w"
  shows "loads_with H (json_text v @ w) = Inr v"
proof -
  have w: "dropWhile is_json_ws w = []"
    using assms(3) by (simp add: list_all_iff)
  have "\<not> startswith (json_text v @ w) [65279]"
    using printable_first [OF assms(2)] by auto
  moreover have "value_end w"
    using assms(3) by (cases w) (auto simp: value_end_def)
  ultimately show ?thesis
    using printable_scans_back [OF assms(1,2)] skip_ws_text [OF assms(2)] w
    by (simp add: loads_with_def Let_def scans_back_def)
qed

text \<open>
  \<open>json.dumps(v, sort_keys=True, separators=(",", ":"))\<close>; an integer of more than 4300 digits is
  a \<open>ValueError\<close>.
\<close>

fun digits_fit :: "json \<Rightarrow> bool" where
  "digits_fit (JInt n) \<longleftrightarrow> length (decimal (nat \<bar>n\<bar>)) \<le> 4300"
| "digits_fit (JArr vs) \<longleftrightarrow> list_all digits_fit vs"
| "digits_fit (JObj kvs) \<longleftrightarrow> list_all (\<lambda>(k, v). digits_fit v) kvs"
| "digits_fit v \<longleftrightarrow> True"

definition json_dumps :: "json \<Rightarrow> jerr + str" where
  "json_dumps v = (if digits_fit v then Inr (json_text (sort_keys v)) else Inl JDigits)"

lemma printable_digits_fit: "printable v \<Longrightarrow> digits_fit v"
  by (induction v) (fastforce simp: list_all_iff)+

lemma fst_sorted_items: "map fst (map (\<lambda>(k, v). (k, f v)) kvs) = map fst kvs"
  by (induction kvs) auto

lemma mset_map_fst_sort: "mset (map fst (sort_key f xs)) = mset (map fst xs)"
  by simp

lemma printable_sort_keys: "printable v \<Longrightarrow> printable (sort_keys v)"
proof (induction v)
  case (JObj kvs)
  have "distinct (map fst (sort_key fst (map (\<lambda>(k, v). (k, sort_keys v)) kvs)))"
    using JObj.prems unfolding mset_eq_imp_distinct_iff [OF mset_map_fst_sort] fst_sorted_items by simp
  moreover have "scalar_text k \<and> printable (sort_keys v)" if "(k, v) \<in> set kvs" for k v
    using that JObj by (fastforce simp: list_all_iff)
  ultimately show ?case
    by (auto simp: list_all_iff)
qed (auto simp: list_all_iff)

lemma json_loads_dumps:
  "printable v \<Longrightarrow> rbind (json_dumps v) json_loads = Inr (sort_keys v)"
proof -
  have "keeps_distinct plain_hooks"
    by (simp add: keeps_distinct_def plain_hooks_def dict_of_distinct)
  then show "printable v \<Longrightarrow> rbind (json_dumps v) json_loads = Inr (sort_keys v)"
    using loads_json_text [of plain_hooks "sort_keys v" "[]"]
    by (simp add: json_loads_def json_dumps_def printable_digits_fit printable_sort_keys)
qed

text \<open>Printed text stays on one line.\<close>
lemma hex_char_ne: "0 \<le> d \<Longrightarrow> hex_char d \<noteq> 10"
  by (simp add: hex_char_def)

lemma json_char_no_newline: "10 \<notin> set (json_char c)"
proof -
  have "10 \<notin> set (u_escape d)" for d
    by (simp add: u_escape_def) (metis hex_char_ne pos_mod_sign zero_less_numeral)
  then show ?thesis by (simp add: json_char_def)
qed

lemma json_str_no_newline: "10 \<notin> set (json_str t)"
  using json_char_no_newline by (auto simp: json_str_def)

lemma decimal_no_newline: "10 \<notin> set (decimal n)"
  using decimal_digits [of n] by (auto simp: list_all_iff is_ascii_digit_def)

lemma join_no_newline: "\<forall>x\<in>set xs. 10 \<notin> set x \<Longrightarrow> 10 \<notin> set (join_with [44] xs)"
  by (induction xs) (auto simp: join_with_Cons)

lemma json_text_no_newline: "printable v \<Longrightarrow> 10 \<notin> set (json_text v)"
proof (induction v)
  case (JArr vs)
  have "10 \<notin> set (join_with [44] (map json_text vs))"
    using JArr by (intro join_no_newline) (auto simp: list_all_iff)
  then show ?case by simp
next
  case (JObj kvs)
  have "10 \<notin> set (member_text p)" if p: "p \<in> set kvs" for p
  proof -
    obtain k v where kv: "p = (k, v)" by force
    with p JObj.prems have "printable v" by (auto simp: list_all_iff)
    with p kv have "10 \<notin> set (json_text v)" using JObj.IH [of p v] by simp
    with kv show ?thesis by (simp add: json_str_no_newline)
  qed
  then have "10 \<notin> set (join_with [44] (map member_text kvs))"
    by (intro join_no_newline) auto
  then show ?case by simp
qed (auto simp: json_str_no_newline int_repr_def decimal_no_newline lit_def)

text \<open>The digit limit.\<close>

lemma scan_value_digit_limit:
  assumes "4300 < n" "0 < k" "value_end r"
  shows "scan_value k H (replicate n 49 @ r) = Inl JDigits"
proof -
  obtain j m where km: "k = Suc j" "n = Suc m" using assms by (meson gr0_implies_Suc less_trans zero_less_numeral)
  have d: "list_all is_ascii_digit (replicate n 49)"
    by (simp add: list_all_iff is_ascii_digit_def)
  have tw: "takeWhile is_ascii_digit (49 # replicate m 49 @ r) = replicate n 49"
    "dropWhile is_ascii_digit (49 # replicate m 49 @ r) = r"
    using takeWhile_digits [OF d assms(3)] by (simp_all add: km)
  have "int_part (replicate n 49 @ r) = Some (replicate n 49, r)"
    using tw by (simp add: int_part_def km is_ascii_digit_def)
  moreover have "replicate n 49 @ r = 49 # replicate m 49 @ r" by (simp add: km)
  ultimately show ?thesis
    using assms frac_exp_end [OF assms(3)]
    by (simp add: km scan_value.simps(2) scan_number_def)
qed

end
