(* ===== verification/Streams.thy ===== *)
theory Streams
  imports Json
begin

text \<open>
  The two strict consumers of newline-delimited JSON: the run stream of \<open>--json\<close>
  (scripts/formats/json_stream.py) and the listing of \<open>collect --format json\<close>
  (scripts/formats/collect_stream.py).  Their shared contract is the locale \<open>strict_consumer\<close>,
  interpreted on both: how committed lines become records, what a torn tail is, and that a stream
  cut anywhere after its first line is still accepted, with a prefix of the records.
\<close>

section \<open>The run stream\<close>

datatype stream_fault =
    EmptyStream
  | BlankLine nat
  | NotJson
  | NonFinite str
  | DuplicateKey str
  | NotAnObject nat
  | NoHeaderLine
  | NotTheHeader json
  | VersionNotInteger json
  | UnknownVersion int
  | ManyTerminals nat

text \<open>
  What a consumer may raise: its own \<open>StreamError\<close>, or the \<open>ValueError\<close> of an integer past
  Python's digit limit.  \<open>StreamStuck\<close> would be a scan out of fuel; it never happens.
\<close>

datatype stream_exn = StreamError stream_fault | StreamDigitLimit | StreamStuck

definition STREAM_VERSION :: int where
  "STREAM_VERSION = 1"

definition reject_non_finite :: "str \<Rightarrow> jerr + json" where
  "reject_non_finite token = Inl (JNonFinite token)"

fun reject_duplicates :: "jobj \<Rightarrow> (str \<times> json) list \<Rightarrow> jerr + json" where
  "reject_duplicates result [] = Inr (JObj result)"
| "reject_duplicates result ((key, value) # pairs) =
     (if map_of result key \<noteq> None then Inl (JDuplicateKey key)
      else reject_duplicates (dict_set key value result) pairs)"

definition reject_duplicate_keys :: "(str \<times> json) list \<Rightarrow> jerr + json" where
  "reject_duplicate_keys pairs = reject_duplicates [] pairs"

definition strict_hooks :: json_hooks where
  "strict_hooks = \<lparr> constant_hook = reject_non_finite, pairs_hook = reject_duplicate_keys \<rparr>"

fun stream_exn_of :: "jerr \<Rightarrow> stream_exn" where
  "stream_exn_of JDecode = StreamError NotJson"
| "stream_exn_of (JNonFinite token) = StreamError (NonFinite token)"
| "stream_exn_of (JDuplicateKey key) = StreamError (DuplicateKey key)"
| "stream_exn_of JDigits = StreamDigitLimit"
| "stream_exn_of JFuel = StreamStuck"

definition strict_loads :: "str \<Rightarrow> stream_exn + json" where
  "strict_loads line =
     (case loads_with strict_hooks line of Inl e \<Rightarrow> Inl (stream_exn_of e) | Inr v \<Rightarrow> Inr v)"

record stream_report =
  sr_records :: "jobj list"
  sr_version :: "json option"
  sr_terminal :: "jobj option"
  sr_torn_tail :: bool

definition StreamReport :: stream_report where
  "StreamReport = \<lparr> sr_records = [], sr_version = None, sr_terminal = None, sr_torn_tail = False \<rparr>"

text \<open>\<open>StreamReport.exit_code\<close>: any Python integer, a boolean included.\<close>

definition stream_exit_code :: "stream_report \<Rightarrow> json option" where
  "stream_exit_code report =
     (case sr_terminal report of
        None \<Rightarrow> None
      | Some terminal \<Rightarrow>
          let code = jget terminal (lit ''exit_code'')
          in if is_int code then Some code else None)"

text \<open>The loop over the committed lines; \<open>index\<close> is the position of the next one.\<close>

fun read_committed :: "nat \<Rightarrow> str list \<Rightarrow> stream_exn + jobj list" where
  "read_committed index [] = Inr []"
| "read_committed index (segment # segments) =
     (if segment = [] then Inl (StreamError (BlankLine index))
      else rbind (strict_loads segment) (\<lambda>v.
        case v of
          JObj ob \<Rightarrow> rbind (read_committed (Suc index) segments) (\<lambda>rest. Inr (ob # rest))
        | _ \<Rightarrow> Inl (StreamError (NotAnObject index))))"

abbreviation event_of :: "jobj \<Rightarrow> json" where
  "event_of ob \<equiv> jget ob (lit ''event'')"

definition check_header :: "bool \<Rightarrow> jobj list \<Rightarrow> stream_exn + json option" where
  "check_header require_header records =
     (if \<not> require_header then Inr None
      else case records of
        [] \<Rightarrow> Inl (StreamError NoHeaderLine)
      | header # _ \<Rightarrow>
          let version = jget header (lit ''version'')
          in if event_of header \<noteq> JStr (lit ''stream'')
             then Inl (StreamError (NotTheHeader (event_of header)))
             else if \<not> is_int version then Inl (StreamError (VersionNotInteger version))
             else if int_of_json version \<noteq> STREAM_VERSION
             then Inl (StreamError (UnknownVersion (int_of_json version)))
             else Inr (Some version))"

definition finishes :: "jobj list \<Rightarrow> jobj list" where
  "finishes records = filter (\<lambda>r. event_of r = JStr (lit ''session_finished'')) records"

definition check_terminal :: "jobj list \<Rightarrow> stream_exn + jobj option" where
  "check_terminal records =
     (if 1 < length (finishes records) then Inl (StreamError (ManyTerminals (length (finishes records))))
      else Inr (case finishes records of [] \<Rightarrow> None | t # _ \<Rightarrow> Some t))"

definition accept_stream :: "bool \<Rightarrow> jobj list \<Rightarrow> stream_exn + json option \<times> jobj option" where
  "accept_stream require_header records =
     rbind (check_header require_header records) (\<lambda>version.
     rbind (check_terminal records) (\<lambda>terminal. Inr (version, terminal)))"

definition parse_stream :: "bool \<Rightarrow> str \<Rightarrow> stream_exn + stream_report" where
  "parse_stream require_header text =
     (if text = [] then (if require_header then Inl (StreamError EmptyStream) else Inr StreamReport)
      else
        let segments = split_on 10 text; committed = butlast segments; tail = last segments
        in rbind (read_committed 0 committed) (\<lambda>records.
           rbind (accept_stream require_header records) (\<lambda>(version, terminal).
             Inr \<lparr> sr_records = records, sr_version = version, sr_terminal = terminal,
                   sr_torn_tail = (tail \<noteq> []) \<rparr>)))"

section \<open>The collect stream\<close>

datatype collect_fault =
    CEmptyStream
  | CBlankLine nat
  | CNotJson
  | CNonFinite str
  | CDuplicateKey str
  | CNotAnObject nat
  | CMissingField nat str
  | CNotAString nat str
  | CNotAnInteger nat str
  | CNotDecomposed nat
  | CSeparatorInName nat
  | CManyHeaders nat
  | CHeaderNotFirst nat
  | CUnknownVersion int
  | CNoHeaderLine
  | CNotTheHeader json
  | CManyTerminals nat
  | CTerminalNotLast nat
  | CCountMismatch

datatype collect_exn = CollectStreamError collect_fault | CollectDigitLimit | CollectStuck

definition COLLECT_STREAM_VERSION :: int where
  "COLLECT_STREAM_VERSION = 1"

fun collect_exn_of :: "jerr \<Rightarrow> collect_exn" where
  "collect_exn_of JDecode = CollectStreamError CNotJson"
| "collect_exn_of (JNonFinite token) = CollectStreamError (CNonFinite token)"
| "collect_exn_of (JDuplicateKey key) = CollectStreamError (CDuplicateKey key)"
| "collect_exn_of JDigits = CollectDigitLimit"
| "collect_exn_of JFuel = CollectStuck"

text \<open>The two hooks of this module are the run stream's, with its own error class.\<close>

definition collect_loads :: "str \<Rightarrow> collect_exn + json" where
  "collect_loads line =
     (case loads_with strict_hooks line of Inl e \<Rightarrow> Inl (collect_exn_of e) | Inr v \<Rightarrow> Inr v)"

record collect_report =
  cr_records :: "jobj list"
  cr_version :: "int option"
  cr_terminal :: "jobj option"
  cr_torn_tail :: bool

definition CollectStreamReport :: collect_report where
  "CollectStreamReport =
     \<lparr> cr_records = [], cr_version = None, cr_terminal = None, cr_torn_tail = False \<rparr>"

definition node_ids :: "jobj list \<Rightarrow> str list" where
  "node_ids records =
     concat (map (\<lambda>r. if event_of r \<noteq> JStr (lit ''node'') then []
                      else case jget r (lit ''node_id'') of JStr node_id \<Rightarrow> [node_id] | _ \<Rightarrow> []) records)"

definition plain_int :: "json \<Rightarrow> int option" where
  "plain_int v = (case v of JInt n \<Rightarrow> Some n | _ \<Rightarrow> None)"

definition collect_exit_code :: "jobj option \<Rightarrow> int option" where
  "collect_exit_code terminal =
     (case terminal of None \<Rightarrow> None | Some t \<Rightarrow> plain_int (jget t (lit ''exit_code'')))"

definition collect_nodes :: "jobj option \<Rightarrow> int option" where
  "collect_nodes terminal =
     (case terminal of None \<Rightarrow> None | Some t \<Rightarrow> plain_int (jget t (lit ''nodes'')))"

definition require_string :: "jobj \<Rightarrow> str \<Rightarrow> nat \<Rightarrow> collect_exn + str" where
  "require_string record key where =
     (case map_of record key of
        None \<Rightarrow> Inl (CollectStreamError (CMissingField where key))
      | Some (JStr value) \<Rightarrow> Inr value
      | Some _ \<Rightarrow> Inl (CollectStreamError (CNotAString where key)))"

definition require_int :: "jobj \<Rightarrow> str \<Rightarrow> nat \<Rightarrow> collect_exn + int" where
  "require_int record key where =
     (case map_of record key of
        None \<Rightarrow> Inl (CollectStreamError (CMissingField where key))
      | Some (JInt value) \<Rightarrow> Inr value
      | Some _ \<Rightarrow> Inl (CollectStreamError (CNotAnInteger where key)))"

definition check_known_record :: "nat \<Rightarrow> jobj \<Rightarrow> collect_exn + unit" where
  "check_known_record index record =
     (let kind = event_of record
      in if kind = JStr (lit ''collect'') then
           rbind (require_int record (lit ''version'') index) (\<lambda>_.
           rbind (require_string record (lit ''generator'') index) (\<lambda>_. Inr ()))
         else if kind = JStr (lit ''node'') then
           rbind (require_string record (lit ''node_id'') index) (\<lambda>node_id.
           rbind (require_string record (lit ''path'') index) (\<lambda>path.
           rbind (require_string record (lit ''name'') index) (\<lambda>name.
             if node_id \<noteq> path @ lit ''::'' @ name
             then Inl (CollectStreamError (CNotDecomposed index))
             else if contains name (lit ''::'')
             then Inl (CollectStreamError (CSeparatorInName index))
             else Inr ())))
         else if kind = JStr (lit ''collect_finished'') then
           rbind (require_int record (lit ''nodes'') index) (\<lambda>_.
           rbind (require_int record (lit ''exit_code'') index) (\<lambda>_. Inr ()))
         else Inr ())"

fun check_known_records :: "nat \<Rightarrow> jobj list \<Rightarrow> collect_exn + unit" where
  "check_known_records index [] = Inr ()"
| "check_known_records index (record # records) =
     rbind (check_known_record index record) (\<lambda>_. check_known_records (Suc index) records)"

fun collect_read :: "nat \<Rightarrow> str list \<Rightarrow> collect_exn + jobj list" where
  "collect_read index [] = Inr []"
| "collect_read index (segment # segments) =
     (if segment = [] then Inl (CollectStreamError (CBlankLine index))
      else rbind (collect_loads segment) (\<lambda>v.
        case v of
          JObj ob \<Rightarrow> rbind (collect_read (Suc index) segments) (\<lambda>rest. Inr (ob # rest))
        | _ \<Rightarrow> Inl (CollectStreamError (CNotAnObject index))))"

text \<open>The positions of the records of a kind.\<close>

definition positions :: "string \<Rightarrow> jobj list \<Rightarrow> nat list" where
  "positions kind records =
     filter (\<lambda>i. event_of (records ! i) = JStr (lit kind)) [0..<length records]"

definition collect_header :: "bool \<Rightarrow> jobj list \<Rightarrow> collect_exn + int option" where
  "collect_header require_header records =
     (let headers = positions ''collect'' records
      in if 1 < length headers then Inl (CollectStreamError (CManyHeaders (length headers)))
         else if headers \<noteq> [] \<and> hd headers \<noteq> 0
         then Inl (CollectStreamError (CHeaderNotFirst (hd headers)))
         else if headers \<noteq> [] then
           (let version = int_of_json (jget (records ! 0) (lit ''version''))
            in if version \<noteq> COLLECT_STREAM_VERSION
               then Inl (CollectStreamError (CUnknownVersion version))
               else Inr (Some COLLECT_STREAM_VERSION))
         else if require_header then
           (case records of
              [] \<Rightarrow> Inl (CollectStreamError CNoHeaderLine)
            | first # _ \<Rightarrow> Inl (CollectStreamError (CNotTheHeader (event_of first))))
         else Inr None)"

definition collect_terminal :: "jobj list \<Rightarrow> collect_exn + jobj option" where
  "collect_terminal records =
     (let finishes = positions ''collect_finished'' records
      in if 1 < length finishes then Inl (CollectStreamError (CManyTerminals (length finishes)))
         else if finishes \<noteq> [] \<and> hd finishes \<noteq> length records - 1
         then Inl (CollectStreamError (CTerminalNotLast (hd finishes)))
         else
           let terminal = (if finishes = [] then None else Some (records ! hd finishes))
           in if terminal \<noteq> None \<and> collect_nodes terminal \<noteq> Some (int (length (node_ids records)))
              then Inl (CollectStreamError CCountMismatch)
              else Inr terminal)"

definition accept_collect :: "bool \<Rightarrow> jobj list \<Rightarrow> collect_exn + int option \<times> jobj option" where
  "accept_collect require_header records =
     rbind (check_known_records 0 records) (\<lambda>_.
     rbind (collect_header require_header records) (\<lambda>version.
     rbind (collect_terminal records) (\<lambda>terminal. Inr (version, terminal))))"

definition parse_collect_stream :: "bool \<Rightarrow> str \<Rightarrow> collect_exn + collect_report" where
  "parse_collect_stream require_header text =
     (if text = []
      then (if require_header then Inl (CollectStreamError CEmptyStream) else Inr CollectStreamReport)
      else
        let segments = split_on 10 text; committed = butlast segments; tail = last segments
        in rbind (collect_read 0 committed) (\<lambda>records.
           rbind (accept_collect require_header records) (\<lambda>(version, terminal).
             Inr \<lparr> cr_records = records, cr_version = version, cr_terminal = terminal,
                   cr_torn_tail = (tail \<noteq> []) \<rparr>)))"

section \<open>The contract of a strict consumer\<close>

text \<open>
  What the two consumers promise of committed lines, acceptance and torn tails.  A verdict is the
  header's version and the terminal record; one verdict is below another when it only knows less.
\<close>

definition verdict_le :: "'a option \<times> 'b option \<Rightarrow> 'a option \<times> 'b option \<Rightarrow> bool" where
  "verdict_le v w \<longleftrightarrow> (fst v = None \<or> fst v = fst w) \<and> (snd v = None \<or> snd v = snd w)"

locale strict_consumer =
  fixes loads :: "str \<Rightarrow> 'e + json"
    and read_lines :: "nat \<Rightarrow> str list \<Rightarrow> 'e + jobj list"
    and accept :: "bool \<Rightarrow> jobj list \<Rightarrow> 'e + 'a option \<times> 'b option"
    and parse :: "bool \<Rightarrow> str \<Rightarrow> 'e + 'r"
    and recs :: "'r \<Rightarrow> jobj list"
    and verdict :: "'r \<Rightarrow> 'a option \<times> 'b option"
    and torn :: "'r \<Rightarrow> bool"
  assumes read_Nil: "read_lines i [] = Inr []"
    and read_Cons: "read_lines i (l # ls) = Inr rs \<longleftrightarrow>
        l \<noteq> [] \<and> (\<exists>ob rest. loads l = Inr (JObj ob) \<and> read_lines (Suc i) ls = Inr rest \<and> rs = ob # rest)"
    and parse_Inr: "parse h s = Inr r \<longleftrightarrow>
        read_lines 0 (butlast (split_on 10 s)) = Inr (recs r) \<and> accept h (recs r) = Inr (verdict r)
        \<and> torn r = (last (split_on 10 s) \<noteq> [])"
    and report_exists: "\<exists>r. recs r = rs \<and> verdict r = v \<and> torn r = t"
    and accept_prefix: "accept h (rs @ qs) = Inr v \<Longrightarrow> rs \<noteq> [] \<or> \<not> h \<Longrightarrow>
        \<exists>v'. accept h rs = Inr v' \<and> verdict_le v' v"
begin

lemma read_all: "read_lines i ls = Inr rs \<longleftrightarrow> list_all2 (\<lambda>l ob. l \<noteq> [] \<and> loads l = Inr (JObj ob)) ls rs"
  by (induction ls arbitrary: i rs) (auto simp: read_Nil read_Cons list_all2_Cons1)

text \<open>Every committed line of an accepted stream is one record.\<close>

lemma accepted_lines:
  "parse h s = Inr r \<Longrightarrow>
     list_all2 (\<lambda>l ob. l \<noteq> [] \<and> loads l = Inr (JObj ob)) (butlast (split_on 10 s)) (recs r)"
  by (simp add: parse_Inr read_all)

text \<open>A stream written as lines is read back, record by record.\<close>

lemma written_lines:
  assumes "list_all2 (\<lambda>l ob. 10 \<notin> set l \<and> l \<noteq> [] \<and> loads l = Inr (JObj ob)) ls obs"
    and "accept h obs = Inr v" and "10 \<notin> set t"
  shows "\<exists>r. parse h (lines_of ls @ t) = Inr r \<and> recs r = obs \<and> verdict r = v \<and> torn r = (t \<noteq> [])"
proof -
  have "\<forall>l\<in>set ls. 10 \<notin> set l"
    using assms(1) by (fastforce simp: list_all2_conv_all_nth in_set_conv_nth)
  then have sp: "split_on 10 (lines_of ls @ t) = ls @ [t]"
    using assms(3) by (rule split_lines_of)
  obtain r where r: "recs r = obs" "verdict r = v" "torn r = (t \<noteq> [])"
    using report_exists by blast
  have "list_all2 (\<lambda>l ob. l \<noteq> [] \<and> loads l = Inr (JObj ob)) ls obs"
    using assms(1) by (rule list_all2_mono) simp
  then have "parse h (lines_of ls @ t) = Inr r"
    unfolding parse_Inr by (simp add: sp r read_all assms(2))
  with r show ?thesis by blast
qed

text \<open>A writer that dies after its header line leaves an accepted stream.\<close>

lemma cut_stream:
  assumes p: "parse h (a @ b) = Inr r" and hd: "10 \<in> set a \<or> \<not> h"
  shows "\<exists>r'. parse h a = Inr r' \<and> recs r' = take (length (split_on 10 a) - 1) (recs r)
     \<and> verdict_le (verdict r') (verdict r) \<and> torn r' = (last (split_on 10 a) \<noteq> [])"
proof -
  let ?k = "length (split_on 10 a) - 1"
  let ?R = "\<lambda>l ob. l \<noteq> [] \<and> loads l = Inr (JObj ob)"
  have "butlast (split_on 10 (a @ b))
      = butlast (split_on 10 a) @ butlast (split_on 10 (last (split_on 10 a) @ b))"
    by (subst split_on_app) (simp add: butlast_append)
  then have "list_all2 ?R (butlast (split_on 10 a) @ butlast (split_on 10 (last (split_on 10 a) @ b))) (recs r)"
    using accepted_lines [OF p] by simp
  then have pre: "list_all2 ?R (butlast (split_on 10 a)) (take ?k (recs r))"
    by (auto simp: list_all2_append1 dest: list_all2_lengthD)
  have acc: "accept h (take ?k (recs r) @ drop ?k (recs r)) = Inr (verdict r)"
    using p by (simp add: parse_Inr)
  have "take ?k (recs r) \<noteq> [] \<or> \<not> h"
    using hd list_all2_lengthD [OF pre] split_on_butlast [of 10 a]
    by (metis length_0_conv)
  with accept_prefix [OF acc] obtain v' where v': "accept h (take ?k (recs r)) = Inr v'" "verdict_le v' (verdict r)"
    by blast
  obtain r' where r': "recs r' = take ?k (recs r)" "verdict r' = v'" "torn r' = (last (split_on 10 a) \<noteq> [])"
    using report_exists by blast
  have "parse h a = Inr r'"
    using pre v'(1) by (simp add: parse_Inr r' read_all)
  with r' v' show ?thesis by blast
qed

end

subsection \<open>The run stream keeps the contract\<close>

lemma object_case_Inr:
  "(case v of JObj ob \<Rightarrow> rbind m (\<lambda>rest. Inr (ob # rest)) | _ \<Rightarrow> Inl e) = Inr rs \<longleftrightarrow>
     (\<exists>ob rest. v = JObj ob \<and> m = Inr rest \<and> rs = ob # rest)"
  by (cases v) (auto simp: rbind_Inr)

lemma finishes_append: "finishes (a @ b) = finishes a @ finishes b"
  by (simp add: finishes_def)

lemma check_header_append: "a \<noteq> [] \<Longrightarrow> check_header h (a @ b) = check_header h a"
  by (cases a) (auto simp: check_header_def)

lemma check_terminal_prefix:
  "check_terminal (a @ b) = Inr t \<Longrightarrow> \<exists>t'. check_terminal a = Inr t' \<and> (t' = None \<or> t' = t)"
  by (cases "finishes a") (auto simp: check_terminal_def finishes_append split: if_splits list.splits)

lemma accept_stream_prefix:
  "accept_stream h (a @ b) = Inr v \<Longrightarrow> a \<noteq> [] \<or> \<not> h \<Longrightarrow>
     \<exists>v'. accept_stream h a = Inr v' \<and> verdict_le v' v"
  using check_terminal_prefix [of a b] check_header_append [of a h b]
  by (cases "a = []") (auto simp: accept_stream_def rbind_Inr verdict_le_def check_header_def)

abbreviation stream_verdict :: "stream_report \<Rightarrow> json option \<times> jobj option" where
  "stream_verdict r \<equiv> (sr_version r, sr_terminal r)"

lemma parse_stream_Inr:
  "parse_stream h s = Inr r \<longleftrightarrow>
     read_committed 0 (butlast (split_on 10 s)) = Inr (sr_records r)
     \<and> accept_stream h (sr_records r) = Inr (stream_verdict r)
     \<and> sr_torn_tail r = (last (split_on 10 s) \<noteq> [])"
  by (cases r) (auto simp: parse_stream_def StreamReport_def rbind_Inr Let_def accept_stream_def
      check_header_def check_terminal_def finishes_def)

interpretation run_stream: strict_consumer strict_loads read_committed accept_stream parse_stream
    sr_records stream_verdict sr_torn_tail
proof unfold_locales
  show "read_committed i [] = Inr []" for i by simp
  show "read_committed i (l # ls) = Inr rs \<longleftrightarrow>
      l \<noteq> [] \<and> (\<exists>ob rest. strict_loads l = Inr (JObj ob) \<and> read_committed (Suc i) ls = Inr rest \<and> rs = ob # rest)"
    for i l ls rs
    by (simp add: rbind_Inr object_case_Inr) blast
  show "parse_stream h s = Inr r \<longleftrightarrow>
      read_committed 0 (butlast (split_on 10 s)) = Inr (sr_records r) \<and> accept_stream h (sr_records r) = Inr (stream_verdict r)
        \<and> sr_torn_tail r = (last (split_on 10 s) \<noteq> [])" for h s r
    by (rule parse_stream_Inr)
  show "\<exists>r. sr_records r = rs \<and> stream_verdict r = v \<and> sr_torn_tail r = t" for rs v t
    by (rule exI [of _ "\<lparr> sr_records = rs, sr_version = fst v, sr_terminal = snd v, sr_torn_tail = t \<rparr>"]) simp
qed (rule accept_stream_prefix)

subsection \<open>The collect stream keeps the contract\<close>

lemma positions_append:
  "positions k (a @ b) = positions k a @ map (\<lambda>i. i + length a) (positions k b)"
proof -
  let ?P = "\<lambda>rs i. event_of (rs ! i) = JStr (lit k)"
  have "[0..<length (a @ b)] = [0..<length a] @ map (\<lambda>i. i + length a) [0..<length b]"
    using upt_add_eq_append [of 0 "length a" "length b"] by (simp only: map_add_upt length_append add.commute)
  then have "positions k (a @ b) = filter (?P (a @ b)) [0..<length a]
      @ filter (?P (a @ b)) (map (\<lambda>i. i + length a) [0..<length b])"
    by (simp only: positions_def filter_append)
  also have "filter (?P (a @ b)) [0..<length a] = positions k a"
    unfolding positions_def by (rule filter_cong) (auto simp: nth_append)
  also have "filter (?P (a @ b)) (map (\<lambda>i. i + length a) [0..<length b])
      = map (\<lambda>i. i + length a) (positions k b)"
    by (simp add: positions_def filter_map o_def nth_append)
  finally show ?thesis .
qed

lemma positions_bound: "i \<in> set (positions k a) \<Longrightarrow> i < length a"
  by (auto simp: positions_def)

lemma positions_hd: "positions k a \<noteq> [] \<Longrightarrow> hd (positions k a) < length a"
  using positions_bound list.set_sel(1) by blast

lemma check_known_prefix: "check_known_records i (a @ b) = Inr () \<Longrightarrow> check_known_records i a = Inr ()"
  by (induction a arbitrary: i) (auto simp: rbind_Inr)

lemma positions_zero: "event_of x = JStr (lit k) \<Longrightarrow> positions k (x # xs) \<noteq> [] \<and> hd (positions k (x # xs)) = 0"
  by (simp add: positions_def upt_conv_Cons del: upt_Suc)

lemma positions_zeroD: "positions k rs \<noteq> [] \<Longrightarrow> hd (positions k rs) = 0 \<Longrightarrow> event_of (rs ! 0) = JStr (lit k)"
  using list.set_sel(1) [of "positions k rs"] by (auto simp: positions_def)

lemma collect_header_prefix:
  assumes acc: "collect_header h (a @ b) = Inr v" and ne: "a \<noteq> [] \<or> \<not> h"
  shows "\<exists>v'. collect_header h a = Inr v' \<and> (v' = None \<or> v' = v)"
proof (cases "positions ''collect'' a = []")
  case True
  have "\<not> h"
  proof
    assume h: h
    then have "a \<noteq> []" "positions ''collect'' (a @ b) \<noteq> []" "hd (positions ''collect'' (a @ b)) = 0"
      using acc ne by (auto simp: collect_header_def Let_def split: if_splits list.splits)
    with True have "hd (map (\<lambda>i. i + length a) (positions ''collect'' b)) = 0" "positions ''collect'' b \<noteq> []"
      by (auto simp: positions_append)
    then show False using \<open>a \<noteq> []\<close> by (simp add: hd_map)
  qed
  then show ?thesis using True by (simp add: collect_header_def)
next
  case False
  then have "a \<noteq> []" by (auto simp: positions_def)
  with False acc show ?thesis
    by (auto simp: collect_header_def Let_def positions_append nth_append split: if_splits)
qed

lemma collect_terminal_prefix:
  assumes acc: "collect_terminal (a @ b) = Inr t"
  shows "\<exists>t'. collect_terminal a = Inr t' \<and> (t' = None \<or> t' = t)"
proof (cases "positions ''collect_finished'' a = []")
  case True
  then show ?thesis by (simp add: collect_terminal_def)
next
  case False
  then have "hd (positions ''collect_finished'' a) = length (a @ b) - 1"
    using acc by (auto simp: collect_terminal_def positions_append Let_def split: if_splits)
  with positions_hd [OF False] have "b = []" by (cases b) auto
  with acc show ?thesis by simp
qed

lemma accept_collect_prefix:
  "accept_collect h (a @ b) = Inr v \<Longrightarrow> a \<noteq> [] \<or> \<not> h \<Longrightarrow>
     \<exists>v'. accept_collect h a = Inr v' \<and> verdict_le v' v"
  using collect_terminal_prefix [of a b] collect_header_prefix [of h a b] check_known_prefix [of 0 a b]
  by (fastforce simp: accept_collect_def rbind_Inr verdict_le_def)

abbreviation collect_verdict :: "collect_report \<Rightarrow> int option \<times> jobj option" where
  "collect_verdict r \<equiv> (cr_version r, cr_terminal r)"

lemma accept_collect_Nil: "accept_collect h [] = (if h then Inl (CollectStreamError CNoHeaderLine) else Inr (None, None))"
  by (simp add: accept_collect_def collect_header_def collect_terminal_def positions_def)

lemma parse_collect_Inr:
  "parse_collect_stream h s = Inr r \<longleftrightarrow>
     collect_read 0 (butlast (split_on 10 s)) = Inr (cr_records r)
     \<and> accept_collect h (cr_records r) = Inr (collect_verdict r)
     \<and> cr_torn_tail r = (last (split_on 10 s) \<noteq> [])"
proof (cases "s = []")
  case True
  then show ?thesis
    by (cases r) (auto simp: parse_collect_stream_def CollectStreamReport_def accept_collect_Nil)
next
  case False
  then show ?thesis
    by (cases r) (auto simp: parse_collect_stream_def rbind_Inr Let_def)
qed

interpretation listing: strict_consumer collect_loads collect_read accept_collect parse_collect_stream
    cr_records collect_verdict cr_torn_tail
proof unfold_locales
  show "collect_read i [] = Inr []" for i by simp
  show "collect_read i (l # ls) = Inr rs \<longleftrightarrow>
      l \<noteq> [] \<and> (\<exists>ob rest. collect_loads l = Inr (JObj ob) \<and> collect_read (Suc i) ls = Inr rest \<and> rs = ob # rest)"
    for i l ls rs
    by (simp add: rbind_Inr object_case_Inr) blast
  show "parse_collect_stream h s = Inr r \<longleftrightarrow>
      collect_read 0 (butlast (split_on 10 s)) = Inr (cr_records r) \<and> accept_collect h (cr_records r) = Inr (collect_verdict r)
        \<and> cr_torn_tail r = (last (split_on 10 s) \<noteq> [])" for h s r
    by (rule parse_collect_Inr)
  show "\<exists>r. cr_records r = rs \<and> collect_verdict r = v \<and> cr_torn_tail r = t" for rs v t
    by (rule exI [of _ "\<lparr> cr_records = rs, cr_version = fst v, cr_terminal = snd v, cr_torn_tail = t \<rparr>"]) simp
qed (rule accept_collect_prefix)

section \<open>What the strict parse lets through\<close>

text \<open>No object repeats a key, at any depth, and every float was written as digits.\<close>

fun strict_value :: "json \<Rightarrow> bool" where
  "strict_value (JFloat t) \<longleftrightarrow> t \<noteq> [] \<and> is_ascii_digit (last t)"
| "strict_value (JArr vs) \<longleftrightarrow> list_all strict_value vs"
| "strict_value (JObj kvs) \<longleftrightarrow> distinct (map fst kvs) \<and> list_all (\<lambda>(k, v). strict_value v) kvs"
| "strict_value v \<longleftrightarrow> True"

abbreviation strict_items :: "(str \<times> json) list \<Rightarrow> bool" where
  "strict_items \<equiv> list_all (\<lambda>(k, v). strict_value v)"

lemma reject_duplicates_Inr:
  "reject_duplicates res ps = Inr v \<Longrightarrow> distinct (map fst res) \<Longrightarrow> strict_items res \<Longrightarrow> strict_items ps \<Longrightarrow>
     strict_value v"
proof (induction res ps rule: reject_duplicates.induct)
  case (1 res)
  then show ?case by auto
next
  case (2 res k v' ps)
  then have "k \<notin> fst ` set res" by (auto simp: map_of_eq_None_iff split: if_splits)
  with 2 show ?case by (auto simp: dict_set_fresh split: if_splits)
qed

lemma reject_duplicates_distinct:
  "distinct (map fst (res @ ps)) \<Longrightarrow> reject_duplicates res ps = Inr (JObj (res @ ps))"
proof (induction res ps rule: reject_duplicates.induct)
  case (1 res)
  then show ?case by simp
next
  case (2 res k v ps)
  then have "k \<notin> fst ` set res" by auto
  moreover from this have "map_of res k = None" by (simp add: map_of_eq_None_iff)
  ultimately show ?case using 2 by (simp add: dict_set_fresh)
qed

lemma strict_hooks_simps:
  "constant_hook strict_hooks t = Inl (JNonFinite t)"
  "pairs_hook strict_hooks ps = reject_duplicates [] ps"
  by (simp_all add: strict_hooks_def reject_non_finite_def reject_duplicate_keys_def)

lemma strict_hooks_keep: "keeps_distinct strict_hooks"
  by (simp add: keeps_distinct_def strict_hooks_simps reject_duplicates_distinct)

lemma reject_duplicates_Inl: "reject_duplicates res ps = Inl e \<Longrightarrow> \<exists>k. e = JDuplicateKey k"
  by (induction res ps rule: reject_duplicates.induct) (auto split: if_splits)

lemma strict_hooks_ok: "hooks_ok strict_hooks"
  using reject_duplicates_Inl by (fastforce simp: hooks_ok_def strict_hooks_simps)

lemma last_takeWhile_digits:
  "takeWhile is_ascii_digit s \<noteq> [] \<Longrightarrow> is_ascii_digit (last (takeWhile is_ascii_digit s))"
  by (drule last_in_set) (blast dest: set_takeWhileD)

lemma last_digit_run: "is_ascii_digit d \<Longrightarrow> is_ascii_digit (last (d # takeWhile is_ascii_digit r))"
  using last_takeWhile_digits [of r] by auto

lemma int_part_strict: "int_part s = Some (ds, r) \<Longrightarrow> ds \<noteq> [] \<and> is_ascii_digit (last ds)"
proof (cases s)
  case (Cons c t)
  assume "int_part s = Some (ds, r)"
  then show ?thesis
    using last_digit_run [of c t] unfolding int_part_def Cons
    by (auto simp: is_ascii_digit_def split: if_splits)
qed (simp add: int_part_def)

lemma frac_part_strict:
  assumes "frac_part s = (fr, r)" and ne: "fr \<noteq> []"
  shows "is_ascii_digit (last fr)"
proof -
  obtain c d t where s: "s = c # d # t" "is_ascii_digit d"
    and "fr = c # takeWhile is_ascii_digit (d # t)"
    using assms by (auto simp: frac_part_def split: list.splits if_splits)
  then show ?thesis
    using last_digit_run [of d t] by simp
qed

lemma exp_part_strict: "exp_part s = (ex, r) \<Longrightarrow> ex \<noteq> [] \<Longrightarrow> is_ascii_digit (last ex)"
proof (cases s)
  case (Cons c t)
  assume e: "exp_part s = (ex, r)" and ne: "ex \<noteq> []"
  define sg where "sg = (if startswith t [43] \<or> startswith t [45] then take 1 t else [])"
  define ds where "ds = takeWhile is_ascii_digit (drop (length sg) t)"
  have "ds \<noteq> []" "ex = c # sg @ ds"
    using e ne unfolding exp_part_def Cons Let_def list.case sg_def [symmetric] ds_def [symmetric]
    by (auto split: if_splits)
  then show ?thesis
    using last_takeWhile_digits by (simp add: ds_def)
qed (simp add: exp_part_def)

lemma scan_number_strict: "scan_number s = Inr (v, r) \<Longrightarrow> strict_value v"
proof -
  assume v: "scan_number s = Inr (v, r)"
  define s1 where "s1 = (if startswith s [45] then tl s else s)"
  from v obtain ds s2 where i: "int_part s1 = Some (ds, s2)"
    by (auto simp: scan_number_def Let_def s1_def split: option.splits)
  obtain fr s3 ex s4 where f: "frac_part s2 = (fr, s3)" "exp_part s3 = (ex, s4)"
    by fastforce
  have "v = JFloat ((if startswith s [45] then [45] else []) @ ds @ fr @ ex)
      \<or> (\<exists>n. v = JInt n)"
    using v i f unfolding scan_number_def Let_def s1_def [symmetric] by (auto split: if_splits)
  then show "strict_value v"
    using int_part_strict [OF i] frac_part_strict [OF f(1)] exp_part_strict [OF f(2)]
    by (auto simp: last_append)
qed

lemma scan_strict:
  "scan_value n strict_hooks s = Inr (v, r) \<Longrightarrow> strict_value v"
  "strict_items acc \<Longrightarrow> scan_members n strict_hooks acc s = Inr (v, r) \<Longrightarrow> strict_value v"
  "list_all strict_value vs \<Longrightarrow> scan_elements n strict_hooks vs s = Inr (v, r) \<Longrightarrow> strict_value v"
proof (induction n arbitrary: s v r acc vs)
  case 0
  {
    case 1 then show ?case by simp
  next
    case 2 then show ?case by simp
  next
    case 3 then show ?case by simp
  }
next
  case (Suc n)
  {
    case 1
    show ?case
    proof (cases "hd s = 123 \<or> hd s = 91")
      case True
      then show ?thesis
        using 1 Suc.IH(2) [of "[]" "skip_ws (tl s)" v r] Suc.IH(3) [of "[]" "skip_ws (tl s)" v r]
        by (auto simp: scan_value.simps(2) Let_def rbind_Inr strict_hooks_simps split: if_splits)
    next
      case False
      then show ?thesis
        using 1 scan_number_strict [of s v r]
        by (auto simp: scan_value.simps(2) rbind_Inr strict_hooks_simps split: if_splits)
    qed
  next
    case 2
    then obtain k w s' r2 where w: "scan_value n strict_hooks s' = Inr (w, r2)"
      and v: "reject_duplicates [] (acc @ [(k, w)]) = Inr v
        \<or> (\<exists>s''. scan_members n strict_hooks (acc @ [(k, w)]) s'' = Inr (v, r))"
      by (auto simp: scan_members.simps(2) Let_def rbind_Inr strict_hooks_simps split: if_splits) blast
    have "strict_items (acc @ [(k, w)])"
      using 2 Suc.IH(1) [OF w] by simp
    then show ?case
      using v reject_duplicates_Inr [of "[]" "acc @ [(k, w)]" v] Suc.IH(2) by fastforce
  next
    case 3
    then obtain w r2 where w: "scan_value n strict_hooks s = Inr (w, r2)"
      and v: "v = JArr (vs @ [w]) \<or> (\<exists>s''. scan_elements n strict_hooks (vs @ [w]) s'' = Inr (v, r))"
      by (auto simp: scan_elements.simps(2) Let_def rbind_Inr split: if_splits)
    have "list_all strict_value (vs @ [w])"
      using 3 Suc.IH(1) [OF w] by simp
    then show ?case
      using v Suc.IH(3) by fastforce
  }
qed

lemma strict_loads_strict: "strict_loads line = Inr v \<Longrightarrow> strict_value v"
  using scan_strict(1)
  by (fastforce simp: strict_loads_def loads_with_def Let_def rbind_Inr split: sum.splits if_splits)

lemma strict_loads_stuck: "strict_loads line \<noteq> Inl StreamStuck"
proof -
  have "stream_exn_of e = StreamStuck \<Longrightarrow> e = JFuel" for e by (cases e) auto
  then show ?thesis
    using loads_fuel [OF strict_hooks_ok, of line] by (auto simp: strict_loads_def split: sum.splits)
qed

lemma read_committed_stuck: "read_committed i ls \<noteq> Inl StreamStuck"
proof (induction ls arbitrary: i)
  case (Cons l ls)
  then show ?case
    using strict_loads_stuck [of l] by (auto simp: rbind_Inl split: json.splits)
qed simp

lemma strict_loads_text: "printable v \<Longrightarrow> strict_loads (json_text v) = Inr v"
  using loads_json_text [OF strict_hooks_keep, of v "[]"] by (simp add: strict_loads_def)

lemma collect_loads_text: "printable v \<Longrightarrow> collect_loads (json_text v) = Inr v"
  using loads_json_text [OF strict_hooks_keep, of v "[]"] by (simp add: collect_loads_def)

lemma printed_lines:
  assumes "\<And>v. printable v \<Longrightarrow> loads (json_text v) = Inr v"
  shows "list_all (\<lambda>ob. printable (JObj ob)) obs \<Longrightarrow>
     list_all2 (\<lambda>l ob. 10 \<notin> set l \<and> l \<noteq> [] \<and> loads l = Inr (JObj ob))
       (map (\<lambda>ob. json_text (JObj ob)) obs) obs"
  using assms json_text_no_newline
  by (induction obs) (auto simp del: json_text.simps printable.simps dest: printable_first)

section \<open>Properties of the run stream\<close>

text \<open>
  Strictness: a text the consumer accepts with its header is a header line whose version
  compares equal to 1 and further committed lines, each the strict parse of one line, with no
  repeated key at any depth, no non-finite number and at most one terminal record, which is the
  one reported; it is torn exactly when something follows the last line feed.
\<close>

theorem parse_stream_strict:
  assumes "parse_stream True s = Inr r"
  shows "list_all2 (\<lambda>l ob. l \<noteq> [] \<and> strict_loads l = Inr (JObj ob) \<and> strict_value (JObj ob))
           (butlast (split_on 10 s)) (sr_records r)
    \<and> sr_records r \<noteq> []
    \<and> event_of (hd (sr_records r)) = JStr (lit ''stream'')
    \<and> (\<exists>v. sr_version r = Some v \<and> v = jget (hd (sr_records r)) (lit ''version'')
           \<and> is_int v \<and> int_of_json v = STREAM_VERSION)
    \<and> filter (\<lambda>ob. event_of ob = JStr (lit ''session_finished'')) (sr_records r)
        = (case sr_terminal r of None \<Rightarrow> [] | Some t \<Rightarrow> [t])
    \<and> (sr_torn_tail r \<longleftrightarrow> s \<noteq> [] \<and> last s \<noteq> 10)"
proof (intro conjI)
  have acc: "accept_stream True (sr_records r) = Inr (stream_verdict r)"
    and torn: "sr_torn_tail r = (last (split_on 10 s) \<noteq> [])"
    using assms by (simp_all add: run_stream.parse_Inr)
  show "list_all2 (\<lambda>l ob. l \<noteq> [] \<and> strict_loads l = Inr (JObj ob) \<and> strict_value (JObj ob))
           (butlast (split_on 10 s)) (sr_records r)"
    using run_stream.accepted_lines [OF assms]
    by (rule list_all2_mono) (use strict_loads_strict in blast)
  from acc show "sr_records r \<noteq> []" "event_of (hd (sr_records r)) = JStr (lit ''stream'')"
    "\<exists>v. sr_version r = Some v \<and> v = jget (hd (sr_records r)) (lit ''version'')
           \<and> is_int v \<and> int_of_json v = STREAM_VERSION"
    by (auto simp: accept_stream_def check_header_def rbind_Inr Let_def split: list.splits if_splits)
  from acc have "check_terminal (sr_records r) = Inr (sr_terminal r)"
    by (auto simp: accept_stream_def rbind_Inr)
  then show "filter (\<lambda>ob. event_of ob = JStr (lit ''session_finished'')) (sr_records r)
        = (case sr_terminal r of None \<Rightarrow> [] | Some t \<Rightarrow> [t])"
    unfolding finishes_def [symmetric]
    by (cases "finishes (sr_records r)"; cases "sr_terminal r") (auto simp: check_terminal_def split: if_splits)
  show "sr_torn_tail r \<longleftrightarrow> s \<noteq> [] \<and> last s \<noteq> 10"
    unfolding torn by (rule last_split_ne)
qed

theorem parse_stream_strict_witness:
  "event_of [(lit ''event'', JStr (lit ''stream'')), (lit ''version'', JInt 1)] = JStr (lit ''stream'')
   \<and> \<not> sr_torn_tail \<lparr> sr_records = [[(lit ''event'', JStr (lit ''stream'')), (lit ''version'', JInt 1)]],
        sr_version = Some (JInt 1), sr_terminal = None, sr_torn_tail = False \<rparr>"
proof -
  have "parse_stream True (lit ''{\"event\":\"stream\",\"version\":1}'' @ [10]) =
    Inr \<lparr> sr_records = [[(lit ''event'', JStr (lit ''stream'')), (lit ''version'', JInt 1)]],
          sr_version = Some (JInt 1), sr_terminal = None, sr_torn_tail = False \<rparr>"
    by code_simp
  from parse_stream_strict [OF this] show ?thesis by simp
qed

text \<open>
  A killed writer: an accepted stream cut at any place after its header line is accepted
  too; its records are those of the complete lines, its terminal record is the original one or
  missing, and it is torn exactly when the cut is inside a line.
\<close>

theorem cut_stream_is_torn:
  assumes "parse_stream h (a @ b) = Inr r" and "10 \<in> set a \<or> \<not> h"
  shows "\<exists>r'. parse_stream h a = Inr r'
     \<and> sr_records r' = take (length (split_on 10 a) - 1) (sr_records r)
     \<and> (sr_terminal r' = None \<or> sr_terminal r' = sr_terminal r)
     \<and> (sr_torn_tail r' \<longleftrightarrow> a \<noteq> [] \<and> last a \<noteq> 10)"
  using run_stream.cut_stream [OF assms] last_split_ne [of 10 a] by (auto simp: verdict_le_def)

theorem cut_stream_is_torn_witness:
  "\<exists>r'. parse_stream True (lit ''{\"event\":\"stream\",\"version\":1}'' @ [10] @ lit ''{\"ev'') = Inr r'
     \<and> sr_torn_tail r' \<and> length (sr_records r') = 1"
proof -
  let ?a = "lit ''{\"event\":\"stream\",\"version\":1}'' @ [10] @ lit ''{\"ev''"
  have p: "parse_stream True (?a @ lit ''ent\":\"session_finished\"}'' @ [10]) =
    Inr \<lparr> sr_records = [[(lit ''event'', JStr (lit ''stream'')), (lit ''version'', JInt 1)],
                         [(lit ''event'', JStr (lit ''session_finished''))]],
          sr_version = Some (JInt 1), sr_terminal = Some [(lit ''event'', JStr (lit ''session_finished''))],
          sr_torn_tail = False \<rparr>"
    by code_simp
  have h: "10 \<in> set ?a \<or> \<not> True" by simp
  show ?thesis
    by (rule exE [OF cut_stream_is_torn [OF p h]], rule exI, (erule conjE)+, intro conjI, assumption) simp_all
qed

text \<open>
  C26 (round trip): records written as compact JSON lines under a version-1 header, with at most
  one terminal record, are read back exactly, and the stream is not torn.
\<close>

theorem written_stream_read_back:
  assumes "list_all (\<lambda>ob. printable (JObj ob)) (header # obs)"
    and "event_of header = JStr (lit ''stream'')" and "jget header (lit ''version'') = JInt STREAM_VERSION"
    and "length (finishes (header # obs)) \<le> 1"
  shows "\<exists>r. parse_stream True (lines_of (map (\<lambda>ob. json_text (JObj ob)) (header # obs))) = Inr r
     \<and> sr_records r = header # obs \<and> \<not> sr_torn_tail r"
proof -
  have "list_all2 (\<lambda>l ob. 10 \<notin> set l \<and> l \<noteq> [] \<and> strict_loads l = Inr (JObj ob))
      (map (\<lambda>ob. json_text (JObj ob)) (header # obs)) (header # obs)"
    using strict_loads_text assms(1) by (rule printed_lines)
  moreover have "\<exists>v. accept_stream True (header # obs) = Inr v"
    using assms by (auto simp: accept_stream_def check_header_def check_terminal_def is_int_def int_of_json_def)
  ultimately show ?thesis
    using run_stream.written_lines [of _ "header # obs" True _ "[]"] by fastforce
qed

theorem written_stream_read_back_witness:
  "\<exists>r. parse_stream True (lines_of (map (\<lambda>ob. json_text (JObj ob))
       [[(lit ''event'', JStr (lit ''stream'')), (lit ''version'', JInt STREAM_VERSION)],
        [(lit ''event'', JStr (lit ''session_finished'')), (lit ''exit_code'', JInt 0)]])) = Inr r
     \<and> sr_records r = [[(lit ''event'', JStr (lit ''stream'')), (lit ''version'', JInt STREAM_VERSION)],
        [(lit ''event'', JStr (lit ''session_finished'')), (lit ''exit_code'', JInt 0)]] \<and> \<not> sr_torn_tail r"
  by (rule written_stream_read_back) code_simp+

text \<open>
  A boolean exit code: the run stream's consumer reports the terminal's \<open>true\<close> as its exit
  code and takes a header whose version is \<open>true\<close>, where the listing's consumer refuses both.
\<close>

theorem stream_takes_booleans:
  "\<exists>s r. parse_stream True s = Inr r \<and> sr_version r = Some (JBool True)
     \<and> stream_exit_code r = Some (JBool True)"
proof -
  let ?h = "[(lit ''event'', JStr (lit ''stream'')), (lit ''version'', JBool True)]"
  let ?t = "[(lit ''event'', JStr (lit ''session_finished'')), (lit ''exit_code'', JBool True)]"
  let ?r = "\<lparr> sr_records = [?h, ?t], sr_version = Some (JBool True), sr_terminal = Some ?t, sr_torn_tail = False \<rparr>"
  have "parse_stream True (lines_of (map (\<lambda>ob. json_text (JObj ob)) [?h, ?t])) = Inr ?r"
    by code_simp
  moreover have "sr_version ?r = Some (JBool True)" by simp
  moreover have "stream_exit_code ?r = Some (JBool True)" by code_simp
  ultimately show ?thesis by blast
qed

text \<open>
  An escaping error: a committed line with an integer of more than 4300 digits makes the
  consumer raise Python's \<open>ValueError\<close>, not its own \<open>StreamError\<close>.
\<close>

theorem digit_limit_escapes:
  "parse_stream True (lit ''{\"version\":'' @ replicate 4301 49 @ [125, 10]) = Inl StreamDigitLimit"
proof -
  let ?d = "replicate 4301 (49::int)"
  let ?l = "lit ''{\"version\":'' @ ?d @ [125]"
  have key: "scan_string (lit ''version\":'' @ ?d @ [125]) = Inr (lit ''version'', 58 # ?d @ [125])"
    using scan_json_str [of "lit ''version''" "58 # ?d @ [125]"]
    by (simp add: scalar_text_def json_char_def)
  have ws: "skip_ws (?d @ r) = ?d @ r" for r
  proof -
    have "?d @ r = 49 # replicate 4300 49 @ r" by (simp flip: replicate_Suc)
    then show ?thesis by (simp add: is_json_ws_def)
  qed
  have "scan_members k strict_hooks [] (lit ''\"version\":'' @ ?d @ [125]) = Inl JDigits" if k: "2 \<le> k" for k
  proof -
    obtain j where j: "k = Suc j" "0 < j" using k by (cases k) auto
    show ?thesis
      using key ws scan_value_digit_limit [of 4301 j "[125]" strict_hooks] j(2)
      by (simp add: j(1) scan_members.simps(2))
  qed
  then have "loads_with strict_hooks ?l = Inl JDigits"
    by (simp add: loads_with_def scan_value.simps(2) is_json_ws_def)
  then have "strict_loads ?l = Inl StreamDigitLimit"
    by (simp add: strict_loads_def)
  moreover have "split_on 10 (?l @ [10]) = [?l, []]"
    using split_on_append [of 10 ?l "[]"] by (auto simp: lit_def)
  ultimately show ?thesis
    by (simp add: parse_stream_def)
qed

section \<open>Properties of the collect stream\<close>

lemma require_string_Inr: "require_string ob k i = Inr v \<longleftrightarrow> map_of ob k = Some (JStr v)"
  by (auto simp: require_string_def split: option.splits json.splits)

lemma require_int_Inr: "require_int ob k i = Inr v \<longleftrightarrow> map_of ob k = Some (JInt v)"
  by (auto simp: require_int_def split: option.splits json.splits)

lemma lit_kinds:
  "lit ''node'' \<noteq> lit ''collect''" "lit ''collect_finished'' \<noteq> lit ''collect''"
  "lit ''collect_finished'' \<noteq> lit ''node''"
  by simp_all

lemma check_node:
  "event_of ob = JStr (lit ''node'') \<Longrightarrow> check_known_record i ob = Inr () \<longleftrightarrow>
     (\<exists>path name. map_of ob (lit ''node_id'') = Some (JStr (path @ lit ''::'' @ name))
        \<and> map_of ob (lit ''path'') = Some (JStr path) \<and> map_of ob (lit ''name'') = Some (JStr name)
        \<and> \<not> contains name (lit ''::''))"
  unfolding check_known_record_def
  by (simp add: Let_def rbind_Inr require_string_Inr lit_kinds) (auto simp del: lit_Cons)

lemma check_finished:
  "event_of ob = JStr (lit ''collect_finished'') \<Longrightarrow> check_known_record i ob = Inr () \<longleftrightarrow>
     (\<exists>n e. map_of ob (lit ''nodes'') = Some (JInt n) \<and> map_of ob (lit ''exit_code'') = Some (JInt e))"
  unfolding check_known_record_def
  by (simp add: Let_def rbind_Inr require_int_Inr lit_kinds)

lemma check_collect:
  "event_of ob = JStr (lit ''collect'') \<Longrightarrow> check_known_record i ob = Inr () \<longleftrightarrow>
     (\<exists>n g. map_of ob (lit ''version'') = Some (JInt n) \<and> map_of ob (lit ''generator'') = Some (JStr g))"
  unfolding check_known_record_def
  by (simp add: Let_def rbind_Inr require_int_Inr require_string_Inr)

lemma check_known_index: "check_known_record i ob = Inr () \<longleftrightarrow> check_known_record 0 ob = Inr ()"
  unfolding check_known_record_def
  by (simp add: Let_def rbind_Inr require_int_Inr require_string_Inr)

lemma check_known_all:
  "check_known_records i records = Inr () \<longleftrightarrow> list_all (\<lambda>ob. check_known_record 0 ob = Inr ()) records"
proof (induction records arbitrary: i)
  case (Cons ob records)
  then show ?case
    using check_known_index [of i ob] by (simp add: rbind_Inr)
qed simp

lemma node_ids_count:
  "list_all (\<lambda>ob. check_known_record 0 ob = Inr ()) records \<Longrightarrow>
     length (node_ids records) = length (filter (\<lambda>ob. event_of ob = JStr (lit ''node'')) records)"
proof (induction records)
  case Nil
  then show ?case by (simp add: node_ids_def)
next
  case (Cons ob records)
  then show ?case
    using check_node [of ob 0] by (auto simp: node_ids_def jget_def simp del: lit_Cons)
qed

lemma positions_filter: "length (positions k rs) = length (filter (\<lambda>ob. event_of ob = JStr (lit k)) rs)"
proof -
  have "filter (\<lambda>ob. event_of ob = JStr (lit k)) rs
      = filter (\<lambda>ob. event_of ob = JStr (lit k)) (map (nth rs) [0..<length rs])"
    by (simp only: map_nth)
  then show ?thesis
    by (simp only: filter_map length_map positions_def o_def)
qed

lemma filter_first:
  "length (filter P (x # xs)) \<le> 1 \<Longrightarrow> P x \<Longrightarrow> \<forall>y\<in>set xs. \<not> P y"
  by (simp add: filter_empty_conv)

lemma singleton_filter: "length (filter P xs) \<le> 1 \<Longrightarrow> x \<in> set xs \<Longrightarrow> P x \<Longrightarrow> filter P xs = [x]"
  by (induction xs) (auto simp: filter_empty_conv)

lemma positions_single:
  "length (positions k rs) \<le> 1 \<Longrightarrow> positions k rs \<noteq> [] \<Longrightarrow>
     filter (\<lambda>ob. event_of ob = JStr (lit k)) rs = [rs ! hd (positions k rs)]"
proof -
  assume l: "length (positions k rs) \<le> 1" and ne: "positions k rs \<noteq> []"
  have "event_of (rs ! hd (positions k rs)) = JStr (lit k)"
    using list.set_sel(1) [OF ne] by (auto simp: positions_def)
  then show ?thesis
    using l positions_hd [OF ne] unfolding positions_filter by (intro singleton_filter) auto
qed

lemma accepted_terminal:
  assumes known: "list_all (\<lambda>ob. check_known_record 0 ob = Inr ()) rs"
    and fin: "collect_terminal rs = Inr terminal"
  shows "case terminal of
      None \<Rightarrow> \<forall>ob\<in>set rs. event_of ob \<noteq> JStr (lit ''collect_finished'')
    | Some t \<Rightarrow> rs \<noteq> [] \<and> t = last rs
        \<and> filter (\<lambda>ob. event_of ob = JStr (lit ''collect_finished'')) rs = [t]
        \<and> (\<exists>e. jget t (lit ''exit_code'') = JInt e \<and> collect_exit_code terminal = Some e)
        \<and> jget t (lit ''nodes'') =
            JInt (int (length (filter (\<lambda>ob. event_of ob = JStr (lit ''node'')) rs)))"
proof (cases "positions ''collect_finished'' rs = []")
  case True
  then have "filter (\<lambda>ob. event_of ob = JStr (lit ''collect_finished'')) rs = []"
    using positions_filter [of "''collect_finished''" rs] by (metis length_0_conv)
  moreover have "terminal = None"
    using True fin by (simp add: collect_terminal_def)
  ultimately show ?thesis by (simp add: filter_empty_conv)
next
  case False
  let ?p = "hd (positions ''collect_finished'' rs)"
  have p: "length (positions ''collect_finished'' rs) \<le> 1" "?p = length rs - 1"
    "terminal = Some (rs ! ?p)" "collect_nodes terminal = Some (int (length (node_ids rs)))"
    using fin False by (auto simp: collect_terminal_def Let_def split: if_splits)
  have ne: "rs \<noteq> []" using positions_hd [OF False] by auto
  define t where "t = rs ! ?p"
  have last: "t = last rs" using p(2) ne by (simp add: t_def last_conv_nth)
  have one: "filter (\<lambda>ob. event_of ob = JStr (lit ''collect_finished'')) rs = [t]"
    using positions_single [OF p(1) False] by (simp add: t_def)
  then have "t \<in> set (filter (\<lambda>ob. event_of ob = JStr (lit ''collect_finished'')) rs)" by simp
  then have ev: "event_of t = JStr (lit ''collect_finished'')" and "t \<in> set rs"
    by (simp_all only: set_filter mem_Collect_eq)
  with known have "check_known_record 0 t = Inr ()" by (simp add: list_all_iff)
  then obtain n e where ne': "jget t (lit ''nodes'') = JInt n" "jget t (lit ''exit_code'') = JInt e"
    unfolding check_finished [OF ev] by (auto simp: jget_def)
  have tt: "terminal = Some t" using p(3) by (simp only: t_def)
  have "n = int (length (node_ids rs))"
    using p(4) ne' by (simp only: tt collect_nodes_def plain_int_def) simp
  moreover have "collect_exit_code terminal = Some e"
    using ne' by (simp only: tt collect_exit_code_def plain_int_def) simp
  ultimately show ?thesis
    using ne last one ne' unfolding tt node_ids_count [OF known] by (simp only: option.case) blast
qed

text \<open>
  A consistent listing: an accepted listing starts with its only header, at version 1; every
  node record splits its node id into its path and a name without the separator; a terminal
  record is the only one and the last, carries an integer exit status, and counts exactly the
  node records.
\<close>

theorem collect_listing_consistent:
  assumes "parse_collect_stream True s = Inr r"
  shows "\<exists>header rest. cr_records r = header # rest
     \<and> event_of header = JStr (lit ''collect'') \<and> jget header (lit ''version'') = JInt COLLECT_STREAM_VERSION
     \<and> (\<forall>ob\<in>set rest. event_of ob \<noteq> JStr (lit ''collect''))
     \<and> (\<forall>ob\<in>set rest. event_of ob = JStr (lit ''node'') \<longrightarrow>
          (\<exists>path name. jget ob (lit ''path'') = JStr path \<and> jget ob (lit ''name'') = JStr name
             \<and> jget ob (lit ''node_id'') = JStr (path @ lit ''::'' @ name) \<and> \<not> contains name (lit ''::'')))
     \<and> (case cr_terminal r of
          None \<Rightarrow> \<forall>ob\<in>set rest. event_of ob \<noteq> JStr (lit ''collect_finished'')
        | Some t \<Rightarrow> rest \<noteq> [] \<and> t = last rest
             \<and> filter (\<lambda>ob. event_of ob = JStr (lit ''collect_finished'')) rest = [t]
             \<and> (\<exists>e. jget t (lit ''exit_code'') = JInt e \<and> collect_exit_code (cr_terminal r) = Some e)
             \<and> jget t (lit ''nodes'') =
                 JInt (int (length (filter (\<lambda>ob. event_of ob = JStr (lit ''node'')) rest))))"
proof -
  let ?rs = "cr_records r"
  have acc: "accept_collect True ?rs = Inr (collect_verdict r)"
    using assms by (simp add: listing.parse_Inr)
  then have known: "list_all (\<lambda>ob. check_known_record 0 ob = Inr ()) ?rs"
    and head: "collect_header True ?rs = Inr (cr_version r)"
    and fin: "collect_terminal ?rs = Inr (cr_terminal r)"
    by (auto simp: accept_collect_def rbind_Inr check_known_all)
  from head have h: "length (positions ''collect'' ?rs) \<le> 1" "positions ''collect'' ?rs \<noteq> []"
    "hd (positions ''collect'' ?rs) = 0"
    "int_of_json (jget (?rs ! 0) (lit ''version'')) = COLLECT_STREAM_VERSION"
    by (auto simp: collect_header_def Let_def split: if_splits list.splits)
  then obtain header rest where rs: "?rs = header # rest"
    by (cases ?rs) (auto simp: positions_def)
  have ev: "event_of header = JStr (lit ''collect'')"
    using positions_zeroD [OF h(2,3)] by (simp add: rs)
  have ver: "jget header (lit ''version'') = JInt COLLECT_STREAM_VERSION"
    using known ev h(4) check_collect [OF ev] by (auto simp: rs jget_def int_of_json_def simp del: lit_Cons)
  have only: "\<forall>ob\<in>set rest. event_of ob \<noteq> JStr (lit ''collect'')"
    using filter_first [of "\<lambda>ob. event_of ob = JStr (lit ''collect'')" header rest] h(1) ev
    unfolding positions_filter rs by blast
  have nodes: "\<forall>ob\<in>set rest. event_of ob = JStr (lit ''node'') \<longrightarrow>
          (\<exists>path name. jget ob (lit ''path'') = JStr path \<and> jget ob (lit ''name'') = JStr name
             \<and> jget ob (lit ''node_id'') = JStr (path @ lit ''::'' @ name) \<and> \<not> contains name (lit ''::''))"
    using known check_node by (fastforce simp: rs list_all_iff jget_def simp del: lit_Cons)
  let ?F = "\<lambda>ob. event_of ob = JStr (lit ''collect_finished'')"
  have tm: "case cr_terminal r of
          None \<Rightarrow> \<forall>ob\<in>set rest. \<not> ?F ob
        | Some t \<Rightarrow> rest \<noteq> [] \<and> t = last rest \<and> filter ?F rest = [t]
             \<and> (\<exists>e. jget t (lit ''exit_code'') = JInt e \<and> collect_exit_code (cr_terminal r) = Some e)
             \<and> jget t (lit ''nodes'') =
                 JInt (int (length (filter (\<lambda>ob. event_of ob = JStr (lit ''node'')) rest)))"
    using accepted_terminal [OF known fin] ev lit_kinds
    by (simp add: rs last_ConsR split: option.splits if_splits)
  from rs ev ver only nodes tm show ?thesis
    by blast
qed

theorem collect_listing_consistent_witness:
  "\<exists>r. parse_collect_stream True (lines_of (map (\<lambda>ob. json_text (JObj ob)) [[(lit ''event'', JStr (lit ''collect'')), (lit ''version'', JInt 1), (lit ''generator'', JStr (lit ''m''))], [(lit ''event'', JStr (lit ''node'')), (lit ''node_id'', JStr (lit ''t::a'')), (lit ''path'', JStr (lit ''t'')), (lit ''name'', JStr (lit ''a''))], [(lit ''event'', JStr (lit ''collect_finished'')), (lit ''nodes'', JInt 1), (lit ''exit_code'', JInt 0)]])) = Inr r
     \<and> (\<exists>header rest. cr_records r = header # rest \<and> event_of header = JStr (lit ''collect''))"
proof -
  have p: "parse_collect_stream True (lines_of (map (\<lambda>ob. json_text (JObj ob)) [[(lit ''event'', JStr (lit ''collect'')), (lit ''version'', JInt 1), (lit ''generator'', JStr (lit ''m''))], [(lit ''event'', JStr (lit ''node'')), (lit ''node_id'', JStr (lit ''t::a'')), (lit ''path'', JStr (lit ''t'')), (lit ''name'', JStr (lit ''a''))], [(lit ''event'', JStr (lit ''collect_finished'')), (lit ''nodes'', JInt 1), (lit ''exit_code'', JInt 0)]])) =
    Inr \<lparr> cr_records = [[(lit ''event'', JStr (lit ''collect'')), (lit ''version'', JInt 1), (lit ''generator'', JStr (lit ''m''))], [(lit ''event'', JStr (lit ''node'')), (lit ''node_id'', JStr (lit ''t::a'')), (lit ''path'', JStr (lit ''t'')), (lit ''name'', JStr (lit ''a''))], [(lit ''event'', JStr (lit ''collect_finished'')), (lit ''nodes'', JInt 1), (lit ''exit_code'', JInt 0)]], cr_version = Some 1, cr_terminal = Some [(lit ''event'', JStr (lit ''collect_finished'')), (lit ''nodes'', JInt 1), (lit ''exit_code'', JInt 0)], cr_torn_tail = False \<rparr>"
    by code_simp
  then obtain r where r: "parse_collect_stream True (lines_of (map (\<lambda>ob. json_text (JObj ob)) [[(lit ''event'', JStr (lit ''collect'')), (lit ''version'', JInt 1), (lit ''generator'', JStr (lit ''m''))], [(lit ''event'', JStr (lit ''node'')), (lit ''node_id'', JStr (lit ''t::a'')), (lit ''path'', JStr (lit ''t'')), (lit ''name'', JStr (lit ''a''))], [(lit ''event'', JStr (lit ''collect_finished'')), (lit ''nodes'', JInt 1), (lit ''exit_code'', JInt 0)]])) = Inr r"
    by (rule that)
  from collect_listing_consistent [OF r] r show ?thesis
    by blast
qed

lemma append_longer: "a @ x = p @ y \<Longrightarrow> length a < length p \<Longrightarrow> \<exists>d. p = a @ d \<and> x = d @ y \<and> d \<noteq> []"
  by (auto simp: append_eq_append_conv2)

text \<open>
  An accepted node whose name does not begin with a colon is split
  at the last separator of its node id; no other way to cut the id at a separator leaves a
  longer path.
\<close>

theorem node_split_last:
  assumes "check_known_record i ob = Inr ()" and "event_of ob = JStr (lit ''node'')"
    and "jget ob (lit ''path'') = JStr path" and "jget ob (lit ''name'') = JStr name"
    and "\<not> startswith name (lit '':'')"
    and "jget ob (lit ''node_id'') = JStr (p @ lit ''::'' @ q)"
  shows "length p \<le> length path"
proof (rule ccontr)
  assume "\<not> length p \<le> length path"
  then have long: "length path < length p" by simp
  have eq: "path @ lit ''::'' @ name = p @ lit ''::'' @ q" and no: "\<not> contains name (lit ''::'')"
    using assms(1,3,4,6) unfolding check_node [OF assms(2)] by (auto simp: jget_def simp del: lit_Cons)
  from append_longer [OF eq long]
  obtain d where d: "p = path @ d" "lit ''::'' @ name = d @ lit ''::'' @ q" "d \<noteq> []"
    by blast
  then obtain d' where d': "d = 58 # d'" "lit '':'' @ name = d' @ lit ''::'' @ q"
    by (cases d) auto
  show False
  proof (cases d')
    case Nil
    with d' assms(5) show False by auto
  next
    case (Cons x d'')
    with d'(2) have "name = d'' @ lit ''::'' @ q" by simp
    with no show False by (auto simp: contains_iff)
  qed
qed

theorem node_split_last_witness:
  "length (lit ''t'') \<le> length (lit ''t::u'')"
proof (rule node_split_last)
  let ?ob = "[(lit ''event'', JStr (lit ''node'')), (lit ''node_id'', JStr (lit ''t::u::a'')),
     (lit ''path'', JStr (lit ''t::u'')), (lit ''name'', JStr (lit ''a''))]"
  show "check_known_record 0 ?ob = Inr ()" by code_simp
  show "event_of ?ob = JStr (lit ''node'')" by code_simp
  show "jget ?ob (lit ''path'') = JStr (lit ''t::u'')" by code_simp
  show "jget ?ob (lit ''name'') = JStr (lit ''a'')" by code_simp
  show "\<not> startswith (lit ''a'') (lit '':'')" by code_simp
  show "jget ?ob (lit ''node_id'') = JStr (lit ''t'' @ lit ''::'' @ lit ''u::a'')" by code_simp
qed

text \<open>
  Where the separator is one of three colons in a row, both
  the split at the first and the split at the last pair of colons are accepted.
\<close>

theorem collect_accepts_two_splits:
  "\<exists>ob ob'. check_known_record 0 ob = Inr () \<and> check_known_record 0 ob' = Inr ()
     \<and> event_of ob = JStr (lit ''node'') \<and> event_of ob' = JStr (lit ''node'')
     \<and> jget ob (lit ''node_id'') = jget ob' (lit ''node_id'')
     \<and> jget ob (lit ''path'') \<noteq> jget ob' (lit ''path'')"
proof -
  let ?ob = "[(lit ''event'', JStr (lit ''node'')), (lit ''node_id'', JStr (lit ''a:::b'')),
     (lit ''path'', JStr (lit ''a'')), (lit ''name'', JStr (lit '':b''))]"
  let ?ob' = "[(lit ''event'', JStr (lit ''node'')), (lit ''node_id'', JStr (lit ''a:::b'')),
     (lit ''path'', JStr (lit ''a:'')), (lit ''name'', JStr (lit ''b''))]"
  have "check_known_record 0 ?ob = Inr ()" "check_known_record 0 ?ob' = Inr ()"
    "event_of ?ob = JStr (lit ''node'')" "event_of ?ob' = JStr (lit ''node'')"
    "jget ?ob (lit ''node_id'') = jget ?ob' (lit ''node_id'')"
    "jget ?ob (lit ''path'') \<noteq> jget ?ob' (lit ''path'')"
    by code_simp+
  then show ?thesis by blast
qed

text \<open>
  A killed listing: an accepted listing cut at any place after its header line is accepted
  too, with the records of its complete lines; unless its terminal line is complete it has no
  terminal record.
\<close>

theorem cut_listing_is_torn:
  assumes "parse_collect_stream h (a @ b) = Inr r" and "10 \<in> set a \<or> \<not> h"
  shows "\<exists>r'. parse_collect_stream h a = Inr r'
     \<and> cr_records r' = take (length (split_on 10 a) - 1) (cr_records r)
     \<and> (cr_terminal r' = None \<or> cr_terminal r' = cr_terminal r)
     \<and> (cr_torn_tail r' \<longleftrightarrow> a \<noteq> [] \<and> last a \<noteq> 10)"
  using listing.cut_stream [OF assms] last_split_ne [of 10 a] by (auto simp: verdict_le_def)

theorem cut_listing_is_torn_witness:
  "\<exists>r'. parse_collect_stream True (lines_of (map (\<lambda>ob. json_text (JObj ob)) [[(lit ''event'', JStr (lit ''collect'')), (lit ''version'', JInt 1), (lit ''generator'', JStr (lit ''m''))]])) = Inr r'
     \<and> \<not> cr_torn_tail r'"
proof -
  have p: "parse_collect_stream True (lines_of (map (\<lambda>ob. json_text (JObj ob)) [[(lit ''event'', JStr (lit ''collect'')), (lit ''version'', JInt 1), (lit ''generator'', JStr (lit ''m''))]])
      @ lines_of (map (\<lambda>ob. json_text (JObj ob)) [[(lit ''event'', JStr (lit ''node'')), (lit ''node_id'', JStr (lit ''t::a'')), (lit ''path'', JStr (lit ''t'')), (lit ''name'', JStr (lit ''a''))], [(lit ''event'', JStr (lit ''collect_finished'')), (lit ''nodes'', JInt 1), (lit ''exit_code'', JInt 0)]])) =
    Inr \<lparr> cr_records = [[(lit ''event'', JStr (lit ''collect'')), (lit ''version'', JInt 1), (lit ''generator'', JStr (lit ''m''))], [(lit ''event'', JStr (lit ''node'')), (lit ''node_id'', JStr (lit ''t::a'')), (lit ''path'', JStr (lit ''t'')), (lit ''name'', JStr (lit ''a''))], [(lit ''event'', JStr (lit ''collect_finished'')), (lit ''nodes'', JInt 1), (lit ''exit_code'', JInt 0)]], cr_version = Some 1, cr_terminal = Some [(lit ''event'', JStr (lit ''collect_finished'')), (lit ''nodes'', JInt 1), (lit ''exit_code'', JInt 0)], cr_torn_tail = False \<rparr>"
    by code_simp
  have h: "10 \<in> set (lines_of (map (\<lambda>ob. json_text (JObj ob)) [[(lit ''event'', JStr (lit ''collect'')), (lit ''version'', JInt 1), (lit ''generator'', JStr (lit ''m''))]])) \<or> \<not> True"
    by (simp add: lines_of_def)
  show ?thesis
    by (rule exE [OF cut_listing_is_torn [OF p h]], rule exI, (erule conjE)+, intro conjI, assumption)
      (simp add: lines_of_def)
qed

end
