(* ===== verification/Regex.thy ===== *)
theory Regex
  imports Prelude
begin

text \<open>
  Python's backtracking regular expressions, for the patterns the modelled code compiles: character
  classes, concatenation, alternation, greedy and lazy repetition, groups, the line anchors of
  \<open>re.MULTILINE\<close>, lookahead and conditions on the character before.  A matcher lists the ways to match in the order the engine tries
  them; the match is the first.  \<open>re_find_all\<close> is \<open>finditer\<close> and \<open>re_remove\<close> is \<open>sub\<close>
  with the empty replacement.
\<close>

section \<open>Digits of any script\<close>

text \<open>The zeros of the decimal digits of Unicode 15, which \<open>\\d\<close> and \<open>int\<close> accept.\<close>

definition digit_zeros :: "int list" where
  "digit_zeros =
     [48, 1632, 1776, 1984, 2406, 2534, 2662, 2790, 2918, 3046, 3174, 3302, 3430, 3558, 3664,
      3792, 3872, 4160, 4240, 6112, 6160, 6470, 6608, 6784, 6800, 6992, 7088, 7232, 7248, 42528,
      43216, 43264, 43472, 43504, 43600, 44016, 65296, 66720, 68912, 69734, 69872, 69942, 70096,
      70384, 70736, 70864, 71248, 71360, 71472, 71904, 72016, 72784, 73040, 73120, 73552, 92768,
      92864, 93008, 120782, 120792, 120802, 120812, 120822, 123200, 123632, 124144, 125264,
      130032]"

definition digit_of :: "int \<Rightarrow> int option" where
  "digit_of c = (case List.find (\<lambda>z. z \<le> c \<and> c \<le> z + 9) digit_zeros of
     None \<Rightarrow> None | Some z \<Rightarrow> Some (c - z))"

definition is_digit :: "int \<Rightarrow> bool" where
  "is_digit c \<longleftrightarrow> digit_of c \<noteq> None"

text \<open>\<open>int(s)\<close> on a run of digits that is within the digit limit.\<close>

definition int_of_digits :: "str \<Rightarrow> int" where
  "int_of_digits s = foldl (\<lambda>n c. n * 10 + (case digit_of c of None \<Rightarrow> 0 | Some d \<Rightarrow> d)) 0 s"

section \<open>Patterns\<close>

datatype re =
    Eps
  | Chr "int \<Rightarrow> bool"
  | Seq re re
  | Alt re re
  | Rep bool re
  | Grp nat re
  | Bol
  | Look re
  | NotLook re
  | Before "int option \<Rightarrow> bool"
  | AtEnd

text \<open>
  A position: the character before it, the text from it on, and the groups captured so far.
\<close>

record re_state =
  st_prev :: "int option"
  st_rest :: str
  st_caps :: "(nat, str) dict"

text \<open>Up to \<open>n\<close> further rounds of a repetition; a round that consumes nothing ends it.\<close>

fun rounds :: "nat \<Rightarrow> bool \<Rightarrow> (re_state \<Rightarrow> re_state list) \<Rightarrow> re_state \<Rightarrow> re_state list" where
  "rounds 0 greedy f st = [st]"
| "rounds (Suc n) greedy f st =
     (let more = concat (map (rounds n greedy f)
                   (filter (\<lambda>st'. length (st_rest st') < length (st_rest st)) (f st)))
      in if greedy then more @ [st] else st # more)"

primrec ways :: "re \<Rightarrow> re_state \<Rightarrow> re_state list" where
  "ways Eps st = [st]"
| "ways (Chr p) st =
     (case st_rest st of
        [] \<Rightarrow> []
      | c # r \<Rightarrow> if p c then [st \<lparr> st_prev := Some c, st_rest := r \<rparr>] else [])"
| "ways (Seq a b) st = concat (map (ways b) (ways a st))"
| "ways (Alt a b) st = ways a st @ ways b st"
| "ways (Rep greedy a) st = rounds (length (st_rest st)) greedy (ways a) st"
| "ways (Grp n a) st =
     map (\<lambda>st'. st' \<lparr> st_caps := dict_set n
            (take (length (st_rest st) - length (st_rest st')) (st_rest st)) (st_caps st') \<rparr>) (ways a st)"
| "ways Bol st = (if st_prev st = None \<or> st_prev st = Some 10 then [st] else [])"
| "ways (Look a) st = (if ways a st = [] then [] else [st])"
| "ways (NotLook a) st = (if ways a st = [] then [st] else [])"
| "ways (Before p) st = (if p (st_prev st) then [st] else [])"
| "ways AtEnd st = (if st_rest st = [] \<or> hd (st_rest st) = 10 then [st] else [])"

section \<open>Searching\<close>

text \<open>A match: what it consumed and its groups.\<close>

type_synonym re_match = "(nat, str) dict"

definition re_match_at :: "re \<Rightarrow> int option \<Rightarrow> str \<Rightarrow> re_state option" where
  "re_match_at r prev s =
     (case ways r \<lparr> st_prev = prev, st_rest = s, st_caps = [] \<rparr> of [] \<Rightarrow> None | st # _ \<Rightarrow> Some st)"

text \<open>
  The non-overlapping matches from the left.  No modelled pattern matches the empty text; the
  search stops at one.
\<close>

fun find_all :: "nat \<Rightarrow> re \<Rightarrow> int option \<Rightarrow> str \<Rightarrow> re_match list" where
  "find_all 0 r prev s = []"
| "find_all (Suc n) r prev s =
     (case re_match_at r prev s of
        Some st \<Rightarrow> st_caps st #
          (if length (st_rest st) < length s then find_all n r (st_prev st) (st_rest st) else [])
      | None \<Rightarrow> (case s of [] \<Rightarrow> [] | c # s' \<Rightarrow> find_all n r (Some c) s'))"

definition re_find_all :: "re \<Rightarrow> str \<Rightarrow> re_match list" where
  "re_find_all r s = find_all (Suc (length s)) r None s"

fun remove_all :: "nat \<Rightarrow> re \<Rightarrow> int option \<Rightarrow> str \<Rightarrow> str" where
  "remove_all 0 r prev s = s"
| "remove_all (Suc n) r prev s =
     (case re_match_at r prev s of
        Some st \<Rightarrow> if length (st_rest st) < length s then remove_all n r (st_prev st) (st_rest st) else s
      | None \<Rightarrow> (case s of [] \<Rightarrow> [] | c # s' \<Rightarrow> c # remove_all n r (Some c) s'))"

definition re_remove :: "re \<Rightarrow> str \<Rightarrow> str" where
  "re_remove r s = remove_all (Suc (length s)) r None s"

text \<open>The matches with their spans, as \<open>finditer\<close> gives them.\<close>

fun find_iter :: "nat \<Rightarrow> re \<Rightarrow> nat \<Rightarrow> int option \<Rightarrow> str \<Rightarrow> (nat \<times> nat \<times> re_match) list" where
  "find_iter 0 r pos prev s = []"
| "find_iter (Suc n) r pos prev s =
     (case re_match_at r prev s of
        Some st \<Rightarrow>
          let stop = pos + (length s - length (st_rest st))
          in (pos, stop, st_caps st) #
             (if length (st_rest st) < length s then find_iter n r stop (st_prev st) (st_rest st) else [])
      | None \<Rightarrow> (case s of [] \<Rightarrow> [] | c # s' \<Rightarrow> find_iter n r (Suc pos) (Some c) s'))"

definition re_find_iter :: "re \<Rightarrow> str \<Rightarrow> (nat \<times> nat \<times> re_match) list" where
  "re_find_iter r s = find_iter (Suc (length s)) r 0 None s"

text \<open>\<open>match.group(n)\<close>; a group that took no part is \<open>None\<close>.\<close>

abbreviation group :: "re_match \<Rightarrow> nat \<Rightarrow> str option" where
  "group m n \<equiv> map_of m n"

definition group_text :: "re_match \<Rightarrow> nat \<Rightarrow> str" where
  "group_text m n = (case map_of m n of None \<Rightarrow> [] | Some s \<Rightarrow> s)"

section \<open>Building patterns\<close>

fun re_seq :: "re list \<Rightarrow> re" where
  "re_seq [] = Eps"
| "re_seq [r] = r"
| "re_seq (r # rs) = Seq r (re_seq rs)"

fun re_alt :: "re list \<Rightarrow> re" where
  "re_alt [] = Chr (\<lambda>_. False)"
| "re_alt [r] = r"
| "re_alt (r # rs) = Alt r (re_alt rs)"

definition re_lit :: "string \<Rightarrow> re" where
  "re_lit s = re_seq (map (\<lambda>c. Chr (\<lambda>x. x = c)) (lit s))"

abbreviation re_star :: "re \<Rightarrow> re" where "re_star \<equiv> Rep True"
abbreviation re_lazy :: "re \<Rightarrow> re" where "re_lazy \<equiv> Rep False"

definition re_plus :: "re \<Rightarrow> re" where "re_plus r = Seq r (re_star r)"
definition re_opt :: "re \<Rightarrow> re" where "re_opt r = Alt r Eps"

abbreviation re_spaces :: re where "re_spaces \<equiv> re_plus (Chr is_space)"
abbreviation re_digits :: re where "re_digits \<equiv> re_plus (Chr is_digit)"

text \<open>
  \<open>\\w\<close> depends on the character database, so the word characters are an argument; \<open>ascii_word\<close> are those
  of ASCII.  \<open>\\b\<close> is a place with a word character on exactly one side.
\<close>

definition ascii_word :: "int \<Rightarrow> bool" where
  "ascii_word c \<longleftrightarrow> is_ascii_alnum c \<or> c = 95"

definition re_boundary :: "(int \<Rightarrow> bool) \<Rightarrow> re" where
  "re_boundary word =
     Alt (Seq (Before (\<lambda>p. case p of None \<Rightarrow> False | Some c \<Rightarrow> word c)) (NotLook (Chr word)))
         (Seq (Before (\<lambda>p. case p of None \<Rightarrow> True | Some c \<Rightarrow> \<not> word c)) (Look (Chr word)))"

text \<open>\<open>search\<close> as a yes or no, and \<open>match\<close> at the start of a line.\<close>

definition re_search :: "re \<Rightarrow> str \<Rightarrow> bool" where
  "re_search r s \<longleftrightarrow> re_find_iter r s \<noteq> []"

definition re_matches :: "re \<Rightarrow> str \<Rightarrow> bool" where
  "re_matches r s \<longleftrightarrow> re_match_at r None s \<noteq> None"

text \<open>\<open>findall\<close> of a pattern with one group, and \<open>fullmatch\<close>.\<close>

definition re_findall :: "re \<Rightarrow> str \<Rightarrow> str list" where
  "re_findall r s = map (\<lambda>m. group_text m 1) (re_find_all r s)"

definition re_fullmatch :: "re \<Rightarrow> str \<Rightarrow> re_match option" where
  "re_fullmatch r s =
     (case filter (\<lambda>st. st_rest st = []) (ways r \<lparr> st_prev = None, st_rest = s, st_caps = [] \<rparr>) of
        [] \<Rightarrow> None | st # _ \<Rightarrow> Some (st_caps st))"

section \<open>The language of a pattern\<close>

text \<open>
  The states a pattern can lead to, without an order and without a bound on the rounds of a repetition:
  what the engine enumerates is exactly this.
\<close>

definition shorter :: "(re_state \<Rightarrow> re_state set) \<Rightarrow> (re_state \<times> re_state) set" where
  "shorter f = {(st, st'). st' \<in> f st \<and> length (st_rest st') < length (st_rest st)}"

primrec leads_to :: "re \<Rightarrow> re_state \<Rightarrow> re_state set" where
  "leads_to Eps st = {st}"
| "leads_to (Chr p) st = {st \<lparr> st_prev := Some c, st_rest := r \<rparr> | c r. st_rest st = c # r \<and> p c}"
| "leads_to (Seq a b) st = (\<Union>st'\<in>leads_to a st. leads_to b st')"
| "leads_to (Alt a b) st = leads_to a st \<union> leads_to b st"
| "leads_to (Rep greedy a) st = (shorter (leads_to a))\<^sup>* `` {st}"
| "leads_to (Grp n a) st =
     (\<lambda>st'. st' \<lparr> st_caps := dict_set n
        (take (length (st_rest st) - length (st_rest st')) (st_rest st)) (st_caps st') \<rparr>) ` leads_to a st"
| "leads_to Bol st = {s. s = st \<and> (st_prev st = None \<or> st_prev st = Some 10)}"
| "leads_to (Look a) st = {s. s = st \<and> leads_to a st \<noteq> {}}"
| "leads_to (NotLook a) st = {s. s = st \<and> leads_to a st = {}}"
| "leads_to (Before p) st = {s. s = st \<and> p (st_prev st)}"
| "leads_to AtEnd st = {s. s = st \<and> (st_rest st = [] \<or> hd (st_rest st) = 10)}"

lemma rounds_leads_to:
  assumes "\<And>s. set (f s) = g s"
  shows "length (st_rest st) \<le> n \<Longrightarrow> set (rounds n greedy f st) = (shorter g)\<^sup>* `` {st}"
proof (induction n arbitrary: st)
  case 0
  have "st' = st" if "(st, st') \<in> (shorter g)\<^sup>*" for st'
    using that 0 by (cases rule: converse_rtranclE) (auto simp: shorter_def)
  then show ?case by auto
next
  case (Suc n)
  have "(shorter g)\<^sup>* `` {st} = insert st (\<Union>st'\<in>{s. (st, s) \<in> shorter g}. (shorter g)\<^sup>* `` {st'})"
    by (auto elim: converse_rtranclE intro: converse_rtrancl_into_rtrancl)
  moreover have "set (rounds n greedy f s) = (shorter g)\<^sup>* `` {s}" if "(st, s) \<in> shorter g" for s
    using that Suc by (auto simp: shorter_def)
  moreover have "set (filter (\<lambda>s. length (st_rest s) < length (st_rest st)) (f st)) = {s. (st, s) \<in> shorter g}"
    using assms by (auto simp: shorter_def)
  ultimately show ?case by (auto simp: Let_def)
qed

lemma ways_leads_to: "set (ways r st) = leads_to r st"
proof (induction r arbitrary: st)
  case (Chr p)
  show ?case by (cases "st_rest st") auto
next
  case (Rep greedy r)
  then show ?case using rounds_leads_to [of "ways r" "leads_to r" st] by simp
next
  case (Look r)
  then show ?case by (auto simp flip: set_empty)
next
  case (NotLook r)
  then show ?case by (auto simp flip: set_empty)
qed auto

text \<open>What a pattern of literal characters and character runs consumes.\<close>

definition eaten :: "re_state \<Rightarrow> str \<Rightarrow> re_state" where
  "eaten st u = st \<lparr> st_prev := (if u = [] then st_prev st else Some (last u)), st_rest := drop (length u) (st_rest st) \<rparr>"

lemma eaten_simps [simp]:
  "st_rest (eaten st u) = drop (length u) (st_rest st)" "st_caps (eaten st u) = st_caps st" "eaten st [] = st"
  by (simp_all add: eaten_def)

lemma eaten_append: "eaten (eaten st u) v = eaten st (u @ v)"
  by (simp add: eaten_def add.commute)

definition consumes :: "re \<Rightarrow> str set \<Rightarrow> bool" where
  "consumes r L \<longleftrightarrow> (\<forall>st. leads_to r st = {eaten st u | u. u \<in> L \<and> (\<exists>v. st_rest st = u @ v)})"

lemma consumes_Eps: "consumes Eps {[]}"
  by (simp add: consumes_def)

lemma leads_to_Chr:
  "leads_to (Chr p) st = (case st_rest st of [] \<Rightarrow> {} | c # r \<Rightarrow> if p c then {eaten st [c]} else {})"
  by (cases "st_rest st") (simp_all add: eaten_def)

lemma consumes_Chr: "consumes (Chr p) {[c] | c. p c}"
  unfolding consumes_def
proof
  fix st
  show "leads_to (Chr p) st = {eaten st u | u. u \<in> {[c] | c. p c} \<and> (\<exists>v. st_rest st = u @ v)}"
  proof (cases "st_rest st")
    case (Cons c r)
    then have "u \<in> {[c] | c. p c} \<and> (\<exists>v. st_rest st = u @ v) \<longleftrightarrow> u = [c] \<and> p c" for u by auto
    then show ?thesis using Cons by (simp only: leads_to_Chr) auto
  qed (auto simp: leads_to_Chr)
qed

lemma consumes_Seq:
  assumes "consumes a L" "consumes b M"
  shows "consumes (Seq a b) {u @ v | u v. u \<in> L \<and> v \<in> M}"
  unfolding consumes_def
proof
  fix st
  have a: "leads_to a st = {eaten st u | u. u \<in> L \<and> (\<exists>v. st_rest st = u @ v)}"
    using assms(1) by (simp add: consumes_def)
  have b: "leads_to b st' = {eaten st' u | u. u \<in> M \<and> (\<exists>v. st_rest st' = u @ v)}" for st'
    using assms(2) by (simp add: consumes_def)
  show "leads_to (Seq a b) st = {eaten st u | u. u \<in> {u @ v | u v. u \<in> L \<and> v \<in> M} \<and> (\<exists>v. st_rest st = u @ v)}"
    (is "?l = ?r")
  proof (intro equalityI subsetI)
    fix x
    assume "x \<in> ?l"
    then obtain u v w w' where "u \<in> L" "st_rest st = u @ v" "w \<in> M" "drop (length u) (st_rest st) = w @ w'"
        "x = eaten (eaten st u) w"
      by (auto simp: a b)
    then have "x = eaten st (u @ w)" "u @ w \<in> {u @ v | u v. u \<in> L \<and> v \<in> M}" "st_rest st = (u @ w) @ w'"
      by (auto simp: eaten_append)
    then show "x \<in> ?r" by blast
  next
    fix x
    assume "x \<in> ?r"
    then obtain u v w where x: "u \<in> L" "v \<in> M" "st_rest st = (u @ v) @ w" "x = eaten st (u @ v)" by auto
    then have "eaten st u \<in> leads_to a st" "x \<in> leads_to b (eaten st u)"
      by (auto simp: a b eaten_append)
    then show "x \<in> ?l" by auto
  qed
qed

lemma consumes_Alt: "consumes a L \<Longrightarrow> consumes b M \<Longrightarrow> consumes (Alt a b) (L \<union> M)"
  by (auto simp: consumes_def)

lemma consumes_star_Chr: "consumes (Rep greedy (Chr p)) {u. list_all p u}"
  unfolding consumes_def
proof
  fix st
  let ?R = "shorter (leads_to (Chr p))"
  have one: "(s, s') \<in> ?R \<longleftrightarrow> (\<exists>c r. st_rest s = c # r \<and> p c \<and> s' = eaten s [c])" for s s'
    by (cases "st_rest s") (auto simp: shorter_def eaten_def)
  have reach: "st' \<in> {eaten st u | u. list_all p u \<and> (\<exists>v. st_rest st = u @ v)}" if "(st, st') \<in> ?R\<^sup>*" for st'
    using that
  proof (induction rule: rtrancl_induct)
    case base
    have "st = eaten st [] \<and> list_all p [] \<and> st_rest st = [] @ st_rest st" by simp
    then show ?case by blast
  next
    case (step s s')
    then obtain u v c r where "s = eaten st u" "list_all p u" "st_rest st = u @ v" "st_rest s = c # r" "p c" "s' = eaten s [c]"
      by (auto simp: one)
    then have "s' = eaten st (u @ [c]) \<and> list_all p (u @ [c]) \<and> st_rest st = (u @ [c]) @ r"
      by (auto simp: eaten_append)
    then show ?case by blast
  qed
  have away: "(s, eaten s u) \<in> ?R\<^sup>*" if "list_all p u" "st_rest s = u @ v" for s u v
    using that
  proof (induction u arbitrary: s)
    case (Cons c u)
    then have "(s, eaten s [c]) \<in> ?R" by (simp add: one)
    moreover have "(eaten s [c], eaten (eaten s [c]) u) \<in> ?R\<^sup>*"
      by (rule Cons.IH) (use Cons.prems in simp_all)
    ultimately have "(s, eaten (eaten s [c]) u) \<in> ?R\<^sup>*" by (rule converse_rtrancl_into_rtrancl)
    then show ?case by (simp only: eaten_append append.simps)
  qed simp
  show "leads_to (Rep greedy (Chr p)) st = {eaten st u | u. u \<in> {u. list_all p u} \<and> (\<exists>v. st_rest st = u @ v)}"
    using reach away by auto
qed

lemma consumes_plus_Chr: "consumes (re_plus (Chr p)) {u. u \<noteq> [] \<and> list_all p u}"
proof -
  have "{u @ v | u v. u \<in> {[c] | c. p c} \<and> v \<in> {u. list_all p u}} = {u. u \<noteq> [] \<and> list_all p u}" (is "?l = ?r")
  proof (intro equalityI subsetI)
    fix u
    assume "u \<in> ?r"
    then obtain c v where "u = [c] @ v" "p c" "list_all p v" by (cases u) auto
    then show "u \<in> ?l" by blast
  qed auto
  with consumes_Seq [OF consumes_Chr consumes_star_Chr, of p True p] show ?thesis by (simp add: re_plus_def)
qed

lemma consumes_lit: "consumes (re_lit s) {lit s}"
proof (induction s)
  case Nil
  then show ?case using consumes_Eps by (simp add: re_lit_def)
next
  case (Cons c s)
  have "{[x] | x. x = of_char c} = {[of_char c :: int]}" by auto
  then have head: "consumes (Chr (\<lambda>x. x = of_char c)) {[of_char c]}" using consumes_Chr [of "\<lambda>x. x = of_char c"] by simp
  show ?case
  proof (cases s)
    case Nil
    then show ?thesis using head by (simp add: re_lit_def)
  next
    case (Cons d s')
    then have "re_lit (c # s) = Seq (Chr (\<lambda>x. x = of_char c)) (re_lit s)" by (simp add: re_lit_def)
    moreover have "{u @ v | u v. u \<in> {[of_char c]} \<and> v \<in> {lit s}} = {lit (c # s)}" by simp
    ultimately show ?thesis using consumes_Seq [OF head Cons.IH] by simp
  qed
qed

lemma leads_to_consumes:
  "consumes r L \<Longrightarrow> x \<in> leads_to r st \<longleftrightarrow> (\<exists>u v. u \<in> L \<and> st_rest st = u @ v \<and> x = eaten st u)"
  by (auto simp: consumes_def)

lemma leads_to_group:
  assumes "consumes r L"
  shows "x \<in> leads_to (Grp n r) st \<longleftrightarrow>
    (\<exists>u v. u \<in> L \<and> st_rest st = u @ v \<and> x = (eaten st u) \<lparr> st_caps := dict_set n u (st_caps st) \<rparr>)"
proof -
  define caught :: "re_state \<Rightarrow> re_state" where "caught st' = st' \<lparr> st_caps := dict_set n
      (take (length (st_rest st) - length (st_rest st')) (st_rest st)) (st_caps st') \<rparr>" for st'
  have caught: "caught (eaten st u) = (eaten st u) \<lparr> st_caps := dict_set n u (st_caps st) \<rparr>" if "st_rest st = u @ v" for u v
    using that by (simp add: caught_def)
  have "x \<in> leads_to (Grp n r) st \<longleftrightarrow> (\<exists>u v. u \<in> L \<and> st_rest st = u @ v \<and> x = caught (eaten st u))"
  proof -
    have "x \<in> leads_to (Grp n r) st \<longleftrightarrow> (\<exists>st'\<in>leads_to r st. x = caught st')" by (auto simp: caught_def)
    moreover have "leads_to r st = {eaten st u | u. u \<in> L \<and> (\<exists>v. st_rest st = u @ v)}"
      using assms by (simp add: consumes_def)
    ultimately show ?thesis by (simp only:) blast
  qed
  then show ?thesis using caught by metis
qed

lemma re_fullmatch_None:
  "re_fullmatch r s = None \<longleftrightarrow> (\<forall>st\<in>leads_to r \<lparr> st_prev = None, st_rest = s, st_caps = [] \<rparr>. st_rest st \<noteq> [])"
proof -
  let ?f = "filter (\<lambda>st. st_rest st = []) (ways r \<lparr> st_prev = None, st_rest = s, st_caps = [] \<rparr>)"
  have "re_fullmatch r s = None \<longleftrightarrow> ?f = []" by (cases ?f) (simp_all add: re_fullmatch_def)
  then show ?thesis by (simp add: filter_empty_conv ways_leads_to)
qed

lemma re_fullmatch_Some:
  assumes "re_fullmatch r s = Some m"
  obtains st where "st \<in> leads_to r \<lparr> st_prev = None, st_rest = s, st_caps = [] \<rparr>" "st_rest st = []" "st_caps st = m"
proof -
  let ?w = "ways r \<lparr> st_prev = None, st_rest = s, st_caps = [] \<rparr>"
  obtain st rest where f: "filter (\<lambda>st. st_rest st = []) ?w = st # rest" "st_caps st = m"
    using assms by (auto simp: re_fullmatch_def split: list.splits)
  have "st \<in> set (filter (\<lambda>st. st_rest st = []) ?w)" by (simp only: f(1) list.set_intros)
  then have "st \<in> leads_to r \<lparr> st_prev = None, st_rest = s, st_caps = [] \<rparr>" "st_rest st = []"
    by (simp_all add: ways_leads_to)
  then show thesis using f(2) by (rule that)
qed

lemma re_match_at_leads:
  "re_match_at r prev s = Some st \<Longrightarrow> st \<in> leads_to r \<lparr> st_prev = prev, st_rest = s, st_caps = [] \<rparr>"
  unfolding ways_leads_to [symmetric] re_match_at_def by (auto split: list.splits)

lemma re_match_at_None:
  "re_match_at r prev s = None \<longleftrightarrow> leads_to r \<lparr> st_prev = prev, st_rest = s, st_caps = [] \<rparr> = {}"
  unfolding ways_leads_to [symmetric] re_match_at_def by (simp split: list.split)

text \<open>Walking along a concatenation, piece by piece.\<close>

lemma seq_eats:
  assumes "x \<in> leads_to (Seq r rest) st" "consumes r L"
  obtains u st' where "u \<in> L" "st_rest st = u @ st_rest st'" "st_caps st' = st_caps st" "x \<in> leads_to rest st'"
proof -
  obtain u v where "u \<in> L" "st_rest st = u @ v" "x \<in> leads_to rest (eaten st u)"
    using assms leads_to_consumes [OF assms(2)] by auto
  then show thesis using that [of u "eaten st u"] by simp
qed

lemma seq_catches:
  assumes "x \<in> leads_to (Seq (Grp n r) rest) st" "consumes r L"
  obtains u st' where "u \<in> L" "st_rest st = u @ st_rest st'" "st_caps st' = dict_set n u (st_caps st)" "x \<in> leads_to rest st'"
proof -
  obtain st' where s: "st' \<in> leads_to (Grp n r) st" "x \<in> leads_to rest st'" using assms(1) by (auto simp del: leads_to.simps(6))
  then obtain u v where "u \<in> L" "st_rest st = u @ v" "st' = (eaten st u) \<lparr> st_caps := dict_set n u (st_caps st) \<rparr>"
    using leads_to_group [OF assms(2)] by auto
  then show thesis using that [of u st'] s(2) by simp
qed

lemma eats_along:
  "consumes r L \<Longrightarrow> u \<in> L \<Longrightarrow> st_rest st = u @ v \<Longrightarrow> leads_to rest (eaten st u) \<noteq> {} \<Longrightarrow> leads_to (Seq r rest) st \<noteq> {}"
  using leads_to_consumes by fastforce

section \<open>Where matches are found\<close>

text \<open>
  Whatever a pattern is, it consumes a stretch of the text, and the character before the place it leads to is
  the last one consumed.
\<close>

definition char_before :: "int option \<Rightarrow> str \<Rightarrow> int option" where
  "char_before prev p = (if p = [] then prev else Some (last p))"

lemma char_before_simps [simp]: "char_before prev [] = prev" "char_before prev [c] = Some c"
  by (simp_all add: char_before_def)

lemma char_before_append: "char_before (char_before prev p) q = char_before prev (p @ q)"
  by (simp add: char_before_def)

lemma leads_to_moves:
  "st' \<in> leads_to r st \<Longrightarrow> \<exists>u. st_rest st = u @ st_rest st' \<and> st_prev st' = char_before (st_prev st) u"
proof (induction r arbitrary: st st')
  case (Seq a b)
  then obtain s where s: "s \<in> leads_to a st" "st' \<in> leads_to b s" by auto
  obtain u v where "st_rest st = u @ st_rest s" "st_prev s = char_before (st_prev st) u"
    "st_rest s = v @ st_rest st'" "st_prev st' = char_before (st_prev s) v"
    using Seq.IH(1) [OF s(1)] Seq.IH(2) [OF s(2)] by blast
  then show ?case by (intro exI [of _ "u @ v"]) (simp add: char_before_append)
next
  case (Rep greedy a)
  then have "(st, st') \<in> (shorter (leads_to a))\<^sup>*" by simp
  then show ?case
  proof (induction rule: rtrancl_induct)
    case (step s t)
    then obtain u where "st_rest st = u @ st_rest s" "st_prev s = char_before (st_prev st) u" by blast
    moreover obtain v where "st_rest s = v @ st_rest t" "st_prev t = char_before (st_prev s) v"
      using Rep.IH [of t s] step(2) by (auto simp: shorter_def)
    ultimately show ?case by (intro exI [of _ "u @ v"]) (simp add: char_before_append)
  qed (intro exI [of _ "[]"], simp)
next
  case (Chr p)
  then obtain c where "st_rest st = [c] @ st_rest st'" "st_prev st' = Some c" by auto
  then show ?case by (intro exI [of _ "[c]"]) simp
next
  case (Grp n a)
  then obtain s where s: "s \<in> leads_to a st" "st_rest st' = st_rest s" "st_prev st' = st_prev s" by auto
  show ?case using Grp.IH [OF s(1)] s(2,3) by simp
next
  case (Alt a b)
  then consider "st' \<in> leads_to a st" | "st' \<in> leads_to b st" by auto
  then show ?case using Alt.IH by cases blast+
qed (auto intro: exI [of _ "[]"])

text \<open>A match \<open>finditer\<close> finds is a match at some place, after the character that stands there.\<close>

lemma find_all_places:
  "m \<in> set (find_all n r prev s) \<Longrightarrow>
   \<exists>p rest st. s = p @ rest \<and> re_match_at r (char_before prev p) rest = Some st \<and> m = st_caps st"
proof (induction n r prev s rule: find_all.induct)
  case (2 n r prev s)
  show ?case
  proof (cases "re_match_at r prev s")
    case None
    then obtain c s' where s: "s = c # s'" "m \<in> set (find_all n r (Some c) s')"
      using "2.prems" by (auto split: list.splits)
    then obtain p rest st where "s' = p @ rest" "re_match_at r (char_before (Some c) p) rest = Some st" "m = st_caps st"
      using "2.IH"(1) [OF None s(1)] by blast
    then show ?thesis using s(1) char_before_append [of prev "[c]" p]
      by (intro exI [of _ "c # p"] exI [of _ rest] exI [of _ st]) simp
  next
    case (Some st)
    show ?thesis
    proof (cases "m = st_caps st")
      case True
      then show ?thesis using Some by (intro exI [of _ "[]"] exI [of _ s] exI [of _ st]) simp
    next
      case False
      then have l: "length (st_rest st) < length s" and "m \<in> set (find_all n r (st_prev st) (st_rest st))"
        using Some "2.prems" by (auto split: if_splits)
      then obtain p rest st2 where p: "st_rest st = p @ rest" "re_match_at r (char_before (st_prev st) p) rest = Some st2" "m = st_caps st2"
        using "2.IH"(2) [OF Some l] by blast
      obtain u where "s = u @ st_rest st" "st_prev st = char_before prev u"
        using leads_to_moves [OF re_match_at_leads [OF Some]] by auto
      then show ?thesis using p
        by (intro exI [of _ "u @ p"] exI [of _ rest] exI [of _ st2]) (simp add: char_before_append)
    qed
  qed
qed simp

lemma find_iter_all: "map (snd \<circ> snd) (find_iter n r pos prev s) = find_all n r prev s"
  by (induction n r pos prev s rule: find_iter.induct) (auto simp: Let_def split: option.splits list.splits)

lemma re_search_places:
  assumes "re_search r s"
  shows "\<exists>p rest st. s = p @ rest \<and> re_match_at r (char_before None p) rest = Some st"
proof -
  have "find_all (Suc (length s)) r None s \<noteq> []"
    using assms find_iter_all [of "Suc (length s)" r 0 None s] by (auto simp: re_search_def re_find_iter_def simp del: find_iter.simps find_all.simps)
  then obtain m where "m \<in> set (find_all (Suc (length s)) r None s)" by (meson list.set_sel(1))
  from find_all_places [OF this] show ?thesis by blast
qed

lemma re_findall_places:
  assumes "g \<in> set (re_findall r s)"
  shows "\<exists>p rest st. s = p @ rest \<and> re_match_at r (char_before None p) rest = Some st \<and> g = group_text (st_caps st) 1"
proof -
  obtain m where m: "m \<in> set (find_all (Suc (length s)) r None s)" "g = group_text m 1"
    using assms by (auto simp: re_findall_def re_find_all_def simp del: find_all.simps)
  show ?thesis using find_all_places [OF m(1)] m(2) by metis
qed

end
