(* ===== verification/Reconcile.thy ===== *)
theory Reconcile
  imports Inventory Streams Regex
begin

text \<open>
  The second half of scripts/harness/selfhost.py: mtest's two reports of one run, the event stream
  and the console text, compared with the inventory derived from the sources.  Every comparison
  appends its findings to one list; each message of the source is one constructor of \<open>finding\<close>
  with the values it prints.  An integer past Python's digit limit is a \<open>ValueError\<close> of the whole
  comparison.
\<close>

section \<open>Findings\<close>

datatype problem =
    OutcomeNotPass "str option"
  | DispositionNotParsed "str option"
  | PassedTests "int option" nat
  | FieldNotZero str "int option"
  | AttemptsNotOne "int option"
  | FlakyNotFalse json

datatype finding =
    MtestExited int
  | OutputTruncated
  | InvalidStream stream_fault
  | TornTail
  | NoTerminal
  | StartedCount nat
  | StartedRoot "str option"
  | StartedSelected "int option" nat
  | StartedExcluded "int option"
  | FileRecordWithoutPath
  | DuplicateFileRecord str
  | FileMembership "str list" "str list"
  | FileProblems str "problem list"
  | TestRecordWithoutPair
  | TestOutcome str str "str option"
  | TestsReportedTwice str "str list"
  | TestNamesDiffer str "str list" "str list"
  | UndeclaredFile str nat
  | TerminalExitCode "int option"
  | NoTestCounts
  | CountsPassed "int option" int
  | CountNotZero str "int option"
  | NoSummary
  | SummaryPass json nat
  | SummaryNonzero "(str \<times> json) list"
  | HeaderLines nat
  | HeaderRoot str
  | HeaderSelected int nat
  | HeaderExcluded int
  | NonPassRows "(str \<times> str) list"
  | PathMembership "str list" "str list"
  | SummaryBands nat
  | TotalMismatch int int
  | BandNotZero str str
  | BandAbnormal str

section \<open>Fields of a record\<close>

definition int_field :: "jobj \<Rightarrow> str \<Rightarrow> int option" where
  "int_field record key = (case jget record key of JInt n \<Rightarrow> Some n | _ \<Rightarrow> None)"

definition str_field :: "jobj \<Rightarrow> str \<Rightarrow> str option" where
  "str_field record key = (case jget record key of JStr s \<Rightarrow> Some s | _ \<Rightarrow> None)"

text \<open>\<open>sorted(a - b)\<close> of two sets given as lists.\<close>

definition sorted_difference :: "str list \<Rightarrow> str list \<Rightarrow> str list" where
  "sorted_difference a b = sort (remdups (filter (\<lambda>x. x \<notin> set b) a))"

section \<open>The event stream\<close>

definition nonzero_fields :: "jobj \<Rightarrow> string list \<Rightarrow> problem list" where
  "nonzero_fields record keys =
     concat (map (\<lambda>k. if int_field record (lit k) \<noteq> Some 0
                      then [FieldNotZero (lit k) (int_field record (lit k))] else []) keys)"

definition file_record_problems :: "jobj \<Rightarrow> str list \<Rightarrow> problem list" where
  "file_record_problems record declared =
     (if str_field record (lit ''outcome'') \<noteq> Some (lit ''pass'')
      then [OutcomeNotPass (str_field record (lit ''outcome''))] else [])
     @ (if str_field record (lit ''parse_disposition'') \<noteq> Some (lit ''parsed'')
        then [DispositionNotParsed (str_field record (lit ''parse_disposition''))] else [])
     @ (if int_field record (lit ''passed_tests'') \<noteq> Some (int (length declared))
        then [PassedTests (int_field record (lit ''passed_tests'')) (length declared)] else [])
     @ nonzero_fields record [''failed_tests'', ''skipped_tests'', ''deselected_tests'']
     @ nonzero_fields record [''exit_status'', ''signal_number'']
     @ (if int_field record (lit ''attempts_used'') \<noteq> Some 1
        then [AttemptsNotOne (int_field record (lit ''attempts_used''))] else [])
     @ (if jget record (lit ''flaky'') \<noteq> JBool False
        then [FlakyNotFalse (jget record (lit ''flaky''))] else [])"

text \<open>The first pass over the \<open>file_finished\<close> records: the records by path.\<close>

fun index_file_records :: "jobj list \<Rightarrow> (str, jobj) dict \<Rightarrow> finding list \<times> (str, jobj) dict" where
  "index_file_records [] by_path = ([], by_path)"
| "index_file_records (record # records) by_path =
     (case str_field record (lit ''path'') of
        None \<Rightarrow>
          (let (fs, d) = index_file_records records by_path in (FileRecordWithoutPath # fs, d))
      | Some path \<Rightarrow>
          if map_of by_path path \<noteq> None then
            (let (fs, d) = index_file_records records by_path in (DuplicateFileRecord path # fs, d))
          else index_file_records records (dict_set path record by_path))"

definition reconcile_file_records :: "jobj list \<Rightarrow> inventory \<Rightarrow> finding list \<times> str list" where
  "reconcile_file_records records inventory =
     (let (failures, by_path) = index_file_records records [];
          reported = map fst by_path
      in (failures
          @ (if set reported \<noteq> set (inv_paths inventory)
             then [FileMembership (sorted_difference (inv_paths inventory) reported)
                     (sorted_difference reported (inv_paths inventory))] else [])
          @ concat (map (\<lambda>(path, declared).
              case map_of by_path path of
                None \<Rightarrow> []
              | Some finished \<Rightarrow>
                  let problems = file_record_problems finished declared
                  in if problems \<noteq> [] then [FileProblems path problems] else [])
              (sort_key fst inventory)),
          reported))"

text \<open>The first pass over the \<open>test_reported\<close> records: the names by path.\<close>

fun index_test_records :: "jobj list \<Rightarrow> (str, str list) dict \<Rightarrow> finding list \<times> (str, str list) dict" where
  "index_test_records [] by_path = ([], by_path)"
| "index_test_records (record # records) by_path =
     (case (str_field record (lit ''path''), str_field record (lit ''name'')) of
        (Some path, Some name) \<Rightarrow>
          (let outcome = str_field record (lit ''outcome'');
               (fs, d) = index_test_records records
                 (dict_set path ((case map_of by_path path of None \<Rightarrow> [] | Some ns \<Rightarrow> ns) @ [name]) by_path)
           in ((if outcome \<noteq> Some (lit ''pass'') then [TestOutcome path name outcome] else []) @ fs, d))
      | _ \<Rightarrow> (let (fs, d) = index_test_records records by_path in (TestRecordWithoutPair # fs, d)))"

definition check_reported_names :: "str list \<Rightarrow> str \<Rightarrow> str list \<Rightarrow> str list \<Rightarrow> finding list" where
  "check_reported_names mentioned path declared reported =
     (if path \<notin> set mentioned \<and> reported = [] then []
      else
        let duplicates = sort (remdups (filter (\<lambda>n. 1 < count_list reported n) reported))
        in (if duplicates \<noteq> [] then [TestsReportedTwice path duplicates] else [])
           @ (if set reported \<noteq> set declared
              then [TestNamesDiffer path (sorted_difference declared reported)
                      (sorted_difference reported declared)] else []))"

fun check_declared :: "str list \<Rightarrow> inventory \<Rightarrow> (str, str list) dict \<Rightarrow> finding list \<times> (str, str list) dict" where
  "check_declared mentioned [] by_path = ([], by_path)"
| "check_declared mentioned ((path, declared) # entries) by_path =
     (let reported = (case map_of by_path path of None \<Rightarrow> [] | Some ns \<Rightarrow> ns);
          (fs, d) = check_declared mentioned entries (AList.delete path by_path)
      in (check_reported_names mentioned path declared reported @ fs, d))"

definition reconcile_test_records :: "jobj list \<Rightarrow> inventory \<Rightarrow> str list \<Rightarrow> finding list" where
  "reconcile_test_records records inventory mentioned =
     (let (failures, by_path) = index_test_records records [];
          (named, left) = check_declared mentioned (sort_key fst inventory) by_path
      in failures @ named @ map (\<lambda>(path, names). UndeclaredFile path (length names)) (sort_key fst left))"

definition reconcile_stream_totals :: "jobj \<Rightarrow> inventory \<Rightarrow> finding list" where
  "reconcile_stream_totals terminal inventory =
     (if int_field terminal (lit ''exit_code'') \<noteq> Some 0
      then [TerminalExitCode (int_field terminal (lit ''exit_code''))] else [])
     @ (case jget terminal (lit ''test_counts'') of
          JObj counts \<Rightarrow>
            (if int_field counts (lit ''passed'') \<noteq> Some (total_tests inventory)
             then [CountsPassed (int_field counts (lit ''passed'')) (total_tests inventory)] else [])
            @ concat (map (\<lambda>k. if int_field counts (lit k) \<noteq> Some 0
                then [CountNotZero (lit k) (int_field counts (lit k))] else [])
                [''failed'', ''skipped'', ''deselected''])
        | _ \<Rightarrow> [NoTestCounts])
     @ (case jget terminal (lit ''summary'') of
          JObj summary \<Rightarrow>
            (if int_field summary (lit ''pass'') \<noteq> Some (int (length (inv_paths inventory)))
             then [SummaryPass (jget summary (lit ''pass'')) (length (inv_paths inventory))] else [])
            @ (let nonzero = sort_key fst (filter (\<lambda>(k, v). k \<noteq> lit ''pass''
                     \<and> int_field summary k \<noteq> Some 0) summary)
               in if nonzero \<noteq> [] then [SummaryNonzero nonzero] else [])
        | _ \<Rightarrow> [NoSummary])"

abbreviation of_kind :: "string \<Rightarrow> jobj list \<Rightarrow> jobj list" where
  "of_kind kind \<equiv> filter (\<lambda>r. event_of r = JStr (lit kind))"

definition reconcile_started :: "jobj list \<Rightarrow> inventory \<Rightarrow> str \<Rightarrow> finding list" where
  "reconcile_started started inventory repo_root =
     (case started of
        [first] \<Rightarrow>
          (if str_field first (lit ''root'') \<noteq> Some repo_root
           then [StartedRoot (str_field first (lit ''root''))] else [])
          @ (if int_field first (lit ''selected_count'') \<noteq> Some (int (length (inv_paths inventory)))
             then [StartedSelected (int_field first (lit ''selected_count'')) (length (inv_paths inventory))] else [])
          @ (if int_field first (lit ''excluded_count'') \<noteq> Some 0
             then [StartedExcluded (int_field first (lit ''excluded_count''))] else [])
      | _ \<Rightarrow> [StartedCount (length started)])"

definition reconcile_report :: "stream_report \<Rightarrow> inventory \<Rightarrow> str \<Rightarrow> finding list" where
  "reconcile_report report inventory repo_root =
     (let records = sr_records report;
          (files, mentioned) = reconcile_file_records (of_kind ''file_finished'' records) inventory
      in (if sr_torn_tail report then [TornTail] else [])
         @ (if sr_terminal report = None then [NoTerminal] else [])
         @ reconcile_started (of_kind ''session_started'' records) inventory repo_root
         @ files
         @ reconcile_test_records (of_kind ''test_reported'' records) inventory mentioned
         @ (case sr_terminal report of None \<Rightarrow> [] | Some t \<Rightarrow> reconcile_stream_totals t inventory))"

text \<open>A scan never runs out of fuel, so the last case does not occur.\<close>

definition reconcile_stream :: "str \<Rightarrow> inventory \<Rightarrow> str \<Rightarrow> selfhost_exn + finding list" where
  "reconcile_stream stream_text inventory repo_root =
     (case parse_stream True stream_text of
        Inl (StreamError fault) \<Rightarrow> Inr [InvalidStream fault]
      | Inl StreamDigitLimit \<Rightarrow> Inl (ValueError StreamDigits)
      | Inl StreamStuck \<Rightarrow> Inl (ValueError StreamDigits)
      | Inr report \<Rightarrow> Inr (reconcile_report report inventory repo_root))"

section \<open>The console report\<close>

definition HEADER_RE :: re where
  "HEADER_RE = re_seq [Bol, re_lit ''root:'', re_spaces, Grp 1 (re_lazy (Chr (\<lambda>c. c \<noteq> 10))), re_spaces,
     re_lit ''selected:'', re_spaces, Grp 2 re_digits, re_spaces, re_lit ''files'', re_spaces,
     re_lit ''excluded:'', re_spaces, Grp 3 re_digits]"

text \<open>The groups: passed, failed, skipped, abnormal, excluded, not run, deselected.\<close>

definition SUMMARY_RE :: re where
  "SUMMARY_RE = re_seq [Bol, re_lit ''====='', re_spaces, Grp 1 re_digits, re_lit '' passed,'', re_spaces,
     Grp 2 re_digits, re_lit '' failed,'', re_spaces, Grp 3 re_digits, re_lit '' skipped'',
     Grp 4 (re_star (Chr (\<lambda>c. c \<noteq> 40))),
     re_lit ''('', Grp 5 re_digits, re_lit '' excluded,'', re_spaces, Grp 6 re_digits, re_lit '' not run'',
     re_opt (re_seq [re_lit '','', re_spaces, Grp 7 re_digits, re_lit '' deselected'']), re_lit '')'',
     re_spaces, re_lit ''in'', re_spaces, re_plus (Chr (\<lambda>c. is_digit c \<or> c = 46)), re_lit ''s'',
     re_spaces, re_lit ''=====''] "

definition CACHE_COUNTS_RE :: re where
  "CACHE_COUNTS_RE = re_seq [re_lit '','', re_star (Chr is_space), re_lit ''builds:'', re_star (Chr is_space),
     re_digits, re_lit '','', re_star (Chr is_space), re_lit ''cached:'', re_star (Chr is_space), re_digits]"

text \<open>The groups: verdict, path.  The pattern is read with \<open><\<close> where the source's text has
  the entity of that character.\<close>

definition VERDICT_ROW_RE :: re where
  "VERDICT_ROW_RE = re_seq [Bol,
     Grp 1 (re_alt (map re_lit [''PASS'', ''FAIL'', ''CRASH'', ''TIMEOUT'', ''COMPILE-ERROR'', ''COMPILE-TIMEOUT'',
       ''MALFORMED-SUITE'', ''PRECOMPILE-ERROR'', ''FLAKY'', ''NO-TESTS''])),
     re_spaces, Grp 2 (Seq (re_plus (Chr (\<lambda>c. \<not> is_space c))) (re_lit ''.mojo'')),
     Look (Alt (Chr is_space) AtEnd)]"

text \<open>A group that took part in the match.\<close>

definition matched :: "re_match \<Rightarrow> nat \<Rightarrow> str" where
  "matched m n = (case group m n of None \<Rightarrow> [] | Some s \<Rightarrow> s)"

text \<open>\<open>int(raw)\<close>\<close>

definition read_int :: "str \<Rightarrow> selfhost_exn + int" where
  "read_int raw = (if 4300 < length raw then Inl (ValueError ConsoleDigits) else Inr (int_of_digits raw))"

definition reconcile_header :: "str \<Rightarrow> inventory \<Rightarrow> str \<Rightarrow> selfhost_exn + finding list" where
  "reconcile_header output inventory repo_root =
     (case re_find_all HEADER_RE output of
        [header] \<Rightarrow>
          rbind (read_int (matched header 2)) (\<lambda>selected.
          rbind (read_int (matched header 3)) (\<lambda>excluded. Inr (
            (if matched header 1 \<noteq> repo_root then [HeaderRoot (matched header 1)] else [])
            @ (if selected \<noteq> int (length (inv_paths inventory))
               then [HeaderSelected selected (length (inv_paths inventory))] else [])
            @ (if excluded \<noteq> 0 then [HeaderExcluded excluded] else []))))
      | headers \<Rightarrow> Inr [HeaderLines (length headers)])"

definition verdict_rows :: "str \<Rightarrow> (str \<times> str) list" where
  "verdict_rows output = map (\<lambda>m. (matched m 1, matched m 2)) (re_find_all VERDICT_ROW_RE output)"

definition reconcile_paths :: "str \<Rightarrow> inventory \<Rightarrow> finding list" where
  "reconcile_paths output inventory =
     (let rows = verdict_rows output;
          passed = map snd (filter (\<lambda>(verdict, _). verdict = lit ''PASS'') rows);
          other = sort (remdups (filter (\<lambda>(verdict, _). verdict \<noteq> lit ''PASS'') rows));
          expected = inv_paths inventory
      in (if other \<noteq> [] then [NonPassRows other] else [])
         @ (if set passed \<noteq> set expected
            then [PathMembership (sorted_difference expected passed) (sorted_difference passed expected)] else []))"

text \<open>One count of the summary band that must be zero.\<close>

definition band_zero :: "re_match \<Rightarrow> nat \<times> string \<Rightarrow> selfhost_exn + finding list" where
  "band_zero m = (\<lambda>(n, label).
     case group m n of
       None \<Rightarrow> Inr []
     | Some raw \<Rightarrow> rbind (read_int raw) (\<lambda>k. Inr (if k \<noteq> 0 then [BandNotZero raw (lit label)] else [])))"

definition reconcile_totals :: "str \<Rightarrow> inventory \<Rightarrow> selfhost_exn + finding list" where
  "reconcile_totals output inventory =
     (case re_find_all SUMMARY_RE output of
        [summary] \<Rightarrow>
          rbind (read_int (matched summary 1)) (\<lambda>reported_passed.
          rbind (rmap (band_zero summary)
                  [(2, ''failed''), (3, ''skipped''), (5, ''excluded''), (6, ''not run''), (7, ''deselected'')]) (\<lambda>zeros.
            let abnormal = strip (re_remove CACHE_COUNTS_RE (matched summary 4))
            in Inr ((if reported_passed \<noteq> total_tests inventory
                     then [TotalMismatch reported_passed (total_tests inventory)] else [])
                    @ concat zeros
                    @ (if abnormal \<noteq> [] then [BandAbnormal abnormal] else []))))
      | matches \<Rightarrow> Inr [SummaryBands (length matches)])"

section \<open>The comparison\<close>

definition reconcile ::
  "str \<Rightarrow> inventory \<Rightarrow> str \<Rightarrow> int \<Rightarrow> str \<Rightarrow> bool \<Rightarrow> selfhost_exn + finding list" where
  "reconcile output inventory repo_root exit_code stream_text truncated =
     rbind (reconcile_stream stream_text inventory repo_root) (\<lambda>stream.
     rbind (reconcile_header output inventory repo_root) (\<lambda>header.
     rbind (reconcile_totals output inventory) (\<lambda>totals.
       Inr ((if exit_code \<noteq> 0 then [MtestExited exit_code] else [])
            @ (if truncated then [OutputTruncated] else [])
            @ stream @ header @ reconcile_paths output inventory @ totals))))"

section \<open>What a truthful_stream stream is\<close>

definition file_ok :: "jobj \<Rightarrow> str list \<Rightarrow> bool" where
  "file_ok record declared \<longleftrightarrow>
     str_field record (lit ''outcome'') = Some (lit ''pass'')
     \<and> str_field record (lit ''parse_disposition'') = Some (lit ''parsed'')
     \<and> int_field record (lit ''passed_tests'') = Some (int (length declared))
     \<and> list_all (\<lambda>k. int_field record (lit k) = Some 0)
         [''failed_tests'', ''skipped_tests'', ''deselected_tests'', ''exit_status'', ''signal_number'']
     \<and> int_field record (lit ''attempts_used'') = Some 1
     \<and> jget record (lit ''flaky'') = JBool False"

definition totals_ok :: "jobj \<Rightarrow> inventory \<Rightarrow> bool" where
  "totals_ok terminal inventory \<longleftrightarrow>
     int_field terminal (lit ''exit_code'') = Some 0
     \<and> (\<exists>counts. jget terminal (lit ''test_counts'') = JObj counts
          \<and> int_field counts (lit ''passed'') = Some (total_tests inventory)
          \<and> list_all (\<lambda>k. int_field counts (lit k) = Some 0) [''failed'', ''skipped'', ''deselected''])
     \<and> (\<exists>summary. jget terminal (lit ''summary'') = JObj summary
          \<and> int_field summary (lit ''pass'') = Some (int (length (inv_paths inventory)))
          \<and> (\<forall>k\<in>fst ` set summary. k \<noteq> lit ''pass'' \<longrightarrow> int_field summary k = Some 0))"

definition started_ok :: "jobj \<Rightarrow> inventory \<Rightarrow> str \<Rightarrow> bool" where
  "started_ok record inventory repo_root \<longleftrightarrow>
     str_field record (lit ''root'') = Some repo_root
     \<and> int_field record (lit ''selected_count'') = Some (int (length (inv_paths inventory)))
     \<and> int_field record (lit ''excluded_count'') = Some 0"

abbreviation path_field :: "jobj \<Rightarrow> str option" where
  "path_field r \<equiv> str_field r (lit ''path'')"

abbreviation name_field :: "jobj \<Rightarrow> str option" where
  "name_field r \<equiv> str_field r (lit ''name'')"

text \<open>
  The stream tells the truth about the inventory: one finished record per declared file, each in
  order, one passing test record per declared test, and the totals that follow from them.
\<close>

definition truthful_stream :: "stream_report \<Rightarrow> inventory \<Rightarrow> str \<Rightarrow> bool" where
  "truthful_stream report inventory repo_root \<longleftrightarrow>
     \<not> sr_torn_tail report
     \<and> (\<exists>t. sr_terminal report = Some t \<and> totals_ok t inventory)
     \<and> (\<exists>st. of_kind ''session_started'' (sr_records report) = [st] \<and> started_ok st inventory repo_root)
     \<and> mset (map path_field (of_kind ''file_finished'' (sr_records report)))
         = mset (map (\<lambda>(p, _). Some p) inventory)
     \<and> (\<forall>r\<in>set (of_kind ''file_finished'' (sr_records report)). \<forall>(p, names)\<in>set inventory.
          path_field r = Some p \<longrightarrow> file_ok r names)
     \<and> mset (map (\<lambda>r. (path_field r, name_field r)) (of_kind ''test_reported'' (sr_records report)))
         = mset (concat (map (\<lambda>(p, names). map (\<lambda>n. (Some p, Some n)) names) inventory))
     \<and> (\<forall>r\<in>set (of_kind ''test_reported'' (sr_records report)).
          str_field r (lit ''outcome'') = Some (lit ''pass''))"

subsection \<open>Field checks\<close>

lemma if_Cons_Nil [simp]: "((if b then [x] else []) = []) \<longleftrightarrow> \<not> b"
  by simp

lemma nonzero_fields_Nil: "nonzero_fields r ks = [] \<longleftrightarrow> list_all (\<lambda>k. int_field r (lit k) = Some 0) ks"
  by (induction ks) (simp_all add: nonzero_fields_def)

lemma file_problems_Nil: "file_record_problems r names = [] \<longleftrightarrow> file_ok r names"
  unfolding file_record_problems_def file_ok_def append_is_Nil_conv nonzero_fields_Nil if_Cons_Nil not_not
  by (simp only: list.pred_inject conj_assoc simp_thms)

lemma started_Nil:
  "reconcile_started rs inventory rt = [] \<longleftrightarrow> (\<exists>st. rs = [st] \<and> started_ok st inventory rt)"
  by (cases rs rule: remdups_adj.cases)
    (simp_all add: reconcile_started_def started_ok_def append_is_Nil_conv del: lit_Cons)

lemma concat_Nil: "concat xs = [] \<longleftrightarrow> (\<forall>x\<in>set xs. x = [])"
  by simp

lemma totals_Nil: "reconcile_stream_totals t inventory = [] \<longleftrightarrow> totals_ok t inventory"
proof -
  have sk: "sort_key fst xs = [] \<longleftrightarrow> xs = []" for xs :: "(str \<times> json) list"
    by (metis set_empty set_sort)
  have a: "(case v of JObj counts \<Rightarrow>
            (if int_field counts (lit ''passed'') \<noteq> Some (total_tests inventory)
             then [CountsPassed (int_field counts (lit ''passed'')) (total_tests inventory)] else [])
            @ concat (map (\<lambda>k. if int_field counts (lit k) \<noteq> Some 0
                then [CountNotZero (lit k) (int_field counts (lit k))] else [])
                [''failed'', ''skipped'', ''deselected''])
        | _ \<Rightarrow> [NoTestCounts]) = [] \<longleftrightarrow>
      (\<exists>counts. v = JObj counts \<and> int_field counts (lit ''passed'') = Some (total_tests inventory)
          \<and> list_all (\<lambda>k. int_field counts (lit k) = Some 0) [''failed'', ''skipped'', ''deselected''])" for v
    by (cases v) (simp_all add: append_is_Nil_conv del: lit_Cons)
  have b: "(case v of JObj summary \<Rightarrow>
            (if int_field summary (lit ''pass'') \<noteq> Some (int (length (inv_paths inventory)))
             then [SummaryPass (jget summary (lit ''pass'')) (length (inv_paths inventory))] else [])
            @ (let nonzero = sort_key fst (filter (\<lambda>(k, v). k \<noteq> lit ''pass''
                     \<and> int_field summary k \<noteq> Some 0) summary)
               in if nonzero \<noteq> [] then [SummaryNonzero nonzero] else [])
        | _ \<Rightarrow> [NoSummary]) = [] \<longleftrightarrow>
      (\<exists>summary. v = JObj summary \<and> int_field summary (lit ''pass'') = Some (int (length (inv_paths inventory)))
          \<and> (\<forall>k\<in>fst ` set summary. k \<noteq> lit ''pass'' \<longrightarrow> int_field summary k = Some 0))" for v
    by (cases v) (force simp add: append_is_Nil_conv sk Let_def filter_empty_conv simp del: lit_Cons)+
  show ?thesis
    unfolding reconcile_stream_totals_def totals_ok_def append_is_Nil_conv a b if_Cons_Nil not_not ..
qed

subsection \<open>File records\<close>

lemma index_file_Nil:
  "index_file_records rs acc = ([], d) \<longleftrightarrow>
     (\<exists>ps. map path_field rs = map Some ps \<and> distinct ps \<and> set ps \<inter> fst ` set acc = {} \<and> d = acc @ zip ps rs)"
proof (induction rs arbitrary: acc)
  case Nil
  then show ?case by auto
next
  case (Cons r rs)
  show ?case
  proof (cases "path_field r")
    case None
    then show ?thesis by (auto simp: split_beta simp del: lit_Cons)
  next
    case (Some p)
    show ?thesis
    proof (cases "map_of acc p = None")
      case False
      then have "p \<in> fst ` set acc" by (auto simp: map_of_eq_None_iff)
      then show ?thesis
        using Some False by (auto simp: split_beta map_eq_Cons_conv simp del: lit_Cons)
    next
      case True
      then have fresh: "p \<notin> fst ` set acc" by (auto simp: map_of_eq_None_iff)
      have "index_file_records (r # rs) acc = index_file_records rs (acc @ [(p, r)])"
        using Some True fresh by (simp add: dict_set_fresh del: lit_Cons)
      moreover have "(\<exists>ps. map path_field rs = map Some ps \<and> distinct ps
            \<and> set ps \<inter> fst ` set (acc @ [(p, r)]) = {} \<and> d = (acc @ [(p, r)]) @ zip ps rs)
        \<longleftrightarrow> (\<exists>ps. map path_field (r # rs) = map Some ps \<and> distinct ps
            \<and> set ps \<inter> fst ` set acc = {} \<and> d = acc @ zip ps (r # rs))" (is "?L \<longleftrightarrow> ?R")
      proof
        assume ?L
        then obtain ps where "map path_field rs = map Some ps" "distinct ps"
            "set ps \<inter> fst ` set (acc @ [(p, r)]) = {}" "d = (acc @ [(p, r)]) @ zip ps rs"
          by blast
        then show ?R
          using Some fresh by (intro exI [of _ "p # ps"]) (auto simp del: lit_Cons)
      next
        assume ?R
        then obtain ps' where ps': "map path_field (r # rs) = map Some ps'" "distinct ps'"
            "set ps' \<inter> fst ` set acc = {}" "d = acc @ zip ps' (r # rs)"
          by blast
        then obtain ps where "ps' = p # ps"
          using Some by (cases ps') (auto simp del: lit_Cons)
        with ps' show ?L
          by (intro exI [of _ ps]) (auto simp del: lit_Cons)
      qed
      ultimately show ?thesis
        using Cons by simp
    qed
  qed
qed


lemma mset_distinct_eq:
  "distinct ys \<Longrightarrow> mset xs = mset ys \<longleftrightarrow> distinct xs \<and> set xs = set ys"
  by (metis mset_eq_imp_distinct_iff mset_eq_setD set_eq_iff_mset_eq_distinct)

lemma mset_map_Some: "mset (map f rs) = mset (map Some qs) \<longleftrightarrow> (\<exists>ps. map f rs = map Some ps \<and> mset ps = mset qs)"
proof
  assume m: "mset (map f rs) = mset (map Some qs)"
  have "map f rs = map Some (map the (map f rs))"
  proof (rule nth_equalityI)
    fix i assume "i < length (map f rs)"
    then have "map f rs ! i \<in> set (map f rs)" by (rule nth_mem)
    also have "\<dots> = set (map Some qs)" using m by (rule mset_eq_setD)
    finally show "map f rs ! i = map Some (map the (map f rs)) ! i"
      using \<open>i < length (map f rs)\<close> by auto
  qed simp
  moreover have "mset (map the (map f rs)) = mset (map the (map Some qs))"
    using m by (simp only: mset_map)
  ultimately show "\<exists>ps. map f rs = map Some ps \<and> mset ps = mset qs"
    by (intro exI conjI) (assumption, simp add: o_def)
next
  assume "\<exists>ps. map f rs = map Some ps \<and> mset ps = mset qs"
  then show "mset (map f rs) = mset (map Some qs)" by (metis mset_map)
qed

lemma map_of_zip_paths:
  assumes "map f rs = map Some ps" "distinct ps"
  shows "map_of (zip ps rs) p = Some r \<longleftrightarrow> r \<in> set rs \<and> f r = Some p"
proof -
  have len: "length ps = length rs" using assms(1) by (metis length_map)
  have nth: "f (rs ! i) = Some (ps ! i)" if "i < length rs" for i
    using assms(1) that len by (metis nth_map)
  have "map_of (zip ps rs) p = Some r \<longleftrightarrow> (p, r) \<in> set (zip ps rs)"
    using assms(2) len by simp
  also have "\<dots> \<longleftrightarrow> (\<exists>i<length rs. ps ! i = p \<and> rs ! i = r)"
    using len by (auto simp: set_zip)
  also have "\<dots> \<longleftrightarrow> r \<in> set rs \<and> f r = Some p"
    using nth by (auto simp: in_set_conv_nth) 
  finally show ?thesis .
qed

lemma concat_map_sorted_Nil: "concat (map g (sort_key f xs)) = [] \<longleftrightarrow> (\<forall>x\<in>set xs. g x = [])"
  by simp

lemma file_entry_Nil:
  "(case map_of by_path p of None \<Rightarrow> []
    | Some finished \<Rightarrow> let problems = file_record_problems finished declared
                      in if problems \<noteq> [] then [FileProblems p problems] else []) = []
   \<longleftrightarrow> (\<forall>r. map_of by_path p = Some r \<longrightarrow> file_ok r declared)"
  by (simp add: file_problems_Nil split: option.split)

lemma files_Nil:
  assumes d: "distinct (inv_paths inventory)"
  shows "fst (reconcile_file_records rs inventory) = [] \<longleftrightarrow>
     mset (map path_field rs) = mset (map (\<lambda>(p, _). Some p) inventory)
     \<and> (\<forall>r\<in>set rs. \<forall>(p, names)\<in>set inventory. path_field r = Some p \<longrightarrow> file_ok r names)"
    (is "?L \<longleftrightarrow> ?M \<and> ?F")
proof -
  obtain failures by_path where ix: "index_file_records rs [] = (failures, by_path)" by force
  have L: "?L \<longleftrightarrow> failures = [] \<and> set (map fst by_path) = set (inv_paths inventory)
      \<and> (\<forall>(p, declared)\<in>set inventory. \<forall>r. map_of by_path p = Some r \<longrightarrow> file_ok r declared)"
    unfolding reconcile_file_records_def ix
    by (simp add: Let_def case_prod_beta file_entry_Nil concat_map_sorted_Nil conj_assoc
        del: concat_eq_Nil_conv)
  have M: "?M \<longleftrightarrow> (\<exists>ps. map path_field rs = map Some ps \<and> distinct ps \<and> set ps = set (inv_paths inventory))"
  proof -
    have "map (\<lambda>(p, _). Some p) inventory = map Some (inv_paths inventory)"
      by (simp add: inv_paths_def case_prod_beta)
    then show ?thesis
      using mset_map_Some [of path_field rs "inv_paths inventory"] mset_distinct_eq [OF d] by metis
  qed
  show ?thesis
  proof (cases "\<exists>ps. map path_field rs = map Some ps \<and> distinct ps")
    case True
    then obtain ps where ps: "map path_field rs = map Some ps" "distinct ps" by blast
    have b: "failures = []" "by_path = zip ps rs"
      using index_file_Nil [of rs "[]" "zip ps rs"] ps ix by auto
    have z: "map fst (zip ps rs) = ps"
      using ps(1) by (metis length_map map_fst_zip)
    have u: "ps' = ps" if "map path_field rs = map Some ps'" for ps'
      using trans [OF that [symmetric] ps(1)] inj_map_eq_map [of Some] by simp
    have m: "?M \<longleftrightarrow> set ps = set (inv_paths inventory)"
      unfolding M using u ps by blast
    show ?thesis
      unfolding L m b z map_of_zip_paths [OF ps] case_prod_beta by blast
  next
    case False
    then have "failures \<noteq> []"
      using index_file_Nil [of rs "[]" by_path] ix by auto
    with False show ?thesis
      unfolding L M by blast
  qed
qed


subsection \<open>Test records\<close>

definition pair_ok :: "jobj \<Rightarrow> bool" where
  "pair_ok r \<longleftrightarrow> path_field r \<noteq> None \<and> name_field r \<noteq> None
     \<and> str_field r (lit ''outcome'') = Some (lit ''pass'')"

text \<open>The names reported for one path, in order.\<close>

definition names_of :: "str \<Rightarrow> jobj list \<Rightarrow> str list" where
  "names_of p rs = map (the \<circ> name_field) (filter (\<lambda>r. path_field r = Some p \<and> name_field r \<noteq> None) rs)"

abbreviation names_at :: "(str, str list) dict \<Rightarrow> str \<Rightarrow> str list" where
  "names_at d p \<equiv> (case map_of d p of None \<Rightarrow> [] | Some ns \<Rightarrow> ns)"

lemma names_at_set: "names_at (dict_set q ns d) p = (if p = q then ns else names_at d p)"
  by (simp add: update_conv' fun_upd_def)

lemma index_test_skip:
  "path_field r = None \<or> name_field r = None \<Longrightarrow>
     index_test_records (r # rs) acc =
       (TestRecordWithoutPair # fst (index_test_records rs acc), snd (index_test_records rs acc))"
  by (auto simp: split_beta Let_def split: option.splits simp del: lit_Cons)

lemma index_test_keep:
  "path_field r = Some q \<Longrightarrow> name_field r = Some n \<Longrightarrow>
     index_test_records (r # rs) acc =
       ((if str_field r (lit ''outcome'') \<noteq> Some (lit ''pass'')
         then [TestOutcome q n (str_field r (lit ''outcome''))] else [])
        @ fst (index_test_records rs (dict_set q (names_at acc q @ [n]) acc)),
        snd (index_test_records rs (dict_set q (names_at acc q @ [n]) acc)))"
  by (simp add: split_beta Let_def del: lit_Cons)

lemma index_test_findings: "fst (index_test_records rs acc) = [] \<longleftrightarrow> list_all pair_ok rs"
proof (induction rs arbitrary: acc)
  case (Cons r rs)
  show ?case
  proof (cases "path_field r = None \<or> name_field r = None")
    case True
    then show ?thesis unfolding index_test_skip [OF True] by (auto simp: pair_ok_def simp del: lit_Cons)
  next
    case False
    then obtain q n where qn: "path_field r = Some q" "name_field r = Some n" by auto
    then show ?thesis
      unfolding index_test_keep [OF qn] using Cons by (simp add: pair_ok_def del: lit_Cons)
  qed
qed simp

lemma index_test_names:
  "names_at (snd (index_test_records rs acc)) p = names_at acc p @ names_of p rs"
proof (induction rs arbitrary: acc)
  case Nil
  then show ?case by (simp add: names_of_def)
next
  case (Cons r rs)
  show ?case
  proof (cases "path_field r = None \<or> name_field r = None")
    case True
    then have "names_of p (r # rs) = names_of p rs"
      by (auto simp: names_of_def simp del: lit_Cons)
    then show ?thesis unfolding index_test_skip [OF True] snd_conv by (simp only: Cons)
  next
    case False
    then obtain q n where qn: "path_field r = Some q" "name_field r = Some n" by auto
    then have "names_of p (r # rs) = (if p = q then [n] else []) @ names_of p rs"
      by (simp add: names_of_def del: lit_Cons)
    then show ?thesis
      unfolding index_test_keep [OF qn] snd_conv Cons names_at_set by simp
  qed
qed

lemma index_test_keys:
  "list_all pair_ok rs \<Longrightarrow> fst ` set (snd (index_test_records rs acc)) =
     fst ` set acc \<union> {p. \<exists>r\<in>set rs. path_field r = Some p}"
proof (induction rs arbitrary: acc)
  case (Cons r rs)
  then obtain q n where qn: "path_field r = Some q" "name_field r = Some n"
    by (auto simp: pair_ok_def simp del: lit_Cons)
  show ?case
    unfolding index_test_keep [OF qn] snd_conv
    using Cons qn by (auto simp: dom_update simp del: lit_Cons)
qed simp

lemma check_declared_findings:
  "distinct (map fst entries) \<Longrightarrow>
     fst (check_declared mentioned entries d)
       = concat (map (\<lambda>e. check_reported_names mentioned (fst e) (snd e) (names_at d (fst e))) entries)"
proof (induction entries arbitrary: d)
  case (Cons e entries)
  have "concat (map (\<lambda>x. check_reported_names mentioned (fst x) (snd x) (names_at (AList.delete (fst e) d) (fst x))) entries)
      = concat (map (\<lambda>x. check_reported_names mentioned (fst x) (snd x) (names_at d (fst x))) entries)"
    using Cons.prems by (intro arg_cong [of _ _ concat] map_cong) (auto simp: delete_conv' image_iff)
  with Cons show ?case by (cases e) (simp add: split_beta Let_def del: map_eq_conv)
qed simp

lemma check_declared_left:
  "snd (check_declared mentioned entries d) = filter (\<lambda>e. fst e \<notin> fst ` set entries) d"
proof (induction entries arbitrary: d)
  case Nil
  then show ?case by simp
next
  case (Cons e entries)
  have "filter (\<lambda>x. fst x \<notin> fst ` set entries) (AList.delete (fst e) d)
      = filter (\<lambda>x. fst x \<notin> fst ` set (e # entries)) d"
    by (auto simp: AList.delete_eq case_prod_beta intro!: filter_cong)
  with Cons show ?case by (cases e) (simp add: split_beta Let_def)
qed

lemma repeated_Nil: "filter (\<lambda>n. 1 < count_list xs n) xs = [] \<longleftrightarrow> distinct xs"
proof -
  have "distinct xs \<longleftrightarrow> (\<forall>n\<in>set xs. count_list xs n \<le> 1)"
  proof -
    have "distinct xs \<longleftrightarrow> (\<forall>n. count (mset xs) n = (if n \<in> set xs then 1 else 0))"
      by (rule distinct_count_atmost_1)
    then show ?thesis
      using count_list_0_iff [of xs] by (auto simp: count_mset le_Suc_eq)
  qed
  then show ?thesis by (auto simp: filter_empty_conv not_less)
qed

lemma reported_names_Nil:
  assumes d: "distinct declared" and p: "p \<in> set mentioned"
  shows "check_reported_names mentioned p declared reported = [] \<longleftrightarrow> mset reported = mset declared"
proof -
  have "sort (remdups (filter (\<lambda>n. 1 < count_list reported n) reported)) = [] \<longleftrightarrow> distinct reported"
    unfolding repeated_Nil [symmetric] by (metis set_empty set_remdups set_sort)
  then show ?thesis
    using p mset_distinct_eq [OF d, of reported]
    unfolding check_reported_names_def Let_def append_is_Nil_conv by (simp del: lit_Cons)
qed


abbreviation pair_of :: "jobj \<Rightarrow> str option \<times> str option" where
  "pair_of r \<equiv> (path_field r, name_field r)"

abbreviation declared_pairs :: "inventory \<Rightarrow> (str option \<times> str option) list" where
  "declared_pairs inventory \<equiv> concat (map (\<lambda>(p, names). map (\<lambda>n. (Some p, Some n)) names) inventory)"

lemma count_reported: "count_list (map pair_of rs) (Some p, Some n) = count_list (names_of p rs) n"
proof (induction rs)
  case Nil
  then show ?case by (simp add: names_of_def)
next
  case (Cons r rs)
  have "names_of p (r # rs) = (if path_field r = Some p \<and> name_field r \<noteq> None
      then [the (name_field r)] else []) @ names_of p rs"
    by (simp add: names_of_def del: lit_Cons)
  moreover have "(pair_of r = (Some p, Some n)) \<longleftrightarrow>
      path_field r = Some p \<and> name_field r \<noteq> None \<and> the (name_field r) = n"
    by (cases "name_field r") (auto simp del: lit_Cons)
  ultimately show ?case
    using Cons by (simp del: lit_Cons)
qed

lemma count_declared:
  "distinct (map fst inventory) \<Longrightarrow>
     count_list (declared_pairs inventory) (Some p, Some n) = count_list (names_at inventory p) n"
proof (induction inventory)
  case (Cons e entries)
  obtain q ms where e: "e = (q, ms)" by force
  have "count_list (map (\<lambda>n. (Some q, Some n)) ms) (Some q, Some n) = count_list ms n"
    using count_list_map_conv [of "\<lambda>n. (Some q, Some n)" ms n] by (simp add: inj_def)
  moreover have "p \<noteq> q \<Longrightarrow> count_list (map (\<lambda>n. (Some q, Some n)) ms) (Some p, Some n) = 0"
    by (auto simp: count_list_0_iff)
  moreover have "map_of entries q = None"
    using Cons.prems by (auto simp: e map_of_eq_None_iff)
  ultimately show ?case
    using Cons by (cases "p = q") (auto simp: e)
qed simp

lemma declared_pair_Some: "x \<in> set (declared_pairs inventory) \<Longrightarrow> \<exists>p n. x = (Some p, Some n)"
  by auto

lemma count_absent: "x \<notin> set xs \<Longrightarrow> x \<notin> set ys \<Longrightarrow> count (mset xs) x = count (mset ys) x"
  by (simp add: count_mset)

lemma pairs_eq:
  assumes d: "distinct (map fst inventory)"
  shows "mset (map pair_of rs) = mset (declared_pairs inventory) \<longleftrightarrow>
     (\<forall>r\<in>set rs. path_field r \<noteq> None \<and> name_field r \<noteq> None)
     \<and> (\<forall>p. mset (names_of p rs) = mset (names_at inventory p))" (is "?L \<longleftrightarrow> ?S \<and> ?C")
proof
  assume L: ?L
  have "\<exists>p n. pair_of r = (Some p, Some n)" if "r \<in> set rs" for r
  proof (rule declared_pair_Some)
    show "pair_of r \<in> set (declared_pairs inventory)"
      unfolding mset_eq_setD [OF L, symmetric] using that by (simp del: lit_Cons)
  qed
  then have ?S by (auto simp del: lit_Cons)
  moreover have ?C
  proof (intro allI multiset_eqI)
    fix p n
    have "count (mset (map pair_of rs)) (Some p, Some n) = count (mset (declared_pairs inventory)) (Some p, Some n)"
      using L by simp
    then show "count (mset (names_of p rs)) n = count (mset (names_at inventory p)) n"
      unfolding count_mset count_reported count_declared [OF d] .
  qed
  ultimately show "?S \<and> ?C" ..
next
  assume SC: "?S \<and> ?C"
  show ?L
  proof (rule multiset_eqI)
    fix x
    show "count (mset (map pair_of rs)) x = count (mset (declared_pairs inventory)) x"
    proof (cases "\<exists>p n. x = (Some p, Some n)")
      case True
      then obtain p n where x: "x = (Some p, Some n)" by blast
      show ?thesis
        unfolding count_mset x count_reported count_declared [OF d]
        using SC by (metis count_mset)
    next
      case False
      then have "x \<notin> set (map pair_of rs)" "x \<notin> set (declared_pairs inventory)"
        using SC declared_pair_Some by (auto simp del: lit_Cons)
      then show ?thesis by (rule count_absent)
    qed
  qed
qed

lemma tests_Nil:
  assumes d: "distinct (inv_paths inventory)" and names: "\<forall>e\<in>set inventory. distinct (snd e)"
    and m: "set mentioned = set (inv_paths inventory)"
  shows "reconcile_test_records rs inventory mentioned = [] \<longleftrightarrow>
     mset (map pair_of rs) = mset (declared_pairs inventory)
     \<and> (\<forall>r\<in>set rs. str_field r (lit ''outcome'') = Some (lit ''pass''))"
proof -
  define by_path where "by_path = snd (index_test_records rs [])"
  have at: "names_at by_path p = names_of p rs" for p
    unfolding by_path_def index_test_names by simp
  have fs: "map fst inventory = inv_paths inventory" by (simp add: inv_paths_def)
  have ds: "distinct (map fst (sort_key fst inventory))"
    using d unfolding mset_eq_imp_distinct_iff [OF mset_map_fst_sort] inv_paths_def .
  have sk: "sort_key fst xs = [] \<longleftrightarrow> xs = []" for xs :: "(str \<times> str list) list"
    by (metis set_empty set_sort)
  have each: "check_reported_names mentioned (fst e) (snd e) (names_at by_path (fst e)) = []
      \<longleftrightarrow> mset (names_of (fst e) rs) = mset (snd e)" if "e \<in> set inventory" for e
    unfolding at using that names m by (intro reported_names_Nil) (auto simp: inv_paths_def)
  have left: "filter (\<lambda>e. fst e \<notin> fst ` set (sort_key fst inventory)) by_path = []
      \<longleftrightarrow> (\<forall>p\<in>fst ` set by_path. p \<in> set (inv_paths inventory))"
    by (auto simp: filter_empty_conv inv_paths_def)
  have L: "reconcile_test_records rs inventory mentioned = [] \<longleftrightarrow>
      list_all pair_ok rs \<and> (\<forall>e\<in>set inventory. mset (names_of (fst e) rs) = mset (snd e))
      \<and> (\<forall>p\<in>fst ` set by_path. p \<in> set (inv_paths inventory))"
    unfolding reconcile_test_records_def split_beta Let_def append_is_Nil_conv index_test_findings
      by_path_def [symmetric] check_declared_findings [OF ds] check_declared_left map_is_Nil_conv sk left
      concat_map_sorted_Nil
    using each by blast
  have keys: "(\<forall>p\<in>fst ` set by_path. p \<in> set (inv_paths inventory))
      \<longleftrightarrow> (\<forall>p. p \<notin> set (inv_paths inventory) \<longrightarrow> names_of p rs = [])" if "list_all pair_ok rs"
    using index_test_keys [OF that, of "[]"] that unfolding by_path_def
    by (auto simp: names_of_def filter_empty_conv list_all_iff pair_ok_def simp del: lit_Cons) 
  have inv: "(\<forall>p. mset (names_of p rs) = mset (names_at inventory p)) \<longleftrightarrow>
      (\<forall>e\<in>set inventory. mset (names_of (fst e) rs) = mset (snd e))
      \<and> (\<forall>p. p \<notin> set (inv_paths inventory) \<longrightarrow> names_of p rs = [])" (is "?A \<longleftrightarrow> ?B \<and> ?C")
  proof -
    have in_: "names_at inventory (fst e) = snd e" if "e \<in> set inventory" for e
    proof -
      have "map_of inventory (fst e) = Some (snd e)"
        using that d by (intro map_of_is_SomeI) (simp_all add: inv_paths_def)
      then show ?thesis by simp
    qed
    have out: "names_at inventory p = []" if "p \<notin> set (inv_paths inventory)" for p
    proof -
      have "map_of inventory p = None" using that by (simp add: inv_paths_def map_of_eq_None_iff)
      then show ?thesis by simp
    qed
    have "?A \<Longrightarrow> ?B \<and> ?C" using in_ out by (metis mset_zero_iff mset.simps(1))
    moreover have ?A if "?B \<and> ?C"
    proof
      fix p
      show "mset (names_of p rs) = mset (names_at inventory p)"
      proof (cases "p \<in> set (inv_paths inventory)")
        case True
        then obtain e where "e \<in> set inventory" "p = fst e" by (auto simp: inv_paths_def)
        then show ?thesis using that in_ by metis
      qed (use that out in simp)
    qed
    ultimately show ?thesis by blast
  qed
  show ?thesis
    unfolding L pairs_eq [OF d [unfolded inv_paths_def]] inv
    using keys by (auto simp: list_all_iff pair_ok_def simp del: lit_Cons)
qed


section \<open>Properties\<close>

definition well_formed :: "inventory \<Rightarrow> bool" where
  "well_formed inventory \<longleftrightarrow> distinct (inv_paths inventory) \<and> list_all (\<lambda>(_, names). distinct names) inventory"

lemma files_mentioned:
  "fst (reconcile_file_records rs inventory) = [] \<Longrightarrow>
     set (snd (reconcile_file_records rs inventory)) = set (inv_paths inventory)"
  by (auto simp: reconcile_file_records_def split_beta Let_def split: if_splits)

lemma report_accepted_iff_truthful':
  assumes "well_formed inventory"
  shows "reconcile_report report inventory repo_root = [] \<longleftrightarrow> truthful_stream report inventory repo_root"
proof -
  let ?f = "reconcile_file_records (of_kind ''file_finished'' (sr_records report)) inventory"
  let ?t = "reconcile_test_records (of_kind ''test_reported'' (sr_records report)) inventory (snd ?f)"
  have d: "distinct (inv_paths inventory)" and names: "\<forall>e\<in>set inventory. distinct (snd e)"
    using assms by (auto simp: well_formed_def list_all_iff)
  have t: "?t = [] \<longleftrightarrow> mset (map pair_of (of_kind ''test_reported'' (sr_records report))) = mset (declared_pairs inventory)
     \<and> (\<forall>r\<in>set (of_kind ''test_reported'' (sr_records report)). str_field r (lit ''outcome'') = Some (lit ''pass''))"
    if "fst ?f = []"
    using that by (intro tests_Nil d names files_mentioned)
  have fin: "((if sr_terminal report = None then [NoTerminal] else []) = []
      \<and> (case sr_terminal report of None \<Rightarrow> [] | Some t \<Rightarrow> reconcile_stream_totals t inventory) = [])
      \<longleftrightarrow> (\<exists>t. sr_terminal report = Some t \<and> totals_ok t inventory)"
    by (cases "sr_terminal report") (simp_all add: totals_Nil)
  have L: "reconcile_report report inventory repo_root = [] \<longleftrightarrow>
      \<not> sr_torn_tail report
      \<and> (\<exists>t. sr_terminal report = Some t \<and> totals_ok t inventory)
      \<and> (\<exists>st. of_kind ''session_started'' (sr_records report) = [st] \<and> started_ok st inventory repo_root)
      \<and> fst ?f = [] \<and> ?t = []"
    unfolding reconcile_report_def Let_def split_beta append_is_Nil_conv if_Cons_Nil
      started_Nil fin [symmetric] by blast
  show ?thesis
    unfolding L truthful_stream_def using t files_Nil [OF d] by blast
qed

text \<open>
  C5 (the stream is believed exactly when it is true): over an inventory with distinct paths and
  distinct names, no finding is made about a parsed stream exactly when it is complete, names each
  declared file once with every count in order, reports each declared test of each file exactly
  once as passed and no other, and ends in the totals that follow.
\<close>

theorem report_accepted_iff_truthful:
  assumes "well_formed inventory"
  shows "reconcile_report report inventory repo_root = [] \<longleftrightarrow> truthful_stream report inventory repo_root"
  using assms by (rule report_accepted_iff_truthful')

text \<open>What the console says of the inventory.\<close>

definition console_truthful :: "str \<Rightarrow> inventory \<Rightarrow> str \<Rightarrow> bool" where
  "console_truthful output inventory repo_root \<longleftrightarrow>
     (\<exists>h. re_find_all HEADER_RE output = [h] \<and> matched h 1 = repo_root
        \<and> read_int (matched h 2) = Inr (int (length (inv_paths inventory)))
        \<and> read_int (matched h 3) = Inr 0)
     \<and> (\<forall>(verdict, _)\<in>set (verdict_rows output). verdict = lit ''PASS'')
     \<and> snd ` set (verdict_rows output) = set (inv_paths inventory)
     \<and> (\<exists>m. re_find_all SUMMARY_RE output = [m]
        \<and> read_int (matched m 1) = Inr (total_tests inventory)
        \<and> (\<forall>n\<in>{2, 3, 5, 6, 7}. \<forall>raw. group m n = Some raw \<longrightarrow> read_int raw = Inr 0)
        \<and> strip (re_remove CACHE_COUNTS_RE (matched m 4)) = [])"

lemma header_clean:
  "reconcile_header output inventory repo_root = Inr [] \<longleftrightarrow>
     (\<exists>h. re_find_all HEADER_RE output = [h] \<and> matched h 1 = repo_root
        \<and> read_int (matched h 2) = Inr (int (length (inv_paths inventory)))
        \<and> read_int (matched h 3) = Inr 0)"
  by (cases "re_find_all HEADER_RE output" rule: remdups_adj.cases)
    (auto simp: reconcile_header_def rbind_Inr)

lemma paths_clean:
  "reconcile_paths output inventory = [] \<longleftrightarrow>
     (\<forall>(verdict, _)\<in>set (verdict_rows output). verdict = lit ''PASS'')
     \<and> snd ` set (verdict_rows output) = set (inv_paths inventory)"
proof -
  have sk: "sort (remdups xs) = [] \<longleftrightarrow> xs = []" for xs :: "(str \<times> str) list"
    by (metis set_empty set_remdups set_sort)
  let ?rows = "verdict_rows output"
  show ?thesis
  proof (cases "\<forall>row\<in>set ?rows. fst row = lit ''PASS''")
    case True
    then have "filter (\<lambda>row. fst row = lit ''PASS'') ?rows = ?rows"
      by (rule filter_True)
    with True show ?thesis
      unfolding reconcile_paths_def Let_def append_is_Nil_conv if_Cons_Nil not_not sk filter_empty_conv case_prod_beta
      by (simp del: lit_Cons)
  next
    case False
    then show ?thesis
      unfolding reconcile_paths_def Let_def append_is_Nil_conv if_Cons_Nil not_not sk filter_empty_conv case_prod_beta
      by blast
  qed
qed

lemma band_zero_clean:
  "(rmap (band_zero m) ks = Inr zs \<and> concat zs = []) \<longleftrightarrow>
     zs = map (\<lambda>_. []) ks \<and> (\<forall>(n, _)\<in>set ks. \<forall>raw. group m n = Some raw \<longrightarrow> read_int raw = Inr 0)"
proof (induction ks arbitrary: zs)
  case (Cons k ks)
  obtain n l where k: "k = (n, l)" by force
  have z: "band_zero m (n, l) = Inr [] \<longleftrightarrow> (\<forall>raw. group m n = Some raw \<longrightarrow> read_int raw = Inr 0)"
    by (auto simp: band_zero_def rbind_Inr split: option.splits)
  have "(rmap (band_zero m) (k # ks) = Inr zs \<and> concat zs = []) \<longleftrightarrow>
      (\<exists>ys. zs = [] # ys \<and> band_zero m (n, l) = Inr [] \<and> rmap (band_zero m) ks = Inr ys \<and> concat ys = [])"
    by (auto simp: k rbind_Inr)
  then show ?case
    using Cons unfolding z by (auto simp: k)
qed (auto)

lemma totals_clean:
  "reconcile_totals output inventory = Inr [] \<longleftrightarrow>
     (\<exists>m. re_find_all SUMMARY_RE output = [m]
        \<and> read_int (matched m 1) = Inr (total_tests inventory)
        \<and> (\<forall>n\<in>{2, 3, 5, 6, 7}. \<forall>raw. group m n = Some raw \<longrightarrow> read_int raw = Inr 0)
        \<and> strip (re_remove CACHE_COUNTS_RE (matched m 4)) = [])"
proof (cases "re_find_all SUMMARY_RE output" rule: remdups_adj.cases)
  case (2 m)
  let ?ks = "[(2, ''failed''), (3, ''skipped''), (5, ''excluded''), (6, ''not run''), (7, ''deselected'')]"
  have "(\<exists>zs. rmap (band_zero m) ?ks = Inr zs \<and> concat zs = []) \<longleftrightarrow>
      (\<forall>n\<in>{2, 3, 5, 6, 7}. \<forall>raw. group m n = Some raw \<longrightarrow> read_int raw = Inr 0)"
    unfolding band_zero_clean by simp
  then show ?thesis
    by (auto simp: 2 reconcile_totals_def rbind_Inr Let_def simp del: rmap.simps concat_eq_Nil_conv)
qed (simp_all add: reconcile_totals_def)

lemma reconcile_clean:
  assumes "well_formed inventory"
  shows "reconcile output inventory repo_root exit_code stream_text truncated = Inr [] \<longleftrightarrow>
     exit_code = 0 \<and> \<not> truncated
     \<and> (\<exists>report. parse_stream True stream_text = Inr report \<and> truthful_stream report inventory repo_root)
     \<and> console_truthful output inventory repo_root"
proof -
  have s: "reconcile_stream stream_text inventory repo_root = Inr [] \<longleftrightarrow>
      (\<exists>report. parse_stream True stream_text = Inr report \<and> truthful_stream report inventory repo_root)"
    using report_accepted_iff_truthful' [OF assms]
    by (auto simp: reconcile_stream_def split: sum.splits stream_exn.splits)
  show ?thesis
    unfolding console_truthful_def header_clean [symmetric] paths_clean [symmetric, unfolded conj_assoc]
      totals_clean [symmetric] s [symmetric]
    by (auto simp: reconcile_def rbind_Inr paths_clean)
qed

text \<open>
  A clean comparison: over a well-formed inventory nothing is found exactly when mtest exited
  with 0, no output was lost, the stream parses and is truthful, and the console text names the
  same root, the same files as passed and the same total of passed tests, with every other count
  zero.
\<close>

theorem reconcile_clean_iff:
  assumes "well_formed inventory"
  shows "reconcile output inventory repo_root exit_code stream_text truncated = Inr [] \<longleftrightarrow>
     exit_code = 0 \<and> \<not> truncated
     \<and> (\<exists>report. parse_stream True stream_text = Inr report \<and> truthful_stream report inventory repo_root)
     \<and> console_truthful output inventory repo_root"
  using assms by (rule reconcile_clean)

section \<open>A run that is accepted\<close>

definition eg_inventory :: inventory where
  "eg_inventory = [(lit ''tests/test_a.mojo'', [lit ''test_x''])]"

definition eg_records :: "jobj list" where
  "eg_records =
    [[(lit ''event'', JStr (lit ''stream'')), (lit ''version'', JInt 1)],
     [(lit ''event'', JStr (lit ''session_started'')), (lit ''root'', JStr (lit ''/r'')),
      (lit ''selected_count'', JInt 1), (lit ''excluded_count'', JInt 0)],
     [(lit ''event'', JStr (lit ''test_reported'')), (lit ''path'', JStr (lit ''tests/test_a.mojo'')),
      (lit ''name'', JStr (lit ''test_x'')), (lit ''outcome'', JStr (lit ''pass''))],
     [(lit ''event'', JStr (lit ''file_finished'')), (lit ''path'', JStr (lit ''tests/test_a.mojo'')),
      (lit ''outcome'', JStr (lit ''pass'')), (lit ''parse_disposition'', JStr (lit ''parsed'')),
      (lit ''passed_tests'', JInt 1), (lit ''failed_tests'', JInt 0), (lit ''skipped_tests'', JInt 0),
      (lit ''deselected_tests'', JInt 0), (lit ''exit_status'', JInt 0), (lit ''signal_number'', JInt 0),
      (lit ''attempts_used'', JInt 1), (lit ''flaky'', JBool False)],
     [(lit ''event'', JStr (lit ''session_finished'')), (lit ''exit_code'', JInt 0),
      (lit ''test_counts'', JObj [(lit ''passed'', JInt 1), (lit ''failed'', JInt 0),
         (lit ''skipped'', JInt 0), (lit ''deselected'', JInt 0)]),
      (lit ''summary'', JObj [(lit ''pass'', JInt 1), (lit ''fail'', JInt 0)])]]"

definition eg_output :: str where
  "eg_output = lines_of [lit ''root: /r  selected: 1 files  excluded: 0'',
     lit ''PASS  tests/test_a.mojo  0.1s'',
     lit ''===== 1 passed, 0 failed, 0 skipped, builds: 1, cached: 0 (0 excluded, 0 not run) in 1.5s ====='']"

theorem report_accepted_iff_truthful_witness:
  "truthful_stream \<lparr> sr_records = eg_records, sr_version = Some (JInt 1), sr_terminal = Some (last eg_records),
     sr_torn_tail = False \<rparr> eg_inventory (lit ''/r'')"
proof -
  have "well_formed eg_inventory" by code_simp
  moreover have "reconcile_report \<lparr> sr_records = eg_records, sr_version = Some (JInt 1),
     sr_terminal = Some (last eg_records), sr_torn_tail = False \<rparr> eg_inventory (lit ''/r'') = []"
    by code_simp
  ultimately show ?thesis
    using report_accepted_iff_truthful by blast
qed

definition eg_stream :: str where
  "eg_stream = lines_of (map (\<lambda>ob. json_text (JObj ob)) eg_records)"

lemma eg_reconcile: "reconcile eg_output eg_inventory (lit ''/r'') 0 eg_stream False = Inr []"
  by code_simp

lemma eg_well_formed: "well_formed eg_inventory"
  by code_simp

theorem reconcile_clean_iff_witness:
  "console_truthful eg_output eg_inventory (lit ''/r'')"
  using reconcile_clean_iff [OF eg_well_formed] eg_reconcile by blast

end
