(* ===== verification/Selfhost.thy ===== *)
theory Selfhost
  imports Supervise Reconcile
begin

text \<open>
  scripts/harness/selfhost.py end to end: the artifacts of one invocation, the supervised run of
  mtest, the event stream read back, the evidence published, and the exit status.  What the world
  answers (the supervisor, the file system, the two streams of the child) is the record
  \<open>world\<close>.
\<close>

section \<open>One supervised run\<close>

definition CAPTURE_LIMIT_BYTES :: int where
  "CAPTURE_LIMIT_BYTES = 16 * 1024 * 1024"

definition INTERNAL_ERROR_EXIT_CODE :: int where
  "INTERNAL_ERROR_EXIT_CODE = 70"

text \<open>How the supervisor ends: with a value, with an \<open>Exception\<close>, or with an exception that is none.\<close>

datatype supervisor_result = SupReturns ending | SupRaises | SupPropagates

record supervision =
  su_result :: supervisor_result
  su_stdout :: "(pass_result \<times> written) list"
  su_stderr :: "(pass_result \<times> written) list"
  su_sentinel :: path_state

record supervised_run =
  sr_termination :: ending
  sr_stdout :: str
  sr_stderr :: str
  sr_truncated :: bool

text \<open>\<open>None\<close> is the exception that passes through.\<close>

definition run_mtest ::
  "bool \<Rightarrow> bool \<Rightarrow> bool \<Rightarrow> (str list \<Rightarrow> pyfloat \<Rightarrow> supervision) \<Rightarrow> str list \<Rightarrow> pyfloat \<Rightarrow> supervised_run option" where
  "run_mtest sentinel_created has_stdout has_stderr supervisor command seconds =
     (if \<not> sentinel_created
      then Some \<lparr> sr_termination = HarnessError SentinelNotCreated, sr_stdout = [], sr_stderr = [], sr_truncated = False \<rparr>
      else
        let sv = supervisor command seconds;
            stdout = fold TeeCapture_put (su_stdout sv) (TeeCapture has_stdout CAPTURE_LIMIT_BYTES);
            stderr = fold TeeCapture_put (su_stderr sv) (TeeCapture has_stderr CAPTURE_LIMIT_BYTES)
        in case su_result sv of
             SupPropagates \<Rightarrow> None
           | SupRaises \<Rightarrow>
               Some \<lparr> sr_termination = HarnessError SupervisorRaised, sr_stdout = TeeCapture_finish stdout,
                      sr_stderr = TeeCapture_finish stderr, sr_truncated = False \<rparr>
           | SupReturns t \<Rightarrow>
               Some \<lparr> sr_termination = validate_deadline_proof t (Some (su_sentinel sv)),
                      sr_stdout = TeeCapture_finish stdout, sr_stderr = TeeCapture_finish stderr,
                      sr_truncated = (tc_truncated stdout \<or> tc_truncated stderr) \<rparr>)"

section \<open>Artifacts and evidence\<close>

definition ARTIFACT_DIR :: str where
  "ARTIFACT_DIR = lit ''build/tests''"

record run_artifacts =
  ra_stream :: str
  ra_sentinel :: str

text \<open>The nonce is \<open>secrets.token_hex\<close>.\<close>

definition artifacts_of :: "str \<Rightarrow> nat \<Rightarrow> str \<Rightarrow> run_artifacts" where
  "artifacts_of repo_root pid nonce =
     (let token = decimal pid @ [45] @ nonce;
          directory = repo_root @ [47] @ ARTIFACT_DIR
      in \<lparr> ra_stream = directory @ lit ''/selfhost.'' @ token @ lit ''.ndjson'',
           ra_sentinel = directory @ lit ''/selfhost.'' @ token @ lit ''.run-deadline'' \<rparr>)"

text \<open>The stable path and this process's staging file: their contents, if they exist.\<close>

record evidence =
  ev_latest :: "bytes option"
  ev_staging :: "bytes option"

text \<open>\<open>copyfile\<close> fails after copying some bytes; the two later calls succeed or fail whole.\<close>

record publish_answers =
  pa_copy_fails :: "nat option"
  pa_replace_fails :: bool
  pa_unlink_fails :: bool

definition drop_staging :: "publish_answers \<Rightarrow> evidence \<Rightarrow> evidence" where
  "drop_staging env ev = (if pa_unlink_fails env then ev else ev \<lparr> ev_staging := None \<rparr>)"

text \<open>The first component is whether a failure is reported.  \<open>stream\<close> is the content of the
  stream when it is a regular file and no link.\<close>

definition publish_latest_stream :: "publish_answers \<Rightarrow> bytes option \<Rightarrow> evidence \<Rightarrow> bool \<times> evidence" where
  "publish_latest_stream env stream ev =
     (case stream of
        None \<Rightarrow> (False, ev)
      | Some content \<Rightarrow>
          (case pa_copy_fails env of
             Some n \<Rightarrow> (True, drop_staging env (ev \<lparr> ev_staging := Some (take n content) \<rparr>))
           | None \<Rightarrow>
               let ev = ev \<lparr> ev_staging := Some content \<rparr>
               in if pa_replace_fails env then (True, drop_staging env ev)
                  else (False, ev \<lparr> ev_latest := ev_staging ev, ev_staging := None \<rparr>)))"

section \<open>Reading the stream\<close>

definition JSON_STREAM_LIMIT_BYTES :: int where
  "JSON_STREAM_LIMIT_BYTES = 64 * 1024 * 1024"

text \<open>Text mode reads every line end as a line feed.\<close>

fun universal_newlines :: "str \<Rightarrow> str" where
  "universal_newlines [] = []"
| "universal_newlines (c # r) =
     (if c = 13 then 10 # universal_newlines (if r \<noteq> [] \<and> hd r = 10 then tl r else r)
      else c # universal_newlines r)"

record stream_file =
  sf_state :: path_state
  sf_content :: bytes
  sf_unreadable :: bool

datatype read_failure = NoStream | StreamTooLarge | StreamUnreadable

definition read_stream :: "stream_file \<Rightarrow> read_failure + str" where
  "read_stream f =
     (if \<not> path_is_file (sf_state f) \<or> path_is_symlink (sf_state f) then Inl NoStream
      else if JSON_STREAM_LIMIT_BYTES < int (length (sf_content f)) then Inl StreamTooLarge
      else if sf_unreadable f then Inl StreamUnreadable
      else Inr (universal_newlines (utf8_decode True (sf_content f))))"

section \<open>Verification\<close>

record world =
  w_fs :: repo_fs
  w_timeout :: "str option"
  w_parse_float :: "str \<Rightarrow> pyfloat option"
  w_mtest_exists :: bool
  w_mkdir_fails :: bool
  w_sentinel_created :: bool
  w_has_stdout :: bool
  w_has_stderr :: bool
  w_supervisor :: "str list \<Rightarrow> pyfloat \<Rightarrow> supervision"
  w_stream :: stream_file
  w_publish :: publish_answers
  w_evidence :: evidence

text \<open>A verdict is an exit status or a signal the process raises on itself; an exception of the
  three classes the command line catches is \<open>Inl\<close>, one that passes through is \<open>None\<close>.\<close>

type_synonym verdict = "selfhost_exn + exit_action"

definition verify_run :: "world \<Rightarrow> run_artifacts \<Rightarrow> inventory \<Rightarrow> str \<Rightarrow> str \<Rightarrow> str \<Rightarrow> path list \<Rightarrow> str \<Rightarrow>
    pyfloat \<Rightarrow> verdict option" where
  "verify_run w artifacts inventory repo_root mtest_path native_object roots workers seconds =
     (let command = mtest_argv mtest_path native_object roots workers (ra_stream artifacts)
      in case run_mtest (w_sentinel_created w) (w_has_stdout w) (w_has_stderr w) (w_supervisor w) command seconds of
           None \<Rightarrow> None
         | Some run \<Rightarrow> Some
             (case sr_termination run of
                TimedOut \<Rightarrow> Inr (ExitWith TIMEOUT_EXIT_CODE)
              | HarnessError _ \<Rightarrow> Inr (ExitWith INTERNAL_ERROR_EXIT_CODE)
              | Signaled signo \<Rightarrow> Inr (exit_with_termination (Signaled signo))
              | Cancelled signo \<Rightarrow> Inr (exit_with_termination (Cancelled signo))
              | Exited code \<Rightarrow>
                  (case read_stream (w_stream w) of
                     Inl _ \<Rightarrow> Inr (ExitWith 1)
                   | Inr stream_text \<Rightarrow>
                       rbind (reconcile (sr_stdout run) inventory repo_root code stream_text (sr_truncated run))
                         (\<lambda>failures. Inr (ExitWith (if failures \<noteq> [] then 1 else 0))))))"

definition stream_evidence :: "stream_file \<Rightarrow> bytes option" where
  "stream_evidence f =
     (if path_is_file (sf_state f) \<and> \<not> path_is_symlink (sf_state f) then Some (sf_content f) else None)"

text \<open>The evidence is published whatever the run's ending; the second component is the evidence after.\<close>

definition verify :: "world \<Rightarrow> str list \<Rightarrow> str \<Rightarrow> str \<Rightarrow> str \<Rightarrow> str \<Rightarrow> nat \<Rightarrow> str \<Rightarrow> verdict option \<times> evidence" where
  "verify w roots repo_root mtest_path native_object workers pid nonce =
     (case rbind (normalized_roots (w_fs w) roots) (\<lambda>resolved.
           rbind (derive_inventory (w_fs w) resolved) (\<lambda>inventory.
           rbind (timeout_seconds (w_parse_float w) (w_timeout w)) (\<lambda>seconds.
             Inr (resolved, inventory, seconds)))) of
        Inl e \<Rightarrow> (Some (Inl e), w_evidence w)
      | Inr (resolved, inventory, seconds) \<Rightarrow>
          if \<not> w_mtest_exists w then (Some (Inr (ExitWith 1)), w_evidence w)
          else if w_mkdir_fails w then (Some (Inl OSError), w_evidence w)
          else
            (verify_run w (artifacts_of repo_root pid nonce) inventory repo_root mtest_path native_object
               resolved workers seconds,
             snd (publish_latest_stream (w_publish w) (stream_evidence (w_stream w)) (w_evidence w))))"

definition selfhost_main :: "world \<Rightarrow> str list \<Rightarrow> str \<Rightarrow> str \<Rightarrow> str \<Rightarrow> nat \<Rightarrow> str \<Rightarrow> exit_action option \<times> evidence" where
  "selfhost_main w argv repo_root mtest_path native_object pid nonce =
     (case parse_request argv DEFAULT_WORKERS of
        Inl _ \<Rightarrow> (Some (ExitWith 2), w_evidence w)
      | Inr request \<Rightarrow>
          (case verify w (rq_roots request) repo_root mtest_path native_object (rq_workers request) pid nonce of
             (None, ev) \<Rightarrow> (None, ev)
           | (Some (Inl _), ev) \<Rightarrow> (Some (ExitWith 2), ev)
           | (Some (Inr action), ev) \<Rightarrow> (Some action, ev)))"

section \<open>Properties\<close>

lemma derived_well_formed: "derive_inventory fs roots = Inr found \<Longrightarrow> well_formed found"
proof -
  assume "derive_inventory fs roots = Inr found"
  then obtain tests where t: "add_roots fs roots [] = Inr tests" "found = sort_key fst tests"
    by (auto simp: derive_inventory_def rbind_Inr split: if_splits)
  have ok: "inv_ok fs (\<Union> (files_of_root fs ` set roots)) tests"
    using add_roots_ok [OF _ t(1), of "{}"] by (simp add: inv_ok_def)
  have "distinct (map fst found)"
    using ok unfolding t(2) mset_eq_imp_distinct_iff [OF mset_map_fst_sort] by (simp add: inv_ok_def)
  moreover have "list_all (\<lambda>(_, names). distinct names) found"
    using ok unfolding inv_ok_def t(2)
    by (fastforce simp: list_all_iff entry_ok_def independent_test_function_names_def Let_def split: if_splits)
  ultimately show ?thesis by (simp add: well_formed_def inv_paths_def)
qed

lemma validated_Exited:
  "validate_deadline_proof t s = Exited c \<Longrightarrow> t = Exited c \<and> (s = None \<or> s = Some Absent)"
  by (cases s) (auto simp: validate_deadline_proof_def Let_def path_exists_def path_is_symlink_def
      split: if_splits, (metis path_state.exhaust)+)

lemma tee_complete:
  assumes "0 \<le> n" "\<not> tc_truncated (fold TeeCapture_put vs (TeeCapture p n))"
  shows "TeeCapture_finish (fold TeeCapture_put vs (TeeCapture p n)) = utf8_decode True (concat (map (encoded \<circ> snd) vs))"
  using tee.fold_put [OF TeeCapture_ok_init [OF assms(1)], of vs p] assms
  by (auto simp: TeeCapture_def TeeCapture_finish_def)

lemma run_mtest_Exited:
  assumes "run_mtest created so se supervisor command seconds = Some run" "sr_termination run = Exited code"
  shows "su_result (supervisor command seconds) = SupReturns (Exited code)
    \<and> su_sentinel (supervisor command seconds) = Absent
    \<and> (\<not> sr_truncated run \<longrightarrow> sr_stdout run
          = utf8_decode True (concat (map (encoded \<circ> snd) (su_stdout (supervisor command seconds)))))"
  using assms tee_complete [of CAPTURE_LIMIT_BYTES] validated_Exited
  by (fastforce simp: run_mtest_def Let_def CAPTURE_LIMIT_BYTES_def split: if_splits supervisor_result.splits)

lemma validated_same:
  "validate_deadline_proof t (Some p) = t' \<Longrightarrow> \<not> is_harness_error t' \<Longrightarrow>
     t = t' \<and> (t' = TimedOut \<longrightarrow> p = RegularFile)"
  by (cases p) (auto simp: validate_deadline_proof_def Let_def path_exists_def path_is_symlink_def
      path_is_file_def split: if_splits)

lemma run_mtest_proved:
  assumes "run_mtest created so se supervisor command seconds = Some run" "\<not> is_harness_error (sr_termination run)"
  shows "su_result (supervisor command seconds) = SupReturns (sr_termination run)
    \<and> (sr_termination run = TimedOut \<longrightarrow> su_sentinel (supervisor command seconds) = RegularFile)"
proof -
  have "\<exists>t. su_result (supervisor command seconds) = SupReturns t
      \<and> sr_termination run = validate_deadline_proof t (Some (su_sentinel (supervisor command seconds)))"
    using assms by (auto simp: run_mtest_def Let_def split: if_splits supervisor_result.splits)
  then obtain t where t: "su_result (supervisor command seconds) = SupReturns t"
      "validate_deadline_proof t (Some (su_sentinel (supervisor command seconds))) = sr_termination run"
    by auto
  then show ?thesis using validated_same [OF t(2) assms(2)] by simp
qed

lemma verify_run_green:
  assumes "verify_run w artifacts found repo_root mtest_path native_object roots workers seconds = Some (Inr (ExitWith 0))"
  shows "\<exists>run code body. run_mtest (w_sentinel_created w) (w_has_stdout w) (w_has_stderr w) (w_supervisor w)
        (mtest_argv mtest_path native_object roots workers (ra_stream artifacts)) seconds = Some run
     \<and> sr_termination run = Exited code \<and> read_stream (w_stream w) = Inr body
     \<and> reconcile (sr_stdout run) found repo_root code body (sr_truncated run) = Inr []"
  using assms
  by (auto simp: verify_run_def Let_def TIMEOUT_EXIT_CODE_def INTERNAL_ERROR_EXIT_CODE_def exit_with_termination_def
      rbind_Inr split: option.splits ending.splits sum.splits if_splits)

lemma main_verify:
  assumes "fst (selfhost_main w argv repo_root mtest_path native_object pid nonce) = Some action" "action \<noteq> ExitWith 2"
    "action \<noteq> ExitWith 1"
  shows "\<exists>request roots found seconds. parse_request argv DEFAULT_WORKERS = Inr request
     \<and> normalized_roots (w_fs w) (rq_roots request) = Inr roots
     \<and> derive_inventory (w_fs w) roots = Inr found
     \<and> timeout_seconds (w_parse_float w) (w_timeout w) = Inr seconds
     \<and> verify_run w (artifacts_of repo_root pid nonce) found repo_root mtest_path native_object roots
         (rq_workers request) seconds = Some (Inr action)"
  using assms
  by (auto simp: selfhost_main_def verify_def rbind_Inr split: sum.splits option.splits prod.splits if_splits)

text \<open>
  C2 (green means faithful): the command line exits with 0 only when the sources gave an inventory,
  the supervisor reported that mtest exited with 0 and had cleared the deadline sentinel, the
  stream read back is a version-1 stream that is truthful about the inventory, and the console
  output, all of it, says the same.
\<close>

theorem selfhost_green_is_faithful:
  assumes "fst (selfhost_main w argv repo_root mtest_path native_object pid nonce) = Some (ExitWith 0)"
  shows "\<exists>request roots found seconds sv body report.
     parse_request argv DEFAULT_WORKERS = Inr request
     \<and> normalized_roots (w_fs w) (rq_roots request) = Inr roots
     \<and> derive_inventory (w_fs w) roots = Inr found
     \<and> sv = w_supervisor w (mtest_argv mtest_path native_object roots (rq_workers request)
           (ra_stream (artifacts_of repo_root pid nonce))) seconds
     \<and> su_result sv = SupReturns (Exited 0) \<and> su_sentinel sv = Absent
     \<and> read_stream (w_stream w) = Inr body \<and> parse_stream True body = Inr report
     \<and> truthful_stream report found repo_root
     \<and> console_truthful (utf8_decode True (concat (map (encoded \<circ> snd) (su_stdout sv)))) found repo_root"
proof -
  obtain request roots found seconds where m: "parse_request argv DEFAULT_WORKERS = Inr request"
      "normalized_roots (w_fs w) (rq_roots request) = Inr roots" "derive_inventory (w_fs w) roots = Inr found"
    and v: "verify_run w (artifacts_of repo_root pid nonce) found repo_root mtest_path native_object roots
         (rq_workers request) seconds = Some (Inr (ExitWith 0))"
    using main_verify [OF assms] by auto
  obtain run code body where r: "run_mtest (w_sentinel_created w) (w_has_stdout w) (w_has_stderr w) (w_supervisor w)
        (mtest_argv mtest_path native_object roots (rq_workers request) (ra_stream (artifacts_of repo_root pid nonce))) seconds = Some run"
      "sr_termination run = Exited code" "read_stream (w_stream w) = Inr body"
      "reconcile (sr_stdout run) found repo_root code body (sr_truncated run) = Inr []"
    using verify_run_green [OF v] by blast
  from r(4) obtain report where c: "code = 0" "\<not> sr_truncated run" "parse_stream True body = Inr report"
      "truthful_stream report found repo_root" "console_truthful (sr_stdout run) found repo_root"
    unfolding reconcile_clean [OF derived_well_formed [OF m(3)]] by blast
  show ?thesis
    using m r(3) c run_mtest_Exited [OF r(1,2)] by metis
qed

text \<open>A world in which a run of one file with one test is accepted.\<close>

definition eg_world :: world where
  "eg_world =
     \<lparr> w_fs = \<lparr> fs_exists = (\<lambda>_. True), fs_symlink = (\<lambda>_. False), fs_file = (\<lambda>p. length p = 2),
         fs_walk = (\<lambda>p. [WalkDir p [lit ''test_a.mojo'']]), fs_read = (\<lambda>_. Inr (lit ''def test_x():'')) \<rparr>,
       w_timeout = None, w_parse_float = (\<lambda>_. None), w_mtest_exists = True, w_mkdir_fails = False,
       w_sentinel_created = True, w_has_stdout = True, w_has_stderr = True,
       w_supervisor = (\<lambda>_ _. \<lparr> su_result = SupReturns (Exited 0), su_stdout = [(PassOk, WBytes eg_output)],
                            su_stderr = [], su_sentinel = Absent \<rparr>),
       w_stream = \<lparr> sf_state = RegularFile, sf_content = eg_stream,
                    sf_unreadable = False \<rparr>,
       w_publish = \<lparr> pa_copy_fails = None, pa_replace_fails = False, pa_unlink_fails = False \<rparr>,
       w_evidence = \<lparr> ev_latest = None, ev_staging = None \<rparr> \<rparr>"

lemma universal_newlines_id: "13 \<notin> set s \<Longrightarrow> universal_newlines s = s"
  by (induction s) auto

lemma eg_bytes:
  "list_all (\<lambda>b. 0 \<le> b \<and> b < 128 \<and> b \<noteq> 13) eg_output" "length eg_output \<le> 1000"
  "list_all (\<lambda>b. 0 \<le> b \<and> b < 128 \<and> b \<noteq> 13) eg_stream" "length eg_stream \<le> 1000"
  by code_simp+

lemma eg_world_green:
  "fst (selfhost_main eg_world [lit ''tests''] (lit ''/r'') (lit ''m'') (lit ''n'') 7 (lit ''00'')) = Some (ExitWith 0)"
proof -
  have ascii: "utf8_decode True eg_output = eg_output" "utf8_decode True eg_stream = eg_stream"
    using eg_bytes(1,3) by (auto intro!: utf8_decode_ascii simp: list_all_iff)
  have nl: "universal_newlines eg_stream = eg_stream"
    using eg_bytes(3) by (auto intro!: universal_newlines_id simp: list_all_iff)
  have stream: "read_stream (w_stream eg_world) = Inr eg_stream"
    using eg_bytes(4) ascii nl
    by (simp add: read_stream_def eg_world_def path_is_file_def path_is_symlink_def JSON_STREAM_LIMIT_BYTES_def)
  have run: "run_mtest True True True (w_supervisor eg_world) command seconds =
      Some \<lparr> sr_termination = Exited 0, sr_stdout = eg_output, sr_stderr = [], sr_truncated = False \<rparr>"
    for command seconds
    using eg_bytes(2) ascii
    by (simp add: run_mtest_def eg_world_def Let_def TeeCapture_put_def TeeCapture_write_def TeeCapture_def
        TeeCapture_finish_def CAPTURE_LIMIT_BYTES_def validate_deadline_proof_def path_exists_def
        path_is_symlink_def)
  have parts: "parse_request [lit ''tests''] DEFAULT_WORKERS = Inr \<lparr> rq_workers = lit ''auto'', rq_roots = [lit ''tests''] \<rparr>"
    "normalized_roots (w_fs eg_world) [lit ''tests''] = Inr [[lit ''tests'']]"
    "derive_inventory (w_fs eg_world) [[lit ''tests'']] = Inr eg_inventory"
    "timeout_seconds (w_parse_float eg_world) (w_timeout eg_world) = Inr SELFHOST_TIMEOUT_SECONDS"
    "w_mtest_exists eg_world" "\<not> w_mkdir_fails eg_world" "w_sentinel_created eg_world"
    "w_has_stdout eg_world" "w_has_stderr eg_world"
    by code_simp+
  show ?thesis
    by (simp only: selfhost_main_def parts verify_def rbind_simps sum.case prod.case request.select_convs
        if_True if_False not_True_eq_False not_False_eq_True verify_run_def Let_def run option.case ending.case
        supervised_run.select_convs stream eg_reconcile simp_thms fst_conv)
qed

theorem selfhost_green_is_faithful_witness:
  "\<exists>found report. derive_inventory (w_fs eg_world) [[lit ''tests'']] = Inr found \<and> truthful_stream report found (lit ''/r'')"
proof -
  have roots: "normalized_roots (w_fs eg_world) [lit ''tests''] = Inr [[lit ''tests'']]"
    and request: "parse_request [lit ''tests''] DEFAULT_WORKERS = Inr \<lparr> rq_workers = lit ''auto'', rq_roots = [lit ''tests''] \<rparr>"
    by code_simp+
  show ?thesis
    using selfhost_green_is_faithful [OF eg_world_green] roots request by auto
qed

text \<open>
  The exit status: the command line ends with 0, 1, 2, 70, 124 or a signal it raises on
  itself; it ends with 124 only when the supervisor reported a timeout and its sentinel is still a
  plain file, and on a signal only when the supervisor reported that signal.
\<close>

theorem selfhost_exit_status:
  assumes "fst (selfhost_main w argv repo_root mtest_path native_object pid nonce) = Some action"
  shows "(case action of ExitWith c \<Rightarrow> c \<in> {0, 1, 2, INTERNAL_ERROR_EXIT_CODE, TIMEOUT_EXIT_CODE} | RaiseSignal _ _ _ \<Rightarrow> True)
    \<and> (action = ExitWith TIMEOUT_EXIT_CODE \<longrightarrow>
         (\<exists>command seconds. su_result (w_supervisor w command seconds) = SupReturns TimedOut
            \<and> su_sentinel (w_supervisor w command seconds) = RegularFile))
    \<and> (\<forall>reset signo status. action = RaiseSignal reset signo status \<longrightarrow>
         status = 128 + signo \<and> (\<exists>command seconds. su_result (w_supervisor w command seconds)
            \<in> {SupReturns (Signaled signo), SupReturns (Cancelled signo)}))"
proof (cases "action = ExitWith 2 \<or> action = ExitWith 1")
  case True
  then show ?thesis by (auto simp: TIMEOUT_EXIT_CODE_def)
next
  case False
  then obtain request :: request and roots found seconds where
    v: "verify_run w (artifacts_of repo_root pid nonce) found repo_root mtest_path native_object roots
         (rq_workers request) seconds = Some (Inr action)"
    using main_verify [OF assms] by blast
  define command where "command = mtest_argv mtest_path native_object roots (rq_workers request)
      (ra_stream (artifacts_of repo_root pid nonce))"
  from v obtain run where run: "run_mtest (w_sentinel_created w) (w_has_stdout w) (w_has_stderr w)
      (w_supervisor w) command seconds = Some run"
    by (auto simp: verify_run_def Let_def command_def split: option.splits)
  have proved: "sr_termination run = t \<Longrightarrow> \<not> is_harness_error t \<Longrightarrow>
      su_result (w_supervisor w command seconds) = SupReturns t
      \<and> (t = TimedOut \<longrightarrow> su_sentinel (w_supervisor w command seconds) = RegularFile)" for t
    using run_mtest_proved [OF run] by auto
  show ?thesis
    using v run False proved
    by (cases "sr_termination run")
      (fastforce simp: verify_run_def Let_def command_def [symmetric] exit_with_termination_def rbind_Inr
        TIMEOUT_EXIT_CODE_def INTERNAL_ERROR_EXIT_CODE_def split: sum.splits if_splits)+
qed

theorem selfhost_exit_status_witness:
  "(case ExitWith 0 of ExitWith c \<Rightarrow> c \<in> {0, 1, 2, INTERNAL_ERROR_EXIT_CODE, TIMEOUT_EXIT_CODE} | RaiseSignal _ _ _ \<Rightarrow> True)"
  using selfhost_exit_status [OF eg_world_green] by blast

text \<open>
  Evidence is whole or old: publishing leaves the stable path with its old content or with the
  complete stream; a reported failure left it untouched, and success without a stream changes
  nothing.
\<close>

theorem published_evidence_whole:
  assumes "publish_latest_stream env stream ev = (failed, ev')"
  shows "(ev_latest ev' = ev_latest ev \<or> ev_latest ev' = stream)
    \<and> (failed \<longrightarrow> ev_latest ev' = ev_latest ev)
    \<and> (\<not> failed \<longrightarrow> (stream = None \<and> ev' = ev) \<or> (ev_latest ev' = stream \<and> ev_staging ev' = None))"
  using assms by (auto simp: publish_latest_stream_def drop_staging_def Let_def split: option.splits if_splits)

theorem published_evidence_whole_witness:
  "ev_latest (snd (publish_latest_stream \<lparr> pa_copy_fails = Some 1, pa_replace_fails = False, pa_unlink_fails = True \<rparr>
      (Some [1, 2]) \<lparr> ev_latest = Some [9], ev_staging = None \<rparr>)) = Some [9]"
proof -
  have "publish_latest_stream \<lparr> pa_copy_fails = Some 1, pa_replace_fails = False, pa_unlink_fails = True \<rparr>
      (Some [1, 2]) \<lparr> ev_latest = Some [9], ev_staging = None \<rparr>
    = (True, \<lparr> ev_latest = Some [9], ev_staging = Some [1] \<rparr>)"
    by code_simp
  from published_evidence_whole [OF this] this show ?thesis by simp
qed

end
