(* ===== verification/Json_Bytes.thy ===== *)
theory Json_Bytes
  imports Json Utf8
begin

text \<open>
  \<^verbatim>\<open>json.loads\<close> on bytes, as the release and canary scripts call it on a file's content: the
  encoding detected from the first bytes, the strict decoding with \<^verbatim>\<open>surrogatepass\<close>, and the
  parse of Json.  Also the canonical bytes the release scripts write, and their round trip.
\<close>

section \<open>Strict decoding\<close>

text \<open>A surrogate written as three bytes, which \<open>surrogatepass\<close> lets through.\<close>

fun encoded_surrogate :: "bytes \<Rightarrow> int option" where
  "encoded_surrogate (a # b # c # _) =
     (if a = 0xED \<and> 0xA0 \<le> b \<and> b < 0xC0 \<and> is_cont c
      then Some (0xD000 + (b - 0x80) * 64 + (c - 0x80)) else None)"
| "encoded_surrogate _ = None"

function utf8_strict :: "bytes \<Rightarrow> str option" where
  "utf8_strict s =
     (if s = [] then Some []
      else case utf8_step s of
             UEmit c n \<Rightarrow> map_option ((#) c) (utf8_strict (drop n s))
           | _ \<Rightarrow> (case encoded_surrogate s of
                     Some c \<Rightarrow> map_option ((#) c) (utf8_strict (drop 3 s))
                   | None \<Rightarrow> None))"
  by pat_completeness auto
termination
  by (relation "measure length") (auto dest: utf8_step_progress)

declare utf8_strict.simps [simp del]

text \<open>Code units of two and of four bytes.\<close>

fun units16 :: "bool \<Rightarrow> bytes \<Rightarrow> int list option" where
  "units16 big [] = Some []"
| "units16 big [a] = None"
| "units16 big (a # b # s) = map_option ((#) (if big then a * 256 + b else b * 256 + a)) (units16 big s)"

fun join16 :: "int list \<Rightarrow> str" where
  "join16 (a # b # s) =
     (if is_high a \<and> is_low b then join_surrogates a b # join16 s else a # join16 (b # s))"
| "join16 s = s"

fun units32 :: "bool \<Rightarrow> bytes \<Rightarrow> str option" where
  "units32 big [] = Some []"
| "units32 big (a # b # c # d # s) =
     (let u = (if big then ((a * 256 + b) * 256 + c) * 256 + d else ((d * 256 + c) * 256 + b) * 256 + a)
      in if u < 0x110000 then map_option ((#) u) (units32 big s) else None)"
| "units32 big _ = None"

section \<open>Detecting the encoding\<close>

definition decode_detected :: "bytes \<Rightarrow> str option" where
  "decode_detected b =
     (if startswith b [0x00, 0x00, 0xFE, 0xFF] then units32 True (drop 4 b)
      else if startswith b [0xFF, 0xFE, 0x00, 0x00] then units32 False (drop 4 b)
      else if startswith b [0xFE, 0xFF] then map_option join16 (units16 True (drop 2 b))
      else if startswith b [0xFF, 0xFE] then map_option join16 (units16 False (drop 2 b))
      else if startswith b [0xEF, 0xBB, 0xBF] then utf8_strict (drop 3 b)
      else if 4 \<le> length b \<and> b ! 0 = 0
        then (if b ! 1 \<noteq> 0 then map_option join16 (units16 True b) else units32 True b)
      else if 4 \<le> length b \<and> b ! 1 = 0
        then (if b ! 2 \<noteq> 0 \<or> b ! 3 \<noteq> 0 then map_option join16 (units16 False b) else units32 False b)
      else if length b = 2 \<and> b ! 0 = 0 then map_option join16 (units16 True b)
      else if length b = 2 \<and> b ! 1 = 0 then map_option join16 (units16 False b)
      else utf8_strict b)"

text \<open>\<open>json.loads(b)\<close>; \<open>None\<close> is a \<open>UnicodeDecodeError\<close>.\<close>

definition json_loads_bytes :: "bytes \<Rightarrow> jerr option + json" where
  "json_loads_bytes b =
     (case decode_detected b of
        None \<Rightarrow> Inl None
      | Some s \<Rightarrow> (case json_loads s of Inl e \<Rightarrow> Inl (Some e) | Inr v \<Rightarrow> Inr v))"

text \<open>
  The canonical form: \<open>json.dumps(v, ensure_ascii=True, separators=(",", ":"), sort_keys=True)\<close>,
  encoded, and a line feed.
\<close>

definition canonical_bytes :: "json \<Rightarrow> jerr + bytes" where
  "canonical_bytes v = rbind (json_dumps v) (\<lambda>s. Inr (utf8_encode s @ [10]))"

section \<open>Printed text is ASCII\<close>

definition ascii_text :: "int list \<Rightarrow> bool" where
  "ascii_text s = list_all (\<lambda>c. 0 < c \<and> c < 128) s"

lemma ascii_text_simps [simp]:
  "ascii_text []"
  "ascii_text (c # s) \<longleftrightarrow> 0 < c \<and> c < 128 \<and> ascii_text s"
  "ascii_text (s @ t) \<longleftrightarrow> ascii_text s \<and> ascii_text t"
  by (auto simp: ascii_text_def)

lemma utf8_encode_ascii: "ascii_text s \<Longrightarrow> utf8_encode s = s"
  by (induction s) (auto simp: utf8_encode1_def)

lemma utf8_strict_Nil [simp]: "utf8_strict [] = Some []"
  by (simp add: utf8_strict.simps)

lemma utf8_strict_Cons: "c < 128 \<Longrightarrow> utf8_strict (c # s) = map_option ((#) c) (utf8_strict s)"
  by (subst utf8_strict.simps) (simp add: utf8_step.simps(2))

lemma utf8_strict_ascii: "ascii_text s \<Longrightarrow> utf8_strict s = Some s"
  by (induction s) (simp_all add: utf8_strict_Cons)

lemma decode_detected_ascii: "ascii_text s \<Longrightarrow> decode_detected s = Some s"
proof -
  assume a: "ascii_text s"
  then have z: "n < length s \<Longrightarrow> s ! n \<noteq> 0" for n
    by (auto simp: ascii_text_def list_all_length)
  have "\<not> startswith s (c # p)" if "c = 0 \<or> 127 < c" for c p
    using a that by (cases s) auto
  moreover have "\<not> (4 \<le> length s \<and> s ! 0 = 0)" "\<not> (4 \<le> length s \<and> s ! 1 = 0)"
    "\<not> (length s = 2 \<and> s ! 0 = 0)" "\<not> (length s = 2 \<and> s ! 1 = 0)"
    using z [of 0] z [of 1] by (cases s; force)+
  ultimately show ?thesis
    unfolding decode_detected_def by (simp only: if_False utf8_strict_ascii [OF a] if_cancel) simp
qed

lemma hex_char_ascii: "0 \<le> d \<Longrightarrow> d < 16 \<Longrightarrow> 0 < hex_char d \<and> hex_char d < 128"
  by (auto simp: hex_char_def)

lemma u_escape_ascii: "ascii_text (u_escape c)"
  by (simp add: u_escape_def hex_char_ascii)

lemma json_char_ascii: "ascii_text (json_char c)"
  by (auto simp: json_char_def u_escape_ascii)

lemma ascii_concat: "\<forall>x\<in>set xs. ascii_text x \<Longrightarrow> ascii_text (concat xs)"
  by (induction xs) auto

lemma ascii_join: "ascii_text c \<Longrightarrow> \<forall>x\<in>set xs. ascii_text x \<Longrightarrow> ascii_text (join_with c xs)"
  by (induction c xs rule: join_with.induct) auto

lemma json_str_ascii: "ascii_text (json_str t)"
  by (simp add: json_str_def ascii_concat json_char_ascii)

lemma ascii_decimal: "ascii_text (decimal n)"
  using decimal_digits [of n] by (auto simp: ascii_text_def list_all_iff is_ascii_digit_def)

lemma json_text_ascii: "printable v \<Longrightarrow> ascii_text (json_text v)"
proof (induction v)
  case (JObj kvs)
  have "ascii_text (json_text v)" if "(k, v) \<in> set kvs" for k v
    using JObj that by (fastforce simp: list_all_iff)
  then show ?case
    by (auto intro!: ascii_join simp: json_str_ascii)
qed (auto intro!: ascii_join simp: list_all_iff json_str_ascii ascii_decimal int_repr_def)

section \<open>Canonical bytes are read back\<close>

lemma keeps_distinct_plain: "keeps_distinct plain_hooks"
  by (simp add: keeps_distinct_def plain_hooks_def dict_of_distinct)

lemma canonical_bytes_text:
  assumes "printable v"
  shows "canonical_bytes v = Inr (json_text (sort_keys v) @ [10])"
  using assms json_text_ascii [OF printable_sort_keys [OF assms]]
  by (simp add: canonical_bytes_def json_dumps_def printable_digits_fit utf8_encode_ascii)

lemma canonical_read_back:
  assumes "printable v" "canonical_bytes v = Inr b"
  shows "json_loads_bytes b = Inr (sort_keys v)"
proof -
  have p: "printable (sort_keys v)"
    using assms(1) by (rule printable_sort_keys)
  have b: "b = json_text (sort_keys v) @ [10]"
    using assms canonical_bytes_text by simp
  have "decode_detected b = Some b"
    using json_text_ascii [OF p] unfolding b by (intro decode_detected_ascii) simp
  moreover have "json_loads b = Inr (sort_keys v)"
    unfolding b json_loads_def
    by (rule loads_json_text [OF keeps_distinct_plain p]) (simp add: is_json_ws_def)
  ultimately show ?thesis
    by (simp add: json_loads_bytes_def)
qed

end
