(* ===== verification/Release_Checks.thy ===== *)
theory Release_Checks
  imports Json_Bytes
begin

text \<open>
  What the release scripts share: the patterns of versions, commits and digests, the exceptions
  their command lines catch, and a sequence of checks of which the first failing one raises.
\<close>

section \<open>Patterns\<close>

text \<open>\<open>0|[1-9][0-9]*\<close>\<close>

definition numeric_part :: "str \<Rightarrow> bool" where
  "numeric_part s \<longleftrightarrow> s \<noteq> [] \<and> list_all is_ascii_digit s \<and> (hd s = 48 \<longrightarrow> length s = 1)"

definition is_version :: "str \<Rightarrow> bool" where
  "is_version s \<longleftrightarrow> length (split_on 46 s) = 3 \<and> list_all numeric_part (split_on 46 s)"

definition is_tag :: "str \<Rightarrow> bool" where
  "is_tag s \<longleftrightarrow> (case s of [] \<Rightarrow> False | c # v \<Rightarrow> c = 118 \<and> is_version v)"

definition is_lower_hex :: "int \<Rightarrow> bool" where
  "is_lower_hex c \<longleftrightarrow> is_ascii_digit c \<or> (97 \<le> c \<and> c \<le> 102)"

definition is_sha :: "str \<Rightarrow> bool" where
  "is_sha s \<longleftrightarrow> length s = 40 \<and> list_all is_lower_hex s"

definition is_digest :: "str \<Rightarrow> bool" where
  "is_digest s \<longleftrightarrow> length s = 64 \<and> list_all is_lower_hex s"

section \<open>Values from JSON\<close>

text \<open>
  Comparisons of a parsed value.  The integer a float equals, if any, is an argument: the conversion
  of its text to binary is not modelled.
\<close>

definition truthy :: "(str \<Rightarrow> int option) \<Rightarrow> json \<Rightarrow> bool" where
  "truthy float_int v =
     (case v of
        JNull \<Rightarrow> False | JBool b \<Rightarrow> b | JInt n \<Rightarrow> n \<noteq> 0 | JFloat t \<Rightarrow> float_int t \<noteq> Some 0
      | JStr s \<Rightarrow> s \<noteq> [] | JArr vs \<Rightarrow> vs \<noteq> [] | JObj kvs \<Rightarrow> kvs \<noteq> [])"

definition equals_int :: "(str \<Rightarrow> int option) \<Rightarrow> json \<Rightarrow> int \<Rightarrow> bool" where
  "equals_int float_int v n =
     (case v of JInt m \<Rightarrow> m = n | JBool b \<Rightarrow> of_bool b = n | JFloat t \<Rightarrow> float_int t = Some n | _ \<Rightarrow> False)"

definition is_bool :: "json \<Rightarrow> bool" where
  "is_bool v = (case v of JBool _ \<Rightarrow> True | _ \<Rightarrow> False)"

section \<open>Checks\<close>

text \<open>The classes the command lines catch; a \<open>ValueError\<close> keeps the constant part of its message.\<close>

datatype release_exn = RValue string | RType | ROS

definition require :: "string \<Rightarrow> bool \<Rightarrow> release_exn + unit" where
  "require message ok = (if ok then Inr () else Inl (RValue message))"

fun checks :: "(release_exn + unit) list \<Rightarrow> release_exn + unit" where
  "checks [] = Inr ()"
| "checks (c # cs) = (case c of Inl e \<Rightarrow> Inl e | Inr _ \<Rightarrow> checks cs)"

text \<open>\<open>pattern.fullmatch(value)\<close>, which raises for a value that is no text.\<close>

definition require_match :: "string \<Rightarrow> (str \<Rightarrow> bool) \<Rightarrow> json \<Rightarrow> release_exn + unit" where
  "require_match message p v = (case v of JStr s \<Rightarrow> require message (p s) | _ \<Rightarrow> Inl RType)"

text \<open>\<open>value in {"...", ...}\<close>, which raises for an unhashable value.\<close>

definition require_member :: "string \<Rightarrow> str list \<Rightarrow> json \<Rightarrow> release_exn + unit" where
  "require_member message names v =
     (case v of JStr s \<Rightarrow> require message (s \<in> set names)
      | JArr _ \<Rightarrow> Inl RType | JObj _ \<Rightarrow> Inl RType | _ \<Rightarrow> Inl (RValue message))"

lemma require_Inr [simp]: "require m ok = Inr u \<longleftrightarrow> ok"
  by (simp add: require_def)

lemma require_match_Inr [simp]: "require_match m p v = Inr u \<longleftrightarrow> (\<exists>s. v = JStr s \<and> p s)"
  by (auto simp: require_match_def split: json.splits)

lemma require_member_Inr [simp]: "require_member m ns v = Inr u \<longleftrightarrow> (\<exists>s\<in>set ns. v = JStr s)"
  by (auto simp: require_member_def split: json.splits)

lemma checks_Inr: "checks cs = Inr u \<longleftrightarrow> (\<forall>c\<in>set cs. c = Inr ())"
  by (induction cs) (auto split: sum.splits)

declare checks.simps [simp del]

section \<open>Accepted text is ASCII\<close>

lemma numeric_part_ascii: "numeric_part s \<Longrightarrow> ascii_text s"
  by (auto simp: numeric_part_def ascii_text_def list_all_iff is_ascii_digit_def)

lemma is_version_ascii: "is_version s \<Longrightarrow> ascii_text s"
proof -
  assume "is_version s"
  then have "\<forall>x\<in>set (split_on 46 s). ascii_text x"
    by (auto simp: is_version_def list_all_iff numeric_part_ascii)
  then have "ascii_text (join_with [46] (split_on 46 s))"
    by (rule ascii_join [rotated]) simp
  then show ?thesis
    by (simp add: join_split)
qed

lemma is_tag_ascii: "is_tag s \<Longrightarrow> ascii_text s"
  by (auto simp: is_tag_def is_version_ascii split: list.splits)

lemma hex_ascii: "list_all is_lower_hex s \<Longrightarrow> ascii_text s"
  by (auto simp: ascii_text_def list_all_iff is_lower_hex_def is_ascii_digit_def)

lemma is_sha_ascii: "is_sha s \<Longrightarrow> ascii_text s"
  by (simp add: is_sha_def hex_ascii)

lemma is_digest_ascii: "is_digest s \<Longrightarrow> ascii_text s"
  by (simp add: is_digest_def hex_ascii)

lemma ascii_scalar: "ascii_text s \<Longrightarrow> scalar_text s"
  by (auto simp: ascii_text_def scalar_text_def list_all_iff)

lemmas accepted_scalar =
  is_version_ascii [THEN ascii_scalar] is_tag_ascii [THEN ascii_scalar]
  is_sha_ascii [THEN ascii_scalar] is_digest_ascii [THEN ascii_scalar]

section \<open>Sorted objects\<close>

lemma map_of_sort:
  assumes "distinct (map fst kvs)"
  shows "map_of (sort_key f kvs) = map_of kvs"
proof -
  have "distinct (map fst (sort_key f kvs))"
    using assms unfolding mset_eq_imp_distinct_iff [OF mset_map_fst_sort] .
  then show ?thesis
    using assms by (simp add: map_of_inject_set)
qed

lemma fst_set_sort: "fst ` set (sort_key f kvs) = fst ` set kvs"
  by simp

end
