(* ===== verification/Attestations.thy ===== *)
theory Attestations
  imports Release_Checks
begin

text \<open>
  scripts/release/attestations.py: the two closed-schema attestations, their validation, their
  canonical bytes and the strict reading of them.  A field of a result read from JSON can hold any
  value, so every field is a \<open>json\<close>.
\<close>

section \<open>Results\<close>

record candidate_result =
  ca_schema :: json
  ca_mode :: json
  ca_version :: json
  ca_commit :: json
  ca_build_number :: json
  ca_upstream_commit :: json
  ca_directory_digest :: json
  ca_rattler_build_version :: json
  ca_linux_validated :: json
  ca_macos_validated :: json
  ca_linux_aarch64_skipped :: json

record release_result =
  re_schema :: json
  re_tag :: json
  re_commit :: json
  re_created :: json
  re_draft :: json
  re_prerelease :: json
  re_immutable :: json

section \<open>Validation\<close>

definition exact_int :: "string \<Rightarrow> bool \<Rightarrow> json \<Rightarrow> release_exn + int" where
  "exact_int label nonnegative v =
     (case v of
        JInt n \<Rightarrow> if nonnegative \<and> n < 0 then Inl (RValue (label @ '' must be non-negative'')) else Inr n
      | _ \<Rightarrow> Inl (RValue (label @ '' must be an integer'')))"

definition exact_bool :: "string \<Rightarrow> json \<Rightarrow> release_exn + bool" where
  "exact_bool label v = (case v of JBool b \<Rightarrow> Inr b | _ \<Rightarrow> Inl (RValue (label @ '' must be a boolean'')))"

definition schema_one :: "string \<Rightarrow> json \<Rightarrow> release_exn + unit" where
  "schema_one message v = rbind (exact_int ''schema'' False v) (\<lambda>n. require message (n = 1))"

definition must_be :: "bool \<Rightarrow> string \<Rightarrow> string \<Rightarrow> json \<Rightarrow> release_exn + unit" where
  "must_be b message label v = rbind (exact_bool label v) (\<lambda>x. require message (x = b))"

definition validate_candidate :: "candidate_result \<Rightarrow> release_exn + unit" where
  "validate_candidate r = checks
     [schema_one ''candidate schema must equal 1'' (ca_schema r),
      require_member ''invalid candidate mode'' [lit ''dry-run'', lit ''prepare''] (ca_mode r),
      require_match ''invalid candidate version'' is_version (ca_version r),
      require_match ''candidate commit must be a lowercase full SHA'' is_sha (ca_commit r),
      rbind (exact_int ''build_number'' True (ca_build_number r)) (\<lambda>_. Inr ()),
      require_match ''upstream_commit must be a lowercase full SHA'' is_sha (ca_upstream_commit r),
      require_match ''directory_digest must be lowercase SHA-256'' is_digest (ca_directory_digest r),
      require ''rattler_build_version must equal 0.30.0'' (ca_rattler_build_version r = JStr (lit ''0.30.0'')),
      must_be True ''linux_validated must be true'' ''linux_validated'' (ca_linux_validated r),
      must_be True ''macos_validated must be true'' ''macos_validated'' (ca_macos_validated r),
      must_be True ''linux_aarch64_skipped must be true'' ''linux_aarch64_skipped'' (ca_linux_aarch64_skipped r)]"

definition validate_release_candidate :: "candidate_result \<Rightarrow> release_exn + unit" where
  "validate_release_candidate r = checks
     [validate_candidate r,
      require ''release candidate evidence must be a dry-run'' (ca_mode r = JStr (lit ''dry-run'')),
      require ''release candidate build number must equal 0''
        (is_int (ca_build_number r) \<and> int_of_json (ca_build_number r) = 0)]"

definition validate_release :: "release_result \<Rightarrow> release_exn + unit" where
  "validate_release r = checks
     [schema_one ''release schema must equal 1'' (re_schema r),
      require_match ''invalid stable release tag'' is_tag (re_tag r),
      require_match ''release commit must be a lowercase full SHA'' is_sha (re_commit r),
      rbind (exact_bool ''created'' (re_created r)) (\<lambda>_. Inr ()),
      must_be False ''release must not be a draft'' ''draft'' (re_draft r),
      must_be False ''release must not be a prerelease'' ''prerelease'' (re_prerelease r),
      must_be True ''release must be immutable'' ''immutable'' (re_immutable r)]"

section \<open>Encoding\<close>

definition candidate_document :: "candidate_result \<Rightarrow> jobj" where
  "candidate_document r =
     [(lit ''schema'', ca_schema r), (lit ''mode'', ca_mode r), (lit ''version'', ca_version r),
      (lit ''commit'', ca_commit r), (lit ''build_number'', ca_build_number r),
      (lit ''upstream_commit'', ca_upstream_commit r), (lit ''directory_digest'', ca_directory_digest r),
      (lit ''rattler_build_version'', ca_rattler_build_version r),
      (lit ''linux_validated'', ca_linux_validated r), (lit ''macos_validated'', ca_macos_validated r),
      (lit ''linux_aarch64_skipped'', ca_linux_aarch64_skipped r)]"

definition release_document :: "release_result \<Rightarrow> jobj" where
  "release_document r =
     [(lit ''schema'', re_schema r), (lit ''tag'', re_tag r), (lit ''commit'', re_commit r),
      (lit ''created'', re_created r), (lit ''draft'', re_draft r),
      (lit ''prerelease'', re_prerelease r), (lit ''immutable'', re_immutable r)]"

definition canonical :: "jobj \<Rightarrow> release_exn + bytes" where
  "canonical d = (case canonical_bytes (JObj d) of Inl _ \<Rightarrow> Inl (RValue ''digit limit'') | Inr b \<Rightarrow> Inr b)"

definition candidate_bytes :: "candidate_result \<Rightarrow> release_exn + bytes" where
  "candidate_bytes r = rbind (validate_candidate r) (\<lambda>_. canonical (candidate_document r))"

definition release_bytes :: "release_result \<Rightarrow> release_exn + bytes" where
  "release_bytes r = rbind (validate_release r) (\<lambda>_. canonical (release_document r))"

section \<open>Decoding\<close>

definition CANDIDATE_FIELDS :: "str list" where
  "CANDIDATE_FIELDS =
     [lit ''schema'', lit ''mode'', lit ''version'', lit ''commit'', lit ''build_number'',
      lit ''upstream_commit'', lit ''directory_digest'', lit ''rattler_build_version'',
      lit ''linux_validated'', lit ''macos_validated'', lit ''linux_aarch64_skipped'']"

definition RELEASE_FIELDS :: "str list" where
  "RELEASE_FIELDS =
     [lit ''schema'', lit ''tag'', lit ''commit'', lit ''created'', lit ''draft'', lit ''prerelease'', lit ''immutable'']"

definition load_document :: "bytes \<Rightarrow> str list \<Rightarrow> release_exn + jobj" where
  "load_document encoded names =
     (case json_loads_bytes encoded of
        Inl _ \<Rightarrow> Inl (RValue ''invalid attestation JSON'')
      | Inr (JObj d) \<Rightarrow>
          if set (map fst d) = set names then Inr d else Inl (RValue ''attestation key mismatch'')
      | Inr _ \<Rightarrow> Inl (RValue ''attestation key mismatch''))"

definition candidate_of :: "jobj \<Rightarrow> candidate_result" where
  "candidate_of d =
     \<lparr> ca_schema = jget d (lit ''schema''), ca_mode = jget d (lit ''mode''), ca_version = jget d (lit ''version''),
       ca_commit = jget d (lit ''commit''), ca_build_number = jget d (lit ''build_number''),
       ca_upstream_commit = jget d (lit ''upstream_commit''),
       ca_directory_digest = jget d (lit ''directory_digest''),
       ca_rattler_build_version = jget d (lit ''rattler_build_version''),
       ca_linux_validated = jget d (lit ''linux_validated''),
       ca_macos_validated = jget d (lit ''macos_validated''),
       ca_linux_aarch64_skipped = jget d (lit ''linux_aarch64_skipped'') \<rparr>"

definition release_of :: "jobj \<Rightarrow> release_result" where
  "release_of d =
     \<lparr> re_schema = jget d (lit ''schema''), re_tag = jget d (lit ''tag''), re_commit = jget d (lit ''commit''),
       re_created = jget d (lit ''created''), re_draft = jget d (lit ''draft''),
       re_prerelease = jget d (lit ''prerelease''), re_immutable = jget d (lit ''immutable'') \<rparr>"

definition load_candidate :: "bytes \<Rightarrow> release_exn + candidate_result" where
  "load_candidate encoded =
     rbind (load_document encoded CANDIDATE_FIELDS) (\<lambda>d.
     rbind (candidate_bytes (candidate_of d)) (\<lambda>b.
       if encoded \<noteq> b then Inl (RValue ''attestation JSON is not canonical'') else Inr (candidate_of d)))"

definition load_release :: "bytes \<Rightarrow> release_exn + release_result" where
  "load_release encoded =
     rbind (load_document encoded RELEASE_FIELDS) (\<lambda>d.
     rbind (release_bytes (release_of d)) (\<lambda>b.
       if encoded \<noteq> b then Inl (RValue ''attestation JSON is not canonical'') else Inr (release_of d)))"

section \<open>Writing and the command line\<close>

text \<open>The hash is \<open>hashlib.sha256(...).hexdigest()\<close>.  What is written, and the digest.\<close>

definition write_attestation :: "(bytes \<Rightarrow> str) \<Rightarrow> bool \<Rightarrow> bool \<Rightarrow> bytes \<Rightarrow> release_exn + bytes \<times> str" where
  "write_attestation sha256 is_symlink fails encoded =
     (if is_symlink then Inl (RValue ''attestation output must not be a symlink'')
      else if fails then Inl ROS
      else Inr (encoded, sha256 encoded))"

definition write_candidate :: "(bytes \<Rightarrow> str) \<Rightarrow> bool \<Rightarrow> bool \<Rightarrow> candidate_result \<Rightarrow> release_exn + bytes \<times> str" where
  "write_candidate sha256 is_symlink fails r =
     rbind (candidate_bytes r) (write_attestation sha256 is_symlink fails)"

definition write_release :: "(bytes \<Rightarrow> str) \<Rightarrow> bool \<Rightarrow> bool \<Rightarrow> release_result \<Rightarrow> release_exn + bytes \<times> str" where
  "write_release sha256 is_symlink fails r =
     rbind (release_bytes r) (write_attestation sha256 is_symlink fails)"

text \<open>The parsed arguments; the content of an unreadable input is \<open>None\<close>.\<close>

datatype attestation_command =
    ValidateCandidate "bytes option"
  | ValidateRelease "bytes option"
  | WriteCandidate candidate_result
  | WriteRelease str str bool bool

definition read_input :: "bytes option \<Rightarrow> release_exn + bytes" where
  "read_input content = (case content of None \<Rightarrow> Inl ROS | Some b \<Rightarrow> Inr b)"

fun attestation_command_result ::
  "(bytes \<Rightarrow> str) \<Rightarrow> bool \<Rightarrow> bool \<Rightarrow> attestation_command \<Rightarrow> release_exn + bytes option" where
  "attestation_command_result sha256 is_symlink fails (ValidateCandidate content) =
     rbind (read_input content) (\<lambda>encoded.
     rbind (load_candidate encoded) (\<lambda>r.
     rbind (validate_release_candidate r) (\<lambda>_. Inr None)))"
| "attestation_command_result sha256 is_symlink fails (ValidateRelease content) =
     rbind (read_input content) (\<lambda>encoded. rbind (load_release encoded) (\<lambda>_. Inr None))"
| "attestation_command_result sha256 is_symlink fails (WriteCandidate r) =
     rbind (write_candidate sha256 is_symlink fails r) (\<lambda>(b, _). Inr (Some b))"
| "attestation_command_result sha256 is_symlink fails (WriteRelease tag commit created immutable) =
     rbind (write_release sha256 is_symlink fails
       \<lparr> re_schema = JInt 1, re_tag = JStr tag, re_commit = JStr commit, re_created = JBool created,
         re_draft = JBool False, re_prerelease = JBool False, re_immutable = JBool immutable \<rparr>)
       (\<lambda>(b, _). Inr (Some b))"

text \<open>The exit status, and what was written.\<close>

definition attestation_main ::
  "(bytes \<Rightarrow> str) \<Rightarrow> bool \<Rightarrow> bool \<Rightarrow> attestation_command \<Rightarrow> int \<times> bytes option" where
  "attestation_main sha256 is_symlink fails command =
     (case attestation_command_result sha256 is_symlink fails command of
        Inl _ \<Rightarrow> (1, None) | Inr written \<Rightarrow> (0, written))"

section \<open>Valid results\<close>

lemma exact_int_Inr: "exact_int l nn v = Inr n \<longleftrightarrow> v = JInt n \<and> (nn \<longrightarrow> 0 \<le> n)"
  by (auto simp: exact_int_def split: json.splits)

lemma exact_bool_Inr: "exact_bool l v = Inr b \<longleftrightarrow> v = JBool b"
  by (auto simp: exact_bool_def split: json.splits)

lemma schema_one_Inr [simp]: "schema_one m v = Inr u \<longleftrightarrow> v = JInt 1"
  by (auto simp: schema_one_def rbind_Inr exact_int_Inr)

lemma must_be_Inr [simp]: "must_be b m l v = Inr u \<longleftrightarrow> v = JBool b"
  by (auto simp: must_be_def rbind_Inr exact_bool_Inr)

text \<open>The type of a valid result.\<close>

definition candidate_typed :: "candidate_result \<Rightarrow> bool" where
  "candidate_typed r \<longleftrightarrow>
     (\<exists>mode version commit build upstream digest.
        r = \<lparr> ca_schema = JInt 1, ca_mode = JStr mode, ca_version = JStr version, ca_commit = JStr commit,
              ca_build_number = JInt build, ca_upstream_commit = JStr upstream,
              ca_directory_digest = JStr digest, ca_rattler_build_version = JStr (lit ''0.30.0''),
              ca_linux_validated = JBool True, ca_macos_validated = JBool True,
              ca_linux_aarch64_skipped = JBool True \<rparr>
        \<and> mode \<in> {lit ''dry-run'', lit ''prepare''} \<and> is_version version \<and> is_sha commit \<and> 0 \<le> build
        \<and> is_sha upstream \<and> is_digest digest)"

definition release_typed :: "release_result \<Rightarrow> bool" where
  "release_typed r \<longleftrightarrow>
     (\<exists>tag commit created.
        r = \<lparr> re_schema = JInt 1, re_tag = JStr tag, re_commit = JStr commit, re_created = JBool created,
              re_draft = JBool False, re_prerelease = JBool False, re_immutable = JBool True \<rparr>
        \<and> is_tag tag \<and> is_sha commit)"

lemma validate_candidate_typed: "validate_candidate r = Inr u \<longleftrightarrow> candidate_typed r"
  by (cases r) (auto simp: validate_candidate_def checks_Inr candidate_typed_def rbind_Inr exact_int_Inr)

lemma validate_release_typed: "validate_release r = Inr u \<longleftrightarrow> release_typed r"
  by (cases r) (auto simp: validate_release_def checks_Inr release_typed_def rbind_Inr exact_bool_Inr)

section \<open>Canonical bytes\<close>

lemma canonical_Inr: "canonical d = Inr b \<longleftrightarrow> canonical_bytes (JObj d) = Inr b"
  by (auto simp: canonical_def split: sum.splits)

lemma canonical_digits: "canonical d = Inr b \<Longrightarrow> digits_fit (JObj d)"
  by (auto simp: canonical_Inr canonical_bytes_def json_dumps_def rbind_Inr split: if_splits)

lemma candidate_printable:
  "candidate_typed r \<Longrightarrow> digits_fit (JObj (candidate_document r)) \<Longrightarrow> printable (JObj (candidate_document r))"
  by (auto simp: candidate_typed_def candidate_document_def accepted_scalar scalar_text_def [of "_ # _"]
      scalar_text_def [of "[]"])

lemma release_printable: "release_typed r \<Longrightarrow> printable (JObj (release_document r))"
  by (auto simp: release_typed_def release_document_def accepted_scalar scalar_text_def [of "_ # _"]
      scalar_text_def [of "[]"] decimal.simps)

lemma load_canonical:
  assumes "printable (JObj d)" "canonical d = Inr b" "\<forall>(k, v)\<in>set d. sort_keys v = v"
    "set (map fst d) = set names"
  obtains d' where "load_document b names = Inr d'" "jget d' = jget d"
proof
  have sorted: "map (\<lambda>(k, v). (k, sort_keys v)) d = d"
    using assms(3) by (induction d) auto
  have "json_loads_bytes b = Inr (JObj (sort_key fst d))"
    using canonical_read_back [OF assms(1)] assms(2) sorted by (simp add: canonical_Inr)
  then show "load_document b names = Inr (sort_key fst d)"
    using assms(4) by (simp add: load_document_def)
  show "jget (sort_key fst d) = jget d"
    using assms(1) by (intro ext) (simp add: jget_def map_of_sort)
qed

lemma candidate_of_document: "candidate_of (candidate_document r) = r"
  by (simp add: candidate_of_def candidate_document_def jget_def)

lemma release_of_document: "release_of (release_document r) = r"
  by (simp add: release_of_def release_document_def jget_def)

lemma candidate_of_cong: "jget d' = jget d \<Longrightarrow> candidate_of d' = candidate_of d"
  by (simp add: candidate_of_def)

lemma release_of_cong: "jget d' = jget d \<Longrightarrow> release_of d' = release_of d"
  by (simp add: release_of_def)

lemma load_candidate_iff: "load_candidate b = Inr r \<longleftrightarrow> candidate_bytes r = Inr b"
proof
  assume "load_candidate b = Inr r"
  then show "candidate_bytes r = Inr b"
    by (auto simp: load_candidate_def rbind_Inr split: if_splits)
next
  assume b: "candidate_bytes r = Inr b"
  then have t: "candidate_typed r" and c: "canonical (candidate_document r) = Inr b"
    by (auto simp: candidate_bytes_def rbind_Inr validate_candidate_typed)
  have p: "printable (JObj (candidate_document r))"
    using candidate_printable [OF t canonical_digits [OF c]] .
  have "\<forall>(k, v)\<in>set (candidate_document r). sort_keys v = v"
    using t by (auto simp: candidate_typed_def candidate_document_def)
  moreover have "set (map fst (candidate_document r)) = set CANDIDATE_FIELDS"
    by (simp add: candidate_document_def CANDIDATE_FIELDS_def)
  ultimately obtain d' where "load_document b CANDIDATE_FIELDS = Inr d'" "jget d' = jget (candidate_document r)"
    using load_canonical [OF p c] by blast
  then show "load_candidate b = Inr r"
    using b candidate_of_cong [of d' "candidate_document r"] by (simp add: load_candidate_def candidate_of_document)
qed

lemma load_release_iff: "load_release b = Inr r \<longleftrightarrow> release_bytes r = Inr b"
proof
  assume "load_release b = Inr r"
  then show "release_bytes r = Inr b"
    by (auto simp: load_release_def rbind_Inr split: if_splits)
next
  assume b: "release_bytes r = Inr b"
  then have t: "release_typed r" and c: "canonical (release_document r) = Inr b"
    by (auto simp: release_bytes_def rbind_Inr validate_release_typed)
  have "\<forall>(k, v)\<in>set (release_document r). sort_keys v = v"
    using t by (auto simp: release_typed_def release_document_def)
  moreover have "set (map fst (release_document r)) = set RELEASE_FIELDS"
    by (simp add: release_document_def RELEASE_FIELDS_def)
  ultimately obtain d' where "load_document b RELEASE_FIELDS = Inr d'" "jget d' = jget (release_document r)"
    using load_canonical [OF release_printable [OF t] c] by blast
  then show "load_release b = Inr r"
    using b release_of_cong [of d' "release_document r"] by (simp add: load_release_def release_of_document)
qed

section \<open>Properties\<close>

text \<open>
  C10 (attestations round trip): bytes are read as an attestation exactly when they are the canonical
  bytes of that attestation, for both kinds; so a valid result has one encoding and it reads back.
\<close>

theorem attestation_roundtrip:
  "(load_candidate b = Inr c \<longleftrightarrow> candidate_bytes c = Inr b) \<and>
   (load_release b = Inr r \<longleftrightarrow> release_bytes r = Inr b)"
  by (simp add: load_candidate_iff load_release_iff)

text \<open>
  C37 (accepted evidence is typed): the command line accepts a file as release evidence only if it
  holds a candidate result of the closed schema, every field of its type and in its range, made by a
  dry run with build number 0.
\<close>

theorem accepted_candidate_typed:
  assumes "attestation_main sha256 is_symlink fails (ValidateCandidate (Some b)) = (0, written)"
  shows "\<exists>version commit upstream digest.
     candidate_bytes \<lparr> ca_schema = JInt 1, ca_mode = JStr (lit ''dry-run''), ca_version = JStr version,
       ca_commit = JStr commit, ca_build_number = JInt 0, ca_upstream_commit = JStr upstream,
       ca_directory_digest = JStr digest, ca_rattler_build_version = JStr (lit ''0.30.0''),
       ca_linux_validated = JBool True, ca_macos_validated = JBool True,
       ca_linux_aarch64_skipped = JBool True \<rparr> = Inr b
     \<and> is_version version \<and> is_sha commit \<and> is_sha upstream \<and> is_digest digest"
proof -
  obtain r where r: "load_candidate b = Inr r" "validate_release_candidate r = Inr ()"
    using assms by (auto simp: attestation_main_def read_input_def rbind_Inr split: sum.splits)
  then have t: "candidate_typed r" "ca_mode r = JStr (lit ''dry-run'')" "int_of_json (ca_build_number r) = 0"
    by (auto simp: validate_release_candidate_def checks_Inr validate_candidate_typed)
  from t(1) obtain version commit upstream digest where
    f: "r = r\<lparr> ca_schema := JInt 1, ca_version := JStr version,
       ca_commit := JStr commit, ca_build_number := JInt 0, ca_upstream_commit := JStr upstream,
       ca_directory_digest := JStr digest, ca_rattler_build_version := JStr (lit ''0.30.0''),
       ca_linux_validated := JBool True, ca_macos_validated := JBool True,
       ca_linux_aarch64_skipped := JBool True \<rparr>"
      "is_version version" "is_sha commit" "is_sha upstream" "is_digest digest"
    using t(3) by (auto simp: candidate_typed_def int_of_json_def)
  have "candidate_bytes r = Inr b"
    using r(1) by (simp only: load_candidate_iff)
  moreover have "r = \<lparr> ca_schema = JInt 1, ca_mode = JStr (lit ''dry-run''), ca_version = JStr version,
       ca_commit = JStr commit, ca_build_number = JInt 0, ca_upstream_commit = JStr upstream,
       ca_directory_digest = JStr digest, ca_rattler_build_version = JStr (lit ''0.30.0''),
       ca_linux_validated = JBool True, ca_macos_validated = JBool True,
       ca_linux_aarch64_skipped = JBool True \<rparr>"
    by (subst f(1)) (use t(2) in \<open>cases r, simp\<close>)
  ultimately show ?thesis
    using f(2-) by blast
qed

definition eg_candidate :: candidate_result where
  "eg_candidate =
     \<lparr> ca_schema = JInt 1, ca_mode = JStr (lit ''dry-run''), ca_version = JStr (lit ''1.2.0''),
       ca_commit = JStr (replicate 40 97), ca_build_number = JInt 0, ca_upstream_commit = JStr (replicate 40 98),
       ca_directory_digest = JStr (replicate 64 99), ca_rattler_build_version = JStr (lit ''0.30.0''),
       ca_linux_validated = JBool True, ca_macos_validated = JBool True, ca_linux_aarch64_skipped = JBool True \<rparr>"

lemma eg_candidate_accepted:
  "\<exists>b. attestation_main (\<lambda>_. []) False False (ValidateCandidate (Some b)) = (0, None)"
proof -
  have v: "validate_candidate eg_candidate = Inr ()" "validate_release_candidate eg_candidate = Inr ()"
    by code_simp+
  have "digits_fit (JObj (candidate_document eg_candidate))"
    by code_simp
  then obtain b where "candidate_bytes eg_candidate = Inr b"
    using v(1) by (auto simp: candidate_bytes_def canonical_def canonical_bytes_def json_dumps_def)
  then have "load_candidate b = Inr eg_candidate"
    by (simp add: load_candidate_iff)
  then have "attestation_main (\<lambda>_. []) False False (ValidateCandidate (Some b)) = (0, None)"
    using v(2) by (simp add: attestation_main_def read_input_def)
  then show ?thesis
    by blast
qed

theorem accepted_candidate_typed_witness:
  "\<exists>b version. attestation_main (\<lambda>_. []) False False (ValidateCandidate (Some b)) = (0, None) \<and> is_version version"
  using eg_candidate_accepted accepted_candidate_typed by blast

end
