(* ===== verification/Github_Release.thy ===== *)
theory Github_Release
  imports Release_Checks
begin

text \<open>
  scripts/release/github_release.py: the one action a snapshot of a release authorizes, and the
  dereferencing of a tag.  The fields of a snapshot come from JSON and can hold any value.
\<close>

section \<open>Snapshots and actions\<close>

datatype release_action = CREATE_TAG_AND_RELEASE | CREATE_RELEASE | NOOP

fun action_value :: "release_action \<Rightarrow> str" where
  "action_value CREATE_TAG_AND_RELEASE = lit ''create-tag-and-release''"
| "action_value CREATE_RELEASE = lit ''create-release''"
| "action_value NOOP = lit ''noop''"

record release_snapshot =
  sn_tag_commit :: json
  sn_release_exists :: json
  sn_draft :: json
  sn_prerelease :: json
  sn_immutable :: json

definition states_absent :: "release_snapshot \<Rightarrow> bool" where
  "states_absent s \<longleftrightarrow> list_all (\<lambda>v. v = JNull) [sn_draft s, sn_prerelease s, sn_immutable s]"

section \<open>Classification\<close>

definition classify_release ::
  "(str \<Rightarrow> int option) \<Rightarrow> release_snapshot \<Rightarrow> str \<Rightarrow> release_exn + release_action" where
  "classify_release float_int snapshot expected_commit =
     rbind (require ''expected_commit must be a lowercase full SHA'' (is_sha expected_commit)) (\<lambda>_.
       if sn_tag_commit snapshot = JNull then
         if truthy float_int (sn_release_exists snapshot) \<or> \<not> states_absent snapshot
         then Inl (RValue ''release exists without its tag'')
         else Inr CREATE_TAG_AND_RELEASE
       else
         rbind (require_match ''tag_commit must be a lowercase full SHA'' is_sha (sn_tag_commit snapshot)) (\<lambda>_.
           if sn_tag_commit snapshot \<noteq> JStr expected_commit
           then Inl (RValue ''existing tag targets another commit'')
           else if \<not> is_bool (sn_release_exists snapshot)
           then Inl (RValue ''release existence state must be boolean'')
           else if sn_release_exists snapshot = JBool False then
             if \<not> states_absent snapshot then Inl (RValue ''incomplete release snapshot'')
             else Inr CREATE_RELEASE
           else
             rbind (checks
               [require ''release draft state must be boolean'' (is_bool (sn_draft snapshot)),
                require ''release prerelease state must be boolean'' (is_bool (sn_prerelease snapshot)),
                require ''release immutable state must be boolean'' (is_bool (sn_immutable snapshot)),
                require ''existing release is not stable and immutable''
                  (\<not> (sn_draft snapshot = JBool True \<or> sn_prerelease snapshot = JBool True
                      \<or> sn_immutable snapshot = JBool False))])
               (\<lambda>_. Inr NOOP)))"

section \<open>The command line\<close>

text \<open>What \<open>git rev-list\<close> printed, or \<open>None\<close> when it failed or could not be started.\<close>

definition dereference_tag :: "str option \<Rightarrow> release_exn + str" where
  "dereference_tag stdout =
     (case stdout of
        None \<Rightarrow> Inl (RValue ''could not dereference tag'')
      | Some printed \<Rightarrow>
          (case splitlines printed of
             [line] \<Rightarrow> if is_sha line then Inr line else Inl (RValue ''tag did not resolve to one full commit'')
           | _ \<Rightarrow> Inl (RValue ''tag did not resolve to one full commit'')))"

definition SNAPSHOT_FIELDS :: "str list" where
  "SNAPSHOT_FIELDS =
     [lit ''tag_commit'', lit ''release_exists'', lit ''draft'', lit ''prerelease'', lit ''immutable'']"

definition snapshot_of :: "jobj \<Rightarrow> release_snapshot" where
  "snapshot_of d =
     \<lparr> sn_tag_commit = jget d (lit ''tag_commit''), sn_release_exists = jget d (lit ''release_exists''),
       sn_draft = jget d (lit ''draft''), sn_prerelease = jget d (lit ''prerelease''),
       sn_immutable = jget d (lit ''immutable'') \<rparr>"

definition load_snapshot :: "bytes option \<Rightarrow> release_exn + release_snapshot" where
  "load_snapshot content =
     (case content of
        None \<Rightarrow> Inl ROS
      | Some encoded \<Rightarrow>
          (case json_loads_bytes encoded of
             Inl _ \<Rightarrow> Inl (RValue ''invalid JSON'')
           | Inr (JObj d) \<Rightarrow>
               if set (map fst d) = set SNAPSHOT_FIELDS then Inr (snapshot_of d)
               else Inl (RValue ''release snapshot key mismatch'')
           | Inr _ \<Rightarrow> Inl (RValue ''release snapshot key mismatch'')))"

definition write_action :: "bool \<Rightarrow> bool \<Rightarrow> release_action \<Rightarrow> release_exn + str" where
  "write_action is_symlink fails action =
     (if is_symlink then Inl (RValue ''classification output must not be a symlink'')
      else if fails then Inl ROS
      else Inr (action_value action @ [10]))"

datatype github_command = Dereference "str option" | Classify "bytes option" str

text \<open>The exit status, and what was printed or written.\<close>

definition github_main ::
  "(str \<Rightarrow> int option) \<Rightarrow> bool \<Rightarrow> bool \<Rightarrow> github_command \<Rightarrow> int \<times> str option" where
  "github_main float_int is_symlink fails command =
     (case (case command of
              Dereference stdout \<Rightarrow> rbind (dereference_tag stdout) (\<lambda>commit. Inr (commit @ [10]))
            | Classify content expected_commit \<Rightarrow>
                rbind (load_snapshot content) (\<lambda>snapshot.
                rbind (classify_release float_int snapshot expected_commit)
                  (write_action is_symlink fails))) of
        Inl _ \<Rightarrow> (1, None)
      | Inr output \<Rightarrow> (0, Some output))"

section \<open>Properties\<close>

text \<open>The snapshots that authorize each action.\<close>

definition authorizes :: "(str \<Rightarrow> int option) \<Rightarrow> release_snapshot \<Rightarrow> str \<Rightarrow> release_action \<Rightarrow> bool" where
  "authorizes float_int s commit action \<longleftrightarrow>
     (case action of
        CREATE_TAG_AND_RELEASE \<Rightarrow> sn_tag_commit s = JNull \<and> \<not> truthy float_int (sn_release_exists s)
          \<and> sn_draft s = JNull \<and> sn_prerelease s = JNull \<and> sn_immutable s = JNull
      | CREATE_RELEASE \<Rightarrow> sn_tag_commit s = JStr commit \<and> sn_release_exists s = JBool False
          \<and> sn_draft s = JNull \<and> sn_prerelease s = JNull \<and> sn_immutable s = JNull
      | NOOP \<Rightarrow> sn_tag_commit s = JStr commit \<and> sn_release_exists s = JBool True
          \<and> sn_draft s = JBool False \<and> sn_prerelease s = JBool False \<and> sn_immutable s = JBool True)"

lemma is_bool_cases: "is_bool v \<longleftrightarrow> v = JBool True \<or> v = JBool False"
  by (auto simp: is_bool_def split: json.splits)

lemma classify_release_iff:
  "classify_release fz s commit = Inr action \<longleftrightarrow> is_sha commit \<and> authorizes fz s commit action"
  by (cases action) (auto simp: classify_release_def authorizes_def rbind_Inr checks_Inr is_bool_cases states_absent_def)

text \<open>What carrying out an action leaves: the tag at the commit and a stable immutable release.\<close>

definition with_release :: "release_snapshot \<Rightarrow> release_snapshot" where
  "with_release s = s\<lparr> sn_release_exists := JBool True, sn_draft := JBool False, sn_prerelease := JBool False,
     sn_immutable := JBool True \<rparr>"

fun carry_out :: "release_action \<Rightarrow> str \<Rightarrow> release_snapshot \<Rightarrow> release_snapshot" where
  "carry_out NOOP commit s = s"
| "carry_out CREATE_RELEASE commit s = with_release s"
| "carry_out CREATE_TAG_AND_RELEASE commit s = with_release (s\<lparr> sn_tag_commit := JStr commit \<rparr>)"


definition eg_snapshot :: release_snapshot where
  "eg_snapshot = \<lparr> sn_tag_commit = JStr (replicate 40 97), sn_release_exists = JBool False, sn_draft = JNull,
     sn_prerelease = JNull, sn_immutable = JNull \<rparr>"


end
