(* ===== verification/Community.thy ===== *)
theory Community
  imports Release_Checks
begin

text \<open>
  scripts/release/community.py: the publication decision for one community build, and the checks of
  the fork, its credential and the package archive.
\<close>

section \<open>Decisions\<close>

datatype publication_action = CREATE_BRANCH | UPDATE_BRANCH | PUBLISHED_NOOP | MERGED_WAITING

fun publication_value :: "publication_action \<Rightarrow> str" where
  "publication_value CREATE_BRANCH = lit ''create-branch''"
| "publication_value UPDATE_BRANCH = lit ''update-branch''"
| "publication_value PUBLISHED_NOOP = lit ''published-noop''"
| "publication_value MERGED_WAITING = lit ''merged-waiting''"

record publication_decision =
  pd_action :: publication_action
  pd_pull_request_url :: "str option"

definition branch_name :: "str \<Rightarrow> int \<Rightarrow> release_exn + str" where
  "branch_name version build_number =
     rbind (require ''invalid version'' (is_version version)) (\<lambda>_.
     rbind (require ''invalid build number'' (0 \<le> build_number)) (\<lambda>_.
       Inr (lit ''mtest-'' @ version @ lit ''-build-'' @ int_repr build_number)))"

text \<open>\<open>item == {"name": "mtest", ...}\<close>\<close>

definition record_matches :: "(str \<Rightarrow> int option) \<Rightarrow> jobj \<Rightarrow> str \<Rightarrow> str \<Rightarrow> int \<Rightarrow> bool" where
  "record_matches float_int item platform version build_number \<longleftrightarrow>
     set (map fst item) = {lit ''name'', lit ''version'', lit ''build_number'', lit ''subdir''}
     \<and> jget item (lit ''name'') = JStr (lit ''mtest'')
     \<and> jget item (lit ''version'') = JStr version
     \<and> equals_int float_int (jget item (lit ''build_number'')) build_number
     \<and> jget item (lit ''subdir'') = JStr platform"

definition channel_records :: "(str \<Rightarrow> int option) \<Rightarrow> json \<Rightarrow> str \<Rightarrow> str \<Rightarrow> int \<Rightarrow> release_exn + bool" where
  "channel_records float_int document platform version build_number =
     (case document of
        JArr [] \<Rightarrow> Inr False
      | JArr [JObj item] \<Rightarrow>
          if \<not> record_matches float_int item platform version build_number
          then Inl (RValue ''channel record mismatch'')
          else if is_bool (jget item (lit ''build_number'')) then Inl (RValue ''build_number must be an integer'')
          else Inr True
      | JArr [_] \<Rightarrow> Inl (RValue ''channel record must be an object'')
      | JArr _ \<Rightarrow> Inl (RValue ''channel returned duplicate package records'')
      | _ \<Rightarrow> Inl (RValue ''channel records must be a list''))"

text \<open>\<open>v.get(k)\<close> of a value that must be an object.\<close>

definition sub :: "json \<Rightarrow> str \<Rightarrow> json" where
  "sub v k = (case v of JObj d \<Rightarrow> jget d k | _ \<Rightarrow> JNull)"

definition is_object :: "json \<Rightarrow> bool" where
  "is_object v = (case v of JObj _ \<Rightarrow> True | _ \<Rightarrow> False)"

definition head_matches :: "json \<Rightarrow> str \<Rightarrow> str \<Rightarrow> bool" where
  "head_matches head owner branch \<longleftrightarrow>
     is_object (sub head (lit ''user'')) \<and> sub (sub head (lit ''user'')) (lit ''login'') = JStr owner
     \<and> sub head (lit ''ref'') = JStr branch \<and> sub head (lit ''label'') = JStr (owner @ [58] @ branch)"

definition base_matches :: "json \<Rightarrow> bool" where
  "base_matches base \<longleftrightarrow>
     is_object base \<and> sub base (lit ''ref'') = JStr (lit ''main'') \<and> is_object (sub base (lit ''repo''))
     \<and> sub (sub base (lit ''repo'')) (lit ''full_name'') = JStr (lit ''modular/modular-community'')"

definition pull_request_action :: "json \<Rightarrow> json \<Rightarrow> publication_action option" where
  "pull_request_action state merged_at =
     (if state = JStr (lit ''open'') \<and> merged_at = JNull then Some UPDATE_BRANCH
      else if state = JStr (lit ''closed'') \<and> (case merged_at of JStr t \<Rightarrow> t \<noteq> [] | _ \<Rightarrow> False) then Some MERGED_WAITING
      else None)"

definition pull_request_of :: "json \<Rightarrow> str \<Rightarrow> str \<Rightarrow> release_exn + publication_decision" where
  "pull_request_of item owner branch =
     rbind (checks
       [require ''pull request record must be an object'' (is_object item),
        require ''pull request head is missing'' (is_object (sub item (lit ''head''))),
        require ''pull request head does not match the exact fork branch''
          (head_matches (sub item (lit ''head'')) owner branch),
        require ''pull request must disable maintainer edits''
          (sub item (lit ''maintainer_can_modify'') = JBool False),
        require ''pull request base must be modular/modular-community main''
          (base_matches (sub item (lit ''base'')))]) (\<lambda>_.
       case sub item (lit ''html_url'') of
         JStr url \<Rightarrow>
           if startswith url (lit ''https://github.com/'') then
             (case pull_request_action (sub item (lit ''state'')) (sub item (lit ''merged_at'')) of
                Some action \<Rightarrow> Inr \<lparr> pd_action = action, pd_pull_request_url = Some url \<rparr>
              | None \<Rightarrow> Inl (RValue ''pull request is closed without a merge''))
           else Inl (RValue ''pull request URL is invalid'')
       | _ \<Rightarrow> Inl (RValue ''pull request URL is invalid''))"

definition find_pull_request :: "json \<Rightarrow> str \<Rightarrow> str \<Rightarrow> release_exn + publication_decision option" where
  "find_pull_request document owner branch =
     (case document of
        JArr [] \<Rightarrow> Inr None
      | JArr [item] \<Rightarrow> rbind (pull_request_of item owner branch) (\<lambda>d. Inr (Some d))
      | JArr _ \<Rightarrow> Inl (RValue ''duplicate pull requests exist for the release branch'')
      | _ \<Rightarrow> Inl (RValue ''pull request response must be a list''))"

definition classify_publication ::
  "(str \<Rightarrow> int option) \<Rightarrow> json \<Rightarrow> json \<Rightarrow> json \<Rightarrow> str \<Rightarrow> str \<Rightarrow> int \<Rightarrow> release_exn + publication_decision" where
  "classify_publication float_int linux_records macos_records pull_requests owner version build_number =
     rbind (branch_name version build_number) (\<lambda>branch.
     rbind (channel_records float_int linux_records (lit ''linux-64'') version build_number) (\<lambda>linux.
     rbind (channel_records float_int macos_records (lit ''osx-arm64'') version build_number) (\<lambda>macos.
       if linux \<noteq> macos then Inl (RValue ''partial public publication: supported platforms disagree'')
       else if linux then Inr \<lparr> pd_action = PUBLISHED_NOOP, pd_pull_request_url = None \<rparr>
       else rbind (find_pull_request pull_requests owner branch) (\<lambda>found.
         case found of
           Some decision \<Rightarrow> Inr decision
         | None \<Rightarrow> Inr \<lparr> pd_action = CREATE_BRANCH, pd_pull_request_url = None \<rparr>))))"

section \<open>Credentials\<close>

text \<open>
  \<open>lower\<close> as far as a comparison with an ASCII name can tell: the Kelvin sign is the one other
  character that becomes an ASCII letter.
\<close>

definition lower_ascii :: "str \<Rightarrow> str" where
  "lower_ascii s = map (\<lambda>c. if 65 \<le> c \<and> c \<le> 90 then c + 32 else if c = 8490 then 107 else c) s"

definition EXPIRATION_HEADER :: str where
  "EXPIRATION_HEADER = lit ''github-authentication-token-expiration''"

definition OAUTH_SCOPES_HEADER :: str where
  "OAUTH_SCOPES_HEADER = lit ''x-oauth-scopes''"

text \<open>The stripped value of a header line with this name.\<close>

definition header_value :: "str \<Rightarrow> str \<Rightarrow> str option" where
  "header_value wanted line =
     (case find1 58 line of
        None \<Rightarrow> None
      | Some k \<Rightarrow>
          if lower_ascii (strip (take k line)) = wanted then Some (strip (drop (Suc k) line)) else None)"

definition expiration :: "str \<Rightarrow> release_exn + str" where
  "expiration headers =
     (case List.map_filter (header_value EXPIRATION_HEADER) (splitlines headers) of
        [v] \<Rightarrow> Inr v
      | _ \<Rightarrow> Inl (RValue ''GitHub token expiration header must appear exactly once''))"

definition reject_classic_scopes :: "str \<Rightarrow> release_exn + unit" where
  "reject_classic_scopes headers =
     require ''classic GitHub token scopes are not accepted''
       (list_all (\<lambda>v. v = []) (List.map_filter (header_value OAUTH_SCOPES_HEADER) (splitlines headers)))"

text \<open>
  \<open>datetime.strptime(raw, "... UTC")\<close> and \<open>datetime.fromisoformat(raw)\<close> are arguments; the
  second says whether the value has a timezone.  An instant is its number of microseconds.
\<close>

record datetime_reader =
  dr_strptime :: "str \<Rightarrow> int option"
  dr_fromisoformat :: "str \<Rightarrow> (int \<times> bool) option"

definition parse_expiration :: "datetime_reader \<Rightarrow> str \<Rightarrow> release_exn + int" where
  "parse_expiration reader raw =
     (case (if endswith raw (lit '' UTC'') then map_option (\<lambda>t. (t, True)) (dr_strptime reader raw)
            else dr_fromisoformat reader raw) of
        None \<Rightarrow> Inl (RValue ''invalid GitHub token expiration'')
      | Some (t, aware) \<Rightarrow>
          if aware then Inr t else Inl (RValue ''GitHub token expiration must include a timezone''))"

text \<open>\<open>now\<close> is aware: the command line passes \<open>datetime.now(UTC)\<close>.\<close>

definition validate_credential :: "datetime_reader \<Rightarrow> str \<Rightarrow> json \<Rightarrow> str \<Rightarrow> int \<Rightarrow> release_exn + int" where
  "validate_credential reader headers user_document expected_login now =
     rbind (require ''authenticated GitHub login does not match fork owner''
       (is_object user_document \<and> sub user_document (lit ''login'') = JStr expected_login)) (\<lambda>_.
     rbind (reject_classic_scopes headers) (\<lambda>_.
     rbind (expiration headers) (\<lambda>raw.
     rbind (parse_expiration reader raw) (\<lambda>t.
       if t \<le> now then Inl (RValue ''GitHub token is expired'') else Inr t))))"

definition validate_fork_repository :: "json \<Rightarrow> str \<Rightarrow> release_exn + unit" where
  "validate_fork_repository document expected_owner =
     checks
       [require ''fork repository response must be an object'' (is_object document),
        require ''credential must access the intended writable modular-community fork''
          (sub document (lit ''full_name'') = JStr (expected_owner @ lit ''/modular-community'')
           \<and> sub document (lit ''fork'') = JBool True
           \<and> is_object (sub document (lit ''parent''))
           \<and> sub (sub document (lit ''parent'')) (lit ''full_name'') = JStr (lit ''modular/modular-community'')
           \<and> is_object (sub document (lit ''permissions''))
           \<and> sub (sub document (lit ''permissions'')) (lit ''push'') = JBool True)]"

definition validate_archive_license :: "str \<Rightarrow> str \<Rightarrow> release_exn + unit" where
  "validate_archive_license listing expected =
     require ''archive must contain exactly one entry''
       (filter (\<lambda>line. line = expected)
          (map (rstrip_of (\<lambda>c. c = 32 \<or> c = 9 \<or> c = 13)) (splitlines listing)) = [expected])"

section \<open>The command line\<close>

text \<open>A JSON file is its content, \<open>None\<close> when unreadable.\<close>

definition load_json :: "bytes option \<Rightarrow> release_exn + json" where
  "load_json content =
     (case content of
        None \<Rightarrow> Inl ROS
      | Some encoded \<Rightarrow> (case json_loads_bytes encoded of Inl _ \<Rightarrow> Inl (RValue ''invalid JSON'') | Inr v \<Rightarrow> Inr v))"

definition write_text :: "bool \<Rightarrow> bool \<Rightarrow> str \<Rightarrow> release_exn + str option" where
  "write_text is_symlink fails content =
     (if is_symlink then Inl (RValue ''output must not be a symlink'')
      else if fails then Inl ROS else Inr (Some content))"

datatype community_command =
    Branch str int
  | ArchiveLicense "str option" str
  | ClassifyPublication "bytes option" "bytes option" "bytes option" str str int
  | Credential "str option" "bytes option" str int
  | Fork "bytes option" str

definition read_listing :: "str option \<Rightarrow> release_exn + str" where
  "read_listing content = (case content of None \<Rightarrow> Inl ROS | Some s \<Rightarrow> Inr s)"

definition decision_text :: "publication_decision \<Rightarrow> str" where
  "decision_text d = json_text (sort_keys (JObj
     [(lit ''action'', JStr (publication_value (pd_action d))),
      (lit ''pull_request_url'', case pd_pull_request_url d of None \<Rightarrow> JNull | Some u \<Rightarrow> JStr u)]))"

text \<open>The text of an instant, \<open>isoformat\<close> with \<open>Z\<close>, is an argument.\<close>

fun community_command_result ::
  "(str \<Rightarrow> int option) \<Rightarrow> datetime_reader \<Rightarrow> (int \<Rightarrow> str) \<Rightarrow> bool \<Rightarrow> bool \<Rightarrow> community_command \<Rightarrow>
     release_exn + str option" where
  "community_command_result float_int reader isoformat is_symlink fails (Branch version build_number) =
     rbind (branch_name version build_number) (\<lambda>name. write_text is_symlink fails (name @ [10]))"
| "community_command_result float_int reader isoformat is_symlink fails (ArchiveLicense listing expected) =
     rbind (read_listing listing) (\<lambda>l. rbind (validate_archive_license l expected) (\<lambda>_. Inr None))"
| "community_command_result float_int reader isoformat is_symlink fails
     (ClassifyPublication linux macos pulls owner version build_number) =
     rbind (load_json linux) (\<lambda>l. rbind (load_json macos) (\<lambda>m. rbind (load_json pulls) (\<lambda>p.
     rbind (classify_publication float_int l m p owner version build_number) (\<lambda>d.
       write_text is_symlink fails (decision_text d @ [10])))))"
| "community_command_result float_int reader isoformat is_symlink fails (Credential headers user expected_login now) =
     rbind (read_listing headers) (\<lambda>h. rbind (load_json user) (\<lambda>u.
     rbind (validate_credential reader h u expected_login now) (\<lambda>t.
       write_text is_symlink fails (isoformat t @ [10]))))"
| "community_command_result float_int reader isoformat is_symlink fails (Fork repository expected_owner) =
     rbind (load_json repository) (\<lambda>r. rbind (validate_fork_repository r expected_owner) (\<lambda>_. Inr None))"

definition community_main ::
  "(str \<Rightarrow> int option) \<Rightarrow> datetime_reader \<Rightarrow> (int \<Rightarrow> str) \<Rightarrow> bool \<Rightarrow> bool \<Rightarrow> community_command \<Rightarrow>
     int \<times> str option" where
  "community_main float_int reader isoformat is_symlink fails command =
     (case community_command_result float_int reader isoformat is_symlink fails command of
        Inl _ \<Rightarrow> (1, None) | Inr written \<Rightarrow> (0, written))"

section \<open>Publication\<close>

text \<open>One record of exactly this build, and a pull request from exactly this branch.\<close>

definition published :: "(str \<Rightarrow> int option) \<Rightarrow> json \<Rightarrow> str \<Rightarrow> str \<Rightarrow> int \<Rightarrow> bool" where
  "published float_int document platform version build_number \<longleftrightarrow>
     (\<exists>item. document = JArr [JObj item] \<and> record_matches float_int item platform version build_number
        \<and> \<not> is_bool (jget item (lit ''build_number'')))"

definition proposed :: "json \<Rightarrow> str \<Rightarrow> str \<Rightarrow> publication_decision \<Rightarrow> bool" where
  "proposed item owner branch d \<longleftrightarrow>
     head_matches (sub item (lit ''head'')) owner branch
     \<and> sub item (lit ''maintainer_can_modify'') = JBool False
     \<and> base_matches (sub item (lit ''base''))
     \<and> (\<exists>url. sub item (lit ''html_url'') = JStr url \<and> startswith url (lit ''https://github.com/'')
          \<and> pd_pull_request_url d = Some url)
     \<and> pull_request_action (sub item (lit ''state'')) (sub item (lit ''merged_at'')) = Some (pd_action d)"

lemma channel_records_Inr:
  "channel_records fi doc platform version b = Inr present \<longleftrightarrow>
     (if present then published fi doc platform version b else doc = JArr [])"
  by (auto simp: channel_records_def published_def split: json.splits list.splits)

lemma head_matches_object: "head_matches (sub v k) owner branch \<Longrightarrow> is_object v \<and> is_object (sub v k)"
  by (cases v; cases "sub v k") (auto simp: head_matches_def is_object_def sub_def)

lemma pull_request_of_Inr: "pull_request_of item owner branch = Inr d \<longleftrightarrow> proposed item owner branch d"
proof -
  have "(\<exists>x. checks
       [require ''pull request record must be an object'' (is_object item),
        require ''pull request head is missing'' (is_object (sub item (lit ''head''))),
        require ''pull request head does not match the exact fork branch''
          (head_matches (sub item (lit ''head'')) owner branch),
        require ''pull request must disable maintainer edits''
          (sub item (lit ''maintainer_can_modify'') = JBool False),
        require ''pull request base must be modular/modular-community main''
          (base_matches (sub item (lit ''base'')))] = Inr x) \<longleftrightarrow>
     head_matches (sub item (lit ''head'')) owner branch
     \<and> sub item (lit ''maintainer_can_modify'') = JBool False \<and> base_matches (sub item (lit ''base''))"
    using head_matches_object by (auto simp: checks_Inr)
  then show ?thesis
    unfolding pull_request_of_def proposed_def rbind_Inr
    by (cases d) (auto split: json.splits option.splits if_splits)
qed

lemma find_pull_request_Inr:
  "find_pull_request doc owner branch = Inr found \<longleftrightarrow>
     (case found of None \<Rightarrow> doc = JArr [] | Some d \<Rightarrow> \<exists>item. doc = JArr [item] \<and> proposed item owner branch d)"
  by (auto simp: find_pull_request_def rbind_Inr pull_request_of_Inr split: json.splits list.splits option.splits)

lemma published_not_empty: "published fi (JArr []) platform version b \<longleftrightarrow> False"
  by (simp add: published_def)

text \<open>
  The publication decision: a decision is made exactly for a stable version and a build number
  that is not negative, and it is: nothing to do when both channels hold exactly this build; update
  or wait when neither does and the one pull request comes from exactly this branch; and a new branch
  when there is nothing.  Every other response is an error.
\<close>

theorem publication_decided:
  "classify_publication fi linux macos pulls owner version b = Inr d \<longleftrightarrow>
     (\<exists>branch. branch_name version b = Inr branch \<and>
       (published fi linux (lit ''linux-64'') version b \<and> published fi macos (lit ''osx-arm64'') version b
          \<and> d = \<lparr> pd_action = PUBLISHED_NOOP, pd_pull_request_url = None \<rparr>
        \<or> linux = JArr [] \<and> macos = JArr [] \<and>
          (pulls = JArr [] \<and> d = \<lparr> pd_action = CREATE_BRANCH, pd_pull_request_url = None \<rparr>
           \<or> (\<exists>item. pulls = JArr [item] \<and> proposed item owner branch d))))"
  by (auto simp: classify_publication_def rbind_Inr channel_records_Inr find_pull_request_Inr published_not_empty
      ex_bool_eq split_option_ex split: if_splits)

section \<open>Branches\<close>

lemma decimal_inj: "decimal m = decimal n \<Longrightarrow> m = n"
  by (metis digits_value_decimal of_nat_eq_iff)

lemma numeric_no_dash: "numeric_part s \<Longrightarrow> 45 \<notin> set s"
  by (auto simp: numeric_part_def list_all_iff is_ascii_digit_def)

lemma version_no_dash: "is_version s \<Longrightarrow> 45 \<notin> set s"
proof
  assume v: "is_version s" and "45 \<in> set s"
  then have "45 \<in> set (join_with [46] (split_on 46 s))"
    by (simp add: join_split)
  moreover have "45 \<in> set (join_with [46] xs) \<Longrightarrow> \<exists>x\<in>set xs. 45 \<in> set x" for xs :: "str list"
    by (induction "[46::int]" xs rule: join_with.induct) auto
  ultimately obtain x where "x \<in> set (split_on 46 s)" "45 \<in> set x"
    by blast
  then show False
    using v numeric_no_dash by (auto simp: is_version_def list_all_iff)
qed

text \<open>
  Two builds that get the same branch name are the same build.
\<close>

theorem branch_name_unique:
  assumes "branch_name version b = Inr name" "branch_name version' b' = Inr name"
  shows "version = version' \<and> b = b'"
proof -
  have n: "version @ 45 # lit ''build-'' @ int_repr b = version' @ 45 # lit ''build-'' @ int_repr b'"
    and v: "45 \<notin> set version" "45 \<notin> set version'" and b: "0 \<le> b" "0 \<le> b'"
    using assms version_no_dash by (auto simp: branch_name_def rbind_Inr)
  have "split_on 45 (version @ 45 # lit ''build-'' @ int_repr b) = split_on 45 (version' @ 45 # lit ''build-'' @ int_repr b')"
    using n by (rule arg_cong)
  then have "version = version'"
    by (simp only: split_on_append [OF v(1)] split_on_append [OF v(2)] list.inject)
  then have "int_repr b = int_repr b'"
    using n by simp
  then have "nat b = nat b'"
    using b decimal_inj by (simp add: int_repr_def)
  with b \<open>version = version'\<close> show ?thesis
    by simp
qed

theorem branch_name_unique_witness:
  "branch_name (lit ''1.2.0'') 3 = Inr (lit ''mtest-1.2.0-build-3'')
   \<and> (\<forall>v b. branch_name v b \<noteq> Inr (lit ''mtest-1.2.0-build-3'') \<or> v = lit ''1.2.0'' \<and> b = 3)"
proof -
  have "branch_name (lit ''1.2.0'') 3 = Inr (lit ''mtest-1.2.0-build-3'')"
    by code_simp
  then show ?thesis
    using branch_name_unique by blast
qed

section \<open>Credentials\<close>

text \<open>
  The credential: a credential is accepted exactly when the user is the fork owner, no header
  line names a classic scope, exactly one header line gives an expiration, and that is a time with a
  zone after now; the result is that time.
\<close>

theorem credential_accepted_iff:
  "validate_credential reader headers user owner now = Inr t \<longleftrightarrow>
     is_object user \<and> sub user (lit ''login'') = JStr owner
     \<and> list_all (\<lambda>line. header_value OAUTH_SCOPES_HEADER line \<in> {None, Some []}) (splitlines headers)
     \<and> (\<exists>raw. List.map_filter (header_value EXPIRATION_HEADER) (splitlines headers) = [raw]
          \<and> (if endswith raw (lit '' UTC'') then dr_strptime reader raw = Some t
             else dr_fromisoformat reader raw = Some (t, True)))
     \<and> now < t"
proof -
  have scopes: "reject_classic_scopes headers = Inr u \<longleftrightarrow>
      list_all (\<lambda>line. header_value OAUTH_SCOPES_HEADER line \<in> {None, Some []}) (splitlines headers)" for u
    by (auto simp: reject_classic_scopes_def list_all_iff set_map_filter) (metis option.exhaust)
  have expire: "expiration headers = Inr raw \<longleftrightarrow>
      List.map_filter (header_value EXPIRATION_HEADER) (splitlines headers) = [raw]" for raw
    by (auto simp: expiration_def split: list.splits)
  have parse: "parse_expiration reader raw = Inr t \<longleftrightarrow>
      (if endswith raw (lit '' UTC'') then dr_strptime reader raw = Some t
       else dr_fromisoformat reader raw = Some (t, True))" for raw t
    by (auto simp: parse_expiration_def split: option.splits)
  have future: "(if t' \<le> now then Inl (RValue ''GitHub token is expired'') else Inr t') = Inr t \<longleftrightarrow> t' = t \<and> now < t"
    for t' by auto
  show ?thesis
    unfolding validate_credential_def rbind_Inr scopes expire parse future by auto
qed

text \<open>A channel record whose build number is a float equal to it is accepted.\<close>

lemma float_build_number_accepted:
  "channel_records (\<lambda>t. if t = lit ''0.0'' then Some 0 else None)
     (JArr [JObj [(lit ''name'', JStr (lit ''mtest'')), (lit ''version'', JStr (lit ''1.2.0'')),
       (lit ''build_number'', JFloat (lit ''0.0'')), (lit ''subdir'', JStr (lit ''linux-64''))]])
     (lit ''linux-64'') (lit ''1.2.0'') 0 = Inr True"
  by code_simp

end
