(* ===== verification/Canary_Readings.thy ===== *)
theory Canary_Readings
  imports Json_Bytes Regex
begin

text \<open>
  scripts/canary/run.py, the readings: what the probe makes of the output of one command.  The
  search answers of pixi, the roll-calls of the end-to-end and contract gates, the failure of the
  transcript generator.
\<close>

section \<open>Vocabulary\<close>

datatype classification =
    PASS | NO_NEWER_CANDIDATE | PROTOCOL_DRIFT | SOURCE_INCOMPATIBLE | PACKAGE_FAILED
  | STAGE_TIMEOUT | CANARY_BROKEN | INFRA_FAILURE

fun classification_name :: "classification \<Rightarrow> str" where
  "classification_name PASS = lit ''PASS''"
| "classification_name NO_NEWER_CANDIDATE = lit ''NO_NEWER_CANDIDATE''"
| "classification_name PROTOCOL_DRIFT = lit ''PROTOCOL_DRIFT''"
| "classification_name SOURCE_INCOMPATIBLE = lit ''SOURCE_INCOMPATIBLE''"
| "classification_name PACKAGE_FAILED = lit ''PACKAGE_FAILED''"
| "classification_name STAGE_TIMEOUT = lit ''STAGE_TIMEOUT''"
| "classification_name CANARY_BROKEN = lit ''CANARY_BROKEN''"
| "classification_name INFRA_FAILURE = lit ''INFRA_FAILURE''"

definition CLASSIFICATIONS :: "classification list" where
  "CLASSIFICATIONS =
     [PASS, NO_NEWER_CANDIDATE, PROTOCOL_DRIFT, SOURCE_INCOMPATIBLE, PACKAGE_FAILED,
      STAGE_TIMEOUT, CANARY_BROKEN, INFRA_FAILURE]"

text \<open>The exceptions of the canary's scripts.\<close>

datatype canary_exn = ToolchainError string | CanaryValueError string | CanaryOSError

record command_result =
  cr_argv :: "str list"
  cr_returncode :: int
  cr_stdout :: str
  cr_stderr :: str

definition TIMEOUT_RETURNCODE :: int where
  "TIMEOUT_RETURNCODE = 124"

definition timed_out :: "command_result \<Rightarrow> bool" where
  "timed_out r \<longleftrightarrow> cr_returncode r = TIMEOUT_RETURNCODE"

section \<open>Describing a command\<close>

definition last_meaningful_line :: "str \<Rightarrow> str" where
  "last_meaningful_line stream =
     (let lines = filter (\<lambda>l. l \<noteq> []) (map strip (splitlines stream))
      in if lines = [] then [] else last lines)"

text \<open>\<open>shlex.quote\<close> and \<open>shlex.join\<close>\<close>

definition shell_safe :: "int \<Rightarrow> bool" where
  "shell_safe c \<longleftrightarrow> is_ascii_alnum c \<or> c \<in> set (lit ''_@%+=:,./-'')"

definition shlex_quote :: "str \<Rightarrow> str" where
  "shlex_quote s =
     (if s = [] then [39, 39]
      else if list_all shell_safe s then s
      else [39] @ concat (map (\<lambda>c. if c = 39 then [39, 34, 39, 34, 39] else [c]) s) @ [39])"

definition shlex_join :: "str list \<Rightarrow> str" where
  "shlex_join argv = join_with [32] (map shlex_quote argv)"

definition command_failure :: "command_result \<Rightarrow> str" where
  "command_failure r =
     (let tail = (if last_meaningful_line (cr_stderr r) \<noteq> [] then last_meaningful_line (cr_stderr r)
                  else last_meaningful_line (cr_stdout r));
          described = [96] @ shlex_join (cr_argv r) @ lit ''` exited '' @ int_repr (cr_returncode r)
      in if tail \<noteq> [] then described @ lit '': '' @ tail else described)"

text \<open>The first line that matches \<open>^.*?: error: .*$\<close>.\<close>

definition diagnostic_line :: "str \<Rightarrow> str option" where
  "diagnostic_line stream = List.find (\<lambda>l. contains l (lit '': error: '')) (split_on 10 stream)"

definition first_diagnostic :: "command_result \<Rightarrow> str" where
  "first_diagnostic r =
     (case diagnostic_line (cr_stderr r) of
        Some l \<Rightarrow> rstrip_of (\<lambda>c. c = 13) l
      | None \<Rightarrow>
          (case diagnostic_line (cr_stdout r) of
             Some l \<Rightarrow> rstrip_of (\<lambda>c. c = 13) l
           | None \<Rightarrow> command_failure r))"

section \<open>Search answers\<close>

definition search_argv :: "str list \<Rightarrow> str \<Rightarrow> str list" where
  "search_argv channels matchspec =
     [lit ''pixi'', lit ''search'', lit ''--json''] @ concat (map (\<lambda>c. [lit ''-c'', c]) channels) @ [matchspec]"

definition record_version :: "json \<Rightarrow> canary_exn + str" where
  "record_version r =
     (case (case r of JObj d \<Rightarrow> jget d (lit ''version'') | _ \<Rightarrow> JNull) of
        JStr v \<Rightarrow> Inr v
      | _ \<Rightarrow> Inl (CanaryValueError ''printed a record with no version''))"

definition subdir_versions :: "json \<Rightarrow> canary_exn + str list" where
  "subdir_versions records =
     (case records of
        JArr rs \<Rightarrow> rmap record_version rs
      | _ \<Rightarrow> Inl (CanaryValueError ''printed a non-list of package records''))"

definition search_subdirs :: "command_result \<Rightarrow> canary_exn + str list list" where
  "search_subdirs r =
     (case json_loads (cr_stdout r) of
        Inl _ \<Rightarrow> Inl (CanaryValueError ''did not print JSON'')
      | Inr (JObj d) \<Rightarrow> rmap subdir_versions (map snd d)
      | Inr _ \<Rightarrow> Inl (CanaryValueError ''printed no object''))"

text \<open>Appending what is not there yet.\<close>

definition add_new :: "str \<Rightarrow> str list \<Rightarrow> str list" where
  "add_new v vs = (if v \<in> set vs then vs else vs @ [v])"

definition search_versions :: "command_result \<Rightarrow> canary_exn + str list" where
  "search_versions r =
     rbind (search_subdirs r) (\<lambda>subdirs. Inr (fold (fold add_new) subdirs []))"

definition search_newest :: "command_result \<Rightarrow> canary_exn + str list" where
  "search_newest r =
     rbind (search_subdirs r) (\<lambda>subdirs.
       Inr (fold (\<lambda>subdir newest. case subdir of [] \<Rightarrow> newest | v # _ \<Rightarrow> add_new v newest) subdirs []))"

definition above_pin :: "str \<Rightarrow> str list \<Rightarrow> str list" where
  "above_pin pin subdir = (if pin \<in> set subdir then takeWhile (\<lambda>v. v \<noteq> pin) subdir else [])"

definition versions_newer_than :: "command_result \<Rightarrow> str \<Rightarrow> canary_exn + str list" where
  "versions_newer_than r pin =
     rbind (search_subdirs r) (\<lambda>subdirs.
       Inr (fold (\<lambda>subdir newer. fold add_new (above_pin pin subdir) newer) subdirs []))"

definition control_confirms_channels :: "command_result \<Rightarrow> str \<Rightarrow> bool" where
  "control_confirms_channels control pin \<longleftrightarrow>
     cr_returncode control = 0
     \<and> (case search_versions control of Inl _ \<Rightarrow> False | Inr vs \<Rightarrow> pin \<in> set vs)"

definition uncorroborated_classification :: "command_result \<Rightarrow> classification" where
  "uncorroborated_classification control =
     (if cr_returncode control \<noteq> 0 then INFRA_FAILURE else CANARY_BROKEN)"

section \<open>The end-to-end roll-call\<close>

definition TOLERATED_E2E_SCENARIOS :: "str list" where
  "TOLERATED_E2E_SCENARIOS = [lit ''doctor-healthy'', lit ''doctor-config-free'']"

text \<open>A line that matches \<open>^FAILED: (\S+)$\<close>.\<close>

definition failed_scenario :: "str \<Rightarrow> str option" where
  "failed_scenario line =
     (if startswith line (lit ''FAILED: '') \<and> drop 8 line \<noteq> [] \<and> list_all (\<lambda>c. \<not> is_space c) (drop 8 line)
      then Some (drop 8 line) else None)"

definition failed_scenarios :: "str \<Rightarrow> str list" where
  "failed_scenarios stdout = List.map_filter failed_scenario (split_on 10 stdout)"

text \<open>Why a roll-call condemns the candidate, with the names of the message.\<close>

datatype condemnation =
    NoRoster
  | Skipped int
  | NotAccounted int
  | Uncounted int nat
  | Repeated "str set"
  | Unexpected "str list"
  | MissingFailures "str list"
  | WrongExit int
  | NotMoved

definition repeated_names :: "str list \<Rightarrow> str set" where
  "repeated_names names = {n \<in> set names. 1 < count_list names n}"

definition e2e_failure_verdict :: "str list \<Rightarrow> bool \<Rightarrow> condemnation option" where
  "e2e_failure_verdict failed toolchain_moved =
     (let unexpected = filter (\<lambda>n. n \<notin> set TOLERATED_E2E_SCENARIOS) failed;
          absent = sort (filter (\<lambda>n. n \<notin> set failed) TOLERATED_E2E_SCENARIOS)
      in if unexpected \<noteq> [] then Some (Unexpected unexpected)
         else if repeated_names failed \<noteq> {} then Some (Repeated (repeated_names failed))
         else if absent \<noteq> [] then Some (MissingFailures absent)
         else if \<not> toolchain_moved then Some NotMoved
         else None)"

section \<open>The transcript generator\<close>

definition GENERATOR_PIN_EXIT :: int where
  "GENERATOR_PIN_EXIT = 2"

definition GENERATOR_PIN_MARKER :: str where
  "GENERATOR_PIN_MARKER = lit ''STRUCTURAL PIN FAILED''"

definition generator_failure :: "command_result \<Rightarrow> classification \<times> str" where
  "generator_failure r =
     (if timed_out r then (STAGE_TIMEOUT, command_failure r)
      else if cr_returncode r = GENERATOR_PIN_EXIT \<and> contains (cr_stderr r) GENERATOR_PIN_MARKER
      then (PROTOCOL_DRIFT, command_failure r)
      else (SOURCE_INCOMPATIBLE, first_diagnostic r))"

section \<open>The contract roll-call\<close>

definition EXPECTED_CONTRACT_CHECKS :: int where
  "EXPECTED_CONTRACT_CHECKS = 127"

definition CONTRACT_FAILURE_EXIT :: int where
  "CONTRACT_FAILURE_EXIT = 1"

definition TOLERATED_CONTRACT_FAILURES :: "(str \<times> str) list" where
  "TOLERATED_CONTRACT_FAILURES =
     [(lit ''pipe: every direct-output command survives a closed stdout'', lit ''doctor: exit 1, want 0''),
      (lit ''served: doctor --no-cache accepted, inert (not exit 4)'', lit ''exit 1, want 0''),
      (lit ''served: doctor --cache-clear accepted, inert (not exit 4)'', lit ''exit 1, want 0'')]"

text \<open>
  \<open>_CONTRACT_SUMMARY\<close> and \<open>_CONTRACT_FAILURE\<close> match within one line.  A number is the longest run of
  digits, as what follows it is none; the lazy groups of a failure end at the first place from which
  the rest of the pattern matches.
\<close>

definition number_before :: "string \<Rightarrow> str \<Rightarrow> (str \<times> str) option" where
  "number_before after s =
     (let ds = takeWhile is_digit s; r = dropWhile is_digit s
      in if ds \<noteq> [] \<and> startswith r (lit after) then Some (ds, drop (length after) r) else None)"

definition contract_summary :: "str \<Rightarrow> (str \<times> str \<times> str) option" where
  "contract_summary line =
     (if startswith line (lit ''===== '') then
        (case number_before '' passed, '' (drop 6 line) of
           None \<Rightarrow> None
         | Some (passed, r) \<Rightarrow>
             (case number_before '' failed, '' r of
                None \<Rightarrow> None
              | Some (failed, r') \<Rightarrow>
                  (case number_before '' skipped ====='' r' of
                     Some (skipped, []) \<Rightarrow> Some (passed, failed, skipped)
                   | _ \<Rightarrow> None)))
      else None)"

text \<open>A non-empty text up to the first place where \<open>sep\<close> and then \<open>k\<close> match.\<close>

fun lazy_until :: "str \<Rightarrow> (str \<Rightarrow> 'a option) \<Rightarrow> str \<Rightarrow> (str \<times> 'a) option" where
  "lazy_until sep k [] = None"
| "lazy_until sep k (c # s) =
     (case (if startswith s sep then k (drop (length sep) s) else None) of
        Some a \<Rightarrow> Some ([c], a)
      | None \<Rightarrow> map_option (\<lambda>(t, a). (c # t, a)) (lazy_until sep k s))"

definition contract_failure :: "str \<Rightarrow> (str \<times> str) option" where
  "contract_failure line =
     (if startswith line (lit ''  - '')
      then map_option (\<lambda>(name, ref, detail). (name, detail))
             (lazy_until (lit ''  ('') (lazy_until (lit ''): '') Some) (drop 4 line))
      else None)"

record contract_report =
  ct_passed :: int
  ct_failed :: int
  ct_skipped :: int
  ct_failures :: "(str \<times> str) list"

definition accounted :: "contract_report \<Rightarrow> int" where
  "accounted r = ct_passed r + ct_failed r + ct_skipped r"

definition read_count :: "str \<Rightarrow> canary_exn + int" where
  "read_count raw =
     (if 4300 < length raw then Inl (CanaryValueError ''digit limit'') else Inr (int_of_digits raw))"

definition read_contract_report :: "str \<Rightarrow> canary_exn + contract_report option" where
  "read_contract_report stdout =
     (case List.map_filter contract_summary (split_on 10 stdout) of
        [(p, f, k)] \<Rightarrow>
          rbind (read_count p) (\<lambda>passed.
          rbind (read_count f) (\<lambda>failed.
          rbind (read_count k) (\<lambda>skipped. Inr (Some
            \<lparr> ct_passed = passed, ct_failed = failed, ct_skipped = skipped,
              ct_failures = List.map_filter contract_failure (split_on 10 stdout) \<rparr>))))
      | _ \<Rightarrow> Inr None)"

definition report_verdict :: "contract_report \<Rightarrow> int \<Rightarrow> bool \<Rightarrow> condemnation option" where
  "report_verdict report returncode toolchain_moved =
     (let named = map fst (ct_failures report);
          unexpected = filter (\<lambda>f. f \<notin> set TOLERATED_CONTRACT_FAILURES) (ct_failures report);
          absent = filter (\<lambda>n. n \<notin> set named) (map fst TOLERATED_CONTRACT_FAILURES)
      in if ct_skipped report \<noteq> 0 then Some (Skipped (ct_skipped report))
         else if accounted report \<noteq> EXPECTED_CONTRACT_CHECKS then Some (NotAccounted (accounted report))
         else if ct_failed report \<noteq> int (length (ct_failures report))
           then Some (Uncounted (ct_failed report) (length (ct_failures report)))
         else if repeated_names named \<noteq> {} then Some (Repeated (repeated_names named))
         else if unexpected \<noteq> []
           then Some (Unexpected (map (\<lambda>(n, d). n @ lit '' ('' @ d @ lit '')'') unexpected))
         else if absent \<noteq> [] then Some (MissingFailures absent)
         else if returncode \<noteq> CONTRACT_FAILURE_EXIT then Some (WrongExit returncode)
         else if \<not> toolchain_moved then Some NotMoved
         else None)"

definition contract_verdict :: "command_result \<Rightarrow> bool \<Rightarrow> canary_exn + condemnation option" where
  "contract_verdict r toolchain_moved =
     rbind (read_contract_report (cr_stdout r)) (\<lambda>report.
       case report of
         None \<Rightarrow> Inr (Some NoRoster)
       | Some report \<Rightarrow> Inr (report_verdict report (cr_returncode r) toolchain_moved))"

section \<open>Exactly the expected failures\<close>

lemma repeated_names_empty: "repeated_names names = {} \<longleftrightarrow> distinct names"
proof (induction names)
  case (Cons n names)
  have "n \<in> set names \<longleftrightarrow> 0 < count_list names n"
    using count_list_0_iff [of names n] by auto
  then have "repeated_names (n # names) = {} \<longleftrightarrow> n \<notin> set names \<and> repeated_names names = {}"
    by (fastforce simp: repeated_names_def split: if_splits)
  with Cons show ?case by simp
qed (simp add: repeated_names_def)

lemma same_roster:
  assumes "distinct (map fst fs)" "distinct (map fst ts)"
  shows "set fs \<subseteq> set ts \<and> fst ` set ts \<subseteq> fst ` set fs \<longleftrightarrow> mset fs = mset ts"
proof
  assume sub: "set fs \<subseteq> set ts \<and> fst ` set ts \<subseteq> fst ` set fs"
  have "set ts \<subseteq> set fs"
  proof
    fix t assume t: "t \<in> set ts"
    then obtain f where f: "f \<in> set fs" "fst f = fst t"
      using sub by (metis (mono_tags) image_iff subsetD)
    then have "f = t"
      using sub t assms(2) by (metis eq_key_imp_eq_value prod.collapse subsetD)
    with f show "t \<in> set fs" by simp
  qed
  with sub assms show "mset fs = mset ts"
    by (metis distinct_map set_eq_iff_mset_eq_distinct subset_antisym)
next
  assume "mset fs = mset ts"
  then have "set fs = set ts" by (rule mset_eq_setD)
  then show "set fs \<subseteq> set ts \<and> fst ` set ts \<subseteq> fst ` set fs" by simp
qed

lemma tolerated_names_distinct: "distinct (map fst TOLERATED_CONTRACT_FAILURES)"
  by (simp add: TOLERATED_CONTRACT_FAILURES_def)

lemma report_verdict_None:
  "report_verdict report returncode moved = None \<longleftrightarrow>
     ct_skipped report = 0 \<and> ct_passed report = 124 \<and> ct_failed report = 3
     \<and> mset (ct_failures report) = mset TOLERATED_CONTRACT_FAILURES
     \<and> returncode = CONTRACT_FAILURE_EXIT \<and> moved"
proof -
  let ?fs = "ct_failures report" and ?ts = TOLERATED_CONTRACT_FAILURES
  have raw: "report_verdict report returncode moved = None \<longleftrightarrow>
      ct_skipped report = 0 \<and> accounted report = EXPECTED_CONTRACT_CHECKS \<and> ct_failed report = int (length ?fs)
      \<and> distinct (map fst ?fs) \<and> (set ?fs \<subseteq> set ?ts \<and> fst ` set ?ts \<subseteq> fst ` set ?fs)
      \<and> returncode = CONTRACT_FAILURE_EXIT \<and> moved"
    unfolding report_verdict_def Let_def repeated_names_empty filter_empty_conv
    by (auto simp: subset_iff)
  have len: "mset ?fs = mset ?ts \<Longrightarrow> length ?fs = 3"
    by (drule mset_eq_length) (simp add: TOLERATED_CONTRACT_FAILURES_def)
  have dist: "mset ?fs = mset ?ts \<Longrightarrow> distinct (map fst ?fs)"
    using tolerated_names_distinct by (metis mset_eq_imp_distinct_iff mset_map)
  show ?thesis
    unfolding raw using same_roster [OF _ tolerated_names_distinct, of ?fs] len dist
    by (auto simp: accounted_def EXPECTED_CONTRACT_CHECKS_def)
qed

lemma contract_verdict_None:
  "contract_verdict r moved = Inr None \<longleftrightarrow>
     moved \<and> cr_returncode r = CONTRACT_FAILURE_EXIT
     \<and> (\<exists>report. read_contract_report (cr_stdout r) = Inr (Some report) \<and> ct_skipped report = 0
          \<and> ct_passed report = 124 \<and> ct_failed report = 3
          \<and> mset (ct_failures report) = mset TOLERATED_CONTRACT_FAILURES)"
  by (auto simp: contract_verdict_def rbind_Inr report_verdict_None split: option.splits)

lemma e2e_verdict_None:
  "e2e_failure_verdict failed moved = None \<longleftrightarrow> moved \<and> mset failed = mset TOLERATED_E2E_SCENARIOS"
proof -
  let ?ts = TOLERATED_E2E_SCENARIOS
  have d: "distinct ?ts" by (simp add: TOLERATED_E2E_SCENARIOS_def)
  have raw: "e2e_failure_verdict failed moved = None \<longleftrightarrow>
      set failed \<subseteq> set ?ts \<and> distinct failed \<and> set ?ts \<subseteq> set failed \<and> moved"
    unfolding e2e_failure_verdict_def Let_def repeated_names_empty filter_empty_conv
    by (auto simp: subset_iff filter_empty_conv simp flip: set_empty)
  have "mset failed = mset ?ts \<longleftrightarrow> distinct failed \<and> set failed = set ?ts"
    using d by (metis mset_eq_imp_distinct_iff mset_eq_setD set_eq_iff_mset_eq_distinct)
  then show ?thesis unfolding raw by auto
qed

section \<open>What a search answer shows\<close>

lemma set_fold_add_new: "set (fold add_new vs acc) = set vs \<union> set acc"
  by (induction vs arbitrary: acc) (auto simp: add_new_def)

lemma set_search_versions:
  "search_versions r = Inr vs \<Longrightarrow> search_subdirs r = Inr subdirs \<Longrightarrow> set vs = \<Union> (set ` set subdirs)"
proof -
  have "set (fold (fold add_new) subdirs acc) = \<Union> (set ` set subdirs) \<union> set acc" for acc
    by (induction subdirs arbitrary: acc) (auto simp: set_fold_add_new)
  then show "search_versions r = Inr vs \<Longrightarrow> search_subdirs r = Inr subdirs \<Longrightarrow> set vs = \<Union> (set ` set subdirs)"
    by (auto simp: search_versions_def)
qed

lemma set_versions_newer:
  "versions_newer_than r pin = Inr vs \<Longrightarrow> search_subdirs r = Inr subdirs \<Longrightarrow>
     set vs = (\<Union>subdir\<in>set subdirs. set (above_pin pin subdir))"
proof -
  have "set (fold (\<lambda>subdir newer. fold add_new (above_pin pin subdir) newer) subdirs acc)
      = (\<Union>subdir\<in>set subdirs. set (above_pin pin subdir)) \<union> set acc" for acc
    by (induction subdirs arbitrary: acc) (auto simp: set_fold_add_new)
  then show "versions_newer_than r pin = Inr vs \<Longrightarrow> search_subdirs r = Inr subdirs \<Longrightarrow>
      set vs = (\<Union>subdir\<in>set subdirs. set (above_pin pin subdir))"
    by (auto simp: versions_newer_than_def)
qed

lemma above_pin_Nil: "above_pin pin subdir = [] \<longleftrightarrow> pin \<notin> set subdir \<or> hd subdir = pin"
  by (cases subdir) (auto simp: above_pin_def)

end
