(* ===== verification/Canary_Toolchain.thy ===== *)
theory Canary_Toolchain
  imports Canary_Readings
begin

text \<open>
  scripts/canary/toolchain.py: which toolchain the workspace names, and the two rewrites of tracked
  files a probe makes in its disposable checkout.
\<close>

section \<open>Lanes and permission\<close>

datatype lane = STABLE_LANE | NIGHTLY_LANE

definition NIGHTLY_CHANNEL :: str where
  "NIGHTLY_CHANNEL = lit ''https://conda.modular.com/max-nightly/''"

text \<open>The values of the two environment variables, \<open>None\<close> when unset.\<close>

definition mutation_permitted :: "str option \<Rightarrow> str option \<Rightarrow> bool" where
  "mutation_permitted ci force \<longleftrightarrow> ci = Some (lit ''true'') \<or> force = Some (lit ''1'')"

definition require_mutation_permission :: "bool \<Rightarrow> canary_exn + unit" where
  "require_mutation_permission permitted =
     (if permitted then Inr () else Inl (ToolchainError ''refusing to rewrite''))"

section \<open>The manifest\<close>

text \<open>The groups of the version specification: the whole, the operator and the version.\<close>

definition WORKSPACE_SPEC :: re where
  "WORKSPACE_SPEC = re_seq [Bol, re_lit ''mojo = '', re_lit [CHR 0x22],
     Grp 1 (re_seq [Grp 2 (Alt (re_lit ''=='') (re_lit ''>'')),
       Grp 3 (re_plus (Chr (\<lambda>c. c \<noteq> 34 \<and> c \<noteq> 44))), re_lit '',<2'']), re_lit [CHR 0x22], AtEnd]"

definition CHANNELS :: re where
  "CHANNELS = re_seq [Bol, re_lit ''channels = ['', Grp 1 (re_star (Chr (\<lambda>c. c \<noteq> 93))), re_lit '']'', AtEnd]"

definition CHANNEL_ENTRY :: re where
  "CHANNEL_ENTRY = re_seq [re_lit [CHR 0x22], Grp 1 (re_star (Chr (\<lambda>c. c \<noteq> 34))), re_lit [CHR 0x22]]"

definition sole_workspace_spec :: "str \<Rightarrow> canary_exn + nat \<times> re_match" where
  "sole_workspace_spec s =
     (case re_find_iter WORKSPACE_SPEC s of
        [(start, _, m)] \<Rightarrow> Inr (start, m)
      | _ \<Rightarrow> Inl (ToolchainError ''pixi.toml must name one mojo spec''))"

definition workspace_pin :: "str \<Rightarrow> canary_exn + str" where
  "workspace_pin toml = rbind (sole_workspace_spec toml) (\<lambda>(_, m). Inr (group_text m 3))"

definition relaxed_spec :: "str \<Rightarrow> str" where
  "relaxed_spec pin = lit ''>'' @ pin @ lit '',<2''"

definition candidate_matchspec :: "str \<Rightarrow> str" where
  "candidate_matchspec pin = lit ''mojo '' @ relaxed_spec pin"

definition floor_matchspec :: "str \<Rightarrow> str" where
  "floor_matchspec pin = lit ''mojo >='' @ pin @ lit '',<2''"

definition sole_channel_list :: "str \<Rightarrow> canary_exn + nat \<times> re_match" where
  "sole_channel_list s =
     (case re_find_iter CHANNELS s of
        [(start, _, m)] \<Rightarrow> Inr (start, m)
      | _ \<Rightarrow> Inl (ToolchainError ''pixi.toml must name one channel list''))"

definition workspace_channels :: "str \<Rightarrow> canary_exn + str list" where
  "workspace_channels toml =
     rbind (sole_channel_list toml) (\<lambda>(_, m).
       Inr (map (\<lambda>e. group_text e 1) (re_find_all CHANNEL_ENTRY (group_text m 1))))"

definition candidate_channels :: "str \<Rightarrow> lane \<Rightarrow> canary_exn + str list" where
  "candidate_channels toml lane =
     rbind (workspace_channels toml) (\<lambda>channels.
       Inr (if lane = NIGHTLY_LANE then NIGHTLY_CHANNEL # channels else channels))"

text \<open>The list begins 12 characters into its match.\<close>

definition prepend_nightly_channel :: "str \<Rightarrow> canary_exn + str" where
  "prepend_nightly_channel s =
     (if contains s NIGHTLY_CHANNEL then Inl (ToolchainError ''the nightly channel is listed already'')
      else rbind (sole_channel_list s) (\<lambda>(start, _).
        Inr (take (start + 12) s @ [34] @ NIGHTLY_CHANNEL @ [34, 44, 32] @ drop (start + 12) s)))"

text \<open>The specification begins 8 characters into its match.\<close>

definition relax_workspace_pin :: "bool \<Rightarrow> str \<Rightarrow> lane \<Rightarrow> canary_exn + str" where
  "relax_workspace_pin permitted toml lane =
     rbind (require_mutation_permission permitted) (\<lambda>_.
     rbind (sole_workspace_spec toml) (\<lambda>(start, m).
       if group_text m 2 \<noteq> lit ''=='' then Inl (ToolchainError ''the mojo spec is already relaxed'')
       else
         let relaxed = take (start + 8) toml @ relaxed_spec (group_text m 3)
               @ drop (start + 8 + length (group_text m 1)) toml
         in if lane = NIGHTLY_LANE then prepend_nightly_channel relaxed else Inr relaxed))"

section \<open>The installed toolchain\<close>

record resolved_toolchain =
  rt_version :: str
  rt_commit :: str

definition RESOLVE_ARGV :: "str list" where
  "RESOLVE_ARGV = [lit ''pixi'', lit ''run'', lit ''mojo-version'']"

text \<open>\<open>MOJO_VERSION_RE\<close> of scripts/gen_transcripts.py.\<close>

definition MOJO_VERSION_RE :: re where
  "MOJO_VERSION_RE = re_seq [re_lit ''Mojo '', Grp 1 (re_plus (Chr (\<lambda>c. \<not> is_space c))), re_lit '' ('',
     Grp 2 (re_plus (Chr (\<lambda>c. is_ascii_digit c \<or> (97 \<le> c \<and> c \<le> 102)))), re_lit '')'']"

definition parse_toolchain :: "str \<Rightarrow> canary_exn + resolved_toolchain" where
  "parse_toolchain output =
     (case re_find_all MOJO_VERSION_RE output of
        [] \<Rightarrow> Inl (ToolchainError ''cannot parse mojo version'')
      | m # _ \<Rightarrow> Inr \<lparr> rt_version = group_text m 1, rt_commit = group_text m 2 \<rparr>)"

section \<open>The recipe\<close>

text \<open>
  Every pattern of the recipe reader matches within one line, so a position is the number of a line;
  \<open>word\<close> is what \<open>\\w\<close> accepts beyond ASCII.
\<close>

definition line_start :: "str list \<Rightarrow> nat \<Rightarrow> nat" where
  "line_start lines n = sum_list (map (\<lambda>l. length l + 1) (take n lines))"

text \<open>The first line from \<open>a\<close> on and before \<open>b\<close> with a property.\<close>

definition first_line :: "(str \<Rightarrow> bool) \<Rightarrow> str list \<Rightarrow> nat \<Rightarrow> nat \<Rightarrow> nat option" where
  "first_line p lines a b = List.find (\<lambda>n. p (lines ! n)) [a..<b]"

definition requirements_span :: "str list \<Rightarrow> canary_exn + nat \<times> nat" where
  "requirements_span lines =
     (case first_line (\<lambda>l. l = lit ''requirements:'') lines 0 (length lines) of
        None \<Rightarrow> Inl (ToolchainError ''recipe has no requirements block'')
      | Some n \<Rightarrow>
          Inr (Suc n, case first_line (\<lambda>l. l \<noteq> [] \<and> \<not> is_space (hd l)) lines (Suc n) (length lines) of
                        None \<Rightarrow> length lines | Some k \<Rightarrow> k))"

definition requirements_key :: "(int \<Rightarrow> bool) \<Rightarrow> str \<Rightarrow> bool" where
  "requirements_key word line \<longleftrightarrow>
     startswith line (lit ''  '')
     \<and> (case drop 2 line of
          [] \<Rightarrow> False
        | c # r \<Rightarrow> ((65 \<le> c \<and> c \<le> 90) \<or> (97 \<le> c \<and> c \<le> 122) \<or> c = 95)
            \<and> startswith (dropWhile (\<lambda>d. is_ascii_alnum d \<or> d = 95 \<or> d = 45 \<or> (127 < d \<and> word d)) r) [58])"

definition section_span :: "(int \<Rightarrow> bool) \<Rightarrow> str list \<Rightarrow> nat \<Rightarrow> nat \<Rightarrow> str \<Rightarrow> canary_exn + nat \<times> nat" where
  "section_span word lines a b name =
     (case first_line (\<lambda>l. l = lit ''  '' @ name @ lit '':'') lines a b of
        None \<Rightarrow> Inl (ToolchainError ''recipe lacks a requirements section'')
      | Some n \<Rightarrow>
          Inr (Suc n, case first_line (requirements_key word) lines (Suc n) b of None \<Rightarrow> b | Some k \<Rightarrow> k))"

text \<open>A pin line: the version it names.\<close>

definition pinned_version :: "str \<Rightarrow> str \<Rightarrow> str option" where
  "pinned_version package line =
     (let p = lit ''    - '' @ package @ lit '' ==''; v = drop (length p) line
      in if startswith line p \<and> v \<noteq> [] \<and> list_all (\<lambda>c. \<not> is_space c) v then Some v else None)"

definition RECIPE_SLOTS :: "(str \<times> str) list" where
  "RECIPE_SLOTS =
     [(lit ''build'', lit ''mojo''), (lit ''host'', lit ''mojo-compiler''), (lit ''run'', lit ''mojo-compiler'')]"

text \<open>The span of the version in the text, and the version.\<close>

definition recipe_slot ::
  "(int \<Rightarrow> bool) \<Rightarrow> str list \<Rightarrow> nat \<Rightarrow> nat \<Rightarrow> str \<times> str \<Rightarrow> canary_exn + (nat \<times> nat) \<times> str" where
  "recipe_slot word lines a b slot =
     rbind (section_span word lines a b (fst slot)) (\<lambda>(sa, sb).
       case filter (\<lambda>n. pinned_version (snd slot) (lines ! n) \<noteq> None) [sa..<sb] of
         [n] \<Rightarrow>
           let v = the (pinned_version (snd slot) (lines ! n)); stop = line_start lines n + length (lines ! n)
           in Inr ((stop - length v, stop), v)
       | _ \<Rightarrow> Inl (ToolchainError ''a requirements section must pin its package once''))"

definition splice :: "str \<Rightarrow> nat \<times> nat \<Rightarrow> str \<Rightarrow> str" where
  "splice v span s = take (fst span) s @ v @ drop (snd span) s"

definition pin_recipe_to_candidate ::
  "(int \<Rightarrow> bool) \<Rightarrow> bool \<Rightarrow> str \<Rightarrow> str \<Rightarrow> canary_exn + str" where
  "pin_recipe_to_candidate word permitted recipe version =
     (let lines = split_on 10 recipe in
      rbind (require_mutation_permission permitted) (\<lambda>_.
      rbind (requirements_span lines) (\<lambda>(a, b).
      rbind (rmap (recipe_slot word lines a b) RECIPE_SLOTS) (\<lambda>slots.
        if 1 < length (remdups (map snd slots)) then Inl (ToolchainError ''recipe compiler pins disagree'')
        else if snd (hd slots) = version then Inl (ToolchainError ''recipe already pins the candidate'')
        else Inr (fold (splice version) (rev (map fst slots)) recipe)))))"

end
