(* ===== verification/Text_Files.thy ===== *)
theory Text_Files
  imports Utf8
begin

text \<open>
  Python's text files: \<open>read_text(encoding="utf-8")\<close> with universal newlines, \<open>write_text\<close>, and
  the replacement of substrings.
\<close>

section \<open>Reading and writing\<close>

text \<open>\<open>read_text(encoding="utf-8")\<close> with the strict error handler.\<close>

fun strict_text :: "nat \<Rightarrow> bytes \<Rightarrow> str option" where
  "strict_text 0 s = None"
| "strict_text (Suc n) s =
     (if s = [] then Some []
      else case utf8_step s of
             UEmit c k \<Rightarrow> map_option ((#) c) (strict_text n (drop k s))
           | _ \<Rightarrow> None)"

fun text_newlines :: "str \<Rightarrow> str" where
  "text_newlines [] = []"
| "text_newlines (c # r) =
     (if c = 13 then 10 # text_newlines (if r \<noteq> [] \<and> hd r = 10 then tl r else r)
      else c # text_newlines r)"

definition read_utf8 :: "bytes \<Rightarrow> str option" where
  "read_utf8 s = map_option text_newlines (strict_text (Suc (length s)) s)"

section \<open>Replacing\<close>

text \<open>\<open>data.replace(old, new)\<close> and \<open>data.replace(old, new, 1)\<close>; an empty \<open>old\<close> is found at every gap.\<close>

function replace_all :: "bytes \<Rightarrow> bytes \<Rightarrow> bytes \<Rightarrow> bytes" where
  "replace_all old new s =
     (case s of
        [] \<Rightarrow> if old = [] then new else []
      | c # r \<Rightarrow>
          if old = [] then new @ c # replace_all old new r
          else if startswith s old then new @ replace_all old new (drop (length old) s)
          else c # replace_all old new r)"
  by pat_completeness auto
termination
  by (relation "measure (\<lambda>(old, new, s). length s)") (auto simp: neq_Nil_conv)

declare replace_all.simps [simp del]

fun replace_first :: "bytes \<Rightarrow> bytes \<Rightarrow> bytes \<Rightarrow> bytes" where
  "replace_first old new [] = (if old = [] then new else [])"
| "replace_first old new (c # s) =
     (if startswith (c # s) old then new @ drop (length old) (c # s) else c # replace_first old new s)"

section \<open>Written text is read back\<close>

lemma strict_text_encode:
  "list_all scalar s \<Longrightarrow> length (utf8_encode s) < n \<Longrightarrow> strict_text n (utf8_encode s) = Some s"
proof (induction s arbitrary: n)
  case Nil
  then show ?case by (cases n) auto
next
  case (Cons c s)
  have ne: "utf8_encode1 c \<noteq> []" by (simp add: utf8_encode1_def)
  have step: "utf8_step (utf8_encode1 c @ utf8_encode s) = UEmit c (length (utf8_encode1 c))"
    using Cons.prems(1) by (intro utf8_step_encode1) simp
  obtain m where m: "n = Suc m" using Cons.prems(2) by (cases n) auto
  have "length (utf8_encode s) < m"
    using Cons.prems(2) ne m by (cases "utf8_encode1 c") auto
  with Cons step ne m show ?case by simp
qed

lemma text_newlines_id: "13 \<notin> set s \<Longrightarrow> text_newlines s = s"
  by (induction s rule: text_newlines.induct) auto

lemma text_newlines_no_cr: "13 \<notin> set (text_newlines s)"
  by (induction s rule: text_newlines.induct) auto

lemma read_utf8_encode: "list_all scalar s \<Longrightarrow> 13 \<notin> set s \<Longrightarrow> read_utf8 (utf8_encode s) = Some s"
  by (simp add: read_utf8_def strict_text_encode text_newlines_id del: strict_text.simps)

text \<open>What was read can be written: it holds scalars and no carriage return.\<close>

lemma utf8_step_scalar:
  assumes "byte_list s" "utf8_step s = UEmit c n"
  shows "scalar c"
proof (cases s)
  case (Cons b r)
  have three: "scalar c" if "utf8_step3 b r = UEmit c n" "0xE0 \<le> b" "b < 0xF0"
  proof (cases "b < 0xED")
    case True
    then show ?thesis using that by (auto simp: utf8_step3_def is_cont_def scalar_def split: if_splits list.splits)
  next
    case False
    then show ?thesis
      using that by (cases "b = 0xED") (auto simp: utf8_step3_def is_cont_def scalar_def split: if_splits list.splits)
  qed
  have four: "scalar c" if "utf8_step4 b r = UEmit c n" "0xF0 \<le> b" "b < 0xF5"
    using that by (auto simp: utf8_step4_def is_cont_def scalar_def split: if_splits list.splits)
  show ?thesis
    using assms three four Cons by (auto simp: utf8_step.simps scalar_def is_cont_def split: if_splits list.splits)
qed (use assms in simp)

lemma strict_text_scalar: "byte_list s \<Longrightarrow> strict_text n s = Some t \<Longrightarrow> list_all scalar t"
proof (induction n s arbitrary: t rule: strict_text.induct)
  case (2 n s)
  show ?case
  proof (cases "s = []")
    case True
    then show ?thesis using 2 by simp
  next
    case False
    then obtain c k u where "utf8_step s = UEmit c k" "strict_text n (drop k s) = Some u" "t = c # u"
      using 2(3) by (auto split: ustep.splits)
    with 2(1) [OF False, of c k u] 2(2) utf8_step_scalar show ?thesis by auto
  qed
qed simp

lemma text_newlines_scalar: "list_all scalar s \<Longrightarrow> list_all scalar (text_newlines s)"
  by (induction s rule: text_newlines.induct) (auto simp: scalar_def neq_Nil_conv split: if_splits)

lemma read_utf8_text: "byte_list b \<Longrightarrow> read_utf8 b = Some t \<Longrightarrow> list_all scalar t \<and> 13 \<notin> set t"
  by (auto simp: read_utf8_def text_newlines_scalar text_newlines_no_cr simp del: strict_text.simps dest: strict_text_scalar)

end
