(* ===== verification/Protocol_Compare.thy ===== *)
theory Protocol_Compare
  imports Canary_Readings Text_Files
begin

text \<open>
  scripts/checks/transcript_compare.py and scripts/canary/protocol_compare.py: the byte comparison
  of two snapshot trees, and the verdict on a candidate's transcripts.
\<close>

section \<open>Trees\<close>

text \<open>One entry below a root: \<open>is_file\<close> follows links, and then the content can be read.\<close>

record tree_entry =
  te_name :: str
  te_symlink :: bool
  te_file :: "bytes option"
  te_dir :: bool

text \<open>\<open>None\<close> is a root that is no directory; the entries are those of \<open>rglob\<close>.\<close>

type_synonym tree = "tree_entry list option"

definition by_parts :: "tree_entry list \<Rightarrow> tree_entry list" where
  "by_parts entries = sort_key (\<lambda>e. split_on 47 (te_name e)) entries"

datatype tree_error =
    NoDirectory
  | SymlinkEntry str
  | NonFileEntry str
  | TwoModes
  | EmptySource
  | MissingFiles "str list"
  | UnexpectedFiles "str list"
  | ByteDiff str bytes bytes

fun collect_entry :: "tree_entry \<Rightarrow> (str, bytes) dict \<times> tree_error list \<Rightarrow> (str, bytes) dict \<times> tree_error list" where
  "collect_entry e (found, errors) =
     (if te_symlink e then (found, errors @ [SymlinkEntry (te_name e)])
      else case te_file e of
             Some content \<Rightarrow> (dict_set (te_name e) content found, errors)
           | None \<Rightarrow> if te_dir e then (found, errors) else (found, errors @ [NonFileEntry (te_name e)]))"

definition tree_files :: "tree \<Rightarrow> (str, bytes) dict \<times> tree_error list" where
  "tree_files t =
     (case t of None \<Rightarrow> ([], [NoDirectory]) | Some entries \<Rightarrow> fold collect_entry (by_parts entries) ([], []))"

section \<open>Rewriting\<close>

definition rewrite_first_line :: "bytes \<Rightarrow> bytes \<Rightarrow> bytes \<Rightarrow> bytes" where
  "rewrite_first_line data old new =
     (case find1 10 data of
        None \<Rightarrow> replace_first old new data
      | Some k \<Rightarrow> replace_first old new (take k data) @ drop k data)"

section \<open>Comparing directories\<close>

record directory_comparison =
  dc_ok :: bool
  dc_changed_files :: "str list"
  dc_errors :: "tree_error list"

text \<open>The expected content of a file under the rewrites.\<close>

definition wanted_content :: "(bytes \<times> bytes) option \<Rightarrow> (bytes \<times> bytes) option \<Rightarrow> bytes \<Rightarrow> bytes" where
  "wanted_content replacement header_replacement original =
     (let w = (case replacement of None \<Rightarrow> original | Some (old, new) \<Rightarrow> replace_all old new original)
      in case header_replacement of None \<Rightarrow> w | Some (old, new) \<Rightarrow> rewrite_first_line w old new)"

definition mode_errors :: "(bytes \<times> bytes) option \<Rightarrow> (bytes \<times> bytes) option \<Rightarrow> tree_error list" where
  "mode_errors replacement header_replacement =
     (if replacement \<noteq> None \<and> header_replacement \<noteq> None then [TwoModes] else [])
     @ (case replacement of Some ([], _) \<Rightarrow> [EmptySource] | _ \<Rightarrow> [])
     @ (case header_replacement of Some ([], _) \<Rightarrow> [EmptySource] | _ \<Rightarrow> [])"

definition names_only :: "(str, bytes) dict \<Rightarrow> (str, bytes) dict \<Rightarrow> str list" where
  "names_only a b = sort (filter (\<lambda>n. n \<notin> fst ` set b) (map fst a))"

definition names_common :: "(str, bytes) dict \<Rightarrow> (str, bytes) dict \<Rightarrow> str list" where
  "names_common a b = sort (filter (\<lambda>n. n \<in> fst ` set b) (map fst a))"

definition content_of :: "(str, bytes) dict \<Rightarrow> str \<Rightarrow> bytes" where
  "content_of d n = (case map_of d n of None \<Rightarrow> [] | Some b \<Rightarrow> b)"

definition compare_directories ::
  "tree \<Rightarrow> tree \<Rightarrow> (bytes \<times> bytes) option \<Rightarrow> (bytes \<times> bytes) option \<Rightarrow> directory_comparison" where
  "compare_directories expected_root actual_root replacement header_replacement =
     (let (expected, errors) = tree_files expected_root;
          (actual, actual_errors) = tree_files actual_root;
          wanted = (\<lambda>n. wanted_content replacement header_replacement (content_of expected n));
          missing = names_only expected actual;
          extra = names_only actual expected;
          common = names_common expected actual;
          all_errors = errors @ actual_errors @ mode_errors replacement header_replacement
            @ (if missing \<noteq> [] then [MissingFiles missing] else [])
            @ (if extra \<noteq> [] then [UnexpectedFiles extra] else [])
            @ map (\<lambda>n. ByteDiff n (wanted n) (content_of actual n))
                (filter (\<lambda>n. content_of actual n \<noteq> wanted n) common)
      in \<lparr> dc_ok = (all_errors = []),
           dc_changed_files = filter (\<lambda>n. wanted n \<noteq> content_of expected n) common,
           dc_errors = all_errors \<rparr>)"

section \<open>Transcript headers\<close>

text \<open>UTF-8 with \<open>surrogateescape\<close>: every byte of an ill-formed sequence becomes a lone surrogate.\<close>

function utf8_escape :: "bytes \<Rightarrow> str" where
  "utf8_escape s =
     (if s = [] then []
      else case utf8_step s of
             UEmit c n \<Rightarrow> c # utf8_escape (drop n s)
           | UBad n \<Rightarrow> map (\<lambda>b. 0xDC00 + b) (take n s) @ utf8_escape (drop n s)
           | UWait \<Rightarrow> map (\<lambda>b. 0xDC00 + b) s)"
  by pat_completeness auto
termination
  by (relation "measure length") (auto dest: utf8_step_progress)

declare utf8_escape.simps [simp del]

record toolchain_identity =
  ti_version :: str
  ti_commit :: str

definition HEADER_IDENTITY :: re where
  "HEADER_IDENTITY = re_seq [re_lit ''# generated by scripts/gen_transcripts.py '', Chr (\<lambda>c. c = 8212),
     re_lit '' mojo '', Grp 1 (re_plus (Chr (\<lambda>c. \<not> is_space c))), re_lit '' ('',
     Grp 2 (re_plus (Chr (\<lambda>c. is_ascii_digit c \<or> (97 \<le> c \<and> c \<le> 102)))), re_lit ''),'']"

definition first_line_of :: "str \<Rightarrow> str" where
  "first_line_of s = takeWhile (\<lambda>c. c \<noteq> 10 \<and> c \<noteq> 13) s"

definition parse_header_identity :: "bytes \<Rightarrow> canary_exn + toolchain_identity" where
  "parse_header_identity content =
     (case re_match_at HEADER_IDENTITY None (first_line_of (utf8_escape content)) of
        None \<Rightarrow> Inl (CanaryValueError ''unreadable transcript header'')
      | Some st \<Rightarrow> Inr \<lparr> ti_version = group_text (st_caps st) 1, ti_commit = group_text (st_caps st) 2 \<rparr>)"

definition identity_text :: "toolchain_identity \<Rightarrow> str" where
  "identity_text i = lit ''mojo '' @ ti_version i @ lit '' ('' @ ti_commit i @ lit '')''"

definition MANIFEST_NAME :: str where
  "MANIFEST_NAME = lit ''MANIFEST.txt''"

definition transcript_files :: "tree \<Rightarrow> (str \<times> bytes) list" where
  "transcript_files t =
     (case t of
        None \<Rightarrow> []
      | Some entries \<Rightarrow>
          List.map_filter (\<lambda>e. if te_name e = MANIFEST_NAME then None else map_option (Pair (te_name e)) (te_file e))
            (by_parts entries))"

definition side_identity :: "tree \<Rightarrow> canary_exn + toolchain_identity" where
  "side_identity t =
     (case transcript_files t of
        [] \<Rightarrow> Inl (CanaryValueError ''no transcripts to identify a toolchain from'')
      | (_, first) # others \<Rightarrow>
          rbind (parse_header_identity first) (\<lambda>i.
          rbind (rmap (\<lambda>(_, content). rbind (parse_header_identity content) (\<lambda>other.
                    if other \<noteq> i then Inl (CanaryValueError ''names two toolchains'') else Inr ())) others)
            (\<lambda>_. Inr i)))"

text \<open>\<open>s.encode("utf-8")\<close>, which raises for a surrogate.\<close>

definition encode_strict :: "str \<Rightarrow> canary_exn + bytes" where
  "encode_strict s =
     (if list_all scalar s then Inr (utf8_encode s) else Inl (CanaryValueError ''surrogates not allowed''))"

text \<open>The evidence for a verdict on two trees.\<close>

datatype tree_evidence =
    CandidateUnreadable canary_exn
  | TreesDiffer tree_error
  | IdentityMoved toolchain_identity toolchain_identity nat

definition compare_transcript_dirs :: "tree \<Rightarrow> tree \<Rightarrow> canary_exn + classification \<times> tree_evidence" where
  "compare_transcript_dirs pinned candidate =
     rbind (side_identity pinned) (\<lambda>pinned_identity.
       case side_identity candidate of
         Inl e \<Rightarrow> Inr (PROTOCOL_DRIFT, CandidateUnreadable e)
       | Inr candidate_identity \<Rightarrow>
           rbind (encode_strict (identity_text pinned_identity)) (\<lambda>old.
           rbind (encode_strict (identity_text candidate_identity)) (\<lambda>new.
             let comparison = compare_directories pinned candidate None (Some (old, new))
             in case dc_errors comparison of
                  e # _ \<Rightarrow> Inr (PROTOCOL_DRIFT, TreesDiffer e)
                | [] \<Rightarrow> Inr (PASS, IdentityMoved pinned_identity candidate_identity
                            (length (dc_changed_files comparison))))))"

section \<open>A pass is a moved identity\<close>

lemma sort_Nil_iff: "sort xs = [] \<longleftrightarrow> xs = []" for xs :: "str list"
  by (metis length_0_conv length_sort)

lemma names_only_Nil: "names_only a b = [] \<longleftrightarrow> fst ` set a \<subseteq> fst ` set b"
  by (auto simp: names_only_def sort_Nil_iff filter_empty_conv)

lemma set_names_common: "set (names_common a b) = fst ` set a \<inter> fst ` set b"
  by (auto simp: names_common_def)

lemma encode_identity_ne: "encode_strict (identity_text i) = Inr old \<Longrightarrow> old \<noteq> []"
  by (auto simp: encode_strict_def identity_text_def utf8_encode1_def split: if_splits)

text \<open>One tree is another with the identity of every header replaced.\<close>

definition moved_by :: "tree \<Rightarrow> tree \<Rightarrow> bytes \<Rightarrow> bytes \<Rightarrow> bool" where
  "moved_by pinned candidate old new \<longleftrightarrow>
     snd (tree_files pinned) = [] \<and> snd (tree_files candidate) = []
     \<and> fst ` set (fst (tree_files candidate)) = fst ` set (fst (tree_files pinned))
     \<and> (\<forall>n\<in>fst ` set (fst (tree_files pinned)).
          content_of (fst (tree_files candidate)) n
            = rewrite_first_line (content_of (fst (tree_files pinned)) n) old new)"

lemma compare_errors_Nil:
  assumes "old \<noteq> []"
  shows "dc_errors (compare_directories pinned candidate None (Some (old, new))) = [] \<longleftrightarrow>
     moved_by pinned candidate old new"
proof -
  let ?e = "fst (tree_files pinned)" and ?a = "fst (tree_files candidate)"
  have mode: "mode_errors None (Some (old, new)) = []"
    using assms by (cases old) (simp_all add: mode_errors_def)
  have "dc_errors (compare_directories pinned candidate None (Some (old, new))) = [] \<longleftrightarrow>
      snd (tree_files pinned) = [] \<and> snd (tree_files candidate) = []
      \<and> fst ` set ?e \<subseteq> fst ` set ?a \<and> fst ` set ?a \<subseteq> fst ` set ?e
      \<and> (\<forall>n\<in>fst ` set ?e \<inter> fst ` set ?a.
           content_of ?a n = rewrite_first_line (content_of ?e n) old new)"
    by (simp add: compare_directories_def Let_def split_beta wanted_content_def mode names_only_Nil filter_empty_conv
        set_names_common)
  moreover have "A \<subseteq> B \<and> B \<subseteq> A \<and> (\<forall>n\<in>A \<inter> B. P n) \<longleftrightarrow> B = A \<and> (\<forall>n\<in>A. P n)" for A B :: "str set" and P
    by auto
  ultimately show ?thesis
    unfolding moved_by_def by simp
qed

text \<open>
  Transcripts match: two snapshot trees pass exactly when every transcript of each names one
  toolchain, both trees hold only plain files and directories, the same files, and every candidate
  file is the pinned one with the first toolchain identity of its first line replaced.
\<close>

theorem transcripts_pass_iff:
  "(\<exists>d. compare_transcript_dirs pinned candidate = Inr (PASS, d)) \<longleftrightarrow>
     (\<exists>i j old new. side_identity pinned = Inr i \<and> side_identity candidate = Inr j
        \<and> encode_strict (identity_text i) = Inr old \<and> encode_strict (identity_text j) = Inr new
        \<and> moved_by pinned candidate old new)"
proof -
  have pass: "(\<exists>d. (case dc_errors c of e # _ \<Rightarrow> Inr (PROTOCOL_DRIFT, TreesDiffer e)
      | [] \<Rightarrow> Inr (PASS, IdentityMoved i j (length (dc_changed_files c)))) = Inr (PASS, d)) \<longleftrightarrow> dc_errors c = []"
    for c i j by (cases "dc_errors c") auto
  show ?thesis
    unfolding compare_transcript_dirs_def Let_def
    by (cases "side_identity pinned"; cases "side_identity candidate")
      (auto simp: rbind_Inr compare_errors_Nil encode_identity_ne split: list.splits,
       (metis compare_errors_Nil encode_identity_ne neq_Nil_conv)+)
qed

end
