(* ===== verification/Canary.thy ===== *)
theory Canary
  imports Canary_Toolchain Protocol_Compare
begin

text \<open>
  scripts/canary/run.py, the pipeline: one probe of one lane, from the first search to the last
  gate.  Everything outside is answered by the record \<open>canary_world\<close>; the state is what the
  commands answered so far and the two files the probe rewrites.
\<close>

section \<open>The world and the state\<close>

text \<open>
  A command is answered from the answers before it: an exit status and the two outputs, or the
  exception of a spawn that failed.  The wording of a result's detail is not modelled: the detail
  keeps the values it is made of.
\<close>

record canary_world =
  cw_run :: "command_result list \<Rightarrow> str list \<Rightarrow> canary_exn + int \<times> str \<times> str"
  cw_permitted :: bool
  cw_word :: "int \<Rightarrow> bool"
  cw_candidate_dir :: str
  cw_pinned :: tree
  cw_candidate :: "command_result list \<Rightarrow> tree"

record probe =
  pr_history :: "command_result list"
  pr_toml :: str
  pr_recipe :: str

datatype evidence =
    CommandFailed str
  | AnswerUnreadable canary_exn
  | PinNotNamed str
  | ControlSilent str str
  | NotSelected str "str list"
  | NotInferred str "str list"
  | NothingNewer str "str list" "str list"
  | InstalledTwice str str
  | IdentityUnknown str
  | NotOffered str "str list"
  | Condemned condemnation
  | Transcripts tree_evidence
  | EveryGateHeld resolved_toolchain "str list"

record canary_result =
  cn_lane :: lane
  cn_version :: str
  cn_commit :: str
  cn_classification :: classification
  cn_detail :: evidence

section \<open>Probing\<close>

text \<open>A stage ends in an exception, in the result of the probe, or in a value for the next stage.\<close>

type_synonym 'a stage = "probe \<Rightarrow> (canary_exn + canary_result + 'a) \<times> probe"

definition give :: "'a \<Rightarrow> 'a stage" where
  "give a s = (Inr (Inr a), s)"

definition finish :: "canary_result \<Rightarrow> 'a stage" where
  "finish r s = (Inr (Inl r), s)"

definition look :: "probe stage" where
  "look s = (Inr (Inr s), s)"

definition change :: "(probe \<Rightarrow> probe) \<Rightarrow> unit stage" where
  "change f s = (Inr (Inr ()), f s)"

definition attempt :: "canary_exn + 'a \<Rightarrow> 'a stage" where
  "attempt m s = (case m of Inl e \<Rightarrow> (Inl e, s) | Inr a \<Rightarrow> (Inr (Inr a), s))"

definition andthen :: "'a stage \<Rightarrow> ('a \<Rightarrow> 'b stage) \<Rightarrow> 'b stage" where
  "andthen m k s =
     (case m s of
        (Inl e, s') \<Rightarrow> (Inl e, s')
      | (Inr (Inl r), s') \<Rightarrow> (Inr (Inl r), s')
      | (Inr (Inr a), s') \<Rightarrow> k a s')"

definition run :: "canary_world \<Rightarrow> str list \<Rightarrow> command_result stage" where
  "run w argv s =
     (case cw_run w (pr_history s) argv of
        Inl e \<Rightarrow> (Inl e, s)
      | Inr (code, out, err) \<Rightarrow>
          let r = \<lparr> cr_argv = argv, cr_returncode = code, cr_stdout = out, cr_stderr = err \<rparr>
          in (Inr (Inr r), s\<lparr> pr_history := pr_history s @ [r] \<rparr>))"

section \<open>Results\<close>

definition UNKNOWN :: str where
  "UNKNOWN = lit ''unknown''"

definition UNKNOWN_TOOLCHAIN :: resolved_toolchain where
  "UNKNOWN_TOOLCHAIN = \<lparr> rt_version = UNKNOWN, rt_commit = UNKNOWN \<rparr>"

definition result :: "lane \<Rightarrow> resolved_toolchain \<Rightarrow> classification \<Rightarrow> evidence \<Rightarrow> canary_result" where
  "result l resolved c detail =
     \<lparr> cn_lane = l, cn_version = rt_version resolved, cn_commit = rt_commit resolved,
       cn_classification = c, cn_detail = detail \<rparr>"

definition stage_failure ::
  "lane \<Rightarrow> resolved_toolchain \<Rightarrow> command_result \<Rightarrow> classification \<Rightarrow> evidence \<Rightarrow> canary_result" where
  "stage_failure l resolved r c detail =
     (if timed_out r then result l resolved STAGE_TIMEOUT (CommandFailed (command_failure r))
      else result l resolved c detail)"

section \<open>Searching\<close>

text \<open>What the unbounded search established.\<close>

record survey =
  sv_pin :: str
  sv_channels :: "str list"
  sv_newest :: "str list"
  sv_newer :: "str list"

definition survey_channels :: "canary_world \<Rightarrow> lane \<Rightarrow> survey stage" where
  "survey_channels w l =
     andthen look (\<lambda>s.
     andthen (attempt (workspace_pin (pr_toml s))) (\<lambda>pin.
     andthen (attempt (candidate_channels (pr_toml s) l)) (\<lambda>channels.
     andthen (run w (search_argv channels (lit ''mojo''))) (\<lambda>published.
       if cr_returncode published \<noteq> 0
       then finish (stage_failure l UNKNOWN_TOOLCHAIN published INFRA_FAILURE (CommandFailed (command_failure published)))
       else
         (case rbind (search_versions published) (\<lambda>available.
               rbind (search_newest published) (\<lambda>newest.
               rbind (versions_newer_than published pin) (\<lambda>newer. Inr (available, newest, newer)))) of
            Inl e \<Rightarrow> finish (result l UNKNOWN_TOOLCHAIN CANARY_BROKEN (AnswerUnreadable e))
          | Inr (available, newest, newer) \<Rightarrow>
              if pin \<notin> set available
              then finish (result l UNKNOWN_TOOLCHAIN CANARY_BROKEN (PinNotNamed pin))
              else give \<lparr> sv_pin = pin, sv_channels = channels, sv_newest = newest, sv_newer = newer \<rparr>)))))"

definition published_only :: "survey \<Rightarrow> resolved_toolchain" where
  "published_only v =
     \<lparr> rt_version = (if join_with (lit '', '') (sv_newest v) = [] then UNKNOWN else join_with (lit '', '') (sv_newest v)),
       rt_commit = UNKNOWN \<rparr>"

text \<open>The control question, and what it leaves to report when it does not confirm the channels.\<close>

definition ask_control ::
  "canary_world \<Rightarrow> lane \<Rightarrow> survey \<Rightarrow> resolved_toolchain \<Rightarrow> command_result \<Rightarrow> unit stage" where
  "ask_control w l v resolved failed =
     andthen (run w (search_argv (sv_channels v) (floor_matchspec (sv_pin v)))) (\<lambda>control.
       if timed_out control
       then finish (result l resolved STAGE_TIMEOUT (CommandFailed (command_failure control)))
       else if \<not> control_confirms_channels control (sv_pin v)
       then finish (result l resolved (uncorroborated_classification control)
                     (ControlSilent (command_failure failed) (floor_matchspec (sv_pin v))))
       else give ())"

text \<open>The candidates, the search that named them and whether it answered.\<close>

definition bounded_search ::
  "canary_world \<Rightarrow> lane \<Rightarrow> survey \<Rightarrow> (str list \<times> command_result \<times> bool) stage" where
  "bounded_search w l v =
     andthen (run w (search_argv (sv_channels v) (candidate_matchspec (sv_pin v)))) (\<lambda>found.
       if timed_out found
       then finish (result l UNKNOWN_TOOLCHAIN STAGE_TIMEOUT (CommandFailed (command_failure found)))
       else if cr_returncode found = 0 then
         (case search_versions found of
            Inl e \<Rightarrow> finish (result l UNKNOWN_TOOLCHAIN CANARY_BROKEN (AnswerUnreadable e))
          | Inr candidates \<Rightarrow> give (candidates, found, True))
       else andthen (ask_control w l v UNKNOWN_TOOLCHAIN found) (\<lambda>_. give ([], found, False)))"

definition screen_candidates :: "canary_world \<Rightarrow> lane \<Rightarrow> survey \<Rightarrow> str list stage" where
  "screen_candidates w l v =
     andthen (bounded_search w l v) (\<lambda>(candidates, found, answered).
       if candidates \<noteq> [] then give candidates
       else if sv_newer v \<noteq> [] then
         finish (if answered
                 then result l UNKNOWN_TOOLCHAIN CANARY_BROKEN (NotSelected (candidate_matchspec (sv_pin v)) (sv_newer v))
                 else result l UNKNOWN_TOOLCHAIN INFRA_FAILURE (NotInferred (command_failure found) (sv_newer v)))
       else finish (result l UNKNOWN_TOOLCHAIN NO_NEWER_CANDIDATE
                     (NothingNewer (candidate_matchspec (sv_pin v)) (sv_channels v) (sv_newest v))))"

section \<open>Installing\<close>

definition relax_pin :: "canary_world \<Rightarrow> lane \<Rightarrow> unit stage" where
  "relax_pin w l =
     andthen look (\<lambda>s.
     andthen (attempt (relax_workspace_pin (cw_permitted w) (pr_toml s) l)) (\<lambda>toml.
       change (pr_toml_update (\<lambda>_. toml))))"

definition PIXI_INSTALL :: "str list" where
  "PIXI_INSTALL = [lit ''pixi'', lit ''install'']"

definition install_candidate :: "canary_world \<Rightarrow> lane \<Rightarrow> survey \<Rightarrow> unit stage" where
  "install_candidate w l v =
     andthen (relax_pin w l) (\<lambda>_.
     andthen (run w PIXI_INSTALL) (\<lambda>first.
     andthen (if cr_returncode first \<noteq> 0 \<and> \<not> timed_out first then run w PIXI_INSTALL else give first) (\<lambda>install.
       if timed_out install
       then finish (result l (published_only v) STAGE_TIMEOUT (CommandFailed (command_failure install)))
       else if cr_returncode install \<noteq> 0
       then andthen (ask_control w l v (published_only v) install) (\<lambda>_.
              finish (result l (published_only v) SOURCE_INCOMPATIBLE
                (InstalledTwice (command_failure install) (floor_matchspec (sv_pin v)))))
       else give ())))"

definition identify_candidate :: "canary_world \<Rightarrow> lane \<Rightarrow> survey \<Rightarrow> str list \<Rightarrow> resolved_toolchain stage" where
  "identify_candidate w l v candidates =
     andthen (run w RESOLVE_ARGV) (\<lambda>identity.
       if cr_returncode identity \<noteq> 0
       then finish (stage_failure l (published_only v) identity CANARY_BROKEN (IdentityUnknown (command_failure identity)))
       else
         andthen (attempt (parse_toolchain (cr_stdout identity))) (\<lambda>resolved.
           if rt_version resolved \<notin> set candidates
           then finish (result l resolved CANARY_BROKEN (NotOffered (rt_version resolved) candidates))
           else give resolved))"

section \<open>Gates\<close>

definition pixi_run :: "str list \<Rightarrow> str list" where
  "pixi_run task = [lit ''pixi'', lit ''run''] @ task"

definition MACOS_CROSS_COMPILE :: "str list" where
  "MACOS_CROSS_COMPILE =
     pixi_run [lit ''mojo'', lit ''build'', lit ''--target-triple'', lit ''arm64-apple-macosx14.0.0'',
       lit ''--emit=asm'', lit ''-I'', lit ''src'', lit ''-I'', lit ''vendor/mojo-toml'', lit ''src/main.mojo'',
       lit ''-o'', lit ''/dev/null'']"

definition retarget_recipe :: "canary_world \<Rightarrow> lane \<Rightarrow> resolved_toolchain \<Rightarrow> unit stage" where
  "retarget_recipe w l resolved =
     (if l = STABLE_LANE
      then andthen look (\<lambda>s.
           andthen (attempt (pin_recipe_to_candidate (cw_word w) (cw_permitted w) (pr_recipe s) (rt_version resolved)))
             (\<lambda>recipe. change (pr_recipe_update (\<lambda>_. recipe))))
      else give ())"

text \<open>A command that must exit with 0.\<close>

definition gate ::
  "canary_world \<Rightarrow> lane \<Rightarrow> resolved_toolchain \<Rightarrow> str list \<Rightarrow> classification \<Rightarrow> (command_result \<Rightarrow> str) \<Rightarrow> unit stage" where
  "gate w l resolved argv c describe =
     andthen (run w argv) (\<lambda>r.
       if cr_returncode r \<noteq> 0 then finish (stage_failure l resolved r c (CommandFailed (describe r)))
       else give ())"

definition SOURCE_TASKS :: "str list" where
  "SOURCE_TASKS = [lit ''build-bin'', lit ''test'']"

fun source_gates :: "canary_world \<Rightarrow> lane \<Rightarrow> resolved_toolchain \<Rightarrow> str list \<Rightarrow> unit stage" where
  "source_gates w l resolved [] = give ()"
| "source_gates w l resolved (task # tasks) =
     andthen (gate w l resolved (pixi_run [task]) SOURCE_INCOMPATIBLE first_diagnostic)
       (\<lambda>_. source_gates w l resolved tasks)"

definition contract_gate :: "canary_world \<Rightarrow> lane \<Rightarrow> resolved_toolchain \<Rightarrow> str \<Rightarrow> unit stage" where
  "contract_gate w l resolved pin =
     andthen (run w (pixi_run [lit ''contract-check-strict''])) (\<lambda>contract.
     andthen (attempt (contract_verdict contract (rt_version resolved \<noteq> pin))) (\<lambda>verdict.
       case verdict of
         Some c \<Rightarrow> finish (stage_failure l resolved contract SOURCE_INCOMPATIBLE (Condemned c))
       | None \<Rightarrow> give ()))"

definition regenerate_and_compare :: "canary_world \<Rightarrow> (classification \<times> evidence) stage" where
  "regenerate_and_compare w =
     andthen (run w (pixi_run [lit ''python'', lit ''-m'', lit ''scripts.gen_transcripts'', lit ''--out'', cw_candidate_dir w]))
       (\<lambda>generated.
         if cr_returncode generated \<noteq> 0
         then (case generator_failure generated of (c, d) \<Rightarrow> give (c, CommandFailed d))
         else andthen look (\<lambda>s.
              andthen (attempt (compare_transcript_dirs (cw_pinned w) (cw_candidate w (pr_history s))))
                (\<lambda>(c, d). give (c, Transcripts d))))"

definition transcript_gate :: "canary_world \<Rightarrow> lane \<Rightarrow> resolved_toolchain \<Rightarrow> unit stage" where
  "transcript_gate w l resolved =
     andthen (regenerate_and_compare w) (\<lambda>(c, detail).
       if c \<noteq> PASS then finish (result l resolved c detail) else give ())"

definition e2e_gate :: "canary_world \<Rightarrow> lane \<Rightarrow> resolved_toolchain \<Rightarrow> str \<Rightarrow> str list stage" where
  "e2e_gate w l resolved pin =
     andthen (run w (pixi_run [lit ''e2e''])) (\<lambda>e2e.
       case e2e_failure_verdict (failed_scenarios (cr_stdout e2e)) (rt_version resolved \<noteq> pin) of
         Some c \<Rightarrow> finish (stage_failure l resolved e2e SOURCE_INCOMPATIBLE (Condemned c))
       | None \<Rightarrow> give (failed_scenarios (cr_stdout e2e)))"

definition stable_gate :: "lane \<Rightarrow> unit stage \<Rightarrow> unit stage" where
  "stable_gate l m = (if l = STABLE_LANE then m else give ())"

section \<open>One probe\<close>

definition run_gates :: "canary_world \<Rightarrow> lane \<Rightarrow> resolved_toolchain \<Rightarrow> str \<Rightarrow> canary_result stage" where
  "run_gates w l resolved pin =
     andthen (retarget_recipe w l resolved) (\<lambda>_.
     andthen (source_gates w l resolved SOURCE_TASKS) (\<lambda>_.
     andthen (contract_gate w l resolved pin) (\<lambda>_.
     andthen (transcript_gate w l resolved) (\<lambda>_.
     andthen (stable_gate l (gate w l resolved MACOS_CROSS_COMPILE SOURCE_INCOMPATIBLE first_diagnostic)) (\<lambda>_.
     andthen (e2e_gate w l resolved pin) (\<lambda>tolerated.
     andthen (stable_gate l (gate w l resolved
         (pixi_run [lit ''package-check'', lit ''--expect-mojo-version'', rt_version resolved]) PACKAGE_FAILED command_failure)) (\<lambda>_.
       give (result l resolved PASS (EveryGateHeld resolved tolerated)))))))))"

definition classify_stages :: "canary_world \<Rightarrow> lane \<Rightarrow> canary_result stage" where
  "classify_stages w l =
     andthen (survey_channels w l) (\<lambda>v.
     andthen (screen_candidates w l v) (\<lambda>candidates.
     andthen (install_candidate w l v) (\<lambda>_.
     andthen (identify_candidate w l v candidates) (\<lambda>resolved.
       run_gates w l resolved (sv_pin v)))))"

definition classify :: "canary_world \<Rightarrow> lane \<Rightarrow> probe \<Rightarrow> (canary_exn + canary_result) \<times> probe" where
  "classify w l s =
     (case classify_stages w l s of
        (Inl e, s') \<Rightarrow> (Inl e, s')
      | (Inr (Inl r), s') \<Rightarrow> (Inr r, s')
      | (Inr (Inr r), s') \<Rightarrow> (Inr r, s'))"

section \<open>What is written down\<close>

definition candidate_was_probed :: "canary_result \<Rightarrow> bool" where
  "candidate_was_probed r \<longleftrightarrow> cn_commit r \<noteq> UNKNOWN"

text \<open>The exit status of the probe, and the result it writes; a crash writes only a diagnosis.\<close>

definition canary_main :: "canary_world \<Rightarrow> lane \<Rightarrow> probe \<Rightarrow> int \<times> canary_result option" where
  "canary_main w l s =
     (case classify w l s of (Inl e, _) \<Rightarrow> (2, None) | (Inr r, _) \<Rightarrow> (0, Some r))"

section \<open>Reasoning about stages\<close>

text \<open>The state after a command that answered, and what holds after a stage that did not raise.\<close>

definition log :: "command_result \<Rightarrow> probe \<Rightarrow> probe" where
  "log r s = s\<lparr> pr_history := pr_history s @ [r] \<rparr>"

definition answers :: "canary_world \<Rightarrow> probe \<Rightarrow> str list \<Rightarrow> command_result \<Rightarrow> bool" where
  "answers w s argv r \<longleftrightarrow>
     cw_run w (pr_history s) argv = Inr (cr_returncode r, cr_stdout r, cr_stderr r) \<and> cr_argv r = argv"

definition wp :: "'a stage \<Rightarrow> ('a \<Rightarrow> probe \<Rightarrow> bool) \<Rightarrow> (canary_result \<Rightarrow> probe \<Rightarrow> bool) \<Rightarrow> probe \<Rightarrow> bool" where
  "wp m Q R s \<longleftrightarrow>
     (case m s of (Inl e, s') \<Rightarrow> True | (Inr (Inl r), s') \<Rightarrow> R r s' | (Inr (Inr a), s') \<Rightarrow> Q a s')"

named_theorems wp_simps \<open>weakest preconditions of the stages\<close>

lemma wp_give [wp_simps]: "wp (give a) Q R s \<longleftrightarrow> Q a s"
  by (simp add: wp_def give_def)

lemma wp_finish [wp_simps]: "wp (finish r) Q R s \<longleftrightarrow> R r s"
  by (simp add: wp_def finish_def)

lemma wp_look [wp_simps]: "wp look Q R s \<longleftrightarrow> Q s s"
  by (simp add: wp_def look_def)

lemma wp_change [wp_simps]: "wp (change f) Q R s \<longleftrightarrow> Q () (f s)"
  by (simp add: wp_def change_def)

lemma wp_attempt [wp_simps]: "wp (attempt m) Q R s \<longleftrightarrow> (\<forall>a. m = Inr a \<longrightarrow> Q a s)"
  by (auto simp: wp_def attempt_def split: sum.splits)

lemma wp_andthen [wp_simps]: "wp (andthen m k) Q R s \<longleftrightarrow> wp m (\<lambda>a. wp (k a) Q R) R s"
  by (auto simp: wp_def andthen_def split: sum.splits prod.splits)

lemma wp_run [wp_simps]: "wp (run w argv) Q R s \<longleftrightarrow> (\<forall>r. answers w s argv r \<longrightarrow> Q r (log r s))"
proof (cases "cw_run w (pr_history s) argv")
  case (Inl e)
  then show ?thesis by (simp add: wp_def run_def answers_def)
next
  case (Inr x)
  obtain code out err where x: "x = (code, out, err)" by (cases x) auto
  have "answers w s argv r \<longleftrightarrow>
      r = \<lparr> cr_argv = argv, cr_returncode = code, cr_stdout = out, cr_stderr = err \<rparr>" for r
    using Inr x by (cases r) (auto simp: answers_def)
  then show ?thesis using Inr x by (simp add: wp_def run_def log_def Let_def)
qed

lemma wp_if [wp_simps]: "wp (if b then m else n) Q R s \<longleftrightarrow> (if b then wp m Q R s else wp n Q R s)"
  by simp

lemma wp_mono: "wp m Q R s \<Longrightarrow> (\<And>a t. Q a t \<Longrightarrow> Q' a t) \<Longrightarrow> wp m Q' R s"
  by (auto simp: wp_def split: sum.splits prod.splits)

lemma log_simps [simp]:
  "pr_history (log r s) = pr_history s @ [r]" "pr_toml (log r s) = pr_toml s" "pr_recipe (log r s) = pr_recipe s"
  by (simp_all add: log_def)

lemma result_simps [simp]:
  "cn_classification (result l t c d) = c" "cn_version (result l t c d) = rt_version t"
  "cn_commit (result l t c d) = rt_commit t" "cn_lane (result l t c d) = l"
  by (simp_all add: result_def)

lemma stage_failure_timeout: "c \<noteq> STAGE_TIMEOUT \<Longrightarrow>
    cn_classification (stage_failure l t r c d) = STAGE_TIMEOUT \<longleftrightarrow> timed_out r"
  by (simp add: stage_failure_def)

section \<open>Killed stages\<close>

text \<open>A killed command prints nothing.\<close>

definition killed_silent :: "canary_world \<Rightarrow> bool" where
  "killed_silent w \<longleftrightarrow> (\<forall>h argv out err. cw_run w h argv = Inr (TIMEOUT_RETURNCODE, out, err) \<longrightarrow> out = [])"

text \<open>What a result says about the last command.\<close>

definition last_explains :: "canary_result \<Rightarrow> probe \<Rightarrow> bool" where
  "last_explains r s \<longleftrightarrow> (cn_classification r = STAGE_TIMEOUT \<longleftrightarrow> timed_out (last (pr_history s)))"

definition last_finished :: "'a \<Rightarrow> probe \<Rightarrow> bool" where
  "last_finished a s \<longleftrightarrow> \<not> timed_out (last (pr_history s))"

lemma zero_finished: "cr_returncode r = 0 \<Longrightarrow> \<not> timed_out r"
  by (simp add: timed_out_def TIMEOUT_RETURNCODE_def)

lemma answers_killed: "killed_silent w \<Longrightarrow> answers w s argv r \<Longrightarrow> timed_out r \<Longrightarrow> cr_stdout r = []"
  by (auto simp: killed_silent_def answers_def timed_out_def)

lemma explains_log [simp]:
  "last_explains r' (log r s) \<longleftrightarrow> (cn_classification r' = STAGE_TIMEOUT \<longleftrightarrow> timed_out r)"
  "last_finished a (log r s) \<longleftrightarrow> \<not> timed_out r"
  by (simp_all add: last_explains_def last_finished_def)

lemma finished_explains: "last_finished a s \<Longrightarrow> last_explains r s \<longleftrightarrow> cn_classification r \<noteq> STAGE_TIMEOUT"
  by (simp add: last_explains_def last_finished_def)

lemma finished_any: "last_finished a s \<Longrightarrow> last_finished b s"
  by (simp add: last_finished_def)

lemma wp_after: "wp m Q R s \<Longrightarrow> (\<And>a t. Q a t \<Longrightarrow> wp (k a) Q' R t) \<Longrightarrow> wp (andthen m k) Q' R s"
  unfolding wp_andthen by (rule wp_mono)

lemma survey_explains: "wp (survey_channels w l) last_finished last_explains s"
  by (auto simp: survey_channels_def wp_simps stage_failure_timeout zero_finished split: sum.splits)

lemma control_explains: "wp (ask_control w l v t failed) last_finished last_explains s"
  by (auto simp: ask_control_def wp_simps uncorroborated_classification_def)

lemma bounded_explains: "wp (bounded_search w l v) last_finished last_explains s"
proof -
  have "wp (andthen (ask_control w l v UNKNOWN_TOOLCHAIN r) (\<lambda>_. give ([], r, False))) last_finished last_explains t"
    for r t
    by (rule wp_after [OF control_explains]) (simp add: wp_simps finished_any)
  then show ?thesis
    by (auto simp: bounded_search_def wp_simps(1-7) wp_run zero_finished split: sum.splits)
qed

lemma screen_explains: "wp (screen_candidates w l v) last_finished last_explains s"
  unfolding screen_candidates_def
  by (rule wp_after [OF bounded_explains]) (auto simp: wp_simps finished_explains finished_any)

lemma install_explains: "wp (install_candidate w l v) last_finished last_explains s"
proof -
  have failed: "wp (andthen (ask_control w l v t r) (\<lambda>_. finish (result l t' SOURCE_INCOMPATIBLE d)))
      last_finished last_explains u" for t t' r d u
    by (rule wp_after [OF control_explains]) (simp add: wp_simps finished_explains)
  show ?thesis
    unfolding install_candidate_def relax_pin_def
    by (auto simp: wp_look wp_change wp_attempt wp_run wp_give wp_finish wp_andthen [of "andthen _ _"]
        wp_andthen [of look] wp_andthen [of "attempt _"] wp_andthen [of "run _ _"] wp_andthen [of "if _ then _ else _"]
        wp_if failed)
qed

lemma identify_explains: "wp (identify_candidate w l v candidates) last_finished last_explains s"
  by (auto simp: identify_candidate_def wp_simps stage_failure_timeout zero_finished)

lemma gate_explains:
  "c \<noteq> STAGE_TIMEOUT \<Longrightarrow> wp (gate w l t argv c describe) last_finished last_explains s"
  by (auto simp: gate_def wp_simps stage_failure_timeout zero_finished)

lemma source_gates_explain:
  "last_finished () s \<Longrightarrow> wp (source_gates w l t tasks) last_finished last_explains s"
proof (induction tasks arbitrary: s)
  case Nil
  then show ?case by (simp add: wp_give)
next
  case (Cons task tasks)
  show ?case
    unfolding source_gates.simps
    by (rule wp_after [OF gate_explains]) (auto intro: Cons.IH finished_any)
qed

lemma contract_explains: "wp (contract_gate w l t pin) last_finished last_explains s"
proof -
  have "contract_verdict r b = Inr None \<Longrightarrow> \<not> timed_out r" for r b
    by (auto simp: contract_verdict_None timed_out_def TIMEOUT_RETURNCODE_def CONTRACT_FAILURE_EXIT_def)
  then show ?thesis
    by (auto simp: contract_gate_def wp_simps stage_failure_timeout split: option.splits)
qed

lemma compare_not_timeout: "compare_transcript_dirs a b = Inr (c, d) \<Longrightarrow> c \<noteq> STAGE_TIMEOUT"
  by (cases "side_identity b") (auto simp: compare_transcript_dirs_def rbind_Inr Let_def split: list.splits, metis neq_Nil_conv)

lemma transcript_explains: "wp (transcript_gate w l t) last_finished last_explains s"
  by (auto simp: transcript_gate_def regenerate_and_compare_def generator_failure_def wp_simps zero_finished
      dest: compare_not_timeout split: prod.splits)

lemma e2e_explains:
  assumes "killed_silent w"
  shows "wp (e2e_gate w l t pin) last_finished last_explains s"
proof -
  have "\<not> timed_out r" if "answers w s argv r" "e2e_failure_verdict (failed_scenarios (cr_stdout r)) b = None" for argv r b
    using answers_killed [OF assms that(1)] that(2)
    by (auto simp: e2e_verdict_None failed_scenarios_def failed_scenario_def TOLERATED_E2E_SCENARIOS_def map_filter_simps)
  then show ?thesis
    by (auto simp: e2e_gate_def wp_simps stage_failure_timeout split: option.splits)
qed

lemma stable_explains:
  "wp m last_finished last_explains s \<Longrightarrow> last_finished () s \<Longrightarrow> wp (stable_gate l m) last_finished last_explains s"
  by (simp add: stable_gate_def wp_give)

lemma retarget_explains: "last_finished () s \<Longrightarrow> wp (retarget_recipe w l t) last_finished last_explains s"
  by (auto simp: retarget_recipe_def wp_simps last_finished_def)

lemma gates_explain:
  assumes "killed_silent w" "last_finished () s"
  shows "wp (run_gates w l t pin) (\<lambda>r s. last_explains r s) last_explains s"
  unfolding run_gates_def
  by (rule wp_after [OF retarget_explains [OF assms(2)]], rule wp_after [OF source_gates_explain], erule finished_any,
      rule wp_after [OF contract_explains], rule wp_after [OF transcript_explains],
      rule wp_after [OF stable_explains [OF gate_explains]], simp, erule finished_any,
      rule wp_after [OF e2e_explains [OF assms(1)]],
      rule wp_after [OF stable_explains [OF gate_explains]], simp, erule finished_any)
    (simp add: wp_give finished_explains)

lemma classify_explains:
  assumes "killed_silent w" "classify w l s = (Inr r, s')"
  shows "last_explains r s'"
proof -
  have "wp (classify_stages w l) (\<lambda>r s. last_explains r s) last_explains s"
    unfolding classify_stages_def
    by (rule wp_after [OF survey_explains], rule wp_after [OF screen_explains], rule wp_after [OF install_explains],
        rule wp_after [OF identify_explains], rule gates_explain [OF assms(1)], erule finished_any)
  then show ?thesis
    using assms(2) by (auto simp: classify_def wp_def split: prod.splits sum.splits)
qed


section \<open>What a pass means\<close>

definition not_passed :: "canary_result \<Rightarrow> probe \<Rightarrow> bool" where
  "not_passed r s \<longleftrightarrow> cn_classification r \<noteq> PASS"

text \<open>A command with these arguments that exited with 0.\<close>

definition succeeded :: "str list \<Rightarrow> command_result \<Rightarrow> bool" where
  "succeeded argv r \<longleftrightarrow> cr_argv r = argv \<and> cr_returncode r = 0"

lemma not_passed_simps [simp]:
  "not_passed (result l t c d) s \<longleftrightarrow> c \<noteq> PASS"
  "c \<noteq> PASS \<Longrightarrow> not_passed (stage_failure l t r c d) s"
  by (simp_all add: not_passed_def stage_failure_def)

lemma answers_argv: "answers w s argv r \<Longrightarrow> cr_argv r = argv"
  by (simp add: answers_def)

lemma survey_pass:
  "wp (survey_channels w l) (\<lambda>v t. workspace_pin (pr_toml s) = Inr (sv_pin v)
      \<and> candidate_channels (pr_toml s) l = Inr (sv_channels v)
      \<and> (\<exists>published. t = log published s \<and> succeeded (search_argv (sv_channels v) (lit ''mojo'')) published)) not_passed s"
  by (auto simp: survey_channels_def wp_simps succeeded_def answers_argv split: sum.splits)

lemma control_pass: "wp (ask_control w l v t failed) (\<lambda>_ _. True) not_passed s"
  by (auto simp: ask_control_def wp_simps uncorroborated_classification_def)

lemma screen_pass:
  "wp (screen_candidates w l v) (\<lambda>candidates t. \<exists>found. t = log found s
      \<and> succeeded (search_argv (sv_channels v) (candidate_matchspec (sv_pin v))) found
      \<and> search_versions found = Inr candidates) not_passed s"
proof -
  have control: "wp (andthen (ask_control w l v UNKNOWN_TOOLCHAIN r) (\<lambda>_. give ([], r, False)))
      (\<lambda>(candidates, found, answered) t. candidates = [] \<or> t = log found s
         \<and> succeeded (search_argv (sv_channels v) (candidate_matchspec (sv_pin v))) found
         \<and> search_versions found = Inr candidates) not_passed u" for r u
    by (rule wp_after [OF control_pass]) (simp add: wp_give)
  have "wp (bounded_search w l v) (\<lambda>(candidates, found, answered) t. candidates = [] \<or> t = log found s
         \<and> succeeded (search_argv (sv_channels v) (candidate_matchspec (sv_pin v))) found
         \<and> search_versions found = Inr candidates) not_passed s"
    using control
    by (auto simp: bounded_search_def wp_simps(1-7) wp_run succeeded_def answers_argv split: sum.splits)
  then show ?thesis
    unfolding screen_candidates_def by (rule wp_after) (auto simp: wp_simps)
qed

lemma install_pass:
  "wp (install_candidate w l v) (\<lambda>_ t. \<exists>installs. pr_history t = pr_history s @ installs
      \<and> length installs \<in> {1, 2} \<and> succeeded PIXI_INSTALL (last installs)
      \<and> relax_workspace_pin (cw_permitted w) (pr_toml s) l = Inr (pr_toml t)) not_passed s"
proof -
  have failed: "wp (andthen (ask_control w l v t r) (\<lambda>_. finish (result l t' SOURCE_INCOMPATIBLE d)))
      Q not_passed u" for t t' r d u and Q :: "unit \<Rightarrow> probe \<Rightarrow> bool"
    by (rule wp_after [OF control_pass]) (simp add: wp_finish)
  have one: "\<exists>installs. h @ [a] = h @ installs \<and> (length installs = Suc 0 \<or> length installs = 2) \<and> P (last installs)"
    if "P a" for h and a :: command_result and P
    using that by (intro exI [of _ "[a]"]) simp
  have two: "\<exists>installs. h @ [a, b] = h @ installs \<and> (length installs = Suc 0 \<or> length installs = 2) \<and> P (last installs)"
    if "P b" for h and a b :: command_result and P
    using that by (intro exI [of _ "[a, b]"]) simp
  show ?thesis
    unfolding install_candidate_def relax_pin_def
    by (auto simp: wp_look wp_change wp_attempt wp_run wp_give wp_finish wp_andthen [of "andthen _ _"]
        wp_andthen [of look] wp_andthen [of "attempt _"] wp_andthen [of "run _ _"] wp_andthen [of "if _ then _ else _"]
        wp_if failed succeeded_def answers_argv intro: one two)
qed

lemma identify_pass:
  "wp (identify_candidate w l v candidates) (\<lambda>resolved t. \<exists>identity. t = log identity s
      \<and> succeeded RESOLVE_ARGV identity \<and> parse_toolchain (cr_stdout identity) = Inr resolved
      \<and> rt_version resolved \<in> set candidates) not_passed s"
  by (auto simp: identify_candidate_def wp_simps succeeded_def answers_argv)

lemma gate_pass:
  "c \<noteq> PASS \<Longrightarrow> wp (gate w l t argv c describe)
     (\<lambda>_ t. \<exists>r. t = log r s \<and> succeeded argv r) not_passed s"
  by (auto simp: gate_def wp_simps succeeded_def answers_argv)

lemma contract_pass:
  "wp (contract_gate w l t pin) (\<lambda>_ u. \<exists>r. u = log r s \<and> contract_verdict r (rt_version t \<noteq> pin) = Inr None) not_passed s"
  by (auto simp: contract_gate_def wp_simps split: option.splits)

lemma transcript_pass:
  "wp (transcript_gate w l t) (\<lambda>_ u. \<exists>r d. u = log r s \<and> cr_returncode r = 0
     \<and> compare_transcript_dirs (cw_pinned w) (cw_candidate w (pr_history u)) = Inr (PASS, d)) not_passed s"
  by (auto simp: transcript_gate_def regenerate_and_compare_def generator_failure_def wp_simps)

lemma e2e_pass:
  "wp (e2e_gate w l t pin) (\<lambda>_ u. \<exists>r. u = log r s \<and> rt_version t \<noteq> pin
     \<and> mset (failed_scenarios (cr_stdout r)) = mset TOLERATED_E2E_SCENARIOS) not_passed s"
  by (auto simp: e2e_gate_def wp_simps e2e_verdict_None split: option.splits)

lemma retarget_pass:
  "wp (retarget_recipe w l t) (\<lambda>_ u. pr_history u = pr_history s) not_passed s"
  by (auto simp: retarget_recipe_def wp_simps)

lemma stable_pass:
  "wp m Q R s \<Longrightarrow> wp (stable_gate l m) (\<lambda>a u. if l = STABLE_LANE then Q a u else u = s) R s"
  by (auto simp: stable_gate_def wp_give intro: wp_mono)

text \<open>The commands of a probe that passed, from the state before the gates to the state after.\<close>

definition gates_held :: "canary_world \<Rightarrow> lane \<Rightarrow> resolved_toolchain \<Rightarrow> str \<Rightarrow> probe \<Rightarrow> probe \<Rightarrow> bool" where
  "gates_held w l t pin s s' \<longleftrightarrow>
     (\<exists>build test contract generated d cross e2e packaged.
        pr_history s' = pr_history s @ [build, test, contract, generated] @ cross @ [e2e] @ packaged
        \<and> succeeded (pixi_run [lit ''build-bin'']) build \<and> succeeded (pixi_run [lit ''test'']) test
        \<and> contract_verdict contract (rt_version t \<noteq> pin) = Inr None
        \<and> cr_returncode generated = 0
        \<and> compare_transcript_dirs (cw_pinned w)
            (cw_candidate w (pr_history s @ [build, test, contract, generated])) = Inr (PASS, d)
        \<and> rt_version t \<noteq> pin \<and> mset (failed_scenarios (cr_stdout e2e)) = mset TOLERATED_E2E_SCENARIOS
        \<and> (if l = STABLE_LANE
            then (\<exists>c p. cross = [c] \<and> packaged = [p] \<and> succeeded MACOS_CROSS_COMPILE c
                    \<and> succeeded (pixi_run [lit ''package-check'', lit ''--expect-mojo-version'', rt_version t]) p)
            else cross = [] \<and> packaged = []))"

lemma sources_pass:
  "wp (source_gates w l t SOURCE_TASKS) (\<lambda>_ u. \<exists>build test. u = log test (log build s)
     \<and> succeeded (pixi_run [lit ''build-bin'']) build \<and> succeeded (pixi_run [lit ''test'']) test) not_passed s"
  by (auto simp: SOURCE_TASKS_def gate_def wp_simps succeeded_def) (blast dest: answers_argv)

lemma gates_pass:
  "wp (run_gates w l t pin) (\<lambda>r u. cn_classification r = PASS \<and> cn_version r = rt_version t
      \<and> cn_commit r = rt_commit t \<and> gates_held w l t pin s u) not_passed s"
  unfolding run_gates_def
proof (rule wp_after [OF retarget_pass], rule wp_after [OF sources_pass], rule wp_after [OF contract_pass],
    rule wp_after [OF transcript_pass], rule wp_after [OF stable_pass [OF gate_pass]], simp,
    rule wp_after [OF e2e_pass], rule wp_after [OF stable_pass [OF gate_pass]], simp, goal_cases)
  case (1 _ s1 _ s2 _ s3 _ s4 _ s5 tolerated s6 _ s7)
  then obtain build test contract generated d e2e where
    h: "pr_history s4 = pr_history s @ [build, test, contract, generated]" "s6 = log e2e s5"
    and f: "succeeded (pixi_run [lit ''build-bin'']) build" "succeeded (pixi_run [lit ''test'']) test"
      "contract_verdict contract (rt_version t \<noteq> pin) = Inr None" "cr_returncode generated = 0"
      "compare_transcript_dirs (cw_pinned w) (cw_candidate w (pr_history s4)) = Inr (PASS, d)"
      "rt_version t \<noteq> pin" "mset (failed_scenarios (cr_stdout e2e)) = mset TOLERATED_E2E_SCENARIOS"
    by auto
  have "gates_held w l t pin s s7"
  proof (cases "l = STABLE_LANE")
    case True
    then obtain c p where "s5 = log c s4" "s7 = log p s6" "succeeded MACOS_CROSS_COMPILE c"
        "succeeded (pixi_run [lit ''package-check'', lit ''--expect-mojo-version'', rt_version t]) p"
      using 1 by auto
    then show ?thesis
      unfolding gates_held_def
      by - (rule exI [of _ build], rule exI [of _ test], rule exI [of _ contract],
          rule exI [of _ generated], rule exI [of _ d], rule exI [of _ "[c]"],
          rule exI [of _ e2e], rule exI [of _ "[p]"], use h f True in simp)
  next
    case False
    then have "s5 = s4" "s7 = s6" using 1 by auto
    then show ?thesis
      unfolding gates_held_def
      by - (rule exI [of _ build], rule exI [of _ test], rule exI [of _ contract],
          rule exI [of _ generated], rule exI [of _ d], rule exI [of _ "[]"],
          rule exI [of _ e2e], rule exI [of _ "[]"], use h f False in simp)
  qed
  then show ?case by (simp add: wp_give)
qed

text \<open>
  C6 (a pass was earned): a probe passes only if both searches answered, one relaxed install (the
  second at most) succeeded, the installed toolchain is one of the candidates the bounded search named
  and not the pinned one, and every gate of the lane held in order: the build and the suite exited
  with 0, the contract gate failed exactly its three tolerated checks, the regenerated transcripts
  match, exactly the tolerated end-to-end scenarios failed, and on the stable lane the
  cross-compilation and the package check exited with 0.  No other command was run.
\<close>

theorem canary_pass_earned:
  assumes "classify w l s = (Inr r, s')" "cn_classification r = PASS"
  shows "\<exists>pin channels toml published found candidates installs identity resolved t.
     workspace_pin (pr_toml s) = Inr pin \<and> candidate_channels (pr_toml s) l = Inr channels
     \<and> succeeded (search_argv channels (lit ''mojo'')) published
     \<and> succeeded (search_argv channels (candidate_matchspec pin)) found
     \<and> search_versions found = Inr candidates
     \<and> relax_workspace_pin (cw_permitted w) (pr_toml s) l = Inr toml
     \<and> length installs \<in> {1, 2} \<and> succeeded PIXI_INSTALL (last installs)
     \<and> succeeded RESOLVE_ARGV identity \<and> parse_toolchain (cr_stdout identity) = Inr resolved
     \<and> rt_version resolved \<in> set candidates
     \<and> pr_history t = pr_history s @ [published, found] @ installs @ [identity]
     \<and> gates_held w l resolved pin t s'
     \<and> cn_version r = rt_version resolved \<and> cn_commit r = rt_commit resolved"
    (is "?passed r s'")
proof -
  have "wp (classify_stages w l) (\<lambda>r u. cn_classification r = PASS \<longrightarrow> ?passed r u) not_passed s"
    unfolding classify_stages_def
  proof (rule wp_after [OF survey_pass], rule wp_after [OF screen_pass], rule wp_after [OF install_pass],
      rule wp_after [OF identify_pass], rule wp_mono [OF gates_pass], goal_cases)
    case (1 v s1 candidates s2 _ s3 resolved s4 r u)
    then obtain published found installs identity where f: "workspace_pin (pr_toml s) = Inr (sv_pin v)"
      "candidate_channels (pr_toml s) l = Inr (sv_channels v)"
      "succeeded (search_argv (sv_channels v) (lit ''mojo'')) published"
      "succeeded (search_argv (sv_channels v) (candidate_matchspec (sv_pin v))) found"
      "search_versions found = Inr candidates"
      "relax_workspace_pin (cw_permitted w) (pr_toml s) l = Inr (pr_toml s3)"
      "length installs \<in> {1, 2}" "succeeded PIXI_INSTALL (last installs)"
      "succeeded RESOLVE_ARGV identity" "parse_toolchain (cr_stdout identity) = Inr resolved"
      "rt_version resolved \<in> set candidates"
      "pr_history s4 = pr_history s @ [published, found] @ installs @ [identity]"
      by auto
    have "gates_held w l resolved (sv_pin v) s4 u" "cn_version r = rt_version resolved" "cn_commit r = rt_commit resolved"
      using 1 by blast+
    with f show ?case by blast
  qed
  then show ?thesis
    using assms by (auto simp: classify_def wp_def not_passed_def split: prod.splits sum.splits)
qed

section \<open>What a quiet day means\<close>

definition not_quiet :: "canary_result \<Rightarrow> probe \<Rightarrow> bool" where
  "not_quiet r s \<longleftrightarrow> cn_classification r \<noteq> NO_NEWER_CANDIDATE"

definition anything :: "'a \<Rightarrow> probe \<Rightarrow> bool" where
  "anything a s \<longleftrightarrow> True"

lemma not_quiet_simps [simp]:
  "not_quiet (result l t c d) s \<longleftrightarrow> c \<noteq> NO_NEWER_CANDIDATE"
  "c \<noteq> NO_NEWER_CANDIDATE \<Longrightarrow> not_quiet (stage_failure l t r c d) s"
  "anything a s"
  by (simp_all add: not_quiet_def stage_failure_def anything_def)

lemma control_quiet:
  "wp (ask_control w l v t failed) (\<lambda>_ u. \<exists>control. u = log control s
      \<and> cr_argv control = search_argv (sv_channels v) (floor_matchspec (sv_pin v))
      \<and> control_confirms_channels control (sv_pin v)) not_quiet s"
  by (auto simp: ask_control_def wp_simps uncorroborated_classification_def answers_argv)

lemma install_quiet: "wp (install_candidate w l v) anything not_quiet s"
proof -
  have "wp (andthen (ask_control w l v t r) (\<lambda>_. finish (result l t' SOURCE_INCOMPATIBLE d)))
      anything not_quiet u" for t t' r d u
    by (rule wp_after [OF control_quiet]) (simp add: wp_finish)
  then show ?thesis
    unfolding install_candidate_def relax_pin_def
    by (auto simp: wp_look wp_change wp_attempt wp_run wp_give wp_finish wp_andthen [of "andthen _ _"]
        wp_andthen [of look] wp_andthen [of "attempt _"] wp_andthen [of "run _ _"] wp_andthen [of "if _ then _ else _"]
        wp_if)
qed

lemma identify_quiet: "wp (identify_candidate w l v candidates) anything not_quiet s"
  by (auto simp: identify_candidate_def wp_simps)

lemma compare_not_quiet: "compare_transcript_dirs a b = Inr (c, d) \<Longrightarrow> c \<noteq> NO_NEWER_CANDIDATE"
  by (cases "side_identity b") (auto simp: compare_transcript_dirs_def rbind_Inr Let_def split: list.splits, metis neq_Nil_conv)

lemma gates_quiet: "wp (run_gates w l t pin) not_quiet not_quiet s"
  unfolding run_gates_def stable_gate_def
  by (auto simp: retarget_recipe_def SOURCE_TASKS_def gate_def contract_gate_def transcript_gate_def
      regenerate_and_compare_def generator_failure_def e2e_gate_def wp_simps
      dest: compare_not_quiet split: option.splits)


section \<open>A probe that passes\<close>

definition eg_toml :: str where
  "eg_toml = lit ''channels = ['' @ [34] @ lit ''c'' @ [34] @ lit '']'' @ [10]
     @ lit ''mojo = '' @ [34] @ lit ''==1,<2'' @ [34] @ [10]"

definition eg_search :: "str list \<Rightarrow> str" where
  "eg_search vs = json_text (JObj [(lit ''l'', JArr (map (\<lambda>v. JObj [(lit ''version'', JStr v)]) vs))])"

definition eg_contract :: str where
  "eg_contract =
     lit ''  - pipe: every direct-output command survives a closed stdout  (a): doctor: exit 1, want 0'' @ [10]
     @ lit ''  - served: doctor --no-cache accepted, inert (not exit 4)  (b): exit 1, want 0'' @ [10]
     @ lit ''  - served: doctor --cache-clear accepted, inert (not exit 4)  (c): exit 1, want 0'' @ [10]
     @ lit ''===== 124 passed, 3 failed, 0 skipped ====='' @ [10]"

definition eg_e2e :: str where
  "eg_e2e = lit ''FAILED: doctor-healthy'' @ [10] @ lit ''FAILED: doctor-config-free'' @ [10]"

text \<open>The exit status and the output of the n-th command.\<close>

definition eg_answers :: "(int \<times> str) list" where
  "eg_answers =
     [(0, eg_search [lit ''2'', lit ''1'']), (0, eg_search [lit ''2'']), (0, []), (0, lit ''Mojo 2 (ab)''),
      (0, []), (0, []), (1, eg_contract), (0, []), (1, eg_e2e)]"

definition eg_tree :: "str \<Rightarrow> tree" where
  "eg_tree v = Some [\<lparr> te_name = lit ''t'', te_symlink = False,
     te_file = Some (utf8_encode (lit ''# generated by scripts/gen_transcripts.py '' @ [8212] @ lit '' mojo '' @ v
       @ lit '' (ab), x'' @ [10] @ lit ''ok'')), te_dir = False \<rparr>]"

definition eg_canary :: canary_world where
  "eg_canary =
     \<lparr> cw_run = (\<lambda>h argv. Inr (fst (eg_answers ! length h), snd (eg_answers ! length h), [])),
       cw_permitted = True, cw_word = (\<lambda>_. False), cw_candidate_dir = lit ''/t'',
       cw_pinned = eg_tree (lit ''1''), cw_candidate = (\<lambda>_. eg_tree (lit ''2'')) \<rparr>"

definition eg_probe :: probe where
  "eg_probe = \<lparr> pr_history = [], pr_toml = eg_toml, pr_recipe = [] \<rparr>"

lemma eg_canary_passes:
  "(case classify eg_canary NIGHTLY_LANE eg_probe of
      (Inr r, s) \<Rightarrow> cn_classification r = PASS \<and> length (pr_history s) = 9 \<and> \<not> timed_out (last (pr_history s))
    | _ \<Rightarrow> False)"
  by code_simp

theorem canary_pass_earned_witness:
  "\<exists>r s t. classify eg_canary NIGHTLY_LANE eg_probe = (Inr r, s) \<and> gates_held eg_canary NIGHTLY_LANE
      \<lparr> rt_version = cn_version r, rt_commit = cn_commit r \<rparr> (lit ''1'') t s"
proof -
  obtain r s where r: "classify eg_canary NIGHTLY_LANE eg_probe = (Inr r, s)" "cn_classification r = PASS"
    using eg_canary_passes by (auto split: prod.splits sum.splits)
  have "workspace_pin (pr_toml eg_probe) = Inr (lit ''1'')"
    by code_simp
  then obtain resolved :: resolved_toolchain and t where "gates_held eg_canary NIGHTLY_LANE resolved (lit ''1'') t s"
      "cn_version r = rt_version resolved" "cn_commit r = rt_commit resolved"
    using canary_pass_earned [OF r] by auto
  then have "gates_held eg_canary NIGHTLY_LANE \<lparr> rt_version = cn_version r, rt_commit = cn_commit r \<rparr> (lit ''1'') t s"
    by (cases resolved) simp
  with r(1) show ?thesis by blast
qed

text \<open>A world in which the channels hold the pinned version alone.\<close>

definition eg_idle :: canary_world where
  "eg_idle = eg_canary\<lparr> cw_run := (\<lambda>h argv. Inr (0, if h = [] then eg_search [lit ''1''] else lit ''{}'', [])) \<rparr>"


text \<open>A world in which the first command is killed.\<close>

definition eg_killed :: canary_world where
  "eg_killed = eg_canary\<lparr> cw_run := (\<lambda>h argv. Inr (124, [], [])) \<rparr>"


end
