(* ===== verification/Canary_Notify.thy ===== *)
theory Canary_Notify
  imports Canary_Readings Text_Files
begin

text \<open>
  scripts/canary/notify.py: one pinned issue per lane, brought in line with what the probe wrote
  down.  The \<open>gh\<close> runner is an argument over a state of its own; the file staged for
  \<open>--body-file\<close> is handed to it beside the arguments.
\<close>

section \<open>Reading the artifact\<close>

record lane_result =
  lr_lane :: str
  lr_version :: str
  lr_commit :: str
  lr_classification :: str
  lr_detail :: str

definition LANES :: "str list" where
  "LANES = [lit ''stable'', lit ''nightly'']"

definition QUIET_CLASSIFICATIONS :: "str list" where
  "QUIET_CLASSIFICATIONS = map classification_name [PASS, NO_NEWER_CANDIDATE]"

text \<open>What \<open>read_result\<close> raises: its own error, or one it does not catch.\<close>

datatype artifact_fault =
    Unreadable
  | NotJson
  | NotObject
  | NoStringField str
  | WrongLane str
  | UndefinedClassification str

datatype artifact_exn = ArtifactError artifact_fault | ArtifactEscapes string

definition string_field :: "jobj \<Rightarrow> str \<Rightarrow> artifact_exn + str" where
  "string_field d k = (case jget d k of JStr s \<Rightarrow> Inr s | _ \<Rightarrow> Inl (ArtifactError (NoStringField k)))"

definition check_result :: "str \<Rightarrow> lane_result \<Rightarrow> artifact_exn + lane_result" where
  "check_result lane r =
     (if lr_lane r \<noteq> lane then Inl (ArtifactError (WrongLane (lr_lane r)))
      else if lr_classification r \<notin> set (map classification_name CLASSIFICATIONS)
      then Inl (ArtifactError (UndefinedClassification (lr_classification r)))
      else Inr r)"

text \<open>The content of the artifact, \<open>None\<close> when it cannot be read.\<close>

definition read_result :: "bytes option \<Rightarrow> str \<Rightarrow> artifact_exn + lane_result" where
  "read_result content lane =
     (case content of
        None \<Rightarrow> Inl (ArtifactError Unreadable)
      | Some b \<Rightarrow>
          (case read_utf8 b of
             None \<Rightarrow> Inl (ArtifactEscapes ''UnicodeDecodeError'')
           | Some raw \<Rightarrow>
               (case json_loads raw of
                  Inl JDecode \<Rightarrow> Inl (ArtifactError NotJson)
                | Inl _ \<Rightarrow> Inl (ArtifactEscapes ''ValueError'')
                | Inr (JObj d) \<Rightarrow>
                    rbind (string_field d (lit ''lane'')) (\<lambda>a.
                    rbind (string_field d (lit ''version'')) (\<lambda>v.
                    rbind (string_field d (lit ''commit'')) (\<lambda>c.
                    rbind (string_field d (lit ''classification'')) (\<lambda>k.
                    rbind (string_field d (lit ''detail'')) (\<lambda>t.
                      check_result lane \<lparr> lr_lane = a, lr_version = v, lr_commit = c,
                        lr_classification = k, lr_detail = t \<rparr>)))))
                | Inr _ \<Rightarrow> Inl (ArtifactError NotObject))))"

section \<open>Bodies\<close>

text \<open>The three environment variables, \<open>None\<close> when unset.\<close>

record hosted_run =
  hr_server :: "str option"
  hr_repository :: "str option"
  hr_run_id :: "str option"

definition set_text :: "str option \<Rightarrow> str" where
  "set_text v = (case v of None \<Rightarrow> [] | Some s \<Rightarrow> s)"

definition run_reference :: "hosted_run \<Rightarrow> str" where
  "run_reference h =
     (if set_text (hr_server h) = [] \<or> set_text (hr_repository h) = [] \<or> set_text (hr_run_id h) = []
      then lit ''not recorded (this notification did not come from a hosted run)''
      else set_text (hr_server h) @ [47] @ set_text (hr_repository h) @ lit ''/actions/runs/'' @ set_text (hr_run_id h))"

definition probed :: "lane_result \<Rightarrow> bool" where
  "probed r \<longleftrightarrow> lr_commit r \<noteq> lit ''unknown''"

definition candidate_line :: "lane_result \<Rightarrow> str" where
  "candidate_line r =
     (if probed r
      then lit ''- **Candidate:** mojo '' @ lr_version r @ lit '' ('' @ lr_commit r @ lit '')''
      else if lr_version r = lit ''unknown'' then lit ''- **Candidate:** none was exercised''
      else lit ''- **Candidate:** none was exercised; the channels published mojo '' @ lr_version r)"

definition opening_sentence :: "lane_result \<Rightarrow> str" where
  "opening_sentence r =
     (let lane = lit ''**'' @ lr_lane r @ lit ''**'';
          is = (\<lambda>c. lr_classification r = classification_name c)
      in if is NO_NEWER_CANDIDATE then
           lit ''The compatibility canary found nothing newer than the pinned toolchain on the '' @ lane
           @ lit '' lane's channels, so no gate ran against a candidate.''
         else if is INFRA_FAILURE then
           lit ''The compatibility canary never obtained a toolchain to ask the '' @ lane
           @ lit '' lane's question of. This says nothing about any candidate; it is news about the canary.''
         else if is CANARY_BROKEN then
           lit ''The compatibility canary can no longer read the answers its '' @ lane
           @ lit '' lane probe depends on, so it has stopped probing. This says nothing about any candidate, and it will not clear on its own.''
         else if is STAGE_TIMEOUT then
           lit ''A stage of the compatibility canary's '' @ lane
           @ lit '' probe outlived its budget and was killed, so the day's question went unanswered.''
         else if \<not> probed r then
           lit ''The compatibility canary never got a candidate toolchain installed on the '' @ lane
           @ lit '' lane, so nothing was compiled, tested or run against one. The finding below is about that attempt.''
         else
           lit ''The compatibility canary probed the '' @ lane
           @ lit '' lane against a toolchain newer than the one this repository pins.'')"

definition FOOTER :: str where
  "FOOTER = lit ''This issue is maintained by the compatibility canary. Its body is rewritten on every run and it closes itself once the lane is green again, so edits here do not survive; use a comment.''"

definition fenced :: "str \<Rightarrow> str" where
  "fenced s = lit ''```text'' @ [10] @ s @ [10] @ lit ''```'' @ [10, 10]"

definition render_body :: "hosted_run \<Rightarrow> lane_result \<Rightarrow> str" where
  "render_body h r =
     opening_sentence r @ [10, 10]
     @ lit ''- **Classification:** '' @ lr_classification r @ [10]
     @ candidate_line r @ [10]
     @ lit ''- **Run:** '' @ run_reference h @ [10, 10]
     @ fenced (lr_detail r) @ FOOTER @ [10]"

definition render_silence_body :: "hosted_run \<Rightarrow> str \<Rightarrow> str \<Rightarrow> str" where
  "render_silence_body h lane reason =
     lit ''The compatibility canary produced no readable result for the **'' @ lane
     @ lit ''** lane, so nothing is known about that lane today.'' @ [10, 10]
     @ lit ''- **Run:** '' @ run_reference h @ [10, 10]
     @ fenced reason
     @ lit ''A canary that stops reporting looks exactly like a canary with nothing to report, which is why this is a failure rather than a quiet day. The probe job's log and its uploaded diagnostics say what happened.''
     @ [10, 10] @ FOOTER @ [10]"

section \<open>Calling gh\<close>

text \<open>
  The world of one notification: the runner and the content it finds in the staged file, the bodies
  that cannot be staged, the path of the staged file, the artifacts, the environment and the wording
  of an artifact error.
\<close>

record 'g notify_world =
  nw_gh :: "'g \<Rightarrow> str list \<Rightarrow> str option \<Rightarrow> (unit + int \<times> str \<times> str) \<times> 'g"
  nw_stage_fails :: "str \<Rightarrow> bool"
  nw_body_path :: str
  nw_artifact :: "str \<Rightarrow> bytes option"
  nw_hosted :: hosted_run
  nw_wording :: "artifact_fault \<Rightarrow> str"

datatype notify_exn = NotifyError string | NotifyEscapes string

type_synonym ('g, 'a) notifying = "'g \<Rightarrow> (notify_exn + 'a) \<times> 'g"

definition nret :: "'a \<Rightarrow> ('g, 'a) notifying" where
  "nret a g = (Inr a, g)"

definition nfail :: "notify_exn \<Rightarrow> ('g, 'a) notifying" where
  "nfail e g = (Inl e, g)"

definition nthen :: "('g, 'a) notifying \<Rightarrow> ('a \<Rightarrow> ('g, 'b) notifying) \<Rightarrow> ('g, 'b) notifying" where
  "nthen m k g = (case m g of (Inl e, g') \<Rightarrow> (Inl e, g') | (Inr a, g') \<Rightarrow> k a g')"

definition call_gh :: "'g notify_world \<Rightarrow> str list \<Rightarrow> str option \<Rightarrow> ('g, str) notifying" where
  "call_gh w argv body g =
     (case nw_gh w g argv body of
        (Inl _, g') \<Rightarrow> (Inl (NotifyError ''could not be spawned''), g')
      | (Inr (code, out, err), g') \<Rightarrow>
          if code \<noteq> 0 then (Inl (NotifyError ''gh failed''), g') else (Inr out, g'))"

text \<open>
  A call inside \<open>with body_file(body)\<close>.  Writing a body that holds a surrogate (a \<open>\ud800\<close>
  escape of the artifact) raises a \<open>UnicodeEncodeError\<close>, which is not an \<open>OSError\<close>.
\<close>

definition utf8_encodable :: "str \<Rightarrow> bool" where
  "utf8_encodable s \<longleftrightarrow> list_all (\<lambda>c. c < 0xD800 \<or> 0xDFFF < c) s"

definition staged :: "'g notify_world \<Rightarrow> str \<Rightarrow> (str option \<Rightarrow> ('g, 'a) notifying) \<Rightarrow> ('g, 'a) notifying" where
  "staged w body k =
     (if nw_stage_fails w body then nfail (NotifyError ''an issue body could not be staged'')
      else if \<not> utf8_encodable body then nfail (NotifyEscapes ''UnicodeEncodeError'')
      else k (Some body))"

section \<open>Issues\<close>

definition issue_title :: "str \<Rightarrow> str" where
  "issue_title lane = lit ''canary: '' @ lane"

definition SEARCH_LIMIT :: int where
  "SEARCH_LIMIT = 100"

definition OPEN :: str where
  "OPEN = lit ''OPEN''"

definition gh_issue :: "string \<Rightarrow> str list" where
  "gh_issue verb = [lit ''gh'', lit ''issue'', lit verb]"

definition list_argv :: "str \<Rightarrow> str list" where
  "list_argv title =
     gh_issue ''list'' @ [lit ''--state'', lit ''all'', lit ''--search'', title @ lit '' in:title'',
       lit ''--json'', lit ''number,title,state'', lit ''--limit'', int_repr SEARCH_LIMIT]"

text \<open>One listed issue: its number and state if it carries the title, nothing if it does not.\<close>

definition match_issue :: "str \<Rightarrow> json \<Rightarrow> notify_exn + (json \<times> str) list" where
  "match_issue title entry =
     (case entry of
        JObj d \<Rightarrow>
          (case jget d (lit ''state'') of
             JStr state \<Rightarrow>
               if \<not> is_int (jget d (lit ''number'')) then Inl (NotifyError ''an issue without both a number and a state'')
               else Inr (if jget d (lit ''title'') = JStr title then [(jget d (lit ''number''), state)] else [])
           | _ \<Rightarrow> Inl (NotifyError ''an issue without both a number and a state''))
      | _ \<Rightarrow> Inl (NotifyError ''a non-object issue''))"

definition matching_issues :: "str \<Rightarrow> str \<Rightarrow> notify_exn + (json \<times> str) list" where
  "matching_issues title stdout =
     (case json_loads stdout of
        Inl JDecode \<Rightarrow> Inl (NotifyError ''did not print JSON'')
      | Inl _ \<Rightarrow> Inl (NotifyEscapes ''ValueError'')
      | Inr (JArr entries) \<Rightarrow> rbind (rmap (match_issue title) entries) (\<lambda>ms. Inr (concat ms))
      | Inr _ \<Rightarrow> Inl (NotifyError ''printed no list''))"

text \<open>\<open>max\<close> by being open and then by number; of equals the first.\<close>

definition preferred :: "json \<times> str \<Rightarrow> json \<times> str \<Rightarrow> json \<times> str" where
  "preferred m best =
     (if (snd m = OPEN \<and> snd best \<noteq> OPEN)
         \<or> ((snd m = OPEN) = (snd best = OPEN) \<and> int_of_json (fst best) < int_of_json (fst m))
      then m else best)"

definition best_issue :: "(json \<times> str) list \<Rightarrow> (json \<times> str) option" where
  "best_issue ms = (case ms of [] \<Rightarrow> None | m # r \<Rightarrow> Some (fold preferred r m))"

definition find_issue :: "'g notify_world \<Rightarrow> str \<Rightarrow> ('g, (json \<times> str) option) notifying" where
  "find_issue w title =
     nthen (call_gh w (list_argv title) None) (\<lambda>stdout.
       case matching_issues title stdout of Inl e \<Rightarrow> nfail e | Inr ms \<Rightarrow> nret (best_issue ms))"

text \<open>\<open>str(number)\<close>\<close>

definition number_text :: "json \<Rightarrow> str" where
  "number_text n = (case n of JBool b \<Rightarrow> (if b then lit ''True'' else lit ''False'') | _ \<Rightarrow> int_repr (int_of_json n))"

definition upsert_issue :: "'g notify_world \<Rightarrow> str \<Rightarrow> str \<Rightarrow> ('g, unit) notifying" where
  "upsert_issue w title body =
     nthen (find_issue w title) (\<lambda>found.
     staged w body (\<lambda>file.
       case found of
         None \<Rightarrow> nthen (call_gh w (gh_issue ''create'' @ [lit ''--title'', title, lit ''--body-file'', nw_body_path w]) file)
                   (\<lambda>_. nret ())
       | Some (number, state) \<Rightarrow>
           nthen (if state \<noteq> OPEN then call_gh w (gh_issue ''reopen'' @ [number_text number]) None else nret []) (\<lambda>_.
           nthen (call_gh w (gh_issue ''edit'' @ [number_text number, lit ''--body-file'', nw_body_path w]) file)
             (\<lambda>_. nret ()))))"

definition close_issue :: "'g notify_world \<Rightarrow> str \<Rightarrow> str \<Rightarrow> ('g, unit) notifying" where
  "close_issue w title body =
     nthen (find_issue w title) (\<lambda>found.
       case found of
         None \<Rightarrow> nret ()
       | Some (number, state) \<Rightarrow>
           if state \<noteq> OPEN then nret ()
           else
             nthen (staged w body (call_gh w (gh_issue ''comment'' @ [number_text number, lit ''--body-file'', nw_body_path w]))) (\<lambda>_.
             nthen (call_gh w (gh_issue ''close'' @ [number_text number]) None) (\<lambda>_. nret ())))"

section \<open>Lanes\<close>

definition notify_lane :: "'g notify_world \<Rightarrow> str \<Rightarrow> ('g, bool) notifying" where
  "notify_lane w lane =
     (case read_result (nw_artifact w lane) lane of
        Inl (ArtifactEscapes e) \<Rightarrow> nfail (NotifyEscapes e)
      | Inl (ArtifactError fault) \<Rightarrow>
          nthen (upsert_issue w (issue_title lane) (render_silence_body (nw_hosted w) lane (nw_wording w fault)))
            (\<lambda>_. nret True)
      | Inr r \<Rightarrow>
          if lr_classification r \<in> set QUIET_CLASSIFICATIONS
          then nthen (close_issue w (issue_title lane) (render_body (nw_hosted w) r)) (\<lambda>_. nret False)
          else nthen (upsert_issue w (issue_title lane) (render_body (nw_hosted w) r))
                 (\<lambda>_. nret (lr_classification r \<noteq> classification_name INFRA_FAILURE)))"

text \<open>The loop over the lanes: those that failed and those that could not be reported.\<close>

fun notify_lanes :: "'g notify_world \<Rightarrow> str list \<Rightarrow> str list \<Rightarrow> str list \<Rightarrow> ('g, str list \<times> str list) notifying" where
  "notify_lanes w [] failed errors g = (Inr (failed, errors), g)"
| "notify_lanes w (lane # lanes) failed errors g =
     (case notify_lane w lane g of
        (Inr red, g') \<Rightarrow> notify_lanes w lanes (if red then failed @ [lane] else failed) errors g'
      | (Inl (NotifyError _), g') \<Rightarrow> notify_lanes w lanes failed (errors @ [lane]) g'
      | (Inl (NotifyEscapes e), g') \<Rightarrow> (Inl (NotifyEscapes e), g'))"

text \<open>\<open>None\<close> is an exception that leaves the command line.\<close>

definition notify_main :: "'g notify_world \<Rightarrow> str \<Rightarrow> 'g \<Rightarrow> int option \<times> 'g" where
  "notify_main w raw_lanes g =
     (let lanes = split_words [] raw_lanes
      in if lanes = [] \<or> \<not> list_all (\<lambda>l. l \<in> set LANES) lanes then (Some 2, g)
         else (case notify_lanes w lanes [] [] g of
                 (Inl _, g') \<Rightarrow> (None, g')
               | (Inr (failed, errors), g') \<Rightarrow>
                   (Some (if errors \<noteq> [] then 2 else if failed \<noteq> [] then 1 else 0), g')))"

end
