(* ===== verification/Canary_Issues.thy ===== *)
theory Canary_Issues
  imports Canary_Notify
begin

text \<open>
  What the notifier promises of the issue tracker: one issue per lane, in the state and with the
  body of the lane's last report.  The tracker itself is outside the repository; \<open>serves\<close> states
  what the documentation of \<open>gh issue\<close> says of the calls the notifier makes.
\<close>

section \<open>The tracker\<close>

record issue =
  is_number :: int
  is_title :: str
  is_open :: bool
  is_body :: str

definition state_name :: "issue \<Rightarrow> str" where
  "state_name i = (if is_open i then OPEN else lit ''CLOSED'')"

definition update_issue :: "int \<Rightarrow> (issue \<Rightarrow> issue) \<Rightarrow> issue list \<Rightarrow> issue list" where
  "update_issue n f tracker = map (\<lambda>i. if is_number i = n then f i else i) tracker"

definition titled :: "str \<Rightarrow> issue list \<Rightarrow> issue list" where
  "titled title tracker = filter (\<lambda>i. is_title i = title) tracker"

definition others :: "str \<Rightarrow> issue list \<Rightarrow> issue list" where
  "others title tracker = filter (\<lambda>i. is_title i \<noteq> title) tracker"

text \<open>What a call that exited with 0 did to the tracker.\<close>

definition call_effect :: "str \<Rightarrow> str list \<Rightarrow> str option \<Rightarrow> str \<Rightarrow> issue list \<Rightarrow> issue list \<Rightarrow> bool" where
  "call_effect path argv body out before after \<longleftrightarrow>
     (\<forall>title. argv = list_argv title \<longrightarrow> after = before \<and>
        (\<forall>ms. matching_issues title out = Inr ms \<longrightarrow>
           set ms = (\<lambda>i. (JInt (is_number i), state_name i)) ` set (titled title before)))
     \<and> (\<forall>title b. argv = gh_issue ''create'' @ [lit ''--title'', title, lit ''--body-file'', path] \<longrightarrow> body = Some b \<longrightarrow>
        (\<exists>n. n \<notin> is_number ` set before \<and>
           after = before @ [\<lparr> is_number = n, is_title = title, is_open = True, is_body = b \<rparr>]))
     \<and> (\<forall>n. argv = gh_issue ''reopen'' @ [int_repr n] \<longrightarrow> after = update_issue n (is_open_update (\<lambda>_. True)) before)
     \<and> (\<forall>n b. argv = gh_issue ''edit'' @ [int_repr n, lit ''--body-file'', path] \<longrightarrow> body = Some b \<longrightarrow>
        after = update_issue n (is_body_update (\<lambda>_. b)) before)
     \<and> (\<forall>n. argv = gh_issue ''comment'' @ [int_repr n, lit ''--body-file'', path] \<longrightarrow> after = before)
     \<and> (\<forall>n. argv = gh_issue ''close'' @ [int_repr n] \<longrightarrow> after = update_issue n (is_open_update (\<lambda>_. False)) before)"

text \<open>A call that failed changed nothing.\<close>

definition serves :: "'g notify_world \<Rightarrow> ('g \<Rightarrow> issue list) \<Rightarrow> bool" where
  "serves w issues \<longleftrightarrow>
     (\<forall>g argv body.
        case nw_gh w g argv body of
          (Inr (code, out, err), g') \<Rightarrow>
            if code = 0 then call_effect (nw_body_path w) argv body out (issues g) (issues g') else issues g' = issues g
        | (Inl _, g') \<Rightarrow> issues g' = issues g)"

text \<open>The invariant: numbers are unique, and no title has two issues.\<close>

definition tracker_ok :: "issue list \<Rightarrow> bool" where
  "tracker_ok tracker \<longleftrightarrow>
     distinct (map is_number tracker) \<and> (\<forall>lane. length (titled (issue_title lane) tracker) \<le> 1)"

section \<open>Lists of issues\<close>

lemma numbers_update: "(\<And>i. is_number (f i) = is_number i) \<Longrightarrow> map is_number (update_issue n f tracker) = map is_number tracker"
  by (simp add: update_issue_def)

lemma titled_update:
  "(\<And>i. is_title (f i) = is_title i) \<Longrightarrow> titled t (update_issue n f tracker) = update_issue n f (titled t tracker)"
  unfolding titled_def update_issue_def filter_map by (rule arg_cong [of _ _ "map _"], rule filter_cong) auto

lemma others_update:
  assumes "\<And>i. is_title (f i) = is_title i" "i \<in> set (titled t tracker)" "distinct (map is_number tracker)"
  shows "others t (update_issue (is_number i) f tracker) = others t tracker"
proof -
  have "others t (update_issue (is_number i) f tracker) = update_issue (is_number i) f (others t tracker)"
    unfolding others_def update_issue_def filter_map
    by (rule arg_cong [of _ _ "map _"], rule filter_cong) (auto simp: assms(1))
  also have "\<dots> = others t tracker"
  proof -
    have "is_number j \<noteq> is_number i" if "j \<in> set (others t tracker)" for j
      using that assms(2,3) by (auto simp: others_def titled_def distinct_map dest: inj_onD)
    then show ?thesis
      unfolding update_issue_def by (intro map_idI) auto
  qed
  finally show ?thesis .
qed

lemma titled_others: "t \<noteq> t' \<Longrightarrow> titled t (others t' tracker) = titled t tracker"
  unfolding titled_def others_def by (auto intro: filter_cong)

lemma issue_title_inj [simp]: "issue_title a = issue_title b \<longleftrightarrow> a = b"
  by (simp add: issue_title_def)

text \<open>A tracker keeps the invariant when one title keeps at most one issue and the rest is kept.\<close>

lemma tracker_ok_one:
  assumes "tracker_ok before" "distinct (map is_number after)" "length (titled (issue_title lane) after) \<le> 1"
    "others (issue_title lane) after = others (issue_title lane) before"
  shows "tracker_ok after"
  unfolding tracker_ok_def
proof (intro conjI allI)
  fix l
  show "length (titled (issue_title l) after) \<le> 1"
  proof (cases "l = lane")
    case False
    then have "titled (issue_title l) after = titled (issue_title l) before"
      using titled_others [of "issue_title l" "issue_title lane" after] titled_others [of "issue_title l" "issue_title lane" before] assms(4)
      by simp
    then show ?thesis using assms(1) by (simp add: tracker_ok_def)
  qed (use assms(3) in simp)
qed (fact assms(2))

section \<open>Calls\<close>

definition nwp :: "('g, 'a) notifying \<Rightarrow> ('a \<Rightarrow> 'g \<Rightarrow> bool) \<Rightarrow> ('g \<Rightarrow> bool) \<Rightarrow> 'g \<Rightarrow> bool" where
  "nwp m Q E g \<longleftrightarrow> (case m g of (Inl e, g') \<Rightarrow> E g' | (Inr a, g') \<Rightarrow> Q a g')"

lemma nwp_nret: "nwp (nret a) Q E g \<longleftrightarrow> Q a g"
  by (simp add: nwp_def nret_def)

lemma nwp_nfail: "nwp (nfail e) Q E g \<longleftrightarrow> E g"
  by (simp add: nwp_def nfail_def)

lemma nwp_nthen: "nwp (nthen m k) Q E g \<longleftrightarrow> nwp m (\<lambda>a. nwp (k a) Q E) E g"
  by (auto simp: nwp_def nthen_def split: sum.splits prod.splits)

lemma nwp_mono:
  "nwp m Q E g \<Longrightarrow> (\<And>a g'. Q a g' \<Longrightarrow> Q' a g') \<Longrightarrow> (\<And>g'. E g' \<Longrightarrow> E' g') \<Longrightarrow> nwp m Q' E' g"
  by (auto simp: nwp_def split: sum.splits prod.splits)

lemma nwp_after:
  assumes "nwp m Q E g" "\<And>a g'. Q a g' \<Longrightarrow> nwp (k a) Q' E' g'" "\<And>g'. E g' \<Longrightarrow> E' g'"
  shows "nwp (nthen m k) Q' E' g"
  unfolding nwp_nthen using assms by (rule nwp_mono)

lemma nwp_call:
  assumes "serves w issues"
  shows "nwp (call_gh w argv body)
     (\<lambda>out g'. call_effect (nw_body_path w) argv body out (issues g) (issues g')) (\<lambda>g'. issues g' = issues g) g"
proof -
  obtain r g' where c: "nw_gh w g argv body = (r, g')" by fastforce
  have s: "case nw_gh w g argv body of
          (Inr (code, out, err), g') \<Rightarrow>
            if code = 0 then call_effect (nw_body_path w) argv body out (issues g) (issues g') else issues g' = issues g
        | (Inl _, g') \<Rightarrow> issues g' = issues g"
    using assms unfolding serves_def by (elim allE)
  show ?thesis
  proof (cases r)
    case (Inl e)
    then show ?thesis using s c by (simp add: nwp_def call_gh_def)
  next
    case (Inr t)
    then show ?thesis using s c by (cases t) (simp add: nwp_def call_gh_def split: if_splits)
  qed
qed

lemma fold_preferred_mem: "fold preferred ms m \<in> insert m (set ms)"
  by (induction ms arbitrary: m) (auto simp: preferred_def)

lemma best_issue_mem: "best_issue ms = Some m \<Longrightarrow> m \<in> set ms"
  using fold_preferred_mem by (fastforce simp: best_issue_def split: list.splits)

lemma best_issue_None: "best_issue ms = None \<longleftrightarrow> ms = []"
  by (simp add: best_issue_def split: list.splits)

text \<open>The search finds the issue of the title, if there is one.\<close>

lemma nwp_find:
  assumes "serves w issues" "length (titled t (issues g)) \<le> 1"
  shows "nwp (find_issue w t)
     (\<lambda>found g'. issues g' = issues g \<and>
        (case found of None \<Rightarrow> titled t (issues g) = []
         | Some (n, st) \<Rightarrow> \<exists>i. titled t (issues g) = [i] \<and> n = JInt (is_number i) \<and> st = state_name i))
     (\<lambda>g'. issues g' = issues g) g"
  unfolding find_issue_def
proof (rule nwp_after [OF nwp_call [OF assms(1)]])
  fix out g'
  assume e: "call_effect (nw_body_path w) (list_argv t) None out (issues g) (issues g')"
  then have same: "issues g' = issues g"
    and ms: "matching_issues t out = Inr ms \<Longrightarrow>
      set ms = (\<lambda>i. (JInt (is_number i), state_name i)) ` set (titled t (issues g))" for ms
    by (auto simp: call_effect_def)
  have "case best_issue ms of None \<Rightarrow> titled t (issues g) = []
      | Some (n, st) \<Rightarrow> \<exists>i. titled t (issues g) = [i] \<and> n = JInt (is_number i) \<and> st = state_name i"
    if "matching_issues t out = Inr ms" for ms
  proof (cases "titled t (issues g)")
    case Nil
    then show ?thesis using ms [OF that] by (simp add: best_issue_def)
  next
    case (Cons i r)
    then have "titled t (issues g) = [i]" using assms(2) by simp
    with ms [OF that] have m: "set ms = {(JInt (is_number i), state_name i)}" by (simp only: list.set image_insert image_empty)
    then have "ms \<noteq> []" by (metis insert_not_empty set_empty)
    then obtain m where b: "best_issue ms = Some m" using best_issue_None [of ms] by (cases "best_issue ms") simp_all
    from best_issue_mem [OF this] have "m = (JInt (is_number i), state_name i)" unfolding m by (simp only: singleton_iff)
    with b \<open>titled t (issues g) = [i]\<close> show ?thesis by (simp only: option.case prod.case) blast
  qed
  then show "nwp (case matching_issues t out of Inl e \<Rightarrow> nfail e | Inr ms \<Rightarrow> nret (best_issue ms))
     (\<lambda>found g'. issues g' = issues g \<and>
        (case found of None \<Rightarrow> titled t (issues g) = []
         | Some (n, st) \<Rightarrow> \<exists>i. titled t (issues g) = [i] \<and> n = JInt (is_number i) \<and> st = state_name i))
     (\<lambda>g'. issues g' = issues g) g'"
    using same by (auto simp: nwp_nret nwp_nfail split: sum.splits)
qed simp

section \<open>Upserting and closing\<close>

definition kept :: "str \<Rightarrow> issue list \<Rightarrow> issue list \<Rightarrow> bool" where
  "kept lane before after \<longleftrightarrow>
     tracker_ok after \<and> others (issue_title lane) after = others (issue_title lane) before"

lemma kept_same: "tracker_ok before \<Longrightarrow> kept lane before before"
  by (simp add: kept_def)

lemma kept_update:
  assumes "kept lane before middle" "titled (issue_title lane) middle = [i]"
    "\<And>i. is_title (f i) = is_title i" "\<And>i. is_number (f i) = is_number i"
    "after = update_issue (is_number i) f middle"
  shows "kept lane before after \<and> titled (issue_title lane) after = [f i]"
proof -
  have t: "titled (issue_title lane) after = [f i]"
    unfolding assms(5) titled_update [of f, OF assms(3)] assms(2) by (simp add: update_issue_def)
  have o: "others (issue_title lane) after = others (issue_title lane) middle"
    unfolding assms(5) by (rule others_update) (use assms in \<open>auto simp: kept_def tracker_ok_def\<close>)
  have "distinct (map is_number after)"
    using assms(1) unfolding assms(5) numbers_update [of f, OF assms(4)] by (simp add: kept_def tracker_ok_def)
  then have "tracker_ok after"
    using tracker_ok_one [of middle after lane] t o assms(1) by (simp add: kept_def)
  with t o assms(1) show ?thesis by (simp add: kept_def)
qed

lemma kept_create:
  assumes "tracker_ok before" "titled (issue_title lane) before = []" "n \<notin> is_number ` set before"
    "after = before @ [i]" "is_number i = n" "is_title i = issue_title lane"
  shows "kept lane before after \<and> titled (issue_title lane) after = [i]"
proof -
  have t: "titled (issue_title lane) after = [i]" "others (issue_title lane) after = others (issue_title lane) before"
    using assms by (simp_all add: titled_def others_def)
  moreover have "distinct (map is_number after)"
    using assms by (simp add: tracker_ok_def)
  ultimately show ?thesis
    using tracker_ok_one [OF assms(1), of after lane] by (simp add: kept_def)
qed

lemma number_text_JInt: "number_text (JInt n) = int_repr n"
  by (simp add: number_text_def int_of_json_def)

definition reported :: "str \<Rightarrow> str \<Rightarrow> issue list \<Rightarrow> bool" where
  "reported lane body tracker \<longleftrightarrow>
     (\<exists>i. titled (issue_title lane) tracker = [i] \<and> is_open i \<and> is_body i = body)"

lemma effect_create: "call_effect p (gh_issue ''create'' @ [lit ''--title'', t, lit ''--body-file'', p]) (Some b) out is is' \<Longrightarrow>
    \<exists>n. n \<notin> is_number ` set is \<and> is' = is @ [\<lparr> is_number = n, is_title = t, is_open = True, is_body = b \<rparr>]"
  unfolding call_effect_def by blast

lemma effect_reopen: "call_effect p (gh_issue ''reopen'' @ [int_repr n]) b out is is' \<Longrightarrow>
    is' = update_issue n (is_open_update (\<lambda>_. True)) is"
  unfolding call_effect_def by blast

lemma effect_edit: "call_effect p (gh_issue ''edit'' @ [int_repr n, lit ''--body-file'', p]) (Some b) out is is' \<Longrightarrow>
    is' = update_issue n (is_body_update (\<lambda>_. b)) is"
  unfolding call_effect_def by blast

lemma effect_comment: "call_effect p (gh_issue ''comment'' @ [int_repr n, lit ''--body-file'', p]) b out is is' \<Longrightarrow> is' = is"
  unfolding call_effect_def by blast

lemma effect_close: "call_effect p (gh_issue ''close'' @ [int_repr n]) b out is is' \<Longrightarrow>
    is' = update_issue n (is_open_update (\<lambda>_. False)) is"
  unfolding call_effect_def by blast

lemma nwp_edit:
  assumes "serves w issues" "kept lane before (issues g)" "titled (issue_title lane) (issues g) = [i]" "is_open i"
  shows "nwp (nthen (call_gh w (gh_issue ''edit'' @ [int_repr (is_number i), lit ''--body-file'', nw_body_path w]) (Some body))
      (\<lambda>_. nret ())) (\<lambda>_ g'. kept lane before (issues g') \<and> reported lane body (issues g'))
      (\<lambda>g'. kept lane before (issues g')) g"
proof (rule nwp_after [OF nwp_call [OF assms(1)]])
  fix out g'
  assume "call_effect (nw_body_path w) (gh_issue ''edit'' @ [int_repr (is_number i), lit ''--body-file'', nw_body_path w])
      (Some body) out (issues g) (issues g')"
  then have "kept lane before (issues g') \<and> titled (issue_title lane) (issues g') = [is_body_update (\<lambda>_. body) i]"
    using kept_update [OF assms(2,3), of "is_body_update (\<lambda>_. body)"] effect_edit by simp
  then show "nwp (nret ()) (\<lambda>_ g'. kept lane before (issues g') \<and> reported lane body (issues g'))
      (\<lambda>g'. kept lane before (issues g')) g'"
    using assms(4) by (simp add: nwp_nret reported_def)
qed (use assms in simp)

lemma nwp_upsert:
  assumes "serves w issues" "tracker_ok (issues g)"
  shows "nwp (upsert_issue w (issue_title lane) body)
      (\<lambda>_ g'. kept lane (issues g) (issues g') \<and> reported lane body (issues g'))
      (\<lambda>g'. kept lane (issues g) (issues g')) g"
  unfolding upsert_issue_def
proof (rule nwp_after [OF nwp_find [OF assms(1)]])
  show "length (titled (issue_title lane) (issues g)) \<le> 1"
    using assms(2) by (simp add: tracker_ok_def)
next
  fix g' assume "issues g' = issues g"
  then show "kept lane (issues g) (issues g')" using assms(2) by (simp add: kept_same)
next
  fix found g'
  assume f: "issues g' = issues g \<and> (case found of None \<Rightarrow> titled (issue_title lane) (issues g) = []
      | Some (n, st) \<Rightarrow> \<exists>i. titled (issue_title lane) (issues g) = [i] \<and> n = JInt (is_number i) \<and> st = state_name i)"
  have k: "kept lane (issues g) (issues g')" using f assms(2) by (simp add: kept_same)
  show "nwp (staged w body (\<lambda>file. case found of
         None \<Rightarrow> nthen (call_gh w (gh_issue ''create'' @ [lit ''--title'', issue_title lane, lit ''--body-file'', nw_body_path w]) file)
                   (\<lambda>_. nret ())
       | Some (number, state) \<Rightarrow>
           nthen (if state \<noteq> OPEN then call_gh w (gh_issue ''reopen'' @ [number_text number]) None else nret []) (\<lambda>_.
           nthen (call_gh w (gh_issue ''edit'' @ [number_text number, lit ''--body-file'', nw_body_path w]) file)
             (\<lambda>_. nret ()))))
      (\<lambda>_ g'. kept lane (issues g) (issues g') \<and> reported lane body (issues g'))
      (\<lambda>g'. kept lane (issues g) (issues g')) g'"
  proof (cases "nw_stage_fails w body \<or> \<not> utf8_encodable body")
    case True
    then show ?thesis using k by (auto simp: staged_def nwp_nfail)
  next
    case staged: False
    show ?thesis
    proof (cases found)
      case None
      then have t: "titled (issue_title lane) (issues g) = []" using f by simp
      show ?thesis
        using staged None unfolding staged_def
      proof (simp, intro nwp_after [OF nwp_call [OF assms(1)]], goal_cases)
        case (1 out g2)
        then have "call_effect (nw_body_path w)
            (gh_issue ''create'' @ [lit ''--title'', issue_title lane, lit ''--body-file'', nw_body_path w])
            (Some body) out (issues g') (issues g2)" by simp
        from effect_create [OF this] obtain n where "n \<notin> is_number ` set (issues g)"
          "issues g2 = issues g @ [\<lparr> is_number = n, is_title = issue_title lane, is_open = True, is_body = body \<rparr>]"
          using f by auto
        from kept_create [OF assms(2) t this] show ?case
          by (simp add: nwp_nret reported_def)
      next
        case (2 g2)
        then show ?case using k by simp
      qed
    next
      case (Some m)
      then obtain i where i: "found = Some (JInt (is_number i), state_name i)" "titled (issue_title lane) (issues g') = [i]"
        using f by (cases m) auto
      show ?thesis
      proof (cases "is_open i")
        case True
        then show ?thesis
          using staged i nwp_edit [OF assms(1) k i(2) True, of body]
          by (simp add: staged_def state_name_def nwp_nthen [of "nret []"] nwp_nret number_text_JInt)
      next
        case False
        have closed: "state_name i \<noteq> OPEN" using False by (simp add: state_name_def OPEN_def)
        have "nwp (nthen (call_gh w (gh_issue ''reopen'' @ [int_repr (is_number i)]) None) (\<lambda>_.
             nthen (call_gh w (gh_issue ''edit'' @ [int_repr (is_number i), lit ''--body-file'', nw_body_path w]) (Some body))
               (\<lambda>_. nret ())))
          (\<lambda>_ g'. kept lane (issues g) (issues g') \<and> reported lane body (issues g'))
          (\<lambda>g'. kept lane (issues g) (issues g')) g'"
        proof (rule nwp_after [OF nwp_call [OF assms(1)]])
          fix out g2
          assume "call_effect (nw_body_path w) (gh_issue ''reopen'' @ [int_repr (is_number i)]) None out (issues g') (issues g2)"
          then have "kept lane (issues g) (issues g2) \<and> titled (issue_title lane) (issues g2) = [is_open_update (\<lambda>_. True) i]"
            using kept_update [OF k i(2), of "is_open_update (\<lambda>_. True)"] effect_reopen by simp
          then show "nwp (nthen (call_gh w (gh_issue ''edit'' @ [int_repr (is_number i), lit ''--body-file'', nw_body_path w]) (Some body))
               (\<lambda>_. nret ()))
             (\<lambda>_ g'. kept lane (issues g) (issues g') \<and> reported lane body (issues g'))
             (\<lambda>g'. kept lane (issues g) (issues g')) g2"
            using nwp_edit [OF assms(1), of lane "issues g" g2 "is_open_update (\<lambda>_. True) i" body] by simp
        qed (use k in simp)
        then show ?thesis
          using staged i(1) closed by (simp add: staged_def number_text_JInt)
      qed
    qed
  qed
qed

text \<open>Closing leaves no open issue of the lane.\<close>

definition at_rest :: "str \<Rightarrow> issue list \<Rightarrow> bool" where
  "at_rest lane tracker \<longleftrightarrow> (\<forall>i \<in> set (titled (issue_title lane) tracker). \<not> is_open i)"

lemma nwp_shut:
  assumes "serves w issues" "kept lane before (issues g)" "titled (issue_title lane) (issues g) = [i]"
  shows "nwp (nthen (call_gh w (gh_issue ''close'' @ [int_repr (is_number i)]) None) (\<lambda>_. nret ()))
      (\<lambda>_ g'. kept lane before (issues g') \<and> at_rest lane (issues g')) (\<lambda>g'. kept lane before (issues g')) g"
proof (rule nwp_after [OF nwp_call [OF assms(1)]])
  fix out g'
  assume "call_effect (nw_body_path w) (gh_issue ''close'' @ [int_repr (is_number i)]) None out (issues g) (issues g')"
  then have "kept lane before (issues g') \<and> titled (issue_title lane) (issues g') = [is_open_update (\<lambda>_. False) i]"
    using kept_update [OF assms(2,3), of "is_open_update (\<lambda>_. False)"] effect_close by simp
  then show "nwp (nret ()) (\<lambda>_ g'. kept lane before (issues g') \<and> at_rest lane (issues g'))
      (\<lambda>g'. kept lane before (issues g')) g'"
    by (simp add: nwp_nret at_rest_def)
qed (use assms in simp)

lemma nwp_close:
  assumes "serves w issues" "tracker_ok (issues g)"
  shows "nwp (close_issue w (issue_title lane) body)
      (\<lambda>_ g'. kept lane (issues g) (issues g') \<and> at_rest lane (issues g'))
      (\<lambda>g'. kept lane (issues g) (issues g')) g"
  unfolding close_issue_def
proof (rule nwp_after [OF nwp_find [OF assms(1)]])
  show "length (titled (issue_title lane) (issues g)) \<le> 1"
    using assms(2) by (simp add: tracker_ok_def)
next
  fix g' assume "issues g' = issues g"
  then show "kept lane (issues g) (issues g')" using assms(2) by (simp add: kept_same)
next
  fix found g'
  assume f: "issues g' = issues g \<and> (case found of None \<Rightarrow> titled (issue_title lane) (issues g) = []
      | Some (n, st) \<Rightarrow> \<exists>i. titled (issue_title lane) (issues g) = [i] \<and> n = JInt (is_number i) \<and> st = state_name i)"
  have k: "kept lane (issues g) (issues g')" using f assms(2) by (simp add: kept_same)
  show "nwp (case found of None \<Rightarrow> nret ()
       | Some (number, state) \<Rightarrow>
           if state \<noteq> OPEN then nret ()
           else
             nthen (staged w body (call_gh w (gh_issue ''comment'' @ [number_text number, lit ''--body-file'', nw_body_path w]))) (\<lambda>_.
             nthen (call_gh w (gh_issue ''close'' @ [number_text number]) None) (\<lambda>_. nret ())))
      (\<lambda>_ g'. kept lane (issues g) (issues g') \<and> at_rest lane (issues g'))
      (\<lambda>g'. kept lane (issues g) (issues g')) g'"
  proof (cases found)
    case None
    then show ?thesis using f k by (simp add: nwp_nret at_rest_def)
  next
    case (Some m)
    then obtain i where i: "found = Some (JInt (is_number i), state_name i)" "titled (issue_title lane) (issues g') = [i]"
      using f by (cases m) auto
    have comment: "nwp (staged w body (call_gh w (gh_issue ''comment'' @ [int_repr (is_number i), lit ''--body-file'', nw_body_path w])))
        (\<lambda>_ g2. issues g2 = issues g') (\<lambda>g2. issues g2 = issues g') g'"
    proof (cases "nw_stage_fails w body \<or> \<not> utf8_encodable body")
      case True
      then show ?thesis by (auto simp: staged_def nwp_nfail)
    next
      case False
      then show ?thesis
        unfolding staged_def
        by (simp, intro nwp_mono [OF nwp_call [OF assms(1)]]) (simp_all add: effect_comment)
    qed
    show ?thesis
    proof (cases "is_open i")
      case True
      have "nwp (nthen (staged w body (call_gh w (gh_issue ''comment'' @ [int_repr (is_number i), lit ''--body-file'', nw_body_path w]))) (\<lambda>_.
             nthen (call_gh w (gh_issue ''close'' @ [int_repr (is_number i)]) None) (\<lambda>_. nret ())))
          (\<lambda>_ g'. kept lane (issues g) (issues g') \<and> at_rest lane (issues g'))
          (\<lambda>g'. kept lane (issues g) (issues g')) g'"
        by (rule nwp_after [OF comment], rule nwp_shut [OF assms(1)]) (use k i(2) in simp_all)
      then show ?thesis
        using i(1) True by (simp add: state_name_def number_text_JInt)
    next
      case False
      then show ?thesis
        using i k by (simp add: state_name_def OPEN_def nwp_nret at_rest_def)
    qed
  qed
qed

section \<open>Lanes\<close>

text \<open>
  What one report promises of the tracker: a lane that is quiet has no open issue, and every other
  lane has exactly one, open, with the rendered body.  \<open>red\<close> is whether the lane turns the run red.
\<close>

definition settled :: "'g notify_world \<Rightarrow> str \<Rightarrow> issue list \<Rightarrow> bool \<Rightarrow> bool" where
  "settled w lane tracker red \<longleftrightarrow>
     (case read_result (nw_artifact w lane) lane of
        Inl (ArtifactEscapes _) \<Rightarrow> False
      | Inl (ArtifactError fault) \<Rightarrow>
          red \<and> reported lane (render_silence_body (nw_hosted w) lane (nw_wording w fault)) tracker
      | Inr r \<Rightarrow>
          if lr_classification r \<in> set QUIET_CLASSIFICATIONS then \<not> red \<and> at_rest lane tracker
          else red = (lr_classification r \<noteq> classification_name INFRA_FAILURE)
               \<and> reported lane (render_body (nw_hosted w) r) tracker)"

lemma nwp_lane:
  assumes "serves w issues" "tracker_ok (issues g)"
  shows "nwp (notify_lane w lane)
      (\<lambda>red g'. kept lane (issues g) (issues g') \<and> settled w lane (issues g') red)
      (\<lambda>g'. kept lane (issues g) (issues g')) g"
proof (cases "read_result (nw_artifact w lane) lane")
  case (Inr r)
  show ?thesis
  proof (cases "lr_classification r \<in> set QUIET_CLASSIFICATIONS")
    case True
    have "nwp (nthen (close_issue w (issue_title lane) (render_body (nw_hosted w) r)) (\<lambda>_. nret False))
      (\<lambda>red g'. kept lane (issues g) (issues g') \<and> settled w lane (issues g') red)
      (\<lambda>g'. kept lane (issues g) (issues g')) g"
      by (rule nwp_after [OF nwp_close [OF assms]]) (simp_all add: nwp_nret settled_def Inr True)
    then show ?thesis by (simp add: notify_lane_def Inr True)
  next
    case False
    have "nwp (nthen (upsert_issue w (issue_title lane) (render_body (nw_hosted w) r))
          (\<lambda>_. nret (lr_classification r \<noteq> classification_name INFRA_FAILURE)))
      (\<lambda>red g'. kept lane (issues g) (issues g') \<and> settled w lane (issues g') red)
      (\<lambda>g'. kept lane (issues g) (issues g')) g"
      by (rule nwp_after [OF nwp_upsert [OF assms]]) (simp_all add: nwp_nret settled_def Inr False)
    then show ?thesis by (simp add: notify_lane_def Inr False)
  qed
next
  case (Inl e)
  show ?thesis
  proof (cases e)
    case (ArtifactError fault)
    have "nwp (nthen (upsert_issue w (issue_title lane) (render_silence_body (nw_hosted w) lane (nw_wording w fault)))
          (\<lambda>_. nret True))
      (\<lambda>red g'. kept lane (issues g) (issues g') \<and> settled w lane (issues g') red)
      (\<lambda>g'. kept lane (issues g) (issues g')) g"
      by (rule nwp_after [OF nwp_upsert [OF assms]]) (simp_all add: nwp_nret settled_def Inl ArtifactError)
    then show ?thesis by (simp add: notify_lane_def Inl ArtifactError)
  qed (simp add: notify_lane_def Inl nwp_nfail kept_same assms(2))
qed

lemma kept_titled: "kept lane before after \<Longrightarrow> l \<noteq> lane \<Longrightarrow> titled (issue_title l) after = titled (issue_title l) before"
  using titled_others [of "issue_title l" "issue_title lane" after] titled_others [of "issue_title l" "issue_title lane" before]
  by (simp add: kept_def)

lemma settled_kept:
  assumes "kept lane before after" "l \<noteq> lane"
  shows "settled w l after red = settled w l before red"
  unfolding settled_def reported_def at_rest_def kept_titled [OF assms] ..

lemma settled_red: "settled w l tr a \<Longrightarrow> settled w l tr' b \<Longrightarrow> a = b"
  by (auto simp: settled_def split: sum.splits artifact_exn.splits if_splits)

text \<open>The loop keeps the invariant, and what it could report it leaves settled.\<close>

definition loop_ok :: "'g notify_world \<Rightarrow> issue list \<Rightarrow> str list \<Rightarrow> str list \<times> str list \<Rightarrow> bool" where
  "loop_ok w tracker lanes r \<longleftrightarrow>
     (\<forall>l \<in> set lanes. l \<notin> set (snd r) \<longrightarrow> settled w l tracker (l \<in> set (fst r)))"

lemma nwp_lanes:
  assumes "serves w issues"
  shows "tracker_ok (issues g) \<Longrightarrow> set failed \<union> set errors \<subseteq> set seen \<Longrightarrow>
      loop_ok w (issues g) seen (failed, errors) \<Longrightarrow>
      nwp (notify_lanes w lanes failed errors)
        (\<lambda>r g'. tracker_ok (issues g') \<and> loop_ok w (issues g') (seen @ lanes) r)
        (\<lambda>g'. tracker_ok (issues g')) g"
proof (induction lanes arbitrary: g seen failed errors)
  case Nil
  then show ?case by (simp add: nwp_def)
next
  case (Cons lane lanes)
  obtain out g1 where n: "notify_lane w lane g = (out, g1)" by fastforce
  from nwp_lane [OF assms Cons.prems(1), of lane] n
  have k: "kept lane (issues g) (issues g1)" and red: "out = Inr red \<Longrightarrow> settled w lane (issues g1) red" for red
    by (auto simp: nwp_def split: sum.splits)
  have ok: "tracker_ok (issues g1)" using k by (simp add: kept_def)
  have old: "l \<in> set seen \<Longrightarrow> l \<notin> set errors \<Longrightarrow> l \<noteq> lane \<Longrightarrow> settled w l (issues g1) (l \<in> set failed)" for l
    using Cons.prems(3) settled_kept [OF k, of l w] by (simp add: loop_ok_def)
  note step = Cons.IH [of g1 _ _ "seen @ [lane]", OF ok]
  show ?case
  proof (cases out)
    case (Inr b)
    have "lane \<notin> set errors \<Longrightarrow> lane \<in> set failed \<Longrightarrow> b"
      using Cons.prems(2,3) settled_red [OF red [OF Inr]] unfolding loop_ok_def by auto
    then have "loop_ok w (issues g1) (seen @ [lane]) (if b then failed @ [lane] else failed, errors)"
      unfolding loop_ok_def
    proof (intro ballI impI)
      fix l assume l: "l \<in> set (seen @ [lane])" "l \<notin> set (snd (if b then failed @ [lane] else failed, errors))"
      show "settled w l (issues g1) (l \<in> set (fst (if b then failed @ [lane] else failed, errors)))"
      proof (cases "l = lane")
        case True
        then show ?thesis
          using l red [OF Inr] \<open>lane \<notin> set errors \<Longrightarrow> lane \<in> set failed \<Longrightarrow> b\<close>
          by (cases b; cases "lane \<in> set failed") auto
      next
        case False
        then show ?thesis using l old [of l] by (cases b) auto
      qed
    qed
    moreover have "set (if b then failed @ [lane] else failed) \<union> set errors \<subseteq> set (seen @ [lane])"
      using Cons.prems(2) by auto
    ultimately show ?thesis
      using step [of "if b then failed @ [lane] else failed" errors] n Inr by (simp add: nwp_def)
  next
    case (Inl e)
    show ?thesis
    proof (cases e)
      case (NotifyError m)
      have "loop_ok w (issues g1) (seen @ [lane]) (failed, errors @ [lane])"
        using old unfolding loop_ok_def by auto
      moreover have "set failed \<union> set (errors @ [lane]) \<subseteq> set (seen @ [lane])"
        using Cons.prems(2) by auto
      ultimately show ?thesis
        using step [of failed "errors @ [lane]"] n Inl NotifyError by (simp add: nwp_def)
    qed (use n Inl ok in \<open>simp add: nwp_def\<close>)
  qed
qed

section \<open>A tracker that serves\<close>

text \<open>An executable \<open>gh issue\<close> over a list of issues, for the witnesses.\<close>

definition issue_text :: "issue \<Rightarrow> str" where
  "issue_text i = lit ''{\"number\":'' @ int_repr (is_number i) @ lit '',\"title\":\"'' @ is_title i
     @ lit ''\",\"state\":\"'' @ state_name i @ lit ''\"}''"

definition listing :: "issue list \<Rightarrow> str" where
  "listing tracker = lit ''['' @ join_with (lit '','') (map issue_text tracker) @ lit '']''"

definition fresh :: "issue list \<Rightarrow> int" where
  "fresh tracker = fold max (map is_number tracker) 0 + 1"

definition update_text :: "str \<Rightarrow> (issue \<Rightarrow> issue) \<Rightarrow> issue list \<Rightarrow> issue list" where
  "update_text a f tracker = map (\<lambda>i. if int_repr (is_number i) = a then f i else i) tracker"

definition store_gh :: "str \<Rightarrow> issue list \<Rightarrow> str list \<Rightarrow> str option \<Rightarrow> (unit + int \<times> str \<times> str) \<times> issue list" where
  "store_gh path tracker argv body =
     (let failed = (Inr (1, [], []), tracker); ok = (\<lambda>tr. (Inr (0, [], []), tr));
          title = take (length (argv ! 6) - 9) (argv ! 6); n = argv ! 3 in
      if argv = list_argv title then
        (if matching_issues title (listing tracker) = Inr (map (\<lambda>i. (JInt (is_number i), state_name i)) (titled title tracker))
         then (Inr (0, listing tracker, []), tracker) else failed)
      else if argv = gh_issue ''create'' @ [lit ''--title'', argv ! 4, lit ''--body-file'', path] then
        (case body of
           Some b \<Rightarrow> ok (tracker @ [\<lparr> is_number = fresh tracker, is_title = argv ! 4, is_open = True, is_body = b \<rparr>])
         | None \<Rightarrow> failed)
      else if argv = gh_issue ''reopen'' @ [n] then ok (update_text n (is_open_update (\<lambda>_. True)) tracker)
      else if argv = gh_issue ''edit'' @ [n, lit ''--body-file'', path] then
        (case body of Some b \<Rightarrow> ok (update_text n (is_body_update (\<lambda>_. b)) tracker) | None \<Rightarrow> failed)
      else if argv = gh_issue ''comment'' @ [n, lit ''--body-file'', path] then ok tracker
      else if argv = gh_issue ''close'' @ [n] then ok (update_text n (is_open_update (\<lambda>_. False)) tracker)
      else failed)"

lemma int_repr_inject: "int_repr a = int_repr b \<longleftrightarrow> a = b"
proof
  have first: "decimal n \<noteq> 45 # s" for n s
    using decimal_digits [of n] by (auto simp: is_ascii_digit_def)
  have same: "decimal n = decimal m \<Longrightarrow> n = m" for n m
    by (metis digits_value_decimal of_nat_eq_iff)
  assume "int_repr a = int_repr b"
  then show "a = b"
    using first same [of "nat (- a)" "nat (- b)"] same [of "nat a" "nat b"]
    by (auto simp: int_repr_def split: if_splits dest: sym)
qed simp

lemma update_text_number: "update_text (int_repr n) f tracker = update_issue n f tracker"
  by (simp add: update_text_def update_issue_def int_repr_inject)

lemma fresh_number: "fresh tracker \<notin> is_number ` set tracker"
proof -
  have "n \<le> fold max xs m \<and> (\<forall>x\<in>set xs. x \<le> fold max xs m)" if "n \<le> m" for n m :: int and xs
    using that
  proof (induction xs arbitrary: n m)
    case (Cons x xs)
    from Cons.IH [of n "max x m"] Cons.IH [of x "max x m"] Cons.prems show ?case by simp
  qed simp
  then have "\<forall>x\<in>set (map is_number tracker). x \<le> fold max (map is_number tracker) 0" by blast
  then show ?thesis by (auto simp: fresh_def)
qed

lemma verbs:
  "lit ''list'' \<noteq> lit ''create''" "lit ''list'' \<noteq> lit ''reopen''" "lit ''list'' \<noteq> lit ''edit''"
  "lit ''list'' \<noteq> lit ''comment''" "lit ''list'' \<noteq> lit ''close''" "lit ''create'' \<noteq> lit ''reopen''"
  "lit ''create'' \<noteq> lit ''edit''" "lit ''create'' \<noteq> lit ''comment''" "lit ''create'' \<noteq> lit ''close''"
  "lit ''reopen'' \<noteq> lit ''edit''" "lit ''reopen'' \<noteq> lit ''comment''" "lit ''reopen'' \<noteq> lit ''close''"
  "lit ''edit'' \<noteq> lit ''comment''" "lit ''edit'' \<noteq> lit ''close''" "lit ''comment'' \<noteq> lit ''close''"
  by simp_all

lemma store_list:
  "store_gh p tr (list_argv t) body =
     (if matching_issues t (listing tr) = Inr (map (\<lambda>i. (JInt (is_number i), state_name i)) (titled t tr))
      then (Inr (0, listing tr, []), tr) else (Inr (1, [], []), tr))"
proof -
  have "take (length (list_argv t ! 6) - 9) (list_argv t ! 6) = t"
    by (simp add: list_argv_def gh_issue_def)
  then show ?thesis by (simp only: store_gh_def Let_def if_True simp_thms)
qed

lemma store_others:
  "store_gh p tr (gh_issue ''create'' @ [lit ''--title'', t, lit ''--body-file'', p]) (Some b) =
     (Inr (0, [], []), tr @ [\<lparr> is_number = fresh tr, is_title = t, is_open = True, is_body = b \<rparr>])"
  "store_gh p tr (gh_issue ''reopen'' @ [int_repr n]) body = (Inr (0, [], []), update_issue n (is_open_update (\<lambda>_. True)) tr)"
  "store_gh p tr (gh_issue ''edit'' @ [int_repr n, lit ''--body-file'', p]) (Some b) =
     (Inr (0, [], []), update_issue n (is_body_update (\<lambda>_. b)) tr)"
  "store_gh p tr (gh_issue ''comment'' @ [int_repr n, lit ''--body-file'', p]) body = (Inr (0, [], []), tr)"
  "store_gh p tr (gh_issue ''close'' @ [int_repr n]) body = (Inr (0, [], []), update_issue n (is_open_update (\<lambda>_. False)) tr)"
  by (simp_all add: store_gh_def list_argv_def gh_issue_def verbs verbs [symmetric] update_text_number del: lit_Cons)

lemma store_serves:
  assumes w: "nw_gh w = store_gh (nw_body_path w)"
  shows "serves w id"
proof -
  have same: "(case r of Inl u \<Rightarrow> True | Inr (code, out, err) \<Rightarrow> code \<noteq> 0) \<Longrightarrow> store_gh p tr argv body = (r, tr') \<Longrightarrow> tr' = tr"
    for p tr tr' argv body r
    by (auto simp: store_gh_def Let_def split: if_splits option.splits)
  have "call_effect p argv body out tr tr'" if s: "store_gh p tr argv body = (Inr (0, out, err), tr')" for p tr argv body out err tr'
    unfolding call_effect_def
  proof (intro conjI allI impI, goal_cases)
    case (1 t)
    then show ?case using s by (simp add: store_list split: if_splits)
  next
    case (2 t ms)
    then show ?case using s by (auto simp: store_list split: if_splits)
  next
    case (3 t b)
    from s [unfolded 3 store_others(1)] fresh_number [of tr] show ?case by blast
  next
    case (4 n)
    from s [unfolded 4 store_others(2)] show ?case by blast
  next
    case (5 n b)
    from s [unfolded 5 store_others(3)] show ?case by blast
  next
    case (6 n)
    from s [unfolded 6 store_others(4)] show ?case by blast
  next
    case (7 n)
    from s [unfolded 7 store_others(5)] show ?case by blast
  qed
  note effect = this
  show ?thesis
    unfolding serves_def w id_apply
  proof (intro allI)
    fix tr argv body
    obtain r tr' where s: "store_gh (nw_body_path w) tr argv body = (r, tr')" by fastforce
    show "case store_gh (nw_body_path w) tr argv body of
          (Inr (code, out, err), tr') \<Rightarrow>
            if code = 0 then call_effect (nw_body_path w) argv body out tr tr' else tr' = tr
        | (Inl _, tr') \<Rightarrow> tr' = tr"
    proof (cases r)
      case (Inl u)
      then show ?thesis using same [OF _ s] s by simp
    next
      case (Inr t)
      then obtain code out err where t: "r = Inr (code, out, err)" by (cases t) auto
      show ?thesis
      proof (cases "code = 0")
        case True
        then show ?thesis using effect s t by simp
      next
        case False
        then show ?thesis using same [OF _ s] s t by simp
      qed
    qed
  qed
qed

section \<open>Reports\<close>


definition idle_lane :: "str \<Rightarrow> bytes option \<Rightarrow> issue list notify_world" where
  "idle_lane p artifact = \<lparr> nw_gh = store_gh p, nw_stage_fails = (\<lambda>_. False), nw_body_path = p,
     nw_artifact = (\<lambda>_. artifact), nw_hosted = \<lparr> hr_server = None, hr_repository = None, hr_run_id = None \<rparr>,
     nw_wording = (\<lambda>_. lit ''missing'') \<rparr>"

lemma idle_serves: "serves (idle_lane p artifact) id"
  by (rule store_serves) (simp add: idle_lane_def)

definition silent_issue :: "bool \<Rightarrow> str \<Rightarrow> issue" where
  "silent_issue opened b = \<lparr> is_number = 7, is_title = issue_title (lit ''stable''), is_open = opened, is_body = b \<rparr>"

definition silence :: str where
  "silence = render_silence_body (nw_hosted (idle_lane [] None)) (lit ''stable'') (lit ''missing'')"

lemma silent_tracker_ok: "tracker_ok [silent_issue opened b]"
  by (simp add: tracker_ok_def titled_def)

lemma silent_run:
  "notify_lane (idle_lane [120] None) (lit ''stable'') [silent_issue False []] = (Inr True, [silent_issue True silence])"
  by code_simp



lemma silent_main:
  "notify_main (idle_lane [120] None) (lit ''stable'') [silent_issue False []] = (Some 1, [silent_issue True silence])"
  by code_simp




end
