(* ===== verification/Annotations.thy ===== *)
theory Annotations
  imports Prelude
begin

text \<open>
  scripts/formats/annotations.py: the oracle for mtest's GitHub Actions output.  First the grammar
  and the escaping of the annotation lines, then the fences of \<open>stop-commands\<close>, and a reference
  definition of what GitHub reads of a console, which the oracle is compared with.
\<close>

section \<open>Annotation lines\<close>

datatype kind = ErrorKind | WarningKind | NoticeKind

definition kind_name :: "kind \<Rightarrow> str" where
  "kind_name k = (case k of ErrorKind \<Rightarrow> lit ''error'' | WarningKind \<Rightarrow> lit ''warning'' | NoticeKind \<Rightarrow> lit ''notice'')"

record annotation =
  an_kind :: kind
  an_props :: str
  an_message :: str

text \<open>\<open>$\<close> without \<open>re.MULTILINE\<close>: the end of the text, or its last line feed.\<close>

definition at_end :: "str \<Rightarrow> bool" where
  "at_end s \<longleftrightarrow> s = [] \<or> s = [10]"

definition kind_prefix :: "str \<Rightarrow> (kind \<times> str) option" where
  "kind_prefix line =
     (case List.find (\<lambda>k. startswith line (lit ''::'' @ kind_name k)) [ErrorKind, WarningKind, NoticeKind] of
        None \<Rightarrow> None
      | Some k \<Rightarrow> Some (k, drop (2 + length (kind_name k)) line))"

text \<open>
  \<open>_ANNOTATION_RE\<close>.  The property segment takes every character up to the first colon, a line feed
  among them; the message ends at a line feed.
\<close>

definition message_of :: "str \<Rightarrow> str option" where
  "message_of s =
     (if startswith s (lit ''::'') then
        (let m = takeWhile (\<lambda>c. c \<noteq> 10) (drop 2 s)
         in if at_end (drop (2 + length m) s) then Some m else None)
      else None)"

definition parse_annotation :: "str \<Rightarrow> annotation option" where
  "parse_annotation line =
     (case kind_prefix line of
        None \<Rightarrow> None
      | Some (k, r) \<Rightarrow>
          let props = (if r \<noteq> [] \<and> hd r = 32 then takeWhile (\<lambda>c. c \<noteq> 58) (tl r) else []);
              after = (if r \<noteq> [] \<and> hd r = 32 then drop (Suc (length props)) r else r)
          in map_option (\<lambda>m. \<lparr> an_kind = k, an_props = props, an_message = m \<rparr>) (message_of after))"

text \<open>\<open>_ANNOTATION_OPENER_RE\<close>\<close>

definition annotation_opener :: "str \<Rightarrow> bool" where
  "annotation_opener line \<longleftrightarrow>
     (case kind_prefix line of None \<Rightarrow> False | Some (_, r) \<Rightarrow> at_end r \<or> hd r = 32 \<or> hd r = 58)"

section \<open>The annotation tail\<close>

datatype tail_finding =
    RawLineBreak kind str
  | RawPropertyBreak kind str
  | NotKeyValue kind str
  | UnescapedValue kind str
  | NotGrouped
  | ManyNotices nat
  | ManyAggregates kind
  | AggregateNotLast kind
  | AggregateAlone kind
  | NotSorted kind

definition is_aggregate :: "str \<Rightarrow> kind \<Rightarrow> bool" where
  "is_aggregate message k \<longleftrightarrow>
     startswith message (lit ''... and '') \<and> endswith message (lit ''more '' @ kind_name k @ lit ''s'')"

text \<open>\<open>message.split(": ", 1)[0]\<close>\<close>

fun node_id_key :: "str \<Rightarrow> str" where
  "node_id_key [] = []"
| "node_id_key (c # s) = (if c = 58 \<and> s \<noteq> [] \<and> hd s = 32 then [] else c # node_id_key s)"

definition has_break :: "str \<Rightarrow> bool" where
  "has_break s \<longleftrightarrow> 13 \<in> set s \<or> 10 \<in> set s"

definition check_pair :: "kind \<Rightarrow> str \<Rightarrow> tail_finding list" where
  "check_pair k pair =
     (case find1 61 pair of
        None \<Rightarrow> [NotKeyValue k pair]
      | Some n \<Rightarrow>
          let value = drop (Suc n) pair
          in if 58 \<in> set value \<or> 44 \<in> set value then [UnescapedValue k value] else [])"

definition check_escaping :: "annotation \<Rightarrow> tail_finding list" where
  "check_escaping a =
     (if has_break (an_message a) then [RawLineBreak (an_kind a) (an_message a)] else [])
     @ (if has_break (an_props a) then [RawPropertyBreak (an_kind a) (an_props a)] else [])
     @ (if an_props a \<noteq> [] then concat (map (check_pair (an_kind a)) (split_on 44 (an_props a))) else [])"

definition kind_rank :: "annotation \<Rightarrow> nat" where
  "kind_rank a = (case an_kind a of ErrorKind \<Rightarrow> 0 | WarningKind \<Rightarrow> 1 | NoticeKind \<Rightarrow> 2)"

definition block :: "kind \<Rightarrow> annotation list \<Rightarrow> str list" where
  "block k anns = map an_message (filter (\<lambda>a. an_kind a = k) anns)"

definition check_block :: "kind \<Rightarrow> annotation list \<Rightarrow> tail_finding list" where
  "check_block k anns =
     (let b = block k anns; aggregates = filter (\<lambda>m. is_aggregate m k) b;
          keys = map node_id_key (filter (\<lambda>m. \<not> is_aggregate m k) b)
      in (if 1 < length aggregates then [ManyAggregates k] else [])
         @ (if aggregates \<noteq> [] \<and> last b \<noteq> hd aggregates then [AggregateNotLast k] else [])
         @ (if aggregates \<noteq> [] \<and> keys = [] then [AggregateAlone k] else [])
         @ (if keys \<noteq> sort keys then [NotSorted k] else []))"

record tail_summary =
  ts_errors :: nat
  ts_warnings :: nat
  ts_notices :: nat

datatype annotations_exn = NotAnnotation str | TailFindings "tail_finding list" | FenceFindings "fence_finding list"
  and fence_finding = Dangling | NoFence | WeakToken str | SeededToken str | NotEchoed str | NotSealed str nat

definition parse_tail :: "str list \<Rightarrow> annotations_exn + annotation list" where
  "parse_tail lines =
     rmap (\<lambda>l. case parse_annotation l of None \<Rightarrow> Inl (NotAnnotation l) | Some a \<Rightarrow> Inr a) lines"

definition tail_findings :: "annotation list \<Rightarrow> tail_finding list" where
  "tail_findings anns =
     concat (map check_escaping anns)
     @ (if map kind_rank anns \<noteq> sort (map kind_rank anns) then [NotGrouped] else [])
     @ (let n = length (block NoticeKind anns) in if 1 < n then [ManyNotices n] else [])
     @ check_block ErrorKind anns @ check_block WarningKind anns"

definition check_tail :: "str list \<Rightarrow> annotations_exn + tail_summary" where
  "check_tail lines =
     rbind (parse_tail lines) (\<lambda>anns.
       if tail_findings anns \<noteq> [] then Inl (TailFindings (tail_findings anns))
       else Inr \<lparr> ts_errors = length (block ErrorKind anns), ts_warnings = length (block WarningKind anns),
              ts_notices = length (block NoticeKind anns) \<rparr>)"

section \<open>Fences\<close>

record fence =
  fe_token :: str
  fe_open :: nat
  fe_close :: nat

text \<open>\<open>_STOP_RE\<close> and \<open>_TOKEN_RE\<close>\<close>

definition STOP :: str where
  "STOP = lit ''::stop-commands::''"

definition stop_token :: "str \<Rightarrow> str option" where
  "stop_token line =
     (if startswith line STOP then
        (let t = takeWhile (\<lambda>c. \<not> is_space c) (drop (length STOP) line)
         in if t \<noteq> [] \<and> at_end (drop (length STOP + length t) line) then Some t else None)
      else None)"

definition is_token_char :: "int \<Rightarrow> bool" where
  "is_token_char c \<longleftrightarrow> is_ascii_digit c \<or> (97 \<le> c \<and> c \<le> 102)"

definition strong_token :: "str \<Rightarrow> bool" where
  "strong_token t \<longleftrightarrow>
     (let hex = takeWhile is_token_char t in 32 \<le> length hex \<and> at_end (drop (length hex) t))"

definition resume_line :: "str \<Rightarrow> str" where
  "resume_line t = lit ''::'' @ t @ lit ''::''"

text \<open>The loop of \<open>scan_fences\<close>: the active fence with its first line, and the index of the next line.\<close>

fun scan_loop :: "(str \<times> nat) option \<Rightarrow> nat \<Rightarrow> str list \<Rightarrow> fence list \<times> bool" where
  "scan_loop active n [] = ([], active \<noteq> None)"
| "scan_loop None n (l # ls) = scan_loop (map_option (\<lambda>t. (t, n)) (stop_token l)) (Suc n) ls"
| "scan_loop (Some (t, start)) n (l # ls) =
     (if l = resume_line t
      then (case scan_loop None (Suc n) ls of
              (fs, dangling) \<Rightarrow> (\<lparr> fe_token = t, fe_open = start, fe_close = n \<rparr> # fs, dangling))
      else scan_loop (Some (t, start)) (Suc n) ls)"

definition scan_fences :: "str \<Rightarrow> fence list \<times> bool" where
  "scan_fences console = scan_loop None 0 (split_on 10 console)"

text \<open>\<open>None\<close> is the \<open>-1\<close> of the source.\<close>

fun first_containing :: "str \<Rightarrow> str list \<Rightarrow> nat option" where
  "first_containing needle [] = None"
| "first_containing needle (l # ls) =
     (if contains l needle then Some 0 else map_option Suc (first_containing needle ls))"

definition line_index :: "str \<Rightarrow> str \<Rightarrow> nat option" where
  "line_index console needle = first_containing needle (split_on 10 console)"

definition inside :: "fence list \<Rightarrow> nat \<Rightarrow> bool" where
  "inside fences n \<longleftrightarrow> list_ex (\<lambda>f. fe_open f < n \<and> n < fe_close f) fences"

definition forged_findings :: "str \<Rightarrow> fence list \<Rightarrow> str option \<Rightarrow> fence_finding list" where
  "forged_findings console fences forged =
     (case forged of
        None \<Rightarrow> []
      | Some needle \<Rightarrow>
          (case line_index console needle of
             None \<Rightarrow> [NotEchoed needle]
           | Some n \<Rightarrow> if inside fences n then [] else [NotSealed needle n]))"

definition fence_findings :: "str \<Rightarrow> str option \<Rightarrow> str option \<Rightarrow> bool \<Rightarrow> fence_finding list" where
  "fence_findings console forged seeded require_fence =
     (case scan_fences console of
        (fences, dangling) \<Rightarrow>
          (if dangling then [Dangling] else [])
          @ (if require_fence \<and> fences = [] then [NoFence] else [])
          @ map WeakToken (filter (\<lambda>t. \<not> strong_token t) (map fe_token fences))
          @ (case seeded of
               None \<Rightarrow> []
             | Some t \<Rightarrow> if t \<in> set (map fe_token fences) then [SeededToken t] else [])
          @ forged_findings console fences forged)"

definition check_fencing ::
  "str \<Rightarrow> str option \<Rightarrow> str option \<Rightarrow> bool \<Rightarrow> annotations_exn + nat \<times> str list" where
  "check_fencing console forged seeded require_fence =
     (if fence_findings console forged seeded require_fence \<noteq> []
      then Inl (FenceFindings (fence_findings console forged seeded require_fence))
      else Inr (length (fst (scan_fences console)), sort (remdups (map fe_token (fst (scan_fences console))))))"

definition extract_fence_tokens :: "str \<Rightarrow> str list" where
  "extract_fence_tokens console = map fe_token (fst (scan_fences console))"

definition in_tail :: "str \<Rightarrow> bool" where
  "in_tail line \<longleftrightarrow> parse_annotation line \<noteq> None \<or> annotation_opener line"

definition annotation_tail_outside_fences :: "str \<Rightarrow> str list" where
  "annotation_tail_outside_fences console =
     (let fences = fst (scan_fences console); lines = split_on 10 console
      in map snd (filter (\<lambda>(n, l). in_tail l \<and> \<not> inside fences n) (enumerate 0 lines)))"

text \<open>The command over the text of a capture, decoded with replacement characters.\<close>

definition annotations_main :: "str option \<Rightarrow> int" where
  "annotations_main capture =
     (case capture of
        None \<Rightarrow> 0
      | Some console \<Rightarrow>
          (case rbind (check_fencing console None None False) (\<lambda>_.
                  if annotation_tail_outside_fences console = [] then Inr None
                  else rbind (check_tail (annotation_tail_outside_fences console)) (\<lambda>s. Inr (Some s))) of
             Inl _ \<Rightarrow> 1
           | Inr _ \<Rightarrow> 0))"

section \<open>What an accepted tail says\<close>

definition escaped :: "annotation \<Rightarrow> bool" where
  "escaped a \<longleftrightarrow>
     \<not> has_break (an_message a) \<and> \<not> has_break (an_props a)
     \<and> (an_props a = [] \<or> (\<forall>pair\<in>set (split_on 44 (an_props a)).
          \<exists>k v. pair = k @ [61] @ v \<and> 61 \<notin> set k \<and> 58 \<notin> set v \<and> 44 \<notin> set v))"

lemma before_first: "c \<notin> set a \<Longrightarrow> takeWhile (\<lambda>x. x \<noteq> c) (a @ c # b) = a"
  by (induction a) auto

lemma check_pair_Nil:
  "check_pair k pair = [] \<longleftrightarrow> (\<exists>n v. pair = n @ [61] @ v \<and> 61 \<notin> set n \<and> 58 \<notin> set v \<and> 44 \<notin> set v)"
proof (cases "find1 61 pair")
  case None
  then have "61 \<notin> set pair" by (simp add: find1_None)
  then show ?thesis using None by (auto simp: check_pair_def)
next
  case (Some j)
  define a v where "a = take j pair" and "v = drop (Suc j) pair"
  have j: "pair = a @ 61 # v" "61 \<notin> set a"
    using find1_Some [OF Some] id_take_nth_drop [of j pair] by (auto simp: a_def v_def)
  have same: "n = a \<and> u = v" if "pair = n @ 61 # u" "61 \<notin> set n" for n u
    using that j before_first [OF that(2), of u] before_first [OF j(2), of v] by (metis list.inject same_append_eq)
  have "check_pair k pair = [] \<longleftrightarrow> 58 \<notin> set v \<and> 44 \<notin> set v"
    using Some by (simp add: check_pair_def v_def Let_def)
  also have "\<dots> \<longleftrightarrow> (\<exists>n u. pair = n @ [61] @ u \<and> 61 \<notin> set n \<and> 58 \<notin> set u \<and> 44 \<notin> set u)"
    using j same by (metis append_Cons append_Nil)
  finally show ?thesis .
qed

lemma check_escaping_Nil: "check_escaping a = [] \<longleftrightarrow> escaped a"
  by (auto simp: check_escaping_def escaped_def check_pair_Nil)

lemma grouped_iff:
  "sorted (map kind_rank anns) \<longleftrightarrow>
     anns = filter (\<lambda>a. an_kind a = ErrorKind) anns @ filter (\<lambda>a. an_kind a = WarningKind) anns
       @ filter (\<lambda>a. an_kind a = NoticeKind) anns"
  (is "_ \<longleftrightarrow> anns = ?e anns @ ?w anns @ ?n anns")
proof
  show "sorted (map kind_rank anns) \<Longrightarrow> anns = ?e anns @ ?w anns @ ?n anns"
  proof (induction anns)
    case (Cons a anns)
    then show ?case
      by (cases "an_kind a") (auto simp: kind_rank_def filter_empty_conv split: kind.splits)
  qed simp
  have "sorted (map kind_rank (?e anns @ ?w anns @ ?n anns))"
  proof -
    have "map kind_rank (?e anns) = replicate (length (?e anns)) 0" "map kind_rank (?w anns) = replicate (length (?w anns)) 1"
      "map kind_rank (?n anns) = replicate (length (?n anns)) 2"
      by (simp_all add: map_replicate_const [symmetric] kind_rank_def)
    then show ?thesis by (simp add: sorted_append)
  qed
  then show "anns = ?e anns @ ?w anns @ ?n anns \<Longrightarrow> sorted (map kind_rank anns)" by simp
qed

text \<open>The rows of a block are sorted and may be followed by one roll-up of the rows that were cut.\<close>

definition block_in_order :: "kind \<Rightarrow> str list \<Rightarrow> bool" where
  "block_in_order k b \<longleftrightarrow>
     (\<exists>rows rollup. b = rows @ rollup \<and> length rollup \<le> 1 \<and> (rollup \<noteq> [] \<longrightarrow> rows \<noteq> [])
        \<and> list_all (\<lambda>m. \<not> is_aggregate m k) rows \<and> list_all (\<lambda>m. is_aggregate m k) rollup
        \<and> sorted (map node_id_key rows))"

lemma sort_id_iff: "xs = sort xs \<longleftrightarrow> sorted xs"
  by (metis sorted_sort sorted_sort_id)

lemma check_block_Nil: "check_block k anns = [] \<longleftrightarrow> block_in_order k (block k anns)"
proof
  let ?b = "block k anns" and ?agg = "\<lambda>m. is_aggregate m k"
  let ?rows = "filter (\<lambda>m. \<not> ?agg m) ?b" and ?roll = "filter ?agg ?b"
  assume "check_block k anns = []"
  then have c: "length ?roll \<le> 1" "?roll \<noteq> [] \<Longrightarrow> last ?b = hd ?roll" "?roll \<noteq> [] \<Longrightarrow> ?rows \<noteq> []"
      "sorted (map node_id_key ?rows)"
    by (auto simp: check_block_def Let_def sort_id_iff split: if_splits)
  have "?b = ?rows @ ?roll"
  proof (cases "?roll = []")
    case True
    then show ?thesis by (simp add: filter_empty_conv)
  next
    case False
    then obtain m where m: "?roll = [m]" using c(1) by (cases ?roll) auto
    then have "?b \<noteq> []" by auto
    then have b: "?b = butlast ?b @ [m]" using c(2) [OF False] m by (metis append_butlast_last_id list.sel(1))
    have "m \<in> set ?roll" using m by simp
    then have "?agg m" by simp
    moreover have "filter ?agg (butlast ?b @ [m]) = [m]" using m b by simp
    ultimately have "filter ?agg (butlast ?b) = []" by simp
    then have "filter (\<lambda>x. \<not> ?agg x) (butlast ?b @ [m]) = butlast ?b"
      using \<open>?agg m\<close> by (simp add: filter_empty_conv)
    then show ?thesis using b m by simp
  qed
  then show "block_in_order k ?b"
    using c unfolding block_in_order_def
    by (intro exI [of _ ?rows] exI [of _ ?roll]) (auto simp: list_all_iff)
next
  assume "block_in_order k (block k anns)"
  then obtain rows rollup where b: "block k anns = rows @ rollup" "length rollup \<le> 1" "rollup \<noteq> [] \<longrightarrow> rows \<noteq> []"
      "list_all (\<lambda>m. \<not> is_aggregate m k) rows" "list_all (\<lambda>m. is_aggregate m k) rollup" "sorted (map node_id_key rows)"
    unfolding block_in_order_def by blast
  then have "filter (\<lambda>m. is_aggregate m k) rows = []" "filter (\<lambda>m. \<not> is_aggregate m k) rows = rows"
      "filter (\<lambda>m. is_aggregate m k) rollup = rollup" "filter (\<lambda>m. \<not> is_aggregate m k) rollup = []"
    by (auto simp: filter_empty_conv list_all_iff)
  moreover have "rollup \<noteq> [] \<Longrightarrow> last rollup = hd rollup" using b(2) by (cases rollup) auto
  ultimately show "check_block k anns = []"
    using b by (cases "rollup = []") (simp_all add: check_block_def sort_id_iff)
qed

text \<open>
  The annotation tail: a tail is accepted exactly when every line is an annotation whose payload
  is escaped, the errors come first, then the warnings and at most one notice, and the rows of each
  block are sorted by node id with at most one roll-up after them; the summary counts the three kinds.
\<close>

theorem tail_accepted_iff:
  "check_tail lines = Inr s \<longleftrightarrow>
     (\<exists>anns. list_all2 (\<lambda>l a. parse_annotation l = Some a) lines anns \<and> list_all escaped anns
        \<and> anns = filter (\<lambda>a. an_kind a = ErrorKind) anns @ filter (\<lambda>a. an_kind a = WarningKind) anns
             @ filter (\<lambda>a. an_kind a = NoticeKind) anns
        \<and> length (block NoticeKind anns) \<le> 1
        \<and> block_in_order ErrorKind (block ErrorKind anns) \<and> block_in_order WarningKind (block WarningKind anns)
        \<and> s = \<lparr> ts_errors = length (block ErrorKind anns), ts_warnings = length (block WarningKind anns),
              ts_notices = length (block NoticeKind anns) \<rparr>)"
proof -
  have parsed: "parse_tail lines = Inr anns \<longleftrightarrow> list_all2 (\<lambda>l a. parse_annotation l = Some a) lines anns" for anns
    unfolding parse_tail_def rmap_Inr by (intro list.rel_cong) (auto split: option.splits)
  have found: "tail_findings anns = [] \<longleftrightarrow>
      list_all escaped anns \<and> sorted (map kind_rank anns) \<and> length (block NoticeKind anns) \<le> 1
      \<and> block_in_order ErrorKind (block ErrorKind anns) \<and> block_in_order WarningKind (block WarningKind anns)" for anns
    by (auto simp: tail_findings_def Let_def check_escaping_Nil check_block_Nil sort_id_iff list_all_iff)
  show ?thesis
    by (auto simp: check_tail_def rbind_Inr parsed found grouped_iff split: if_splits)
qed

section \<open>What GitHub reads\<close>

text \<open>
  The reference: GitHub reads the lines in order; \<open>stop-commands\<close> silences every line up to the
  exact resume line of its token, and the silencing and the resuming line are commands of their own.
\<close>

fun live :: "str option \<Rightarrow> str list \<Rightarrow> str list" where
  "live active [] = []"
| "live None (l # ls) =
     (case stop_token l of None \<Rightarrow> l # live None ls | Some t \<Rightarrow> live (Some t) ls)"
| "live (Some t) (l # ls) = (if l = resume_line t then live None ls else live (Some t) ls)"

section \<open>Fences\<close>

lemma scan_loop_opens:
  "scan_loop active n ls = (fs, dangling) \<Longrightarrow> f \<in> set fs \<Longrightarrow>
     (case active of None \<Rightarrow> n \<le> fe_open f | Some (t, start) \<Rightarrow> fe_open f = start \<or> n \<le> fe_open f)
     \<and> n \<le> fe_close f"
proof (induction active n ls arbitrary: fs rule: scan_loop.induct)
  case (2 n l ls)
  then show ?case by (cases "stop_token l") fastforce+
next
  case (3 t start n l ls)
  show ?case
  proof (cases "l = resume_line t")
    case True
    obtain fs' d where r: "scan_loop None (Suc n) ls = (fs', d)" by fastforce
    then have "fs = \<lparr> fe_token = t, fe_open = start, fe_close = n \<rparr> # fs'"
      using 3(3) True by simp
    then show ?thesis using 3(1) [OF True] 3(3,4) True r by fastforce
  next
    case False
    then show ?thesis using 3(2) [OF False] 3(3,4) by fastforce
  qed
qed simp

text \<open>A resume line is no annotation unless its token begins like the name of one.\<close>

lemma active_fence_closes:
  "scan_loop active n ls = (fs, False) \<Longrightarrow> active = Some (t, start) \<Longrightarrow>
     \<exists>f\<in>set fs. fe_open f = start \<and> n \<le> fe_close f"
proof (induction active n ls arbitrary: fs rule: scan_loop.induct)
  case (3 t' start' n l ls)
  show ?case
  proof (cases "l = resume_line t'")
    case True
    then show ?thesis using 3(3,4) by (auto split: prod.splits)
  next
    case False
    then show ?thesis using 3(2) [OF False, of fs] 3(3,4) by fastforce
  qed
qed simp_all

lemma strong_token_resume:
  assumes "strong_token t"
  shows "\<not> in_tail (resume_line t)"
proof -
  obtain c s where "t = c # s" "is_token_char c"
    using assms by (cases t) (auto simp: strong_token_def Let_def split: if_splits)
  moreover have "\<not> (c = 101 \<and> s \<noteq> [] \<and> hd s = 114)"
  proof
    assume "c = 101 \<and> s \<noteq> [] \<and> hd s = 114"
    then have "takeWhile is_token_char t = [c]"
      using \<open>t = c # s\<close> by (cases s) (auto simp: is_token_char_def is_ascii_digit_def)
    with assms show False by (simp add: strong_token_def)
  qed
  ultimately have "kind_prefix (resume_line t) = None"
    by (cases s) (auto simp: kind_prefix_def kind_name_def resume_line_def is_token_char_def is_ascii_digit_def)
  then show ?thesis
    by (simp add: in_tail_def parse_annotation_def annotation_opener_def)
qed

lemma stop_not_tail: "stop_token l = Some t \<Longrightarrow> \<not> in_tail l"
proof -
  assume "stop_token l = Some t"
  then obtain r where "l = STOP @ r" by (auto simp: stop_token_def startswith_iff split: if_splits)
  then have "kind_prefix l = None"
    by (simp add: STOP_def kind_prefix_def kind_name_def)
  then show ?thesis
    by (simp add: in_tail_def parse_annotation_def annotation_opener_def)
qed

text \<open>From any point of a console whose fences close, the lines outside them are the lines GitHub reads.\<close>

lemma inside_Cons: "inside (f # fs) n \<longleftrightarrow> fe_open f < n \<and> n < fe_close f \<or> inside fs n"
  by (simp add: inside_def)

lemma outside_is_live:
  assumes "scan_loop active n ls = (fs, False)" "\<And>f. f \<in> set fs \<Longrightarrow> strong_token (fe_token f)"
    "case active of None \<Rightarrow> True | Some (t, start) \<Rightarrow> start < n"
  shows "map snd (filter (\<lambda>(i, l). in_tail l \<and> \<not> inside fs i) (enumerate n ls))
    = filter in_tail (live (map_option fst active) ls)"
  using assms
proof (induction active n ls arbitrary: fs rule: scan_loop.induct)
  case (2 n l ls)
  have out: "\<not> inside fs n"
    using scan_loop_opens [OF 2(2)] by (fastforce simp: inside_def list_ex_iff)
  show ?case
  proof (cases "stop_token l")
    case None
    with 2 out show ?thesis by simp
  next
    case (Some t)
    have "map snd (filter (\<lambda>(i, l). in_tail l \<and> \<not> inside fs i) (enumerate (Suc n) ls))
      = filter in_tail (live (Some t) ls)"
      using 2(1) [of fs] 2(2,3) Some by simp
    with stop_not_tail [OF Some] Some show ?thesis by simp
  qed
next
  case (3 t start n l ls)
  show ?case
  proof (cases "l = resume_line t")
    case True
    obtain fs' d where r: "scan_loop None (Suc n) ls = (fs', d)" by fastforce
    then have fs: "fs = \<lparr> fe_token = t, fe_open = start, fe_close = n \<rparr> # fs'" "\<not> d"
      using 3(3) True by simp_all
    have "\<not> in_tail l" using 3(4) [of "\<lparr> fe_token = t, fe_open = start, fe_close = n \<rparr>"] fs(1) True strong_token_resume by simp
    moreover have "inside fs i \<longleftrightarrow> inside fs' i" if "n < i" for i
      using that by (simp add: fs(1) inside_Cons)
    then have "filter (\<lambda>(i, l). in_tail l \<and> \<not> inside fs i) (enumerate (Suc n) ls)
        = filter (\<lambda>(i, l). in_tail l \<and> \<not> inside fs' i) (enumerate (Suc n) ls)"
      by (intro filter_cong) (auto simp: in_set_enumerate_eq)
    ultimately show ?thesis
      using 3(1) [OF True, of fs'] r fs 3(4) True by simp
  next
    case False
    have "inside fs n"
      using active_fence_closes [of "Some (t, start)" "Suc n" ls fs t start] 3(3,5) False
      by (fastforce simp: inside_def list_ex_iff)
    with 3(2) [OF False, of fs] 3(3,4,5) False show ?thesis by simp
  qed
qed simp

lemma fence_findings_Nil:
  "fence_findings console forged seeded require_fence = [] \<longleftrightarrow>
     \<not> snd (scan_fences console)
     \<and> (require_fence \<longrightarrow> fst (scan_fences console) \<noteq> [])
     \<and> (\<forall>f\<in>set (fst (scan_fences console)). strong_token (fe_token f) \<and> Some (fe_token f) \<noteq> seeded)
     \<and> (\<forall>needle. forged = Some needle \<longrightarrow>
          (\<exists>n. line_index console needle = Some n \<and> inside (fst (scan_fences console)) n))"
  by (auto simp: fence_findings_def forged_findings_def filter_empty_conv split: prod.splits option.splits)


definition eg_console :: str where
  "eg_console = join_with [10]
     [STOP @ replicate 32 97, lit ''::error::forged'', resume_line (replicate 32 97), lit ''::error::a: b'']"


text \<open>
  Only the first forged line is looked at: a console that echoes the forged text once inside a
  fence and then prints it again outside every fence is accepted, though GitHub reads the second one.
\<close>

definition forging_console :: str where
  "forging_console = join_with [10]
     [STOP @ replicate 32 97, lit ''::error::forged'', resume_line (replicate 32 97), lit ''::error::forged'']"

theorem later_forgery_accepted:
  "check_fencing forging_console (Some (lit ''::error::forged'')) None True = Inr (1, [replicate 32 97])
   \<and> live None (split_on 10 forging_console) = [lit ''::error::forged'']"
  by (intro conjI; code_simp)

end
