(* ===== verification/Literal_Sites.thy ===== *)
theory Literal_Sites
  imports Regex Release_Checks
begin

text \<open>
  The literals a pattern with one group finds in a text, for the version patterns of
  scripts/checks/version.py and scripts/release/bump.py.  A pattern is a function from the character
  before a position and the text from it on to the lengths of what it matches before its group, in
  its group and after it.  The locale states what the patterns have in common: whether and where
  they match depends on the text up to the group and on one character after the match, so a literal
  can be exchanged for another without moving any match.
\<close>

section \<open>Scanning\<close>

type_synonym pattern_at = "int option \<Rightarrow> str \<Rightarrow> (nat \<times> nat \<times> nat) option"

text \<open>The spans of the group, as \<open>[m.span(1) for m in pattern.finditer(text)]\<close>.\<close>

function group_spans :: "pattern_at \<Rightarrow> nat \<Rightarrow> int option \<Rightarrow> str \<Rightarrow> (nat \<times> nat) list" where
  "group_spans at pos prev s =
     (case s of
        [] \<Rightarrow> (case at prev [] of Some (k, n, t) \<Rightarrow> [(pos + k, pos + k + n)] | None \<Rightarrow> [])
      | c # r \<Rightarrow>
          (case at prev s of
             Some (k, n, t) \<Rightarrow>
               (pos + k, pos + k + n) #
               (if k + n + t = 0 then []
                else group_spans at (pos + (k + n + t)) (Some (last (take (k + n + t) s))) (drop (k + n + t) s))
           | None \<Rightarrow> group_spans at (Suc pos) (Some c) r))"
  by pat_completeness auto
termination
  by (relation "measure (\<lambda>(at, pos, prev, s). length s)") auto

declare group_spans.simps [simp del]

definition span_text :: "str \<Rightarrow> nat \<times> nat \<Rightarrow> str" where
  "span_text s span = take (snd span - fst span) (drop (fst span) s)"

text \<open>The captured texts, as \<open>[m.group(1) for m in pattern.finditer(text)]\<close>.\<close>

definition literals :: "pattern_at \<Rightarrow> str \<Rightarrow> str list" where
  "literals at s = map (span_text s) (group_spans at 0 None s)"

definition put_literal :: "str \<Rightarrow> nat \<times> nat \<Rightarrow> str \<Rightarrow> str" where
  "put_literal v span s = take (fst span) s @ v @ drop (snd span) s"

section \<open>The patterns\<close>

definition starts_line :: "int option \<Rightarrow> bool" where
  "starts_line prev \<longleftrightarrow> prev = None \<or> prev = Some 10"

text \<open>A fixed text, then \<open>([^"]*)\<close>, then a fixed text that begins with the quote.\<close>

definition quoted_at :: "bool \<Rightarrow> str \<Rightarrow> str \<Rightarrow> pattern_at" where
  "quoted_at bol p q prev s =
     (if (bol \<longrightarrow> starts_line prev) \<and> startswith s p then
        (let n = length (takeWhile (\<lambda>c. c \<noteq> 34) (drop (length p) s))
         in if startswith (drop (length p + n) s) q then Some (length p, n, length q) else None)
      else None)"

definition MTEST_VERSION_AT :: pattern_at where
  "MTEST_VERSION_AT = quoted_at False (lit ''comptime MTEST_VERSION = \"'') [34]"

definition PIXI_VERSION_AT :: pattern_at where
  "PIXI_VERSION_AT = quoted_at True (lit ''version = \"'') [34]"

definition EXPECTED_VERSION_AT :: pattern_at where
  "EXPECTED_VERSION_AT = quoted_at True (lit ''EXPECTED_VERSION = \"'') [34]"

definition CONTRACT_VERSION_AT :: pattern_at where
  "CONTRACT_VERSION_AT = quoted_at False (lit ''out_has=[\"mtest '') [34, 93]"

text \<open>\<open>(?m)^\\s*version:\\s*"([^"]*)"\<close>\<close>

definition recipe_head :: "str \<Rightarrow> nat option" where
  "recipe_head s =
     (let a = length (takeWhile is_space s) in
      if startswith (drop a s) (lit ''version:'') then
        (let b = a + 8 + length (takeWhile is_space (drop (a + 8) s))
         in if startswith (drop b s) [34] then Some (Suc b) else None)
      else None)"

definition RECIPE_VERSION_AT :: pattern_at where
  "RECIPE_VERSION_AT prev s =
     (if starts_line prev then
        (case recipe_head s of
           None \<Rightarrow> None
         | Some k \<Rightarrow>
             let n = length (takeWhile (\<lambda>c. c \<noteq> 34) (drop k s))
             in if k + n < length s then Some (k, n, 1) else None)
      else None)"

text \<open>
  \<open>mtest (\\d+\\.\\d+\\.\\d+)(?![\\d.])\<close>: the lookahead makes the group the whole run of digits and dots.
\<close>

definition digit_or_dot :: "int \<Rightarrow> bool" where
  "digit_or_dot c \<longleftrightarrow> is_digit c \<or> c = 46"

definition three_numbers :: "str \<Rightarrow> bool" where
  "three_numbers s \<longleftrightarrow> length (split_on 46 s) = 3 \<and> list_all (\<lambda>p. p \<noteq> [] \<and> list_all is_digit p) (split_on 46 s)"

definition TRANSCRIPT_AT :: pattern_at where
  "TRANSCRIPT_AT prev s =
     (if startswith s (lit ''mtest '') then
        (let v = takeWhile digit_or_dot (drop 6 s) in if three_numbers v then Some (6, length v, 0) else None)
      else None)"

section \<open>What the patterns have in common\<close>

definition same_start :: "str \<Rightarrow> str \<Rightarrow> bool" where
  "same_start a b \<longleftrightarrow> take 1 a = take 1 b"

definition same_side :: "int option \<Rightarrow> int option \<Rightarrow> bool" where
  "same_side p q \<longleftrightarrow> p = q \<or> (p \<noteq> None \<and> q \<noteq> None \<and> p \<noteq> Some 10 \<and> q \<noteq> Some 10)"

locale site_pattern =
  fixes at :: pattern_at
  assumes fits: "at prev s = Some (k, n, t) \<Longrightarrow> 0 < k \<and> k + n + t \<le> length s"
    and no_break: "at prev s = Some (k, n, t) \<Longrightarrow> last (take (k + n + t) s) \<noteq> 10"
    and exchange: "at prev s = Some (k, n, t) \<Longrightarrow> is_version v \<Longrightarrow> same_start (drop (k + n + t) s) r \<Longrightarrow>
        at prev (take k s @ v @ take t (drop (k + n) s) @ r) = Some (k, length v, t)"
    and gap: "at prev (g @ s) = None \<Longrightarrow> g \<noteq> [] \<Longrightarrow> at (Some (last g)) s = Some (k, n, t) \<Longrightarrow>
        at prev (g @ take k s @ r) = None"
    and side: "same_side p q \<Longrightarrow> at p s = at q s"

text \<open>The text with every literal exchanged, from the left.\<close>

function exchanged :: "pattern_at \<Rightarrow> str \<Rightarrow> int option \<Rightarrow> str \<Rightarrow> str" where
  "exchanged at v prev s =
     (case s of
        [] \<Rightarrow> []
      | c # r \<Rightarrow>
          (case at prev s of
             Some (k, n, t) \<Rightarrow>
               if k + n + t = 0 then s
               else take k s @ v @ take t (drop (k + n) s)
                 @ exchanged at v (Some (last (take (k + n + t) s))) (drop (k + n + t) s)
           | None \<Rightarrow> c # exchanged at v (Some c) r))"
  by pat_completeness auto
termination
  by (relation "measure (\<lambda>(at, v, prev, s). length s)") auto

declare exchanged.simps [simp del]

context site_pattern begin

lemma empty_text: "at prev [] = None"
  using fits [of prev "[]"] by (cases "at prev []") auto

lemma exchanged_Nil [simp]: "exchanged at v prev [] = []"
  by (simp add: exchanged.simps)

lemma spans_Nil [simp]: "group_spans at pos prev [] = []"
  by (simp add: group_spans.simps empty_text)

lemma step_None:
  assumes "at prev (c # r) = None"
  shows "exchanged at v prev (c # r) = c # exchanged at v (Some c) r"
    "group_spans at pos prev (c # r) = group_spans at (Suc pos) (Some c) r"
  using assms by (simp_all add: exchanged.simps [of at v prev] group_spans.simps [of at pos prev])

lemma step_Some:
  assumes "at prev s = Some (k, n, t)"
  shows "exchanged at v prev s = take k s @ v @ take t (drop (k + n) s)
      @ exchanged at v (Some (last (take (k + n + t) s))) (drop (k + n + t) s)"
    "group_spans at pos prev s = (pos + k, pos + k + n)
      # group_spans at (pos + (k + n + t)) (Some (last (take (k + n + t) s))) (drop (k + n + t) s)"
  using fits [OF assms] assms
  by (cases s; simp add: exchanged.simps [of at v prev] group_spans.simps [of at pos prev])+

text \<open>Putting the literals from right to left is exchanging them from left to right.\<close>

lemma put_all:
  "length pre = pos \<Longrightarrow>
     fold (put_literal v) (rev (group_spans at pos prev s)) (pre @ s) = pre @ exchanged at v prev s"
proof (induction "length s" arbitrary: pos pre prev s rule: less_induct)
  case less
  show ?case
  proof (cases s)
    case (Cons c r)
    show ?thesis
    proof (cases "at prev s")
      case None
      then have "fold (put_literal v) (rev (group_spans at pos prev s)) (pre @ s)
          = fold (put_literal v) (rev (group_spans at (Suc pos) (Some c) r)) ((pre @ [c]) @ r)"
        using Cons by (simp add: step_None)
      also have "\<dots> = (pre @ [c]) @ exchanged at v (Some c) r"
        using less Cons by (intro less(1)) auto
      finally show ?thesis using None Cons by (simp add: step_None)
    next
      case (Some m)
      then obtain k n t where m: "at prev s = Some (k, n, t)" by (cases m) auto
      let ?w = "k + n + t" and ?rest = "exchanged at v (Some (last (take (k + n + t) s))) (drop (k + n + t) s)"
      have w: "0 < k" "?w \<le> length s" using fits [OF m] by auto
      have "fold (put_literal v) (rev (group_spans at (pos + ?w) (Some (last (take ?w s))) (drop ?w s)))
          ((pre @ take ?w s) @ drop ?w s) = (pre @ take ?w s) @ ?rest"
        using less w by (intro less(1)) auto
      then have "fold (put_literal v) (rev (group_spans at pos prev s)) (pre @ s)
          = put_literal v (pos + k, pos + k + n) (pre @ take ?w s @ ?rest)"
        by (simp add: step_Some(2) [OF m])
      also have "\<dots> = pre @ take k s @ v @ take t (drop (k + n) s) @ ?rest"
        using less(2) w by (simp add: put_literal_def drop_take min_def add.commute)
      finally show ?thesis by (simp add: step_Some(1) [OF m])
    qed
  qed simp
qed

text \<open>An exchanged text begins like the original and goes on unchanged up to its first literal.\<close>

lemma exchanged_shape:
  "(\<forall>pos. group_spans at pos prev s = []) \<and> exchanged at v prev s = s
   \<or> (\<exists>g s' k n t r. s = g @ s' \<and> at (if g = [] then prev else Some (last g)) s' = Some (k, n, t)
        \<and> exchanged at v prev s = g @ take k s' @ r)"
proof (induction s arbitrary: prev)
  case (Cons c s)
  show ?case
  proof (cases "at prev (c # s)")
    case None
    from Cons.IH [of "Some c"] consider
        "\<forall>pos. group_spans at pos (Some c) s = []" "exchanged at v (Some c) s = s"
      | g s' k n t r where "s = g @ s'" "at (if g = [] then Some c else Some (last g)) s' = Some (k, n, t)"
          "exchanged at v (Some c) s = g @ take k s' @ r"
      by blast
    then show ?thesis
    proof cases
      case 1
      then show ?thesis using None by (simp add: step_None)
    next
      case 2
      then show ?thesis
        using None by (intro disjI2 exI [of _ "c # g"] exI [of _ s'] exI [of _ k] exI [of _ n] exI [of _ t] exI [of _ r])
          (auto simp: step_None)
    qed
  next
    case (Some m)
    then obtain k n t where "at prev (c # s) = Some (k, n, t)" by (cases m) auto
    then show ?thesis
      by - (rule disjI2, rule exI [of _ "[]"], rule exI [of _ "c # s"], rule exI [of _ k], rule exI [of _ n],
          rule exI [of _ t], auto simp: step_Some(1))
  qed
qed simp

lemma exchanged_start: "same_start s (exchanged at v prev s)"
proof (cases "at prev s")
  case None
  then show ?thesis by (cases s) (simp_all add: step_None same_start_def)
next
  case (Some m)
  then obtain k n t where m: "at prev s = Some (k, n, t)" by (cases m) auto
  obtain c r i where "s = c # r" "k = Suc i"
    using fits [OF m] by (cases s; cases k) auto
  with step_Some(1) [OF m, of v] show ?thesis by (simp add: same_start_def)
qed

text \<open>The spans of a text shift with its place.\<close>

lemma spans_shift: "group_spans at (pos + d) prev s = map (map_prod ((+) d) ((+) d)) (group_spans at pos prev s)"
proof (induction "length s" arbitrary: pos prev s rule: less_induct)
  case less
  show ?case
  proof (cases s)
    case (Cons c r)
    show ?thesis
    proof (cases "at prev s")
      case None
      then show ?thesis using less [of r "Suc pos" "Some c"] Cons by (simp add: step_None)
    next
      case (Some m)
      then obtain k n t where m: "at prev s = Some (k, n, t)" by (cases m) auto
      have "length (drop (k + n + t) s) < length s" using fits [OF m] by auto
      from less [OF this, of "pos + (k + n + t)" "Some (last (take (k + n + t) s))"] show ?thesis
        by (simp add: step_Some(2) [OF m] ac_simps)
    qed
  qed simp
qed

lemma span_text_shift: "length pre = d \<Longrightarrow> span_text (pre @ s) (map_prod ((+) d) ((+) d) sp) = span_text s sp"
  by (cases sp) (simp add: span_text_def)

text \<open>Every literal of an exchanged text is the new one, and there are as many as before.\<close>

definition found :: "int option \<Rightarrow> str \<Rightarrow> str list" where
  "found prev s = map (span_text s) (group_spans at 0 prev s)"

lemma found_None: "at prev (c # r) = None \<Longrightarrow> found prev (c # r) = found (Some c) r"
proof -
  assume "at prev (c # r) = None"
  then have "group_spans at 0 prev (c # r) = map (map_prod ((+) 1) ((+) 1)) (group_spans at 0 (Some c) r)"
    using spans_shift [of 0 1 "Some c" r] by (simp add: step_None)
  then show ?thesis
    using span_text_shift [of "[c]" 1 r] by (simp add: found_def)
qed

lemma found_Some:
  assumes "at prev s = Some (k, n, t)"
  shows "found prev s = take n (drop k s) # found (Some (last (take (k + n + t) s))) (drop (k + n + t) s)"
proof -
  let ?w = "k + n + t"
  have "length (take ?w s) = ?w" using fits [OF assms] by simp
  from span_text_shift [OF this, of "drop ?w s"]
  have "map (span_text s) (group_spans at ?w (Some (last (take ?w s))) (drop ?w s))
      = found (Some (last (take ?w s))) (drop ?w s)"
    using spans_shift [of 0 ?w "Some (last (take ?w s))" "drop ?w s"] by (simp add: found_def)
  then show ?thesis
    using step_Some(2) [OF assms, of 0] by (simp add: found_def span_text_def)
qed

text \<open>A position without a match stays one, and a match stays with the new literal in its group.\<close>

lemma still_None:
  assumes "at p (c # r) = None" "same_side p q"
  shows "at q (c # exchanged at v (Some c) r) = None"
  using exchanged_shape [of "Some c" r v]
proof (elim disjE exE conjE)
  assume "exchanged at v (Some c) r = r"
  then show ?thesis using assms(1) side [OF assms(2)] by simp
next
  fix g s' k n t u
  assume "r = g @ s'" "at (if g = [] then Some c else Some (last g)) s' = Some (k, n, t)"
    "exchanged at v (Some c) r = g @ take k s' @ u"
  then show ?thesis
    using gap [of q "c # g" s' k n t u] assms(1) side [OF assms(2)] by (auto split: if_splits)
qed

lemma new_match:
  assumes "at p s = Some (k, n, t)" "same_side p q" "is_version v"
  defines "tail \<equiv> exchanged at v (Some (last (take (k + n + t) s))) (drop (k + n + t) s)"
  defines "new \<equiv> take k s @ v @ take t (drop (k + n) s) @ tail"
  shows "at q new = Some (k, length v, t)" "drop (k + length v + t) new = tail"
    "same_side (Some (last (take (k + n + t) s))) (Some (last (take (k + length v + t) new)))"
proof -
  show new: "at q new = Some (k, length v, t)"
    unfolding new_def tail_def using exchange [OF assms(1) assms(3) exchanged_start] side [OF assms(2)] by simp
  show "drop (k + length v + t) new = tail"
    unfolding new_def using fits [OF assms(1)] by (simp add: min_def)
  have "last (take (k + n + t) s) \<noteq> 10" "last (take (k + length v + t) new) \<noteq> 10"
    using no_break assms(1) new by blast+
  then show "same_side (Some (last (take (k + n + t) s))) (Some (last (take (k + length v + t) new)))"
    by (simp add: same_side_def)
qed

lemma found_exchanged:
  assumes "is_version v"
  shows "same_side p q \<Longrightarrow> found q (exchanged at v p s) = replicate (length (found p s)) v"
proof (induction "length s" arbitrary: p q s rule: less_induct)
  case less
  show ?case
  proof (cases s)
    case Nil
    then show ?thesis by (simp add: found_def)
  next
    case (Cons c r)
    show ?thesis
    proof (cases "at p s")
      case None
      moreover have "found (Some c) (exchanged at v (Some c) r) = replicate (length (found (Some c) r)) v"
        using less Cons by (simp add: same_side_def)
      ultimately show ?thesis
        using still_None [of p c r q v] less(2) Cons by (simp add: step_None found_None)
    next
      case (Some m)
      then obtain k n t where m: "at p s = Some (k, n, t)" by (cases m) auto
      note new = new_match [OF m less(2) assms]
      have w: "0 < k" "k + n + t \<le> length s" using fits [OF m] by auto
      then have "length (drop (k + n + t) s) < length s" by simp
      from less(1) [OF this new(3)] show ?thesis
        using found_Some [OF new(1)] new(2) w by (simp add: found_Some [OF m] step_Some(1) [OF m])
    qed
  qed
qed

text \<open>Exchanging twice is exchanging once, and exchanging for the literals found changes nothing.\<close>

lemma exchanged_twice:
  assumes "is_version v"
  shows "same_side p q \<Longrightarrow> exchanged at w q (exchanged at v p s) = exchanged at w p s"
proof (induction "length s" arbitrary: p q s rule: less_induct)
  case less
  show ?case
  proof (cases s)
    case (Cons c r)
    show ?thesis
    proof (cases "at p s")
      case None
      moreover have "exchanged at w (Some c) (exchanged at v (Some c) r) = exchanged at w (Some c) r"
        using less Cons by (simp add: same_side_def)
      ultimately show ?thesis
        using still_None [of p c r q v] less(2) Cons by (simp add: step_None)
    next
      case (Some m)
      then obtain k n t where m: "at p s = Some (k, n, t)" by (cases m) auto
      note new = new_match [OF m less(2) assms]
      have w: "0 < k" "k + n + t \<le> length s" using fits [OF m] by auto
      then have "length (drop (k + n + t) s) < length s" by simp
      from less(1) [OF this new(3)] show ?thesis
        using step_Some(1) [OF new(1), of w] new(2) w by (simp add: step_Some(1) [OF m])
    qed
  qed simp
qed

lemma exchanged_same: "set (found p s) \<subseteq> {w} \<Longrightarrow> exchanged at w p s = s"
proof (induction "length s" arbitrary: p s rule: less_induct)
  case less
  show ?case
  proof (cases s)
    case (Cons c r)
    show ?thesis
    proof (cases "at p s")
      case None
      then show ?thesis using less Cons by (simp add: step_None found_None)
    next
      case (Some m)
      then obtain k n t where m: "at p s = Some (k, n, t)" by (cases m) auto
      then have "length (drop (k + n + t) s) < length s" using fits [OF m] by auto
      then have "exchanged at w (Some (last (take (k + n + t) s))) (drop (k + n + t) s) = drop (k + n + t) s"
        using less m by (simp add: found_Some)
      moreover have "w = take n (drop k s)" using less(2) by (simp add: found_Some [OF m])
      moreover have "take k s @ take n (drop k s) @ take t (drop (k + n) s) @ drop (k + n + t) s = s"
        by (metis append_take_drop_id add.commute drop_drop)
      ultimately show ?thesis by (simp add: step_Some(1) [OF m])
    qed
  qed simp
qed

lemma literals_exchanged:
  assumes "is_version v"
  shows "literals at (fold (put_literal v) (rev (group_spans at 0 None s)) s) = replicate (length (literals at s)) v"
  using found_exchanged [OF assms, of None None s] put_all [of "[]" 0 v None s]
  by (simp add: literals_def found_def same_side_def)

lemma put_back:
  assumes "is_version v" "set (literals at s) \<subseteq> {w}"
  shows "fold (put_literal w) (rev (group_spans at 0 None (exchanged at v None s))) (exchanged at v None s) = s"
  using put_all [of "[]" 0 w None "exchanged at v None s"] exchanged_twice [OF assms(1), of None None w s]
    exchanged_same [of None s w] assms(2)
  by (simp add: found_def literals_def same_side_def)

lemma put_is_exchange: "fold (put_literal v) (rev (group_spans at 0 None s)) s = exchanged at v None s"
  using put_all [of "[]" 0 v None s] by simp

end

text \<open>What a text holds after its literals were put.\<close>

lemma put_literals_set: "set (fold (put_literal v) spans s) \<subseteq> set s \<union> set v"
proof (induction spans arbitrary: s)
  case (Cons sp spans)
  have "set (put_literal v sp s) \<subseteq> set s \<union> set v"
    using set_take_subset set_drop_subset by (fastforce simp: put_literal_def)
  with Cons [of "put_literal v sp s"] show ?case by auto
qed simp

section \<open>The patterns are site patterns\<close>

lemma join_with_set: "c \<in> set (join_with sep xs) \<Longrightarrow> c \<in> set sep \<or> (\<exists>x\<in>set xs. c \<in> set x)"
  by (induction sep xs rule: join_with.induct) auto

lemma version_chars:
  assumes "is_version v"
  shows "v \<noteq> [] \<and> (\<forall>c\<in>set v. is_ascii_digit c \<or> c = 46)"
proof -
  have "\<forall>x\<in>set (split_on 46 v). \<forall>c\<in>set x. is_ascii_digit c"
    using assms by (auto simp: is_version_def numeric_part_def list_all_iff)
  then have "is_ascii_digit c \<or> c = 46" if "c \<in> set v" for c
    using join_with_set [of c "[46]" "split_on 46 v"] that by (auto simp: join_split)
  then show ?thesis using assms by (auto simp: is_version_def)
qed

lemma version_plain: "is_version v \<Longrightarrow> 34 \<notin> set v \<and> 10 \<notin> set v"
  using version_chars [of v] by (auto simp: is_ascii_digit_def)

lemma same_side_starts: "same_side p q \<Longrightarrow> starts_line p = starts_line q"
  by (auto simp: same_side_def starts_line_def)

lemma takeWhile_before: "\<not> P c \<Longrightarrow> \<forall>x\<in>set a. P x \<Longrightarrow> takeWhile P (a @ c # b) = a"
  by (induction a) auto

lemma longer_split:
  assumes "length b \<le> length a" "a @ r = b @ r'"
  obtains z where "a = b @ z"
proof
  have "take (length b) (a @ r) = b" unfolding assms(2) by simp
  then have "take (length b) a = b" using assms(1) by simp
  then show "a = b @ drop (length b) a" by (metis append_take_drop_id)
qed

lemma quoted_at_iff:
  "quoted_at bol p (34 # q) prev s = Some (k, n, t) \<longleftrightarrow>
     (bol \<longrightarrow> starts_line prev) \<and> k = length p \<and> t = Suc (length q)
     \<and> (\<exists>v r. s = p @ v @ (34 # q) @ r \<and> n = length v \<and> 34 \<notin> set v)"
  (is "?l \<longleftrightarrow> ?r")
proof
  assume l: ?l
  then obtain s' where s: "s = p @ s'" by (auto simp: quoted_at_def startswith_iff split: if_splits)
  define v where "v = takeWhile (\<lambda>c. c \<noteq> 34) s'"
  from l s obtain r where r: "drop (length v) s' = (34 # q) @ r" "n = length v"
    by (auto simp: quoted_at_def startswith_iff Let_def v_def split: if_splits)
  moreover have "s' = v @ drop (length v) s'" by (simp add: v_def dropWhile_eq_drop [symmetric])
  moreover have "34 \<notin> set v" by (auto simp: v_def dest: set_takeWhileD)
  ultimately have "s = p @ v @ (34 # q) @ r \<and> n = length v \<and> 34 \<notin> set v" using s by simp
  with l show ?r
    by (auto simp: quoted_at_def Let_def split: if_splits)
next
  assume ?r
  then obtain v r where "s = p @ v @ (34 # q) @ r" "n = length v" "34 \<notin> set v"
      "bol \<longrightarrow> starts_line prev" "k = length p" "t = Suc (length q)"
    by blast
  moreover have "takeWhile (\<lambda>c. c \<noteq> 34) (v @ 34 # q @ r) = v"
    using \<open>34 \<notin> set v\<close> by (intro takeWhile_before) auto
  ultimately show ?l by (simp add: quoted_at_def Let_def)
qed

text \<open>
  A quote in the leading text keeps a match that starts earlier from reaching the literal; \<open>y\<close> is
  its place.
\<close>

lemma quoted_site:
  assumes "y + Suc (length q) \<le> length p" "p ! y = 34" "10 \<notin> set q"
    "\<And>d. 0 < d \<Longrightarrow> d + y < length p \<Longrightarrow> p ! d \<noteq> p ! 0"
  shows "site_pattern (quoted_at bol p (34 # q))"
proof
  fix prev s k n t
  assume "quoted_at bol p (34 # q) prev s = Some (k, n, t)"
  then obtain v r where m: "s = p @ v @ (34 # q) @ r" "n = length v" "34 \<notin> set v"
      "bol \<longrightarrow> starts_line prev" "k = length p" "t = Suc (length q)"
    by (auto simp: quoted_at_iff)
  show "0 < k \<and> k + n + t \<le> length s" using m assms(1) by auto
  have "take (k + n + t) s = p @ v @ 34 # q" using m by simp
  then show "last (take (k + n + t) s) \<noteq> 10" using assms(3) by (cases q rule: rev_cases) auto
  fix w u
  assume "is_version w"
  then show "quoted_at bol p (34 # q) prev (take k s @ w @ take t (drop (k + n) s) @ u) = Some (k, length w, t)"
    using m version_plain by (auto simp: quoted_at_iff)
next
  fix prev and g s r :: str and k n t
  assume none: "quoted_at bol p (34 # q) prev (g @ s) = None" and g: "g \<noteq> []"
    and "quoted_at bol p (34 # q) (Some (last g)) s = Some (k, n, t)"
  then obtain v u where s: "s = p @ v @ (34 # q) @ u" "k = length p"
    by (auto simp: quoted_at_iff)
  show "quoted_at bol p (34 # q) prev (g @ take k s @ r) = None"
  proof (rule ccontr)
    assume "quoted_at bol p (34 # q) prev (g @ take k s @ r) \<noteq> None"
    then obtain v2 r2 where m: "g @ p @ r = (p @ v2 @ 34 # q) @ r2" "34 \<notin> set v2" "bol \<longrightarrow> starts_line prev"
      using s by (auto simp: quoted_at_iff)
    let ?e = "length p + length v2"
    have y: "(g @ p @ r) ! (length g + y) = 34" using assms(1,2) by (simp add: nth_append)
    have "?e + Suc (length q) \<le> length (g @ p)"
    proof (rule ccontr)
      assume far: "\<not> ?e + Suc (length q) \<le> length (g @ p)"
      show False
      proof (cases "length p \<le> length g + y")
        case True
        then have "length g + y - length p < length v2" using far assms(1) by simp
        then have "v2 ! (length g + y - length p) = 34"
          using y True unfolding m(1) by (simp add: nth_append)
        then show False using m(2) \<open>length g + y - length p < length v2\<close> nth_mem by fastforce
      next
        case False
        then have "length g < length p" by simp
        then have "p ! length g = (g @ p @ r) ! length g" unfolding m(1) by (simp add: nth_append)
        also have "\<dots> = p ! 0" using False by (cases p) (simp_all add: nth_append)
        finally show False using assms(4) [of "length g"] g False by simp
      qed
    qed
    then have "length (p @ v2 @ 34 # q) \<le> length (g @ p)" by simp
    moreover have "(g @ p) @ r = (p @ v2 @ 34 # q) @ r2" using m(1) by simp
    ultimately obtain z where "g @ p = (p @ v2 @ 34 # q) @ z"
      by (rule longer_split)
    then have "g @ s = p @ v2 @ (34 # q) @ z @ v @ (34 # q) @ u" using s by (metis append_assoc)
    then have "quoted_at bol p (34 # q) prev (g @ s) = Some (length p, length v2, Suc (length q))"
      using m(2,3) by (auto simp: quoted_at_iff)
    with none show False by simp
  qed
next
  fix a b :: "int option" and s :: str
  assume "same_side a b"
  then show "quoted_at bol p (34 # q) a s = quoted_at bol p (34 # q) b s"
    by (simp add: quoted_at_def same_side_starts)
qed

lemma quote_last:
  assumes "p \<noteq> []" "last p = 34"
  shows "site_pattern (quoted_at bol p [34])"
proof (rule quoted_site [where y = "length p - 1" and q = "[]"])
  show "p ! (length p - 1) = 34" using assms by (simp add: last_conv_nth)
qed (use assms in \<open>auto simp: Suc_le_eq\<close>)

interpretation mtest_version: site_pattern MTEST_VERSION_AT
  unfolding MTEST_VERSION_AT_def by (rule quote_last) simp_all

interpretation pixi_version: site_pattern PIXI_VERSION_AT
  unfolding PIXI_VERSION_AT_def by (rule quote_last) simp_all

interpretation expected_version: site_pattern EXPECTED_VERSION_AT
  unfolding EXPECTED_VERSION_AT_def by (rule quote_last) simp_all

interpretation contract_version: site_pattern CONTRACT_VERSION_AT
  unfolding CONTRACT_VERSION_AT_def
proof (rule quoted_site [where y = 9])
  fix d :: nat
  assume "0 < d" "d + 9 < length (lit ''out_has=[\"mtest '')"
  then have "d \<in> {1, 2, 3, 4, 5, 6}" by (auto simp: length_lit)
  then show "lit ''out_has=[\"mtest '' ! d \<noteq> lit ''out_has=[\"mtest '' ! 0" by auto
qed simp_all

section \<open>The recipe's pattern\<close>

definition head_text :: "str \<Rightarrow> bool" where
  "head_text h \<longleftrightarrow> (\<exists>a b. h = a @ lit ''version:'' @ b @ [34] \<and> list_all is_space a \<and> list_all is_space b)"

lemma takeWhile_all_before: "list_all P a \<Longrightarrow> \<not> P c \<Longrightarrow> takeWhile P (a @ c # b) = a"
  by (induction a) auto

lemma takeWhile_split: obtains a where "s = a @ drop (length (takeWhile P s)) s" "list_all P a" "a = takeWhile P s"
  by (metis append_take_drop_id takeWhile_eq_take list_all_iff set_takeWhileD)

lemma recipe_head_iff: "recipe_head s = Some k \<longleftrightarrow> (\<exists>h r. s = h @ r \<and> head_text h \<and> k = length h)"
proof
  assume l: "recipe_head s = Some k"
  obtain a where a: "s = a @ drop (length a) s" "list_all is_space a" "a = takeWhile is_space s"
    by (rule takeWhile_split [of s is_space]) simp
  with l obtain u where "drop (length a) s = lit ''version:'' @ u"
    by (auto simp: recipe_head_def Let_def startswith_iff split: if_splits)
  with a(1) have u: "s = a @ lit ''version:'' @ u" by metis
  then have u_eq: "drop (length a + 8) s = u" by simp
  obtain b where b: "u = b @ drop (length b) u" "list_all is_space b" "b = takeWhile is_space u"
    by (rule takeWhile_split [of u is_space]) simp
  have "drop (length b + (length a + 8)) s = drop (length b) u" using u_eq by (metis drop_drop)
  then have "drop (length a + 8 + length b) s = drop (length b) u" by (simp add: add.commute)
  with l b(3) have q: "startswith (drop (length b) u) [34]" "k = length a + 8 + length b + 1"
    unfolding recipe_head_def Let_def a(3) [symmetric] u_eq by (auto split: if_splits)
  then obtain r where "drop (length b) u = 34 # r" by (auto simp: startswith_iff)
  with b(1) have "u = b @ 34 # r" by metis
  with u q a(2) b(2) show "\<exists>h r. s = h @ r \<and> head_text h \<and> k = length h"
    by - (rule exI [of _ "a @ lit ''version:'' @ b @ [34]"], rule exI [of _ r], auto simp: head_text_def)
next
  assume "\<exists>h r. s = h @ r \<and> head_text h \<and> k = length h"
  then obtain a b r where s: "s = a @ lit ''version:'' @ b @ 34 # r" "list_all is_space a" "list_all is_space b"
      "k = length a + 8 + length b + 1"
    by (auto simp: head_text_def)
  have "takeWhile is_space s = a" "takeWhile is_space (b @ 34 # r) = b"
    using s by (auto intro!: takeWhile_all_before simp: is_space_def)
  moreover have "drop (length (a @ lit ''version:'' @ b)) s = 34 # r"
    using s(1) by (metis append_assoc append_eq_conv_conj)
  then have "drop (length b + (length a + 8)) s = 34 # r"
    by (simp add: eval_nat_numeral ac_simps)
  ultimately show "recipe_head s = Some k"
    using s by (simp add: recipe_head_def Let_def ac_simps)
qed

lemma head_quote: "head_text h \<Longrightarrow> h \<noteq> [] \<and> last h = 34 \<and> 34 \<notin> set (butlast h)"
proof -
  assume "head_text h"
  then obtain a b where h: "h = a @ lit ''version:'' @ b @ [34]" "list_all is_space a" "list_all is_space b"
    by (auto simp: head_text_def)
  have "34 \<notin> set a" "34 \<notin> set b" using h(2,3) by (auto simp: list_all_iff is_space_def)
  then show ?thesis using h(1) by (auto simp: butlast_append)
qed

lemma recipe_at_iff:
  "RECIPE_VERSION_AT prev s = Some (k, n, t) \<longleftrightarrow>
     starts_line prev \<and> t = 1 \<and> (\<exists>h v r. s = h @ v @ 34 # r \<and> head_text h \<and> k = length h \<and> n = length v \<and> 34 \<notin> set v)"
  (is "?l \<longleftrightarrow> ?r")
proof
  assume l: ?l
  then have "recipe_head s = Some k" "t = 1" "starts_line prev"
    by (auto simp: RECIPE_VERSION_AT_def Let_def split: if_splits option.splits)
  moreover from this obtain h u where "s = h @ u" "head_text h" "k = length h"
    by (auto simp: recipe_head_iff)
  ultimately have h: "s = h @ u" "head_text h" "k = length h" "t = 1" "starts_line prev" "recipe_head s = Some k"
    by simp_all
  obtain v where v: "u = v @ drop (length v) u" "list_all (\<lambda>c. c \<noteq> 34) v" "v = takeWhile (\<lambda>c. c \<noteq> 34) u"
    by (rule takeWhile_split [of u "\<lambda>c. c \<noteq> 34"]) simp
  have n: "n = length v" "k + n < length s"
    using l h v(3) by (auto simp: RECIPE_VERSION_AT_def Let_def split: if_splits)
  then have "length v < length u" using h by simp
  then have "u ! length v = 34" using nth_length_takeWhile v(3) by blast
  then obtain r where "drop (length v) u = 34 # r"
    using \<open>length v < length u\<close> by (metis Cons_nth_drop_Suc)
  with v(1) have "u = v @ 34 # r" by metis
  with h v(2) n show ?r by (auto simp: list_all_iff)
next
  assume ?r
  then obtain h v r where s: "s = h @ v @ 34 # r" "head_text h" "k = length h" "n = length v" "34 \<notin> set v"
      "starts_line prev" "t = 1"
    by blast
  moreover have "takeWhile (\<lambda>c. c \<noteq> 34) (v @ 34 # r) = v"
    using s by (intro takeWhile_before) auto
  moreover have "recipe_head s = Some k" using s by (auto simp: recipe_head_iff)
  ultimately show ?l by (simp add: RECIPE_VERSION_AT_def Let_def)
qed

interpretation recipe_version: site_pattern RECIPE_VERSION_AT
proof
  fix prev s k n t
  assume "RECIPE_VERSION_AT prev s = Some (k, n, t)"
  then obtain h v r where m: "starts_line prev" "t = 1" "s = h @ v @ 34 # r" "head_text h" "k = length h"
      "n = length v" "34 \<notin> set v"
    by (auto simp: recipe_at_iff)
  show "0 < k \<and> k + n + t \<le> length s" using m head_quote by auto
  have "take (k + n + t) s = (h @ v) @ [34]" using m by simp
  then show "last (take (k + n + t) s) \<noteq> 10" by simp
  fix w u
  assume "is_version w"
  then show "RECIPE_VERSION_AT prev (take k s @ w @ take t (drop (k + n) s) @ u) = Some (k, length w, t)"
    using m version_plain by (auto simp: recipe_at_iff)
next
  fix prev and g s r :: str and k n t
  assume none: "RECIPE_VERSION_AT prev (g @ s) = None"
    and "RECIPE_VERSION_AT (Some (last g)) s = Some (k, n, t)"
  then obtain h v u where s: "s = h @ v @ 34 # u" "head_text h" "k = length h" "34 \<notin> set v"
    by (auto simp: recipe_at_iff)
  show "RECIPE_VERSION_AT prev (g @ take k s @ r) = None"
  proof (rule ccontr)
    assume "RECIPE_VERSION_AT prev (g @ take k s @ r) \<noteq> None"
    then obtain h2 v2 r2 where m: "g @ h @ r = h2 @ v2 @ 34 # r2" "head_text h2" "34 \<notin> set v2" "starts_line prev"
      using s by (auto simp: recipe_at_iff)
    have "\<exists>h2 v2 r2. g @ s = h2 @ v2 @ 34 # r2 \<and> head_text h2 \<and> 34 \<notin> set v2"
    proof (cases "length (h2 @ v2 @ [34]) \<le> length (g @ h)")
      case True
      moreover have "(g @ h) @ r = (h2 @ v2 @ [34]) @ r2" using m(1) by simp
      ultimately obtain z where "g @ h = (h2 @ v2 @ [34]) @ z" by (rule longer_split)
      then have "g @ s = h2 @ v2 @ 34 # (z @ v @ 34 # u)" using s by (metis append_assoc append_Cons append_Nil)
      then show ?thesis using m by blast
    next
      case False
      obtain h' where h': "h = h' @ [34]" using head_quote [OF s(2)] by (metis append_butlast_last_id)
      then have "length (g @ h) \<le> length (h2 @ v2)" using False by simp
      moreover have "(h2 @ v2) @ 34 # r2 = (g @ h) @ r" using m(1) by simp
      ultimately obtain z where z: "h2 @ v2 = (g @ h') @ 34 # z" using h' longer_split [of "g @ h" "h2 @ v2"] by auto
      obtain h2' where h2: "h2 = h2' @ [34]" "34 \<notin> set h2'"
        using head_quote [OF m(2)] by (metis append_butlast_last_id)
      have "34 \<notin> set v2" "34 \<notin> set h2'" using m h2 by auto
      with z h2 have "h2' = g @ h'" by (auto simp: append_eq_append_conv2 Cons_eq_append_conv append_eq_Cons_conv)
      then have "h2 = g @ h" using h2 h' by simp
      then show ?thesis using s m by - (rule exI [of _ "g @ h"], rule exI [of _ v], rule exI [of _ u], simp)
    qed
    then obtain h3 v3 r3 where "g @ s = h3 @ v3 @ 34 # r3" "head_text h3" "34 \<notin> set v3" by blast
    then have "RECIPE_VERSION_AT prev (g @ s) = Some (length h3, length v3, 1)"
      using m(4) by - (rule recipe_at_iff [THEN iffD2], intro conjI exI [of _ h3] exI [of _ v3] exI [of _ r3], simp_all)
    with none show False by simp
  qed
next
  fix a b :: "int option" and s :: str
  assume "same_side a b"
  then show "RECIPE_VERSION_AT a s = RECIPE_VERSION_AT b s"
    by (simp add: RECIPE_VERSION_AT_def same_side_starts)
qed

section \<open>The pattern of transcripts\<close>

lemma ascii_digit_is_digit: "is_ascii_digit c \<Longrightarrow> is_digit c"
  by (auto simp: is_ascii_digit_def is_digit_def digit_of_def digit_zeros_def)

lemma version_three_numbers: "is_version v \<Longrightarrow> three_numbers v"
  by (auto simp: is_version_def three_numbers_def numeric_part_def list_all_iff ascii_digit_is_digit)

lemma transcript_at_iff:
  "TRANSCRIPT_AT prev s = Some (k, n, t) \<longleftrightarrow>
     k = 6 \<and> t = 0 \<and> (\<exists>v r. s = lit ''mtest '' @ v @ r \<and> v = takeWhile digit_or_dot (v @ r) \<and> three_numbers v \<and> n = length v)"
  (is "?l \<longleftrightarrow> ?r")
proof
  assume l: ?l
  then obtain u where u: "s = lit ''mtest '' @ u" "drop 6 s = u"
    by (auto simp: TRANSCRIPT_AT_def startswith_iff split: if_splits)
  obtain v where v: "u = v @ drop (length v) u" "list_all digit_or_dot v" "v = takeWhile digit_or_dot u"
    by (rule takeWhile_split [of u digit_or_dot]) simp
  then have "v = takeWhile digit_or_dot (v @ drop (length v) u)" by metis
  moreover have "three_numbers v" "n = length v" "k = 6" "t = 0"
    using l u v(3) by (auto simp: TRANSCRIPT_AT_def Let_def split: if_splits)
  moreover have "s = lit ''mtest '' @ v @ drop (length v) u" using u(1) v(1) by simp
  ultimately show ?r by blast
next
  assume ?r
  then show ?l by (auto simp: TRANSCRIPT_AT_def Let_def)
qed

lemma whole_run: "v = takeWhile P (v @ r) \<longleftrightarrow> list_all P v \<and> (r = [] \<or> \<not> P (hd r))"
  by (induction v) (cases r; auto)+

lemma three_numbers_ne: "three_numbers v \<Longrightarrow> v \<noteq> []"
  by (auto simp: three_numbers_def)

interpretation transcript: site_pattern TRANSCRIPT_AT
proof
  fix prev s k n t
  assume "TRANSCRIPT_AT prev s = Some (k, n, t)"
  then obtain v r where m: "k = 6" "t = 0" "s = lit ''mtest '' @ v @ r" "n = length v" "three_numbers v"
      "list_all digit_or_dot v" "r = [] \<or> \<not> digit_or_dot (hd r)"
    by (auto simp: transcript_at_iff whole_run)
  show "0 < k \<and> k + n + t \<le> length s" using m by simp
  have "take (k + n + t) s = lit ''mtest '' @ v" using m by (simp add: eval_nat_numeral)
  then have "last (take (k + n + t) s) \<in> set v" using three_numbers_ne [OF m(5)] by simp
  then have "digit_or_dot (last (take (k + n + t) s))" using m(6) by (simp add: list_all_iff)
  then show "last (take (k + n + t) s) \<noteq> 10"
    by (auto simp: digit_or_dot_def is_digit_def digit_of_def digit_zeros_def)
  fix w u
  assume w: "is_version w" and "same_start (drop (k + n + t) s) u"
  moreover have "drop (k + n + t) s = r" using m by (simp add: eval_nat_numeral)
  ultimately have "u = [] \<or> \<not> digit_or_dot (hd u)"
    using m by (cases r; cases u) (auto simp: same_start_def)
  moreover have "list_all digit_or_dot w"
    using version_chars [OF w]
    by (auto simp: list_all_iff digit_or_dot_def ascii_digit_is_digit)
  ultimately show "TRANSCRIPT_AT prev (take k s @ w @ take t (drop (k + n) s) @ u) = Some (k, length w, t)"
    using m version_three_numbers [OF w] by (auto simp: transcript_at_iff whole_run)
next
  fix prev and g s r :: str and k n t
  assume none: "TRANSCRIPT_AT prev (g @ s) = None" and g: "g \<noteq> []"
    and "TRANSCRIPT_AT (Some (last g)) s = Some (k, n, t)"
  then obtain u where s: "s = lit ''mtest '' @ u" "k = 6" by (auto simp: transcript_at_iff)
  show "TRANSCRIPT_AT prev (g @ take k s @ r) = None"
  proof (cases "startswith g (lit ''mtest '')")
    case True
    then obtain g' where g': "g = lit ''mtest '' @ g'" by (auto simp: startswith_iff)
    have "takeWhile digit_or_dot (g' @ 109 # x) = takeWhile digit_or_dot g'" for x
      by (induction g') (auto simp: digit_or_dot_def is_digit_def digit_of_def digit_zeros_def)
    with none g' s show ?thesis by (simp add: TRANSCRIPT_AT_def)
  next
    case False
    have "\<not> startswith (g @ take k s @ r) (lit ''mtest '')"
    proof
      assume "startswith (g @ take k s @ r) (lit ''mtest '')"
      then show False using False g s
        by (auto simp: neq_Nil_conv startswith_iff append_eq_Cons_conv Cons_eq_append_conv)
    qed
    then show ?thesis by (simp add: TRANSCRIPT_AT_def)
  qed
next
  fix a b :: "int option" and s :: str
  show "TRANSCRIPT_AT a s = TRANSCRIPT_AT b s" by (simp add: TRANSCRIPT_AT_def)
qed

end
