(* ===== verification/Version_Check.thy ===== *)
theory Version_Check
  imports Inventory Text_Files Literal_Sites
begin

text \<open>
  scripts/checks/version.py: the gate that holds every statement of the release version and of the
  pinned Mojo toolchain against its single source.  The repository is a map from paths, relative to
  its root, to the bytes of the files, \<open>None\<close> for a file that cannot be read; the answer of
  \<open>git ls-files\<close>, the release the module pins and the word characters of \<open>\\b\<close> are arguments.
\<close>

type_synonym files = "path \<Rightarrow> bytes option"

text \<open>The \<open>AssertionError\<close>s the command line catches.\<close>

datatype version_fault =
    CannotRead path
  | NotUtf8 path
  | NoLiteral path
  | ManifestDrift str str
  | RecipeDrift str str
  | UnexpectedRelease str
  | StaleTranscript path str
  | NoSupportSection path
  | NoSupportedToolchain path
  | NoManifestPin path
  | StaleSupportMatrix str str
  | NoToolchainClaim path
  | StaleClaim path str str
  | NoTrackedFiles
  | SiteAlsoExempt "path list"
  | UndeclaredTranscripts "path list"
  | StaleExemptions "path list"

section \<open>The sites\<close>

definition relative :: "string list \<Rightarrow> path" where
  "relative parts = map lit parts"

definition PARSER_PATH :: path where
  "PARSER_PATH = relative [''src'', ''mtest'', ''cli'', ''parser.mojo'']"

definition PIXI_PATH :: path where
  "PIXI_PATH = relative [''pixi.toml'']"

definition RECIPE_PATH :: path where
  "RECIPE_PATH = relative [''recipe'', ''recipe.yaml'']"

definition EXPECTED_VERSION :: str where
  "EXPECTED_VERSION = lit ''1.2.0''"

definition TRANSCRIPT_SITES :: "path list" where
  "TRANSCRIPT_SITES = map relative
     [[''README.md''], [''docs'', ''cli-contract.md''], [''docs'', ''index.md''], [''docs'', ''install.md''],
      [''docs'', ''getting-started.md''], [''docs'', ''usage.md''], [''docs'', ''assertions.md''],
      [''docs'', ''build-cache.md''], [''docs'', ''cli-reference.md''],
      [''docs'', ''assets'', ''mtest-run.svg''], [''docs'', ''assets'', ''mtest-flaky.svg'']]"

definition SUPPORT_MATRIX_PATH :: path where
  "SUPPORT_MATRIX_PATH = relative [''docs'', ''install.md'']"

definition SUPPORT_MATRIX_HEADING :: str where
  "SUPPORT_MATRIX_HEADING = lit ''## Supported toolchains''"

definition TRANSCRIPT_EXEMPT :: "path list" where
  "TRANSCRIPT_EXEMPT = map relative
     [[''scripts'', ''checks'', ''version.py''], [''scripts'', ''tests'', ''test_version.py''],
      [''scripts'', ''qa'', ''contract.py''],
      [''scripts'', ''fixtures'', ''json_stream'', ''corrupt_midline.ndjson''],
      [''scripts'', ''fixtures'', ''json_stream'', ''forward_compat.ndjson''],
      [''scripts'', ''fixtures'', ''json_stream'', ''torn_tail.ndjson''],
      [''scripts'', ''tests'', ''test_package_consumption.py''],
      [''scripts'', ''tests'', ''test_public_verify.py''], [''scripts'', ''tests'', ''test_selfhost.py''],
      [''scripts'', ''tests'', ''test_valgrind.py''], [''src'', ''mtest'', ''report'', ''json_stream.mojo''],
      [''tests'', ''unit'', ''test_report_composite.mojo''],
      [''tests'', ''unit'', ''test_report_console.mojo'']]"

definition MOJO_PIN_SITES :: "path list" where
  "MOJO_PIN_SITES = map relative
     [[''recipe'', ''recipe.yaml''], [''recipe'', ''community'', ''recipe.yaml.in''], [''recipe'', ''build.sh''],
      [''docs'', ''install.md''], [''CONTRIBUTING.md''], [''CHANGELOG.md''], [''docs'', ''cli-contract.md''],
      [''AGENTS.md'']]"

section \<open>The patterns of the toolchain\<close>

text \<open>\<open>(?m)^\\|[^|\\n]*\\|\\s*`([^`\\n]+)`\\s*\\|\<close>\<close>

definition SUPPORT_MATRIX_PIN_RE :: re where
  "SUPPORT_MATRIX_PIN_RE = re_seq
     [Bol, re_lit ''|'', re_star (Chr (\<lambda>c. c \<noteq> 124 \<and> c \<noteq> 10)), re_lit ''|'', re_star (Chr is_space), Chr ((=) 96),
      Grp 1 (re_plus (Chr (\<lambda>c. c \<noteq> 96 \<and> c \<noteq> 10))), Chr ((=) 96), re_star (Chr is_space), re_lit ''|'']"

text \<open>\<open>(?m)^mojo = "==([^,"]+)\<close>\<close>

definition MOJO_PIN_RE :: re where
  "MOJO_PIN_RE = re_seq [Bol, re_lit ''mojo = \"=='', Grp 1 (re_plus (Chr (\<lambda>c. c \<noteq> 44 \<and> c \<noteq> 34)))]"

text \<open>\<open>(?m)^## \<close>\<close>

definition ENTRY_HEADING_RE :: re where
  "ENTRY_HEADING_RE = Seq Bol (re_lit ''## '')"

text \<open>
  \<open>(?i)\\bmojo(?:-compiler)?[ -](?:`?==)?\\s*`?(\\d+\\.\\d+\\.\\d+[A-Za-z0-9]*)\<close>.  The letter after
  \<open>\\b\<close> is a word character, so the boundary is a condition on the character before.  Ignoring
  case, \<open>i\<close> is also the dotted capital I and the dotless i, and the class of letters also has the
  long s and the Kelvin sign.
\<close>

definition same_letter :: "int \<Rightarrow> int \<Rightarrow> bool" where
  "same_letter l c \<longleftrightarrow> c = l \<or> c + 32 = l \<or> (l = 105 \<and> (c = 304 \<or> c = 305))"

definition re_nocase :: "string \<Rightarrow> re" where
  "re_nocase s = re_seq (map (\<lambda>l. Chr (if 97 \<le> l \<and> l \<le> 122 then same_letter l else (=) l)) (lit s))"

definition word_start :: "(int \<Rightarrow> bool) \<Rightarrow> int option \<Rightarrow> bool" where
  "word_start word prev = (case prev of None \<Rightarrow> True | Some c \<Rightarrow> \<not> word c)"

definition version_letter :: "int \<Rightarrow> bool" where
  "version_letter c \<longleftrightarrow> is_ascii_alnum c \<or> c \<in> {304, 305, 383, 8490}"

definition MOJO_PIN_CLAIM_RE :: "(int \<Rightarrow> bool) \<Rightarrow> re" where
  "MOJO_PIN_CLAIM_RE word = re_seq
     [Before (word_start word), re_nocase ''mojo'', re_opt (re_nocase ''-compiler''), Chr (\<lambda>c. c = 32 \<or> c = 45),
      re_opt (Seq (re_opt (Chr ((=) 96))) (re_lit ''=='')), re_star (Chr is_space), re_opt (Chr ((=) 96)),
      Grp 1 (re_seq [re_digits, re_lit ''.'', re_digits, re_lit ''.'', re_digits, re_star (Chr version_letter)])]"

text \<open>\<open>pattern.search(text).group(1)\<close> and \<open>pattern.findall(text)\<close>\<close>

definition search_group :: "re \<Rightarrow> str \<Rightarrow> str option" where
  "search_group r s = (case re_find_all r s of [] \<Rightarrow> None | m # _ \<Rightarrow> Some (group_text m 1))"

definition findall_group :: "re \<Rightarrow> str \<Rightarrow> str list" where
  "findall_group r s = map (\<lambda>m. group_text m 1) (re_find_all r s)"

section \<open>Reading\<close>

definition read_text :: "files \<Rightarrow> path \<Rightarrow> version_fault + str" where
  "read_text fs p =
     (case fs p of
        None \<Rightarrow> Inl (CannotRead p)
      | Some b \<Rightarrow> (case read_utf8 b of None \<Rightarrow> Inl (NotUtf8 p) | Some s \<Rightarrow> Inr s))"

definition first_literal :: "pattern_at \<Rightarrow> files \<Rightarrow> path \<Rightarrow> version_fault + str" where
  "first_literal pat fs p =
     rbind (read_text fs p) (\<lambda>s. case literals pat s of [] \<Rightarrow> Inl (NoLiteral p) | v # _ \<Rightarrow> Inr v)"

definition parse_mtest_version :: "files \<Rightarrow> version_fault + str" where
  "parse_mtest_version fs = first_literal MTEST_VERSION_AT fs PARSER_PATH"

definition parse_pixi_version :: "files \<Rightarrow> version_fault + str" where
  "parse_pixi_version fs = first_literal PIXI_VERSION_AT fs PIXI_PATH"

definition parse_recipe_version :: "files \<Rightarrow> version_fault + str" where
  "parse_recipe_version fs = first_literal RECIPE_VERSION_AT fs RECIPE_PATH"

definition assert_versions_agree :: "str \<Rightarrow> str \<Rightarrow> str \<Rightarrow> str \<Rightarrow> version_fault + unit" where
  "assert_versions_agree expected mtest_version pixi_version recipe_version =
     (if mtest_version \<noteq> pixi_version then Inl (ManifestDrift mtest_version pixi_version)
      else if recipe_version \<noteq> mtest_version then Inl (RecipeDrift recipe_version mtest_version)
      else if mtest_version \<noteq> expected then Inl (UnexpectedRelease mtest_version)
      else Inr ())"

text \<open>A loop whose body may raise.\<close>

fun for_each :: "('a \<Rightarrow> 'e + unit) \<Rightarrow> 'a list \<Rightarrow> 'e + unit" where
  "for_each f [] = Inr ()"
| "for_each f (x # xs) = rbind (f x) (\<lambda>_. for_each f xs)"

lemma for_each_Inr: "for_each f xs = Inr u \<longleftrightarrow> (\<forall>x\<in>set xs. f x = Inr ())"
  by (induction xs) (auto simp: rbind_Inr)

section \<open>Transcripts\<close>

definition transcript_versions :: "files \<Rightarrow> path \<Rightarrow> version_fault + str list" where
  "transcript_versions fs p =
     rbind (read_text fs p) (\<lambda>s. if literals TRANSCRIPT_AT s = [] then Inl (NoLiteral p) else Inr (literals TRANSCRIPT_AT s))"

definition check_transcript_sites :: "str \<Rightarrow> files \<Rightarrow> version_fault + unit" where
  "check_transcript_sites expected fs =
     for_each (\<lambda>p. rbind (transcript_versions fs p)
       (for_each (\<lambda>rendered. if rendered \<noteq> expected then Inl (StaleTranscript p rendered) else Inr ()))) TRANSCRIPT_SITES"

section \<open>The toolchain pin\<close>

text \<open>\<open>s.find(p, start)\<close>\<close>

fun find_sub :: "str \<Rightarrow> str \<Rightarrow> nat option" where
  "find_sub p [] = (if p = [] then Some 0 else None)"
| "find_sub p (c # s) = (if startswith (c # s) p then Some 0 else map_option Suc (find_sub p s))"

definition support_section :: "str \<Rightarrow> str option" where
  "support_section s =
     (case find_sub SUPPORT_MATRIX_HEADING s of
        None \<Rightarrow> None
      | Some start \<Rightarrow>
          let from = drop start s
          in (case find_sub (lit [CHR 0x0A, CHR ''#'']) (drop (length SUPPORT_MATRIX_HEADING) from) of
                None \<Rightarrow> Some from
              | Some k \<Rightarrow> Some (take (length SUPPORT_MATRIX_HEADING + k) from)))"

definition support_matrix_mojo_pin :: "files \<Rightarrow> path \<Rightarrow> version_fault + str" where
  "support_matrix_mojo_pin fs p =
     rbind (read_text fs p) (\<lambda>s.
       case support_section s of
         None \<Rightarrow> Inl (NoSupportSection p)
       | Some sec \<Rightarrow> (case search_group SUPPORT_MATRIX_PIN_RE sec of
             None \<Rightarrow> Inl (NoSupportedToolchain p) | Some pin \<Rightarrow> Inr pin))"

definition manifest_mojo_pin :: "files \<Rightarrow> path \<Rightarrow> version_fault + str" where
  "manifest_mojo_pin fs p =
     rbind (read_text fs p) (\<lambda>s.
       case search_group MOJO_PIN_RE s of None \<Rightarrow> Inl (NoManifestPin p) | Some pin \<Rightarrow> Inr pin)"

definition check_support_matrix :: "files \<Rightarrow> version_fault + unit" where
  "check_support_matrix fs =
     rbind (support_matrix_mojo_pin fs SUPPORT_MATRIX_PATH) (\<lambda>advertised.
     rbind (manifest_mojo_pin fs PIXI_PATH) (\<lambda>pinned.
       if advertised \<noteq> pinned then Inl (StaleSupportMatrix advertised pinned) else Inr ()))"

text \<open>Of the changelog only the text before the second \<open>## \<close> heading speaks for the present.\<close>

definition present_part :: "path \<Rightarrow> str \<Rightarrow> str" where
  "present_part p s =
     (if p \<noteq> [] \<and> last p = lit ''CHANGELOG.md'' then
        (case re_find_iter ENTRY_HEADING_RE s of
           _ # (second, _) # _ \<Rightarrow> take second s
         | _ \<Rightarrow> s)
      else s)"

definition current_claims :: "(int \<Rightarrow> bool) \<Rightarrow> files \<Rightarrow> path \<Rightarrow> version_fault + str list" where
  "current_claims word fs p =
     rbind (read_text fs p) (\<lambda>s. Inr (findall_group (MOJO_PIN_CLAIM_RE word) (present_part p s)))"

definition check_claims :: "str \<Rightarrow> path \<Rightarrow> str list \<Rightarrow> version_fault + unit" where
  "check_claims pinned p claimed =
     for_each (\<lambda>claim. if claim \<noteq> pinned then Inl (StaleClaim p claim pinned) else Inr ()) claimed"

definition check_mojo_pin_sites :: "(int \<Rightarrow> bool) \<Rightarrow> files \<Rightarrow> version_fault + unit" where
  "check_mojo_pin_sites word fs =
     rbind (manifest_mojo_pin fs PIXI_PATH) (\<lambda>pinned.
       for_each (\<lambda>p. rbind (current_claims word fs p) (\<lambda>claimed.
         if claimed = [] then Inl (NoToolchainClaim p) else check_claims pinned p claimed)) MOJO_PIN_SITES)"

section \<open>Sweeps over the tracked files\<close>

text \<open>\<open>None\<close> is an inventory \<open>git\<close> could not give.\<close>

type_synonym inventory = "path list option"

definition tracked_files :: "inventory \<Rightarrow> version_fault + path list" where
  "tracked_files git = (case git of None \<Rightarrow> Inl NoTrackedFiles | Some ps \<Rightarrow> Inr ps)"

text \<open>\<open>path.suffix == ".md"\<close>: a name that is only the suffix has none.\<close>

definition markdown :: "path \<Rightarrow> bool" where
  "markdown p \<longleftrightarrow> p \<noteq> [] \<and> endswith (last p) (lit ''.md'') \<and> 3 < length (last p)"

definition is_swept :: "path \<Rightarrow> bool" where
  "is_swept p \<longleftrightarrow> markdown p \<and>
     (length p = 1
      \<or> (hd p = lit ''docs'' \<and> \<not> startswith (path_text p) (lit ''docs/plans/'')
          \<and> \<not> startswith (path_text p) (lit ''docs/superpowers/'')))"

definition swept_documentation :: "inventory \<Rightarrow> version_fault + path list" where
  "swept_documentation git = rbind (tracked_files git) (\<lambda>ps. Inr (sort (filter is_swept ps)))"

definition check_no_stale_mojo_pin_claims :: "(int \<Rightarrow> bool) \<Rightarrow> inventory \<Rightarrow> files \<Rightarrow> version_fault + unit" where
  "check_no_stale_mojo_pin_claims word git fs =
     rbind (swept_documentation git) (\<lambda>swept.
     rbind (manifest_mojo_pin fs PIXI_PATH) (\<lambda>pinned.
       for_each (\<lambda>p. rbind (current_claims word fs p) (check_claims pinned p)) swept))"

definition renders_a_transcript :: "files \<Rightarrow> path \<Rightarrow> bool" where
  "renders_a_transcript fs p =
     (case read_text fs p of Inl _ \<Rightarrow> False | Inr s \<Rightarrow> literals TRANSCRIPT_AT s \<noteq> [])"

definition check_no_undeclared_transcripts :: "inventory \<Rightarrow> files \<Rightarrow> version_fault + unit" where
  "check_no_undeclared_transcripts git fs =
     (let overlap = filter (\<lambda>p. p \<in> set TRANSCRIPT_EXEMPT) TRANSCRIPT_SITES
      in if overlap \<noteq> [] then Inl (SiteAlsoExempt (sort_key path_text overlap))
         else rbind (tracked_files git) (\<lambda>ps.
           let rendering = filter (renders_a_transcript fs) ps;
               undeclared = filter (\<lambda>p. p \<notin> set TRANSCRIPT_SITES \<and> p \<notin> set TRANSCRIPT_EXEMPT) rendering;
               stale = filter (\<lambda>p. p \<notin> set rendering) TRANSCRIPT_EXEMPT
           in if undeclared \<noteq> [] then Inl (UndeclaredTranscripts (sort_key path_text (remdups undeclared)))
              else if stale \<noteq> [] then Inl (StaleExemptions (sort_key path_text stale))
              else Inr ()))"

section \<open>The gate\<close>

text \<open>\<open>main\<close>: the version it prints with exit status 0, or the fault it prints with status 1.\<close>

definition version_check :: "str \<Rightarrow> (int \<Rightarrow> bool) \<Rightarrow> inventory \<Rightarrow> files \<Rightarrow> version_fault + str" where
  "version_check expected word git fs =
     rbind (parse_mtest_version fs) (\<lambda>mtest_version.
     rbind (parse_pixi_version fs) (\<lambda>pixi_version.
     rbind (parse_recipe_version fs) (\<lambda>recipe_version.
     rbind (assert_versions_agree expected mtest_version pixi_version recipe_version) (\<lambda>_.
     rbind (check_transcript_sites expected fs) (\<lambda>_.
     rbind (check_no_undeclared_transcripts git fs) (\<lambda>_.
     rbind (check_support_matrix fs) (\<lambda>_.
     rbind (check_mojo_pin_sites word fs) (\<lambda>_.
     rbind (check_no_stale_mojo_pin_claims word git fs) (\<lambda>_. Inr mtest_version)))))))))"

definition version_main :: "str \<Rightarrow> (int \<Rightarrow> bool) \<Rightarrow> inventory \<Rightarrow> files \<Rightarrow> int" where
  "version_main expected word git fs = (case version_check expected word git fs of Inl _ \<Rightarrow> 1 | Inr _ \<Rightarrow> 0)"

section \<open>What the gate holds\<close>

lemma check_claims_Inr: "check_claims pinned p claimed = Inr () \<longleftrightarrow> set claimed \<subseteq> {pinned}"
  by (auto simp: check_claims_def for_each_Inr split: if_splits)

lemma version_check_Inr:
  "version_check expected word git fs = Inr v \<longleftrightarrow>
     parse_mtest_version fs = Inr v \<and> parse_pixi_version fs = Inr v \<and> parse_recipe_version fs = Inr v \<and> v = expected
     \<and> check_transcript_sites expected fs = Inr () \<and> check_no_undeclared_transcripts git fs = Inr ()
     \<and> check_support_matrix fs = Inr () \<and> check_mojo_pin_sites word fs = Inr ()
     \<and> check_no_stale_mojo_pin_claims word git fs = Inr ()"
  by (auto simp: version_check_def rbind_Inr assert_versions_agree_def split: if_splits)

lemma all_one: "set vs = {x} \<longleftrightarrow> vs \<noteq> [] \<and> (\<forall>y\<in>set vs. y = x)"
  by (cases vs) auto

lemma transcript_sites_Inr:
  "check_transcript_sites expected fs = Inr () \<longleftrightarrow>
     (\<forall>p\<in>set TRANSCRIPT_SITES. \<exists>s. read_text fs p = Inr s \<and> set (literals TRANSCRIPT_AT s) = {expected})"
proof -
  have "rbind (transcript_versions fs p)
        (for_each (\<lambda>r. if r \<noteq> expected then Inl (StaleTranscript p r) else Inr ())) = Inr ()
      \<longleftrightarrow> (\<exists>s. read_text fs p = Inr s \<and> set (literals TRANSCRIPT_AT s) = {expected})" for p
    unfolding all_one by (cases "read_text fs p") (auto simp: transcript_versions_def for_each_Inr split: if_splits)
  then show ?thesis by (simp add: check_transcript_sites_def for_each_Inr)
qed

lemma undeclared_Inr:
  "check_no_undeclared_transcripts git fs = Inr () \<longleftrightarrow>
     (\<exists>ps. git = Some ps
        \<and> (\<forall>p\<in>set ps. renders_a_transcript fs p \<longrightarrow> p \<in> set TRANSCRIPT_SITES \<or> p \<in> set TRANSCRIPT_EXEMPT)
        \<and> (\<forall>p\<in>set TRANSCRIPT_EXEMPT. p \<in> set ps \<and> renders_a_transcript fs p))"
proof -
  have "filter (\<lambda>p. p \<in> set TRANSCRIPT_EXEMPT) TRANSCRIPT_SITES = []" by code_simp
  then show ?thesis
    unfolding check_no_undeclared_transcripts_def
    by (cases git) (auto simp: Let_def tracked_files_def filter_empty_conv)
qed

lemma stale_claims_Inr:
  "check_no_stale_mojo_pin_claims word git fs = Inr () \<longleftrightarrow>
     (\<exists>ps pin. git = Some ps \<and> manifest_mojo_pin fs PIXI_PATH = Inr pin
        \<and> (\<forall>p\<in>set ps. is_swept p \<longrightarrow> (\<exists>claims. current_claims word fs p = Inr claims \<and> set claims \<subseteq> {pin})))"
  by (cases git) (auto simp: check_no_stale_mojo_pin_claims_def swept_documentation_def tracked_files_def
      for_each_Inr rbind_Inr check_claims_Inr)

lemma pin_sites_Inr:
  "check_mojo_pin_sites word fs = Inr () \<longleftrightarrow>
     (\<exists>pin. manifest_mojo_pin fs PIXI_PATH = Inr pin
        \<and> (\<forall>p\<in>set MOJO_PIN_SITES. \<exists>claims. current_claims word fs p = Inr claims \<and> set claims = {pin}))"
proof -
  have "rbind (current_claims word fs p)
        (\<lambda>claimed. if claimed = [] then Inl (NoToolchainClaim p) else check_claims pin p claimed) = Inr ()
      \<longleftrightarrow> (\<exists>claims. current_claims word fs p = Inr claims \<and> set claims = {pin})" for p pin
    unfolding all_one by (cases "current_claims word fs p") (auto simp: check_claims_Inr)
  then show ?thesis by (simp add: check_mojo_pin_sites_def for_each_Inr rbind_Inr)
qed

lemma support_matrix_Inr:
  "check_support_matrix fs = Inr () \<longleftrightarrow>
     (\<exists>pin. support_matrix_mojo_pin fs SUPPORT_MATRIX_PATH = Inr pin \<and> manifest_mojo_pin fs PIXI_PATH = Inr pin)"
  by (auto simp: check_support_matrix_def rbind_Inr split: if_splits)

lemmas gate_parts = version_check_Inr transcript_sites_Inr undeclared_Inr stale_claims_Inr pin_sites_Inr support_matrix_Inr


section \<open>A repository that passes\<close>

definition sample_text :: "str \<Rightarrow> str" where
  "sample_text v = join_with [10]
     [lit ''comptime MTEST_VERSION = \"'' @ v @ [34], lit ''version = \"'' @ v @ [34], lit ''version: \"'' @ v @ [34],
      lit ''EXPECTED_VERSION = \"'' @ v @ [34], lit ''out_has=[\"mtest '' @ v @ lit ''\"]'', lit ''mojo = \"==1.1.0\"'',
      lit ''mojo ==1.1.0'', lit ''## Supported toolchains'', lit ''|a|`1.1.0`|'']"

definition sample_files :: files where
  "sample_files p = Some (utf8_encode (sample_text EXPECTED_VERSION))"

lemma sample_read: "read_text sample_files p = Inr (sample_text EXPECTED_VERSION)"
proof -
  have "list_all scalar (sample_text EXPECTED_VERSION) \<and> 13 \<notin> set (sample_text EXPECTED_VERSION)"
    by code_simp
  then show ?thesis by (simp add: read_text_def sample_files_def read_utf8_encode)
qed

lemma sample_literals:
  "literals MTEST_VERSION_AT (sample_text EXPECTED_VERSION) = [EXPECTED_VERSION]"
  "literals PIXI_VERSION_AT (sample_text EXPECTED_VERSION) = [EXPECTED_VERSION]"
  "literals RECIPE_VERSION_AT (sample_text EXPECTED_VERSION) = [EXPECTED_VERSION]"
  "literals EXPECTED_VERSION_AT (sample_text EXPECTED_VERSION) = [EXPECTED_VERSION]"
  "literals CONTRACT_VERSION_AT (sample_text EXPECTED_VERSION) = [EXPECTED_VERSION]"
  "literals TRANSCRIPT_AT (sample_text EXPECTED_VERSION) = [EXPECTED_VERSION]"
  by code_simp+

definition sample_section :: str where
  "sample_section = join_with [10] [SUPPORT_MATRIX_HEADING, lit ''|a|`1.1.0`|'']"

lemma sample_pins:
  "search_group MOJO_PIN_RE (sample_text EXPECTED_VERSION) = Some (lit ''1.1.0'')"
  "support_section (sample_text EXPECTED_VERSION) = Some sample_section"
  "search_group SUPPORT_MATRIX_PIN_RE sample_section = Some (lit ''1.1.0'')"
  by code_simp+

lemma sample_claims:
  "findall_group (MOJO_PIN_CLAIM_RE is_ascii_alnum) (sample_text EXPECTED_VERSION) = [lit ''1.1.0'']"
  "length (re_find_iter ENTRY_HEADING_RE (sample_text EXPECTED_VERSION)) = 1"
  by code_simp+

lemma sample_current_claims: "current_claims is_ascii_alnum sample_files p = Inr [lit ''1.1.0'']"
proof -
  have "present_part p (sample_text EXPECTED_VERSION) = sample_text EXPECTED_VERSION"
    using sample_claims(2) by (auto simp: present_part_def split: list.splits)
  then show ?thesis by (simp add: current_claims_def sample_read sample_claims(1))
qed

lemma sample_passes:
  "version_check EXPECTED_VERSION is_ascii_alnum (Some (relative [''README.md''] # TRANSCRIPT_EXEMPT)) sample_files
    = Inr EXPECTED_VERSION"
proof -
  have "manifest_mojo_pin sample_files p = Inr (lit ''1.1.0'')" for p
    by (simp add: manifest_mojo_pin_def sample_read sample_pins)
  moreover have "support_matrix_mojo_pin sample_files p = Inr (lit ''1.1.0'')" for p
    by (simp add: support_matrix_mojo_pin_def sample_read sample_pins)
  moreover have "relative [''README.md''] \<in> set TRANSCRIPT_SITES" by (simp add: TRANSCRIPT_SITES_def)
  ultimately show ?thesis
    unfolding gate_parts
    by (simp add: parse_mtest_version_def parse_pixi_version_def parse_recipe_version_def first_literal_def sample_read
        sample_literals renders_a_transcript_def sample_current_claims)
qed


end
