(* ===== verification/Bump.thy ===== *)
theory Bump
  imports Version_Check
begin

text \<open>
  scripts/release/bump.py: rewriting every version literal of the repository.  The files are those of
  the version gate; which step of replacing a file fails, and the cached bytecode of a directory, are
  arguments.
\<close>

section \<open>Sites\<close>

record site =
  site_path :: path
  site_pattern_at :: pattern_at

definition site :: "path \<Rightarrow> pattern_at \<Rightarrow> site" where
  "site p a = \<lparr> site_path = p, site_pattern_at = a \<rparr>"

definition SITES :: "site list" where
  "SITES =
     [site PARSER_PATH MTEST_VERSION_AT, site PIXI_PATH PIXI_VERSION_AT, site RECIPE_PATH RECIPE_VERSION_AT,
      site (relative [''scripts'', ''checks'', ''version.py'']) EXPECTED_VERSION_AT,
      site (relative [''scripts'', ''qa'', ''contract.py'']) CONTRACT_VERSION_AT]
     @ map (\<lambda>p. site p TRANSCRIPT_AT) TRANSCRIPT_SITES"

text \<open>
  The exceptions the command line catches: \<open>ValueError\<close>, of which a file that is no UTF-8 is one,
  and \<open>OSError\<close>.
\<close>

datatype bump_exn =
    NotAVersion str
  | VersionDrift "(str \<times> path list) list"
  | AlreadyAt str
  | NoSiteLiteral path
  | SiteNotUtf8 path
  | SiteOSError path

fun is_value_error :: "bump_exn \<Rightarrow> bool" where
  "is_value_error (SiteOSError _) = False"
| "is_value_error _ = True"

section \<open>The version the sites agree on\<close>

definition site_text :: "files \<Rightarrow> site \<Rightarrow> bump_exn + str" where
  "site_text fs s =
     (case read_text fs (site_path s) of
        Inl (CannotRead p) \<Rightarrow> Inl (SiteOSError p) | Inl _ \<Rightarrow> Inl (SiteNotUtf8 (site_path s)) | Inr t \<Rightarrow> Inr t)"

definition site_versions :: "files \<Rightarrow> site \<Rightarrow> bump_exn + str list" where
  "site_versions fs s =
     rbind (site_text fs s) (\<lambda>t.
       let versions = literals (site_pattern_at s) t
       in if versions = [] then Inl (NoSiteLiteral (site_path s)) else Inr versions)"

text \<open>\<open>seen.setdefault(version, []).append(path)\<close>\<close>

definition note_version :: "path \<Rightarrow> str \<Rightarrow> (str, path list) dict \<Rightarrow> (str, path list) dict" where
  "note_version p v seen = dict_set v ((case map_of seen v of None \<Rightarrow> [] | Some ps \<Rightarrow> ps) @ [p]) seen"

fun seen_versions :: "files \<Rightarrow> site list \<Rightarrow> (str, path list) dict \<Rightarrow> bump_exn + (str, path list) dict" where
  "seen_versions fs [] seen = Inr seen"
| "seen_versions fs (s # ss) seen =
     rbind (site_versions fs s) (\<lambda>vs. seen_versions fs ss (fold (note_version (site_path s)) vs seen))"

definition drift_detail :: "(str, path list) dict \<Rightarrow> (str \<times> path list) list" where
  "drift_detail seen = map (map_prod id (\<lambda>ps. sort_key path_text (remdups ps))) (sort_key fst seen)"

definition current_version :: "files \<Rightarrow> bump_exn + str" where
  "current_version fs =
     rbind (seen_versions fs SITES []) (\<lambda>seen.
       case seen of [(v, _)] \<Rightarrow> Inr v | _ \<Rightarrow> Inl (VersionDrift (drift_detail seen)))"

section \<open>Rewriting a text\<close>

definition rewrite :: "str \<Rightarrow> pattern_at \<Rightarrow> str \<Rightarrow> str \<times> nat" where
  "rewrite t pat new_version =
     (let matches = group_spans pat 0 None t
      in (fold (put_literal new_version) (rev matches) t, length matches))"

fun rewrite_sites :: "files \<Rightarrow> str \<Rightarrow> site list \<Rightarrow> bump_exn + (site \<times> str \<times> nat) list" where
  "rewrite_sites fs v [] = Inr []"
| "rewrite_sites fs v (s # ss) =
     rbind (site_text fs s) (\<lambda>t.
     rbind (rewrite_sites fs v ss) (\<lambda>rest. Inr ((s, rewrite t (site_pattern_at s) v) # rest)))"

section \<open>Replacing a file\<close>

text \<open>
  What the disk does when a path is replaced: the temporary file cannot be opened, it is cut short, its
  mode cannot be copied, it cannot be moved into place, it cannot be removed, a cached bytecode file cannot be
  removed.
\<close>

record disk =
  dk_no_open :: "path \<Rightarrow> bool"
  dk_cut :: "path \<Rightarrow> nat option"
  dk_no_mode :: "path \<Rightarrow> bool"
  dk_no_move :: "path \<Rightarrow> bool"
  dk_no_unlink :: "path \<Rightarrow> bool"
  dk_cached :: "path \<Rightarrow> str list"

definition temp_path :: "path \<Rightarrow> path" where
  "temp_path p = butlast p @ [last p @ lit ''.bump-tmp'']"

definition python_stem :: "str \<Rightarrow> str option" where
  "python_stem name =
     (if endswith name (lit ''.py'') \<and> 3 < length name then Some (take (length name - 3) name) else None)"

definition stale_bytecode :: "disk \<Rightarrow> path \<Rightarrow> path list" where
  "stale_bytecode d p =
     (case python_stem (last p) of
        None \<Rightarrow> []
      | Some stem \<Rightarrow>
          map (\<lambda>name. butlast p @ [lit ''__pycache__'', name])
            (filter (\<lambda>name. startswith name (stem @ [46]) \<and> endswith (drop (length stem + 1) name) (lit ''.pyc''))
              (dk_cached d (butlast p))))"

fun unlink_all :: "disk \<Rightarrow> path list \<Rightarrow> files \<Rightarrow> bump_exn option \<times> files" where
  "unlink_all d [] fs = (None, fs)"
| "unlink_all d (p # ps) fs =
     (if dk_no_unlink d p then (Some (SiteOSError p), fs) else unlink_all d ps (fs(p := None)))"

definition discard_temp :: "disk \<Rightarrow> path \<Rightarrow> files \<Rightarrow> files" where
  "discard_temp d temp fs = (if dk_no_unlink d temp then fs else fs(temp := None))"

definition atomic_write :: "disk \<Rightarrow> path \<Rightarrow> str \<Rightarrow> files \<Rightarrow> bump_exn option \<times> files" where
  "atomic_write d p t fs =
     (let temp = temp_path p; content = utf8_encode t in
      if dk_no_open d p then (Some (SiteOSError p), discard_temp d temp fs)
      else case dk_cut d p of
        Some n \<Rightarrow> (Some (SiteOSError p), discard_temp d temp (fs(temp := Some (take n content))))
      | None \<Rightarrow>
          if dk_no_mode d p \<or> dk_no_move d p
          then (Some (SiteOSError p), discard_temp d temp (fs(temp := Some content)))
          else unlink_all d (stale_bytecode d p) (fs(temp := None, p := Some content)))"

fun write_sites :: "disk \<Rightarrow> (site \<times> str \<times> nat) list \<Rightarrow> files \<Rightarrow> (bump_exn + (path \<times> nat) list) \<times> files" where
  "write_sites d [] fs = (Inr [], fs)"
| "write_sites d ((s, t, n) # rest) fs =
     (case atomic_write d (site_path s) t fs of
        (Some e, fs') \<Rightarrow> (Inl e, fs')
      | (None, fs') \<Rightarrow>
          (case write_sites d rest fs' of
             (Inl e, fs'') \<Rightarrow> (Inl e, fs'')
           | (Inr changed, fs'') \<Rightarrow> (Inr ((site_path s, n) # changed), fs'')))"

section \<open>The command\<close>

definition bump :: "disk \<Rightarrow> str \<Rightarrow> files \<Rightarrow> (bump_exn + (path \<times> nat) list) \<times> files" where
  "bump d new_version fs =
     (if \<not> is_version new_version then (Inl (NotAVersion new_version), fs)
      else case current_version fs of
        Inl e \<Rightarrow> (Inl e, fs)
      | Inr old_version \<Rightarrow>
          if new_version = old_version then (Inl (AlreadyAt old_version), fs)
          else case rewrite_sites fs new_version SITES of
            Inl e \<Rightarrow> (Inl e, fs)
          | Inr rewritten \<Rightarrow> write_sites d rewritten fs)"

text \<open>\<open>main\<close> on the one argument: the exit status and the files it leaves.\<close>

definition bump_main :: "disk \<Rightarrow> str \<Rightarrow> files \<Rightarrow> int \<times> files" where
  "bump_main d version fs =
     (case current_version fs of
        Inl _ \<Rightarrow> (1, fs)
      | Inr _ \<Rightarrow> (case bump d version fs of (Inl _, fs') \<Rightarrow> (1, fs') | (Inr _, fs') \<Rightarrow> (0, fs')))"

section \<open>Every site is a site pattern\<close>

lemma site_simps [simp]: "site_path (site p a) = p" "site_pattern_at (site p a) = a"
  by (simp_all add: site_def)

lemma sites_are_patterns: "s \<in> set SITES \<Longrightarrow> site_pattern (site_pattern_at s)"
  by (auto simp: SITES_def intro: mtest_version.site_pattern_axioms pixi_version.site_pattern_axioms
      recipe_version.site_pattern_axioms expected_version.site_pattern_axioms
      contract_version.site_pattern_axioms transcript.site_pattern_axioms)

text \<open>The paths of the sites, and the paths a replacement touches beside them.\<close>

definition apart :: "path list \<Rightarrow> bool" where
  "apart ps \<longleftrightarrow> distinct ps
     \<and> list_all (\<lambda>p. \<not> endswith (last p) (lit ''.bump-tmp'') \<and> (length p < 2 \<or> last (butlast p) \<noteq> lit ''__pycache__'')) ps"

lemma sites_apart: "apart (map site_path SITES)"
  by code_simp

lemma apart_Cons: "apart (p # ps) \<Longrightarrow> apart ps \<and> p \<notin> set ps"
  by (auto simp: apart_def)

lemma apart_temp: "apart ps \<Longrightarrow> p \<in> set ps \<Longrightarrow> p \<noteq> temp_path q"
  by (auto simp: apart_def list_all_iff temp_path_def endswith_def)

lemma apart_bytecode: "apart ps \<Longrightarrow> p \<in> set ps \<Longrightarrow> p \<notin> set (stale_bytecode d q)"
  by (fastforce simp: apart_def list_all_iff stale_bytecode_def butlast_append split: option.splits)

lemma unlink_all_other: "p \<notin> set ps \<Longrightarrow> snd (unlink_all d ps fs) p = fs p"
  by (induction ps arbitrary: fs) auto

lemma atomic_write_other:
  assumes "apart ps" "q \<in> set ps" "q \<noteq> p"
  shows "snd (atomic_write d p t fs) q = fs q"
  using assms apart_temp [OF assms(1,2)] apart_bytecode [OF assms(1,2)]
  by (auto simp: atomic_write_def Let_def discard_temp_def unlink_all_other split: option.splits)

lemma atomic_write_here:
  assumes "apart ps" "p \<in> set ps"
  shows "snd (atomic_write d p t fs) p = fs p \<or> snd (atomic_write d p t fs) p = Some (utf8_encode t)"
    "fst (atomic_write d p t fs) = None \<Longrightarrow> snd (atomic_write d p t fs) p = Some (utf8_encode t)"
  using apart_temp [OF assms] apart_bytecode [OF assms]
  by (auto simp: atomic_write_def Let_def discard_temp_def unlink_all_other split: option.splits if_splits)

lemma unlink_all_error: "fst (unlink_all d ps fs) = Some e \<Longrightarrow> \<not> is_value_error e"
  by (induction ps arbitrary: fs) (auto split: if_splits)

lemma atomic_write_error: "fst (atomic_write d p t fs) = Some e \<Longrightarrow> \<not> is_value_error e"
  by (auto simp: atomic_write_def Let_def dest: unlink_all_error split: option.splits if_splits)

section \<open>Writing all sites\<close>

abbreviation target :: "site \<times> str \<times> nat \<Rightarrow> path" where
  "target r \<equiv> site_path (fst r)"

lemma write_sites_other:
  assumes "apart ps" "q \<in> set ps"
  shows "q \<notin> target ` set rs \<Longrightarrow> snd (write_sites d rs fs) q = fs q"
proof (induction rs arbitrary: fs)
  case (Cons r rs)
  obtain s t n where r: "r = (s, t, n)" by (cases r) auto
  obtain e fs1 where w: "atomic_write d (site_path s) t fs = (e, fs1)" by fastforce
  have "snd (atomic_write d (site_path s) t fs) q = fs q"
    using Cons.prems r by (intro atomic_write_other [OF assms]) auto
  then show ?case using Cons.IH [of fs1] Cons.prems r w by (auto split: prod.splits option.splits sum.splits)
qed simp

lemma write_sites_here:
  assumes "apart ps"
  shows "target ` set rs \<subseteq> set ps \<Longrightarrow> distinct (map target rs) \<Longrightarrow> (s, t, n) \<in> set rs \<Longrightarrow>
    (snd (write_sites d rs fs) (site_path s) = fs (site_path s)
       \<or> snd (write_sites d rs fs) (site_path s) = Some (utf8_encode t))
    \<and> ((\<exists>c. fst (write_sites d rs fs) = Inr c) \<longrightarrow> snd (write_sites d rs fs) (site_path s) = Some (utf8_encode t))"
proof (induction rs arbitrary: fs)
  case (Cons r rs)
  obtain s1 t1 n1 where r: "r = (s1, t1, n1)" by (cases r) auto
  obtain e fs1 where w: "atomic_write d (site_path s1) t1 fs = (e, fs1)" by fastforce
  have p1: "site_path s1 \<in> set ps" using Cons.prems r by auto
  show ?case
  proof (cases "(s, t, n) = r")
    case True
    then have "site_path s \<notin> target ` set rs" using Cons.prems r by auto
    then have "snd (write_sites d rs fs1) (site_path s) = fs1 (site_path s)"
      using p1 True r by (intro write_sites_other [OF assms]) auto
    then show ?thesis
      using atomic_write_here [OF assms p1, of d t1 fs] w True r
      by (auto split: prod.splits option.splits sum.splits)
  next
    case False
    then have mem: "(s, t, n) \<in> set rs" using Cons.prems by auto
    then have "site_path s \<noteq> site_path s1" "site_path s \<in> set ps" using Cons.prems r by force+
    then have "fs1 (site_path s) = fs (site_path s)"
      using atomic_write_other [OF assms, of "site_path s" "site_path s1" d t1 fs] w by simp
    then show ?thesis
      using Cons.IH [of fs1] Cons.prems mem w r by (auto split: prod.splits option.splits sum.splits)
  qed
qed simp

lemma write_sites_result:
  "(case fst (write_sites d rs fs) of
      Inl e \<Rightarrow> \<not> is_value_error e | Inr changed \<Rightarrow> changed = map (\<lambda>(s, t, n). (site_path s, n)) rs)"
proof (induction rs arbitrary: fs)
  case (Cons r rs)
  obtain s1 t1 n1 where r: "r = (s1, t1, n1)" by (cases r) auto
  obtain e fs1 where w: "atomic_write d (site_path s1) t1 fs = (e, fs1)" by fastforce
  show ?case
    using Cons [of fs1] atomic_write_error [of d "site_path s1" t1 fs] w r
    by (auto split: prod.splits option.splits sum.splits)
qed simp

definition sound :: "disk \<Rightarrow> bool" where
  "sound d \<longleftrightarrow> (\<forall>p. \<not> dk_no_open d p \<and> dk_cut d p = None \<and> \<not> dk_no_mode d p \<and> \<not> dk_no_move d p \<and> \<not> dk_no_unlink d p)"

lemma unlink_all_sound: "sound d \<Longrightarrow> fst (unlink_all d ps fs) = None"
  by (induction ps arbitrary: fs) (auto simp: sound_def)

lemma atomic_write_sound: "sound d \<Longrightarrow> fst (atomic_write d p t fs) = None"
  by (simp add: atomic_write_def Let_def sound_def unlink_all_sound [unfolded sound_def])

lemma write_sites_sound: "sound d \<Longrightarrow> \<exists>c. fst (write_sites d rs fs) = Inr c"
proof (induction rs arbitrary: fs)
  case (Cons r rs)
  obtain s1 t1 n1 where r: "r = (s1, t1, n1)" by (cases r) auto
  obtain fs1 where w: "atomic_write d (site_path s1) t1 fs = (None, fs1)"
    using atomic_write_sound [OF Cons.prems, of "site_path s1" t1 fs] by (metis prod.collapse)
  then show ?case using Cons.IH [OF Cons.prems, of fs1] r by (auto split: prod.splits)
qed simp

section \<open>The rewritten texts\<close>

lemma rewrite_sites_Inr:
  "rewrite_sites fs v ss = Inr rs \<longleftrightarrow>
     (\<forall>s\<in>set ss. \<exists>t. site_text fs s = Inr t)
     \<and> rs = map (\<lambda>s. (s, rewrite (projr (site_text fs s)) (site_pattern_at s) v)) ss"
  by (induction ss arbitrary: rs) (auto simp: rbind_Inr)

lemma rewritten_text:
  assumes "s \<in> set SITES" "is_version v"
  shows "fst (rewrite t (site_pattern_at s) v) = exchanged (site_pattern_at s) v None t"
    "snd (rewrite t (site_pattern_at s) v) = length (literals (site_pattern_at s) t)"
    "literals (site_pattern_at s) (exchanged (site_pattern_at s) v None t)
      = replicate (length (literals (site_pattern_at s) t)) v"
proof -
  have pat: "site_pattern (site_pattern_at s)" using assms(1) by (rule sites_are_patterns)
  show "fst (rewrite t (site_pattern_at s) v) = exchanged (site_pattern_at s) v None t"
    by (simp add: rewrite_def Let_def site_pattern.put_is_exchange [OF pat])
  show "snd (rewrite t (site_pattern_at s) v) = length (literals (site_pattern_at s) t)"
    by (simp add: rewrite_def literals_def Let_def)
  show "literals (site_pattern_at s) (exchanged (site_pattern_at s) v None t)
      = replicate (length (literals (site_pattern_at s) t)) v"
    using site_pattern.literals_exchanged [OF pat assms(2), of t] by (simp add: site_pattern.put_is_exchange [OF pat])
qed

section \<open>The version the sites agree on\<close>

definition keys :: "('k, 'v) dict \<Rightarrow> 'k set" where
  "keys d = set (map fst d)"

lemma note_keys:
  "keys (note_version p v seen) = insert v (keys seen)"
  "distinct (map fst seen) \<Longrightarrow> distinct (map fst (note_version p v seen))"
  by (auto simp: keys_def note_version_def update_keys)

lemma note_all_keys:
  "keys (fold (note_version p) vs seen) = keys seen \<union> set vs"
  "distinct (map fst seen) \<Longrightarrow> distinct (map fst (fold (note_version p) vs seen))"
  by (induction vs arbitrary: seen) (auto simp: note_keys)

lemma seen_versions_Inr:
  "seen_versions fs ss seen = Inr seen' \<Longrightarrow>
     (\<forall>s\<in>set ss. \<exists>vs. site_versions fs s = Inr vs)
     \<and> keys seen' = keys seen \<union> (\<Union>s\<in>set ss. set (projr (site_versions fs s)))
     \<and> (distinct (map fst seen) \<longrightarrow> distinct (map fst seen'))"
  by (induction ss arbitrary: seen) (fastforce simp: rbind_Inr note_all_keys)+

lemma seen_versions_total:
  "\<forall>s\<in>set ss. \<exists>vs. site_versions fs s = Inr vs \<Longrightarrow> \<exists>seen'. seen_versions fs ss seen = Inr seen'"
  by (induction ss arbitrary: seen) (auto simp: rbind_Inr)

lemma singleton_dict: "distinct (map fst d) \<Longrightarrow> keys d = {k} \<longleftrightarrow> (\<exists>x. d = [(k, x)])"
proof
  assume d: "distinct (map fst d)" "keys d = {k}"
  then have "length d = 1" by (metis card.empty card.insert distinct_card empty_iff finite.emptyI keys_def length_map One_nat_def)
  then obtain y where "d = [y]" by (auto simp: length_Suc_conv)
  with d(2) show "\<exists>x. d = [(k, x)]" by (cases y) (auto simp: keys_def)
qed (auto simp: keys_def)

text \<open>What a site states: its text holds literals, all of one version.\<close>

definition states :: "files \<Rightarrow> str \<Rightarrow> site \<Rightarrow> bool" where
  "states fs v s \<longleftrightarrow> (\<exists>t. site_text fs s = Inr t \<and> literals (site_pattern_at s) t \<noteq> []
     \<and> set (literals (site_pattern_at s) t) \<subseteq> {v})"

lemma states_versions: "states fs v s \<longleftrightarrow> (\<exists>vs. site_versions fs s = Inr vs \<and> set vs = {v})"
proof -
  have "vs \<noteq> [] \<and> set vs \<subseteq> {v} \<longleftrightarrow> set vs = {v}" for vs by (cases vs) auto
  then show ?thesis by (auto simp: states_def site_versions_def Let_def rbind_Inr split: if_splits)
qed

lemma current_version_iff: "current_version fs = Inr v \<longleftrightarrow> (\<forall>s\<in>set SITES. states fs v s)"
proof
  assume "current_version fs = Inr v"
  then obtain seen where seen0: "seen_versions fs SITES [] = Inr seen"
      "(case seen of [(v, _)] \<Rightarrow> Inr v | _ \<Rightarrow> Inl (VersionDrift (drift_detail seen))) = Inr v"
    by (auto simp: current_version_def rbind_Inr)
  moreover from seen0(2) have "keys seen = {v}"
    by (cases seen; cases "tl seen"; cases "hd seen"; simp add: keys_def)
  ultimately have seen: "seen_versions fs SITES [] = Inr seen" "keys seen = {v}" by simp_all
  from seen_versions_Inr [OF seen(1)] seen(2)
  have all: "\<forall>s\<in>set SITES. \<exists>vs. site_versions fs s = Inr vs"
    "(\<Union>s\<in>set SITES. set (projr (site_versions fs s))) = {v}"
    by (auto simp: keys_def)
  show "\<forall>s\<in>set SITES. states fs v s"
  proof
    fix s
    assume s: "s \<in> set SITES"
    with all(1) obtain vs where vs: "site_versions fs s = Inr vs" by blast
    with all(2) s have "set vs \<subseteq> {v}" by fastforce
    moreover have "vs \<noteq> []" using vs by (auto simp: site_versions_def Let_def rbind_Inr split: if_splits)
    ultimately show "states fs v s" using vs by (cases vs) (auto simp: states_versions)
  qed
next
  assume all: "\<forall>s\<in>set SITES. states fs v s"
  then have "\<forall>s\<in>set SITES. \<exists>vs. site_versions fs s = Inr vs"
    unfolding states_versions by blast
  then obtain seen where seen: "seen_versions fs SITES [] = Inr seen"
    using seen_versions_total by blast
  have "SITES \<noteq> []" by (simp add: SITES_def)
  have "set (projr (site_versions fs s)) = {v}" if "s \<in> set SITES" for s
    using all that by (fastforce simp: states_versions)
  then have "(\<Union>s\<in>set SITES. set (projr (site_versions fs s))) = {v}"
    using \<open>SITES \<noteq> []\<close> by (cases SITES) auto
  with seen_versions_Inr [OF seen] have "keys seen = {v}" "distinct (map fst seen)"
    by (simp_all add: keys_def)
  then obtain x where "seen = [(v, x)]" by (auto simp: singleton_dict)
  with seen show "current_version fs = Inr v" by (simp add: current_version_def)
qed

section \<open>A bump that succeeds\<close>

definition all_bytes :: "files \<Rightarrow> bool" where
  "all_bytes fs \<longleftrightarrow> (\<forall>p b. fs p = Some b \<longrightarrow> byte_list b)"

lemma site_text_plain: "all_bytes fs \<Longrightarrow> site_text fs s = Inr t \<Longrightarrow> list_all scalar t \<and> 13 \<notin> set t"
  by (auto simp: site_text_def read_text_def all_bytes_def dest: read_utf8_text
      split: option.splits sum.splits version_fault.splits)

lemma written_back:
  assumes "list_all scalar t" "13 \<notin> set t" "fs (site_path s) = Some (utf8_encode t)"
  shows "site_text fs s = Inr t"
  using assms by (simp add: site_text_def read_text_def read_utf8_encode)

lemma rewritten_plain:
  assumes "s \<in> set SITES" "is_version v" "list_all scalar t \<and> 13 \<notin> set t"
  shows "list_all scalar (exchanged (site_pattern_at s) v None t) \<and> 13 \<notin> set (exchanged (site_pattern_at s) v None t)"
proof -
  have "set (exchanged (site_pattern_at s) v None t) \<subseteq> set t \<union> set v"
    using put_literals_set [of v "rev (group_spans (site_pattern_at s) 0 None t)" t]
      site_pattern.put_is_exchange [OF sites_are_patterns [OF assms(1)]] by simp
  moreover have "\<forall>c\<in>set v. scalar c \<and> c \<noteq> 13"
    using version_chars [OF assms(2)] by (auto simp: is_ascii_digit_def scalar_def)
  ultimately show ?thesis using assms(3) by (auto simp: list_all_iff)
qed

text \<open>The texts a bump starts from, and what it makes of them.\<close>

definition old_text :: "files \<Rightarrow> site \<Rightarrow> str" where
  "old_text fs s = projr (site_text fs s)"

definition new_text :: "files \<Rightarrow> str \<Rightarrow> site \<Rightarrow> str" where
  "new_text fs v s = exchanged (site_pattern_at s) v None (old_text fs s)"

definition planned :: "files \<Rightarrow> str \<Rightarrow> (site \<times> str \<times> nat) list" where
  "planned fs v = map (\<lambda>s. (s, new_text fs v s, length (literals (site_pattern_at s) (old_text fs s)))) SITES"

lemma current_version_texts: "current_version fs = Inr old \<Longrightarrow> s \<in> set SITES \<Longrightarrow> site_text fs s = Inr (old_text fs s)"
  by (auto simp: current_version_iff states_def old_text_def)

lemma rewrite_planned:
  assumes "is_version v" "current_version fs = Inr old"
  shows "rewrite_sites fs v SITES = Inr (planned fs v)"
proof -
  have "rewrite (old_text fs s) (site_pattern_at s) v
      = (new_text fs v s, length (literals (site_pattern_at s) (old_text fs s)))" if "s \<in> set SITES" for s
    using rewritten_text(1,2) [OF that assms(1)] by (simp add: prod_eq_iff new_text_def)
  then show ?thesis
    using current_version_texts [OF assms(2)]
    unfolding rewrite_sites_Inr planned_def old_text_def [symmetric] by (simp cong: map_cong)
qed

lemma bump_cases:
  assumes "bump d v fs = (r, fs')"
  obtains e where "r = Inl e" "is_value_error e \<or> current_version fs = Inl e" "fs' = fs"
  | old where "is_version v" "current_version fs = Inr old" "v \<noteq> old" "write_sites d (planned fs v) fs = (r, fs')"
proof (cases "is_version v")
  case False
  show thesis using assms False by (intro that(1) [of "NotAVersion v"]) (simp_all add: bump_def)
next
  case version: True
  show thesis
  proof (cases "current_version fs")
    case (Inl e)
    then show thesis using assms version by (intro that(1) [of e]) (simp_all add: bump_def)
  next
    case (Inr old)
    show thesis
    proof (cases "v = old")
      case True
      then show thesis using assms version Inr by (intro that(1) [of "AlreadyAt old"]) (simp_all add: bump_def)
    next
      case False
      then show thesis
        using assms version Inr by (intro that(2) [of old]) (simp_all add: bump_def rewrite_planned)
    qed
  qed
qed

lemma planned_targets: "map target (planned fs v) = map site_path SITES"
  by (simp add: planned_def)

lemma planned_mem: "s \<in> set SITES \<Longrightarrow> \<exists>n. (s, new_text fs v s, n) \<in> set (planned fs v)"
  by (auto simp: planned_def)

lemma write_planned:
  assumes "write_sites d (planned fs v) fs = (r, fs')" "s \<in> set SITES"
  shows "fs' (site_path s) = fs (site_path s) \<or> fs' (site_path s) = Some (utf8_encode (new_text fs v s))"
    "r = Inr c \<Longrightarrow> fs' (site_path s) = Some (utf8_encode (new_text fs v s))"
proof -
  obtain n where mem: "(s, new_text fs v s, n) \<in> set (planned fs v)" using planned_mem [OF assms(2)] by blast
  have "target ` set (planned fs v) = set (map site_path SITES)"
    using planned_targets [of fs v] by (metis set_map)
  moreover have "distinct (map target (planned fs v))"
    using sites_apart by (simp add: planned_targets apart_def)
  ultimately show "fs' (site_path s) = fs (site_path s) \<or> fs' (site_path s) = Some (utf8_encode (new_text fs v s))"
    "r = Inr c \<Longrightarrow> fs' (site_path s) = Some (utf8_encode (new_text fs v s))"
    using write_sites_here [OF sites_apart, of "planned fs v" s "new_text fs v s" n d fs] mem assms(1) by auto
qed

text \<open>After a bump that succeeds the sites read as planned, and state the new version.\<close>

definition plain_sites :: "files \<Rightarrow> bool" where
  "plain_sites fs \<longleftrightarrow> (\<forall>s\<in>set SITES. \<forall>t. site_text fs s = Inr t \<longrightarrow> list_all scalar t \<and> 13 \<notin> set t)"

lemma all_bytes_plain: "all_bytes fs \<Longrightarrow> plain_sites fs"
  using site_text_plain by (auto simp: plain_sites_def)

lemma new_text_plain:
  assumes "plain_sites fs" "is_version v" "current_version fs = Inr old" "s \<in> set SITES"
  shows "list_all scalar (new_text fs v s) \<and> 13 \<notin> set (new_text fs v s)"
  using assms current_version_texts [OF assms(3,4)] rewritten_plain [OF assms(4,2)]
  by (simp add: plain_sites_def new_text_def)

lemma bump_texts:
  assumes "plain_sites fs" "bump d v fs = (Inr changed, fs')" "s \<in> set SITES"
  shows "site_text fs' s = Inr (new_text fs v s)"
  using assms(2)
proof (cases rule: bump_cases)
  case (2 old)
  then show ?thesis
    using write_planned(2) [OF 2(4) assms(3)] new_text_plain [OF assms(1) 2(1,2) assms(3)] by (blast intro: written_back)
qed simp

lemma bump_plain:
  assumes "plain_sites fs" "bump d v fs = (Inr changed, fs')"
  shows "plain_sites fs'"
  using assms(2)
proof (cases rule: bump_cases)
  case (2 old)
  then show ?thesis
    using bump_texts [OF assms] new_text_plain [OF assms(1) 2(1,2)] by (simp add: plain_sites_def)
qed simp

lemma bump_changed: "bump d v fs = (Inr changed, fs') \<Longrightarrow>
    changed = map (\<lambda>s. (site_path s, length (literals (site_pattern_at s) (old_text fs s)))) SITES"
  using write_sites_result [where d = d and rs = "planned fs v" and fs = fs]
  by (elim bump_cases) (auto simp: planned_def)

lemma bump_is_version: "bump d v fs = (Inr changed, fs') \<Longrightarrow> is_version v \<and> (\<exists>old. current_version fs = Inr old \<and> v \<noteq> old)"
  by (elim bump_cases) auto

lemma bump_states:
  assumes "plain_sites fs" "bump d v fs = (Inr changed, fs')"
  shows "current_version fs' = Inr v"
proof -
  obtain old where old: "is_version v" "current_version fs = Inr old" using bump_is_version [OF assms(2)] by blast
  have "states fs' v s" if s: "s \<in> set SITES" for s
  proof -
    have "literals (site_pattern_at s) (old_text fs s) \<noteq> []"
      using old(2) s by (auto simp: current_version_iff states_def old_text_def)
    then show ?thesis
      using bump_texts [OF assms s] rewritten_text(3) [OF s old(1), of "old_text fs s"]
      by (auto simp: states_def new_text_def)
  qed
  then show ?thesis by (simp add: current_version_iff)
qed

section \<open>The bump and the gate\<close>

lemma site_text_read: "site_text fs s = Inr t \<longleftrightarrow> read_text fs (site_path s) = Inr t"
  by (auto simp: site_text_def split: sum.splits version_fault.splits)

lemma states_first:
  assumes "states fs v (site p pat)"
  shows "first_literal pat fs p = Inr v"
proof -
  obtain t where t: "read_text fs p = Inr t" "literals pat t \<noteq> []" "set (literals pat t) \<subseteq> {v}"
    using assms by (auto simp: states_def site_text_read)
  then obtain vs where "literals pat t = v # vs" by (cases "literals pat t") auto
  with t(1) show ?thesis by (simp add: first_literal_def)
qed

lemma states_transcript:
  assumes "states fs v (site p TRANSCRIPT_AT)"
  shows "\<exists>vs. transcript_versions fs p = Inr vs \<and> set vs = {v}"
proof -
  obtain t where t: "read_text fs p = Inr t" "literals TRANSCRIPT_AT t \<noteq> []" "set (literals TRANSCRIPT_AT t) \<subseteq> {v}"
    using assms by (auto simp: states_def site_text_read)
  then have "set (literals TRANSCRIPT_AT t) = {v}" by (cases "literals TRANSCRIPT_AT t") auto
  with t show ?thesis by (simp add: transcript_versions_def)
qed

definition version_gate :: "str \<Rightarrow> files \<Rightarrow> bool" where
  "version_gate expected fs \<longleftrightarrow>
     rbind (parse_mtest_version fs) (\<lambda>mtest_version.
     rbind (parse_pixi_version fs) (\<lambda>pixi_version.
     rbind (parse_recipe_version fs) (\<lambda>recipe_version.
     rbind (assert_versions_agree expected mtest_version pixi_version recipe_version) (\<lambda>_.
       check_transcript_sites expected fs)))) = Inr ()"

lemma current_version_gate:
  assumes "current_version fs = Inr v"
  shows "version_gate v fs"
proof -
  have all: "states fs v s" if "s \<in> set SITES" for s using assms that by (simp add: current_version_iff)
  have "first_literal MTEST_VERSION_AT fs PARSER_PATH = Inr v" "first_literal PIXI_VERSION_AT fs PIXI_PATH = Inr v"
    "first_literal RECIPE_VERSION_AT fs RECIPE_PATH = Inr v"
    by (intro states_first all; simp add: SITES_def)+
  moreover have "\<exists>vs. transcript_versions fs p = Inr vs \<and> set vs = {v}" if "p \<in> set TRANSCRIPT_SITES" for p
    using that by (intro states_transcript all) (simp add: SITES_def)
  then have "check_transcript_sites v fs = Inr ()"
    unfolding check_transcript_sites_def for_each_Inr by (fastforce simp: for_each_Inr rbind_Inr)
  ultimately show ?thesis
    by (simp add: version_gate_def parse_mtest_version_def parse_pixi_version_def parse_recipe_version_def
        assert_versions_agree_def)
qed

section \<open>Bumping back\<close>

lemma bump_succeeds:
  assumes "sound d" "is_version v" "current_version fs = Inr old" "v \<noteq> old"
  shows "\<exists>changed fs'. bump d v fs = (Inr changed, fs')"
  using write_sites_sound [OF assms(1), of "planned fs v" fs] assms
  by (cases "write_sites d (planned fs v) fs") (auto simp: bump_def rewrite_planned)

lemma back_text:
  assumes "current_version fs = Inr old" "is_version v" "s \<in> set SITES" "old_text fs' s = new_text fs v s"
  shows "new_text fs' old s = old_text fs s"
proof -
  have pat: "site_pattern (site_pattern_at s)" using assms(3) by (rule sites_are_patterns)
  have "states fs old s" using assms(1,3) by (simp add: current_version_iff)
  then have "set (literals (site_pattern_at s) (old_text fs s)) \<subseteq> {old}"
    by (auto simp: states_def old_text_def)
  from site_pattern.put_back [OF pat assms(2) this] show ?thesis
    by (simp add: new_text_def assms(4) site_pattern.put_is_exchange [OF pat])
qed

section \<open>What a bump does to the repository\<close>


text \<open>
  C29 (a bump is undone by a bump): on a disk without failures a bump from one version to another
  succeeds, and bumping back gives every site the text it had.
\<close>

theorem bump_and_back:
  assumes "all_bytes fs" "sound d" "current_version fs = Inr old" "is_version old" "is_version v" "v \<noteq> old"
  shows "\<exists>changed fs' fs''. bump d v fs = (Inr changed, fs') \<and> bump d old fs' = (Inr changed, fs'')
    \<and> (\<forall>s\<in>set SITES. site_text fs'' s = site_text fs s)"
proof -
  obtain changed fs' where one: "bump d v fs = (Inr changed, fs')"
    using bump_succeeds [OF assms(2,5,3,6)] by blast
  note plain = all_bytes_plain [OF assms(1)]
  have "current_version fs' = Inr v" by (rule bump_states [OF plain one])
  then obtain changed' fs'' where two: "bump d old fs' = (Inr changed', fs'')"
    using bump_succeeds [OF assms(2,4)] assms(6) by metis
  have mid: "old_text fs' s = new_text fs v s" if "s \<in> set SITES" for s
    using bump_texts [OF plain one that] by (simp add: old_text_def)
  have "site_text fs'' s = site_text fs s" if s: "s \<in> set SITES" for s
    using bump_texts [OF bump_plain [OF plain one] two s] back_text [OF assms(3,5) s mid [OF s]]
      current_version_texts [OF assms(3) s] by simp
  moreover have "changed' = changed"
    unfolding bump_changed [OF one] bump_changed [OF two]
    using mid rewritten_text(3) [OF _ assms(5)] by (simp add: new_text_def)
  ultimately show ?thesis using one two by blast
qed

text \<open>
  C36 (no file is torn): whatever bump returns and whatever the disk does, every site holds the bytes it
  held or the complete rewritten text; and where bump refuses, all files are untouched.
\<close>

theorem bump_never_tears:
  assumes "bump d v fs = (r, fs')" "s \<in> set SITES"
  shows "(fs' (site_path s) = fs (site_path s)
      \<or> (\<exists>t. site_text fs s = Inr t \<and> fs' (site_path s) = Some (utf8_encode (fst (rewrite t (site_pattern_at s) v)))))
    \<and> ((\<exists>e. r = Inl e \<and> is_value_error e) \<longrightarrow> fs' = fs)"
  using assms(1)
proof (cases rule: bump_cases)
  case (2 old)
  have "\<not> (\<exists>e. r = Inl e \<and> is_value_error e)"
    using write_sites_result [where d = d and rs = "planned fs v" and fs = fs] 2(4) by auto
  with write_planned(1) [OF 2(4) assms(2)] show ?thesis
    using current_version_texts [OF 2(2) assms(2)] rewritten_text(1) [OF assms(2) 2(1)]
    by (auto simp: new_text_def)
qed simp

section \<open>The sample repository\<close>

definition good_disk :: disk where
  "good_disk = \<lparr> dk_no_open = (\<lambda>_. False), dk_cut = (\<lambda>_. None), dk_no_mode = (\<lambda>_. False), dk_no_move = (\<lambda>_. False),
     dk_no_unlink = (\<lambda>_. False), dk_cached = (\<lambda>_. [lit ''version.cpython-312.pyc'']) \<rparr>"

definition half_disk :: disk where
  "half_disk = good_disk \<lparr> dk_no_move := (\<lambda>p. p = PIXI_PATH) \<rparr>"

lemma good_disk_sound: "sound good_disk"
  by (simp add: good_disk_def sound_def)

lemma sample_bytes: "all_bytes sample_files"
proof -
  have "byte_list (utf8_encode (sample_text EXPECTED_VERSION))" by code_simp
  then show ?thesis by (auto simp: all_bytes_def sample_files_def)
qed

lemma sample_current: "current_version sample_files = Inr EXPECTED_VERSION"
  unfolding current_version_iff
  by (auto simp: states_def site_text_read sample_read SITES_def sample_literals)

lemma sample_versions: "is_version EXPECTED_VERSION" "is_version (lit ''1.3.0'')" "lit ''1.3.0'' \<noteq> EXPECTED_VERSION"
  by code_simp+

theorem bump_and_back_witness:
  "\<exists>changed fs' fs''. bump good_disk (lit ''1.3.0'') sample_files = (Inr changed, fs')
    \<and> bump good_disk EXPECTED_VERSION fs' = (Inr changed, fs'')
    \<and> (\<forall>s\<in>set SITES. site_text fs'' s = site_text sample_files s)"
  by (rule bump_and_back [OF sample_bytes good_disk_sound sample_current sample_versions])


lemma refused_move:
  assumes "dk_no_move d p" "sound (d \<lparr> dk_no_move := \<lambda>_. False \<rparr>)" "p \<noteq> temp_path p"
  shows "fst (atomic_write d p t fs) = Some (SiteOSError p)" "snd (atomic_write d p t fs) p = fs p"
  using assms by (simp_all add: atomic_write_def Let_def sound_def discard_temp_def)

lemma half_written:
  assumes "apart (p # q # ps)" "dk_no_move d = (\<lambda>r. r = q)" "sound (d \<lparr> dk_no_move := \<lambda>_. False \<rparr>)"
    "python_stem (last p) = None" "site_path s = p" "site_path s' = q"
  obtains e fs' where "write_sites d ((s, t, n) # (s', t', n') # rest) fs = (Inl e, fs')"
    "fs' p = Some (utf8_encode t)" "fs' q = fs q"
proof -
  have ne: "p \<noteq> q" using assms(1) by (simp add: apart_def)
  obtain fs1 where one: "atomic_write d p t fs = (None, fs1)"
    using assms(2,3,4) ne by (simp add: atomic_write_def Let_def sound_def stale_bytecode_def)
  have "fs1 p = Some (utf8_encode t)"
    using atomic_write_here(2) [OF assms(1), of p d t fs] one by simp
  moreover have "fs1 q = fs q"
    using atomic_write_other [OF assms(1), of q p d t fs] one ne by simp
  moreover obtain fs2 where two: "atomic_write d q t' fs1 = (Some (SiteOSError q), fs2)" "fs2 q = fs1 q"
    using refused_move [of d q t' fs1] assms(2,3) apart_temp [OF assms(1), of q q]
    by (cases "atomic_write d q t' fs1") simp
  moreover have "fs2 p = fs1 p"
    using atomic_write_other [OF assms(1), of p q d t' fs1] two ne by simp
  ultimately show thesis using one assms(5,6) by (intro that [of "SiteOSError q" fs2]) simp_all
qed

text \<open>
  A failed bump can have written: \<open>main\<close> returns 1 although the first site already states the new
  version, when the disk refuses a later file; the manifests then disagree and a second run refuses.
\<close>

theorem failed_bump_half_written:
  "\<exists>fs'. bump_main half_disk (lit ''1.3.0'') sample_files = (1, fs')
    \<and> parse_mtest_version fs' = Inr (lit ''1.3.0'') \<and> parse_pixi_version fs' = Inr EXPECTED_VERSION"
proof -
  let ?v = "lit ''1.3.0''" and ?s = "site PARSER_PATH MTEST_VERSION_AT"
  obtain s' rest where sites: "SITES = ?s # s' # rest" "site_path s' = PIXI_PATH" by (simp add: SITES_def)
  have apart: "apart (PARSER_PATH # PIXI_PATH # map site_path rest)" using sites_apart unfolding sites(1) by (simp add: sites(2))
  have half: "dk_no_move half_disk = (\<lambda>r. r = PIXI_PATH)" "sound (half_disk \<lparr> dk_no_move := \<lambda>_. False \<rparr>)"
    by (simp_all add: half_disk_def good_disk_def sound_def)
  have mojo: "python_stem (last PARSER_PATH) = None" by code_simp
  let ?n = "\<lambda>s. length (literals (site_pattern_at s) (old_text sample_files s))"
  have plan: "planned sample_files ?v = (?s, new_text sample_files ?v ?s, ?n ?s) # (s', new_text sample_files ?v s', ?n s')
      # map (\<lambda>s. (s, new_text sample_files ?v s, ?n s)) rest"
    by (simp only: planned_def sites(1) list.map)
  obtain e fs' where w: "write_sites half_disk (planned sample_files ?v) sample_files = (Inl e, fs')"
      "fs' PARSER_PATH = Some (utf8_encode (new_text sample_files ?v ?s))" "fs' PIXI_PATH = sample_files PIXI_PATH"
    unfolding plan by (rule half_written [OF apart half mojo site_simps(1) sites(2)])
  have "bump_main half_disk ?v sample_files = (1, fs')"
    using w(1) sample_versions(2,3) sample_current rewrite_planned [OF sample_versions(2) sample_current]
    by (simp add: bump_main_def bump_def)
  moreover have "parse_pixi_version fs' = Inr EXPECTED_VERSION"
    using w(3) sample_read [of PIXI_PATH] sample_literals(2)
    by (simp add: parse_pixi_version_def first_literal_def read_text_def)
  moreover have "states fs' ?v ?s"
  proof -
    have s: "?s \<in> set SITES" by (simp add: sites(1))
    have "site_text fs' ?s = Inr (new_text sample_files ?v ?s)"
      using w(2) new_text_plain [OF all_bytes_plain [OF sample_bytes] sample_versions(2) sample_current s]
      by (intro written_back) simp_all
    then show ?thesis
      using rewritten_text(3) [OF s sample_versions(2), of "old_text sample_files ?s"]
        current_version_texts [OF sample_current s] sample_literals(1)
      by (simp add: states_def new_text_def site_text_read sample_read)
  qed
  then have "parse_mtest_version fs' = Inr ?v"
    unfolding parse_mtest_version_def by (rule states_first)
  ultimately show ?thesis by blast
qed

theorem bump_never_tears_witness:
  "\<exists>r fs'. bump half_disk (lit ''1.3.0'') sample_files = (r, fs')
    \<and> (\<forall>s\<in>set SITES. fs' (site_path s) = sample_files (site_path s)
        \<or> (\<exists>t. site_text sample_files s = Inr t
             \<and> fs' (site_path s) = Some (utf8_encode (fst (rewrite t (site_pattern_at s) (lit ''1.3.0''))))))"
proof -
  obtain r fs' where b: "bump half_disk (lit ''1.3.0'') sample_files = (r, fs')" by fastforce
  from bump_never_tears [OF b] b show ?thesis by blast
qed

end
