(* ===== verification/Recipe.thy ===== *)
theory Recipe
  imports Release_Checks Text_Files
begin

text \<open>
  scripts/release/recipe.py: rendering the community recipe from its template, the manifest of the
  rendered tree, its verification, and staging the tree into an upstream checkout.  A directory is the
  association list of its entries; the hash and what the disk refuses are arguments.
\<close>

section \<open>Rendering\<close>

record render_request =
  rr_version :: str
  rr_source_rev :: str
  rr_build_number :: int

datatype token = VersionToken | SourceRevToken | BuildNumberToken

fun token_name :: "token \<Rightarrow> bytes" where
  "token_name VersionToken = lit ''@@MTEST_VERSION@@''"
| "token_name SourceRevToken = lit ''@@MTEST_SOURCE_REV@@''"
| "token_name BuildNumberToken = lit ''@@MTEST_BUILD_NUMBER@@''"

definition TOKENS :: "token list" where
  "TOKENS = [VersionToken, SourceRevToken, BuildNumberToken]"

definition validate_request :: "render_request \<Rightarrow> release_exn + unit" where
  "validate_request r = checks
     [require ''invalid version'' (is_version (rr_version r)),
      require ''invalid source revision'' (is_sha (rr_source_rev r)),
      require ''invalid build number'' (0 \<le> rr_build_number r)]"

text \<open>\<open>rb"@@MTEST_[A-Z0-9_]+@@"\<close> at a place: the length of the match.\<close>

definition token_char :: "int \<Rightarrow> bool" where
  "token_char c \<longleftrightarrow> is_ascii_digit c \<or> (65 \<le> c \<and> c \<le> 90) \<or> c = 95"

definition token_at :: "bytes \<Rightarrow> nat option" where
  "token_at s =
     (if startswith s (lit ''@@MTEST_'') then
        (let n = length (takeWhile token_char (drop 8 s))
         in if n \<noteq> 0 \<and> startswith (drop (8 + n) s) (lit ''@@'') then Some (10 + n) else None)
      else None)"

function token_findall :: "bytes \<Rightarrow> bytes list" where
  "token_findall s =
     (case s of
        [] \<Rightarrow> []
      | c # r \<Rightarrow> (case token_at s of
            None \<Rightarrow> token_findall r
          | Some n \<Rightarrow> take n s # token_findall (drop n s)))"
  by pat_completeness auto
termination
  by (relation "measure length") (auto simp: token_at_def Let_def split: if_splits)

declare token_findall.simps [simp del]

fun token_value :: "render_request \<Rightarrow> token \<Rightarrow> bytes" where
  "token_value r VersionToken = rr_version r"
| "token_value r SourceRevToken = rr_source_rev r"
| "token_value r BuildNumberToken = int_repr (rr_build_number r)"

definition substitute :: "render_request \<Rightarrow> bytes \<Rightarrow> bytes" where
  "substitute r template = fold (\<lambda>t s. replace_all (token_name t) (token_value r t) s) TOKENS template"

definition render_recipe :: "bytes \<Rightarrow> render_request \<Rightarrow> release_exn + bytes" where
  "render_recipe template r =
     rbind (validate_request r) (\<lambda>_.
       let found = token_findall template
       in if set found \<noteq> set (map token_name TOKENS)
             \<or> list_ex (\<lambda>t. count_list found (token_name t) \<noteq> 1) TOKENS
          then Inl (RValue ''recipe token membership/count mismatch'')
          else if 4300 < length (int_repr (rr_build_number r)) then Inl (RValue ''digit limit'')
          else
            let rendered = substitute r template
            in if token_findall rendered \<noteq> [] then Inl (RValue ''rendered recipe contains an unresolved token'')
               else Inr (rstrip_of (\<lambda>c. c = 13 \<or> c = 10) rendered @ [10]))"

section \<open>Trees\<close>

text \<open>A link carries whether what it points to exists.\<close>

datatype node = PlainFile bytes | SpecialFile | SymLink bool | Directory "(str \<times> node) list"

definition RECIPE_FILES :: "str list" where
  "RECIPE_FILES = [lit ''recipe.yaml'', lit ''test_smoke.mojo'']"

record manifest_entry =
  me_path :: str
  me_sha256 :: str

type_synonym manifest = "manifest_entry list"

text \<open>What \<open>read_bytes\<close> reads of a regular file.\<close>

fun hash_child :: "(bytes \<Rightarrow> str) \<Rightarrow> str \<times> node \<Rightarrow> release_exn + manifest_entry" where
  "hash_child sha256 (name, PlainFile content) = Inr \<lparr> me_path = name, me_sha256 = sha256 content \<rparr>"
| "hash_child sha256 (name, _) = Inl (RValue ''recipe entry must be a regular non-link file'')"

fun hash_children :: "(bytes \<Rightarrow> str) \<Rightarrow> (str \<times> node) list \<Rightarrow> release_exn + manifest" where
  "hash_children sha256 [] = Inr []"
| "hash_children sha256 (c # cs) =
     rbind (hash_child sha256 c) (\<lambda>e. rbind (hash_children sha256 cs) (\<lambda>es. Inr (e # es)))"

definition by_path :: "manifest \<Rightarrow> manifest" where
  "by_path entries = sort_key (\<lambda>e. utf8_encode (me_path e)) entries"

text \<open>\<open>None\<close> is a root that does not exist.\<close>

definition build_manifest :: "(bytes \<Rightarrow> str) \<Rightarrow> node option \<Rightarrow> release_exn + manifest" where
  "build_manifest sha256 tree =
     (case tree of
        Some (Directory children) \<Rightarrow>
          if fst ` set children \<noteq> set RECIPE_FILES then Inl (RValue ''recipe root must contain exactly'')
          else rbind (hash_children sha256 children) (\<lambda>es. Inr (by_path es))
      | _ \<Rightarrow> Inl (RValue ''recipe root is not a regular directory''))"

section \<open>The manifest\<close>

definition entry_json :: "manifest_entry \<Rightarrow> json" where
  "entry_json e = JObj [(lit ''path'', JStr (me_path e)), (lit ''sha256'', JStr (me_sha256 e))]"

definition manifest_json :: "manifest \<Rightarrow> json" where
  "manifest_json es = JArr (map entry_json es)"

text \<open>The document holds no number, so printing it cannot exceed the digit limit.\<close>

definition manifest_bytes :: "manifest \<Rightarrow> bytes" where
  "manifest_bytes es = utf8_encode (json_text (sort_keys (manifest_json es))) @ [10]"

definition directory_digest :: "(bytes \<Rightarrow> str) \<Rightarrow> manifest \<Rightarrow> str" where
  "directory_digest sha256 es = sha256 (manifest_bytes es)"

definition parse_entry :: "json \<Rightarrow> release_exn + manifest_entry" where
  "parse_entry item =
     (case item of
        JObj d \<Rightarrow>
          if set (map fst d) \<noteq> {lit ''path'', lit ''sha256''} then Inl (RValue ''manifest entries require exactly path and sha256'')
          else
            (case jget d (lit ''path'') of
               JStr p \<Rightarrow>
                 if p \<notin> set RECIPE_FILES \<or> 47 \<in> set p \<or> 92 \<in> set p then Inl (RValue ''invalid manifest path'')
                 else
                   (case jget d (lit ''sha256'') of
                      JStr digest \<Rightarrow>
                        if is_digest digest then Inr \<lparr> me_path = p, me_sha256 = digest \<rparr>
                        else Inl (RValue ''invalid manifest digest'')
                    | _ \<Rightarrow> Inl (RValue ''invalid manifest digest''))
             | _ \<Rightarrow> Inl (RValue ''invalid manifest path''))
      | _ \<Rightarrow> Inl (RValue ''manifest entries require exactly path and sha256''))"

fun parse_entries :: "json list \<Rightarrow> release_exn + manifest" where
  "parse_entries [] = Inr []"
| "parse_entries (item # items) =
     rbind (parse_entry item) (\<lambda>e. rbind (parse_entries items) (\<lambda>es. Inr (e # es)))"

definition parse_manifest :: "bytes \<Rightarrow> release_exn + manifest" where
  "parse_manifest encoded =
     (case json_loads_bytes encoded of
        Inl _ \<Rightarrow> Inl (RValue ''invalid manifest JSON'')
      | Inr (JArr items) \<Rightarrow>
          rbind (parse_entries items) (\<lambda>es. rbind (checks
            [require ''manifest entries are not byte-sorted'' (es = by_path es),
             require ''manifest file membership mismatch'' (set (map me_path es) = set RECIPE_FILES),
             require ''manifest contains duplicate paths'' (length es = length RECIPE_FILES),
             require ''manifest is not canonical JSON'' (manifest_bytes es = encoded)]) (\<lambda>_. Inr es))
      | Inr _ \<Rightarrow> Inl (RValue ''manifest root must be a list''))"

definition verify_manifest :: "(bytes \<Rightarrow> str) \<Rightarrow> node option \<Rightarrow> bytes \<Rightarrow> str \<Rightarrow> release_exn + unit" where
  "verify_manifest sha256 tree encoded expected_digest =
     rbind (require ''invalid expected manifest digest'' (is_digest expected_digest)) (\<lambda>_.
     rbind (require ''manifest digest mismatch'' (sha256 encoded = expected_digest)) (\<lambda>_.
     rbind (parse_manifest encoded) (\<lambda>expected_entries.
     rbind (build_manifest sha256 tree) (\<lambda>actual_entries.
       require ''rendered recipe differs from manifest'' (actual_entries = expected_entries)))))"

section \<open>Staging\<close>

text \<open>
  What the disk refuses: the removal of the old directory, which leaves part of it; making a directory;
  copying a file, which leaves part of it.
\<close>

record stage_disk =
  sd_rmtree :: "node option"
  sd_mkdir :: bool
  sd_mkdir_target :: bool
  sd_copy :: "str \<Rightarrow> nat option"

abbreviation recipes_name :: str where "recipes_name \<equiv> lit ''recipes''"
abbreviation mtest_name :: str where "mtest_name \<equiv> lit ''mtest''"

definition without :: "str \<Rightarrow> (str \<times> node) list \<Rightarrow> (str \<times> node) list" where
  "without name d = filter (\<lambda>(k, _). k \<noteq> name) d"

text \<open>The copies into the new \<open>mtest\<close> directory; the files made so far and whether all were made.\<close>

fun copy_files :: "stage_disk \<Rightarrow> (str \<times> node) list \<Rightarrow> str list \<Rightarrow> bool \<times> (str \<times> node) list" where
  "copy_files sd source [] = (True, [])"
| "copy_files sd source (name # names) =
     (case map_of source name of
        Some (PlainFile content) \<Rightarrow>
          (case sd_copy sd name of
             Some n \<Rightarrow> (False, [(name, PlainFile (take n content))])
           | None \<Rightarrow> (let (ok, made) = copy_files sd source names in (ok, (name, PlainFile content) # made)))
      | _ \<Rightarrow> (False, []))"

text \<open>Making \<open>mtest\<close> below \<open>recipes\<close> and filling it; the entries of \<open>recipes\<close> afterwards.\<close>

definition fill_target :: "stage_disk \<Rightarrow> (str \<times> node) list \<Rightarrow> (str \<times> node) list \<Rightarrow> bool \<times> (str \<times> node) list" where
  "fill_target sd source entries =
     (if sd_mkdir_target sd then (False, entries)
      else (let (ok, made) = copy_files sd source RECIPE_FILES in (ok, dict_set mtest_name (Directory made) entries)))"

definition staged_checkout :: "(str \<times> node) list \<Rightarrow> bool \<times> (str \<times> node) list \<Rightarrow> release_exn option \<times> node" where
  "staged_checkout checkout filled =
     ((if fst filled then None else Some ROS), Directory (dict_set recipes_name (Directory (snd filled)) checkout))"

definition children_of :: "node option \<Rightarrow> (str \<times> node) list" where
  "children_of t = (case t of Some (Directory d) \<Rightarrow> d | _ \<Rightarrow> [])"

definition stage_recipe :: "(bytes \<Rightarrow> str) \<Rightarrow> stage_disk \<Rightarrow> node option \<Rightarrow> node \<Rightarrow> release_exn option \<times> node" where
  "stage_recipe sha256 sd source destination =
     (case build_manifest sha256 source of
        Inl e \<Rightarrow> (Some e, destination)
      | Inr _ \<Rightarrow>
          (case destination of
             Directory checkout \<Rightarrow>
               (let make = \<lambda>rest. if sd_mkdir sd then (Some ROS, Directory rest)
                                   else staged_checkout rest (fill_target sd (children_of source) [])
                in case map_of checkout recipes_name of
                     Some (SymLink _) \<Rightarrow> (Some (RValue ''upstream recipes boundary must not be a link''), destination)
                   | Some (Directory old) \<Rightarrow>
                       (case sd_rmtree sd of
                          Some remains \<Rightarrow> (Some ROS, Directory (dict_set recipes_name remains checkout))
                        | None \<Rightarrow> make (without recipes_name checkout))
                   | Some _ \<Rightarrow> (Some (RValue ''upstream recipes boundary is not a directory''), destination)
                   | None \<Rightarrow> make checkout)
           | _ \<Rightarrow> (Some (RValue ''upstream checkout is not a regular directory''), destination)))"

definition stage_recipe_target :: "(bytes \<Rightarrow> str) \<Rightarrow> stage_disk \<Rightarrow> node option \<Rightarrow> node \<Rightarrow> release_exn option \<times> node" where
  "stage_recipe_target sha256 sd source destination =
     (case build_manifest sha256 source of
        Inl e \<Rightarrow> (Some e, destination)
      | Inr _ \<Rightarrow>
          (case destination of
             Directory checkout \<Rightarrow>
               (case map_of checkout recipes_name of
                  Some (Directory recipes) \<Rightarrow>
                    (case map_of recipes mtest_name of
                       None \<Rightarrow> staged_checkout checkout (fill_target sd (children_of source) recipes)
                     | Some (Directory old) \<Rightarrow>
                         (case sd_rmtree sd of
                            Some remains \<Rightarrow>
                              (Some ROS, Directory (dict_set recipes_name (Directory (dict_set mtest_name remains recipes)) checkout))
                          | None \<Rightarrow> staged_checkout checkout (fill_target sd (children_of source) (without mtest_name recipes)))
                     | Some (SymLink _) \<Rightarrow> (Some (RValue ''upstream mtest recipe boundary must not be a link''), destination)
                     | Some _ \<Rightarrow> (Some (RValue ''upstream mtest recipe boundary is invalid''), destination))
                | _ \<Rightarrow> (Some (RValue ''upstream recipes boundary must be a regular directory''), destination))
           | _ \<Rightarrow> (Some (RValue ''upstream checkout is not a regular directory''), destination)))"

section \<open>The command line\<close>

definition parse_build_number :: "str \<Rightarrow> release_exn + int" where
  "parse_build_number raw =
     (if \<not> numeric_part raw then Inl (RValue ''invalid build number'')
      else if 4300 < length raw then Inl (RValue ''digit limit'')
      else Inr (digits_value raw))"

text \<open>
  What the disk refuses while rendering: making the output, writing the recipe, copying the smoke test,
  which leave the given tree, and writing the manifest, which leaves the given bytes.
\<close>

record render_disk =
  rd_mkdir :: bool
  rd_recipe :: "node option"
  rd_smoke :: "node option"
  rd_manifest :: "bytes option"

record render_outcome =
  ro_result :: "release_exn + str"
  ro_output :: "node option"
  ro_manifest :: "bytes option"

definition render_fails :: "release_exn \<Rightarrow> node option \<Rightarrow> bytes option \<Rightarrow> render_outcome" where
  "render_fails e output manifest_file = \<lparr> ro_result = Inl e, ro_output = output, ro_manifest = manifest_file \<rparr>"

definition output_ready :: "render_disk \<Rightarrow> node option \<Rightarrow> release_exn + node" where
  "output_ready rd output =
     (case output of
        None \<Rightarrow> if rd_mkdir rd then Inl ROS else Inr (Directory [])
      | Some (SymLink False) \<Rightarrow> Inl ROS
      | Some (Directory []) \<Rightarrow> Inr (Directory [])
      | Some _ \<Rightarrow> Inl (RValue ''render output must be an empty regular directory''))"

definition render_command ::
  "(bytes \<Rightarrow> str) \<Rightarrow> render_disk \<Rightarrow> bytes option \<Rightarrow> bytes option \<Rightarrow> str \<Rightarrow> str \<Rightarrow> str \<Rightarrow> node option \<Rightarrow> bytes option \<Rightarrow>
    render_outcome" where
  "render_command sha256 rd template smoke version source_rev build_number output manifest_file =
     (case output_ready rd output of
        Inl e \<Rightarrow> render_fails e output manifest_file
      | Inr made \<Rightarrow>
     (case rbind (parse_build_number build_number) (\<lambda>n.
             case template of
               None \<Rightarrow> Inl ROS
             | Some t \<Rightarrow> render_recipe t \<lparr> rr_version = version, rr_source_rev = source_rev, rr_build_number = n \<rparr>) of
        Inl e \<Rightarrow> render_fails e (Some made) manifest_file
      | Inr recipe \<Rightarrow>
     (case rd_recipe rd of
        Some remains \<Rightarrow> render_fails ROS (Some remains) manifest_file
      | None \<Rightarrow>
     (case (smoke, rd_smoke rd) of
        (None, _) \<Rightarrow> render_fails ROS (Some (Directory [(lit ''recipe.yaml'', PlainFile recipe)])) manifest_file
      | (_, Some remains) \<Rightarrow> render_fails ROS (Some remains) manifest_file
      | (Some s, None) \<Rightarrow>
          (let tree = Some (Directory [(lit ''recipe.yaml'', PlainFile recipe), (lit ''test_smoke.mojo'', PlainFile s)])
           in case build_manifest sha256 tree of
                Inl e \<Rightarrow> render_fails e tree manifest_file
              | Inr entries \<Rightarrow>
                  (case rd_manifest rd of
                     Some remains \<Rightarrow> render_fails ROS tree (Some remains)
                   | None \<Rightarrow>
                       \<lparr> ro_result = Inr (sha256 (manifest_bytes entries)), ro_output = tree,
                         ro_manifest = Some (manifest_bytes entries) \<rparr>))))))"

text \<open>\<open>main\<close>: the exit status.\<close>

definition verify_command :: "(bytes \<Rightarrow> str) \<Rightarrow> node option \<Rightarrow> bytes option \<Rightarrow> str \<Rightarrow> int" where
  "verify_command sha256 tree encoded expected_digest =
     (case encoded of
        None \<Rightarrow> 1
      | Some m \<Rightarrow> (case verify_manifest sha256 tree m expected_digest of Inl _ \<Rightarrow> 1 | Inr _ \<Rightarrow> 0))"

section \<open>Manifests read back\<close>

definition valid_manifest :: "manifest \<Rightarrow> bool" where
  "valid_manifest es \<longleftrightarrow> es = by_path es \<and> set (map me_path es) = set RECIPE_FILES \<and> length es = length RECIPE_FILES
     \<and> list_all (\<lambda>e. is_digest (me_sha256 e)) es"

lemma path_before_sha: "lit ''path'' \<le> lit ''sha256''" "\<not> lit ''sha256'' \<le> lit ''path''"
  by code_simp+

lemma entry_sorted: "sort_keys (entry_json e) = entry_json e"
  using path_before_sha by (simp add: entry_json_def del: lit_Cons lit_Nil)

lemma entry_printable: "me_path e \<in> set RECIPE_FILES \<Longrightarrow> is_digest (me_sha256 e) \<Longrightarrow> printable (entry_json e)"
  by (auto simp: entry_json_def RECIPE_FILES_def accepted_scalar scalar_text_def [of "_ # _"] scalar_text_def [of "[]"])

lemma valid_printable:
  assumes "valid_manifest es"
  shows "printable (manifest_json es)"
proof -
  have "printable (entry_json e)" if "e \<in> set es" for e
    using assms that by (intro entry_printable) (auto simp: valid_manifest_def list_all_iff)
  then show ?thesis by (auto simp: manifest_json_def list_all_iff)
qed

lemma manifest_canonical: "valid_manifest es \<Longrightarrow> canonical_bytes (manifest_json es) = Inr (manifest_bytes es)"
  using valid_printable [of es] by (simp add: canonical_bytes_def json_dumps_def printable_digits_fit manifest_bytes_def)

lemma parse_entry_json:
  "me_path e \<in> set RECIPE_FILES \<Longrightarrow> is_digest (me_sha256 e) \<Longrightarrow> parse_entry (entry_json e) = Inr e"
  by (auto simp: parse_entry_def entry_json_def jget_def RECIPE_FILES_def)

lemma parse_entry_Inr: "parse_entry item = Inr e \<Longrightarrow> me_path e \<in> set RECIPE_FILES \<and> is_digest (me_sha256 e)"
  by (auto simp: parse_entry_def split: json.splits if_splits)

lemma parse_entries_json:
  "list_all (\<lambda>e. me_path e \<in> set RECIPE_FILES \<and> is_digest (me_sha256 e)) es \<Longrightarrow> parse_entries (map entry_json es) = Inr es"
  by (induction es) (auto simp: parse_entry_json)

lemma parse_entries_Inr:
  "parse_entries items = Inr es \<Longrightarrow> list_all (\<lambda>e. me_path e \<in> set RECIPE_FILES \<and> is_digest (me_sha256 e)) es"
  by (induction items arbitrary: es) (auto simp: rbind_Inr dest: parse_entry_Inr)

lemma parse_manifest_iff: "parse_manifest b = Inr es \<longleftrightarrow> valid_manifest es \<and> manifest_bytes es = b"
proof
  assume "parse_manifest b = Inr es"
  then show "valid_manifest es \<and> manifest_bytes es = b"
    by (auto simp: parse_manifest_def rbind_Inr checks_Inr valid_manifest_def list_all_iff
        dest!: parse_entries_Inr split: sum.splits json.splits)
next
  assume es: "valid_manifest es \<and> manifest_bytes es = b"
  have "json_loads_bytes b = Inr (sort_keys (manifest_json es))"
    using es canonical_read_back [OF valid_printable manifest_canonical] by blast
  then have "json_loads_bytes b = Inr (JArr (map entry_json es))"
    by (simp add: manifest_json_def entry_sorted cong: map_cong)
  moreover have "list_all (\<lambda>e. me_path e \<in> set RECIPE_FILES \<and> is_digest (me_sha256 e)) es"
    using es by (auto simp: valid_manifest_def list_all_iff)
  ultimately show "parse_manifest b = Inr es"
    using es by (simp add: parse_manifest_def parse_entries_json checks.simps require_def valid_manifest_def)
qed

section \<open>Manifests of trees\<close>

lemma hash_children_paths: "hash_children sha256 cs = Inr es \<Longrightarrow> map me_path es = map fst cs"
proof (induction cs arbitrary: es)
  case (Cons c cs)
  then show ?case
    by (cases "(sha256, c)" rule: hash_child.cases) (auto simp: rbind_Inr)
qed simp

lemma hash_children_digests:
  "\<forall>b. is_digest (sha256 b) \<Longrightarrow> hash_children sha256 cs = Inr es \<Longrightarrow> list_all (\<lambda>e. is_digest (me_sha256 e)) es"
proof (induction cs arbitrary: es)
  case (Cons c cs)
  then show ?case
    by (cases "(sha256, c)" rule: hash_child.cases) (auto simp: rbind_Inr)
qed simp

lemma by_path_set: "set (by_path es) = set es" "length (by_path es) = length es" "by_path (by_path es) = by_path es"
  by (simp_all add: by_path_def sort_key_id_if_sorted)

lemma build_manifest_valid:
  assumes "\<forall>b. is_digest (sha256 b)" "build_manifest sha256 tree = Inr es" "distinct (map fst (children_of tree))"
  shows "valid_manifest es"
proof -
  obtain cs es' where cs: "tree = Some (Directory cs)" "fst ` set cs = set RECIPE_FILES"
      "hash_children sha256 cs = Inr es'" "es = by_path es'"
    using assms(2) by (auto simp: build_manifest_def rbind_Inr split: option.splits node.splits if_splits)
  have paths: "map me_path es' = map fst cs" by (rule hash_children_paths [OF cs(3)])
  have "distinct (map fst cs)" using assms(3) cs(1) by (simp add: children_of_def)
  then have "length cs = card (set RECIPE_FILES)"
    using distinct_card [of "map fst cs"] cs(2) by simp
  also have "\<dots> = length RECIPE_FILES" by (simp add: RECIPE_FILES_def)
  finally have "length es' = length RECIPE_FILES" using paths by (metis length_map)
  moreover have "me_path ` set es' = set RECIPE_FILES" using paths cs(2) by (metis list.set_map)
  ultimately show ?thesis
    using hash_children_digests [OF assms(1) cs(3)]
    by (simp add: valid_manifest_def cs(4) by_path_set list_all_iff)
qed

lemma require_Inr': "rbind (require m ok) f = Inr u \<longleftrightarrow> ok \<and> f () = Inr u"
  by (simp add: require_def)

text \<open>
  C34 (the manifest fixes the tree): a tree is verified against manifest bytes and a digest exactly when
  the bytes hash to the digest and are the canonical manifest of that very tree.
\<close>

theorem manifest_verified_iff:
  assumes "\<forall>b. is_digest (sha256 b)" "distinct (map fst (children_of tree))"
  shows "verify_manifest sha256 tree encoded digest = Inr () \<longleftrightarrow>
    sha256 encoded = digest \<and> (\<exists>es. build_manifest sha256 tree = Inr es \<and> manifest_bytes es = encoded)"
  using assms(1) build_manifest_valid [OF assms(1) _ assms(2)]
  by (auto simp: verify_manifest_def rbind_Inr parse_manifest_iff)

text \<open>What the render command leaves verifies against the digest it prints.\<close>

lemma render_command_verifies:
  assumes "\<forall>b. is_digest (sha256 b)"
    and "ro_result (render_command sha256 rd template smoke version commit number output old) = Inr digest"
  shows "verify_command sha256 (ro_output (render_command sha256 rd template smoke version commit number output old))
    (ro_manifest (render_command sha256 rd template smoke version commit number output old)) digest = 0"
proof -
  obtain recipe s es where r:
      "build_manifest sha256 (Some (Directory [(lit ''recipe.yaml'', PlainFile recipe), (lit ''test_smoke.mojo'', PlainFile s)])) = Inr es"
      "render_command sha256 rd template smoke version commit number output old
        = \<lparr> ro_result = Inr (sha256 (manifest_bytes es)),
            ro_output = Some (Directory [(lit ''recipe.yaml'', PlainFile recipe), (lit ''test_smoke.mojo'', PlainFile s)]),
            ro_manifest = Some (manifest_bytes es) \<rparr>" "digest = sha256 (manifest_bytes es)"
    using assms(2)
    by (auto simp: render_command_def render_fails_def Let_def simp del: lit_Cons split: sum.splits option.splits if_splits)
  have "verify_manifest sha256 (ro_output (render_command sha256 rd template smoke version commit number output old))
      (manifest_bytes es) digest = Inr ()"
    using manifest_verified_iff [OF assms(1)] r by (simp add: children_of_def)
  then show ?thesis by (simp add: verify_command_def r(2))
qed

section \<open>Staging\<close>

lemma built_children:
  assumes "build_manifest sha256 source = Inr es"
  obtains cs where "source = Some (Directory cs)" "fst ` set cs = set RECIPE_FILES"
    "\<And>name n. (name, n) \<in> set cs \<Longrightarrow> \<exists>b. n = PlainFile b"
proof -
  obtain cs es' where cs: "source = Some (Directory cs)" "fst ` set cs = set RECIPE_FILES"
      "hash_children sha256 cs = Inr es'"
    using assms by (auto simp: build_manifest_def rbind_Inr split: option.splits node.splits if_splits)
  have "\<exists>b. n = PlainFile b" if "(name, n) \<in> set cs" for name n
    using cs(3) that
  proof (induction cs arbitrary: es')
    case (Cons c cs)
    then show ?case by (cases "(sha256, c)" rule: hash_child.cases) (auto simp: rbind_Inr)
  qed simp
  with cs that show thesis by blast
qed

lemma copied:
  assumes "copy_files sd cs names = (True, made)"
  shows "map fst made = names \<and> (\<forall>name\<in>set names. map_of made name = map_of cs name)"
  using assms
proof (induction names arbitrary: made)
  case (Cons name names)
  then show ?case
    by (fastforce split: option.splits node.splits prod.splits)
qed simp

text \<open>The directory a staging makes: the two files with the bytes of the source.\<close>

definition same_files :: "node option \<Rightarrow> node option \<Rightarrow> bool" where
  "same_files source target \<longleftrightarrow>
     (\<exists>d. target = Some (Directory d) \<and> map fst d = RECIPE_FILES
        \<and> (\<forall>name\<in>set RECIPE_FILES. map_of d name = map_of (children_of source) name))"

definition entry :: "str \<Rightarrow> node option \<Rightarrow> node option" where
  "entry name t = map_of (children_of t) name"

lemma filled:
  assumes "fill_target sd source entries = (True, entries')"
  shows "map_of entries' = (map_of entries)(mtest_name \<mapsto> Directory (snd (copy_files sd source RECIPE_FILES)))
    \<and> fst (copy_files sd source RECIPE_FILES)"
  using assms by (auto simp: fill_target_def update_conv Let_def simp del: lit_Cons split: if_splits prod.splits)

lemma map_of_without: "map_of (without name d) = (map_of d)(name := None)"
  by (induction d) (auto simp: without_def)

lemma staged_None:
  assumes "staged_checkout checkout (fill_target sd (children_of source) entries) = (None, t)"
  shows "entry recipes_name (Some t) = Some (Directory (snd (fill_target sd (children_of source) entries)))
    \<and> (\<forall>name. name \<noteq> recipes_name \<longrightarrow> entry name (Some t) = map_of checkout name)
    \<and> fst (fill_target sd (children_of source) entries)"
  using assms by (auto simp: staged_checkout_def entry_def children_of_def update_conv simp del: lit_Cons split: if_splits)

lemma filled_target:
  assumes "fst (fill_target sd (children_of source) entries)" "build_manifest sha256 source = Inr es"
  defines "made \<equiv> Some (Directory (snd (fill_target sd (children_of source) entries)))"
  shows "same_files source (entry mtest_name made)"
    "name \<noteq> mtest_name \<Longrightarrow> entry name made = map_of entries name"
proof -
  obtain entries' where f: "fill_target sd (children_of source) entries = (True, entries')"
    using assms(1) by (metis prod.collapse)
  from filled [OF f] obtain d where d: "copy_files sd (children_of source) RECIPE_FILES = (True, d)"
      "map_of entries' = (map_of entries)(mtest_name \<mapsto> Directory d)"
    by (metis prod.collapse)
  show "same_files source (entry mtest_name made)"
    using copied [OF d(1)] d(2) f by (simp add: same_files_def entry_def made_def children_of_def del: lit_Cons)
  show "name \<noteq> mtest_name \<Longrightarrow> entry name made = map_of entries name"
    using d(2) f by (simp add: entry_def made_def children_of_def del: lit_Cons)
qed

text \<open>What a staging into the target has to do.\<close>

definition target_staged :: "node option \<Rightarrow> node \<Rightarrow> release_exn option \<Rightarrow> node \<Rightarrow> bool" where
  "target_staged source destination e t \<longleftrightarrow>
     (e = None \<longrightarrow>
        same_files source (entry mtest_name (entry recipes_name (Some t)))
        \<and> (\<forall>name. name \<noteq> mtest_name \<longrightarrow>
            entry name (entry recipes_name (Some t)) = entry name (entry recipes_name (Some destination)))
        \<and> (\<forall>name. name \<noteq> recipes_name \<longrightarrow> entry name (Some t) = entry name (Some destination)))
     \<and> ((\<exists>m. e = Some (RValue m)) \<longrightarrow> t = destination)"

lemma staged_target:
  assumes "staged_checkout checkout (fill_target sd (children_of source) entries) = (e, t)"
    "build_manifest sha256 source = Inr es" "map_of checkout recipes_name = Some (Directory recipes)"
    "\<And>name. name \<noteq> mtest_name \<Longrightarrow> map_of entries name = map_of recipes name"
  shows "target_staged source (Directory checkout) e t"
proof (cases e)
  case None
  note s = staged_None [OF assms(1) [unfolded None]]
  note f = filled_target [of sd source entries sha256 es, OF _ assms(2)]
  show ?thesis
    using s f assms(3,4) None
    by (simp add: target_staged_def entry_def children_of_def del: lit_Cons)
next
  case (Some x)
  then have "e = Some ROS" using assms(1) by (auto simp: staged_checkout_def split: if_splits)
  then show ?thesis by (simp add: target_staged_def)
qed

lemma stage_recipe_target_spec:
  assumes "stage_recipe_target sha256 sd source destination = (e, t)"
  shows "target_staged source destination e t"
proof (cases "build_manifest sha256 source")
  case (Inl e')
  then show ?thesis using assms by (auto simp: stage_recipe_target_def target_staged_def)
next
  case (Inr es)
  show ?thesis
  proof (cases "\<exists>checkout recipes. destination = Directory checkout \<and> map_of checkout recipes_name = Some (Directory recipes)")
    case False
    then have "t = destination \<and> e \<noteq> None"
      using assms Inr by (auto simp: stage_recipe_target_def simp del: lit_Cons split: node.splits option.splits)
    then show ?thesis by (auto simp: target_staged_def)
  next
    case True
    then obtain checkout recipes where d: "destination = Directory checkout"
        "map_of checkout recipes_name = Some (Directory recipes)" by blast
    consider "map_of recipes mtest_name = None" | old where "map_of recipes mtest_name = Some (Directory old)" "sd_rmtree sd = None"
      | "t = destination" "e \<noteq> None" | "e = Some ROS"
      using assms Inr d by (auto simp: stage_recipe_target_def simp del: lit_Cons split: node.splits option.splits)
    then show ?thesis
    proof cases
      case 1
      then have "staged_checkout checkout (fill_target sd (children_of source) recipes) = (e, t)"
        using assms Inr d by (simp add: stage_recipe_target_def del: lit_Cons)
      from staged_target [OF this Inr d(2)] show ?thesis by (simp add: d(1))
    next
      case 2
      then have "staged_checkout checkout (fill_target sd (children_of source) (without mtest_name recipes)) = (e, t)"
        using assms Inr d by (simp add: stage_recipe_target_def del: lit_Cons)
      from staged_target [OF this Inr d(2)] show ?thesis by (simp add: d(1) map_of_without del: lit_Cons)
    qed (auto simp: target_staged_def)
  qed
qed

text \<open>
  Staging touches one directory: when the target staging succeeds, \<open>recipes/mtest\<close> holds exactly the
  two files of the source with their bytes, and every other entry of \<open>recipes\<close> and of the checkout is
  what it was; when it refuses, the checkout is untouched.
\<close>

theorem staging_touches_target_only:
  assumes "stage_recipe_target sha256 sd source destination = (e, t)"
  shows "(e = None \<longrightarrow>
        same_files source (entry mtest_name (entry recipes_name (Some t)))
        \<and> (\<forall>name. name \<noteq> mtest_name \<longrightarrow>
            entry name (entry recipes_name (Some t)) = entry name (entry recipes_name (Some destination)))
        \<and> (\<forall>name. name \<noteq> recipes_name \<longrightarrow> entry name (Some t) = entry name (Some destination)))
    \<and> ((\<exists>m. e = Some (RValue m)) \<longrightarrow> t = destination)"
  using stage_recipe_target_spec [OF assms] unfolding target_staged_def .

definition sample_source :: "node option" where
  "sample_source = Some (Directory [(lit ''recipe.yaml'', PlainFile [1]), (lit ''test_smoke.mojo'', PlainFile [2])])"

definition sample_checkout :: node where
  "sample_checkout = Directory [(recipes_name, Directory [(lit ''other'', PlainFile [3])]), (lit ''README'', PlainFile [4])]"

definition calm_disk :: stage_disk where
  "calm_disk = \<lparr> sd_rmtree = None, sd_mkdir = False, sd_mkdir_target = False, sd_copy = \<lambda>_. None \<rparr>"

definition sample_sha :: "bytes \<Rightarrow> str" where
  "sample_sha b = replicate 64 48"

theorem staging_touches_target_only_witness:
  "\<exists>t. stage_recipe_target sample_sha calm_disk sample_source sample_checkout = (None, t)
    \<and> same_files sample_source (entry mtest_name (entry recipes_name (Some t)))
    \<and> entry (lit ''other'') (entry recipes_name (Some t)) = entry (lit ''other'') (entry recipes_name (Some sample_checkout))"
proof -
  have "fst (stage_recipe_target sample_sha calm_disk sample_source sample_checkout) = None" by code_simp
  then obtain t where t: "stage_recipe_target sample_sha calm_disk sample_source sample_checkout = (None, t)"
    by (metis prod.collapse)
  have "lit ''other'' \<noteq> mtest_name" by simp
  with staging_touches_target_only [OF t] t show ?thesis by blast
qed

theorem manifest_verified_iff_witness:
  "\<exists>es. verify_manifest sample_sha sample_source (manifest_bytes es) (replicate 64 48) = Inr ()"
proof -
  have sha: "\<forall>b. is_digest (sample_sha b)" by (simp add: sample_sha_def is_digest_def is_lower_hex_def is_ascii_digit_def list_all_iff)
  have d: "distinct (map fst (children_of sample_source))" by code_simp
  have "case build_manifest sample_sha sample_source of Inl _ \<Rightarrow> False | Inr _ \<Rightarrow> True" by code_simp
  then obtain es where "build_manifest sample_sha sample_source = Inr es" by (auto split: sum.splits)
  moreover have "sample_sha (manifest_bytes es) = replicate 64 48" by (simp add: sample_sha_def)
  ultimately show ?thesis using manifest_verified_iff [OF sha d] by blast
qed

section \<open>What rendering fills in\<close>

text \<open>
  A template as its author sees it: texts without an at sign, and tokens, after which no text begins with
  \<open>M\<close>, so that tokens do not overlap.
\<close>

datatype piece = Plain bytes | Tok token

fun raw :: "piece \<Rightarrow> bytes" where
  "raw (Plain t) = t"
| "raw (Tok k) = token_name k"

fun fill :: "render_request \<Rightarrow> piece \<Rightarrow> bytes" where
  "fill r (Plain t) = t"
| "fill r (Tok k) = token_value r k"

abbreviation raws :: "piece list \<Rightarrow> bytes" where
  "raws ps \<equiv> concat (map raw ps)"

fun clean :: "piece list \<Rightarrow> bool" where
  "clean [] \<longleftrightarrow> True"
| "clean (Plain t # ps) \<longleftrightarrow> 64 \<notin> set t \<and> clean ps"
| "clean (Tok k # ps) \<longleftrightarrow> \<not> startswith (raws ps) [77] \<and> clean ps"

fun put :: "token \<Rightarrow> bytes \<Rightarrow> piece \<Rightarrow> piece" where
  "put k v (Tok k') = (if k' = k then Plain v else Tok k')"
| "put k v p = p"

lemma replace_all_skip:
  "\<not> startswith (c # r) (o1 # os) \<Longrightarrow> replace_all (o1 # os) new (c # r) = c # replace_all (o1 # os) new r"
  by (auto simp: replace_all.simps [of _ _ "c # r"])

lemma replace_all_hit: "old \<noteq> [] \<Longrightarrow> replace_all old new (old @ r) = new @ replace_all old new r"
  by (cases old) (simp_all add: replace_all.simps [of _ _ "_ # _"])

lemma replace_all_plain: "o1 \<notin> set t \<Longrightarrow> replace_all (o1 # os) new (t @ r) = t @ replace_all (o1 # os) new r"
  by (induction t) (auto simp: replace_all_skip)

lemma clean_start: "clean ps \<Longrightarrow> \<not> startswith (raws ps) [64, 77]"
proof (induction ps rule: clean.induct)
  case (2 t ps)
  then show ?case by (cases t) auto
next
  case (3 k ps)
  then show ?case by (cases k) auto
qed simp

lemma startswith_mono: "startswith s (p @ q) \<Longrightarrow> startswith s p"
  by (auto simp: startswith_iff)

lemma replace_other:
  assumes "k' \<noteq> k" "\<not> startswith r [77]" "\<not> startswith r [64, 77]"
  shows "replace_all (token_name k) v (token_name k' @ r) = token_name k' @ replace_all (token_name k) v r"
proof -
  have "\<not> startswith r (77 # q)" "\<not> startswith r (64 # 77 # q)" for q
    using assms(2,3) startswith_mono [of r "[77]" q] startswith_mono [of r "[64, 77]" q] by auto
  with assms(1) show ?thesis
    by (cases k; cases k'; simp add: replace_all_skip)
qed

lemma put_start:
  assumes "v \<noteq> []" "hd v \<noteq> 77"
  shows "startswith (raws (map (put k v) ps)) [77] \<longleftrightarrow> startswith (raws ps) [77]"
proof (induction ps)
  case (Cons p ps)
  show ?case
  proof (cases p)
    case (Plain t)
    then show ?thesis using Cons by (cases t) auto
  next
    case (Tok k')
    then show ?thesis using assms by (cases k'; cases v) auto
  qed
qed simp

lemma clean_put: "clean ps \<Longrightarrow> v \<noteq> [] \<Longrightarrow> hd v \<noteq> 77 \<Longrightarrow> 64 \<notin> set v \<Longrightarrow> clean (map (put k v) ps)"
  by (induction ps rule: clean.induct) (auto simp: put_start simp del: map_map)

lemma replace_pieces:
  assumes "clean ps"
  shows "replace_all (token_name k) v (raws ps) = raws (map (put k v) ps)"
  using assms
proof (induction ps rule: clean.induct)
  case 1
  then show ?case by (cases k) (simp_all add: replace_all.simps)
next
  case (2 t ps)
  then show ?case by (cases k) (simp_all add: replace_all_plain)
next
  case (3 k' ps)
  then show ?case
    using clean_start [of ps] replace_all_hit [of "token_name k" v "raws ps"] replace_other [of k' k "raws ps" v]
    by (cases "k' = k") (cases k, auto)+
qed

lemma token_at_name: "token_at (token_name k @ r) = Some (length (token_name k))"
  by (cases k) (simp_all add: token_at_def Let_def token_char_def is_ascii_digit_def)

lemma token_at_other: "c \<noteq> 64 \<Longrightarrow> token_at (c # r) = None"
  by (simp add: token_at_def)

lemma findall_plain: "64 \<notin> set t \<Longrightarrow> token_findall (t @ r) = token_findall r"
proof (induction t)
  case (Cons c t)
  then show ?case by (simp add: token_findall.simps [of "c # t @ r"] token_at_other)
qed simp

lemma findall_name: "token_findall (token_name k @ r) = token_name k # token_findall r"
proof -
  obtain c u where c: "token_name k = c # u" by (cases k) auto
  then show ?thesis
    using token_at_name [of k r] token_findall.simps [of "token_name k @ r"] by simp
qed

lemma findall_pieces:
  "clean ps \<Longrightarrow> token_findall (raws ps) = map token_name (List.map_filter (\<lambda>p. case p of Tok k \<Rightarrow> Some k | _ \<Rightarrow> None) ps)"
  by (induction ps rule: clean.induct)
    (simp_all add: findall_plain findall_name map_filter_simps token_findall.simps [of "[]"])

lemma sha_head: "is_sha s \<Longrightarrow> s \<noteq> [] \<and> hd s \<noteq> 77 \<and> 64 \<notin> set s"
  by (cases s) (auto simp: is_sha_def list_all_iff is_lower_hex_def is_ascii_digit_def)

lemma digits_head: "list_all (\<lambda>c. is_ascii_digit c \<or> c = 46) s \<Longrightarrow> s \<noteq> [] \<Longrightarrow> hd s \<noteq> 77 \<and> 64 \<notin> set s"
  by (cases s) (auto simp: list_all_iff is_ascii_digit_def)

lemma version_head: "is_version s \<Longrightarrow> s \<noteq> [] \<and> hd s \<noteq> 77 \<and> 64 \<notin> set s"
proof -
  assume v: "is_version s"
  have "c \<in> set (join_with sep xs) \<Longrightarrow> c \<in> set sep \<or> (\<exists>x\<in>set xs. c \<in> set x)" for c sep xs
    by (induction sep xs rule: join_with.induct) auto
  from this [of _ "[46]" "split_on 46 s"] v have "list_all (\<lambda>c. is_ascii_digit c \<or> c = 46) s"
    by (auto simp: list_all_iff join_split is_version_def numeric_part_def)
  moreover have "s \<noteq> []" using v by (auto simp: is_version_def)
  ultimately show ?thesis using digits_head by blast
qed

lemma number_head: "0 \<le> n \<Longrightarrow> int_repr n \<noteq> [] \<and> hd (int_repr n) \<noteq> 77 \<and> 64 \<notin> set (int_repr n)"
  using digits_head [of "decimal (nat n)"] decimal_digits [of "nat n"]
  by (auto simp: int_repr_def list_all_iff)

lemma put_all_tokens:
  "map (put BuildNumberToken z) (map (put SourceRevToken y) (map (put VersionToken x) ps))
    = map (\<lambda>p. Plain (fill \<lparr> rr_version = x, rr_source_rev = y, rr_build_number = n \<rparr> p)) ps"
  if "z = int_repr n" for n
proof -
  have "put BuildNumberToken z (put SourceRevToken y (put VersionToken x p))
      = Plain (fill \<lparr> rr_version = x, rr_source_rev = y, rr_build_number = n \<rparr> p)" for p
  proof (cases p)
    case (Tok k)
    then show ?thesis using that by (cases k) simp_all
  qed simp
  then show ?thesis by simp
qed

definition tokens_of :: "piece list \<Rightarrow> token list" where
  "tokens_of ps = List.map_filter (\<lambda>p. case p of Tok k \<Rightarrow> Some k | _ \<Rightarrow> None) ps"

lemma token_name_inject: "token_name k = token_name k' \<longleftrightarrow> k = k'"
  by (cases k; cases k'; simp)

lemma tokens_count: "count_list (map token_name (tokens_of ps)) (token_name k) = count_list ps (Tok k)"
  by (induction ps) (auto simp: tokens_of_def map_filter_simps token_name_inject split: piece.splits)

lemma all_tokens_found:
  assumes "\<forall>k. count_list ps (Tok k) = 1"
  shows "set (map token_name (tokens_of ps)) = set (map token_name TOKENS)"
proof -
  have "token_name k \<in> set (map token_name (tokens_of ps))" for k
    using assms tokens_count [of ps k] by (metis count_list_0_iff zero_neq_one)
  then have "k \<in> set (tokens_of ps)" for k
    using token_name_inject by fastforce
  moreover have "k \<in> set TOKENS" for k by (cases k) (simp_all add: TOKENS_def)
  ultimately have "set (tokens_of ps) = UNIV" "set TOKENS = UNIV" by auto
  then show ?thesis by (metis list.set_map)
qed

lemma fill_no_token:
  assumes "clean ps" "\<And>k. 64 \<notin> set (token_value r k)"
  shows "64 \<notin> set (concat (map (fill r) ps))"
  using assms by (induction ps rule: clean.induct) auto

text \<open>
  Rendering fills every token: for a template whose tokens do not overlap and of which each occurs
  once, rendering a valid request yields the template with each token replaced by its value and nothing
  else changed, ended by one line feed.
\<close>

theorem render_fills_tokens:
  assumes "clean ps" "\<forall>k. count_list ps (Tok k) = 1" "is_version v" "is_sha commit" "0 \<le> n"
    "length (int_repr n) \<le> 4300"
  shows "render_recipe (concat (map raw ps)) \<lparr> rr_version = v, rr_source_rev = commit, rr_build_number = n \<rparr>
    = Inr (rstrip_of (\<lambda>c. c = 13 \<or> c = 10)
        (concat (map (fill \<lparr> rr_version = v, rr_source_rev = commit, rr_build_number = n \<rparr>) ps)) @ [10])"
proof -
  let ?r = "\<lparr> rr_version = v, rr_source_rev = commit, rr_build_number = n \<rparr>"
  let ?filled = "concat (map (fill ?r) ps)"
  note heads = version_head [OF assms(3)] sha_head [OF assms(4)] number_head [OF assms(5)]
  have valid: "validate_request ?r = Inr ()"
    using assms(3-5) by (simp add: validate_request_def checks_Inr)
  have found: "token_findall (raws ps) = map token_name (tokens_of ps)"
    using findall_pieces [OF assms(1)] by (simp add: tokens_of_def)
  have counts: "\<not> list_ex (\<lambda>t. count_list (map token_name (tokens_of ps)) (token_name t) \<noteq> 1) TOKENS"
    using assms(2) by (simp add: tokens_count list_ex_iff)
  let ?ps1 = "map (put VersionToken v) ps"
  let ?ps2 = "map (put SourceRevToken commit) ?ps1"
  have c1: "clean ?ps1" using clean_put [OF assms(1)] heads by blast
  have c2: "clean ?ps2" using clean_put [OF c1] heads by blast
  have "substitute ?r (raws ps) = raws (map (put BuildNumberToken (int_repr n)) ?ps2)"
    unfolding substitute_def TOKENS_def
    by (simp only: fold.simps comp_apply id_apply token_value.simps render_request.simps
        replace_pieces [OF assms(1)] replace_pieces [OF c1] replace_pieces [OF c2])
  also have "\<dots> = ?filled"
    unfolding put_all_tokens [OF refl, of n commit v ps] by (simp add: comp_def)
  finally have sub: "substitute ?r (raws ps) = ?filled" .
  have "64 \<notin> set (token_value ?r k)" for k using heads by (cases k) simp_all
  then have "token_findall ?filled = []"
    using fill_no_token [OF assms(1)] findall_plain [of ?filled "[]"] by (simp add: token_findall.simps [of "[]"])
  with valid found counts all_tokens_found [OF assms(2)] sub assms(6) show ?thesis
    by (simp add: render_recipe_def Let_def)
qed

definition overlapping_template :: bytes where
  "overlapping_template = lit ''rev: @@MTEST_SOURCE_REV@@MTEST_VERSION@@ version: @@MTEST_VERSION@@ build: @@MTEST_BUILD_NUMBER@@''"

definition sample_request :: render_request where
  "sample_request = \<lparr> rr_version = lit ''1.2.0'', rr_source_rev = replicate 40 97, rr_build_number = 0 \<rparr>"

text \<open>
  Overlapping tokens are accepted: a template in which the token of the version begins at the end of
  the token of the source revision passes the check of the tokens, and the rendered recipe has lost the
  revision.
\<close>

theorem overlapping_tokens_accepted:
  "render_recipe overlapping_template sample_request
    = Inr (lit ''rev: @@MTEST_SOURCE_REV1.2.0 version: 1.2.0 build: 0'' @ [10])"
  by code_simp

definition sample_template :: "piece list" where
  "sample_template = [Plain (lit ''version: ''), Tok VersionToken, Plain (lit '' rev: ''), Tok SourceRevToken,
     Plain (lit '' build: ''), Tok BuildNumberToken, Plain [10, 10]]"

theorem render_fills_tokens_witness:
  "render_recipe (raws sample_template) sample_request
    = Inr (rstrip_of (\<lambda>c. c = 13 \<or> c = 10) (concat (map (fill sample_request) sample_template)) @ [10])"
proof -
  have "clean sample_template" by code_simp
  moreover have "count_list sample_template (Tok k) = 1" for k by (cases k) (simp_all add: sample_template_def)
  moreover have "is_version (lit ''1.2.0'')" "is_sha (replicate 40 97)" "length (int_repr 0) \<le> 4300" by code_simp+
  ultimately show ?thesis
    unfolding sample_request_def by (intro render_fills_tokens) simp_all
qed

end
