(* ===== verification/Layering.thy ===== *)
theory Layering
  imports Inventory Regex
begin

text \<open>
  scripts/checks/layering.py: the layering rules over the Mojo sources below \<open>src\<close>.  The files and their
  texts are the record \<open>layer_tree\<close>; the word characters of Python's patterns are an argument.  A
  finding carries what its printed line states.
\<close>

section \<open>The layers\<close>

definition SOURCE_ROOT :: path where "SOURCE_ROOT = [lit ''src'']"
definition PACKAGE_ROOT :: path where "PACKAGE_ROOT = [lit ''src'', lit ''mtest'']"
definition COMPOSITION_ROOT :: path where "COMPOSITION_ROOT = [lit ''src'', lit ''main.mojo'']"
definition FACADE_NAME :: str where "FACADE_NAME = lit ''__init__.mojo''"

definition RANK :: "(str \<times> nat) list" where
  "RANK =
     [(lit ''model'', 0), (lit ''platform'', 0), (lit ''config'', 1), (lit ''discover'', 2), (lit ''protocol'', 2),
      (lit ''report'', 2), (lit ''select'', 2), (lit ''cache'', 2), (lit ''exec'', 3), (lit ''session'', 4),
      (lit ''cli'', 5)]"

definition LAYER_TWO_RANK :: nat where "LAYER_TWO_RANK = 2"
definition COMPOSITION_ROOT_PACKAGE :: str where "COMPOSITION_ROOT_PACKAGE = lit ''cli''"
definition NATIVE_ABI_PREFIX :: str where "NATIVE_ABI_PREFIX = lit ''mtest_exec_''"

definition EXEC_LIBC_ALLOWANCE :: "(path \<times> str list) list" where
  "EXEC_LIBC_ALLOWANCE = [([lit ''src'', lit ''mtest'', lit ''exec'', lit ''signals.mojo''], [lit ''kill''])]"

definition EXTERNAL_CALL_PACKAGES :: "str list" where
  "EXTERNAL_CALL_PACKAGES = [lit ''platform'', lit ''exec'']"

definition EXIT_SYMBOL :: str where "EXIT_SYMBOL = lit ''exit''"
definition EXTERNAL_CALL_SYMBOL :: str where "EXTERNAL_CALL_SYMBOL = lit ''external_call''"
definition TRIPLE_QUOTES :: "str list" where "TRIPLE_QUOTES = [[34, 34, 34], [39, 39, 39]]"

record binding =
  bi_imported :: str
  bi_bound :: str

record import_statement =
  im_line :: nat
  im_module :: str
  im_names :: "binding list"

section \<open>Prose removed\<close>

text \<open>
  One line, read with the open block and the open quote: what is kept, and the block left open.
\<close>

function strip_line :: "str option \<Rightarrow> int option \<Rightarrow> str \<Rightarrow> str \<times> str option" where
  "strip_line block quote line =
     (case line of
        [] \<Rightarrow> ([], block)
      | c # r \<Rightarrow>
          (case block of
             Some b \<Rightarrow>
               if startswith line b then strip_line None quote (drop (max 1 (length b)) line) else strip_line block quote r
           | None \<Rightarrow>
               (case quote of
                  Some q \<Rightarrow>
                    if c = 92 \<and> r \<noteq> [] then (let (kept, b) = strip_line None quote (tl r) in (c # hd r # kept, b))
                    else (let (kept, b) = strip_line None (if c = q then None else quote) r in (c # kept, b))
                | None \<Rightarrow>
                    (case List.find (startswith line) TRIPLE_QUOTES of
                       Some mark \<Rightarrow> strip_line (Some mark) None (drop 3 line)
                     | None \<Rightarrow>
                         if c = 35 then ([], None)
                         else (let (kept, b) = strip_line None (if c = 34 \<or> c = 39 then Some c else None) r
                               in (c # kept, b))))))"
  by pat_completeness auto
termination
  by (relation "measure (\<lambda>(block, quote, line). length line)") auto

declare strip_line.simps [simp del]

fun strip_lines :: "str option \<Rightarrow> nat \<Rightarrow> str list \<Rightarrow> (nat \<times> str) list" where
  "strip_lines block n [] = []"
| "strip_lines block n (line # rest) =
     (let (kept, block') = strip_line block None line in (n, kept) # strip_lines block' (Suc n) rest)"

definition strip_docstrings_and_comments :: "str \<Rightarrow> (nat \<times> str) list" where
  "strip_docstrings_and_comments source = strip_lines None 1 (splitlines source)"

definition stripped_code :: "str \<Rightarrow> str" where
  "stripped_code source = join_with [10] (map snd (strip_docstrings_and_comments source))"

section \<open>Imports\<close>

definition bound_names :: "str \<Rightarrow> binding list" where
  "bound_names clause =
     List.map_filter (\<lambda>piece.
         case split_words [] piece of
           [] \<Rightarrow> None
         | w # ws \<Rightarrow>
             Some \<lparr> bi_imported = w,
                    bi_bound = (case ws of kw # alias # _ \<Rightarrow> if kw = lit ''as'' then alias else w | _ \<Rightarrow> w) \<rparr>)
       (split_on 44 (map (\<lambda>c. if c = 40 \<or> c = 41 then 32 else c) clause))"

text \<open>\<open>\\s+\<close>, which takes all the white space there is.\<close>

definition some_spaces :: "str \<Rightarrow> str option" where
  "some_spaces s = (case s of [] \<Rightarrow> None | c # _ \<Rightarrow> if is_space c then Some (dropWhile is_space s) else None)"

definition keyword :: "string \<Rightarrow> str \<Rightarrow> str option" where
  "keyword k s = (if startswith s (lit k) then some_spaces (drop (length k) s) else None)"

text \<open>\<open>^\\s*from\\s+([\\w.]+)\\s+import\\s+(.*)$\<close> on one line; no word character is white space.\<close>

definition from_import :: "(int \<Rightarrow> bool) \<Rightarrow> str \<Rightarrow> (str \<times> str) option" where
  "from_import word line =
     (case keyword ''from'' (dropWhile is_space line) of
        None \<Rightarrow> None
      | Some r \<Rightarrow>
          let m = takeWhile (\<lambda>c. word c \<or> c = 46) r
          in if m = [] then None
             else case some_spaces (drop (length m) r) of
                    None \<Rightarrow> None
                  | Some r' \<Rightarrow> map_option (Pair m) (keyword ''import'' r'))"

text \<open>
  \<open>^\\s*import\\s+(.+)$\<close>; where only white space follows the keyword the clause names no module.
\<close>

definition bare_import :: "str \<Rightarrow> str option" where
  "bare_import line = keyword ''import'' (dropWhile is_space line)"

definition bare_modules :: "str \<Rightarrow> str list" where
  "bare_modules clause = List.map_filter (\<lambda>piece. case split_words [] piece of [] \<Rightarrow> None | w # _ \<Rightarrow> Some w) (split_on 44 clause)"

text \<open>A clause whose parentheses are open goes on in the next lines.\<close>

fun gather :: "str \<Rightarrow> (nat \<times> str) list \<Rightarrow> str \<times> (nat \<times> str) list" where
  "gather clause [] = (clause, [])"
| "gather clause ((n, code) # rest) =
     (if count_list clause 41 < count_list clause 40 then gather (clause @ [32] @ code) rest
      else (clause, (n, code) # rest))"

lemma gather_length: "length (snd (gather clause ls)) \<le> length ls"
  by (induction clause ls rule: gather.induct) auto

function parse_lines :: "(int \<Rightarrow> bool) \<Rightarrow> (nat \<times> str) list \<Rightarrow> import_statement list" where
  "parse_lines word [] = []"
| "parse_lines word ((n, code) # rest) =
     (case from_import word code of
        Some (m, first) \<Rightarrow>
          (let g = gather first rest
           in \<lparr> im_line = n, im_module = m, im_names = bound_names (fst g) \<rparr> # parse_lines word (snd g))
      | None \<Rightarrow>
          (case bare_import code of
             None \<Rightarrow> parse_lines word rest
           | Some clause \<Rightarrow>
               map (\<lambda>m. \<lparr> im_line = n, im_module = m, im_names = [] \<rparr>)
                 (filter (\<lambda>m. m = lit ''mtest'' \<or> startswith m (lit ''mtest.'')) (bare_modules clause))
               @ parse_lines word rest))"
  by pat_completeness auto
termination
proof (relation "measure (\<lambda>(word, ls). length ls)")
  fix word :: "int \<Rightarrow> bool" and n :: nat and code first m :: str and x g and rest :: "(nat \<times> str) list"
  assume "g = gather first rest"
  then show "((word, snd g), word, (n, code) # rest) \<in> measure (\<lambda>(word, ls). length ls)"
    using gather_length [of first rest] by simp
qed auto

definition parse_imports :: "(int \<Rightarrow> bool) \<Rightarrow> str \<Rightarrow> import_statement list" where
  "parse_imports word source = parse_lines word (strip_docstrings_and_comments source)"

section \<open>Where a file sits\<close>

definition in_package :: "path \<Rightarrow> bool" where
  "in_package p \<longleftrightarrow> 4 \<le> length p \<and> take 2 p = PACKAGE_ROOT"

definition package_of :: "path \<Rightarrow> str option" where
  "package_of p = (if in_package p then Some (p ! 2) else None)"

definition dotted :: "str list \<Rightarrow> str" where
  "dotted parts = join_with [46] parts"

definition facade_home :: "path \<Rightarrow> str option" where
  "facade_home p =
     (if p = COMPOSITION_ROOT then Some COMPOSITION_ROOT_PACKAGE
      else if in_package p then Some (dotted (drop 2 (butlast p))) else None)"

definition facade_packages :: "path list \<Rightarrow> str list" where
  "facade_packages files =
     map (\<lambda>p. dotted (drop 2 (butlast p)))
       (filter (\<lambda>p. p \<noteq> [] \<and> last p = FACADE_NAME \<and> take 2 p = PACKAGE_ROOT \<and> 3 < length p) files)"

section \<open>The tree\<close>

datatype layering_exn = LayeringAssertion string "str list" | LayeringOSError path | LayeringDecode path

record layer_tree =
  lt_sources :: "path list"
  lt_is_file :: "path \<Rightarrow> bool"
  lt_is_dir :: "path \<Rightarrow> bool"
  lt_text :: "path \<Rightarrow> layering_exn + str"

text \<open>The paths \<open>rglob\<close> finds that are files, sorted.\<close>

definition source_files :: "layer_tree \<Rightarrow> path list" where
  "source_files t = sort (filter (lt_is_file t) (lt_sources t))"

definition facade_exports :: "(int \<Rightarrow> bool) \<Rightarrow> layer_tree \<Rightarrow> str \<Rightarrow> layering_exn + str list" where
  "facade_exports word t package =
     (let facade = PACKAGE_ROOT @ split_on 46 package @ [FACADE_NAME];
          own = lit ''mtest.'' @ package @ [46]
      in if \<not> lt_is_file t facade then Inr []
         else rbind (lt_text t facade) (\<lambda>source.
           Inr (concat (map (\<lambda>s. map bi_bound (im_names s))
             (filter (\<lambda>s. startswith (im_module s) own) (parse_imports word source))))))"

section \<open>The rules\<close>

datatype layer_finding =
    UndeclaredPackage str
  | UndeclaredTarget path nat str str str
  | SiblingImport path nat str str
  | UpwardImport path nat str nat str nat
  | PrivateName path nat str str
  | FacadeBypass path nat str str str
  | ExitImport path nat
  | ExitCall path nat
  | ExternalCallImport path nat
  | ExternalCall path nat str

datatype notice = WholeImport path nat str str | DeepImport path nat str str str

definition rank_findings :: "path \<Rightarrow> import_statement \<Rightarrow> layer_finding list" where
  "rank_findings p s =
     (case package_of p of
        None \<Rightarrow> []
      | Some home \<Rightarrow>
          (case (map_of RANK home, split_on 46 (im_module s)) of
             (Some home_rank, namespace # target # _) \<Rightarrow>
               if namespace \<noteq> lit ''mtest'' then []
               else if target = home then []
               else
                 (case map_of RANK target of
                    None \<Rightarrow> [UndeclaredTarget p (im_line s) home (im_module s) target]
                  | Some target_rank \<Rightarrow>
                      if target_rank < home_rank then []
                      else if target_rank = home_rank \<and> home_rank = LAYER_TWO_RANK
                      then [SiblingImport p (im_line s) home (im_module s)]
                      else [UpwardImport p (im_line s) home home_rank (im_module s) target_rank])
           | _ \<Rightarrow> []))"

type_synonym exports = "(str, str list) dict"

text \<open>The packages an import reaches into, the deepest first.\<close>

definition reached :: "str list \<Rightarrow> str list" where
  "reached parts = map (\<lambda>n. dotted (take n (tl parts))) (rev [1..<length parts - 1])"

fun first_owner :: "str option \<Rightarrow> exports \<Rightarrow> str list \<Rightarrow> str option option" where
  "first_owner home facades [] = None"
| "first_owner home facades (candidate # rest) =
     (if (case home of None \<Rightarrow> False | Some h \<Rightarrow> h = candidate \<or> startswith h (candidate @ [46])) then Some None
      else if candidate \<in> fst ` set facades then Some (Some candidate)
      else first_owner home facades rest)"

definition owning_facade :: "str \<Rightarrow> str option \<Rightarrow> exports \<Rightarrow> str option" where
  "owning_facade m home facades =
     (let parts = split_on 46 m
      in if hd parts \<noteq> lit ''mtest'' \<or> length parts < 3 then None
         else case first_owner home facades (reached parts) of
                Some owner \<Rightarrow> owner | None \<Rightarrow> Some (last (reached parts)))"

fun binding_findings :: "path \<Rightarrow> import_statement \<Rightarrow> str \<Rightarrow> str list \<Rightarrow> binding list \<Rightarrow> layer_finding list \<times> notice list" where
  "binding_findings p s package exported [] = ([], [])"
| "binding_findings p s package exported (b # bs) =
     (let (violations, infos) = binding_findings p s package exported bs
      in if startswith (bi_imported b) [95] then (PrivateName p (im_line s) (im_module s) (bi_imported b) # violations, infos)
         else if bi_imported b \<in> set exported
         then (FacadeBypass p (im_line s) (im_module s) (bi_imported b) package # violations, infos)
         else (violations, DeepImport p (im_line s) (im_module s) (bi_imported b) package # infos))"

definition facade_findings :: "path \<Rightarrow> import_statement \<Rightarrow> exports \<Rightarrow> layer_finding list \<times> notice list" where
  "facade_findings p s facades =
     (case owning_facade (im_module s) (facade_home p) facades of
        None \<Rightarrow> ([], [])
      | Some package \<Rightarrow>
          if im_names s = [] then ([], [WholeImport p (im_line s) (im_module s) package])
          else binding_findings p s package (case map_of facades package of None \<Rightarrow> [] | Some e \<Rightarrow> e) (im_names s))"

section \<open>Calls\<close>

text \<open>\<open>\b\<close> before a name, and the names an import can bind to a primitive.\<close>

definition boundary :: "(int \<Rightarrow> bool) \<Rightarrow> int option \<Rightarrow> str \<Rightarrow> bool" where
  "boundary word prev s \<longleftrightarrow> (case prev of None \<Rightarrow> False | Some c \<Rightarrow> word c) \<noteq> (s \<noteq> [] \<and> word (hd s))"

definition aliases :: "import_statement list \<Rightarrow> str \<Rightarrow> str list" where
  "aliases statements symbol =
     symbol # concat (map (\<lambda>s. map bi_bound (filter (\<lambda>b. bi_imported b = symbol) (im_names s))) statements)"

text \<open>
  \<open>\b(?:names)\s*\(\<close> and \<open>\b(?:names)\s*\[\s*"([^"]*)"\<close> at a place: the length of the match and
  its group.
\<close>

definition call_at :: "str list \<Rightarrow> str \<Rightarrow> (nat \<times> str) option" where
  "call_at names s =
     List.find (\<lambda>_. True) (List.map_filter (\<lambda>name.
       if startswith s name then
         (let r = drop (length name) s; k = length (takeWhile is_space r)
          in if startswith (drop k r) [40] then Some (length name + k + 1, []) else None)
       else None) names)"

definition foreign_at :: "str list \<Rightarrow> str \<Rightarrow> (nat \<times> str) option" where
  "foreign_at names s =
     List.find (\<lambda>_. True) (List.map_filter (\<lambda>name.
       if startswith s name then
         (let r = drop (length name) s; k = length (takeWhile is_space r)
          in if startswith (drop k r) [91] then
               (let r' = drop (k + 1) r; k' = length (takeWhile is_space r')
                in if startswith (drop k' r') [34] then
                     (let symbol = takeWhile (\<lambda>c. c \<noteq> 34) (drop (k' + 1) r')
                      in if startswith (drop (k' + 1 + length symbol) r') [34]
                         then Some (length name + k + 1 + k' + 1 + length symbol + 1, symbol) else None)
                   else None)
             else None)
       else None) names)"

text \<open>The matches of a pattern: the line each starts on, and its group.  A match is never empty.\<close>

function matches_from :: "(int \<Rightarrow> bool) \<Rightarrow> (str \<Rightarrow> (nat \<times> str) option) \<Rightarrow> nat \<Rightarrow> int option \<Rightarrow> str \<Rightarrow> (nat \<times> str) list" where
  "matches_from word pat line prev s =
     (case s of
        [] \<Rightarrow> []
      | c # r \<Rightarrow>
          (case (if boundary word prev s then pat s else None) of
             Some (n, symbol) \<Rightarrow>
               (let m = take (max 1 n) s
                in (line, symbol) # matches_from word pat (line + count_list m 10) (Some (last m)) (drop (max 1 n) s))
           | None \<Rightarrow> matches_from word pat (if c = 10 then Suc line else line) (Some c) r))"
  by pat_completeness auto
termination
  by (relation "measure (\<lambda>(word, pat, line, prev, s). length s)") auto

declare matches_from.simps [simp del]

definition allowed_libc :: "path \<Rightarrow> str list" where
  "allowed_libc p = (case map_of EXEC_LIBC_ALLOWANCE p of None \<Rightarrow> [] | Some symbols \<Rightarrow> symbols)"

definition imports_of :: "import_statement list \<Rightarrow> str \<Rightarrow> nat list" where
  "imports_of statements symbol =
     concat (map (\<lambda>s. map (\<lambda>_. im_line s) (filter (\<lambda>b. bi_imported b = symbol) (im_names s))) statements)"

definition exit_findings :: "(int \<Rightarrow> bool) \<Rightarrow> path \<Rightarrow> str \<Rightarrow> import_statement list \<Rightarrow> layer_finding list" where
  "exit_findings word p code statements =
     (if p = COMPOSITION_ROOT then []
      else map (ExitImport p) (imports_of statements EXIT_SYMBOL)
        @ map (\<lambda>(line, _). ExitCall p line)
            (matches_from word (call_at (aliases statements EXIT_SYMBOL)) 1 None code))"

definition foreign_symbols :: "(int \<Rightarrow> bool) \<Rightarrow> str \<Rightarrow> import_statement list \<Rightarrow> (nat \<times> str) list" where
  "foreign_symbols word code statements =
     matches_from word (foreign_at (aliases statements EXTERNAL_CALL_SYMBOL)) 1 None code"

definition external_findings :: "(int \<Rightarrow> bool) \<Rightarrow> path \<Rightarrow> str \<Rightarrow> import_statement list \<Rightarrow> layer_finding list" where
  "external_findings word p code statements =
     (let package = package_of p
      in (if package \<noteq> None \<and> the package \<in> set EXTERNAL_CALL_PACKAGES then []
          else map (ExternalCallImport p) (imports_of statements EXTERNAL_CALL_SYMBOL))
         @ (if package = Some (lit ''platform'') then []
            else map (\<lambda>(line, symbol). ExternalCall p line symbol)
              (filter (\<lambda>(line, symbol). \<not> (package = Some (lit ''exec'')
                  \<and> (startswith symbol NATIVE_ABI_PREFIX \<or> symbol \<in> set (allowed_libc p))))
                (foreign_symbols word code statements))))"

definition confinement_findings :: "(int \<Rightarrow> bool) \<Rightarrow> path \<Rightarrow> str \<Rightarrow> import_statement list \<Rightarrow> layer_finding list" where
  "confinement_findings word p source statements =
     exit_findings word p (stripped_code source) statements
     @ external_findings word p (stripped_code source) statements"

section \<open>The scan\<close>

fun all_exports :: "(int \<Rightarrow> bool) \<Rightarrow> layer_tree \<Rightarrow> str list \<Rightarrow> layering_exn + exports" where
  "all_exports word t [] = Inr []"
| "all_exports word t (p # ps) =
     rbind (facade_exports word t p) (\<lambda>e. rbind (all_exports word t ps) (\<lambda>rest. Inr ((p, e) # rest)))"

definition file_findings :: "(int \<Rightarrow> bool) \<Rightarrow> exports \<Rightarrow> path \<Rightarrow> str \<Rightarrow> layer_finding list \<times> notice list" where
  "file_findings word facades p source =
     (let statements = parse_imports word source
      in (confinement_findings word p source statements
            @ concat (map (\<lambda>s. rank_findings p s @ fst (facade_findings p s facades)) statements),
          concat (map (\<lambda>s. snd (facade_findings p s facades)) statements)))"

fun scan_files :: "(int \<Rightarrow> bool) \<Rightarrow> layer_tree \<Rightarrow> exports \<Rightarrow> path list \<Rightarrow> layering_exn + (layer_finding list \<times> notice list)" where
  "scan_files word t facades [] = Inr ([], [])"
| "scan_files word t facades (p # ps) =
     rbind (lt_text t p) (\<lambda>source.
     rbind (scan_files word t facades ps) (\<lambda>(violations, infos).
       let (v, i) = file_findings word facades p source in Inr (v @ violations, i @ infos)))"

text \<open>The report; its lines are printed sorted.\<close>

definition scan_tree :: "(int \<Rightarrow> bool) \<Rightarrow> layer_tree \<Rightarrow> layering_exn + (layer_finding list \<times> notice list)" where
  "scan_tree word t =
     (let files = source_files t
      in if files = [] then Inl (LayeringAssertion ''no Mojo source to scan'' [])
         else
           rbind (all_exports word t (sort (remdups (facade_packages files)))) (\<lambda>facades.
           rbind (scan_files word t facades files) (\<lambda>(violations, infos).
             Inr (map UndeclaredPackage
                   (filter (\<lambda>q. map_of RANK q = None) (sort (remdups (List.map_filter package_of files)))) @ violations,
                  infos))))"

definition check_rank_covers_the_tree :: "layer_tree \<Rightarrow> layering_exn + unit" where
  "check_rank_covers_the_tree t =
     (let missing = sort (filter (\<lambda>name. \<not> lt_is_dir t (PACKAGE_ROOT @ [name])) (map fst RANK))
      in if missing \<noteq> [] then Inl (LayeringAssertion ''ranked package does not exist'' missing) else Inr ())"

fun check_allowances :: "(int \<Rightarrow> bool) \<Rightarrow> layer_tree \<Rightarrow> (path \<times> str list) list \<Rightarrow> layering_exn + unit" where
  "check_allowances word t [] = Inr ()"
| "check_allowances word t ((p, symbols) # rest) =
     (if symbols = [] then Inl (LayeringAssertion ''exec libc allowance intended inventory is empty'' [])
      else if \<not> lt_is_file t p then Inl (LayeringAssertion ''exec libc allowance names a missing file'' [path_text p])
      else rbind (lt_text t p) (\<lambda>source.
        let called = map snd (foreign_symbols word (stripped_code source) (parse_imports word source));
            stale = sort (filter (\<lambda>x. x \<notin> set called) symbols)
        in if stale \<noteq> [] then Inl (LayeringAssertion ''permits a symbol that file no longer calls'' stale)
           else check_allowances word t rest))"

definition check_foreign_allowance_is_live :: "(int \<Rightarrow> bool) \<Rightarrow> layer_tree \<Rightarrow> layering_exn + unit" where
  "check_foreign_allowance_is_live word t = check_allowances word t EXEC_LIBC_ALLOWANCE"

text \<open>\<open>main\<close>; \<open>None\<close> is the decoding error that leaves it.\<close>

definition layering_main :: "(int \<Rightarrow> bool) \<Rightarrow> layer_tree \<Rightarrow> int option" where
  "layering_main word t =
     (case rbind (check_rank_covers_the_tree t) (\<lambda>_.
           rbind (check_foreign_allowance_is_live word t) (\<lambda>_. scan_tree word t)) of
        Inl (LayeringDecode _) \<Rightarrow> None
      | Inl _ \<Rightarrow> Some 1
      | Inr (violations, _) \<Rightarrow> Some (if violations = [] then 0 else 1))"

section \<open>What a passing scan shows\<close>

text \<open>The packages that import one another, as the statements name them.\<close>

definition package_imports :: "(int \<Rightarrow> bool) \<Rightarrow> layer_tree \<Rightarrow> (str \<times> str) set" where
  "package_imports word t =
     {(home, target). home \<noteq> target \<and> (\<exists>p\<in>set (source_files t). \<exists>source. \<exists>s\<in>set (parse_imports word source). \<exists>rest.
        lt_text t p = Inr source \<and> package_of p = Some home \<and> split_on 46 (im_module s) = lit ''mtest'' # target # rest)}"

lemma package_importsI:
  "p \<in> set (source_files t) \<Longrightarrow> lt_text t p = Inr source \<Longrightarrow> package_of p = Some home \<Longrightarrow>
   s \<in> set (parse_imports word source) \<Longrightarrow> split_on 46 (im_module s) = lit ''mtest'' # target # rest \<Longrightarrow> home \<noteq> target \<Longrightarrow>
   (home, target) \<in> package_imports word t"
  unfolding package_imports_def by blast

lemma scan_files_all:
  assumes "scan_files word t facades ps = Inr (violations, infos)" "p \<in> set ps"
  shows "\<exists>source. lt_text t p = Inr source \<and> set (fst (file_findings word facades p source)) \<subseteq> set violations"
  using assms
proof (induction ps arbitrary: violations infos)
  case (Cons q ps)
  then obtain source vs ns where q: "lt_text t q = Inr source" "scan_files word t facades ps = Inr (vs, ns)"
      "violations = fst (file_findings word facades q source) @ vs"
    using Cons.prems(1) by (auto simp: rbind_Inr case_prod_beta Let_def)
  show ?case
  proof (cases "p = q")
    case True
    then show ?thesis using q by auto
  next
    case False
    then show ?thesis using Cons.IH [OF q(2)] Cons.prems(2) q(3) by auto
  qed
qed simp

lemma scan_clean:
  assumes "scan_tree word t = Inr ([], infos)" "p \<in> set (source_files t)"
  obtains source facades where "lt_text t p = Inr source" "fst (file_findings word facades p source) = []"
    "\<And>home. package_of p = Some home \<Longrightarrow> map_of RANK home \<noteq> None"
proof -
  obtain facades vs ns where s: "scan_files word t facades (source_files t) = Inr (vs, ns)"
      "map UndeclaredPackage (filter (\<lambda>q. map_of RANK q = None)
         (sort (remdups (List.map_filter package_of (source_files t))))) @ vs = []"
    using assms(1) by (auto simp: scan_tree_def Let_def rbind_Inr split: if_splits)
  obtain source where "lt_text t p = Inr source" "fst (file_findings word facades p source) = []"
    using scan_files_all [OF s(1) assms(2)] s(2) by auto
  moreover have "map_of RANK home \<noteq> None" if "package_of p = Some home" for home
  proof -
    have "home \<in> set (List.map_filter package_of (source_files t))"
      using assms(2) that by (auto simp: set_map_filter)
    with s(2) show ?thesis by (auto simp: filter_empty_conv)
  qed
  ultimately show thesis by (rule that)
qed

lemma rank_findings_empty:
  assumes "rank_findings p s = []" "package_of p = Some home" "map_of RANK home = Some r"
    "split_on 46 (im_module s) = lit ''mtest'' # target # rest" "target \<noteq> home"
  shows "\<exists>r'. map_of RANK target = Some r' \<and> r' < r"
  using assms by (auto simp: rank_findings_def simp del: lit_Cons split: option.splits if_splits)

lemma main_clean: "layering_main word t = Some 0 \<Longrightarrow> \<exists>infos. scan_tree word t = Inr ([], infos)"
  by (auto simp: layering_main_def rbind_def split: sum.splits layering_exn.splits if_splits prod.splits)

lemma imports_go_down:
  assumes "layering_main word t = Some 0" "(home, target) \<in> package_imports word t"
  shows "\<exists>r r'. map_of RANK home = Some r \<and> map_of RANK target = Some r' \<and> r' < r"
proof -
  obtain infos where scan: "scan_tree word t = Inr ([], infos)" using main_clean [OF assms(1)] by blast
  obtain p source s rest where p: "home \<noteq> target" "p \<in> set (source_files t)" "s \<in> set (parse_imports word source)"
      "lt_text t p = Inr source" "package_of p = Some home" "split_on 46 (im_module s) = lit ''mtest'' # target # rest"
    using assms(2) unfolding package_imports_def by blast
  obtain facades where f: "fst (file_findings word facades p source) = []"
      "\<And>home. package_of p = Some home \<Longrightarrow> map_of RANK home \<noteq> None"
    using scan_clean [OF scan p(2)] p(4) by (metis sum.inject(2))
  from f(1) p(3) have "rank_findings p s = []"
    by (auto simp: file_findings_def Let_def)
  moreover obtain r where "map_of RANK home = Some r" using f(2) [OF p(5)] by blast
  ultimately show ?thesis
    using rank_findings_empty [OF _ p(5) _ p(6)] p(1) by blast
qed


definition signals_path :: path where
  "signals_path = [lit ''src'', lit ''mtest'', lit ''exec'', lit ''signals.mojo'']"

definition signals_source :: str where
  "signals_source = lit ''from mtest.model import Outcome'' @ [10] @ lit ''    external_call[\"kill\", Int32](pid)'' @ [10]"

definition small_tree :: layer_tree where
  "small_tree = \<lparr> lt_sources = [signals_path], lt_is_file = (\<lambda>p. p = signals_path), lt_is_dir = (\<lambda>_. True),
     lt_text = (\<lambda>_. Inr signals_source) \<rparr>"

lemma small_tree_passes: "layering_main ascii_word small_tree = Some 0"
  by code_simp

lemma small_tree_imports: "(lit ''exec'', lit ''model'') \<in> package_imports ascii_word small_tree"
proof (rule package_importsI)
  show "signals_path \<in> set (source_files small_tree)" by code_simp
  show "lt_text small_tree signals_path = Inr signals_source" by (simp add: small_tree_def)
  show "package_of signals_path = Some (lit ''exec'')" by code_simp
  show "\<lparr> im_line = 1, im_module = lit ''mtest.model'', im_names = [\<lparr> bi_imported = lit ''Outcome'', bi_bound = lit ''Outcome'' \<rparr>] \<rparr>
      \<in> set (parse_imports ascii_word signals_source)" by code_simp
  show "split_on 46 (im_module \<lparr> im_line = 1, im_module = lit ''mtest.model'', im_names = [\<lparr> bi_imported = lit ''Outcome'', bi_bound = lit ''Outcome'' \<rparr>] \<rparr>)
      = lit ''mtest'' # lit ''model'' # []" by code_simp
qed simp


text \<open>
  Two spellings pass unseen: a relative import of a higher layer, and an import of a package by name
  from \<open>mtest\<close> itself, are parsed and then judged by no rule, whatever file holds them.
\<close>

theorem unseen_imports:
  "\<exists>a b. parse_imports ascii_word (lit ''from ..session import run_session'' @ [10] @ lit ''from mtest import session'') = [a, b]
    \<and> (\<forall>p facades. rank_findings p a = [] \<and> facade_findings p a facades = ([], [])
        \<and> rank_findings p b = [] \<and> facade_findings p b facades = ([], []))"
proof (intro exI conjI allI)
  let ?a = "\<lparr> im_line = 1, im_module = lit ''..session'', im_names = [\<lparr> bi_imported = lit ''run_session'', bi_bound = lit ''run_session'' \<rparr>] \<rparr>"
  let ?b = "\<lparr> im_line = 2, im_module = lit ''mtest'', im_names = [\<lparr> bi_imported = lit ''session'', bi_bound = lit ''session'' \<rparr>] \<rparr>"
  show "parse_imports ascii_word (lit ''from ..session import run_session'' @ [10] @ lit ''from mtest import session'') = [?a, ?b]"
    by code_simp
  fix p facades
  show "rank_findings p ?a = []" "facade_findings p ?a facades = ([], [])"
    "rank_findings p ?b = []" "facade_findings p ?b facades = ([], [])"
    by (simp_all add: rank_findings_def facade_findings_def owning_facade_def split: option.splits)
qed

end
