(* ===== verification/Postfork.thy ===== *)
theory Postfork
  imports Json
begin

text \<open>
  scripts/checks/postfork.py: the audit of every call the forked child of the native adapter can reach.
  The compiler's syntax tree is the parsed JSON it prints; a node is known by its place in the tree.
  What \<open>str\<close> makes of a value that is no string, whether a file name resolves to the audited source,
  the platform and the tree itself are arguments.  The lines the messages name are not modelled.
\<close>

section \<open>The syntax tree\<close>

definition field :: "json \<Rightarrow> string \<Rightarrow> json option" where
  "field node k = (case node of JObj d \<Rightarrow> map_of d (lit k) | _ \<Rightarrow> None)"

definition array_field :: "json \<Rightarrow> string \<Rightarrow> json list" where
  "array_field node k = (case field node k of Some (JArr vs) \<Rightarrow> vs | _ \<Rightarrow> [])"

definition object_field :: "json \<Rightarrow> string \<Rightarrow> json" where
  "object_field node k = (case field node k of Some (JObj d) \<Rightarrow> JObj d | _ \<Rightarrow> JObj [])"

definition is_node :: "json \<Rightarrow> bool" where
  "is_node v = (case v of JObj _ \<Rightarrow> True | _ \<Rightarrow> False)"

definition child_nodes :: "json \<Rightarrow> json list" where
  "child_nodes node = filter is_node (array_field node ''inner'')"

definition kind_is :: "string \<Rightarrow> json \<Rightarrow> bool" where
  "kind_is k node \<longleftrightarrow> field node ''kind'' = Some (JStr (lit k))"

definition named :: "str \<Rightarrow> json \<Rightarrow> bool" where
  "named name node \<longleftrightarrow> field node ''name'' = Some (JStr name)"

lemma child_size: "c \<in> set (child_nodes node) \<Longrightarrow> size c < size node"
proof -
  assume c: "c \<in> set (child_nodes node)"
  then have "c \<in> set (array_field node ''inner'')" by (simp add: child_nodes_def)
  then obtain vs where vs: "field node ''inner'' = Some (JArr vs)" "c \<in> set vs"
    by (cases "field node ''inner''"; cases "the (field node ''inner'')") (simp_all add: array_field_def)
  then obtain d where d: "node = JObj d" "map_of d (lit ''inner'') = Some (JArr vs)" "c \<in> set vs"
    by (cases node) (simp_all add: field_def)
  have "(lit ''inner'', JArr vs) \<in> set d" using d(2) by (rule map_of_SomeD)
  then have "size (JArr vs) < size (JObj d)"
    by (induction d) auto
  moreover have "size c < size (JArr vs)" using d(3) by (induction vs) auto
  ultimately show ?thesis using d(1) by simp
qed

type_synonym place = "nat list"

text \<open>\<open>_walk\<close>: a node and all below it, each with its place.\<close>

function walk :: "place \<Rightarrow> json \<Rightarrow> (place \<times> json) list" where
  "walk p node = (p, node) # concat (map (\<lambda>(i, c). walk (p @ [i]) c) (enumerate 0 (child_nodes node)))"
  by pat_completeness auto
termination
  by (relation "measure (\<lambda>(p, node). size node)") (auto simp: in_set_enumerate_eq intro!: child_size)

declare walk.simps [simp del]

definition has_body :: "json \<Rightarrow> bool" where
  "has_body node \<longleftrightarrow> list_ex (kind_is ''CompoundStmt'') (child_nodes node)"

text \<open>The file a location names, if it is a string.\<close>

definition elsewhere :: "(str \<Rightarrow> bool) \<Rightarrow> json \<Rightarrow> bool" where
  "elsewhere is_source candidate \<longleftrightarrow>
     (let location = (if field candidate ''spellingLoc'' \<noteq> None then object_field candidate ''spellingLoc'' else candidate)
      in field location ''includedFrom'' \<noteq> None
         \<or> (case field location ''file'' of
              None \<Rightarrow> False | Some JNull \<Rightarrow> False | Some (JStr f) \<Rightarrow> \<not> is_source f | Some _ \<Rightarrow> True))"

definition is_source_definition :: "(str \<Rightarrow> bool) \<Rightarrow> json \<Rightarrow> bool" where
  "is_source_definition is_source node \<longleftrightarrow>
     \<not> elsewhere is_source (object_field node ''loc'')
     \<and> \<not> elsewhere is_source (object_field (object_field node ''range'') ''begin'')"

definition offset_of :: "json \<Rightarrow> bool \<Rightarrow> int" where
  "offset_of node at_end =
     (let location0 = object_field (object_field node ''range'') (if at_end then ''end'' else ''begin'');
          location = (if field location0 ''expansionLoc'' \<noteq> None then object_field location0 ''expansionLoc'' else location0)
      in case field location ''offset'' of
           None \<Rightarrow> - 1
         | Some v \<Rightarrow>
             if \<not> is_int v then - 1
             else int_of_json v
               + (if at_end then (case field location ''tokLen'' of
                                    Some n \<Rightarrow> if is_int n then int_of_json n else 0 | None \<Rightarrow> 0)
                  else 0))"

definition source_segment :: "json \<Rightarrow> str \<Rightarrow> str" where
  "source_segment node source_text =
     (let a = offset_of node False; b = offset_of node True
      in if a < 0 \<or> b < a \<or> int (length source_text) < b then []
         else take (nat b - nat a) (drop (nat a) source_text))"

text \<open>\<open>"".join(segment.split())\<close>\<close>

definition compact :: "json \<Rightarrow> str \<Rightarrow> str" where
  "compact node source_text = concat (split_words [] (source_segment node source_text))"

section \<open>Calls\<close>

record call =
  ca_id :: "str option"
  ca_name :: str

definition unresolved :: call where "unresolved = \<lparr> ca_id = None, ca_name = lit ''<unresolved-call>'' \<rparr>"
definition indirect :: call where "indirect = \<lparr> ca_id = None, ca_name = lit ''<indirect-call>'' \<rparr>"

definition transparent :: "json \<Rightarrow> bool" where
  "transparent node \<longleftrightarrow> kind_is ''ImplicitCastExpr'' node \<or> kind_is ''ParenExpr'' node \<or> kind_is ''CStyleCastExpr'' node"

text \<open>The expression below casts and parentheses; \<open>None\<close> where one has other than one child.\<close>

function peel :: "json \<Rightarrow> json option" where
  "peel e =
     (if transparent e then
        (if length (child_nodes e) = 1 then peel (hd (child_nodes e)) else None)
      else Some e)"
  by pat_completeness auto
termination
  by (relation "measure size") (auto intro!: child_size simp: length_Suc_conv)

declare peel.simps [simp del]

text \<open>\<open>str(node.get(k, ""))\<close>\<close>

definition text_field :: "(json \<Rightarrow> str) \<Rightarrow> json \<Rightarrow> string \<Rightarrow> str" where
  "text_field py_str node k = (case field node k of None \<Rightarrow> [] | Some (JStr s) \<Rightarrow> s | Some v \<Rightarrow> py_str v)"

definition direct_callee :: "(json \<Rightarrow> str) \<Rightarrow> json \<Rightarrow> call" where
  "direct_callee py_str c =
     (case array_field c ''inner'' of
        [] \<Rightarrow> unresolved
      | first # _ \<Rightarrow>
          if \<not> is_node first then unresolved
          else
            (case peel first of
               None \<Rightarrow> indirect
             | Some e \<Rightarrow>
                 if \<not> kind_is ''DeclRefExpr'' e then indirect
                 else
                   (case field e ''referencedDecl'' of
                      Some (JObj d) \<Rightarrow>
                        if \<not> kind_is ''FunctionDecl'' (JObj d) then indirect
                        else
                          (let i = text_field py_str (JObj d) ''id''; n = text_field py_str (JObj d) ''name''
                           in if i = [] \<or> n = [] then unresolved else \<lparr> ca_id = Some i, ca_name = n \<rparr>)
                    | _ \<Rightarrow> unresolved)))"

definition calls_of :: "(json \<Rightarrow> str) \<Rightarrow> json \<Rightarrow> call list" where
  "calls_of py_str node = map (\<lambda>(_, n). direct_callee py_str n) (filter (\<lambda>(_, n). kind_is ''CallExpr'' n) (walk [] node))"

definition has_cleanup :: "json \<Rightarrow> bool" where
  "has_cleanup node \<longleftrightarrow> list_ex (\<lambda>(_, n). kind_is ''CleanupAttr'' n) (walk [] node)"

section \<open>The allowlist\<close>

datatype audit_failure =
    UnsupportedPlatform str
  | CompileFailed
  | InvalidAst
  | AstEscapes
  | NoAstId
  | RootDefinitions nat
  | OpenDefinitions nat
  | ChildBranches nat
  | UnresolvedCall "str list"
  | ForbiddenCallee "str list"
  | ImplicitCleanup "str list"
  | OpenBodies nat
  | ForkCalls nat
  | RegionNotIsolated
  | BranchBeforeFork
  | NotGuardedByLeader
  | BranchHasElse
  | BranchDoesNotExit
  | BranchHoldsMore
  | AllowlistDiffers "str list" "str list"
  | AuditFuel

definition ROOT_FUNCTION :: str where "ROOT_FUNCTION = lit ''mtest_child_exec''"
definition OPEN_FUNCTION :: str where "OPEN_FUNCTION = lit ''mtest_exec_process_open''"

definition PLATFORM_ENTRY_POINTS :: "str list" where
  "PLATFORM_ENTRY_POINTS =
     [lit ''sigaction'', lit ''setpgid'', lit ''chdir'', lit ''dup2'', lit ''close'', lit ''execve'', lit ''poll'',
      lit ''write'', lit ''_exit'']"

definition platform_allowlist :: "str \<Rightarrow> audit_failure + str list" where
  "platform_allowlist platform =
     (if platform = lit ''linux'' then Inr (PLATFORM_ENTRY_POINTS @ [lit ''__errno_location''])
      else if platform = lit ''darwin'' then Inr (PLATFORM_ENTRY_POINTS @ [lit ''__error''])
      else Inl (UnsupportedPlatform platform))"

section \<open>Visiting\<close>

type_synonym definitions = "(str, json) dict"

record audit =
  au_visited :: "str list"
  au_names :: "str list"
  au_platform :: "str list"

definition reject_cleanup :: "json \<Rightarrow> str list \<Rightarrow> audit_failure + unit" where
  "reject_cleanup node path = (if has_cleanup node then Inl (ImplicitCleanup path) else Inr ())"

definition function_name :: "(json \<Rightarrow> str) \<Rightarrow> json \<Rightarrow> str" where
  "function_name py_str node = (if field node ''name'' = None then lit ''<unnamed-local>'' else text_field py_str node ''name'')"

text \<open>
  \<open>visit_call_sequence\<close> with \<open>visit\<close> and \<open>visit_calls\<close>.  A visit that is not yet done goes one
  definition deeper, so as many levels as there are definitions are enough.
\<close>

fun visit_call_sequence ::
  "nat \<Rightarrow> (json \<Rightarrow> str) \<Rightarrow> str list \<Rightarrow> definitions \<Rightarrow> call list \<Rightarrow> str list \<Rightarrow> audit \<Rightarrow> audit_failure + audit" where
  "visit_call_sequence n py_str allowed defs [] path st = Inr st"
| "visit_call_sequence 0 py_str allowed defs (c # cs) path st = Inl AuditFuel"
| "visit_call_sequence (Suc n) py_str allowed defs (c # cs) path st =
     (case ca_id c of
        None \<Rightarrow> Inl (UnresolvedCall (path @ [ca_name c]))
      | Some i \<Rightarrow>
          (case map_of defs i of
             Some function \<Rightarrow>
               if i \<in> set (au_visited st) then visit_call_sequence (Suc n) py_str allowed defs cs path st
               else
                 (let name = function_name py_str function; current = path @ [name]
                  in rbind (reject_cleanup function current) (\<lambda>_.
                     rbind (visit_call_sequence n py_str allowed defs (calls_of py_str function) current
                       (st \<lparr> au_visited := i # au_visited st, au_names := name # au_names st \<rparr>))
                       (visit_call_sequence (Suc n) py_str allowed defs cs path)))
           | None \<Rightarrow>
               if ca_name c \<notin> set allowed then Inl (ForbiddenCallee (path @ [ca_name c]))
               else visit_call_sequence (Suc n) py_str allowed defs cs path
                 (st \<lparr> au_platform := ca_name c # au_platform st \<rparr>)))"

definition visit_calls ::
  "(json \<Rightarrow> str) \<Rightarrow> str list \<Rightarrow> definitions \<Rightarrow> json \<Rightarrow> str list \<Rightarrow> audit \<Rightarrow> audit_failure + audit" where
  "visit_calls py_str allowed defs node path st =
     rbind (reject_cleanup node path) (\<lambda>_.
       visit_call_sequence (Suc (length defs)) py_str allowed defs (calls_of py_str node) path st)"

fun visit_each ::
  "(json \<Rightarrow> str) \<Rightarrow> str list \<Rightarrow> definitions \<Rightarrow> json list \<Rightarrow> str list \<Rightarrow> audit \<Rightarrow> audit_failure + audit" where
  "visit_each py_str allowed defs [] path st = Inr st"
| "visit_each py_str allowed defs (node # nodes) path st =
     rbind (visit_calls py_str allowed defs node path st) (visit_each py_str allowed defs nodes path)"

section \<open>The audit\<close>

text \<open>The definitions of the source, and those of the two functions the audit looks for.\<close>

fun collect_definitions ::
  "(json \<Rightarrow> str) \<Rightarrow> (str \<Rightarrow> bool) \<Rightarrow> json list \<Rightarrow> definitions \<times> nat \<times> json list \<Rightarrow>
    audit_failure + definitions \<times> nat \<times> json list" where
  "collect_definitions py_str is_source [] acc = Inr acc"
| "collect_definitions py_str is_source (node # nodes) (defs, roots, opens) =
     (if \<not> kind_is ''FunctionDecl'' node \<or> \<not> has_body node \<or> \<not> is_source_definition is_source node
      then collect_definitions py_str is_source nodes (defs, roots, opens)
      else if text_field py_str node ''id'' = [] then Inl NoAstId
      else collect_definitions py_str is_source nodes
        (dict_set (text_field py_str node ''id'') node defs,
         if named ROOT_FUNCTION node then Suc roots else roots,
         if named OPEN_FUNCTION node then opens @ [node] else opens))"

definition inside_place :: "place \<Rightarrow> place \<Rightarrow> bool" where
  "inside_place outer inner \<longleftrightarrow> take (length outer) inner = outer"

text \<open>The body of the open function: its statements with their places.\<close>

definition body_statements :: "json \<Rightarrow> audit_failure + (place \<times> json) list" where
  "body_statements open_function =
     (case filter (\<lambda>(i, c). kind_is ''CompoundStmt'' c) (enumerate 0 (child_nodes open_function)) of
        [(i, body)] \<Rightarrow> Inr (map (\<lambda>(j, s). ([i, j], s)) (enumerate 0 (child_nodes body)))
      | found \<Rightarrow> Inl (OpenBodies (length found)))"

definition branch_candidates :: "(json \<Rightarrow> str) \<Rightarrow> json \<Rightarrow> (place \<times> json) list" where
  "branch_candidates py_str open_function =
     filter (\<lambda>(p, n). kind_is ''IfStmt'' n \<and> list_ex (\<lambda>c. ca_name c = ROOT_FUNCTION) (calls_of py_str n))
       (walk [] open_function)"

definition fork_calls :: "(json \<Rightarrow> str) \<Rightarrow> json \<Rightarrow> (place \<times> json) list" where
  "fork_calls py_str open_function =
     filter (\<lambda>(p, n). kind_is ''CallExpr'' n \<and> ca_name (direct_callee py_str n) = lit ''fork'') (walk [] open_function)"

definition holding :: "place \<Rightarrow> (place \<times> json) list \<Rightarrow> nat list" where
  "holding target statements =
     map fst (filter (\<lambda>(k, p, _). inside_place p target) (enumerate 0 statements))"

text \<open>What is visited of one statement between the fork and the branch.\<close>

definition gap_nodes :: "str \<Rightarrow> json \<Rightarrow> json list" where
  "gap_nodes source_text statement =
     (case child_nodes statement of
        condition # rest \<Rightarrow>
          if kind_is ''IfStmt'' statement \<and> compact condition source_text = lit ''leader<0''
          then condition # drop 1 rest else [statement]
      | [] \<Rightarrow> [statement])"

definition gap_path :: "str list" where "gap_path = [lit ''post-fork-gap'']"
definition branch_path :: "str list" where "branch_path = [lit ''post-fork-child-branch'']"

definition is_call_to :: "(json \<Rightarrow> str) \<Rightarrow> str \<Rightarrow> json \<Rightarrow> bool" where
  "is_call_to py_str name node \<longleftrightarrow> kind_is ''CallExpr'' node \<and> ca_name (direct_callee py_str node) = name"

text \<open>The calls of the fork's own statement, and the statements after it before the branch.\<close>

definition audit_region ::
  "(json \<Rightarrow> str) \<Rightarrow> str \<Rightarrow> str list \<Rightarrow> definitions \<Rightarrow> json \<Rightarrow> json list \<Rightarrow> audit_failure + audit" where
  "audit_region py_str source_text allowed defs fork_statement gap =
     rbind (reject_cleanup fork_statement gap_path) (\<lambda>_.
     rbind (visit_call_sequence (Suc (length defs)) py_str allowed defs
         (filter (\<lambda>c. ca_name c \<noteq> lit ''fork'') (calls_of py_str fork_statement)) gap_path
         \<lparr> au_visited = [], au_names = [], au_platform = [] \<rparr>)
       (visit_each py_str allowed defs (concat (map (gap_nodes source_text) gap)) gap_path))"

definition audit_branch ::
  "(json \<Rightarrow> str) \<Rightarrow> str \<Rightarrow> str list \<Rightarrow> definitions \<Rightarrow> json \<Rightarrow> audit \<Rightarrow> audit_failure + audit" where
  "audit_branch py_str source_text allowed defs branch st =
     (case child_nodes branch of
        [] \<Rightarrow> Inl NotGuardedByLeader
      | condition # parts \<Rightarrow>
          if compact condition source_text \<noteq> lit ''leader==0'' then Inl NotGuardedByLeader
          else
            (case parts of
               [body] \<Rightarrow>
                 if \<not> kind_is ''CompoundStmt'' body then Inl BranchHasElse
                 else if child_nodes body = [] \<or> \<not> is_call_to py_str (lit ''_exit'') (last (child_nodes body))
                 then Inl BranchDoesNotExit
                 else rbind (visit_calls py_str allowed defs branch branch_path st) (\<lambda>st'.
                   if length (child_nodes body) \<noteq> 2 \<or> \<not> is_call_to py_str ROOT_FUNCTION (hd (child_nodes body))
                   then Inl BranchHoldsMore else Inr st')
             | _ \<Rightarrow> Inl BranchHasElse))"

record audit_result =
  ar_local_functions :: "str list"
  ar_platform_calls :: "str list"

definition audit_open ::
  "(json \<Rightarrow> str) \<Rightarrow> str \<Rightarrow> str \<Rightarrow> definitions \<Rightarrow> json \<Rightarrow> audit_failure + audit_result" where
  "audit_open py_str source_text platform defs open_function =
     (case branch_candidates py_str open_function of
        [(branch_place, branch)] \<Rightarrow>
          rbind (platform_allowlist platform) (\<lambda>allowed.
          rbind (body_statements open_function) (\<lambda>statements.
            case fork_calls py_str open_function of
              [(fork_place, _)] \<Rightarrow>
                (case (holding fork_place statements, holding branch_place statements) of
                   ([fork_index], [branch_index]) \<Rightarrow>
                     if branch_index \<le> fork_index then Inl BranchBeforeFork
                     else
                       rbind (audit_region py_str source_text allowed defs (snd (statements ! fork_index))
                           (map snd (take (branch_index - Suc fork_index) (drop (Suc fork_index) statements)))) (\<lambda>st.
                       rbind (audit_branch py_str source_text allowed defs branch st) (\<lambda>st'.
                         if set (au_platform st') \<noteq> set allowed
                         then Inl (AllowlistDiffers
                           (sort (filter (\<lambda>x. x \<notin> set (au_platform st')) allowed))
                           (sort (remdups (filter (\<lambda>x. x \<notin> set allowed) (au_platform st')))))
                         else Inr \<lparr> ar_local_functions = sort (remdups (au_names st')),
                                    ar_platform_calls = sort (remdups (au_platform st')) \<rparr>))
                 | _ \<Rightarrow> Inl RegionNotIsolated)
            | found \<Rightarrow> Inl (ForkCalls (length found))))
      | found \<Rightarrow> Inl (ChildBranches (length found)))"

definition audit_source ::
  "(json \<Rightarrow> str) \<Rightarrow> (str \<Rightarrow> bool) \<Rightarrow> str \<Rightarrow> str \<Rightarrow> json \<Rightarrow> audit_failure + audit_result" where
  "audit_source py_str is_source source_text platform tree =
     rbind (collect_definitions py_str is_source (map snd (walk [] tree)) ([], 0, [])) (\<lambda>(defs, roots, opens).
       if roots \<noteq> 1 then Inl (RootDefinitions roots)
       else case opens of
              [open_function] \<Rightarrow> audit_open py_str source_text platform defs open_function
            | _ \<Rightarrow> Inl (OpenDefinitions (length opens)))"

text \<open>
  The compiler's answer: \<open>None\<close> is a compile that failed; otherwise what \<open>json.loads\<close> makes of its
  output, where only a \<open>JSONDecodeError\<close> is turned into an \<open>AuditFailure\<close>.  \<open>main\<close> audits the production
  variant and then the testing one; \<open>None\<close> is an exception it does not catch.
\<close>

definition compiler_ast :: "(jerr + json) option \<Rightarrow> audit_failure + json" where
  "compiler_ast answer =
     (case answer of
        None \<Rightarrow> Inl CompileFailed
      | Some (Inl e) \<Rightarrow> Inl (if e = JDecode then InvalidAst else AstEscapes)
      | Some (Inr tree) \<Rightarrow> if is_node tree then Inr tree else Inl InvalidAst)"

definition audit_variants ::
  "(json \<Rightarrow> str) \<Rightarrow> (str \<Rightarrow> bool) \<Rightarrow> str \<Rightarrow> str \<Rightarrow> (bool \<Rightarrow> (jerr + json) option) \<Rightarrow>
    audit_failure + audit_result \<times> audit_result" where
  "audit_variants py_str is_source source_text platform compiled =
     rbind (rbind (compiler_ast (compiled False)) (audit_source py_str is_source source_text platform)) (\<lambda>production.
     rbind (rbind (compiler_ast (compiled True)) (audit_source py_str is_source source_text platform)) (\<lambda>testing.
       Inr (production, testing)))"

definition postfork_main ::
  "(json \<Rightarrow> str) \<Rightarrow> (str \<Rightarrow> bool) \<Rightarrow> str \<Rightarrow> str \<Rightarrow> (bool \<Rightarrow> (jerr + json) option) \<Rightarrow> int option" where
  "postfork_main py_str is_source source_text platform compiled =
     (case audit_variants py_str is_source source_text platform compiled of
        Inl AstEscapes \<Rightarrow> None | Inl _ \<Rightarrow> Some 1 | Inr _ \<Rightarrow> Some 0)"

section \<open>What a visit settles\<close>

text \<open>A call is settled when its definition was visited, or when it is on the allowlist.\<close>

definition settled_call :: "str list \<Rightarrow> definitions \<Rightarrow> str set \<Rightarrow> call \<Rightarrow> bool" where
  "settled_call allowed defs visited c \<longleftrightarrow>
     (\<exists>i. ca_id c = Some i \<and> (if map_of defs i = None then ca_name c \<in> set allowed else i \<in> visited))"

definition closed_on :: "(json \<Rightarrow> str) \<Rightarrow> str list \<Rightarrow> definitions \<Rightarrow> str set \<Rightarrow> str set \<Rightarrow> bool" where
  "closed_on py_str allowed defs visited new \<longleftrightarrow>
     (\<forall>i\<in>new. \<exists>f. map_of defs i = Some f \<and> \<not> has_cleanup f
        \<and> (\<forall>c\<in>set (calls_of py_str f). settled_call allowed defs visited c))"

lemma settled_mono: "settled_call allowed defs v c \<Longrightarrow> v \<subseteq> v' \<Longrightarrow> settled_call allowed defs v' c"
  by (auto simp: settled_call_def split: if_splits)

lemma closed_mono: "closed_on py_str allowed defs v new \<Longrightarrow> v \<subseteq> v' \<Longrightarrow> closed_on py_str allowed defs v' new"
  unfolding closed_on_def using settled_mono [of allowed defs v _ v'] by metis

lemma closed_Un: "closed_on py_str allowed defs v (a \<union> b) \<longleftrightarrow> closed_on py_str allowed defs v a \<and> closed_on py_str allowed defs v b"
  by (auto simp: closed_on_def)

definition visit_done ::
  "(json \<Rightarrow> str) \<Rightarrow> str list \<Rightarrow> definitions \<Rightarrow> call list \<Rightarrow> str set \<Rightarrow> str set \<Rightarrow> bool" where
  "visit_done py_str allowed defs cs before after \<longleftrightarrow>
     before \<subseteq> after \<and> (\<forall>c\<in>set cs. settled_call allowed defs after c) \<and> closed_on py_str allowed defs after (after - before)"

lemma visit_done_trans:
  assumes "visit_done py_str allowed defs cs a b" "visit_done py_str allowed defs cs' b c"
  shows "visit_done py_str allowed defs (cs @ cs') a c"
proof -
  have sub: "a \<subseteq> b" "b \<subseteq> c" using assms by (simp_all add: visit_done_def)
  then have "c - a = (b - a) \<union> (c - b)" by blast
  moreover have "closed_on py_str allowed defs b (b - a)" "closed_on py_str allowed defs c (c - b)"
    using assms by (simp_all add: visit_done_def)
  ultimately have "closed_on py_str allowed defs c (c - a)"
    using closed_mono [OF _ sub(2)] by (simp add: closed_Un)
  moreover have "\<forall>c'\<in>set (cs @ cs'). settled_call allowed defs c c'"
    using assms settled_mono [OF _ sub(2)] by (simp add: visit_done_def ball_Un)
  ultimately show ?thesis using sub by (simp add: visit_done_def)
qed

lemma visit_settles:
  "visit_call_sequence n py_str allowed defs cs path st = Inr st' \<Longrightarrow>
     visit_done py_str allowed defs cs (set (au_visited st)) (set (au_visited st'))"
proof (induction n py_str allowed defs cs path st arbitrary: st' rule: visit_call_sequence.induct)
  case (1 n py_str allowed defs path st)
  then show ?case by (simp add: visit_done_def closed_on_def)
next
  case (3 n py_str allowed defs c cs path st)
  let ?done = "visit_done py_str allowed defs"
  obtain i where i: "ca_id c = Some i" using "3.prems" by (cases "ca_id c") auto
  have one: "?done [c] v v" if "settled_call allowed defs v c" for v
    using that by (simp add: visit_done_def closed_on_def)
  show ?case
  proof (cases "map_of defs i")
    case None
    then have allowed: "ca_name c \<in> set allowed" using "3.prems" i by (auto split: if_splits)
    have rest: "?done cs (set (au_visited st)) (set (au_visited st'))"
      using "3.IH"(1) [OF i None] "3.prems" i None allowed by fastforce
    have "settled_call allowed defs (set (au_visited st)) c" using i None allowed by (simp add: settled_call_def)
    from visit_done_trans [OF one [OF this] rest] show ?thesis by simp
  next
    case (Some f)
    show ?thesis
    proof (cases "i \<in> set (au_visited st)")
      case True
      then have rest: "?done cs (set (au_visited st)) (set (au_visited st'))"
        using "3.IH"(2) [OF i Some] "3.prems" i Some by simp
      have "settled_call allowed defs (set (au_visited st)) c" using i Some True by (simp add: settled_call_def)
      from visit_done_trans [OF one [OF this] rest] show ?thesis by simp
    next
      case False
      let ?name = "function_name py_str f"
      let ?st1 = "st \<lparr> au_visited := i # au_visited st, au_names := ?name # au_names st \<rparr>"
      obtain st2 where st2: "reject_cleanup f (path @ [?name]) = Inr ()"
          "visit_call_sequence n py_str allowed defs (calls_of py_str f) (path @ [?name]) ?st1 = Inr st2"
          "visit_call_sequence (Suc n) py_str allowed defs cs path st2 = Inr st'"
        using "3.prems" i Some False by (auto simp: Let_def rbind_Inr)
      have body: "?done (calls_of py_str f) (insert i (set (au_visited st))) (set (au_visited st2))"
        using "3.IH"(3) [OF i Some False refl refl] st2(1,2) by simp
      have rest: "?done cs (set (au_visited st2)) (set (au_visited st'))"
        using "3.IH"(4) [OF i Some False refl refl] st2(2,3) by blast
      let ?v2 = "set (au_visited st2)"
      have clean: "\<not> has_cleanup f" using st2(1) by (auto simp: reject_cleanup_def split: if_splits)
      have "closed_on py_str allowed defs ?v2 {i}"
        using body clean Some by (auto simp: closed_on_def visit_done_def)
      moreover have "?v2 - set (au_visited st) = {i} \<union> (?v2 - insert i (set (au_visited st)))"
        using body False by (auto simp: visit_done_def)
      ultimately have "closed_on py_str allowed defs ?v2 (?v2 - set (au_visited st))"
        using body by (simp only: closed_Un visit_done_def)
      moreover have "settled_call allowed defs ?v2 c" using body i Some by (auto simp: settled_call_def visit_done_def)
      ultimately have "?done [c] (set (au_visited st)) ?v2" using body by (auto simp: visit_done_def)
      from visit_done_trans [OF this rest] show ?thesis by simp
    qed
  qed
qed simp

section \<open>The visit ends\<close>

lemma visit_fuel:
  "card (fst ` set defs - set (au_visited st)) < n \<Longrightarrow>
     visit_call_sequence n py_str allowed defs cs path st \<noteq> Inl AuditFuel"
proof (induction n py_str allowed defs cs path st rule: visit_call_sequence.induct)
  case (3 n py_str allowed defs c cs path st)
  let ?left = "\<lambda>v. card (fst ` set defs - set v)"
  show ?case
  proof (cases "ca_id c")
    case (Some i)
    show ?thesis
    proof (cases "map_of defs i")
      case None
      then show ?thesis using "3.IH"(1) [OF Some None] "3.prems" Some by auto
    next
      case f: (Some f)
      show ?thesis
      proof (cases "i \<in> set (au_visited st)")
        case True
        then show ?thesis using "3.IH"(2) [OF Some f True] "3.prems" Some f by simp
      next
        case False
        let ?name = "function_name py_str f"
        let ?st1 = "st \<lparr> au_visited := i # au_visited st, au_names := ?name # au_names st \<rparr>"
        let ?body = "visit_call_sequence n py_str allowed defs (calls_of py_str f) (path @ [?name]) ?st1"
        have "i \<in> fst ` set defs" using f by (metis map_of_eq_None_iff option.distinct(1))
        then have "fst ` set defs - set (au_visited ?st1) \<subset> fst ` set defs - set (au_visited st)"
          using False by auto
        then have "?left (au_visited ?st1) < n"
          using psubset_card_mono [of "fst ` set defs - set (au_visited st)" "fst ` set defs - set (au_visited ?st1)"] "3.prems"
          by simp
        then have body: "reject_cleanup f (path @ [?name]) = Inr u \<Longrightarrow> ?body \<noteq> Inl AuditFuel" for u
          using "3.IH"(3) [OF Some f False refl refl] by blast
        have rest: "visit_call_sequence (Suc n) py_str allowed defs cs path st2 \<noteq> Inl AuditFuel"
          if "reject_cleanup f (path @ [?name]) = Inr u" "?body = Inr st2" for st2 u
        proof -
          have "set (au_visited ?st1) \<subseteq> set (au_visited st2)"
            using visit_settles [OF that(2)] by (simp add: visit_done_def)
          then have "?left (au_visited st2) \<le> ?left (au_visited st)"
            by (intro card_mono) auto
          then show ?thesis using "3.IH"(4) [OF Some f False refl refl, of st2] "3.prems" by (meson le_less_trans)
        qed
        show ?thesis
          using body rest Some f False
          by (cases "reject_cleanup f (path @ [?name])"; cases ?body)
            (auto simp: Let_def reject_cleanup_def split: if_splits)
      qed
    qed
  qed simp
qed simp_all

lemma full_fuel: "visit_call_sequence (Suc (length defs)) py_str allowed defs cs path st \<noteq> Inl AuditFuel"
proof (rule visit_fuel)
  have "card (fst ` set defs - set (au_visited st)) \<le> card (fst ` set defs)" by (intro card_mono) auto
  also have "\<dots> \<le> length defs" by (metis card_image_le card_length finite_set le_trans)
  finally show "card (fst ` set defs - set (au_visited st)) < Suc (length defs)" by simp
qed

lemma visit_calls_fuel: "visit_calls py_str allowed defs node path st \<noteq> Inl AuditFuel"
  using full_fuel by (auto simp: visit_calls_def rbind_Inl reject_cleanup_def)

lemma visit_each_fuel: "visit_each py_str allowed defs nodes path st \<noteq> Inl AuditFuel"
  by (induction nodes arbitrary: st) (auto simp: rbind_Inl visit_calls_fuel)

lemma region_fuel: "audit_region py_str source_text allowed defs fork_statement gap \<noteq> Inl AuditFuel"
  using full_fuel visit_each_fuel by (auto simp: audit_region_def rbind_Inl reject_cleanup_def)

lemma branch_fuel: "audit_branch py_str source_text allowed defs branch st \<noteq> Inl AuditFuel"
  using visit_calls_fuel by (auto simp: audit_branch_def rbind_Inl split: list.splits if_splits)

lemma collect_fuel: "collect_definitions py_str is_source nodes acc \<noteq> Inl AuditFuel"
  by (induction py_str is_source nodes acc rule: collect_definitions.induct) simp_all

text \<open>The fuel of the visits is always enough: the audit of every tree ends with its own answer.\<close>

lemma audit_never_short: "audit_source py_str is_source source_text platform tree \<noteq> Inl AuditFuel"
proof -
  have "audit_open py_str source_text platform defs f \<noteq> Inl AuditFuel" for defs f
    using region_fuel branch_fuel
    by (auto simp: audit_open_def rbind_Inl platform_allowlist_def body_statements_def split: list.splits if_splits prod.splits)
  then show ?thesis
    using collect_fuel by (auto simp: audit_source_def rbind_Inl split: list.splits if_splits)
qed

section \<open>What an accepted audit shows\<close>

text \<open>The calls a call can lead to: those of a definition that a reached call names.\<close>

inductive reaches :: "(json \<Rightarrow> str) \<Rightarrow> definitions \<Rightarrow> call list \<Rightarrow> call \<Rightarrow> bool"
  for py_str :: "json \<Rightarrow> str" and defs :: definitions and cs :: "call list" where
  direct: "c \<in> set cs \<Longrightarrow> reaches py_str defs cs c"
| through: "reaches py_str defs cs c \<Longrightarrow> ca_id c = Some i \<Longrightarrow> map_of defs i = Some f \<Longrightarrow> d \<in> set (calls_of py_str f) \<Longrightarrow>
    reaches py_str defs cs d"

text \<open>The calls of the child's region, as written in the open function.\<close>

definition child_region :: "(json \<Rightarrow> str) \<Rightarrow> str \<Rightarrow> json \<Rightarrow> call list" where
  "child_region py_str source_text open_function =
     (case (branch_candidates py_str open_function, body_statements open_function, fork_calls py_str open_function) of
        ([(branch_place, branch)], Inr statements, [(fork_place, _)]) \<Rightarrow>
          (case (holding fork_place statements, holding branch_place statements) of
             ([f], [b]) \<Rightarrow>
               filter (\<lambda>c. ca_name c \<noteq> lit ''fork'') (calls_of py_str (snd (statements ! f)))
               @ concat (map (calls_of py_str) (concat (map (gap_nodes source_text)
                   (map snd (take (b - Suc f) (drop (Suc f) statements))))))
               @ calls_of py_str branch
           | _ \<Rightarrow> [])
      | _ \<Rightarrow> [])"

lemma visit_calls_settles:
  "visit_calls py_str allowed defs node path st = Inr st' \<Longrightarrow>
     visit_done py_str allowed defs (calls_of py_str node) (set (au_visited st)) (set (au_visited st'))"
  by (auto simp: visit_calls_def rbind_Inr dest: visit_settles)

lemma visit_each_settles:
  "visit_each py_str allowed defs nodes path st = Inr st' \<Longrightarrow>
     visit_done py_str allowed defs (concat (map (calls_of py_str) nodes)) (set (au_visited st)) (set (au_visited st'))"
proof (induction nodes arbitrary: st)
  case Nil
  then show ?case by (simp add: visit_done_def closed_on_def)
next
  case (Cons node nodes)
  then obtain st1 where "visit_calls py_str allowed defs node path st = Inr st1"
      "visit_each py_str allowed defs nodes path st1 = Inr st'"
    by (auto simp: rbind_Inr)
  from visit_done_trans [OF visit_calls_settles [OF this(1)] Cons.IH [OF this(2)]] show ?case by simp
qed

lemma audit_region_settles:
  assumes "audit_region py_str source_text allowed defs fork_statement gap = Inr st"
  shows "visit_done py_str allowed defs
    (filter (\<lambda>c. ca_name c \<noteq> lit ''fork'') (calls_of py_str fork_statement)
      @ concat (map (calls_of py_str) (concat (map (gap_nodes source_text) gap)))) {} (set (au_visited st))"
proof -
  obtain st1 where "visit_call_sequence (Suc (length defs)) py_str allowed defs
        (filter (\<lambda>c. ca_name c \<noteq> lit ''fork'') (calls_of py_str fork_statement)) gap_path
        \<lparr> au_visited = [], au_names = [], au_platform = [] \<rparr> = Inr st1"
      "visit_each py_str allowed defs (concat (map (gap_nodes source_text) gap)) gap_path st1 = Inr st"
    using assms by (auto simp: audit_region_def rbind_Inr simp del: visit_call_sequence.simps)
  from visit_done_trans [OF visit_settles [OF this(1)] visit_each_settles [OF this(2)]] show ?thesis by simp
qed

lemma audit_branch_settles:
  assumes "audit_branch py_str source_text allowed defs branch st = Inr st'"
  shows "visit_done py_str allowed defs (calls_of py_str branch) (set (au_visited st)) (set (au_visited st'))"
  using assms by (auto simp: audit_branch_def rbind_Inr dest: visit_calls_settles split: list.splits if_splits)

lemma audit_open_settles:
  assumes "audit_open py_str source_text platform defs open_function = Inr r"
  obtains allowed visited where "platform_allowlist platform = Inr allowed"
    "visit_done py_str allowed defs (child_region py_str source_text open_function) {} visited"
    "set (ar_platform_calls r) = set allowed"
proof -
  obtain bp branch where branch: "branch_candidates py_str open_function = [(bp, branch)]"
    using assms by (cases "branch_candidates py_str open_function" rule: remdups_adj.cases) (auto simp: audit_open_def)
  then obtain allowed statements where a: "platform_allowlist platform = Inr allowed"
      "body_statements open_function = Inr statements"
    using assms by (auto simp: audit_open_def rbind_Inr)
  obtain fp fork where fork: "fork_calls py_str open_function = [(fp, fork)]"
    using assms branch a by (cases "fork_calls py_str open_function" rule: remdups_adj.cases) (auto simp: audit_open_def)
  obtain f where f: "holding fp statements = [f]"
    using assms branch a fork by (cases "holding fp statements" rule: remdups_adj.cases) (auto simp: audit_open_def)
  obtain b where b: "holding bp statements = [b]"
    using assms branch a fork f by (cases "holding bp statements" rule: remdups_adj.cases) (auto simp: audit_open_def)
  obtain st st' where p:
      "audit_region py_str source_text allowed defs (snd (statements ! f))
         (map snd (take (b - Suc f) (drop (Suc f) statements))) = Inr st"
      "audit_branch py_str source_text allowed defs branch st = Inr st'"
      "set (au_platform st') = set allowed" "set (ar_platform_calls r) = set (au_platform st')"
    using assms branch a fork f b by (auto simp: audit_open_def rbind_Inr split: if_splits)
  have "visit_done py_str allowed defs (child_region py_str source_text open_function) {} (set (au_visited st'))"
    using visit_done_trans [OF audit_region_settles [OF p(1)] audit_branch_settles [OF p(2)]] branch a(2) fork f b
    by (simp add: child_region_def)
  with a(1) p(3,4) show thesis by (intro that) simp_all
qed

lemma reached_settled:
  assumes "visit_done py_str allowed defs cs {} visited" "reaches py_str defs cs c"
  shows "settled_call allowed defs visited c"
  using assms(2)
proof induction
  case (direct c)
  then show ?case using assms(1) by (simp add: visit_done_def)
next
  case (through c i f d)
  then have "i \<in> visited" by (auto simp: settled_call_def)
  then show ?case using assms(1) through by (auto simp: visit_done_def closed_on_def)
qed

text \<open>
  C13 (the forked child makes only reviewed calls): when the audit accepts a syntax tree, every call the
  child's region can reach through definitions of the source is direct, and either leads to such a
  definition, which has no implicit cleanup, or is on the platform's allowlist; and the calls reported are
  exactly that allowlist.
\<close>

theorem child_calls_reviewed:
  assumes "audit_source py_str is_source source_text platform tree = Inr r"
  shows "\<exists>defs open_function allowed.
    collect_definitions py_str is_source (map snd (walk [] tree)) ([], 0, []) = Inr (defs, 1, [open_function])
    \<and> platform_allowlist platform = Inr allowed \<and> set (ar_platform_calls r) = set allowed
    \<and> (\<forall>c. reaches py_str defs (child_region py_str source_text open_function) c \<longrightarrow>
        (\<exists>i. ca_id c = Some i \<and> (case map_of defs i of Some f \<Rightarrow> \<not> has_cleanup f | None \<Rightarrow> ca_name c \<in> set allowed)))"
proof -
  obtain defs open_function where c:
      "collect_definitions py_str is_source (map snd (walk [] tree)) ([], 0, []) = Inr (defs, 1, [open_function])"
      "audit_open py_str source_text platform defs open_function = Inr r"
  proof -
    obtain defs roots opens where o: "collect_definitions py_str is_source (map snd (walk [] tree)) ([], 0, []) = Inr (defs, roots, opens)"
      using assms by (auto simp: audit_source_def rbind_Inr)
    moreover have "roots = 1" using assms o by (simp add: audit_source_def split: if_splits)
    moreover obtain f where "opens = [f]"
      using assms o \<open>roots = 1\<close> by (cases opens rule: remdups_adj.cases) (auto simp: audit_source_def)
    ultimately show thesis using assms that by (simp add: audit_source_def)
  qed
  obtain allowed visited where a: "platform_allowlist platform = Inr allowed"
      "visit_done py_str allowed defs (child_region py_str source_text open_function) {} visited"
      "set (ar_platform_calls r) = set allowed"
    using audit_open_settles [OF c(2)] by blast
  have "\<exists>i. ca_id c = Some i \<and> (case map_of defs i of Some f \<Rightarrow> \<not> has_cleanup f | None \<Rightarrow> ca_name c \<in> set allowed)"
    if r: "reaches py_str defs (child_region py_str source_text open_function) c" for c
  proof -
    obtain i where i: "ca_id c = Some i" "if map_of defs i = None then ca_name c \<in> set allowed else i \<in> visited"
      using reached_settled [OF a(2) r] by (auto simp: settled_call_def)
    then show ?thesis
      using a(2) by (auto simp: visit_done_def closed_on_def split: option.splits if_splits)
  qed
  with a c(1) show ?thesis by blast
qed

text \<open>A tree the audit accepts: the smallest open function, and a child that makes each call once.\<close>

definition node_of :: "string \<Rightarrow> json list \<Rightarrow> json" where
  "node_of k inner = JObj [(lit ''kind'', JStr (lit k)), (lit ''inner'', JArr inner)]"

definition call_of :: "str \<Rightarrow> str \<Rightarrow> json" where
  "call_of i name = node_of ''CallExpr'' [JObj [(lit ''kind'', JStr (lit ''DeclRefExpr'')),
     (lit ''referencedDecl'', JObj [(lit ''kind'', JStr (lit ''FunctionDecl'')), (lit ''id'', JStr i),
        (lit ''name'', JStr name)])]]"

definition function_of :: "str \<Rightarrow> str \<Rightarrow> json list \<Rightarrow> json" where
  "function_of i name statements = JObj [(lit ''kind'', JStr (lit ''FunctionDecl'')), (lit ''id'', JStr i),
     (lit ''name'', JStr name), (lit ''inner'', JArr [node_of ''CompoundStmt'' statements])]"

definition leader_test :: json where
  "leader_test = JObj [(lit ''kind'', JStr (lit ''BinaryOperator'')),
     (lit ''range'', JObj [(lit ''begin'', JObj [(lit ''offset'', JInt 0)]),
        (lit ''end'', JObj [(lit ''offset'', JInt 10), (lit ''tokLen'', JInt 1)])])]"

definition sample_ast :: json where
  "sample_ast = node_of ''TranslationUnitDecl''
     [function_of (lit ''0x1'') ROOT_FUNCTION
        (map (\<lambda>n. call_of (lit ''0xf'') n) (PLATFORM_ENTRY_POINTS @ [lit ''__errno_location''])),
      function_of (lit ''0x2'') OPEN_FUNCTION
        [node_of ''DeclStmt'' [call_of (lit ''0xe'') (lit ''fork'')],
         node_of ''IfStmt'' [leader_test,
           node_of ''CompoundStmt'' [call_of (lit ''0x1'') ROOT_FUNCTION, call_of (lit ''0xf'') (lit ''_exit'')]]]]"

lemma sample_ast_accepted:
  "audit_source (\<lambda>_. []) (\<lambda>_. True) (lit ''leader == 0'') (lit ''linux'') sample_ast =
     Inr \<lparr> ar_local_functions = [ROOT_FUNCTION],
           ar_platform_calls = sort (PLATFORM_ENTRY_POINTS @ [lit ''__errno_location'']) \<rparr>"
  by code_simp

theorem child_calls_reviewed_witness:
  "\<exists>defs open_function allowed.
    collect_definitions (\<lambda>_. []) (\<lambda>_. True) (map snd (walk [] sample_ast)) ([], 0, []) = Inr (defs, 1, [open_function])
    \<and> platform_allowlist (lit ''linux'') = Inr allowed
    \<and> (\<forall>c. reaches (\<lambda>_. []) defs (child_region (\<lambda>_. []) (lit ''leader == 0'') open_function) c \<longrightarrow>
        (\<exists>i. ca_id c = Some i \<and> (case map_of defs i of Some f \<Rightarrow> \<not> has_cleanup f | None \<Rightarrow> ca_name c \<in> set allowed)))"
  using child_calls_reviewed [OF sample_ast_accepted] by blast

end
