(* ===== verification/Safety_Check.thy ===== *)
theory Safety_Check
  imports Regex Text_Files
begin

text \<open>
  scripts/checks/safety.py: the lexical check that every mechanically unsafe operation of the Mojo sources
  stands under a SAFETY comment.  The word characters of the patterns and the walk of the file system are
  arguments; the printed wording is not modelled.
\<close>

section \<open>Blanking prose\<close>

text \<open>The open string, if any: its quote character and whether three open and close it.\<close>

type_synonym open_string = "(int \<times> bool) option"

definition quote_marker :: "int \<times> bool \<Rightarrow> str" where
  "quote_marker q = replicate (if snd q then 3 else 1) (fst q)"

definition blanks :: "nat \<Rightarrow> str" where "blanks n = replicate n 32"

lemma quote_marker_ne: "quote_marker q \<noteq> []"
  by (simp add: quote_marker_def)

function sanitize_from :: "open_string \<Rightarrow> bool \<Rightarrow> str \<Rightarrow> str" where
  "sanitize_from st escaped [] = []"
| "sanitize_from (Some q) escaped (c # cs) =
     (if c = 10 then 10 # sanitize_from (Some q) False cs
      else if escaped then 32 # sanitize_from (Some q) False cs
      else if c = 92 then 32 # sanitize_from (Some q) True cs
      else if startswith (c # cs) (quote_marker q)
      then blanks (length (quote_marker q)) @ sanitize_from None False (drop (length (quote_marker q)) (c # cs))
      else 32 # sanitize_from (Some q) False cs)"
| "sanitize_from None escaped (c # cs) =
     (if c = 35
      then blanks (length (takeWhile (\<lambda>x. x \<noteq> 10) (c # cs))) @ sanitize_from None escaped (dropWhile (\<lambda>x. x \<noteq> 10) (c # cs))
      else if c = 39 \<or> c = 34
      then (let q = (c, startswith (c # cs) [c, c, c])
            in blanks (length (quote_marker q)) @ sanitize_from (Some q) escaped (drop (length (quote_marker q)) (c # cs)))
      else c # sanitize_from None escaped cs)"
  by pat_completeness auto
termination
  by (relation "measure (\<lambda>(_, _, s). length s)")
    (auto simp: quote_marker_def less_Suc_eq_le length_dropWhile_le)

definition sanitize :: "str \<Rightarrow> str" where
  "sanitize source = sanitize_from None False source"

section \<open>Candidates\<close>

definition re_word_name :: "(int \<Rightarrow> bool) \<Rightarrow> re" where "re_word_name word = re_plus (Chr word)"
abbreviation ws :: re where "ws \<equiv> re_star (Chr is_space)"
abbreviation chr_is :: "char \<Rightarrow> re" where "chr_is c \<equiv> re_lit [c]"

definition name_char :: "int \<Rightarrow> bool" where "name_char c \<longleftrightarrow> is_ascii_alnum c \<or> c = 95"
definition name_start :: "int \<Rightarrow> bool" where "name_start c \<longleftrightarrow> name_char c \<and> \<not> is_ascii_digit c"
definition lower_start :: "int \<Rightarrow> bool" where "lower_start c \<longleftrightarrow> (97 \<le> c \<and> c \<le> 122) \<or> c = 95"

definition CANDIDATES :: "(int \<Rightarrow> bool) \<Rightarrow> (string \<times> re) list" where
  "CANDIDATES word =
     [(''UnsafePointer construction'', re_seq [re_boundary word, re_lit ''UnsafePointer'', ws,
         re_opt (re_seq [chr_is CHR ''['', re_star (Chr (\<lambda>c. c \<noteq> 10)), chr_is CHR '']'']), ws, chr_is CHR ''('']),
      (''raw allocation'', re_seq [re_boundary word, re_lit ''alloc'', ws, chr_is CHR ''['']),
      (''manual free'', re_seq [chr_is CHR ''.'', re_opt (re_lit ''unsafe_''), re_lit ''free'', ws, chr_is CHR ''('']),
      (''unsafe constructor'', re_seq [re_boundary word, re_lit ''unsafe_from_'', re_plus (Chr name_char), ws,
         re_alt [chr_is CHR ''='', chr_is CHR ''('']]),
      (''unsafe pointer escape'', re_seq [re_lit ''.unsafe_ptr'', ws, chr_is CHR ''('']),
      (''raw initialization'', re_seq [re_boundary word, re_lit ''memset_'', re_star (Chr name_char), ws, chr_is CHR ''('']),
      (''pointer bitcast'', re_seq [chr_is CHR ''.'', re_opt (re_lit ''unsafe_''), re_lit ''bitcast'', ws, chr_is CHR ''['']),
      (''unchecked offset'', re_seq [re_boundary word, re_lit ''unsafe_offset'', ws, chr_is CHR ''='']),
      (''origin erasure'', re_seq [re_lit ''.as_unsafe_any_origin'', ws, chr_is CHR ''('']),
      (''FFI call'', re_seq [re_boundary word, re_lit ''external_call'', ws, chr_is CHR ''[''])]"

definition has_candidate :: "(int \<Rightarrow> bool) \<Rightarrow> str \<Rightarrow> bool" where
  "has_candidate word line \<longleftrightarrow> list_ex (\<lambda>(_, p). re_search p line) (CANDIDATES word)"

definition SAFETY :: re where
  "SAFETY = re_seq [Bol, ws, chr_is CHR ''#'', ws, re_lit ''SAFETY:'', ws, Chr (\<lambda>c. \<not> is_space c)]"

definition COMMENT :: re where "COMMENT = re_seq [Bol, ws, chr_is CHR ''#'']"

definition is_safety :: "str \<Rightarrow> bool" where "is_safety line = re_matches SAFETY line"
definition is_comment :: "str \<Rightarrow> bool" where "is_comment line = re_matches COMMENT line"

section \<open>Covered lines\<close>

definition MAX_COVERAGE_LINES :: nat where "MAX_COVERAGE_LINES = 8"

definition delimiter_delta :: "str \<Rightarrow> int" where
  "delimiter_delta line =
     int (length (filter (\<lambda>c. c = 40 \<or> c = 91 \<or> c = 123) line)) - int (length (filter (\<lambda>c. c = 41 \<or> c = 93 \<or> c = 125) line))"

text \<open>How many further lines a statement goes on for while its brackets are open.\<close>

fun extend_statement :: "int \<Rightarrow> str list \<Rightarrow> nat" where
  "extend_statement depth [] = 0"
| "extend_statement depth (l # ls) = (if 0 < depth then Suc (extend_statement (depth + delimiter_delta l) ls) else 0)"

text \<open>The statements: first and last line, counted from 0, and whether one of the lines is a candidate.\<close>

type_synonym statement = "nat \<times> nat \<times> bool"

function statements_from :: "(int \<Rightarrow> bool) \<Rightarrow> nat \<Rightarrow> str list \<Rightarrow> statement list" where
  "statements_from word i [] = []"
| "statements_from word i (l # ls) =
     (if strip l = [] then statements_from word (Suc i) ls
      else
        (let k = extend_statement (delimiter_delta l) ls
         in (i, i + k, list_ex (has_candidate word) (l # take k ls)) # statements_from word (i + Suc k) (drop k ls)))"
  by pat_completeness auto
termination by (relation "measure (\<lambda>(_, _, ls). length ls)") auto

text \<open>The comment lines right above a line, upwards: one of them is a SAFETY comment.\<close>

fun safety_above :: "str list \<Rightarrow> nat \<Rightarrow> bool" where
  "safety_above original 0 = False"
| "safety_above original (Suc k) =
     (is_comment (original ! k) \<and> (is_safety (original ! k) \<or> safety_above original k))"

text \<open>The lines, counted from 1, one SAFETY comment covers: \<open>after\<close> is the line behind the last statement.\<close>

fun cover_run :: "str list \<Rightarrow> nat \<Rightarrow> nat \<Rightarrow> statement list \<Rightarrow> nat list" where
  "cover_run original first_line after [] = []"
| "cover_run original first_line after ((block_start, block_end, candidate) # rest) =
     (if \<not> candidate \<or> MAX_COVERAGE_LINES \<le> block_start - first_line
         \<or> list_ex (\<lambda>k. strip (original ! k) = []) [after..<block_start]
      then []
      else [block_start + 1..<min (block_end + 2) (first_line + MAX_COVERAGE_LINES + 1)]
        @ cover_run original first_line (Suc block_end) rest)"

fun covered_by :: "str list \<Rightarrow> statement list \<Rightarrow> nat list" where
  "covered_by original [] = []"
| "covered_by original ((start, stop, candidate) # rest) =
     (if candidate \<and> safety_above original start
      then cover_run original start start ((start, stop, candidate) # rest) else [])
     @ covered_by original rest"

definition covered_lines :: "(int \<Rightarrow> bool) \<Rightarrow> str \<Rightarrow> str \<Rightarrow> nat list" where
  "covered_lines word source sanitized =
     covered_by (splitlines source) (statements_from word 0 (splitlines sanitized))"

section \<open>The review inventory\<close>

definition ALLOCATED_NAME :: "(int \<Rightarrow> bool) \<Rightarrow> re" where
  "ALLOCATED_NAME word = re_seq [re_boundary word, re_lit ''var'', re_plus (Chr is_space),
     Grp 1 (Seq (Chr name_start) (re_star (Chr word))), ws, chr_is CHR ''='', ws,
     re_alt [re_seq [re_lit ''alloc'', ws, chr_is CHR ''[''],
             re_seq [re_lit ''UnsafePointer'', ws, re_alt [chr_is CHR ''['', chr_is CHR ''('']]]]"

definition POINTER_PARAMETER :: "(int \<Rightarrow> bool) \<Rightarrow> re" where
  "POINTER_PARAMETER word = re_seq [re_boundary word, Grp 1 (Seq (Chr name_start) (re_star (Chr word))), ws, chr_is CHR '':'', ws,
     re_alt [re_seq [re_opt (re_alt [re_lit ''Unsafe'', re_lit ''Mut'', re_lit ''Immut'']), re_lit ''Pointer'', re_boundary word],
             re_seq [Chr name_start, re_star (Chr word), re_lit ''Ptr'', re_boundary word]]]"

definition summand :: re where
  "summand = re_alt [Seq (Chr lower_start) (re_star (Chr name_char)), re_digits]"

definition index_part :: re where
  "index_part = re_seq [chr_is CHR ''['', re_plus (Chr (\<lambda>c. c \<noteq> 93 \<and> c \<noteq> 10)), chr_is CHR '']'']"

definition POSSIBLE_ARITHMETIC :: "(int \<Rightarrow> bool) \<Rightarrow> re" where
  "POSSIBLE_ARITHMETIC word = re_seq [re_boundary word, Grp 1 (Seq (Chr lower_start) (re_star (Chr name_char))), ws,
     chr_is CHR ''+'', ws, summand]"

definition POSSIBLE_DEREFERENCE :: "(int \<Rightarrow> bool) \<Rightarrow> re" where
  "POSSIBLE_DEREFERENCE word = re_seq [re_boundary word, Grp 1 (Seq (Chr lower_start) (re_star (Chr name_char))), ws, index_part]"

definition DERIVED_POINTER_ARITHMETIC :: re where
  "DERIVED_POINTER_ARITHMETIC = re_seq [chr_is CHR '')'', ws, chr_is CHR ''+'', ws, summand]"

definition DERIVED_POINTER_DEREFERENCE :: re where
  "DERIVED_POINTER_DEREFERENCE = re_seq [chr_is CHR '')'', ws, index_part]"

definition NON_POINTER_BRACKETS :: "str list" where
  "NON_POINTER_BRACKETS = [lit ''alloc'', lit ''bitcast'', lit ''unsafe_bitcast'', lit ''external_call'', lit ''range'']"

definition findall1 :: "re \<Rightarrow> str \<Rightarrow> str list" where
  "findall1 r line = map (\<lambda>m. group_text m 1) (re_find_all r line)"

definition pointer_names :: "(int \<Rightarrow> bool) \<Rightarrow> str list \<Rightarrow> str list" where
  "pointer_names word ls =
     (let arithmetic = concat (map (findall1 (POSSIBLE_ARITHMETIC word)) ls);
          dereferenced = filter (\<lambda>n. n \<notin> set NON_POINTER_BRACKETS) (concat (map (findall1 (POSSIBLE_DEREFERENCE word)) ls))
      in concat (map (\<lambda>l. findall1 (ALLOCATED_NAME word) l @ findall1 (POINTER_PARAMETER word) l) ls)
         @ filter (\<lambda>n. n \<in> set dereferenced) arithmetic)"

datatype inventory_kind = PossibleArithmetic | PossibleDereference

definition first_name_in :: "str list \<Rightarrow> str list \<Rightarrow> bool" where
  "first_name_in names found = (case found of [] \<Rightarrow> False | n # _ \<Rightarrow> n \<in> set names)"

definition line_inventory :: "(int \<Rightarrow> bool) \<Rightarrow> str list \<Rightarrow> nat \<times> str \<Rightarrow> (nat \<times> inventory_kind) list" where
  "line_inventory word names nl = (case nl of (n, line) \<Rightarrow>
     (if first_name_in names (findall1 (POSSIBLE_ARITHMETIC word) line) \<or> re_search DERIVED_POINTER_ARITHMETIC line
      then [(n, PossibleArithmetic)] else [])
     @ (if first_name_in names (findall1 (POSSIBLE_DEREFERENCE word) line) \<or> re_search DERIVED_POINTER_DEREFERENCE line
        then [(n, PossibleDereference)] else []))"

definition manual_inventory :: "(int \<Rightarrow> bool) \<Rightarrow> str list \<Rightarrow> (nat \<times> inventory_kind) list" where
  "manual_inventory word ls = concat (map (line_inventory word (pointer_names word ls)) (enumerate 1 ls))"

section \<open>The scan\<close>

record safety_finding =
  sf_path :: str
  sf_line :: nat
  sf_family :: str

definition scan_line :: "(int \<Rightarrow> bool) \<Rightarrow> str \<Rightarrow> nat list \<Rightarrow> nat \<times> str \<Rightarrow> safety_finding list" where
  "scan_line word path covered nl = (case nl of (n, line) \<Rightarrow>
     map (\<lambda>(family, _). \<lparr> sf_path = path, sf_line = n, sf_family = lit family \<rparr>)
       (filter (\<lambda>(_, p). re_search p line \<and> n \<notin> set covered) (CANDIDATES word)))"

definition scan_text :: "(int \<Rightarrow> bool) \<Rightarrow> str \<Rightarrow> str \<Rightarrow> safety_finding list \<times> (nat \<times> inventory_kind) list" where
  "scan_text word path source =
     (let sanitized = sanitize source; ls = splitlines sanitized; covered = covered_lines word source sanitized
      in (concat (map (scan_line word path covered) (enumerate 1 ls)), manual_inventory word ls))"

section \<open>Spellings no family matches\<close>

definition definer :: re where
  "definer = re_alt [re_lit ''def'', re_lit ''var'', re_lit ''comptime'']"

text \<open>Group 1 is the dot or the defining keyword before the name, group 2 the name.\<close>

definition UNSAFE_SPELLING :: "(int \<Rightarrow> bool) \<Rightarrow> re" where
  "UNSAFE_SPELLING word =
     re_seq [re_opt (Grp 1 (re_alt [chr_is CHR ''.'', re_seq [re_boundary word, definer, re_plus (Chr is_space)]])),
             re_boundary word, Grp 2 (Seq (re_lit ''unsafe_'') (re_plus (Chr word)))]"

definition LOCAL_DEFINITION :: "(int \<Rightarrow> bool) \<Rightarrow> re" where
  "LOCAL_DEFINITION word =
     re_alt [re_seq [Bol, definer, re_plus (Chr is_space), Grp 1 (Seq (re_lit ''unsafe_'') (re_plus (Chr word)))],
             re_seq [re_boundary word, re_lit ''var'', re_plus (Chr is_space), Grp 2 (Seq (re_lit ''unsafe_'') (re_plus (Chr word)))]]"

definition local_names :: "(int \<Rightarrow> bool) \<Rightarrow> str list \<Rightarrow> str list" where
  "local_names word texts =
     filter (\<lambda>n. n \<noteq> []) (concat (map (\<lambda>t. concat (map (\<lambda>m. [group_text m 1, group_text m 2])
       (re_find_all (LOCAL_DEFINITION word) t))) texts))"

definition candidate_spans :: "(int \<Rightarrow> bool) \<Rightarrow> str \<Rightarrow> (nat \<times> nat) list" where
  "candidate_spans word line =
     concat (map (\<lambda>(_, p). map (\<lambda>(a, b, _). (a, b)) (re_find_iter p line)) (CANDIDATES word))"

text \<open>The name is the end of the match, so it starts its own length before that.\<close>

definition unknown_use :: "str list \<Rightarrow> (nat \<times> nat) list \<Rightarrow> nat \<times> nat \<times> re_match \<Rightarrow> bool" where
  "unknown_use local spans use = (case use of (_, stop, m) \<Rightarrow>
     (let before = group_text m 1; name = group_text m 2; start = stop - length name
      in \<not> (before \<noteq> [] \<and> before \<noteq> [46])
         \<and> \<not> (before = [] \<and> name \<in> set local)
         \<and> \<not> list_ex (\<lambda>(lo, hi). lo \<le> start \<and> start < hi) spans))"

definition unrecognized_in :: "(int \<Rightarrow> bool) \<Rightarrow> str list \<Rightarrow> str \<times> str \<Rightarrow> safety_finding list" where
  "unrecognized_in word local pt = (case pt of (path, sanitized) \<Rightarrow>
     concat (map (\<lambda>(n, line).
       map (\<lambda>(_, _, m). \<lparr> sf_path = path, sf_line = n, sf_family = group_text m 2 \<rparr>)
         (filter (unknown_use local (candidate_spans word line)) (re_find_iter (UNSAFE_SPELLING word) line)))
       (enumerate 1 (splitlines sanitized))))"

definition unrecognized_spellings :: "(int \<Rightarrow> bool) \<Rightarrow> (str \<times> str) list \<Rightarrow> safety_finding list" where
  "unrecognized_spellings word sources =
     (let sanitized = map (\<lambda>(p, t). (p, sanitize t)) sources; local = local_names word (map snd sanitized)
      in concat (map (unrecognized_in word local) sanitized))"

section \<open>The command\<close>

text \<open>
  The sources the walk finds, with their bytes; \<open>None\<close> is an exception that leaves \<open>main\<close>: a file that
  cannot be read or is not UTF-8.  The sources are a dictionary, so a path found twice is read once.
\<close>

definition safety_sources :: "(str \<Rightarrow> bytes option) \<Rightarrow> str list \<Rightarrow> (str \<times> str) list option" where
  "safety_sources contents paths =
     (let files = map (\<lambda>p. (p, case contents p of None \<Rightarrow> None | Some b \<Rightarrow> read_utf8 b)) (remdups paths)
      in if list_ex (\<lambda>(_, t). t = None) files then None else Some (map (\<lambda>(p, t). (p, the t)) files))"

definition safety_main :: "(int \<Rightarrow> bool) \<Rightarrow> (str \<Rightarrow> bytes option) \<Rightarrow> str list \<Rightarrow> int option" where
  "safety_main word contents paths =
     (if paths = [] then Some 1
      else case safety_sources contents paths of
             None \<Rightarrow> None
           | Some sources \<Rightarrow>
               let findings = concat (map (\<lambda>(p, t). fst (scan_text word p t)) sources);
                   unknown = unrecognized_spellings word sources
               in Some (if findings \<noteq> [] \<or> unknown \<noteq> [] then 1 else 0))"

section \<open>Blanking keeps the shape\<close>

text \<open>One character of the sanitized text against the source: itself, or a blank that is no newline.\<close>

definition same_or_blank :: "int \<Rightarrow> int \<Rightarrow> bool" where
  "same_or_blank a b \<longleftrightarrow> b = a \<or> b = 32 \<and> a \<noteq> 10"

definition blanked :: "str \<Rightarrow> str \<Rightarrow> bool" where
  "blanked = list_all2 same_or_blank"

lemma blanked_Cons [simp]: "blanked (a # s) (b # t) \<longleftrightarrow> same_or_blank a b \<and> blanked s t"
  by (simp add: blanked_def)

lemma blanked_Nil [simp]: "blanked [] t \<longleftrightarrow> t = []"
  by (simp add: blanked_def)

lemma blanked_blanks: "10 \<notin> set s \<Longrightarrow> blanked s (blanks (length s))"
  by (induction s) (auto simp: blanks_def same_or_blank_def)

lemma blanked_append: "blanked s t \<Longrightarrow> blanked s' t' \<Longrightarrow> blanked (s @ s') (t @ t')"
  unfolding blanked_def by (rule list_all2_appendI)

lemma blanked_blanks_append:
  "10 \<notin> set m \<Longrightarrow> blanked s' t' \<Longrightarrow> blanked (m @ s') (blanks (length m) @ t')"
  by (rule blanked_append [OF blanked_blanks])

lemma startswith_drop: "startswith s m \<Longrightarrow> s = m @ drop (length m) s"
  by (metis append_eq_conv_conj startswith_iff)

lemma sanitize_from_blanked:
  "(\<forall>q. st = Some q \<longrightarrow> fst q \<noteq> 10) \<Longrightarrow> blanked s (sanitize_from st escaped s)"
proof (induction st escaped s rule: sanitize_from.induct)
  case (2 q escaped c cs)
  let ?m = "quote_marker q"
  have m: "10 \<notin> set ?m" using 2(6) by (simp add: quote_marker_def)
  show ?case
  proof (cases "c \<noteq> 10 \<and> \<not> escaped \<and> c \<noteq> 92 \<and> startswith (c # cs) ?m")
    case True
    then have "blanked (?m @ drop (length ?m) (c # cs))
        (blanks (length ?m) @ sanitize_from None False (drop (length ?m) (c # cs)))"
      using 2(4) m by (intro blanked_blanks_append) auto
    then show ?thesis using True startswith_drop [of "c # cs" ?m] by simp
  next
    case False
    then show ?thesis using 2 by (auto simp: same_or_blank_def)
  qed
next
  case (3 escaped c cs)
  let ?p = "\<lambda>x. x \<noteq> 10"
  show ?case
  proof (cases "c = 35")
    case True
    have "10 \<notin> set (takeWhile ?p (c # cs))" by (auto dest: set_takeWhileD)
    from blanked_blanks_append [OF this 3(1) [OF True]] show ?thesis
      using True by (simp add: takeWhile_dropWhile_id del: takeWhile.simps dropWhile.simps)
  next
    case no: False
    show ?thesis
    proof (cases "c = 39 \<or> c = 34")
      case True
      define q where "q = (c, startswith (c # cs) [c, c, c])"
      have "startswith (c # cs) (quote_marker q)"
        by (auto simp: q_def quote_marker_def numeral_3_eq_3)
      moreover have "10 \<notin> set (quote_marker q)" using True by (auto simp: q_def quote_marker_def)
      moreover have "blanked (drop (length (quote_marker q)) (c # cs))
          (sanitize_from (Some q) escaped (drop (length (quote_marker q)) (c # cs)))"
        using 3(2) [OF no True q_def] True by (auto simp: q_def)
      ultimately show ?thesis
        using True no blanked_blanks_append startswith_drop [of "c # cs" "quote_marker q"]
        by (fastforce simp: q_def Let_def)
    next
      case False
      then show ?thesis using no 3 by (simp add: same_or_blank_def)
    qed
  qed
qed simp

lemma sanitize_blanked: "blanked source (sanitize source)"
  unfolding sanitize_def by (rule sanitize_from_blanked) simp

text \<open>A text whose only line boundary is the newline keeps its lines, each blanked in place.\<close>

definition plain_lines :: "str \<Rightarrow> bool" where
  "plain_lines s \<longleftrightarrow> (\<forall>c\<in>set s. is_linebreak c \<longrightarrow> c = 10)"

lemma is_linebreak_simps [simp]: "is_linebreak 10" "\<not> is_linebreak 32"
  by (simp_all add: is_linebreak_def)

lemma splitlines_acc_blanked:
  assumes "blanked s t" "plain_lines s" "blanked (rev cur) (rev cur')"
  shows "list_all2 blanked (splitlines_acc cur s) (splitlines_acc cur' t)"
  using assms
proof (induction s arbitrary: t cur cur')
  case Nil
  then have "cur = [] \<longleftrightarrow> cur' = []" by (metis blanked_def list_all2_Nil list_all2_Nil2 rev_is_Nil_conv)
  then show ?case using Nil by auto
next
  case (Cons a s)
  then obtain b t' where t: "t = b # t'" "same_or_blank a b" "blanked s t'"
    by (cases t) (auto simp: blanked_def)
  have plain: "plain_lines s" using Cons.prems by (simp add: plain_lines_def)
  show ?case
  proof (cases "a = 10")
    case True
    then have "b = 10" using t(2) by (auto simp: same_or_blank_def)
    then show ?thesis using Cons.IH [OF t(3) plain, of "[]" "[]"] Cons.prems(3) t(1) True by simp
  next
    case False
    then have "\<not> is_linebreak a" "\<not> is_linebreak b"
      using Cons.prems(2) t(2) by (auto simp: plain_lines_def same_or_blank_def)
    moreover have "blanked (rev (a # cur)) (rev (b # cur'))"
      using blanked_append [OF Cons.prems(3), of "[a]" "[b]"] t(2) by simp
    ultimately show ?thesis using Cons.IH [OF t(3) plain, of "a # cur" "b # cur'"] t(1) by simp
  qed
qed

lemma splitlines_blanked: "plain_lines source \<Longrightarrow> list_all2 blanked (splitlines source) (splitlines (sanitize source))"
  unfolding splitlines_def using splitlines_acc_blanked [OF sanitize_blanked] by simp

text \<open>
  In any text, blanking loses line boundaries and never adds one, so the lookups in the source's lines
  at places of the sanitized lines are never out of range.
\<close>

lemma splitlines_acc_fewer:
  assumes "blanked s t" "cur \<noteq> [] \<Longrightarrow> cur' \<noteq> []"
  shows "length (splitlines_acc cur' t) \<le> length (splitlines_acc cur s) + (if cur = [] \<and> cur' \<noteq> [] then 1 else 0)"
  using assms
proof (induction cur s arbitrary: t cur' rule: splitlines_acc.induct)
  case (1 cur)
  then show ?case by auto
next
  case (2 cur x xs)
  then obtain b t' where t: "t = b # t'" "same_or_blank x b" "blanked xs t'"
    by (cases t) (auto simp: blanked_def)
  show ?case
  proof (cases "is_linebreak x")
    case br: True
    define pair where "pair = (x = 13 \<and> xs \<noteq> [] \<and> hd xs = 10)"
    have IH: "length (splitlines_acc cur'' u) \<le> length (splitlines_acc [] (if pair then tl xs else xs)) + (if cur'' \<noteq> [] then 1 else 0)"
      if "blanked (if pair then tl xs else xs) u" for u cur''
      using 2(1) [OF br, of u cur''] that by (auto simp: pair_def)
    have pt: "pair \<longleftrightarrow> x = 13 \<and> t' \<noteq> [] \<and> hd t' = 10"
      using t(3) by (cases xs; cases t') (auto simp: pair_def same_or_blank_def blanked_def)
    have tail: "blanked (if pair then tl xs else xs) (if pair then tl t' else t')"
      using t(3) by (cases xs; cases t') (auto simp: pair_def blanked_def)
    have s: "length (splitlines_acc cur (x # xs)) = Suc (length (splitlines_acc [] (if pair then tl xs else xs)))"
      using br by (simp add: pair_def)
    show ?thesis
    proof (cases "b = x")
      case True
      then show ?thesis using IH [OF tail, of "[]"] br t(1) s pt by simp
    next
      case False
      then have b: "b = 32" "x \<noteq> 10" using t(2) by (auto simp: same_or_blank_def)
      show ?thesis
      proof (cases pair)
        case True
        then obtain u where "t' = 10 # u" using pt by (cases t') auto
        then show ?thesis using IH [OF tail, of "[]"] True b t(1) s by simp
      next
        case no: False
        then show ?thesis using IH [of t' "32 # cur'"] t(3) b t(1) s by simp
      qed
    qed
  next
    case no: False
    have "\<not> is_linebreak b" using no t(2) by (auto simp: same_or_blank_def)
    then show ?thesis using 2(2) [OF no t(3), of "b # cur'"] t(1) no by simp
  qed
qed

lemma sanitized_lines_fewer: "length (splitlines (sanitize source)) \<le> length (splitlines source)"
  unfolding splitlines_def using splitlines_acc_fewer [OF sanitize_blanked, of "[]" "[]"] by simp

section \<open>What a passing check shows\<close>

text \<open>
  A line, counted from 1, is documented when some line at most seven above it has nothing but comments
  right above, one of them a SAFETY comment.
\<close>

definition documented :: "str list \<Rightarrow> nat \<Rightarrow> bool" where
  "documented original n \<longleftrightarrow>
     (\<exists>safety first_line. safety < first_line \<and> first_line < n \<and> n \<le> first_line + MAX_COVERAGE_LINES
        \<and> is_safety (original ! safety) \<and> (\<forall>k. safety \<le> k \<and> k < first_line \<longrightarrow> is_comment (original ! k)))"

lemma safety_above_comment:
  "safety_above original n \<Longrightarrow>
     \<exists>c<n. is_safety (original ! c) \<and> (\<forall>k. c \<le> k \<and> k < n \<longrightarrow> is_comment (original ! k))"
proof (induction n)
  case (Suc n)
  then show ?case
  proof (cases "is_safety (original ! n)")
    case True
    then show ?thesis using Suc.prems by (intro exI [of _ n]) (auto simp: less_Suc_eq)
  next
    case False
    then obtain c where "c < n" "is_safety (original ! c)" "\<forall>k. c \<le> k \<and> k < n \<longrightarrow> is_comment (original ! k)"
      using Suc by auto
    then show ?thesis using Suc.prems by (intro exI [of _ c]) (auto simp: less_Suc_eq)
  qed
qed simp

lemma cover_run_range:
  "n \<in> set (cover_run original first_line after blocks) \<Longrightarrow> \<forall>b\<in>set blocks. first_line \<le> fst b \<Longrightarrow>
     first_line < n \<and> n \<le> first_line + MAX_COVERAGE_LINES"
  by (induction original first_line after blocks rule: cover_run.induct) (auto split: if_splits)

lemma statements_from_start: "b \<in> set (statements_from word i ls) \<Longrightarrow> i \<le> fst b"
proof (induction word i ls rule: statements_from.induct)
  case (2 word i l ls)
  show ?case
  proof (cases "strip l = []")
    case True
    then show ?thesis using 2(1) 2(3) by force
  next
    case False
    then show ?thesis using 2(2) [OF False refl] 2(3) by (force simp: Let_def)
  qed
qed simp

lemma statements_from_ordered: "sorted (map fst (statements_from word i ls))"
proof (induction word i ls rule: statements_from.induct)
  case (2 word i l ls)
  let ?k = "extend_statement (delimiter_delta l) ls"
  have "i \<le> fst b" if "b \<in> set (statements_from word (i + Suc ?k) (drop ?k ls))" for b
    using statements_from_start [OF that] by simp
  then show ?case using 2 by (auto simp: Let_def)
qed simp

lemma covered_by_documented:
  "n \<in> set (covered_by original blocks) \<Longrightarrow> sorted (map fst blocks) \<Longrightarrow> documented original n"
proof (induction original blocks rule: covered_by.induct)
  case (2 original start stop candidate rest)
  show ?case
  proof (cases "n \<in> set (covered_by original rest)")
    case True
    then show ?thesis using 2 by simp
  next
    case False
    then have n: "n \<in> set (cover_run original start start ((start, stop, candidate) # rest))" "safety_above original start"
      using 2(2) by (auto simp del: cover_run.simps split: if_splits)
    have "\<forall>b\<in>set ((start, stop, candidate) # rest). start \<le> fst b" using 2(3) by auto
    from cover_run_range [OF n(1) this] safety_above_comment [OF n(2)] show ?thesis
      unfolding documented_def by blast
  qed
qed simp

lemma covered_documented: "n \<in> set (covered_lines word source sanitized) \<Longrightarrow> documented (splitlines source) n"
  unfolding covered_lines_def by (rule covered_by_documented [OF _ statements_from_ordered])

lemma scan_text_clean:
  assumes "fst (scan_text word path source) = []" "i < length (splitlines (sanitize source))"
    and "has_candidate word (splitlines (sanitize source) ! i)"
  shows "documented (splitlines source) (Suc i)"
proof -
  let ?ls = "splitlines (sanitize source)"
  have "(Suc i, ?ls ! i) \<in> set (enumerate 1 ?ls)"
    using assms(2) by (auto simp: in_set_enumerate_eq)
  then have "scan_line word path (covered_lines word source (sanitize source)) (Suc i, ?ls ! i) = []"
    using assms(1) by (simp add: scan_text_def Let_def)
  then have "Suc i \<in> set (covered_lines word source (sanitize source))"
    using assms(3) by (auto simp: scan_line_def has_candidate_def list_ex_iff filter_empty_conv)
  then show ?thesis by (rule covered_documented)
qed

lemma safety_sources_read:
  assumes "safety_sources contents paths = Some sources" "path \<in> set paths"
  shows "\<exists>b source. contents path = Some b \<and> read_utf8 b = Some source \<and> (path, source) \<in> set sources"
proof -
  define text_at where "text_at p = (case contents p of None \<Rightarrow> None | Some b \<Rightarrow> read_utf8 b)" for p
  have "\<not> list_ex (\<lambda>(_, t). t = None) (map (\<lambda>p. (p, text_at p)) (remdups paths))"
    and s: "sources = map (\<lambda>(p, t). (p, the t)) (map (\<lambda>p. (p, text_at p)) (remdups paths))"
    using assms(1) by (simp_all add: safety_sources_def Let_def text_at_def split: if_splits)
  then obtain t where "text_at path = Some t" using assms(2) by (fastforce simp: list_ex_iff)
  moreover from this have "(path, t) \<in> set sources" using assms(2) s by force
  ultimately show ?thesis by (auto simp: text_at_def split: option.splits)
qed

text \<open>
  C15 (no undocumented unsafe operation): when the check passes, every line of every source that, read without
  its strings and comments, holds a candidate operation is documented; and where the newline is the only
  line boundary of the source, the lines so read are the source's own, each blanked in place.
\<close>

theorem unsafe_lines_documented:
  assumes "safety_main word contents paths = Some 0" "path \<in> set paths"
  shows "\<exists>b source. contents path = Some b \<and> read_utf8 b = Some source
    \<and> (plain_lines source \<longrightarrow> list_all2 blanked (splitlines source) (splitlines (sanitize source)))
    \<and> (\<forall>i<length (splitlines (sanitize source)).
        has_candidate word (splitlines (sanitize source) ! i) \<longrightarrow> documented (splitlines source) (Suc i))"
proof -
  obtain sources where s: "safety_sources contents paths = Some sources"
      "\<forall>(p, t)\<in>set sources. fst (scan_text word p t) = []"
    using assms(1) by (fastforce simp: safety_main_def Let_def split: if_splits option.splits)
  obtain b source where f: "contents path = Some b" "read_utf8 b = Some source" "(path, source) \<in> set sources"
    using safety_sources_read [OF s(1) assms(2)] by blast
  have "fst (scan_text word path source) = []" using s(2) f(3) by auto
  from scan_text_clean [OF this] splitlines_blanked [of source] f(1,2) show ?thesis by blast
qed

text \<open>A documented allocation.\<close>

definition sample_lines :: "str list" where
  "sample_lines = [lit ''# SAFETY: freed below'', lit ''var p = alloc[Int](1)'']"

definition sample_contents :: "str \<Rightarrow> bytes option" where
  "sample_contents path = Some (lines_of sample_lines)"

lemma sample_safe: "safety_main ascii_word sample_contents [lit ''a.mojo''] = Some 0"
  by code_simp

theorem unsafe_lines_documented_witness:
  "\<exists>b source. sample_contents (lit ''a.mojo'') = Some b \<and> read_utf8 b = Some source
    \<and> (plain_lines source \<longrightarrow> list_all2 blanked (splitlines source) (splitlines (sanitize source)))
    \<and> (\<forall>i<length (splitlines (sanitize source)).
        has_candidate ascii_word (splitlines (sanitize source) ! i) \<longrightarrow> documented (splitlines source) (Suc i))"
  by (rule unsafe_lines_documented [OF sample_safe]) simp

text \<open>
  A line boundary in prose moves the comments: blanking keeps the newlines of a comment but not its
  other line boundaries, so after a form feed in a comment the lines of the source and those of the
  sanitized text no longer correspond; an allocation passes although the line above it is no comment.
\<close>

theorem shifted_comment_accepted:
  "let source = lines_of [lit ''# page'' @ [12] @ lit ''two'', lit ''# SAFETY: documents n'', lit ''var n = 1'',
                          lit ''var p = alloc[Int](n)'']
   in safety_main ascii_word (\<lambda>_. Some source) [lit ''a.mojo''] = Some 0
      \<and> splitlines source ! 4 = lit ''var p = alloc[Int](n)'' \<and> has_candidate ascii_word (splitlines source ! 4)
      \<and> \<not> is_comment (splitlines source ! 3)"
  by code_simp

end
