(* ===== verification/Public_Verify.thy ===== *)
theory Public_Verify
  imports Release_Checks Text_Files Recipe
begin

text \<open>
  scripts/release/public_verify.py: the check of the package as a user installs it from the public channel.
  The installed tree, the files of the metadata directory, the host and the commands' answers are arguments;
  an answer may depend on the commands before it.  Paths are the texts \<open>str(Path)\<close> gives.
\<close>

section \<open>Results and errors\<close>

record public_result =
  cr_returncode :: int
  cr_stdout :: str
  cr_stderr :: str

text \<open>\<open>PublicVerifyError\<close>, \<open>ValueError\<close> and \<open>OSError\<close>: the classes \<open>main\<close> catches.\<close>

datatype pv_exn = PublicVerifyError string | PvValue string | PvOS

definition pv_require :: "string \<Rightarrow> bool \<Rightarrow> pv_exn + unit" where
  "pv_require message ok = (if ok then Inr () else Inl (PublicVerifyError message))"

lemma pv_require_Inr [simp]: "pv_require m ok = Inr u \<longleftrightarrow> ok"
  by (simp add: pv_require_def)

definition SUPPORTED_PLATFORMS :: "str list" where
  "SUPPORTED_PLATFORMS = [lit ''linux-64'', lit ''osx-arm64'']"

definition PUBLIC_CHANNELS :: "str list" where
  "PUBLIC_CHANNELS = [lit ''https://conda.modular.com/max/'', lit ''https://repo.prefix.dev/modular-community'', lit ''conda-forge'']"

definition COMPANION_FILES :: "str list" where
  "COMPANION_FILES =
     [lit ''mtest/__init__.mojo'', lit ''mtest/assertions/__init__.mojo'', lit ''mtest/assertions/_display.mojo'',
      lit ''mtest/assertions/_mapping.mojo'', lit ''mtest/assertions/_sequence.mojo'', lit ''mtest/assertions/_text.mojo'']"

section \<open>The manifest\<close>

definition quoted_text :: "str \<Rightarrow> str" where "quoted_text s = [34] @ s @ [34]"

fun comma_list :: "str list \<Rightarrow> str" where
  "comma_list [] = []"
| "comma_list [s] = s"
| "comma_list (s # ss) = s @ lit '', '' @ comma_list ss"

definition install_manifest :: "str \<Rightarrow> str \<Rightarrow> pv_exn + str" where
  "install_manifest version platform =
     (if \<not> is_version version then Inl (PvValue ''invalid public version'')
      else if platform \<notin> set SUPPORTED_PLATFORMS then Inl (PvValue ''unsupported public verification platform'')
      else Inr (lines_of
        [lit ''[workspace]'', lit ''name = '' @ quoted_text (lit ''mtest-public-verify''),
         lit ''channels = ['' @ comma_list (map quoted_text PUBLIC_CHANNELS) @ lit '']'',
         lit ''platforms = ['' @ quoted_text platform @ lit '']'', [], lit ''[dependencies]'',
         lit ''mtest = '' @ quoted_text (lit ''=='' @ version)]))"

section \<open>The installed package\<close>

text \<open>
  The matches of \<open>mtest-*.json\<close>: whether each is a symbolic link, and its bytes if it can be read.
\<close>

type_synonym metadata_record = "bool \<times> bytes option"

definition identity_matches :: "(str \<Rightarrow> int option) \<Rightarrow> json \<Rightarrow> str \<Rightarrow> int \<Rightarrow> str \<Rightarrow> bool" where
  "identity_matches float_int document version build_number platform \<longleftrightarrow>
     (case document of
        JObj d \<Rightarrow>
          map_of d (lit ''name'') = Some (JStr (lit ''mtest'')) \<and> map_of d (lit ''version'') = Some (JStr version)
          \<and> (case map_of d (lit ''build_number'') of
               Some n \<Rightarrow> equals_int float_int n build_number \<and> \<not> is_bool n | None \<Rightarrow> False)
          \<and> map_of d (lit ''subdir'') = Some (JStr platform)
      | _ \<Rightarrow> False)"

definition channel_url :: "str \<Rightarrow> str" where
  "channel_url platform = lit ''https://repo.prefix.dev/modular-community/'' @ platform @ lit ''/''"

definition url_matches :: "json \<Rightarrow> str \<Rightarrow> bool" where
  "url_matches document platform \<longleftrightarrow>
     (case document of
        JObj d \<Rightarrow> (case map_of d (lit ''url'') of Some (JStr u) \<Rightarrow> startswith u (channel_url platform) | _ \<Rightarrow> False)
      | _ \<Rightarrow> False)"

definition metadata_document :: "metadata_record list \<Rightarrow> pv_exn + json" where
  "metadata_document records =
     (case records of
        [(False, content)] \<Rightarrow>
          (case content of
             None \<Rightarrow> Inl (PublicVerifyError ''invalid mtest metadata'')
           | Some b \<Rightarrow>
               (case read_utf8 b of
                  None \<Rightarrow> Inl (PvValue ''UnicodeDecodeError'')
                | Some t \<Rightarrow>
                    (case json_loads t of
                       Inr document \<Rightarrow> Inr document
                     | Inl JDecode \<Rightarrow> Inl (PublicVerifyError ''invalid mtest metadata'')
                     | Inl _ \<Rightarrow> Inl (PvValue ''digit limit''))))
      | _ \<Rightarrow> Inl (PublicVerifyError ''expected exactly one regular mtest metadata record''))"

definition check_metadata ::
  "(str \<Rightarrow> int option) \<Rightarrow> metadata_record list \<Rightarrow> str \<Rightarrow> int \<Rightarrow> str \<Rightarrow> pv_exn + unit" where
  "check_metadata float_int records version build_number platform =
     rbind (metadata_document records) (\<lambda>document.
     rbind (pv_require ''installed package identity mismatch''
         (identity_matches float_int document version build_number platform)) (\<lambda>_.
       pv_require ''installed mtest did not come from modular-community'' (url_matches document platform)))"

text \<open>The entries below the companion's root that are no directory, with their relative paths.\<close>

fun entries_below :: "str \<Rightarrow> (str \<times> node) list \<Rightarrow> (str \<times> node) list" where
  "entries_below p [] = []"
| "entries_below p ((name, Directory children) # rest) =
     entries_below (p @ name @ lit ''/'') children @ entries_below p rest"
| "entries_below p ((name, n) # rest) = (p @ name, n) # entries_below p rest"

definition is_plain :: "node \<Rightarrow> bool" where
  "is_plain n = (case n of PlainFile _ \<Rightarrow> True | _ \<Rightarrow> False)"

definition check_companion :: "node option \<Rightarrow> pv_exn + unit" where
  "check_companion root_node =
     (case root_node of
        Some (Directory children) \<Rightarrow>
          rbind (pv_require ''installed assertion companion entry is not regular''
              (list_all (is_plain \<circ> snd) (entries_below [] children))) (\<lambda>_.
            pv_require ''installed assertion companion membership mismatch''
              (set (map fst (entries_below [] children)) = set COMPANION_FILES))
      | _ \<Rightarrow> Inl (PublicVerifyError ''installed assertion companion root is missing or linked''))"

section \<open>The fixtures and the commands\<close>

definition slash :: "str \<Rightarrow> string \<Rightarrow> str" where
  "slash p name = p @ lit ''/'' @ lit name"

definition doc_line :: "string \<Rightarrow> str" where
  "doc_line s = [34, 34, 34] @ lit s @ [34, 34, 34]"

definition suite_main :: "str list" where
  "suite_main = [lit ''def main() raises:'', lit ''    TestSuite.discover_tests[__functions_in_module()]().run()'']"

definition public_fixtures :: "(string \<times> str) list" where
  "public_fixtures =
     [(''test_passing.mojo'', lines_of ([doc_line ''Public verification passing fixture.'',
         lit ''from std.testing import assert_equal, TestSuite'', [], lit ''def test_passes() raises:'',
         lit ''    assert_equal(2 + 2, 4)'', []] @ suite_main)),
      (''test_failing.mojo'', lines_of ([doc_line ''Public verification failing fixture.'',
         lit ''from std.testing import assert_equal, TestSuite'', [], lit ''def test_fails() raises:'',
         lit ''    assert_equal(1, 2)'', []] @ suite_main)),
      (''test_crashing.mojo'', lines_of ([doc_line ''Public verification crashing fixture.'',
         lit ''from std.os import abort'', lit ''from std.testing import TestSuite'', [], lit ''def test_crashes() raises:'',
         lit ''    abort('' @ quoted_text (lit ''public verification crash'') @ lit '')'', []] @ suite_main)),
      (''assertion_consumer.mojo'', lines_of [doc_line ''Installed assertion companion consumer.'',
         lit ''from mtest.assertions import assert_equal'', [], lit ''def main() raises:'',
         lit ''    assert_equal('' @ quoted_text (lit ''published'') @ lit '', '' @ quoted_text (lit ''published'') @ lit '')''])]"

text \<open>A command with what \<open>_expect\<close> and its caller require of the answer.\<close>

record expectation =
  ex_command :: "str list"
  ex_returncode :: int
  ex_marker :: "str option"
  ex_stdout :: "str option"

definition answers_as_expected :: "expectation \<Rightarrow> public_result \<Rightarrow> bool" where
  "answers_as_expected x r \<longleftrightarrow>
     cr_returncode r = ex_returncode x
     \<and> (case ex_marker x of None \<Rightarrow> True | Some m \<Rightarrow> contains (cr_stdout r @ cr_stderr r) m)
     \<and> (case ex_stdout x of None \<Rightarrow> True | Some t \<Rightarrow> cr_stdout r = t)"

definition expects :: "str list \<Rightarrow> int \<Rightarrow> str option \<Rightarrow> str option \<Rightarrow> expectation" where
  "expects command code marker out = \<lparr> ex_command = command, ex_returncode = code, ex_marker = marker, ex_stdout = out \<rparr>"

definition acceptance_steps :: "str \<Rightarrow> str \<Rightarrow> str \<Rightarrow> expectation list" where
  "acceptance_steps env_prefix workspace version =
     (let mtest = slash env_prefix ''bin/mtest''; mojo = slash env_prefix ''bin/mojo'';
          source = slash env_prefix ''share/mtest/companions/assertions/src'';
          fixture = (\<lambda>name. slash (slash workspace ''fixtures'') name);
          no_config = (\<lambda>name. [mtest, lit ''--no-config'', fixture name]);
          binary = (\<lambda>level. slash workspace (''assertion-'' @ level));
          build = (\<lambda>level. [mojo, lit ''build'', lit (CHR ''-'' # level), lit ''-I'', source, fixture ''assertion_consumer.mojo'',
                     lit ''-o'', binary level])
      in [expects [mtest, lit ''--version''] 0 None (Some (lit ''mtest '' @ version @ [10])),
          expects [mtest, lit ''--help''] 0 (Some (lit ''usage: mtest'')) None,
          expects (no_config ''test_passing.mojo'') 0 (Some (lit ''PASS'')) None,
          expects (no_config ''test_failing.mojo'') 1 (Some (lit ''FAIL'')) None,
          expects (no_config ''test_crashing.mojo'') 1 (Some (lit ''CRASH'')) None,
          expects (build ''O0'') 0 None None, expects [binary ''O0''] 0 None None,
          expects (build ''O3'') 0 None None, expects [binary ''O3''] 0 None None])"

text \<open>
  The runner: what a command answers after the commands before it, in an environment.  The second
  component of the result are the commands that were run.
\<close>

type_synonym environment = "(str \<times> str) list"
type_synonym runner = "str list list \<Rightarrow> environment \<Rightarrow> str list \<Rightarrow> pv_exn + public_result"

fun run_steps :: "runner \<Rightarrow> environment \<Rightarrow> str list list \<Rightarrow> expectation list \<Rightarrow> (pv_exn + unit) \<times> str list list" where
  "run_steps runner environment done [] = (Inr (), done)"
| "run_steps runner environment done (x # xs) =
     (case runner done environment (ex_command x) of
        Inl e \<Rightarrow> (Inl e, done @ [ex_command x])
      | Inr r \<Rightarrow>
          if \<not> answers_as_expected x r then (Inl (PublicVerifyError ''unexpected answer''), done @ [ex_command x])
          else run_steps runner environment (done @ [ex_command x]) xs)"

section \<open>The verification\<close>

record installed =
  in_records :: "metadata_record list"
  in_companion :: "node option"
  in_mtest :: bool
  in_mojo :: bool
  in_fixtures_written :: bool

definition check_installed ::
  "(str \<Rightarrow> int option) \<Rightarrow> installed \<Rightarrow> str \<Rightarrow> int \<Rightarrow> str \<Rightarrow> pv_exn + unit" where
  "check_installed float_int i version build_number platform =
     rbind (pv_require ''invalid public version'' (is_version version)) (\<lambda>_.
     rbind (pv_require ''invalid public build number'' (0 \<le> build_number)) (\<lambda>_.
     rbind (pv_require ''unsupported installed package platform'' (platform \<in> set SUPPORTED_PLATFORMS)) (\<lambda>_.
     rbind (check_metadata float_int (in_records i) version build_number platform) (\<lambda>_.
     rbind (check_companion (in_companion i)) (\<lambda>_.
     rbind (pv_require ''installed mtest binary is missing or not executable'' (in_mtest i)) (\<lambda>_.
     rbind (pv_require ''verification Mojo compiler is missing'' (in_mojo i)) (\<lambda>_.
       if in_fixtures_written i then Inr () else Inl PvOS)))))))"

definition verify_installed_package ::
  "(str \<Rightarrow> int option) \<Rightarrow> installed \<Rightarrow> runner \<Rightarrow> environment \<Rightarrow> str list list \<Rightarrow> str \<Rightarrow> str \<Rightarrow> str \<Rightarrow> int \<Rightarrow> str \<Rightarrow>
    (pv_exn + unit) \<times> str list list" where
  "verify_installed_package float_int i runner environment done env_prefix workspace version build_number platform =
     (case check_installed float_int i version build_number platform of
        Inl e \<Rightarrow> (Inl e, done)
      | Inr _ \<Rightarrow> run_steps runner environment done (acceptance_steps env_prefix workspace version))"

text \<open>The two supported hosts, from the lower-cased machine name.\<close>

definition host_platform :: "str \<Rightarrow> str \<Rightarrow> pv_exn + str" where
  "host_platform system machine =
     (if system = lit ''Linux'' \<and> machine \<in> {lit ''x86_64'', lit ''amd64''} then Inr (lit ''linux-64'')
      else if system = lit ''Darwin'' \<and> machine \<in> {lit ''arm64'', lit ''aarch64''} then Inr (lit ''osx-arm64'')
      else Inl (PublicVerifyError ''unsupported public verification host''))"

definition acceptance_environment :: "str \<Rightarrow> str \<Rightarrow> str \<Rightarrow> environment" where
  "acceptance_environment defpath env_prefix workspace =
     [(lit ''HOME'', slash workspace ''home''), (lit ''MODULAR_CACHE_DIR'', slash workspace ''modular-cache''),
      (lit ''MODULAR_HOME'', slash env_prefix ''share/max''), (lit ''PATH'', slash env_prefix ''bin'' @ lit '':'' @ defpath),
      (lit ''TMPDIR'', slash workspace ''tmp'')]"

text \<open>
  The machine: its host, the scratch directory (\<open>None\<close> when it cannot be made), the caller's environment,
  whether the manifest and then the three fresh directories can be written, and what the installation made.
\<close>

record pv_machine =
  pm_system :: str
  pm_machine :: str
  pm_workspace :: "str option"
  pm_environ :: environment
  pm_manifest_written :: bool
  pm_directories_made :: bool
  pm_defpath :: str
  pm_installed :: installed
  pm_runner :: runner

definition install_command :: "str \<Rightarrow> str list" where
  "install_command workspace = [lit ''pixi'', lit ''install'', lit ''--manifest-path'', slash workspace ''pixi.toml'']"

definition verify_public_package ::
  "(str \<Rightarrow> int option) \<Rightarrow> pv_machine \<Rightarrow> str \<Rightarrow> int \<Rightarrow> (pv_exn + unit) \<times> str list list" where
  "verify_public_package float_int m version build_number =
     (case host_platform (pm_system m) (pm_machine m) of
        Inl e \<Rightarrow> (Inl e, [])
      | Inr target \<Rightarrow>
          (case pm_workspace m of
             None \<Rightarrow> (Inl PvOS, [])
           | Some workspace \<Rightarrow>
               (case install_manifest version target of
                  Inl e \<Rightarrow> (Inl e, [])
                | Inr _ \<Rightarrow>
                    if \<not> pm_manifest_written m then (Inl PvOS, [])
                    else
                      (let install = install_command workspace
                       in case pm_runner m [] (pm_environ m) install of
                            Inl e \<Rightarrow> (Inl e, [install])
                          | Inr r \<Rightarrow>
                              if cr_returncode r \<noteq> 0 then (Inl (PublicVerifyError ''public package install failed''), [install])
                              else if \<not> pm_directories_made m then (Inl PvOS, [install])
                              else
                                (let env_prefix = slash workspace ''.pixi/envs/default''
                                 in verify_installed_package float_int (pm_installed m) (pm_runner m)
                                      (acceptance_environment (pm_defpath m) env_prefix workspace) [install]
                                      env_prefix workspace version build_number target)))))"

definition public_build_number :: "str \<Rightarrow> pv_exn + int" where
  "public_build_number given =
     (if \<not> numeric_part given then Inl (PublicVerifyError ''invalid public build number'')
      else if 4300 < length given then Inl (PvValue ''digit limit'')
      else Inr (digits_value given))"

text \<open>The arguments \<open>main\<close> hands on are evaluated first, so the build number is checked before anything runs.\<close>

definition public_verify_main :: "(str \<Rightarrow> int option) \<Rightarrow> pv_machine \<Rightarrow> str \<Rightarrow> str \<Rightarrow> int \<times> str list list" where
  "public_verify_main float_int m version build_number =
     (case public_build_number build_number of
        Inl _ \<Rightarrow> (1, [])
      | Inr n \<Rightarrow>
          (case verify_public_package float_int m version n of
             (Inl _, log) \<Rightarrow> (1, log) | (Inr _, log) \<Rightarrow> (0, log)))"

section \<open>When a release is accepted\<close>

lemma run_steps_iff:
  "run_steps runner environment done xs = (Inr (), log) \<longleftrightarrow>
     log = done @ map ex_command xs
     \<and> (\<forall>k<length xs. \<exists>r. runner (done @ map ex_command (take k xs)) environment (ex_command (xs ! k)) = Inr r
          \<and> answers_as_expected (xs ! k) r)"
proof (induction xs arbitrary: "done")
  case Nil
  then show ?case by auto
next
  case (Cons x xs)
  show ?case
    by (auto simp: Cons.IH All_less_Suc2 split: sum.splits)
qed

text \<open>The installed files a release must have.\<close>

definition installed_ok :: "(str \<Rightarrow> int option) \<Rightarrow> installed \<Rightarrow> str \<Rightarrow> int \<Rightarrow> str \<Rightarrow> bool" where
  "installed_ok float_int i version build_number platform \<longleftrightarrow>
     (\<exists>b t d n u. in_records i = [(False, Some b)] \<and> read_utf8 b = Some t \<and> json_loads t = Inr (JObj d)
        \<and> map_of d (lit ''name'') = Some (JStr (lit ''mtest'')) \<and> map_of d (lit ''version'') = Some (JStr version)
        \<and> map_of d (lit ''build_number'') = Some n \<and> equals_int float_int n build_number \<and> \<not> is_bool n
        \<and> map_of d (lit ''subdir'') = Some (JStr platform)
        \<and> map_of d (lit ''url'') = Some (JStr (channel_url platform @ u)))
     \<and> (\<exists>children. in_companion i = Some (Directory children)
          \<and> (\<forall>(_, n)\<in>set (entries_below [] children). \<exists>b. n = PlainFile b)
          \<and> fst ` set (entries_below [] children) = set COMPANION_FILES)
     \<and> in_mtest i \<and> in_mojo i \<and> in_fixtures_written i"

lemma metadata_document_iff:
  "metadata_document records = Inr document \<longleftrightarrow>
     (\<exists>b t. records = [(False, Some b)] \<and> read_utf8 b = Some t \<and> json_loads t = Inr document)"
  by (auto simp: metadata_document_def split: list.splits bool.splits option.splits sum.splits jerr.splits prod.splits)

lemma identity_matches_iff:
  "identity_matches float_int document version build_number platform \<longleftrightarrow>
     (\<exists>d n. document = JObj d \<and> map_of d (lit ''name'') = Some (JStr (lit ''mtest''))
        \<and> map_of d (lit ''version'') = Some (JStr version) \<and> map_of d (lit ''build_number'') = Some n
        \<and> equals_int float_int n build_number \<and> \<not> is_bool n \<and> map_of d (lit ''subdir'') = Some (JStr platform))"
  by (auto simp: identity_matches_def split: json.splits option.splits)

lemma url_matches_iff:
  "url_matches document platform \<longleftrightarrow>
     (\<exists>d u. document = JObj d \<and> map_of d (lit ''url'') = Some (JStr (channel_url platform @ u)))"
  by (auto simp: url_matches_def startswith_iff split: json.splits option.splits)

lemma check_metadata_iff:
  "check_metadata float_int records version build_number platform = Inr () \<longleftrightarrow>
     (\<exists>b t d n u. records = [(False, Some b)] \<and> read_utf8 b = Some t \<and> json_loads t = Inr (JObj d)
        \<and> map_of d (lit ''name'') = Some (JStr (lit ''mtest'')) \<and> map_of d (lit ''version'') = Some (JStr version)
        \<and> map_of d (lit ''build_number'') = Some n \<and> equals_int float_int n build_number \<and> \<not> is_bool n
        \<and> map_of d (lit ''subdir'') = Some (JStr platform)
        \<and> map_of d (lit ''url'') = Some (JStr (channel_url platform @ u)))"
  by (auto simp: check_metadata_def rbind_Inr metadata_document_iff identity_matches_iff url_matches_iff)

lemma check_companion_iff:
  "check_companion root_node = Inr () \<longleftrightarrow>
     (\<exists>children. root_node = Some (Directory children)
        \<and> (\<forall>(_, n)\<in>set (entries_below [] children). \<exists>b. n = PlainFile b)
        \<and> fst ` set (entries_below [] children) = set COMPANION_FILES)"
proof -
  have "is_plain n \<longleftrightarrow> (\<exists>b. n = PlainFile b)" for n by (cases n) (simp_all add: is_plain_def)
  then show ?thesis
    by (auto simp: check_companion_def rbind_Inr list_all_iff split: option.splits node.splits)
qed

lemma check_installed_iff:
  "check_installed float_int i version build_number platform = Inr () \<longleftrightarrow>
     is_version version \<and> 0 \<le> build_number \<and> platform \<in> set SUPPORTED_PLATFORMS
     \<and> installed_ok float_int i version build_number platform"
  by (simp add: check_installed_def rbind_Inr check_metadata_iff check_companion_iff installed_ok_def conj_assoc)

lemma host_supported: "host_platform system machine = Inr target \<Longrightarrow> target \<in> set SUPPORTED_PLATFORMS"
  by (auto simp: host_platform_def SUPPORTED_PLATFORMS_def split: if_splits)

lemma digits_value_nonneg: "list_all is_ascii_digit s \<Longrightarrow> 0 \<le> digits_value s"
proof (induction s rule: rev_induct)
  case Nil
  then show ?case by (simp add: digits_value_def)
next
  case (snoc c s)
  then show ?case by (simp add: digits_value_snoc is_ascii_digit_def)
qed

text \<open>
  C16 (a release is accepted as installed): the public verifier exits with 0 exactly when, on a supported host,
  the pinned package installs, its one regular metadata record names it with this version, build and platform
  and the community channel's URL, the companion is exactly the six regular files, and each of the nine
  commands, run in that order in the five-variable environment, answers as it must: the version text exactly,
  the failing and the crashing fixture with exit 1, everything else with 0.
\<close>

theorem public_release_accepted_iff:
  "public_verify_main float_int m version given = (0, log) \<longleftrightarrow>
     (\<exists>target workspace r. numeric_part given \<and> length given \<le> 4300 \<and> is_version version
        \<and> host_platform (pm_system m) (pm_machine m) = Inr target \<and> pm_workspace m = Some workspace
        \<and> pm_manifest_written m \<and> pm_directories_made m
        \<and> pm_runner m [] (pm_environ m) (install_command workspace) = Inr r \<and> cr_returncode r = 0
        \<and> installed_ok float_int (pm_installed m) version (digits_value given) target
        \<and> (let env_prefix = slash workspace ''.pixi/envs/default'';
               xs = acceptance_steps env_prefix workspace version
           in log = install_command workspace # map ex_command xs
              \<and> (\<forall>k<length xs. \<exists>r. pm_runner m (install_command workspace # map ex_command (take k xs))
                    (acceptance_environment (pm_defpath m) env_prefix workspace) (ex_command (xs ! k)) = Inr r
                  \<and> answers_as_expected (xs ! k) r)))"
  (is "?main \<longleftrightarrow> ?ok")
proof
  assume main: ?main
  then obtain n where n: "public_build_number given = Inr n" "verify_public_package float_int m version n = (Inr (), log)"
    by (auto simp: public_verify_main_def split: sum.splits prod.splits)
  obtain target workspace where t: "host_platform (pm_system m) (pm_machine m) = Inr target" "pm_workspace m = Some workspace"
      "is_version version"
    using n(2) by (auto simp: verify_public_package_def install_manifest_def split: sum.splits option.splits if_splits)
  then obtain r where "pm_manifest_written m" "pm_directories_made m"
      "pm_runner m [] (pm_environ m) (install_command workspace) = Inr r" "cr_returncode r = 0"
      "check_installed float_int (pm_installed m) version n target = Inr ()"
      "run_steps (pm_runner m) (acceptance_environment (pm_defpath m) (slash workspace ''.pixi/envs/default'') workspace)
         [install_command workspace]
         (acceptance_steps (slash workspace ''.pixi/envs/default'') workspace version) = (Inr (), log)"
    using n(2) by (auto simp: verify_public_package_def verify_installed_package_def Let_def
        simp flip: install_command_def split: sum.splits if_splits)
  then show ?ok
    using n(1) t by (auto simp: public_build_number_def check_installed_iff run_steps_iff Let_def split: if_splits)
next
  assume ?ok
  then obtain target workspace r where ok: "numeric_part given" "length given \<le> 4300" "is_version version"
      "host_platform (pm_system m) (pm_machine m) = Inr target" "pm_workspace m = Some workspace"
      "pm_manifest_written m" "pm_directories_made m"
      "pm_runner m [] (pm_environ m) (install_command workspace) = Inr r" "cr_returncode r = 0"
      "installed_ok float_int (pm_installed m) version (digits_value given) target"
      "run_steps (pm_runner m) (acceptance_environment (pm_defpath m) (slash workspace ''.pixi/envs/default'') workspace)
         [install_command workspace]
         (acceptance_steps (slash workspace ''.pixi/envs/default'') workspace version) = (Inr (), log)"
    by (auto simp: run_steps_iff Let_def)
  have target: "target \<in> set SUPPORTED_PLATFORMS" using ok(4) by (rule host_supported)
  have "check_installed float_int (pm_installed m) version (digits_value given) target = Inr ()"
    using ok(1,3,10) target digits_value_nonneg by (simp add: check_installed_iff numeric_part_def)
  then show ?main
    using ok target by (simp add: public_verify_main_def public_build_number_def verify_public_package_def
        verify_installed_package_def install_manifest_def install_command_def)
qed

text \<open>A machine on which the release 1.2.3 is accepted.\<close>

definition sample_record :: str where
  "sample_record =
     lit ''{\"name\": \"mtest\", \"version\": \"1.2.3\", \"build_number\": 0, \"subdir\": \"linux-64\", '' @
     lit ''\"url\": \"https://repo.prefix.dev/modular-community/linux-64/mtest-1.2.3.conda\"}''"

definition sample_companion :: node where
  "sample_companion = Directory [(lit ''mtest'', Directory [(lit ''__init__.mojo'', PlainFile []),
     (lit ''assertions'', Directory (map (\<lambda>n. (lit n, PlainFile []))
        [''__init__.mojo'', ''_display.mojo'', ''_mapping.mojo'', ''_sequence.mojo'', ''_text.mojo'']))])]"

definition sample_answer :: "expectation list \<Rightarrow> str list \<Rightarrow> public_result" where
  "sample_answer xs command =
     (case filter (\<lambda>x. ex_command x = command) xs of
        [] \<Rightarrow> \<lparr> cr_returncode = 0, cr_stdout = [], cr_stderr = [] \<rparr>
      | x # _ \<Rightarrow> \<lparr> cr_returncode = ex_returncode x,
                  cr_stdout = (case ex_stdout x of Some t \<Rightarrow> t | None \<Rightarrow> (case ex_marker x of Some t \<Rightarrow> t | None \<Rightarrow> [])),
                  cr_stderr = [] \<rparr>)"

definition sample_machine :: pv_machine where
  "sample_machine =
     \<lparr> pm_system = lit ''Linux'', pm_machine = lit ''x86_64'', pm_workspace = Some (lit ''/w''), pm_environ = [],
       pm_manifest_written = True, pm_directories_made = True, pm_defpath = lit ''/bin'',
       pm_installed = \<lparr> in_records = [(False, Some sample_record)], in_companion = Some sample_companion, in_mtest = True,
         in_mojo = True, in_fixtures_written = True \<rparr>,
       pm_runner = (\<lambda>_ _ command. Inr (sample_answer
         (acceptance_steps (lit ''/w/.pixi/envs/default'') (lit ''/w'') (lit ''1.2.3'')) command)) \<rparr>"

lemma sample_release:
  "public_verify_main (\<lambda>_. None) sample_machine (lit ''1.2.3'') (lit ''0'') =
     (0, install_command (lit ''/w'')
         # map ex_command (acceptance_steps (lit ''/w/.pixi/envs/default'') (lit ''/w'') (lit ''1.2.3'')))"
  by code_simp

theorem public_release_accepted_iff_witness:
  "\<exists>log target workspace. public_verify_main (\<lambda>_. None) sample_machine (lit ''1.2.3'') (lit ''0'') = (0, log)
     \<and> installed_ok (\<lambda>_. None) (pm_installed sample_machine) (lit ''1.2.3'') (digits_value (lit ''0'')) target
     \<and> hd log = install_command workspace"
  using iffD1 [OF public_release_accepted_iff sample_release] sample_release by (auto simp: Let_def)

end
