(* ===== verification/Workflow_Reader.thy ===== *)
theory Workflow_Reader
  imports Regex Text_Files
begin

text \<open>
  scripts/checks/workflow_security.py, the reading half: how the hosted workflows and the published action
  are read by line and pattern instead of by a YAML parser.
\<close>

section \<open>Errors and indentation\<close>

text \<open>
  \<open>AssertionError\<close> with the constant part of its message, \<open>OSError\<close>, and the exceptions \<open>main\<close> does not
  catch: a file that is not UTF-8, and a marker \<open>str.index\<close> does not find.
\<close>

datatype wf_exn = WfAssertion string | WfOS | WfEscapes

definition need :: "string \<Rightarrow> bool \<Rightarrow> wf_exn + unit" where
  "need message ok = (if ok then Inr () else Inl (WfAssertion message))"

lemma need_Inr [simp]: "need message ok = Inr u \<longleftrightarrow> ok"
  by (simp add: need_def)

fun each :: "('a \<Rightarrow> wf_exn + unit) \<Rightarrow> 'a list \<Rightarrow> wf_exn + unit" where
  "each f [] = Inr ()"
| "each f (x # xs) = rbind (f x) (\<lambda>_. each f xs)"

lemma each_Inr: "each f xs = Inr u \<longleftrightarrow> (\<forall>x\<in>set xs. f x = Inr ())"
  by (induction xs) (auto simp: rbind_Inr)

abbreviation lspace :: "str \<Rightarrow> str" where "lspace \<equiv> lstrip_of (\<lambda>c. c = 32)"

definition indent_of :: "str \<Rightarrow> nat" where "indent_of line = length line - length (lspace line)"

text \<open>Blank and comment lines end no block.\<close>

definition skipped :: "str \<Rightarrow> bool" where
  "skipped line \<longleftrightarrow> lspace line = [] \<or> hd (lspace line) = 35"

definition text_of_lines :: "str list \<Rightarrow> str" where "text_of_lines = join_with [10]"

text \<open>The lines below a header until one that is not indented deeper than \<open>n\<close>.\<close>

definition block_below :: "int \<Rightarrow> str list \<Rightarrow> str list" where
  "block_below n ls = takeWhile (\<lambda>l. skipped l \<or> n < int (indent_of l)) ls"

definition yaml_block :: "str \<Rightarrow> str \<Rightarrow> wf_exn + str" where
  "yaml_block source header =
     (case filter (\<lambda>(i, l). l = header) (enumerate 0 (splitlines source)) of
        [(i, _)] \<Rightarrow> Inr (text_of_lines (block_below (int (indent_of header)) (drop (Suc i) (splitlines source))))
      | _ \<Rightarrow> Inl (WfAssertion ''workflow expected one header''))"

section \<open>Keys\<close>

definition key_char :: "int \<Rightarrow> bool" where
  "key_char c \<longleftrightarrow> is_ascii_alnum c \<or> c = 95 \<or> c = 45"

abbreviation dot :: re where "dot \<equiv> Chr (\<lambda>c. c \<noteq> 10)"
abbreviation spaces :: re where "spaces \<equiv> re_star (Chr is_space)"

definition key_group :: re where "key_group = Grp 1 (re_plus (Chr key_char))"

definition mapping_key :: "nat \<Rightarrow> re" where
  "mapping_key indent = re_seq [Bol, re_lit (replicate indent CHR '' ''), key_group, re_lit '':'',
     re_opt (Seq (Chr is_space) (re_star dot)), AtEnd]"

text \<open>\<open>match.group(1)\<close> of the match at the start of a line, if any.\<close>

definition match1 :: "re \<Rightarrow> str \<Rightarrow> str option" where
  "match1 r line = map_option (\<lambda>st. group_text (st_caps st) 1) (re_match_at r None line)"

definition yaml_mapping_keys :: "str \<Rightarrow> nat \<Rightarrow> str list" where
  "yaml_mapping_keys block indent = List.map_filter (match1 (mapping_key indent)) (splitlines block)"

definition STEP_OPENER :: re where "STEP_OPENER = re_seq [Bol, re_lit ''      - '', key_group, re_lit '':'']"
definition STEP_NESTED :: re where "STEP_NESTED = re_seq [Bol, re_lit ''        '', key_group, re_lit '':'']"

fun step_keys :: "str list \<Rightarrow> str list list \<Rightarrow> str list list" where
  "step_keys [] steps = steps"
| "step_keys (l # ls) steps =
     (case match1 STEP_OPENER l of
        Some k \<Rightarrow> step_keys ls (steps @ [[k]])
      | None \<Rightarrow>
          (case match1 STEP_NESTED l of
             Some k \<Rightarrow> step_keys ls (if steps = [] then steps else butlast steps @ [last steps @ [k]])
           | None \<Rightarrow> step_keys ls steps))"

definition canary_step_keys :: "str \<Rightarrow> wf_exn + str list list" where
  "canary_step_keys job = rbind (yaml_block job (lit ''    steps:'')) (\<lambda>b. Inr (step_keys (splitlines b) []))"

section \<open>Bindings and inputs\<close>

definition entries_under :: "nat \<Rightarrow> str list \<Rightarrow> str list" where
  "entries_under header_indent ls =
     map lspace (filter (\<lambda>l. \<not> skipped l) (block_below (int header_indent) ls))"

fun bindings_under :: "string \<Rightarrow> str list \<Rightarrow> str list" where
  "bindings_under header [] = []"
| "bindings_under header (l # ls) =
     (if strip l = lit header then entries_under (indent_of l) ls else []) @ bindings_under header ls"

definition env_bindings :: "str \<Rightarrow> str list" where
  "env_bindings block = map (rstrip_of is_space) (bindings_under ''env:'' (splitlines block))"

definition env_keys :: "str \<Rightarrow> str list" where
  "env_keys block = map (\<lambda>b. strip (hd (split_on 58 b))) (env_bindings block)"

definition uses_marker :: "string \<Rightarrow> str" where "uses_marker action = lit ''uses: '' @ lit action @ lit ''@''"

definition step_body :: "str \<Rightarrow> str list \<Rightarrow> str list" where
  "step_body line ls = block_below (int (indent_of line) - 2) ls"

definition input_line :: "nat \<Rightarrow> re" where
  "input_line indent = re_seq [Bol, re_lit (replicate indent CHR '' ''), Grp 1 (re_plus (Chr key_char)), re_lit '':'', spaces,
     Grp 2 (re_plus (Chr (\<lambda>c. \<not> is_space c))), spaces, AtEnd]"

definition step_inputs :: "str \<Rightarrow> str list \<Rightarrow> (str, str) dict" where
  "step_inputs line ls =
     dict_of (List.map_filter (\<lambda>l. map_option (\<lambda>m. (group_text m 1, group_text m 2)) (re_fullmatch (input_line (indent_of line + 2)) l))
       (step_body line ls))"

text \<open>Lines are counted from 1.\<close>

fun inputs_from :: "str \<Rightarrow> nat \<Rightarrow> str list \<Rightarrow> (nat \<times> (str, str) dict) list" where
  "inputs_from marker n [] = []"
| "inputs_from marker n (l # ls) =
     (if contains l marker then [(n, step_inputs l ls)] else []) @ inputs_from marker (Suc n) ls"

definition action_step_inputs :: "str \<Rightarrow> string \<Rightarrow> (nat \<times> (str, str) dict) list" where
  "action_step_inputs source action = inputs_from (uses_marker action) 1 (splitlines source)"

fun entries_from :: "str \<Rightarrow> str list \<Rightarrow> str list list" where
  "entries_from marker [] = []"
| "entries_from marker (l # ls) =
     (if contains l marker then [bindings_under ''with:'' (step_body l ls)] else []) @ entries_from marker ls"

definition action_step_with_entries :: "str \<Rightarrow> string \<Rightarrow> str list list" where
  "action_step_with_entries source action = entries_from (uses_marker action) (splitlines source)"

definition block_entries :: "str \<Rightarrow> str list" where
  "block_entries block = filter (\<lambda>s. s \<noteq> [] \<and> hd s \<noteq> 35) (map strip (splitlines block))"

definition permission_grants :: "str \<Rightarrow> str list" where
  "permission_grants block = block_entries block"

section \<open>Values of keys\<close>

text \<open>\<open>re.findall(r"^<prefix>(.+)$", text, re.MULTILINE)\<close>, for a prefix of literal characters.\<close>

definition value_line :: "string \<Rightarrow> re" where
  "value_line given = re_seq [Bol, re_lit given, Grp 1 (re_plus dot), AtEnd]"

definition values_of :: "string \<Rightarrow> str \<Rightarrow> str list" where
  "values_of given source = re_findall (value_line given) source"

text \<open>\<open>^\s+key: (.+)$\<close>, where the spaces may hold line boundaries.\<close>

definition spaced_line :: "string \<Rightarrow> re" where
  "spaced_line given = re_seq [Bol, re_spaces, re_lit given, Grp 1 (re_plus dot), AtEnd]"

text \<open>\<open>re.search(r"^<prefix>", text, re.MULTILINE)\<close>\<close>

definition line_starting :: "string \<Rightarrow> str \<Rightarrow> bool" where
  "line_starting given source \<longleftrightarrow> re_search (Seq Bol (re_lit given)) source"

text \<open>\<open>str.lower\<close>, which outside ASCII only changes what no searched text holds, but for two characters.\<close>

definition lower_text :: "str \<Rightarrow> str" where
  "lower_text s = concat (map (\<lambda>c. if 65 \<le> c \<and> c \<le> 90 then [c + 32] else if c = 304 then [105, 775]
     else if c = 8490 then [107] else [c]) s)"

fun count_sub :: "str \<Rightarrow> str \<Rightarrow> nat" where
  "count_sub pattern [] = 0"
| "count_sub pattern (c # cs) =
     (if startswith (c # cs) pattern then Suc (count_sub pattern (drop (length pattern - 1) cs)) else count_sub pattern cs)"

abbreviation count_of :: "str \<Rightarrow> string \<Rightarrow> nat" where "count_of source given \<equiv> count_sub (lit given) source"

fun sub_index :: "str \<Rightarrow> str \<Rightarrow> nat option" where
  "sub_index pattern [] = (if pattern = [] then Some 0 else None)"
| "sub_index pattern (c # cs) =
     (if startswith (c # cs) pattern then Some 0 else map_option Suc (sub_index pattern cs))"

definition index_of :: "str \<Rightarrow> string \<Rightarrow> wf_exn + nat" where
  "index_of source given = (case sub_index (lit given) source of None \<Rightarrow> Inl WfEscapes | Some i \<Rightarrow> Inr i)"

abbreviation holds :: "str \<Rightarrow> string \<Rightarrow> bool" where "holds source given \<equiv> contains source (lit given)"

end
