(* ===== verification/Workflow_Pins.thy ===== *)
theory Workflow_Pins
  imports Workflow_Reader
begin

text \<open>
  scripts/checks/workflow_security.py: the inventory of the workflows, the pins of the actions they use, and
  the review of the composite action the repository publishes.  The character class behind \<open>\b\<close> is an
  argument.
\<close>

section \<open>The reviewed pins\<close>

definition CHECKOUT_ACTION_SHA :: string where "CHECKOUT_ACTION_SHA = ''3d3c42e5aac5ba805825da76410c181273ba90b1''"
definition SETUP_PIXI_ACTION_SHA :: string where "SETUP_PIXI_ACTION_SHA = ''d3f436a425481402e6a95a1d1fc10331c708cd9e''"
definition CODEQL_ACTION_SHA :: string where "CODEQL_ACTION_SHA = ''cdf488f595d80d6e07e03d4674febd5ab45fa938''"
definition UPLOAD_ARTIFACT_ACTION_SHA :: string where "UPLOAD_ARTIFACT_ACTION_SHA = ''043fb46d1a93c77aae656e7c1c64a875d1fc6a0a''"
definition SETUP_UV_ACTION_SHA :: string where "SETUP_UV_ACTION_SHA = ''20cfd1bf945f4377ade1205e4dbc17946fc9a30d''"
definition DOWNLOAD_ARTIFACT_ACTION_SHA :: string where "DOWNLOAD_ARTIFACT_ACTION_SHA = ''3e5f45b2cfb9172054b4087a40e8e0b5a5461e7c''"
definition UPLOAD_PAGES_ARTIFACT_ACTION_SHA :: string where "UPLOAD_PAGES_ARTIFACT_ACTION_SHA = ''fc324d3547104276b827a68afc52ff2a11cc49c9''"
definition DEPLOY_PAGES_ACTION_SHA :: string where "DEPLOY_PAGES_ACTION_SHA = ''368f82528645a54fb793d4d04e342629a3f51346''"

text \<open>Action, revision and the version its comment names.\<close>

definition REVIEWED_ACTION_PINS :: "(string \<times> string \<times> string) list" where
  "REVIEWED_ACTION_PINS =
     [(''actions/checkout'', CHECKOUT_ACTION_SHA, ''v7.0.1''), (''actions/deploy-pages'', DEPLOY_PAGES_ACTION_SHA, ''v5.0.1''),
      (''actions/download-artifact'', DOWNLOAD_ARTIFACT_ACTION_SHA, ''v8.0.1''),
      (''actions/upload-artifact'', UPLOAD_ARTIFACT_ACTION_SHA, ''v7.0.1''),
      (''actions/upload-pages-artifact'', UPLOAD_PAGES_ARTIFACT_ACTION_SHA, ''v5.0.0''),
      (''astral-sh/setup-uv'', SETUP_UV_ACTION_SHA, ''v10.0.1''), (''github/codeql-action/analyze'', CODEQL_ACTION_SHA, ''v4.37.9''),
      (''github/codeql-action/init'', CODEQL_ACTION_SHA, ''v4.37.9''),
      (''prefix-dev/setup-pixi'', SETUP_PIXI_ACTION_SHA, ''v0.10.2'')]"

definition reviewed_pin :: "str \<Rightarrow> str \<Rightarrow> str \<Rightarrow> bool" where
  "reviewed_pin action sha version \<longleftrightarrow>
     list_ex (\<lambda>(a, s, v). action = lit a \<and> sha = lit s \<and> version = lit v) REVIEWED_ACTION_PINS"

definition owner_char :: "int \<Rightarrow> bool" where "owner_char c \<longleftrightarrow> key_char c \<or> c = 46"
definition action_char :: "int \<Rightarrow> bool" where "action_char c \<longleftrightarrow> owner_char c \<or> c = 47"
definition sha_char :: "int \<Rightarrow> bool" where "sha_char c \<longleftrightarrow> is_ascii_digit c \<or> (97 \<le> c \<and> c \<le> 102)"

fun re_times :: "nat \<Rightarrow> re \<Rightarrow> re" where
  "re_times 0 r = Eps"
| "re_times (Suc n) r = Seq r (re_times n r)"

definition optional_dash :: re where "optional_dash = re_opt (Seq (re_lit ''-'') spaces)"

definition USES_LINE :: re where "USES_LINE = re_seq [Bol, spaces, optional_dash, re_lit ''uses:'']"

definition ACTION_USE_RE :: re where
  "ACTION_USE_RE = re_seq [Bol, spaces, optional_dash, re_lit ''uses:'', spaces,
     Grp 1 (re_seq [re_plus (Chr owner_char), re_lit ''/'', re_plus (Chr action_char)]), re_lit ''@'',
     Grp 2 (re_times 40 (Chr sha_char)), re_spaces, re_lit ''#'', spaces, Grp 3 (re_plus (Chr (\<lambda>c. \<not> is_space c))), spaces, AtEnd]"

definition check_pin :: "str \<Rightarrow> wf_exn + unit" where
  "check_pin line =
     (case re_fullmatch ACTION_USE_RE line of
        None \<Rightarrow> Inl (WfAssertion ''action pin must use a full commit SHA and version comment'')
      | Some m \<Rightarrow> need ''reviewed action pin mismatch'' (reviewed_pin (group_text m 1) (group_text m 2) (group_text m 3)))"

text \<open>\<open>line.split("uses:", 1)[1].strip()\<close>\<close>

definition uses_value :: "str \<Rightarrow> str" where
  "uses_value line = (case sub_index (lit ''uses:'') line of None \<Rightarrow> [] | Some i \<Rightarrow> strip (drop (i + 5) line))"

definition check_use_line :: "str \<Rightarrow> wf_exn + unit" where
  "check_use_line line =
     (if \<not> re_matches USES_LINE line \<or> startswith (uses_value line) (lit ''./'') then Inr () else check_pin line)"

section \<open>The workflows\<close>

text \<open>
  The workflow directory: the names ending in .yml and in .yaml, those that are links, and what can be read.
\<close>

record workflow_tree =
  wt_yml :: "str list"
  wt_yaml :: "str list"
  wt_links :: "str list"
  wt_read :: "str \<Rightarrow> bytes option"
  wt_action :: "bytes option"

definition read_source :: "bytes option \<Rightarrow> wf_exn + str" where
  "read_source content =
     (case content of None \<Rightarrow> Inl WfOS | Some b \<Rightarrow> (case read_utf8 b of None \<Rightarrow> Inl WfEscapes | Some t \<Rightarrow> Inr t))"

definition WORKFLOW_NAMES :: "str list" where
  "WORKFLOW_NAMES = [lit ''ci.yml'', lit ''codeql.yml'', lit ''community-publish.yml'', lit ''community-verify.yml'',
     lit ''compat-canary.yml'', lit ''docs.yml'', lit ''release.yml'']"

definition check_workflow_inventory :: "workflow_tree \<Rightarrow> wf_exn + unit" where
  "check_workflow_inventory t =
     rbind (need ''workflow inventory mismatch'' (set (wt_yml t @ wt_yaml t) = set WORKFLOW_NAMES)) (\<lambda>_.
       need ''workflow inventory contains symlinks'' (wt_links t = []))"

definition check_action_pins :: "workflow_tree \<Rightarrow> wf_exn + unit" where
  "check_action_pins t =
     each (\<lambda>name. rbind (read_source (wt_read t name)) (\<lambda>source. each check_use_line (splitlines source)))
       (sort (wt_yml t) @ sort (wt_yaml t))"

section \<open>The published action\<close>

definition PUBLISHED_ACTION_RUNS :: "str list" where
  "PUBLISHED_ACTION_RUNS = [lit ''pixi run mtest $MTEST_PATHS $MTEST_ARGS'']"

definition PUBLISHED_ACTION_EXPRESSION_LINES :: "str list" where
  "PUBLISHED_ACTION_EXPRESSION_LINES =
     [lit ''        MTEST_PATHS: ${{ inputs.paths }}'', lit ''        MTEST_ARGS: ${{ inputs.args }}'']"

definition PUBLISHED_ACTION_ENV_KEYS :: "str list" where
  "PUBLISHED_ACTION_ENV_KEYS = [lit ''MTEST_PATHS'', lit ''MTEST_ARGS'']"

definition quote_char :: "int \<Rightarrow> bool" where "quote_char c \<longleftrightarrow> c = 39 \<or> c = 34"

definition CREDENTIAL_REFERENCE_RE :: "(int \<Rightarrow> bool) \<Rightarrow> re" where
  "CREDENTIAL_REFERENCE_RE word =
     re_alt [re_seq [re_boundary word, re_lit ''secrets'', spaces, re_alt [re_lit ''.'', re_lit ''['']],
             re_seq [re_boundary word, re_lit ''github'', spaces,
               re_alt [re_seq [re_lit ''.'', spaces, re_lit ''token'', re_boundary word],
                       re_seq [re_lit ''['', spaces, Chr quote_char, re_lit ''token'', Chr quote_char, spaces, re_lit '']'']]]]"

definition STEP_CONDITION_RE :: re where
  "STEP_CONDITION_RE = re_seq [Bol, spaces, optional_dash, re_lit ''if:'']"

definition ALWAYS_SUCCEED_RE :: "(int \<Rightarrow> bool) \<Rightarrow> re" where
  "ALWAYS_SUCCEED_RE word = re_seq [re_lit ''||'', spaces, re_lit ''true'', re_boundary word]"

definition shell_line :: re where
  "shell_line = re_seq [Bol, re_spaces, re_opt (Seq (re_lit ''-'') re_spaces), re_lit ''shell: '', Grp 1 (re_plus dot), AtEnd]"

definition check_action_use :: "str \<Rightarrow> wf_exn + unit" where
  "check_action_use line = (if \<not> re_matches USES_LINE line then Inr () else check_pin line)"

definition review_action :: "(int \<Rightarrow> bool) \<Rightarrow> str \<Rightarrow> wf_exn + unit" where
  "review_action word action =
     rbind (yaml_block action (lit ''runs:'')) (\<lambda>runs.
     rbind (need ''the published action must be a composite action'' (values_of ''  using: '' runs = [lit ''composite''])) (\<lambda>_.
     rbind (need ''the published action must contain no credential reference''
         (\<not> re_search (CREDENTIAL_REFERENCE_RE word) action)) (\<lambda>_.
     rbind (need ''the published action must not contain continue-on-error'' (\<not> holds action ''continue-on-error:'')) (\<lambda>_.
     rbind (need ''the published action must not condition a step'' (\<not> re_search STEP_CONDITION_RE runs)) (\<lambda>_.
     rbind (need ''the published action must not discard an exit code'' (\<not> re_search (ALWAYS_SUCCEED_RE word) action)) (\<lambda>_.
     rbind (need ''the published action must run exactly the reviewed invocation''
         (re_findall (spaced_line ''run: '') runs = PUBLISHED_ACTION_RUNS)) (\<lambda>_.
     rbind (need ''every step of the published action must declare shell bash''
         (re_findall shell_line runs = map (\<lambda>_. lit ''bash'') PUBLISHED_ACTION_RUNS)) (\<lambda>_.
     rbind (need ''the published action may carry an expression only on the reviewed environment lines''
         (filter (\<lambda>l. holds l ''${{'') (splitlines runs) = PUBLISHED_ACTION_EXPRESSION_LINES)) (\<lambda>_.
     rbind (need ''the published action may bind only the reviewed environment keys''
         (env_keys runs = PUBLISHED_ACTION_ENV_KEYS)) (\<lambda>_.
       each check_action_use (splitlines action)))))))))))"

definition check_published_action :: "(int \<Rightarrow> bool) \<Rightarrow> workflow_tree \<Rightarrow> wf_exn + unit" where
  "check_published_action word t = rbind (read_source (wt_action t)) (review_action word)"

section \<open>What a pinned line is\<close>

abbreviation blank :: "str \<Rightarrow> bool" where "blank \<equiv> list_all is_space"

definition dash_part :: "str \<Rightarrow> bool" where
  "dash_part d \<longleftrightarrow> d = [] \<or> (\<exists>w. d = [45] @ w \<and> blank w)"

text \<open>A line that names an action, and one that pins a reviewed revision of it.\<close>

definition use_line :: "str \<Rightarrow> bool" where
  "use_line line \<longleftrightarrow> (\<exists>w d rest. line = w @ d @ lit ''uses:'' @ rest \<and> blank w \<and> dash_part d)"

definition pinned_line :: "str \<Rightarrow> bool" where
  "pinned_line line \<longleftrightarrow>
     (\<exists>w d w2 action sha w3 w4 version w5.
        line = w @ d @ lit ''uses:'' @ w2 @ action @ lit ''@'' @ sha @ w3 @ lit ''#'' @ w4 @ version @ w5
        \<and> blank w \<and> dash_part d \<and> blank w2 \<and> w3 \<noteq> [] \<and> blank w3 \<and> blank w4 \<and> blank w5
        \<and> reviewed_pin action sha version)"

lemma consumes_dash: "consumes optional_dash {d. dash_part d}"
proof -
  have "{u @ v | u v. u \<in> {lit ''-''} \<and> v \<in> {u. blank u}} \<union> {[]} = {d. dash_part d}" by (auto simp: dash_part_def)
  then show ?thesis
    using consumes_Alt [OF consumes_Seq [OF consumes_lit consumes_star_Chr, of "''-''" True is_space] consumes_Eps]
    by (simp add: optional_dash_def re_opt_def)
qed

lemma leads_to_Bol_seq: "x \<in> leads_to (Seq Bol r) st \<Longrightarrow> x \<in> leads_to r st"
  by auto

lemma use_line_matches: "use_line line \<Longrightarrow> re_matches USES_LINE line"
proof -
  assume "use_line line"
  then obtain w d rest where l: "line = w @ d @ lit ''uses:'' @ rest" "blank w" "dash_part d" by (auto simp: use_line_def)
  let ?st = "\<lparr> st_prev = None, st_rest = line, st_caps = [] \<rparr> :: re_state"
  let ?s1 = "eaten ?st w" let ?s2 = "eaten ?s1 d"
  have "leads_to (re_lit ''uses:'') ?s2 \<noteq> {}"
    using consumes_lit [of "''uses:''"] l(1) unfolding consumes_def by auto
  then have "leads_to (Seq optional_dash (re_lit ''uses:'')) ?s1 \<noteq> {}"
    by (intro eats_along [OF consumes_dash]) (use l in auto)
  then have "leads_to (Seq spaces (Seq optional_dash (re_lit ''uses:''))) ?st \<noteq> {}"
    by (intro eats_along [OF consumes_star_Chr]) (use l in auto)
  then show ?thesis by (auto simp: re_matches_def re_match_at_None USES_LINE_def)
qed

lemma times_chars: "consumes (re_times n (Chr p)) {u. length u = n \<and> list_all p u}"
proof (induction n)
  case 0
  have "{u :: str. length u = 0 \<and> list_all p u} = {[]}" by auto
  then show ?case using consumes_Eps by simp
next
  case (Suc n)
  have "{u @ v | u v. u \<in> {[c] | c. p c} \<and> v \<in> {u. length u = n \<and> list_all p u}} = {u. length u = Suc n \<and> list_all p u}"
    (is "?l = ?r")
  proof (intro equalityI subsetI)
    fix u
    assume "u \<in> ?r"
    then obtain c v where "u = [c] @ v" "p c" "length v = n" "list_all p v" by (cases u) auto
    then show "u \<in> ?l" by blast
  qed auto
  then show ?case using consumes_Seq [OF consumes_Chr [of p] Suc.IH] by simp
qed

lemma action_consumes: "\<exists>L. consumes (re_seq [re_plus (Chr owner_char), re_lit ''/'', re_plus (Chr action_char)]) L"
  using consumes_Seq [OF consumes_plus_Chr consumes_Seq [OF consumes_lit consumes_plus_Chr]] by auto

text \<open>The parts of a matching line, walked along the pattern.\<close>

lemma action_use_parts:
  assumes "x \<in> leads_to ACTION_USE_RE \<lparr> st_prev = None, st_rest = line, st_caps = [] \<rparr>" "st_rest x = []"
  shows "\<exists>w d w2 a sha w3 w4 v w5.
    line = w @ d @ lit ''uses:'' @ w2 @ a @ lit ''@'' @ sha @ w3 @ lit ''#'' @ w4 @ v @ w5
    \<and> blank w \<and> dash_part d \<and> blank w2 \<and> w3 \<noteq> [] \<and> blank w3 \<and> blank w4 \<and> blank w5
    \<and> st_caps x = dict_set 3 v (dict_set 2 sha (dict_set 1 a []))"
proof -
  obtain L where L: "consumes (re_seq [re_plus (Chr owner_char), re_lit ''/'', re_plus (Chr action_char)]) L"
    using action_consumes by blast
  let ?r12 = "Seq spaces AtEnd"
  let ?r11 = "Seq (Grp 3 (re_plus (Chr (\<lambda>c. \<not> is_space c)))) ?r12"
  let ?r10 = "Seq spaces ?r11" let ?r9 = "Seq (re_lit ''#'') ?r10" let ?r8 = "Seq re_spaces ?r9"
  let ?r7 = "Seq (Grp 2 (re_times 40 (Chr sha_char))) ?r8" let ?r6 = "Seq (re_lit ''@'') ?r7"
  let ?r5 = "Seq (Grp 1 (re_seq [re_plus (Chr owner_char), re_lit ''/'', re_plus (Chr action_char)])) ?r6"
  let ?r4 = "Seq spaces ?r5" let ?r3 = "Seq (re_lit ''uses:'') ?r4" let ?r2 = "Seq optional_dash ?r3"
  let ?st = "\<lparr> st_prev = None, st_rest = line, st_caps = [] \<rparr> :: re_state"
  have 0: "x \<in> leads_to (Seq spaces ?r2) ?st"
    using assms(1) by (simp only: ACTION_USE_RE_def re_seq.simps) (rule leads_to_Bol_seq)
  obtain w s1 where 1: "blank w" "line = w @ st_rest s1" "st_caps s1 = []" "x \<in> leads_to ?r2 s1"
    by (rule seq_eats [OF 0 consumes_star_Chr], rule that) (simp_all del: leads_to.simps)
  obtain d s2 where 2: "dash_part d" "st_rest s1 = d @ st_rest s2" "st_caps s2 = []" "x \<in> leads_to ?r3 s2"
    by (rule seq_eats [OF 1(4) consumes_dash], rule that) (use 1(3) in \<open>simp_all del: leads_to.simps\<close>)
  obtain s3 where 3: "st_rest s2 = lit ''uses:'' @ st_rest s3" "st_caps s3 = []" "x \<in> leads_to ?r4 s3"
    by (rule seq_eats [OF 2(4) consumes_lit], rule that) (use 2(3) in \<open>simp_all del: leads_to.simps\<close>)
  obtain w2 s4 where 4: "blank w2" "st_rest s3 = w2 @ st_rest s4" "st_caps s4 = []" "x \<in> leads_to ?r5 s4"
    by (rule seq_eats [OF 3(3) consumes_star_Chr], rule that) (use 3(2) in \<open>simp_all del: leads_to.simps\<close>)
  obtain a s5 where 5: "st_rest s4 = a @ st_rest s5" "st_caps s5 = dict_set 1 a []" "x \<in> leads_to ?r6 s5"
    by (rule seq_catches [OF 4(4) L], rule that) (use 4(3) in \<open>simp_all del: leads_to.simps\<close>)
  obtain s6 where 6: "st_rest s5 = lit ''@'' @ st_rest s6" "st_caps s6 = dict_set 1 a []" "x \<in> leads_to ?r7 s6"
    by (rule seq_eats [OF 5(3) consumes_lit], rule that) (use 5(2) in \<open>simp_all del: leads_to.simps\<close>)
  obtain sha s7 where 7: "st_rest s6 = sha @ st_rest s7" "st_caps s7 = dict_set 2 sha (dict_set 1 a [])" "x \<in> leads_to ?r8 s7"
    by (rule seq_catches [OF 6(3) times_chars], rule that) (use 6(2) in \<open>simp_all del: leads_to.simps\<close>)
  obtain w3 s8 where 8: "w3 \<noteq> []" "blank w3" "st_rest s7 = w3 @ st_rest s8" "st_caps s8 = st_caps s7" "x \<in> leads_to ?r9 s8"
    by (rule seq_eats [OF 7(3) consumes_plus_Chr], rule that) (simp_all del: leads_to.simps)
  obtain s9 where 9: "st_rest s8 = lit ''#'' @ st_rest s9" "st_caps s9 = st_caps s7" "x \<in> leads_to ?r10 s9"
    by (rule seq_eats [OF 8(5) consumes_lit], rule that) (use 8(4) in \<open>simp_all del: leads_to.simps\<close>)
  obtain w4 s10 where 10: "blank w4" "st_rest s9 = w4 @ st_rest s10" "st_caps s10 = st_caps s7" "x \<in> leads_to ?r11 s10"
    by (rule seq_eats [OF 9(3) consumes_star_Chr], rule that) (use 9(2) in \<open>simp_all del: leads_to.simps\<close>)
  obtain v s11 where 11: "st_rest s10 = v @ st_rest s11" "st_caps s11 = dict_set 3 v (st_caps s7)" "x \<in> leads_to ?r12 s11"
    by (rule seq_catches [OF 10(4) consumes_plus_Chr], rule that) (use 10(3) in \<open>simp_all del: leads_to.simps\<close>)
  obtain w5 s12 where 12: "blank w5" "st_rest s11 = w5 @ st_rest s12" "st_caps s12 = st_caps s11" "x \<in> leads_to AtEnd s12"
    by (rule seq_eats [OF 11(3) consumes_star_Chr], rule that) (simp_all del: leads_to.simps)
  have end_of_line: "x = s12" using 12(4) by simp
  have line: "line = w @ d @ lit ''uses:'' @ w2 @ a @ lit ''@'' @ sha @ w3 @ lit ''#'' @ w4 @ v @ w5"
    using assms(2) unfolding end_of_line
    by (simp only: 1(2) 2(2) 3(1) 4(2) 5(1) 6(1) 7(1) 8(3) 9(1) 10(2) 11(1) 12(2) append_assoc append_Nil2)
  have caps: "st_caps x = dict_set 3 v (dict_set 2 sha (dict_set 1 a []))"
    by (simp only: end_of_line 12(3) 11(2) 7(2))
  show ?thesis
    by (rule exI [of _ w], rule exI [of _ d], rule exI [of _ w2], rule exI [of _ a], rule exI [of _ sha], rule exI [of _ w3],
        rule exI [of _ w4], rule exI [of _ v], rule exI [of _ w5])
      (intro conjI line caps 1(1) 2(1) 4(1) 8(1,2) 10(1) 12(1))
qed

lemma check_pin_pinned:
  assumes "check_pin line = Inr ()"
  shows "pinned_line line"
proof -
  obtain m where m: "re_fullmatch ACTION_USE_RE line = Some m" "reviewed_pin (group_text m 1) (group_text m 2) (group_text m 3)"
    using assms by (auto simp: check_pin_def split: option.splits)
  obtain x where x: "x \<in> leads_to ACTION_USE_RE \<lparr> st_prev = None, st_rest = line, st_caps = [] \<rparr>" "st_rest x = []" "st_caps x = m"
    using re_fullmatch_Some [OF m(1)] by blast
  from action_use_parts [OF x(1,2)] obtain w d w2 a sha w3 w4 v w5 where
    p: "line = w @ d @ lit ''uses:'' @ w2 @ a @ lit ''@'' @ sha @ w3 @ lit ''#'' @ w4 @ v @ w5"
      "blank w" "dash_part d" "blank w2" "w3 \<noteq> []" "blank w3" "blank w4" "blank w5"
      "m = dict_set 3 v (dict_set 2 sha (dict_set 1 a []))"
    using x(3) by blast
  then have "reviewed_pin a sha v" using m(2) by (simp add: group_text_def)
  with p show ?thesis unfolding pinned_line_def by blast
qed

section \<open>Every command line is found\<close>

text \<open>
  \<open>re.findall(r"^\s+key: (.+)$")\<close> lets its spaces run over line ends, so one match may start lines earlier.
  It still finds the value of every line of that form.
\<close>

lemma spaced_parts:
  assumes "x \<in> leads_to (spaced_line key) \<lparr> st_prev = prev, st_rest = s, st_caps = [] \<rparr>"
  obtains w c where "s = w @ lit key @ c @ st_rest x" "w \<noteq> []" "blank w" "c \<noteq> []" "10 \<notin> set c"
    "st_rest x = [] \<or> hd (st_rest x) = 10" "group_text (st_caps x) 1 = c"
proof -
  let ?r3 = "Seq (Grp 1 (re_plus dot)) AtEnd" let ?r2 = "Seq (re_lit key) ?r3"
  let ?st = "\<lparr> st_prev = prev, st_rest = s, st_caps = [] \<rparr> :: re_state"
  have 0: "x \<in> leads_to (Seq re_spaces ?r2) ?st"
    using assms by (simp only: spaced_line_def re_seq.simps) (rule leads_to_Bol_seq)
  obtain w s1 where 1: "w \<noteq> []" "blank w" "s = w @ st_rest s1" "st_caps s1 = []" "x \<in> leads_to ?r2 s1"
    by (rule seq_eats [OF 0 consumes_plus_Chr], rule that) (simp_all del: leads_to.simps)
  obtain s2 where 2: "st_rest s1 = lit key @ st_rest s2" "st_caps s2 = []" "x \<in> leads_to ?r3 s2"
    by (rule seq_eats [OF 1(5) consumes_lit], rule that) (use 1(4) in \<open>simp_all del: leads_to.simps\<close>)
  obtain c s3 where 3: "c \<noteq> []" "list_all (\<lambda>c. c \<noteq> 10) c" "st_rest s2 = c @ st_rest s3" "st_caps s3 = dict_set 1 c []"
      "x \<in> leads_to AtEnd s3"
    by (rule seq_catches [OF 2(3) consumes_plus_Chr], rule that) (use 2(2) in \<open>simp_all del: leads_to.simps\<close>)
  have x: "x = s3" "st_rest s3 = [] \<or> hd (st_rest s3) = 10" using 3(5) by auto
  show thesis
  proof (rule that [of w c])
    show "s = w @ lit key @ c @ st_rest x" by (simp only: 1(3) 2(1) 3(3) x(1) append_assoc)
    show "group_text (st_caps x) 1 = c" by (simp add: x(1) 3(4) group_text_def)
  qed (use 1 3 x in \<open>auto simp: list_all_iff\<close>)
qed

lemma spaced_matches:
  assumes "prev = None \<or> prev = Some 10" "w \<noteq> []" "blank w" "c \<noteq> []" "10 \<notin> set c" "v = [] \<or> hd v = 10"
  shows "leads_to (spaced_line key) \<lparr> st_prev = prev, st_rest = w @ lit key @ c @ v, st_caps = [] \<rparr> \<noteq> {}"
proof -
  let ?st = "\<lparr> st_prev = prev, st_rest = w @ lit key @ c @ v, st_caps = [] \<rparr> :: re_state"
  let ?s1 = "eaten ?st w" let ?s2 = "eaten ?s1 (lit key)"
  let ?s3 = "(eaten ?s2 c) \<lparr> st_caps := dict_set 1 c (st_caps ?s2) \<rparr>"
  have plus: "consumes (re_plus dot) {u. u \<noteq> [] \<and> list_all (\<lambda>c. c \<noteq> 10) u}" by (rule consumes_plus_Chr)
  have "st_rest ?s2 = c @ v" "list_all (\<lambda>c. c \<noteq> 10) c" using assms(5) by (auto simp: list_all_iff)
  then have "?s3 \<in> leads_to (Grp 1 (re_plus dot)) ?s2"
    unfolding leads_to_group [OF plus] using assms(4) by blast
  moreover have "leads_to AtEnd ?s3 \<noteq> {}" using assms(6) by simp
  ultimately have "leads_to (Seq (Grp 1 (re_plus dot)) AtEnd) ?s2 \<noteq> {}"
    by (simp only: leads_to.simps(3)) blast
  then have "leads_to (Seq (re_lit key) (Seq (Grp 1 (re_plus dot)) AtEnd)) ?s1 \<noteq> {}"
    by (rule eats_along [OF consumes_lit, of "lit key", rotated 2]) simp_all
  then have "leads_to (Seq re_spaces (Seq (re_lit key) (Seq (Grp 1 (re_plus dot)) AtEnd))) ?st \<noteq> {}"
    by (rule eats_along [OF consumes_plus_Chr, of w, rotated 2]) (use assms in simp_all)
  moreover have "leads_to Bol ?st = {?st}" using assms(1) by simp
  ultimately show ?thesis by (simp only: spaced_line_def re_seq.simps leads_to.simps(3)) simp
qed

lemma takeWhile_cut: "list_all p w \<Longrightarrow> x = [] \<or> \<not> p (hd x) \<Longrightarrow> takeWhile p (w @ x) = w"
  by (cases x) (auto simp: list_all_iff takeWhile_append)

text \<open>Two ways to read the same text as spaces, the key and a value that goes to the end of its line.\<close>

lemma same_value:
  assumes "w @ k @ c @ v = w' @ k @ c' @ v'" "blank w" "blank w'" "k \<noteq> []" "\<not> is_space (hd k)"
    and "10 \<notin> set c" "10 \<notin> set c'" "v = [] \<or> hd v = 10" "v' = [] \<or> hd v' = 10"
  shows "c = c'"
proof -
  have "takeWhile is_space (w @ k @ c @ v) = w" "takeWhile is_space (w' @ k @ c' @ v') = w'"
    using assms(2-5) by (auto intro!: takeWhile_cut)
  then have "w = w'" using assms(1) by simp
  then have cv: "c @ v = c' @ v'" using assms(1) by simp
  have "takeWhile (\<lambda>c. c \<noteq> 10) (c @ v) = c" "takeWhile (\<lambda>c. c \<noteq> 10) (c' @ v') = c'"
    using assms(6-9) by (auto intro!: takeWhile_cut simp: list_all_iff)
  then show ?thesis using cv by simp
qed

lemma find_all_spaced:
  assumes "key \<noteq> []" "\<not> is_space (hd (lit key))" "10 \<notin> set (lit key)"
    and "w \<noteq> []" "blank w" "c \<noteq> []" "10 \<notin> set c" "v = [] \<or> hd v = 10"
  shows "length s < n \<Longrightarrow> s = a @ w @ lit key @ c @ v \<Longrightarrow>
    (if a = [] then prev = None \<or> prev = Some 10 else last a = 10) \<Longrightarrow>
    \<exists>m\<in>set (find_all n (spaced_line key) prev s). group_text m 1 = c"
proof (induction n arbitrary: s prev a)
  case (Suc n)
  show ?case
  proof (cases "re_match_at (spaced_line key) prev s")
    case None
    have "a \<noteq> []"
      using None spaced_matches [OF _ assms(4-8), of prev key] Suc.prems by (auto simp: re_match_at_None)
    then obtain b a' where a: "a = b # a'" by (cases a) auto
    have "\<exists>m\<in>set (find_all n (spaced_line key) (Some b) (a' @ w @ lit key @ c @ v)). group_text m 1 = c"
      by (rule Suc.IH [of _ a']) (use Suc.prems a in \<open>auto split: if_splits\<close>)
    then show ?thesis using None Suc.prems(2) a by simp
  next
    case (Some st)
    obtain w1 c1 where m: "s = w1 @ lit key @ c1 @ st_rest st" "w1 \<noteq> []" "blank w1" "c1 \<noteq> []" "10 \<notin> set c1"
        "st_rest st = [] \<or> hd (st_rest st) = 10" "group_text (st_caps st) 1 = c1"
      using spaced_parts [OF re_match_at_leads [OF Some]] by metis
    have k: "lit key \<noteq> []" using assms(1) by (simp add: lit_def)
    have eq: "w1 @ lit key @ c1 @ st_rest st = a @ w @ lit key @ c @ v" using m(1) Suc.prems(2) by simp
    have shorter: "length (st_rest st) < length s" using m(1,2) by (cases w1) auto
    show ?thesis
    proof (cases "length a \<le> length w1")
      case True
      then obtain w2 where w2: "w1 = a @ w2" using eq by (metis append_eq_append_conv_if append_take_drop_id)
      then have "w2 @ lit key @ c1 @ st_rest st = w @ lit key @ c @ v" "blank w2" using eq m(3) by auto
      from same_value [OF this(1) this(2) assms(5) k assms(2) m(5) assms(7) m(6) assms(8)] have "c1 = c" .
      then show ?thesis using Some m(7) by auto
    next
      case False
      then obtain a2 where a2: "a = w1 @ a2" "a2 \<noteq> []" using eq
        by (metis append_eq_append_conv_if append_take_drop_id drop_eq_Nil linorder_le_cases not_le)
      then have eq2: "(lit key @ c1) @ st_rest st = a2 @ w @ lit key @ c @ v" using eq by simp
      have last10: "last a2 = 10" using Suc.prems(3) a2 by (simp split: if_splits)
      have no10: "10 \<notin> set (lit key @ c1)" using assms(3) m(5) by simp
      have "\<not> length a2 \<le> length (lit key @ c1)"
      proof
        assume "length a2 \<le> length (lit key @ c1)"
        then have "a2 = take (length a2) (lit key @ c1)" using eq2 by (metis append_eq_append_conv_if)
        then have "set a2 \<subseteq> set (lit key @ c1)" by (metis set_take_subset)
        then show False using last10 a2(2) no10 last_in_set by fastforce
      qed
      then obtain a3 where a3: "a2 = (lit key @ c1) @ a3" "a3 \<noteq> []" using eq2
        by (metis append_eq_append_conv_if append_take_drop_id drop_eq_Nil linorder_le_cases)
      then have "st_rest st = a3 @ w @ lit key @ c @ v" "last a3 = 10" using eq2 last10 by auto
      then have "\<exists>m\<in>set (find_all n (spaced_line key) (st_prev st) (st_rest st)). group_text m 1 = c"
        using Suc.IH [of "st_rest st" a3] Suc.prems(1) shorter a3(2) by simp
      then show ?thesis using Some shorter by auto
    qed
  qed
qed simp

lemma spaced_value_found:
  assumes "key \<noteq> []" "\<not> is_space (hd (lit key))" "10 \<notin> set (lit key)"
    and "w \<noteq> []" "blank w" "c \<noteq> []" "10 \<notin> set c" "w @ lit key @ c \<in> set ls"
  shows "c \<in> set (re_findall (spaced_line key) (text_of_lines ls))"
proof -
  obtain ls1 ls2 where ls: "ls = ls1 @ (w @ lit key @ c) # ls2" using assms(8) by (meson split_list)
  have step: "text_of_lines (l # ls') = l @ (if ls' = [] then [] else 10 # text_of_lines ls')" for l ls'
    by (cases ls') (simp_all add: text_of_lines_def)
  have "\<exists>a v. text_of_lines ls = a @ w @ lit key @ c @ v \<and> (a = [] \<or> last a = 10) \<and> (v = [] \<or> hd v = 10)"
    unfolding ls
  proof (induction ls1)
    case Nil
    show ?case by (rule exI [of _ "[]"]) (simp add: step)
  next
    case (Cons l ls1)
    then obtain a v where "text_of_lines (ls1 @ (w @ lit key @ c) # ls2) = a @ w @ lit key @ c @ v"
        "a = [] \<or> last a = 10" "v = [] \<or> hd v = 10" by blast
    then show ?case by (intro exI [of _ "l @ 10 # a"] exI [of _ v]) (auto simp: step)
  qed
  then obtain a v where s: "text_of_lines ls = a @ w @ lit key @ c @ v" "a = [] \<or> last a = 10" "v = [] \<or> hd v = 10" by blast
  have "\<exists>m\<in>set (find_all (Suc (length (text_of_lines ls))) (spaced_line key) None (text_of_lines ls)). group_text m 1 = c"
    by (rule find_all_spaced [OF assms(1-7) s(3) _ s(1)]) (use s(2) in auto)
  then show ?thesis by (auto simp: re_findall_def re_find_all_def image_iff)
qed

section \<open>What passing shows\<close>

lemma line_kept:
  "\<forall>l\<in>set ls. unbroken l \<Longrightarrow> line \<in> set ls \<Longrightarrow> line \<noteq> [] \<Longrightarrow> line \<in> set (splitlines (text_of_lines ls))"
proof (induction ls)
  case (Cons l ls)
  show ?case
  proof (cases ls)
    case Nil
    then show ?thesis using Cons.prems splitlines_acc_last [of l "[]"] by (auto simp: text_of_lines_def splitlines_def)
  next
    case (Cons l' ls')
    then have "splitlines (text_of_lines (l # ls)) = l # splitlines (text_of_lines ls)"
      using Cons.prems splitlines_acc_line [of l "[]"] by (simp add: text_of_lines_def splitlines_def)
    then show ?thesis using Cons.IH Cons.prems by auto
  qed
qed simp

lemma yaml_block_lines:
  "yaml_block source header = Inr block \<Longrightarrow> \<exists>ls. block = text_of_lines ls \<and> set ls \<subseteq> set (splitlines source)"
proof -
  assume "yaml_block source header = Inr block"
  then obtain i where "block = text_of_lines (block_below (int (indent_of header)) (drop (Suc i) (splitlines source)))"
    by (auto simp: yaml_block_def split: list.splits)
  moreover have "set (block_below n (drop k ls)) \<subseteq> set ls" for n k and ls :: "str list"
    by (auto simp: block_below_def dest: set_takeWhileD in_set_dropD)
  ultimately show ?thesis by blast
qed

lemma check_use_line_Inr:
  "check_use_line line = Inr () \<Longrightarrow> use_line line \<Longrightarrow> startswith (uses_value line) (lit ''./'') \<or> pinned_line line"
  using use_line_matches check_pin_pinned by (auto simp: check_use_line_def split: if_splits)

lemma check_action_use_Inr: "check_action_use line = Inr () \<Longrightarrow> use_line line \<Longrightarrow> pinned_line line"
  using use_line_matches check_pin_pinned by (auto simp: check_action_use_def split: if_splits)

lemma read_source_Inr: "read_source content = Inr source \<longleftrightarrow> (\<exists>b. content = Some b \<and> read_utf8 b = Some source)"
  by (auto simp: read_source_def split: option.splits)

text \<open>
  Every used action is reviewed: when the pins pass, every line of every workflow that names an action by
  a plain \<open>uses:\<close> key either names one of the repository itself or pins a reviewed revision.
\<close>

theorem workflow_uses_reviewed:
  assumes "check_action_pins t = Inr ()" "name \<in> set (wt_yml t @ wt_yaml t)"
  shows "\<exists>b source. wt_read t name = Some b \<and> read_utf8 b = Some source
    \<and> (\<forall>line\<in>set (splitlines source). use_line line \<longrightarrow>
        startswith (uses_value line) (lit ''./'') \<or> pinned_line line)"
proof -
  have "rbind (read_source (wt_read t name)) (\<lambda>source. each check_use_line (splitlines source)) = Inr ()"
    using assms by (auto simp: check_action_pins_def each_Inr)
  then obtain source where "read_source (wt_read t name) = Inr source" "\<forall>line\<in>set (splitlines source). check_use_line line = Inr ()"
    by (auto simp: rbind_Inr each_Inr)
  then show ?thesis using check_use_line_Inr by (auto simp: read_source_Inr)
qed


text \<open>An action in the shape of the published one, a workflow with one pinned step, and a tree of both.\<close>

definition sample_action :: "str list" where
  "sample_action =
     [lit ''name: mtest'', lit ''runs:'', lit ''  using: composite'', lit ''  steps:'', lit ''    - shell: bash'', lit ''      env:'']
     @ PUBLISHED_ACTION_EXPRESSION_LINES @ [lit ''      run: '' @ hd PUBLISHED_ACTION_RUNS]"

definition sample_workflow :: "str list" where
  "sample_workflow = [lit ''name: Docs'', lit ''      - name: Checkout'',
     lit ''        uses: actions/checkout@'' @ lit CHECKOUT_ACTION_SHA @ lit '' # v7.0.1'']"

definition sample_workflows :: "str list \<Rightarrow> str list \<Rightarrow> workflow_tree" where
  "sample_workflows workflow action =
     \<lparr> wt_yml = [lit ''docs.yml''], wt_yaml = [], wt_links = [], wt_read = (\<lambda>_. Some (lines_of workflow)),
       wt_action = Some (lines_of action) \<rparr>"

lemma sample_pinned: "check_action_pins (sample_workflows sample_workflow sample_action) = Inr ()"
  by code_simp

lemma sample_reviewed: "check_published_action ascii_word (sample_workflows sample_workflow sample_action) = Inr ()"
  by code_simp

theorem workflow_uses_reviewed_witness:
  "\<exists>b source. wt_read (sample_workflows sample_workflow sample_action) (lit ''docs.yml'') = Some b \<and> read_utf8 b = Some source
    \<and> (\<forall>line\<in>set (splitlines source). use_line line \<longrightarrow>
        startswith (uses_value line) (lit ''./'') \<or> pinned_line line)"
  by (rule workflow_uses_reviewed [OF sample_pinned]) (simp add: sample_workflows_def)


text \<open>
  A key in quotes, which YAML reads as the same key, is a step neither review sees: the published action
  passes with a second command, and a workflow passes with an action named by a branch.
\<close>

lemma quoted_keys_unseen:
  "check_published_action ascii_word (sample_workflows sample_workflow
      (sample_action @ [lit ''    - \"shell\": bash'', lit ''      \"run\": ./fetched.sh''])) = Inr ()"
  "check_action_pins (sample_workflows (sample_workflow @ [lit ''      - \"uses\": other/action@main'']) sample_action) = Inr ()"
  by code_simp+

end
