(* ===== verification/Workflow_Jobs.thy ===== *)
theory Workflow_Jobs
  imports Workflow_Pins
begin

text \<open>
  scripts/checks/workflow_security.py: the reviews of the CodeQL, documentation and release workflows.
\<close>

section \<open>Helpers of the reviews\<close>

abbreviation keys_at :: "str \<Rightarrow> nat \<Rightarrow> string list \<Rightarrow> bool" where
  "keys_at block indent expected \<equiv> yaml_mapping_keys block indent = map lit expected"

abbreviation values_are :: "string \<Rightarrow> str \<Rightarrow> string list \<Rightarrow> bool" where
  "values_are given source expected \<equiv> values_of given source = map lit expected"

text \<open>A check of the block under one header.\<close>

definition on_block :: "str \<Rightarrow> string \<Rightarrow> (str \<Rightarrow> wf_exn + unit) \<Rightarrow> wf_exn + unit" where
  "on_block source header f = rbind (yaml_block source (lit header)) f"

text \<open>Checks one after the other.\<close>

fun steps_of :: "(wf_exn + unit) list \<Rightarrow> wf_exn + unit" where
  "steps_of [] = Inr ()"
| "steps_of (c # cs) = (case c of Inl e \<Rightarrow> Inl e | Inr _ \<Rightarrow> steps_of cs)"

lemma steps_of_Inr: "steps_of cs = Inr u \<longleftrightarrow> (\<forall>c\<in>set cs. c = Inr ())"
  by (induction cs) (auto split: sum.splits)

definition pin_line :: "string \<Rightarrow> string \<Rightarrow> string \<Rightarrow> str" where
  "pin_line action sha version = lit (''        uses: '' @ action @ ''@'' @ sha @ '' # '' @ version)"

definition action_lines :: "str \<Rightarrow> str list" where
  "action_lines job = filter (\<lambda>l. startswith (lstrip_of is_space l) (lit ''uses:'')) (splitlines job)"

definition whole_line :: "string \<Rightarrow> re" where
  "whole_line line = re_seq [Bol, re_lit line, AtEnd]"

definition line_count :: "string \<Rightarrow> str \<Rightarrow> nat" where
  "line_count line source = length (re_find_all (whole_line line) source)"

section \<open>CodeQL\<close>

definition permission_line :: re where
  "permission_line = re_seq [Bol, re_lit ''  '', Grp 1 (re_plus (Chr (\<lambda>c. (97 \<le> c \<and> c \<le> 122) \<or> c = 45))), re_lit '': '',
     Grp 2 (re_alt [re_lit ''read'', re_lit ''write'', re_lit ''none'']), AtEnd]"

definition CODEQL_PERMISSIONS :: "(string \<times> string) list" where
  "CODEQL_PERMISSIONS = [(''contents'', ''read''), (''actions'', ''read''), (''security-events'', ''write'')]"

definition check_codeql_triggers :: "str \<Rightarrow> wf_exn + unit" where
  "check_codeql_triggers workflow =
     steps_of
      [on_block workflow ''on:'' (\<lambda>b. need ''CodeQL trigger mismatch'' (keys_at b 2 [''push'', ''pull_request'', ''schedule'', ''workflow_dispatch''])),
       on_block workflow ''  push:'' (\<lambda>b. need ''CodeQL trigger mismatch: must target only main'' (strip b = lit ''branches: [main]'')),
       on_block workflow ''  pull_request:'' (\<lambda>b. need ''CodeQL trigger mismatch: must target only main'' (strip b = lit ''branches: [main]'')),
       on_block workflow ''  schedule:'' (\<lambda>b. need ''CodeQL trigger mismatch: weekly schedule changed'' (strip b = lit ''- cron: \"23 4 * * 1\"'')),
       on_block workflow ''  workflow_dispatch:'' (\<lambda>b. need ''CodeQL trigger mismatch: workflow_dispatch has inputs'' (strip b = []))]"

definition check_codeql_permissions :: "str \<Rightarrow> wf_exn + unit" where
  "check_codeql_permissions workflow =
     on_block workflow ''permissions:'' (\<lambda>b. need ''CodeQL permission mismatch''
       (set (dict_of (map (\<lambda>m. (group_text m 1, group_text m 2)) (re_find_all permission_line b)))
          = set (map (\<lambda>(k, v). (lit k, lit v)) CODEQL_PERMISSIONS)
        \<and> keys_at b 2 (map fst CODEQL_PERMISSIONS)))"

definition independence :: re where
  "independence = re_seq [Bol, re_lit ''    '', re_alt [re_lit ''if'', re_lit ''needs''], re_lit '':'']"

definition check_codeql_job :: "str \<Rightarrow> string \<Rightarrow> wf_exn + unit" where
  "check_codeql_job job display =
     steps_of [need ''CodeQL job display mismatch'' (values_are ''    name: '' job [display]),
       need ''CodeQL job runner mismatch'' (values_are ''    runs-on: '' job [''ubuntu-24.04'']),
       need ''CodeQL job must run independently'' (\<not> re_search independence job)]"

definition used_action :: re where
  "used_action = re_seq [Bol, re_lit ''        uses: '', Grp 1 (re_plus (Chr (\<lambda>c. c \<noteq> 32))),
     re_opt (Seq (re_lit '' # '') (re_star dot)), AtEnd]"

definition CODEQL_PINS :: "(string \<times> string \<times> string) list" where
  "CODEQL_PINS = [(''actions/checkout'', CHECKOUT_ACTION_SHA, ''v7.0.1''), (''prefix-dev/setup-pixi'', SETUP_PIXI_ACTION_SHA, ''v0.10.2''),
     (''github/codeql-action/init'', CODEQL_ACTION_SHA, ''v4.37.9''), (''github/codeql-action/analyze'', CODEQL_ACTION_SHA, ''v4.37.9'')]"

definition check_codeql_pins :: "str \<Rightarrow> (string \<times> string \<times> string) list \<Rightarrow> wf_exn + unit" where
  "check_codeql_pins job pins =
     steps_of [need ''CodeQL action pin mismatch'' (re_findall used_action job = map (\<lambda>(a, s, v). lit (a @ ''@'' @ s)) pins),
       need ''CodeQL action version comments mismatch'' (set (action_lines job) = set (map (\<lambda>(a, s, v). pin_line a s v) pins))]"

definition check_codeql_native :: "str \<Rightarrow> wf_exn + unit" where
  "check_codeql_native native =
     steps_of [need ''CodeQL native manual build mismatch'' (values_are ''        run: '' native [''pixi run build-native'']),
       need ''CodeQL native job lacks locked cached Pixi setup'' (holds native ''          locked: true'' \<and> holds native ''          cache: true''),
       on_block native ''      - name: Initialize CodeQL'' (\<lambda>b.
         need ''CodeQL native language mismatch'' (values_are ''          languages: '' b [''c-cpp''])),
       on_block native ''      - name: Analyze C and C++'' (\<lambda>b.
         need ''CodeQL native analysis category mismatch'' (values_are ''          category: '' b [''\"/language:c-cpp\"''])),
       rbind (index_of native ''      - name: Initialize CodeQL'') (\<lambda>init.
       rbind (index_of native ''      - name: Build native adapter'') (\<lambda>build.
       rbind (index_of native ''      - name: Analyze C and C++'') (\<lambda>analyze.
         need ''CodeQL native init/build/analyze order mismatch'' (init < build \<and> build < analyze))))]"

definition check_codeql_python :: "str \<Rightarrow> wf_exn + unit" where
  "check_codeql_python python =
     steps_of [need ''CodeQL Python job must not run shell commands'' (\<not> line_starting ''        run:'' python),
       on_block python ''      - name: Initialize CodeQL'' (\<lambda>b.
         need ''CodeQL Python language mismatch'' (values_are ''          languages: '' b [''python''])),
       on_block python ''      - name: Analyze Python'' (\<lambda>b.
         need ''CodeQL Python analysis category mismatch'' (values_are ''          category: '' b [''\"/language:python\"'']))]"

definition review_codeql :: "str \<Rightarrow> wf_exn + unit" where
  "review_codeql workflow =
     steps_of
      [need ''CodeQL workflow name mismatch'' (startswith workflow (lit ''name: CodeQL'' @ [10])),
       need ''CodeQL workflow must not contain continue-on-error'' (\<not> holds workflow ''continue-on-error:''),
       need ''CodeQL workflow must not use autobuild'' (\<not> holds (lower_text workflow) ''autobuild''),
       check_codeql_triggers workflow, check_codeql_permissions workflow,
       on_block workflow ''jobs:'' (\<lambda>b. need ''CodeQL job membership mismatch'' (keys_at b 2 [''c-cpp'', ''python''])),
       rbind (yaml_block workflow (lit ''  c-cpp:'')) (\<lambda>native.
       rbind (yaml_block workflow (lit ''  python:'')) (\<lambda>python.
         steps_of [check_codeql_job native ''C and C++'', check_codeql_job python ''Python'',
           check_codeql_pins native CODEQL_PINS, check_codeql_pins python [CODEQL_PINS ! 0, CODEQL_PINS ! 2, CODEQL_PINS ! 3],
           check_codeql_native native, check_codeql_python python]))]"

definition check_codeql_workflow :: "workflow_tree \<Rightarrow> wf_exn + unit" where
  "check_codeql_workflow t = rbind (read_source (wt_read t (lit ''codeql.yml''))) review_codeql"

section \<open>Documentation\<close>

definition check_docs_deploy :: "str \<Rightarrow> str \<Rightarrow> wf_exn + unit" where
  "check_docs_deploy workflow deploy =
     steps_of
      [need ''docs job permission override membership changed'' (line_count ''    permissions:'' workflow = 1),
       on_block deploy ''    permissions:'' (\<lambda>b. need ''docs deploy permission mismatch''
         (permission_grants b = map lit [''contents: read'', ''pages: write'', ''id-token: write''])),
       each (\<lambda>privilege. need ''docs publication permission escaped the deploy job''
         (count_of workflow privilege = 1 \<and> count_of deploy privilege = 1)) [''pages: write'', ''id-token: write''],
       need ''docs deploy condition mismatch'' (values_are ''    if: '' deploy
         [''github.event_name == '' @ [CHR 0x27] @ ''push'' @ [CHR 0x27] @ '' && github.ref == '' @ [CHR 0x27] @ ''refs/heads/main'' @ [CHR 0x27]]),
       need ''docs deploy job must wait for the build job'' (values_are ''    needs: '' deploy [''build'']),
       on_block deploy ''    environment:'' (\<lambda>b. need ''docs deploy job must use the github-pages environment''
         (keys_at b 6 [''name'', ''url''] \<and> holds deploy ''      name: github-pages''))]"

definition deploy_step :: re where
  "deploy_step = re_seq [Bol, re_spaces, re_lit ''uses: '', Grp 1 (Seq (re_lit ''actions/deploy-pages@'') (re_plus dot)), AtEnd]"

definition check_docs_steps :: "str \<Rightarrow> str \<Rightarrow> str \<Rightarrow> wf_exn + unit" where
  "check_docs_steps workflow build deploy =
     steps_of
      [need ''docs build entry mismatch'' (re_findall (spaced_line ''run: '') workflow = [lit ''pixi run docs-build'']
         \<and> re_findall (spaced_line ''run: '') build = [lit ''pixi run docs-build'']),
       need ''docs artifact path mismatch''
         (map (\<lambda>(_, inputs). map_of inputs (lit ''path'')) (action_step_inputs workflow ''actions/upload-pages-artifact'')
            = [Some (lit ''build/site'')]),
       need ''docs deploy step mismatch''
         (re_findall deploy_step deploy = [lit (''actions/deploy-pages@'' @ DEPLOY_PAGES_ACTION_SHA @ '' # v5.0.1'')]
          \<and> count_of workflow ''actions/deploy-pages@'' = 1),
       need ''docs deploy step mismatch: a step-level condition'' (\<not> line_starting ''        if:'' deploy)]"

definition review_docs :: "str \<Rightarrow> wf_exn + unit" where
  "review_docs workflow =
     steps_of
      [need ''docs workflow name mismatch'' (startswith workflow (lit ''name: Docs'' @ [10])),
       need ''docs workflow must not contain continue-on-error'' (\<not> holds workflow ''continue-on-error:''),
       on_block workflow ''on:'' (\<lambda>b. need ''docs trigger mismatch'' (keys_at b 2 [''pull_request'', ''push'', ''workflow_dispatch''])),
       on_block workflow ''  pull_request:'' (\<lambda>b. need ''docs trigger mismatch: pull_request must not be narrowed'' (strip b = [])),
       on_block workflow ''  push:'' (\<lambda>b. need ''docs trigger mismatch: push must target only main'' (strip b = lit ''branches: [main]'')),
       on_block workflow ''permissions:'' (\<lambda>b. need ''docs workflow permission mismatch'' (permission_grants b = [lit ''contents: read''])),
       on_block workflow ''jobs:'' (\<lambda>b. need ''docs job membership mismatch'' (keys_at b 2 [''build'', ''deploy''])),
       rbind (yaml_block workflow (lit ''  build:'')) (\<lambda>build.
       rbind (yaml_block workflow (lit ''  deploy:'')) (\<lambda>deploy.
         steps_of [check_docs_deploy workflow deploy, check_docs_steps workflow build deploy]))]"

definition check_docs_workflow :: "workflow_tree \<Rightarrow> wf_exn + unit" where
  "check_docs_workflow t = rbind (read_source (wt_read t (lit ''docs.yml''))) review_docs"

section \<open>Release and community\<close>

definition check_setup_pixi :: "str \<Rightarrow> wf_exn + unit" where
  "check_setup_pixi source =
     each (\<lambda>(_, inputs). need ''setup-pixi with run-install false cannot enable cache or locked''
         (map_of inputs (lit ''run-install'') = Some (lit ''false'') \<longrightarrow>
            map_of inputs (lit ''cache'') \<noteq> Some (lit ''true'') \<and> map_of inputs (lit ''locked'') \<noteq> Some (lit ''true'')))
       (action_step_inputs source ''prefix-dev/setup-pixi'')"

definition check_named_workflow :: "str \<times> string \<Rightarrow> wf_exn + unit" where
  "check_named_workflow sn = (case sn of (source, name) \<Rightarrow>
     steps_of [need ''workflow name mismatch'' (startswith source (lit name @ [10])),
       need ''must not contain continue-on-error'' (\<not> holds source ''continue-on-error:''), check_setup_pixi source])"

definition require_permissions :: "str \<Rightarrow> string \<Rightarrow> string list \<Rightarrow> wf_exn + unit" where
  "require_permissions source header expected =
     on_block source header (\<lambda>b. need ''permission mismatch''
       (filter (\<lambda>l. l \<noteq> []) (map strip (splitlines b)) = map lit expected))"

definition counts_are :: "str \<Rightarrow> (string \<times> nat) list \<Rightarrow> bool" where
  "counts_are source expected \<longleftrightarrow> list_all (\<lambda>(marker, n). count_of source marker = n) expected"

definition RELEASE_EVIDENCE :: "(string \<times> nat) list" where
  "RELEASE_EVIDENCE = [(''actions/workflows/ci.yml/runs?'', 2), (''.immutable == true'', 1),
     (''scripts.release.attestations candidate validate'', 2), (''scripts.release.github_release classify'', 2),
     (''repos/$GITHUB_REPOSITORY/branches/main'', 2)]"

definition review_release_job :: "str \<Rightarrow> wf_exn + unit" where
  "review_release_job release =
     rbind (steps_of [on_block release ''jobs:'' (\<lambda>b. need ''release job membership mismatch'' (keys_at b 2 [''validate'', ''release'']))]) (\<lambda>_.
     rbind (yaml_block release (lit ''  release:'')) (\<lambda>job.
     rbind (yaml_block release (lit ''  validate:'')) (\<lambda>validate.
       steps_of
        [need ''release job must use github-release environment'' (contains job (lit ''    environment: github-release'' @ [10])),
         need ''release validation must remain unprivileged'' (\<not> holds validate ''environment:'' \<and> \<not> holds validate ''contents: write''),
         need ''only protected release may receive contents write'' (contains job (lit ''      contents: write'' @ [10])),
         need ''protected release must not persist its write credential'' (count_of job ''          persist-credentials: false'' = 1),
         require_permissions job ''    permissions:'' [''contents: write'', ''actions: read''],
         need ''release contents write authority is not isolated'' (count_of release ''contents: write'' = 1),
         need ''release protected-environment sentinel mismatch''
           (counts_are job [(''vars.RELEASE_ENVIRONMENT_CONFIGURED'', 1), (''vars.RELEASE_IMMUTABILITY_CONFIGURED'', 1)]),
         need ''release evidence check count mismatch'' (counts_are release RELEASE_EVIDENCE),
         need ''candidate workflow identity is not revalidated exactly''
           (counts_are release [(''.workflow_id == $workflow_id'', 2), (''.path == \".github/workflows/community-publish.yml\"'', 2)]),
         need ''release must mutate tags only through the GitHub API''
           (list_all (\<lambda>command. \<not> holds release command) [''git push'', ''git tag'', ''git reset''])])))"

definition CREATED_FALSE_NOOP :: str where
  "CREATED_FALSE_NOOP = text_of_lines
     [lit ''if test \"$(jq -r .created \"$evidence\")\" = \"false\"; then'', lit ''              active=false'', lit ''            fi'']"

definition TRIGGER_IDENTITY :: "(string \<times> nat) list" where
  "TRIGGER_IDENTITY = [(''test \"$WORKFLOW_RUN_PATH\" = \".github/workflows/release.yml\"'', 1),
     (''gh api \"repos/$GITHUB_REPOSITORY/actions/workflows/release.yml\"'', 1),
     (''test \"$WORKFLOW_RUN_WORKFLOW_ID\" = \"$release_workflow_id\"'', 1),
     (''test \"$WORKFLOW_DEFINITION_SHA\" = \"$WORKFLOW_RUN_SHA\"'', 1)]"

definition COMMUNITY_MARKERS :: "string list" where
  "COMMUNITY_MARKERS =
     [''github.event.workflow_run.conclusion == '' @ [CHR 0x27] @ ''success'' @ [CHR 0x27],
      ''test \"$GITHUB_REF_NAME\" = \"$DEFAULT_BRANCH\"'', ''repos/$GITHUB_REPOSITORY/branches/main'',
      ''repos/modular/modular-community/commits/main'', ''pixi run lint'', ''pixi run build-all'', ''pulls/$pull_number'',
      ''api.github.com/repos/$FORK_OWNER/modular-community'', ''scripts.release.community fork'',
      ''scripts.release.recipe stage-target'', ''--target-platform linux-aarch64'', ''--force-with-lease='', ''if-no-files-found: error'']"

definition PREPARE_START :: str where
  "PREPARE_START = lit ''            if test \"$mode\" = \"prepare\"; then'' @ [10]"

definition PREPARE_END :: str where
  "PREPARE_END = text_of_lines [lit ''              test -n \"$tag\"'', lit ''            fi'']"

text \<open>
  \<open>str.find\<close> from a start that may be -1, which counts from the end: the last character.
\<close>

definition find_from :: "str \<Rightarrow> str \<Rightarrow> nat option \<Rightarrow> nat option" where
  "find_from pattern s start =
     (let k = (case start of Some i \<Rightarrow> i | None \<Rightarrow> length s - 1)
      in map_option (\<lambda>i. k + i) (sub_index pattern (drop k s)))"

definition ci_gate_isolated :: "str \<Rightarrow> bool" where
  "ci_gate_isolated community \<longleftrightarrow>
     (let start = sub_index PREPARE_START community; stop = find_from PREPARE_END community start
      in count_of community ''actions/workflows/ci.yml/runs?'' = 1
         \<and> (case (start, stop) of
              (Some a, Some b) \<Rightarrow> a \<le> b \<and> holds (take (b + length PREPARE_END - a) (drop a community)) ''actions/workflows/ci.yml/runs?''
            | _ \<Rightarrow> False))"

definition review_community :: "str \<Rightarrow> str \<Rightarrow> wf_exn + unit" where
  "review_community release_and_verify community =
     rbind (steps_of [on_block community ''jobs:'' (\<lambda>b. need ''community job membership mismatch''
         (keys_at b 2 [''resolve'', ''render'', ''validate'', ''validate-selector'', ''candidate-result'', ''prepare'']))]) (\<lambda>_.
     rbind (yaml_block community (lit ''  prepare:'')) (\<lambda>prepare.
       steps_of
        [need ''prepare job must use community-publish environment'' (contains prepare (lit ''    environment: community-publish'' @ [10])),
         need ''fork token reference escaped the prepare job''
           (count_of community ''secrets.COMMUNITY_FORK_TOKEN'' = count_of prepare ''secrets.COMMUNITY_FORK_TOKEN''),
         need ''community protected-environment sentinel is missing'' (holds prepare ''vars.COMMUNITY_ENVIRONMENT_CONFIGURED''),
         need ''created false release must be an explicit no-op'' (contains community CREATED_FALSE_NOOP),
         need ''triggering release workflow identity is not exact'' (counts_are community TRIGGER_IDENTITY),
         need ''manual prepare CI gate is not isolated from dry run'' (ci_gate_isolated community),
         each (\<lambda>marker. need ''community publication check missing'' (holds community marker)) COMMUNITY_MARKERS,
         need ''skip-existing output cannot prove package creation'' (\<not> holds community ''--skip-existing''),
         need ''release identity must come from dereferenced tags'' (\<not> holds release_and_verify ''target_commitish ==''),
         each (\<lambda>runner. need ''community supported-platform matrix lost a runner'' (count_of community (''runner: '' @ runner) = 1))
           [''ubuntu-24.04'', ''macos-26''],
         need ''manual prepare must require a stable release tag'' (holds community ''test -n \"$tag\"'')]))"

definition review_verification :: "str \<Rightarrow> wf_exn + unit" where
  "review_verification verify =
     steps_of
      [on_block verify ''jobs:'' (\<lambda>b. need ''community verification job mismatch'' (keys_at b 2 [''verify''])),
       need ''community verification must remain read-only''
         (\<not> (holds verify ''contents: write'' \<or> holds verify ''secrets.'' \<or> line_starting ''    environment:'' verify
             \<or> holds verify ''community-publish.yml'')),
       need ''community verification platform matrix mismatch'' (counts_are verify [(''runner: ubuntu-24.04'', 1), (''runner: macos-26'', 1)]),
       need ''community verification must call the public verifier'' (holds verify ''scripts.release.public_verify'')]"

definition review_release :: "str \<Rightarrow> str \<Rightarrow> str \<Rightarrow> wf_exn + unit" where
  "review_release release community verify =
     steps_of
      [each check_named_workflow [(release, ''name: Release''), (community, ''name: Community Publish''), (verify, ''name: Community Verify'')],
       require_permissions release ''permissions:'' [''contents: read'', ''actions: read''],
       require_permissions community ''permissions:'' [''contents: read'', ''actions: read''],
       require_permissions verify ''permissions:'' [''contents: read''],
       need ''release job permission override membership changed'' (line_count ''    permissions:'' release = 1),
       need ''read-only publication jobs must not override permissions'' (line_count ''    permissions:'' (community @ verify) = 0),
       review_release_job release, review_community (release @ community @ verify) community, review_verification verify]"

definition check_release_workflows :: "workflow_tree \<Rightarrow> wf_exn + unit" where
  "check_release_workflows t =
     rbind (read_source (wt_read t (lit ''release.yml''))) (\<lambda>release.
     rbind (read_source (wt_read t (lit ''community-publish.yml''))) (\<lambda>community.
     rbind (read_source (wt_read t (lit ''community-verify.yml''))) (review_release release community)))"

end
