(* ===== verification/Workflow_Canary.thy ===== *)
theory Workflow_Canary
  imports Workflow_Jobs
begin

text \<open>
  scripts/checks/workflow_security.py: the compatibility canary, the subset of YAML it must be written in and
  its review, and the command over all reviews.
\<close>

section \<open>The readable subset\<close>

text \<open>Groups: 1 the indentation, 2 the dash of a sequence entry, 3 the key, 4 the value.\<close>

definition CANARY_CANONICAL_NODE_RE :: re where
  "CANARY_CANONICAL_NODE_RE = re_seq [Bol, Grp 1 (re_star (Chr (\<lambda>c. c = 32))), re_opt (Grp 2 (re_lit ''- '')),
     Grp 3 (re_plus (Chr key_char)), re_lit '':'', Grp 4 (re_opt (Seq (re_lit '' '') (re_star dot))), AtEnd]"

definition CANARY_SEQUENCE_ENTRY_KEYS :: "str list" where
  "CANARY_SEQUENCE_ENTRY_KEYS = [lit ''cron'', lit ''name'']"

definition CANARY_BLOCK_MAPPING_KEYS :: "str list" where
  "CANARY_BLOCK_MAPPING_KEYS = map lit
     [''concurrency'', ''env'', ''environment'', ''inputs'', ''jobs'', ''matrix'', ''on'', ''outputs'', ''permissions'', ''schedule'',
      ''secrets'', ''steps'', ''strategy'', ''with'', ''workflow_dispatch'']"

definition CANARY_BLOCK_SCALAR_RE :: re where
  "CANARY_BLOCK_SCALAR_RE = re_seq [Chr (\<lambda>c. c = 124 \<or> c = 62), re_opt (Chr (\<lambda>c. c = 43 \<or> c = 45)), re_star (Chr is_ascii_digit)]"

definition flow_char :: "int \<Rightarrow> bool" where
  "flow_char c \<longleftrightarrow> key_char c \<or> c = 46 \<or> c = 32 \<or> c = 44 \<or> quote_char c"

definition CANARY_FLOW_SEQUENCE_RE :: re where
  "CANARY_FLOW_SEQUENCE_RE = re_seq [re_lit ''['', re_star (Chr flow_char), re_lit '']'']"

definition canonical_node :: "re_match \<Rightarrow> wf_exn + unit" where
  "canonical_node m =
     (let key = group_text m 3; value = strip (group_text m 4)
      in steps_of
          [need ''is indented an odd number of columns'' (even (length (group_text m 1))),
           need ''opens a sequence entry with another key'' (group_text m 2 \<noteq> [] \<longrightarrow> key \<in> set CANARY_SEQUENCE_ENTRY_KEYS),
           need ''gives a block key an inline value'' (key \<in> set CANARY_BLOCK_MAPPING_KEYS \<longrightarrow> value = []),
           need ''opens its value with a flow mapping, an anchor, an alias or a tag''
             (value = [] \<or> hd value \<notin> {123, 38, 42, 63, 33}),
           need ''moves its value into a block scalar'' (re_fullmatch CANARY_BLOCK_SCALAR_RE value = None),
           need ''writes an inline collection of anything but scalars''
             (startswith value (lit ''['') \<longrightarrow> re_fullmatch CANARY_FLOW_SEQUENCE_RE value \<noteq> None)])"

definition canonical_line :: "str \<Rightarrow> wf_exn + unit" where
  "canonical_line line =
     (if 9 \<in> set line then Inl (WfAssertion ''indents with a tab'')
      else if line \<noteq> rstrip_of is_space line then Inl (WfAssertion ''carries trailing whitespace'')
      else if line = [] \<or> startswith (lspace line) (lit ''#'') then Inr ()
      else case re_fullmatch CANARY_CANONICAL_NODE_RE line of
             None \<Rightarrow> Inl (WfAssertion ''is neither blank, a comment, nor a key and a value'')
           | Some m \<Rightarrow> canonical_node m)"

definition require_canonical_canary :: "str \<Rightarrow> wf_exn + unit" where
  "require_canonical_canary workflow = each canonical_line (splitlines workflow)"

section \<open>The review of the canary\<close>

definition SECRET_REFERENCE :: "(int \<Rightarrow> bool) \<Rightarrow> re" where
  "SECRET_REFERENCE word = re_seq [re_boundary word, re_lit ''secrets'', spaces, re_alt [re_lit ''.'', re_lit ''['']]"

definition SUBSTITUTION :: re where
  "SUBSTITUTION = re_seq [Bol, spaces, optional_dash,
     re_alt [re_lit ''defaults'', re_lit ''container'', re_lit ''services'', re_lit ''shell'', re_lit ''working-directory''], re_lit '':'']"

definition q1 :: string where "q1 = [CHR 0x27]"

definition CANARY_DISPATCH :: str where
  "CANARY_DISPATCH = text_of_lines
     [lit ''    inputs:'', lit ''      channel:'', lit ''        description: \"stable or nightly\"'', lit ''        default: \"stable\"'',
      lit ''        type: choice'', lit ''        options: [stable, nightly]'']"

definition check_canary_head :: "(int \<Rightarrow> bool) \<Rightarrow> str \<Rightarrow> wf_exn + unit" where
  "check_canary_head word workflow =
     steps_of
      [require_canonical_canary workflow,
       need ''compat canary workflow name mismatch'' (startswith workflow (lit ''name: Compat Canary'' @ [10])),
       need ''compat canary must not contain continue-on-error'' (\<not> holds workflow ''continue-on-error:''),
       need ''compat canary credential mismatch: a secret'' (\<not> re_search (SECRET_REFERENCE word) workflow),
       need ''compat canary execution mismatch'' (\<not> re_search SUBSTITUTION workflow),
       on_block workflow ''on:'' (\<lambda>b. need ''compat canary trigger mismatch'' (keys_at b 2 [''schedule'', ''workflow_dispatch''])),
       on_block workflow ''  schedule:'' (\<lambda>b. need ''compat canary trigger mismatch: schedule'' (strip b = lit ''- cron: \"41 1 * * 1-5\"'')),
       on_block workflow ''  workflow_dispatch:'' (\<lambda>b. need ''compat canary dispatch input mismatch'' (rstrip_of is_space b = CANARY_DISPATCH)),
       on_block workflow ''permissions:'' (\<lambda>b. need ''compat canary workflow permission mismatch'' (permission_grants b = [lit ''contents: read''])),
       on_block workflow ''concurrency:'' (\<lambda>b. need ''compat canary concurrency mismatch''
         (block_entries b = map lit [''group: compat-canary'', ''cancel-in-progress: false''])),
       on_block workflow ''jobs:'' (\<lambda>b. need ''compat canary job membership mismatch''
         (keys_at b 2 [''probe'', ''notify'']
          \<and> filter (re_matches (re_seq [Bol, re_lit ''  '', Chr (\<lambda>c. \<not> is_space c)])) (splitlines b) = map lit [''  probe:'', ''  notify:'']))]"

definition check_canary_identity :: "(int \<Rightarrow> bool) \<Rightarrow> str \<Rightarrow> str \<Rightarrow> str \<Rightarrow> wf_exn + unit" where
  "check_canary_identity word workflow probe notify =
     steps_of
      [need ''compat canary credential mismatch'' (length (re_find_all (CREDENTIAL_REFERENCE_RE word) workflow) = 1
         \<and> \<not> re_search (CREDENTIAL_REFERENCE_RE word) probe),
       steps_of [need ''display mismatch'' (values_are ''    name: '' probe [''\"Probe / ${{ matrix.lane }}\"'']),
         need ''runner mismatch'' (values_are ''    runs-on: '' probe [''ubuntu-24.04''])],
       steps_of [need ''display mismatch'' (values_are ''    name: '' notify [''Notify'']),
         need ''runner mismatch'' (values_are ''    runs-on: '' notify [''ubuntu-24.04''])],
       need ''probe timeout mismatch'' (values_are ''    timeout-minutes: '' probe [''60'']),
       need ''notify timeout mismatch'' (values_are ''    timeout-minutes: '' notify [''20'']),
       need ''compat canary notifier must wait for the probe''
         (values_of ''    needs: '' probe = [] \<and> values_are ''    needs: '' notify [''probe'']),
       need ''compat canary probe job condition mismatch'' (values_of ''    if: '' probe = []),
       need ''compat canary notifier condition mismatch'' (values_are ''    if: '' notify [''always()'']),
       need ''compat canary job permission mismatch'' (line_count ''    permissions:'' workflow = 2),
       on_block probe ''    permissions:'' (\<lambda>b. need ''probe permission mismatch'' (permission_grants b = [lit ''contents: read''])),
       on_block notify ''    permissions:'' (\<lambda>b. need ''notify permission mismatch''
         (permission_grants b = map lit [''contents: read'', ''issues: write''])),
       need ''compat canary permission mismatch: issue-write authority escaped the notifier job''
         (length (filter (\<lambda>l. strip l = lit ''issues: write'') (splitlines workflow)) = 1 \<and> count_of notify ''      issues: write'' = 1),
       need ''compat canary checkout mismatch''
         (count_of workflow ''          persist-credentials: false'' = 2 \<and> count_of probe ''          persist-credentials: false'' = 1
          \<and> count_of notify ''          persist-credentials: false'' = 1)]"

definition CANARY_STEPS :: "string list \<times> string list" where
  "CANARY_STEPS = ([''Check out sources'', ''Set up Pixi'', ''Probe the candidate toolchain'', ''Upload the classification''],
     [''Check out sources'', ''Download the stable lane'' @ q1 @ ''s classification'',
      ''Download the nightly lane'' @ q1 @ ''s classification'', ''Upsert the pinned issues''])"

definition CANARY_PIN_LINES :: "str list \<times> str list" where
  "CANARY_PIN_LINES =
     ([pin_line ''actions/checkout'' CHECKOUT_ACTION_SHA ''v7.0.1'', pin_line ''prefix-dev/setup-pixi'' SETUP_PIXI_ACTION_SHA ''v0.10.2'',
       pin_line ''actions/upload-artifact'' UPLOAD_ARTIFACT_ACTION_SHA ''v7.0.1''],
      [pin_line ''actions/checkout'' CHECKOUT_ACTION_SHA ''v7.0.1'', pin_line ''actions/download-artifact'' DOWNLOAD_ARTIFACT_ACTION_SHA ''v8.0.1'',
       pin_line ''actions/download-artifact'' DOWNLOAD_ARTIFACT_ACTION_SHA ''v8.0.1''])"

definition CANARY_PIXI_VERSION :: string where "CANARY_PIXI_VERSION = ''v0.72.0''"

definition CANARY_STEP_INPUTS :: "(string \<times> string list list) list" where
  "CANARY_STEP_INPUTS =
     [(''actions/checkout'', [[''persist-credentials: false''], [''persist-credentials: false'']]),
      (''prefix-dev/setup-pixi'', [[''pixi-version: '' @ CANARY_PIXI_VERSION, ''run-install: false'']]),
      (''actions/upload-artifact'', [[''name: canary-result-${{ matrix.lane }}'', ''path: build/canary/'']])]"

definition CANARY_STRATEGY :: "string list" where
  "CANARY_STRATEGY = [''fail-fast: false'', ''matrix:'',
     ''lane: ${{ fromJSON(github.event_name == '' @ q1 @ ''workflow_dispatch'' @ q1 @ '' && format('' @ q1 @ ''[\"{0}\"]'' @ q1
       @ '', inputs.channel) || '' @ q1 @ ''[\"stable\",\"nightly\"]'' @ q1 @ '') }}'']"

definition check_canary_steps :: "str \<Rightarrow> str \<Rightarrow> str \<Rightarrow> wf_exn + unit" where
  "check_canary_steps workflow probe notify =
     steps_of
      [need ''probe step sequence mismatch'' (values_are ''      - name: '' probe (fst CANARY_STEPS)),
       need ''notify step sequence mismatch'' (values_are ''      - name: '' notify (snd CANARY_STEPS)),
       need ''probe action pin mismatch'' (action_lines probe = fst CANARY_PIN_LINES),
       need ''notify action pin mismatch'' (action_lines notify = snd CANARY_PIN_LINES),
       need ''compat canary setup-pixi mismatch''
         (map (\<lambda>(_, inputs). (length inputs, map_of inputs (lit ''pixi-version''), map_of inputs (lit ''run-install'')))
            (action_step_inputs workflow ''prefix-dev/setup-pixi'')
          = [(2, Some (lit CANARY_PIXI_VERSION), Some (lit ''false''))]),
       each (\<lambda>(action, expected). need ''compat canary step input mismatch''
         (action_step_with_entries workflow action = map (map lit) expected)) CANARY_STEP_INPUTS,
       on_block probe ''    strategy:'' (\<lambda>b. need ''compat canary lane matrix mismatch''
         (block_entries b = map lit CANARY_STRATEGY \<and> \<not> holds notify ''    strategy:''))]"

definition run_expression :: re where
  "run_expression = re_seq [Bol, re_spaces, re_lit ''run: '', re_star dot, re_lit ''${{'']"

definition PROBE_RUN :: string where "PROBE_RUN = ''python3 -m scripts.canary.run --lane \"$CANARY_LANE\"''"

definition NOTIFY_RUN :: string where
  "NOTIFY_RUN = ''python3 -m scripts.canary.notify --results build/canary-results/ --lanes \"$CANARY_LANES\"''"

definition PROBE_ENV :: "string list" where "PROBE_ENV = [''CANARY_LANE: ${{ matrix.lane }}'']"

definition NOTIFY_ENV :: "string list" where
  "NOTIFY_ENV = [''GH_TOKEN: ${{ github.token }}'',
     ''CANARY_LANES: ${{ github.event_name == '' @ q1 @ ''workflow_dispatch'' @ q1 @ '' && inputs.channel || '' @ q1 @ ''stable nightly'' @ q1 @ '' }}'']"

definition check_canary_run :: "str \<Rightarrow> string \<Rightarrow> string list \<Rightarrow> wf_exn + unit" where
  "check_canary_run job command bindings =
     steps_of [need ''run command mismatch'' (values_are ''        run: '' job [command]),
       need ''environment mismatch'' (env_bindings job = map lit bindings)]"

definition check_canary_runs :: "str \<Rightarrow> str \<Rightarrow> str \<Rightarrow> wf_exn + unit" where
  "check_canary_runs workflow probe notify =
     steps_of
      [need ''compat canary expression mismatch'' (\<not> holds workflow ''                run:'' \<and> \<not> re_search run_expression workflow),
       check_canary_run probe PROBE_RUN PROBE_ENV,
       each (\<lambda>forbidden. need ''compat canary notifier mismatch'' (\<not> holds (lower_text notify) forbidden))
         [''setup-pixi'', ''pixi'', ''mojo'', ''scripts.canary.run''],
       check_canary_run notify NOTIFY_RUN NOTIFY_ENV,
       need ''compat canary environment mismatch'' (env_bindings workflow = map lit (PROBE_ENV @ NOTIFY_ENV)),
       on_block probe ''      - name: Upload the classification'' (\<lambda>upload. need ''compat canary upload condition mismatch''
         (values_are ''        if: '' probe [''always()''] \<and> holds upload ''        if: always()''))]"

definition always_conditioned :: "str \<Rightarrow> string \<Rightarrow> wf_exn + bool" where
  "always_conditioned notify step =
     rbind (yaml_block notify (lit (''      - name: '' @ step))) (\<lambda>b. Inr (lit ''        if: always()'' \<in> set (splitlines b)))"

definition CANARY_DOWNLOADS :: "string list list" where
  "CANARY_DOWNLOADS = map (\<lambda>lane. [''pattern: canary-result-'' @ lane,
     ''path: build/canary-results/canary-result-'' @ lane @ ''/'', ''merge-multiple: true'']) [''stable'', ''nightly'']"

definition check_canary_reports :: "str \<Rightarrow> str \<Rightarrow> str \<Rightarrow> wf_exn + unit" where
  "check_canary_reports workflow probe notify =
     steps_of
      [rbind (rmap (always_conditioned notify) (tl (snd CANARY_STEPS))) (\<lambda>conditioned.
         need ''compat canary notifier step condition mismatch''
           (values_are ''        if: '' notify [''always()'', ''always()'', ''always()''] \<and> list_all (\<lambda>c. c) conditioned)),
       need ''compat canary artifact mismatch''
         (holds probe ''          name: canary-result-${{ matrix.lane }}'' \<and> holds probe ''          path: build/canary/''),
       need ''compat canary download layout mismatch''
         (action_step_with_entries notify ''actions/download-artifact'' = map (map lit) CANARY_DOWNLOADS),
       need ''compat canary credential mismatch: the run token belongs to the notifier''
         (count_of workflow ''${{ github.token }}'' = 1 \<and> count_of notify ''${{ github.token }}'' = 1)]"

definition CANARY_WORKFLOW_KEYS :: "string list" where
  "CANARY_WORKFLOW_KEYS = [''name'', ''on'', ''permissions'', ''concurrency'', ''jobs'']"

definition CANARY_JOB_KEYS :: "string list \<times> string list" where
  "CANARY_JOB_KEYS = ([''name'', ''runs-on'', ''timeout-minutes'', ''permissions'', ''strategy'', ''steps''],
     [''name'', ''runs-on'', ''needs'', ''if'', ''timeout-minutes'', ''permissions'', ''steps''])"

definition CANARY_STEP_KEYS :: "string list list \<times> string list list" where
  "CANARY_STEP_KEYS =
     ([[''name'', ''uses'', ''with''], [''name'', ''uses'', ''with''], [''name'', ''env'', ''run''], [''name'', ''if'', ''uses'', ''with'']],
      [[''name'', ''uses'', ''with''], [''name'', ''if'', ''uses'', ''with''], [''name'', ''if'', ''uses'', ''with''], [''name'', ''if'', ''env'', ''run'']])"

definition reviewed_keys :: "str list \<Rightarrow> string list \<Rightarrow> wf_exn + unit" where
  "reviewed_keys actual reviewed = need ''carries unreviewed keys'' (set actual \<subseteq> set (map lit reviewed))"

definition step_scopes :: "str list list \<Rightarrow> string list list \<Rightarrow> (str list \<times> string list) list" where
  "step_scopes steps reviewed = map (\<lambda>(i, step). (step, if i < length reviewed then reviewed ! i else [])) (enumerate 0 steps)"

definition top_level_key :: re where "top_level_key = re_seq [Bol, key_group, re_lit '':'']"

definition check_canary_keys :: "str \<Rightarrow> str \<Rightarrow> str \<Rightarrow> wf_exn + unit" where
  "check_canary_keys workflow probe notify =
     rbind (canary_step_keys probe) (\<lambda>probe_steps.
     rbind (canary_step_keys notify) (\<lambda>notify_steps.
       each (\<lambda>(actual, reviewed). reviewed_keys actual reviewed)
         ([(List.map_filter (match1 top_level_key) (splitlines workflow), CANARY_WORKFLOW_KEYS),
           (yaml_mapping_keys probe 4, fst CANARY_JOB_KEYS)] @ step_scopes probe_steps (fst CANARY_STEP_KEYS)
          @ [(yaml_mapping_keys notify 4, snd CANARY_JOB_KEYS)] @ step_scopes notify_steps (snd CANARY_STEP_KEYS))))"

definition review_canary :: "(int \<Rightarrow> bool) \<Rightarrow> str \<Rightarrow> wf_exn + unit" where
  "review_canary word workflow =
     rbind (check_canary_head word workflow) (\<lambda>_.
     rbind (yaml_block workflow (lit ''  probe:'')) (\<lambda>probe.
     rbind (yaml_block workflow (lit ''  notify:'')) (\<lambda>notify.
       steps_of
        [check_canary_identity word workflow probe notify, check_canary_steps workflow probe notify,
         check_canary_runs workflow probe notify, check_canary_reports workflow probe notify,
         check_canary_keys workflow probe notify])))"

definition check_compat_canary_workflow :: "(int \<Rightarrow> bool) \<Rightarrow> workflow_tree \<Rightarrow> wf_exn + unit" where
  "check_compat_canary_workflow word t = rbind (read_source (wt_read t (lit ''compat-canary.yml''))) (review_canary word)"

section \<open>The command\<close>

definition workflow_reviews :: "(int \<Rightarrow> bool) \<Rightarrow> workflow_tree \<Rightarrow> wf_exn + unit" where
  "workflow_reviews word t =
     steps_of
      [check_workflow_inventory t, check_action_pins t, check_codeql_workflow t, check_compat_canary_workflow word t,
       check_docs_workflow t, check_published_action word t, check_release_workflows t]"

text \<open>\<open>None\<close> is an exception \<open>main\<close> does not catch.\<close>

definition workflow_security_main :: "(int \<Rightarrow> bool) \<Rightarrow> workflow_tree \<Rightarrow> int option" where
  "workflow_security_main word t =
     (case workflow_reviews word t of Inr _ \<Rightarrow> Some 0 | Inl WfEscapes \<Rightarrow> None | Inl _ \<Rightarrow> Some 1)"

section \<open>What the subset guarantees\<close>

text \<open>
  A line with one key as YAML and the patterns both read it: an unquoted key against its colon, after spaces
  and at most the dash of an entry, whose value starts no collection, anchor, alias, tag or block scalar.
\<close>

definition readable_line :: "str \<Rightarrow> bool" where
  "readable_line line \<longleftrightarrow>
     (\<exists>indent dash key value. line = replicate indent 32 @ dash @ key @ [58] @ value \<and> even indent
        \<and> (dash = [] \<or> dash = lit ''- '' \<and> key \<in> set CANARY_SEQUENCE_ENTRY_KEYS)
        \<and> key \<noteq> [] \<and> list_all key_char key \<and> (value = [] \<or> hd value = 32)
        \<and> (key \<in> set CANARY_BLOCK_MAPPING_KEYS \<longrightarrow> strip value = [])
        \<and> (strip value = [] \<or> hd (strip value) \<notin> {123, 38, 42, 63, 33})
        \<and> re_fullmatch CANARY_BLOCK_SCALAR_RE (strip value) = None)"

lemma seq_opt: "x \<in> leads_to (Seq (re_opt r) rest) st \<Longrightarrow> x \<in> leads_to (Seq r rest) st \<or> x \<in> leads_to rest st"
  by (auto simp: re_opt_def)

lemma value_consumes: "\<exists>L. consumes (re_opt (Seq (re_lit '' '') (re_star dot))) L \<and> L \<subseteq> {v. v = [] \<or> hd v = 32}"
proof -
  have "consumes (re_opt (Seq (re_lit '' '') (re_star dot)))
      ({u @ v | u v. u \<in> {lit '' ''} \<and> v \<in> {u. list_all (\<lambda>c. c \<noteq> 10) u}} \<union> {[]})"
    unfolding re_opt_def by (rule consumes_Alt [OF consumes_Seq [OF consumes_lit consumes_star_Chr] consumes_Eps])
  moreover have "{u @ v | u v. u \<in> {lit '' ''} \<and> v \<in> {u. list_all (\<lambda>c. c \<noteq> 10) u}} \<union> {[]} \<subseteq> {v :: str. v = [] \<or> hd v = 32}"
    by auto
  ultimately show ?thesis by blast
qed

lemma node_parts:
  assumes "x \<in> leads_to CANARY_CANONICAL_NODE_RE \<lparr> st_prev = None, st_rest = line, st_caps = [] \<rparr>" "st_rest x = []"
  shows "\<exists>w dash key value. line = w @ dash @ key @ [58] @ value \<and> list_all (\<lambda>c. c = 32) w
    \<and> (dash = [] \<or> dash = lit ''- '') \<and> key \<noteq> [] \<and> list_all key_char key \<and> (value = [] \<or> hd value = 32)
    \<and> group_text (st_caps x) 1 = w \<and> group_text (st_caps x) 2 = dash \<and> group_text (st_caps x) 3 = key
    \<and> group_text (st_caps x) 4 = value"
proof -
  obtain L where L: "consumes (re_opt (Seq (re_lit '' '') (re_star dot))) L" "L \<subseteq> {v. v = [] \<or> hd v = 32}"
    using value_consumes by blast
  let ?r5 = "Seq (Grp 4 (re_opt (Seq (re_lit '' '') (re_star dot)))) AtEnd" let ?r4 = "Seq (re_lit '':'') ?r5"
  let ?r3 = "Seq (Grp 3 (re_plus (Chr key_char))) ?r4" let ?r2 = "Seq (re_opt (Grp 2 (re_lit ''- ''))) ?r3"
  let ?st = "\<lparr> st_prev = None, st_rest = line, st_caps = [] \<rparr> :: re_state"
  have 0: "x \<in> leads_to (Seq (Grp 1 (re_star (Chr (\<lambda>c. c = 32)))) ?r2) ?st"
    using assms(1) by (simp only: CANARY_CANONICAL_NODE_RE_def re_seq.simps) (rule leads_to_Bol_seq)
  obtain w s1 where 1: "list_all (\<lambda>c. c = 32) w" "line = w @ st_rest s1" "st_caps s1 = dict_set 1 w []" "x \<in> leads_to ?r2 s1"
    by (rule seq_catches [OF 0 consumes_star_Chr], rule that) (simp_all del: leads_to.simps)
  obtain dash s2 where 2: "st_rest s1 = dash @ st_rest s2" "dash = [] \<or> dash = lit ''- ''" "group_text (st_caps s2) 1 = w"
      "group_text (st_caps s2) 2 = dash" "x \<in> leads_to ?r3 s2"
  proof (cases "x \<in> leads_to ?r3 s1")
    case True
    then show thesis using that [of "[]" s1] 1(3) by (simp add: group_text_def)
  next
    case False
    then have d: "x \<in> leads_to (Seq (Grp 2 (re_lit ''- '')) ?r3) s1" using seq_opt [OF 1(4)] by blast
    obtain s2 where "st_rest s1 = lit ''- '' @ st_rest s2" "st_caps s2 = dict_set 2 (lit ''- '') (st_caps s1)" "x \<in> leads_to ?r3 s2"
      by (rule seq_catches [OF d consumes_lit], rule that) (simp_all del: leads_to.simps)
    then show thesis using that [of "lit ''- ''" s2] 1(3) by (simp add: group_text_def del: leads_to.simps)
  qed
  obtain key s3 where 3: "key \<noteq> []" "list_all key_char key" "st_rest s2 = key @ st_rest s3" "st_caps s3 = dict_set 3 key (st_caps s2)"
      "x \<in> leads_to ?r4 s3"
    by (rule seq_catches [OF 2(5) consumes_plus_Chr], rule that) (simp_all del: leads_to.simps)
  obtain s4 where 4: "st_rest s3 = lit '':'' @ st_rest s4" "st_caps s4 = st_caps s3" "x \<in> leads_to ?r5 s4"
    by (rule seq_eats [OF 3(5) consumes_lit], rule that) (simp_all del: leads_to.simps)
  obtain v s5 where 5: "v \<in> L" "st_rest s4 = v @ st_rest s5" "st_caps s5 = dict_set 4 v (st_caps s4)" "x \<in> leads_to AtEnd s5"
    by (rule seq_catches [OF 4(3) L(1)], rule that) (simp_all del: leads_to.simps)
  have end_of_line: "x = s5" using 5(4) by simp
  have "line = w @ dash @ key @ [58] @ v"
    using assms(2) unfolding end_of_line by (simp add: 1(2) 2(1) 3(3) 4(1) 5(2))
  moreover have "group_text (st_caps x) 1 = w" "group_text (st_caps x) 2 = dash" "group_text (st_caps x) 3 = key"
      "group_text (st_caps x) 4 = v"
    using 2(3,4) by (simp_all add: end_of_line 5(3) 4(2) 3(4) group_text_def AList.update_conv')
  moreover have "v = [] \<or> hd v = 32" using 5(1) L(2) by blast
  ultimately show ?thesis using 1(1) 2(2) 3(1,2) by blast
qed

lemma canonical_readable:
  assumes "canonical_line line = Inr ()" "line \<noteq> []" "\<not> startswith (lspace line) (lit ''#'')"
  shows "readable_line line"
proof -
  obtain m where m: "re_fullmatch CANARY_CANONICAL_NODE_RE line = Some m" "canonical_node m = Inr ()"
    using assms by (auto simp: canonical_line_def split: if_splits option.splits)
  obtain x where x: "x \<in> leads_to CANARY_CANONICAL_NODE_RE \<lparr> st_prev = None, st_rest = line, st_caps = [] \<rparr>"
      "st_rest x = []" "st_caps x = m"
    using re_fullmatch_Some [OF m(1)] by blast
  obtain w dash key v where p: "line = w @ dash @ key @ [58] @ v" "list_all (\<lambda>c. c = 32) w" "dash = [] \<or> dash = lit ''- ''"
      "key \<noteq> []" "list_all key_char key" "v = [] \<or> hd v = 32"
      "group_text m 1 = w" "group_text m 2 = dash" "group_text m 3 = key" "group_text m 4 = v"
    using node_parts [OF x(1,2)] x(3) by blast
  have w: "w = replicate (length w) 32" using p(2) by (induction w) auto
  have n: "even (length w)" "dash \<noteq> [] \<longrightarrow> key \<in> set CANARY_SEQUENCE_ENTRY_KEYS"
      "key \<in> set CANARY_BLOCK_MAPPING_KEYS \<longrightarrow> strip v = []" "strip v = [] \<or> hd (strip v) \<notin> {123, 38, 42, 63, 33}"
      "re_fullmatch CANARY_BLOCK_SCALAR_RE (strip v) = None"
    using m(2) unfolding canonical_node_def Let_def steps_of_Inr p(7-10) by (simp_all del: insert_iff)
  show ?thesis
    unfolding readable_line_def
    by (rule exI [of _ "length w"], rule exI [of _ dash], rule exI [of _ key], rule exI [of _ v])
      (use p(1,3,4,5,6) n w in auto)
qed


definition sample_canary :: str where
  "sample_canary = lines_of [lit ''jobs:'', lit ''  notify:'', lit ''    steps:'', lit ''      # one step'', lit ''      - name: Upsert'',
     lit ''        run: python3 -m scripts.canary.notify'']"

lemma sample_canonical: "require_canonical_canary sample_canary = Inr ()"
  by code_simp


text \<open>The spellings the other reviews do not see are refused here.\<close>

lemma quoted_keys_refused:
  "canonical_line (lit ''      \"run\": ./fetched.sh'') = Inl (WfAssertion ''is neither blank, a comment, nor a key and a value'')"
  "canonical_line (lit ''        env: {BASH_ENV: ./hook.sh}'') = Inl (WfAssertion ''gives a block key an inline value'')"
  by code_simp+

end
