(* ===== verification/Docs_Parity.thy ===== *)
theory Docs_Parity
  imports Version_Check Canary_Readings
begin

text \<open>
  scripts/checks/docs_parity.py: every command and output a page of the site repeats from the README is
  held to its source.  The repository is a map from paths to bytes; the answers of \<open>is_file\<close> and of
  \<open>git ls-files\<close>, and the word characters of \<open>\\b\<close>, are arguments.
\<close>

section \<open>The pages\<close>

definition README_PATH :: path where "README_PATH = relative [''README.md'']"
definition MKDOCS_PATH :: path where "MKDOCS_PATH = relative [''mkdocs.yml'']"
definition DOCS_DIR :: str where "DOCS_DIR = lit ''docs''"

definition SITE_PAGES :: "path list" where
  "SITE_PAGES = map relative [[''docs'', ''index.md''], [''docs'', ''install.md''], [''docs'', ''getting-started.md'']]"

definition REFERENCE_PAGES :: "path list" where
  "REFERENCE_PAGES = map (\<lambda>name. relative [''docs'', name])
     [''cli-contract.md'', ''json-stream.md'', ''collect-stream.md'', ''compatibility.md'', ''releasing.md'',
      ''overview.md'', ''usage.md'', ''ci.md'', ''reports.md'', ''assertions.md'', ''build-cache.md'',
      ''completions.md'', ''cli-reference.md'', ''architecture.md'']"

definition CANARY_CLASSIFICATION_PAGE :: path where
  "CANARY_CLASSIFICATION_PAGE = relative [''docs'', ''compatibility.md'']"

abbreviation outcome_names :: "str list" where
  "outcome_names \<equiv> map classification_name CLASSIFICATIONS"

definition NUMBER_WORDS :: "(nat \<times> str) list" where
  "NUMBER_WORDS = [(6, lit ''six''), (7, lit ''seven''), (8, lit ''eight''), (9, lit ''nine''), (10, lit ''ten'')]"

definition EXCLUDED_DOC_DIRECTORIES :: "str list" where
  "EXCLUDED_DOC_DIRECTORIES = [lit ''plans/'', lit ''superpowers/'']"

definition NEGATION_PREFIX :: str where "NEGATION_PREFIX = lit ''!''"
definition INDENTED_CODE_INDENT :: nat where "INDENTED_CODE_INDENT = 4"
definition CONTAINER_BODY_INDENT :: nat where "CONTAINER_BODY_INDENT = 4"

definition CONTAINER_OPENERS :: "str list" where
  "CONTAINER_OPENERS = map lit [''!!!'', ''???'', ''=== \"'', ''==- '', ''==+ '']"

section \<open>The patterns\<close>

definition upper_or_underscore :: "int \<Rightarrow> bool" where
  "upper_or_underscore c \<longleftrightarrow> (65 \<le> c \<and> c \<le> 90) \<or> c = 95"

text \<open>\<open>(?m)^### `([A-Z_]+)`$\<close>\<close>

definition CANARY_CLASSIFICATION_HEADING_RE :: re where
  "CANARY_CLASSIFICATION_HEADING_RE = re_seq
     [Bol, re_lit ''### `'', Grp 1 (re_plus (Chr upper_or_underscore)), re_lit ''`'', AtEnd]"

text \<open>\<open>(?m)^\\| `([A-Z_]+)` \\|\<close>\<close>

definition CANARY_CLASSIFICATION_ROW_RE :: re where
  "CANARY_CLASSIFICATION_ROW_RE = re_seq
     [Bol, re_lit ''| `'', Grp 1 (re_plus (Chr upper_or_underscore)), re_lit ''` |'']"

text \<open>\<open>ends in exactly one of ([a-z]+) classifications\\.\<close>\<close>

definition CANARY_CLASSIFICATION_COUNT_RE :: re where
  "CANARY_CLASSIFICATION_COUNT_RE = re_seq
     [re_lit ''ends in exactly one of '', Grp 1 (re_plus (Chr (\<lambda>c. 97 \<le> c \<and> c \<le> 122))),
      re_lit '' classifications.'']"

definition not_newline :: "int \<Rightarrow> bool" where "not_newline c \<longleftrightarrow> c \<noteq> 10"

text \<open>\<open>^(?P<indent>[ \\t]*)(?P<fence>`{3,}|~{3,})(?P<info>.*)$\<close>\<close>

definition at_least_three :: "int \<Rightarrow> re" where
  "at_least_three c = re_seq [Chr ((=) c), Chr ((=) c), Chr ((=) c), re_star (Chr ((=) c))]"

definition FENCE_RE :: re where
  "FENCE_RE = re_seq
     [Grp 1 (re_star (Chr (\<lambda>c. c = 32 \<or> c = 9))), Grp 2 (Alt (at_least_three 96) (at_least_three 126)),
      Grp 3 (re_star (Chr not_newline)), AtEnd]"

text \<open>\<open>^\\s*(?:[-*+]|\\d+[.)])\\s\<close>\<close>

definition LIST_MARKER_RE :: re where
  "LIST_MARKER_RE = re_seq
     [re_star (Chr is_space),
      Alt (Chr (\<lambda>c. c = 45 \<or> c = 42 \<or> c = 43)) (Seq re_digits (Chr (\<lambda>c. c = 46 \<or> c = 41))), Chr is_space]"

text \<open>\<open>(?i)<\\s*(?:pre|code|textarea)\\b\<close>; none of the letters has a third case.\<close>

definition re_ignoring_case :: "string \<Rightarrow> re" where
  "re_ignoring_case s = re_seq (map (\<lambda>c. Chr (\<lambda>x. x = c \<or> x = c - 32)) (lit s))"

definition RAW_HTML_CODE_RE :: "(int \<Rightarrow> bool) \<Rightarrow> re" where
  "RAW_HTML_CODE_RE word = re_seq
     [re_lit ''<'', re_star (Chr is_space),
      re_alt [re_ignoring_case ''pre'', re_ignoring_case ''code'', re_ignoring_case ''textarea''], re_boundary word]"

text \<open>\<open>^## (?P<heading>.+?)\\s*$\<close>\<close>

definition H2_RE :: re where
  "H2_RE = re_seq
     [re_lit ''## '', Grp 1 (Seq (Chr not_newline) (re_lazy (Chr not_newline))), re_star (Chr is_space), AtEnd]"

text \<open>\<open>(?P<page>[A-Za-z0-9_./-]+\\.md)\\s*$\<close>\<close>

definition NAV_PAGE_RE :: re where
  "NAV_PAGE_RE = re_seq
     [Grp 1 (Seq (re_plus (Chr (\<lambda>c. is_ascii_alnum c \<or> c \<in> {95, 46, 47, 45}))) (re_lit ''.md'')),
      re_star (Chr is_space), AtEnd]"

section \<open>Blocks\<close>

record fence_span =
  fc_open :: nat
  fc_close :: nat
  fc_info :: str
  fc_indent :: str

record fenced_block =
  fb_info :: str
  fb_body :: str
  fb_line :: nat

record parity_block =
  pb_page :: path
  pb_page_index :: nat
  pb_section :: str
  pb_readme_index :: nat

definition ParityBlock :: "string list \<Rightarrow> nat \<Rightarrow> string \<Rightarrow> nat \<Rightarrow> parity_block" where
  "ParityBlock page i heading k =
     \<lparr> pb_page = relative page, pb_page_index = i, pb_section = lit heading, pb_readme_index = k \<rparr>"

definition PARITY_BLOCKS :: "parity_block list" where
  "PARITY_BLOCKS =
     [ParityBlock [''docs'', ''index.md''] 0 ''Quick start'' 0,
      ParityBlock [''docs'', ''install.md''] 0 ''Quick start'' 0,
      ParityBlock [''docs'', ''getting-started.md''] 0 ''Quick start'' 1,
      ParityBlock [''docs'', ''getting-started.md''] 2 ''Quick start'' 2]"

definition OWNED_BLOCKS :: "(path \<times> nat) list" where
  "OWNED_BLOCKS = map (Pair (relative [''docs'', ''getting-started.md''])) [1, 3, 4]"

text \<open>How a copied block first differs from its source.\<close>

datatype difference =
    InfoDiffers str str
  | BodyDiffers nat "str option" "str option"
  | LineEndingsDiffer

text \<open>The \<open>AssertionError\<close>s, and the two exceptions nothing catches.\<close>

datatype docs_fault =
    DocsUnreadable path
  | DocsNotUtf8 path
  | DocsNotListed
  | FenceNeverClosed str nat
  | SectionCount str str nat
  | NotASitePage path
  | DeclaredTwice path nat
  | SitePageMissing path
  | MirrorsNothing path
  | NotTheLeadingRun path "nat list"
  | PageHoldsOnly path nat nat
  | ReadmeHoldsOnly str nat path nat nat
  | DocumentationDrift parity_block nat nat difference
  | OwnedHoldsOnly path nat nat
  | OwnedCopiesReadme path nat
  | UndeclaredBlocks path "(nat \<times> nat) list"
  | IndentedCode path "nat list"
  | RawHtmlCode path "nat list"
  | UndeclaredPages "str list"
  | UntrackedPages "str list"
  | PublishedPages "str list"
  | WrongDocsDir "str option"
  | WrongSiteDir str
  | NoLongerExcluded "str list"
  | ReIncluded "str list"
  | NavUndeclared "str list"
  | NavAbsent "str list"
  | HeadingMismatch "str list" "str list"
  | TableMismatch "str list" "str list"
  | CountMismatch str "str option"
  | UncaughtDecodeError path
  | UncaughtKeyError nat

section \<open>Fences\<close>

text \<open>\<open>splitlines(keepends=True)\<close>\<close>

fun keep_lines_acc :: "str \<Rightarrow> str \<Rightarrow> str list" where
  "keep_lines_acc cur [] = (if cur = [] then [] else [rev cur])"
| "keep_lines_acc cur (x # xs) =
     (if is_linebreak x
      then (if x = 13 \<and> xs \<noteq> [] \<and> hd xs = 10 then (rev cur @ [13, 10]) # keep_lines_acc [] (tl xs)
            else (rev cur @ [x]) # keep_lines_acc [] xs)
      else keep_lines_acc (x # cur) xs)"

definition keep_lines :: "str \<Rightarrow> str list" where
  "keep_lines s = keep_lines_acc [] s"

definition without_eol :: "str \<Rightarrow> str" where
  "without_eol = rstrip_of (\<lambda>c. c = 13 \<or> c = 10)"

definition fence_line :: "str \<Rightarrow> re_match option" where
  "fence_line raw = map_option st_caps (re_match_at FENCE_RE None (without_eol raw))"

definition closes_fence :: "re_match \<Rightarrow> re_match \<Rightarrow> bool" where
  "closes_fence opening m \<longleftrightarrow>
     (let marker = group_text opening 2; mark = group_text m 2
      in hd mark = hd marker \<and> length marker \<le> length mark \<and> strip (group_text m 3) = [])"

definition make_fence :: "nat \<Rightarrow> nat \<Rightarrow> re_match \<Rightarrow> fence_span" where
  "make_fence opened shut opening =
     \<lparr> fc_open = opened, fc_close = shut, fc_info = strip (group_text opening 3), fc_indent = group_text opening 1 \<rparr>"

text \<open>The lines from number \<open>n\<close> on, with the fence that is open, if any.\<close>

fun scan_from :: "str \<Rightarrow> (nat \<times> re_match) option \<Rightarrow> nat \<Rightarrow> str list \<Rightarrow> docs_fault + fence_span list" where
  "scan_from label opening n [] =
     (case opening of None \<Rightarrow> Inr [] | Some (opened, _) \<Rightarrow> Inl (FenceNeverClosed label (Suc opened)))"
| "scan_from label opening n (raw # rest) =
     (case fence_line raw of
        None \<Rightarrow> scan_from label opening (Suc n) rest
      | Some m \<Rightarrow>
          (case opening of
             None \<Rightarrow> scan_from label (Some (n, m)) (Suc n) rest
           | Some (opened, marker) \<Rightarrow>
               if closes_fence marker m
               then rbind (scan_from label None (Suc n) rest) (\<lambda>fs. Inr (make_fence opened n marker # fs))
               else scan_from label opening (Suc n) rest))"

definition scan_doc_fences :: "str list \<Rightarrow> str \<Rightarrow> docs_fault + fence_span list" where
  "scan_doc_fences lines label = scan_from label None 0 lines"

definition remove_prefix :: "str \<Rightarrow> str \<Rightarrow> str" where
  "remove_prefix p s = (if startswith s p then drop (length p) s else s)"

definition block_of :: "str list \<Rightarrow> nat \<Rightarrow> fence_span \<Rightarrow> fenced_block" where
  "block_of lines first_line f =
     \<lparr> fb_info = fc_info f,
       fb_body = concat (map (remove_prefix (fc_indent f)) (drop (Suc (fc_open f)) (take (fc_close f) lines))),
       fb_line = first_line + fc_open f \<rparr>"

definition fenced_blocks :: "str \<Rightarrow> str \<Rightarrow> nat \<Rightarrow> docs_fault + fenced_block list" where
  "fenced_blocks text_of label first_line =
     (let lines = keep_lines text_of
      in rbind (scan_doc_fences lines label) (\<lambda>fs. Inr (map (block_of lines first_line) fs)))"

definition inside_fences :: "fence_span list \<Rightarrow> nat \<Rightarrow> bool" where
  "inside_fences fs i \<longleftrightarrow> list_ex (\<lambda>f. fc_open f \<le> i \<and> i \<le> fc_close f) fs"

section \<open>Code without a fence\<close>

definition leading_spaces :: "str \<Rightarrow> nat" where
  "leading_spaces s = length (takeWhile ((=) 32) s)"

definition body_indent :: "str \<Rightarrow> nat \<Rightarrow> nat" where
  "body_indent line current =
     (case re_match_at LIST_MARKER_RE None line of
        Some st \<Rightarrow> length line - length (st_rest st)
      | None \<Rightarrow>
          let indent = leading_spaces line
          in if list_ex (startswith (strip line)) CONTAINER_OPENERS then indent + CONTAINER_BODY_INDENT
             else min current indent)"

definition opener_indent :: "fence_span list \<Rightarrow> nat \<Rightarrow> nat option" where
  "opener_indent fs i = map_of (rev (map (\<lambda>f. (fc_open f, length (fc_indent f))) fs)) i"

fun indented_from :: "fence_span list \<Rightarrow> bool \<Rightarrow> nat \<Rightarrow> nat \<Rightarrow> str list \<Rightarrow> nat list" where
  "indented_from fs previous_blank body i [] = []"
| "indented_from fs previous_blank body i (raw # rest) =
     (let stripped = without_eol raw
      in if inside_fences fs i
         then indented_from fs False (case opener_indent fs i of None \<Rightarrow> body | Some k \<Rightarrow> min body k) (Suc i) rest
         else if strip stripped = [] then indented_from fs True body (Suc i) rest
         else (if previous_blank \<and> body + INDENTED_CODE_INDENT \<le> leading_spaces stripped then [Suc i] else [])
              @ indented_from fs False (body_indent stripped body) (Suc i) rest)"

definition indented_code_lines :: "str \<Rightarrow> str \<Rightarrow> docs_fault + nat list" where
  "indented_code_lines text_of label =
     (let lines = keep_lines text_of
      in rbind (scan_doc_fences lines label) (\<lambda>fs. Inr (indented_from fs True 0 0 lines)))"

definition raw_html_code_lines :: "(int \<Rightarrow> bool) \<Rightarrow> str \<Rightarrow> str \<Rightarrow> docs_fault + nat list" where
  "raw_html_code_lines word text_of label =
     (let lines = keep_lines text_of
      in rbind (scan_doc_fences lines label) (\<lambda>fs.
           Inr (List.map_filter (\<lambda>(i, raw). if \<not> inside_fences fs i \<and> re_search (RAW_HTML_CODE_RE word) raw
                                   then Some (Suc i) else None) (enumerate 0 lines))))"

section \<open>The sections of the README\<close>

definition heading_of :: "str \<Rightarrow> str option" where
  "heading_of raw = map_option (\<lambda>st. group_text (st_caps st) 1) (re_match_at H2_RE None (without_eol raw))"

text \<open>The headings outside every fence, by line.\<close>

definition headings :: "fence_span list \<Rightarrow> str list \<Rightarrow> (nat \<times> str) list" where
  "headings fs lines =
     List.map_filter (\<lambda>(i, raw). if inside_fences fs i then None else map_option (Pair i) (heading_of raw))
       (enumerate 0 lines)"

definition readme_section_blocks :: "str \<Rightarrow> str \<Rightarrow> str \<Rightarrow> docs_fault + fenced_block list" where
  "readme_section_blocks readme heading label =
     (let lines = keep_lines readme
      in rbind (scan_doc_fences lines label) (\<lambda>fs.
           let bounds = headings fs lines;
               starts = map fst (filter (\<lambda>(_, h). h = heading) bounds)
           in case starts of
                [start] \<Rightarrow>
                  let following = filter (\<lambda>i. start < i) (map fst bounds);
                      stop = (case following of [] \<Rightarrow> length lines | i # _ \<Rightarrow> i)
                  in fenced_blocks (concat (drop start (take stop lines)))
                       (label @ lit '' `## '' @ heading @ lit ''`'') (Suc start)
              | _ \<Rightarrow> Inl (SectionCount label heading (length starts))))"

section \<open>The checks\<close>

record docs_tree =
  dt_files :: files
  dt_is_file :: "path \<Rightarrow> bool"
  dt_tracked :: inventory

definition read_docs :: "docs_tree \<Rightarrow> path \<Rightarrow> docs_fault + str" where
  "read_docs t p =
     (case dt_files t p of
        None \<Rightarrow> Inl (DocsUnreadable p)
      | Some b \<Rightarrow> (case read_utf8 b of None \<Rightarrow> Inl (DocsNotUtf8 p) | Some s \<Rightarrow> Inr s))"

fun first_line_difference :: "nat \<Rightarrow> str list \<Rightarrow> str list \<Rightarrow> difference" where
  "first_line_difference n [] [] = LineEndingsDiffer"
| "first_line_difference n (x # xs) [] = BodyDiffers n (Some x) None"
| "first_line_difference n [] (y # ys) = BodyDiffers n None (Some y)"
| "first_line_difference n (x # xs) (y # ys) =
     (if x = y then first_line_difference (Suc n) xs ys else BodyDiffers n (Some x) (Some y))"

definition first_difference :: "fenced_block \<Rightarrow> fenced_block \<Rightarrow> difference" where
  "first_difference copy origin =
     (if fb_info copy \<noteq> fb_info origin then InfoDiffers (fb_info copy) (fb_info origin)
      else first_line_difference 1 (splitlines (fb_body copy)) (splitlines (fb_body origin)))"

text \<open>\<open>declared.setdefault(page, set())\<close> over the two declaration lists.\<close>

fun declare_blocks :: "(path, nat list) dict \<Rightarrow> (path \<times> nat) list \<Rightarrow> docs_fault + (path, nat list) dict" where
  "declare_blocks d [] = Inr d"
| "declare_blocks d ((page, i) # rest) =
     (if page \<notin> set SITE_PAGES then Inl (NotASitePage page)
      else let indices = (case map_of d page of None \<Rightarrow> [] | Some ks \<Rightarrow> ks)
           in if i \<in> set indices then Inl (DeclaredTwice page i)
              else declare_blocks (dict_set page (indices @ [i]) d) rest)"

definition declared_entries :: "(path \<times> nat) list" where
  "declared_entries = map (\<lambda>b. (pb_page b, pb_page_index b)) PARITY_BLOCKS @ OWNED_BLOCKS"

definition check_declared_page :: "docs_tree \<Rightarrow> (path, nat list) dict \<Rightarrow> path \<Rightarrow> docs_fault + unit" where
  "check_declared_page t declared page =
     (if \<not> dt_is_file t page then Inl (SitePageMissing page)
      else let indices = (case map_of declared page of None \<Rightarrow> [] | Some ks \<Rightarrow> ks)
           in if page \<notin> pb_page ` set PARITY_BLOCKS then Inl (MirrorsNothing page)
              else if sort indices \<noteq> [0..<length indices] then Inl (NotTheLeadingRun page (sort indices))
              else Inr ())"

definition check_declarations :: "docs_tree \<Rightarrow> docs_fault + unit" where
  "check_declarations t =
     rbind (declare_blocks [] declared_entries) (\<lambda>declared. for_each (check_declared_page t declared) SITE_PAGES)"

definition page_blocks :: "docs_tree \<Rightarrow> path \<Rightarrow> docs_fault + fenced_block list" where
  "page_blocks t page = rbind (read_docs t page) (\<lambda>s. fenced_blocks s (path_text page) 1)"

definition check_parity_block :: "docs_tree \<Rightarrow> str \<Rightarrow> parity_block \<Rightarrow> docs_fault + unit" where
  "check_parity_block t readme b =
     rbind (page_blocks t (pb_page b)) (\<lambda>mirrored.
       if length mirrored \<le> pb_page_index b then Inl (PageHoldsOnly (pb_page b) (pb_page_index b) (length mirrored))
       else rbind (readme_section_blocks readme (pb_section b) (path_text README_PATH)) (\<lambda>source.
         if length source \<le> pb_readme_index b
         then Inl (ReadmeHoldsOnly (pb_section b) (length source) (pb_page b) (pb_page_index b) (pb_readme_index b))
         else let copy = mirrored ! pb_page_index b; origin = source ! pb_readme_index b
              in if (fb_info copy, fb_body copy) \<noteq> (fb_info origin, fb_body origin)
                 then Inl (DocumentationDrift b (fb_line copy) (fb_line origin) (first_difference copy origin))
                 else Inr ()))"

definition check_parity_blocks :: "docs_tree \<Rightarrow> docs_fault + unit" where
  "check_parity_blocks t =
     rbind (read_docs t README_PATH) (\<lambda>readme. for_each (check_parity_block t readme) PARITY_BLOCKS)"

definition check_owned_block :: "path \<Rightarrow> fenced_block list \<Rightarrow> str list \<Rightarrow> path \<times> nat \<Rightarrow> docs_fault + unit" where
  "check_owned_block page blocks bodies owned =
     (if fst owned \<noteq> page then Inr ()
      else if length blocks \<le> snd owned then Inl (OwnedHoldsOnly page (snd owned) (length blocks))
      else if fb_body (blocks ! snd owned) \<in> set bodies then Inl (OwnedCopiesReadme page (snd owned))
      else Inr ())"

definition undeclared_blocks :: "path \<Rightarrow> fenced_block list \<Rightarrow> (nat \<times> nat) list" where
  "undeclared_blocks page blocks =
     List.map_filter (\<lambda>(i, b). if (page, i) \<in> set declared_entries then None else Some (fb_line b, i))
       (enumerate 0 blocks)"

definition check_site_page :: "(int \<Rightarrow> bool) \<Rightarrow> docs_tree \<Rightarrow> str list \<Rightarrow> path \<Rightarrow> docs_fault + unit" where
  "check_site_page word t bodies page =
     rbind (read_docs t page) (\<lambda>s.
     rbind (fenced_blocks s (path_text page) 1) (\<lambda>blocks.
     rbind (for_each (check_owned_block page blocks bodies) OWNED_BLOCKS) (\<lambda>_.
       if undeclared_blocks page blocks \<noteq> [] then Inl (UndeclaredBlocks page (undeclared_blocks page blocks))
       else rbind (indented_code_lines s (path_text page)) (\<lambda>indented.
         if indented \<noteq> [] then Inl (IndentedCode page indented)
         else rbind (raw_html_code_lines word s (path_text page)) (\<lambda>raw.
           if raw \<noteq> [] then Inl (RawHtmlCode page raw) else Inr ())))))"

definition check_site_blocks_are_all_declared :: "(int \<Rightarrow> bool) \<Rightarrow> docs_tree \<Rightarrow> docs_fault + unit" where
  "check_site_blocks_are_all_declared word t =
     rbind (page_blocks t README_PATH) (\<lambda>blocks. for_each (check_site_page word t (map fb_body blocks)) SITE_PAGES)"

text \<open>The files below \<open>docs/\<close> the site could publish.\<close>

definition docs_page :: "path \<Rightarrow> bool" where
  "docs_page p \<longleftrightarrow> markdown p \<and> take 1 p = [DOCS_DIR]"

definition kept_private :: "path \<Rightarrow> bool" where
  "kept_private p \<longleftrightarrow> list_ex (\<lambda>d. startswith (path_text p) (DOCS_DIR @ lit ''/'' @ d)) EXCLUDED_DOC_DIRECTORIES"

definition sorted_names :: "path list \<Rightarrow> str list" where
  "sorted_names ps = sort (map path_text (remdups ps))"

definition check_no_undeclared_pages :: "docs_tree \<Rightarrow> docs_fault + unit" where
  "check_no_undeclared_pages t =
     (case dt_tracked t of
        None \<Rightarrow> Inl DocsNotListed
      | Some names \<Rightarrow>
          let declared = SITE_PAGES @ REFERENCE_PAGES;
              tracked = filter docs_page names;
              top_level = filter (\<lambda>p. length p = 2) tracked;
              undeclared = filter (\<lambda>p. p \<notin> set declared) top_level;
              missing = filter (\<lambda>p. p \<notin> set top_level) declared;
              published = filter (\<lambda>p. p \<notin> set top_level \<and> \<not> kept_private p) tracked
          in if undeclared \<noteq> [] then Inl (UndeclaredPages (sorted_names undeclared))
             else if missing \<noteq> [] then Inl (UntrackedPages (sorted_names missing))
             else if published \<noteq> [] then Inl (PublishedPages (sorted_names published))
             else Inr ())"

section \<open>The site configuration\<close>

record site_config =
  si_scalars :: "(str, str) dict"
  si_excluded :: "str list"
  si_nav :: "str list"

text \<open>\<open>stripped.partition(":")\<close>\<close>

definition partition_colon :: "str \<Rightarrow> str \<times> str" where
  "partition_colon s = (takeWhile (\<lambda>c. c \<noteq> 58) s, drop 1 (dropWhile (\<lambda>c. c \<noteq> 58) s))"

definition nav_page :: "str \<Rightarrow> str option" where
  "nav_page s = (case re_find_iter NAV_PAGE_RE s of [] \<Rightarrow> None | (_, _, m) # _ \<Rightarrow> Some (group_text m 1))"

definition config_line :: "str \<Rightarrow> str \<times> site_config \<Rightarrow> str \<times> site_config" where
  "config_line raw st =
     (let stripped = strip raw; (section_name, config) = st
      in if stripped = [] \<or> startswith stripped (lit ''#'') then st
         else if \<not> is_space (hd raw)
         then let (key, rest) = partition_colon stripped; value = strip rest
              in (key, if value \<noteq> [] \<and> value \<noteq> lit ''|'' then config \<lparr> si_scalars := dict_set key value (si_scalars config) \<rparr>
                       else config)
         else if section_name = lit ''exclude_docs''
         then (section_name, config \<lparr> si_excluded := si_excluded config @ [stripped] \<rparr>)
         else if section_name = lit ''nav''
         then (section_name, case nav_page stripped of None \<Rightarrow> config | Some p \<Rightarrow> config \<lparr> si_nav := si_nav config @ [p] \<rparr>)
         else st)"

definition site_configuration :: "docs_tree \<Rightarrow> docs_fault + site_config" where
  "site_configuration t =
     rbind (read_docs t MKDOCS_PATH) (\<lambda>s.
       Inr (snd (fold config_line (splitlines s) ([], \<lparr> si_scalars = [], si_excluded = [], si_nav = [] \<rparr>))))"

definition page_names :: "path list \<Rightarrow> str list" where "page_names = map last"

definition check_site_configuration :: "docs_tree \<Rightarrow> docs_fault + unit" where
  "check_site_configuration t =
     rbind (site_configuration t) (\<lambda>c.
       let docs_dir = map_of (si_scalars c) (lit ''docs_dir'');
           site_dir = (case map_of (si_scalars c) (lit ''site_dir'') of None \<Rightarrow> [] | Some d \<Rightarrow> d);
           missing = filter (\<lambda>d. d \<notin> set (si_excluded c)) EXCLUDED_DOC_DIRECTORIES;
           re_included = filter (\<lambda>d. startswith d NEGATION_PREFIX) (si_excluded c);
           unknown = filter (\<lambda>p. p \<notin> set (page_names (SITE_PAGES @ REFERENCE_PAGES))) (si_nav c);
           absent = filter (\<lambda>p. p \<notin> set (si_nav c)) (page_names SITE_PAGES)
       in if docs_dir \<noteq> Some DOCS_DIR then Inl (WrongDocsDir docs_dir)
          else if \<not> startswith site_dir (lit ''build/'') then Inl (WrongSiteDir site_dir)
          else if missing \<noteq> [] then Inl (NoLongerExcluded missing)
          else if re_included \<noteq> [] then Inl (ReIncluded re_included)
          else if unknown \<noteq> [] then Inl (NavUndeclared unknown)
          else if absent \<noteq> [] then Inl (NavAbsent absent)
          else Inr ())"

section \<open>The canary's classifications\<close>

definition names_differ :: "str list \<Rightarrow> str list \<Rightarrow> (str list \<times> str list) option" where
  "names_differ found produced =
     (let lacking = sort (remdups (filter (\<lambda>n. n \<notin> set found) produced));
          surplus = sort (remdups (filter (\<lambda>n. n \<notin> set produced) found))
      in if lacking = [] \<and> surplus = [] then None else Some (lacking, surplus))"

definition counted_word :: "str \<Rightarrow> str option" where
  "counted_word page =
     (case re_find_iter CANARY_CLASSIFICATION_COUNT_RE page of [] \<Rightarrow> None | (_, _, m) # _ \<Rightarrow> Some (group_text m 1))"

definition check_canary_classifications :: "docs_tree \<Rightarrow> docs_fault + unit" where
  "check_canary_classifications t =
     (case dt_files t CANARY_CLASSIFICATION_PAGE of
        None \<Rightarrow> Inl (DocsUnreadable CANARY_CLASSIFICATION_PAGE)
      | Some b \<Rightarrow>
          (case read_utf8 b of
             None \<Rightarrow> Inl (UncaughtDecodeError CANARY_CLASSIFICATION_PAGE)
           | Some page \<Rightarrow>
               (case names_differ (re_findall CANARY_CLASSIFICATION_HEADING_RE page) outcome_names of
                  Some (a, b) \<Rightarrow> Inl (HeadingMismatch a b)
                | None \<Rightarrow>
                    (case names_differ (re_findall CANARY_CLASSIFICATION_ROW_RE page) outcome_names of
                       Some (a, b) \<Rightarrow> Inl (TableMismatch a b)
                     | None \<Rightarrow>
                         (case map_of NUMBER_WORDS (length (remdups outcome_names)) of
                            None \<Rightarrow> Inl (UncaughtKeyError (length (remdups outcome_names)))
                          | Some expected \<Rightarrow>
                              if counted_word page \<noteq> Some expected
                              then Inl (CountMismatch expected (counted_word page)) else Inr ())))))"

text \<open>The checks in the order of \<open>main\<close>; \<open>None\<close> is an exception that ends the command.\<close>

definition docs_parity_checks :: "(int \<Rightarrow> bool) \<Rightarrow> docs_tree \<Rightarrow> docs_fault + unit" where
  "docs_parity_checks word t =
     rbind (check_declarations t) (\<lambda>_. rbind (check_parity_blocks t) (\<lambda>_.
     rbind (check_site_blocks_are_all_declared word t) (\<lambda>_. rbind (check_no_undeclared_pages t) (\<lambda>_.
     rbind (check_site_configuration t) (\<lambda>_. check_canary_classifications t)))))"

definition docs_parity_main :: "(int \<Rightarrow> bool) \<Rightarrow> docs_tree \<Rightarrow> int option" where
  "docs_parity_main word t =
     (case docs_parity_checks word t of
        Inr _ \<Rightarrow> Some 0
      | Inl (UncaughtDecodeError _) \<Rightarrow> None
      | Inl (UncaughtKeyError _) \<Rightarrow> None
      | Inl _ \<Rightarrow> Some 1)"


section \<open>The grammar of fences\<close>

text \<open>
  A page is prose lines, which are no fence lines, and blocks: a fence line, lines that do not close it, and
  the first line that does.  The lines are counted from the first argument.
\<close>

inductive fenced :: "nat \<Rightarrow> str list \<Rightarrow> fence_span list \<Rightarrow> bool" where
  ended: "fenced n [] []"
| prose: "fence_line l = None \<Longrightarrow> fenced (Suc n) ls fs \<Longrightarrow> fenced n (l # ls) fs"
| block: "fence_line l = Some m \<Longrightarrow> \<forall>b\<in>set body. \<forall>k. fence_line b = Some k \<longrightarrow> \<not> closes_fence m k
    \<Longrightarrow> fence_line c = Some k \<Longrightarrow> closes_fence m k \<Longrightarrow> fenced (Suc (Suc (n + length body))) ls fs
    \<Longrightarrow> fenced n (l # body @ c # ls) (make_fence n (Suc (n + length body)) m # fs)"

inductive_cases fenced_nilE: "fenced n [] fs"
inductive_cases fenced_consE: "fenced n (l # ls) fs"

definition stays_open :: "re_match \<Rightarrow> str list \<Rightarrow> bool" where
  "stays_open m ls \<longleftrightarrow> (\<forall>b\<in>set ls. \<forall>k. fence_line b = Some k \<longrightarrow> \<not> closes_fence m k)"

lemma scan_open:
  "stays_open m body \<Longrightarrow>
   scan_from label (Some (opened, m)) n (body @ rest) = scan_from label (Some (opened, m)) (n + length body) rest"
  by (induction body arbitrary: n) (auto simp: stays_open_def split: option.splits)

lemma open_or_shut:
  "stays_open m ls \<or> (\<exists>body c k rest. ls = body @ c # rest \<and> stays_open m body \<and> fence_line c = Some k \<and> closes_fence m k)"
proof (induction ls)
  case (Cons l ls)
  show ?case
  proof (cases "\<exists>k. fence_line l = Some k \<and> closes_fence m k")
    case True
    then have "\<exists>k. l # ls = [] @ l # ls \<and> stays_open m [] \<and> fence_line l = Some k \<and> closes_fence m k"
      by (simp add: stays_open_def)
    then show ?thesis by blast
  next
    case False
    then have l: "stays_open m (l # xs) \<longleftrightarrow> stays_open m xs" for xs by (auto simp: stays_open_def)
    from Cons show ?thesis
    proof
      assume "\<exists>body c k rest. ls = body @ c # rest \<and> stays_open m body \<and> fence_line c = Some k \<and> closes_fence m k"
      then obtain body c k rest where "l # ls = (l # body) @ c # rest" "stays_open m (l # body)"
        "fence_line c = Some k" "closes_fence m k" using l by auto
      then show ?thesis by blast
    qed (simp add: l)
  qed
qed (simp add: stays_open_def)

lemma scan_shut:
  assumes "stays_open m body" "fence_line c = Some k" "closes_fence m k"
  shows "scan_from label (Some (opened, m)) n (body @ c # rest) =
    rbind (scan_from label None (Suc (n + length body)) rest) (\<lambda>fs. Inr (make_fence opened (n + length body) m # fs))"
  using assms(2,3) by (simp add: scan_open [OF assms(1)])

lemma fenced_scans: "fenced n ls fs \<Longrightarrow> scan_from label None n ls = Inr fs"
proof (induction rule: fenced.induct)
  case (block l m body c k n ls fs)
  then show ?case by (simp add: scan_shut [of m body c k] stays_open_def)
qed simp_all

lemma scan_fenced: "scan_from label None n ls = Inr fs \<Longrightarrow> fenced n ls fs"
proof (induction "length ls" arbitrary: n ls fs rule: less_induct)
  case less
  show ?case
  proof (cases ls)
    case Nil
    then show ?thesis using less.prems by (auto intro: ended)
  next
    case (Cons l rest)
    show ?thesis
    proof (cases "fence_line l")
      case None
      then show ?thesis using less Cons by (auto intro: prose)
    next
      case (Some m)
      then have scanned: "scan_from label (Some (n, m)) (Suc n) rest = Inr fs" using less.prems Cons by simp
      then have "\<not> stays_open m rest" using scan_open [of m rest label n "Suc n" "[]"] by auto
      then obtain body c k tail where r: "rest = body @ c # tail" "stays_open m body" "fence_line c = Some k" "closes_fence m k"
        using open_or_shut by blast
      then obtain fs' where "scan_from label None (Suc (Suc (n + length body))) tail = Inr fs'"
          "fs = make_fence n (Suc (n + length body)) m # fs'"
        using scanned by (auto simp: scan_shut rbind_Inr)
      moreover have "length tail < length ls" using Cons r(1) by simp
      ultimately show ?thesis using less.hyps Cons Some r by (auto intro!: block simp: stays_open_def)
    qed
  qed
qed

text \<open>
  The scan reads the grammar of fences: the scan of a page succeeds exactly when the page is prose and
  blocks, each closed by the first line that can close it, and then gives exactly these blocks.
\<close>

theorem scan_reads_fences: "scan_doc_fences lines label = Inr fs \<longleftrightarrow> fenced 0 lines fs"
  unfolding scan_doc_fences_def using fenced_scans scan_fenced by blast


section \<open>What a passing run guarantees\<close>

lemma main_passes: "docs_parity_main word t = Some 0 \<longleftrightarrow> docs_parity_checks word t = Inr ()"
  by (auto simp: docs_parity_main_def split: sum.splits docs_fault.splits)

lemma checks_pass:
  "docs_parity_checks word t = Inr () \<longleftrightarrow>
     check_declarations t = Inr () \<and> check_parity_blocks t = Inr () \<and> check_site_blocks_are_all_declared word t = Inr ()
     \<and> check_no_undeclared_pages t = Inr () \<and> check_site_configuration t = Inr () \<and> check_canary_classifications t = Inr ()"
  by (auto simp: docs_parity_checks_def rbind_Inr)

text \<open>The block a declaration names is the block of the README it names, text and info string.\<close>

definition mirrors :: "docs_tree \<Rightarrow> parity_block \<Rightarrow> fenced_block \<Rightarrow> bool" where
  "mirrors t b copy \<longleftrightarrow> (\<exists>readme source. read_docs t README_PATH = Inr readme
     \<and> readme_section_blocks readme (pb_section b) (path_text README_PATH) = Inr source
     \<and> pb_readme_index b < length source
     \<and> fb_info copy = fb_info (source ! pb_readme_index b) \<and> fb_body copy = fb_body (source ! pb_readme_index b))"

lemma parity_block_passes:
  "check_parity_block t readme b = Inr () \<longleftrightarrow>
     (\<exists>mirrored source. page_blocks t (pb_page b) = Inr mirrored \<and> pb_page_index b < length mirrored
        \<and> readme_section_blocks readme (pb_section b) (path_text README_PATH) = Inr source
        \<and> pb_readme_index b < length source
        \<and> fb_info (mirrored ! pb_page_index b) = fb_info (source ! pb_readme_index b)
        \<and> fb_body (mirrored ! pb_page_index b) = fb_body (source ! pb_readme_index b))"
  by (auto simp: check_parity_block_def rbind_Inr Let_def not_le)

lemma declared_mirrors:
  assumes "check_parity_blocks t = Inr ()" "b \<in> set PARITY_BLOCKS" "page_blocks t (pb_page b) = Inr blocks"
  shows "mirrors t b (blocks ! pb_page_index b)"
  using assms by (auto simp: check_parity_blocks_def rbind_Inr for_each_Inr parity_block_passes mirrors_def)

lemma undeclared_none:
  "undeclared_blocks page blocks = [] \<longleftrightarrow> (\<forall>i<length blocks. (page, i) \<in> set declared_entries)"
proof -
  have "undeclared_blocks page blocks = [] \<longleftrightarrow> set (undeclared_blocks page blocks) = {}" by simp
  also have "\<dots> \<longleftrightarrow> (\<forall>i<length blocks. (page, i) \<in> set declared_entries)"
  proof
    assume none: "set (undeclared_blocks page blocks) = {}"
    show "\<forall>i<length blocks. (page, i) \<in> set declared_entries"
    proof (intro allI impI)
      fix i
      assume "i < length blocks"
      then have "(i, blocks ! i) \<in> set (enumerate 0 blocks)" by (simp add: in_set_enumerate_eq)
      then have "(page, i) \<notin> set declared_entries \<Longrightarrow> (fb_line (blocks ! i), i) \<in> set (undeclared_blocks page blocks)"
        unfolding undeclared_blocks_def set_map_filter by force
      then show "(page, i) \<in> set declared_entries" using none by (metis empty_iff)
    qed
  qed (auto simp: undeclared_blocks_def set_map_filter in_set_enumerate_eq)
  finally show ?thesis .
qed

lemma site_page_passes:
  assumes "check_site_blocks_are_all_declared word t = Inr ()" "page \<in> set SITE_PAGES"
  obtains readme_blocks s blocks where "page_blocks t README_PATH = Inr readme_blocks" "read_docs t page = Inr s"
    "page_blocks t page = Inr blocks"
    "\<forall>owned\<in>set OWNED_BLOCKS. check_owned_block page blocks (map fb_body readme_blocks) owned = Inr ()"
    "undeclared_blocks page blocks = []" "indented_code_lines s (path_text page) = Inr []"
    "raw_html_code_lines word s (path_text page) = Inr []"
  using assms
  by (auto simp: check_site_blocks_are_all_declared_def rbind_Inr for_each_Inr check_site_page_def page_blocks_def
      split: if_splits)



section \<open>The documented classifications\<close>

lemma names_agree: "names_differ found produced = None \<longleftrightarrow> set found = set produced"
  by (auto simp: names_differ_def Let_def filter_empty_conv dest: arg_cong [of "sort _" "[]" set])

lemma all_classifications: "set CLASSIFICATIONS = UNIV"
proof -
  have "c \<in> set CLASSIFICATIONS" for c by (cases c) (simp_all add: CLASSIFICATIONS_def)
  then show ?thesis by auto
qed

text \<open>A name behind a literal at the start of a line, and before what the rest of a pattern takes.\<close>

lemma found_after:
  assumes "g \<in> set (re_findall (Seq Bol (Seq (re_lit a) (Seq (Grp 1 (re_plus (Chr p))) r))) s)"
    and keeps: "\<And>st x. x \<in> leads_to r st \<Longrightarrow> st_caps x = st_caps st"
  shows "\<exists>u st x. s = u @ lit a @ g @ st_rest st \<and> (u = [] \<or> last u = 10) \<and> x \<in> leads_to r st"
proof -
  let ?tail = "Seq (re_lit a) (Seq (Grp 1 (re_plus (Chr p))) r)"
  obtain u rest st where m: "s = u @ rest" "re_match_at (Seq Bol ?tail) (char_before None u) rest = Some st"
      "g = group_text (st_caps st) 1"
    using re_findall_places [OF assms(1)] by blast
  have at_start: "char_before None u = None \<or> char_before None u = Some 10"
    and tail: "st \<in> leads_to ?tail \<lparr> st_prev = char_before None u, st_rest = rest, st_caps = [] \<rparr>"
    using re_match_at_leads [OF m(2)] by auto
  obtain st1 where one: "rest = lit a @ st_rest st1" "st_caps st1 = []" "st \<in> leads_to (Seq (Grp 1 (re_plus (Chr p))) r) st1"
    by (rule seq_eats [OF tail consumes_lit]) (use that in \<open>simp del: leads_to.simps\<close>)
  obtain w st2 where two: "st_rest st1 = w @ st_rest st2" "st_caps st2 = [(1, w)]" "st \<in> leads_to r st2"
    by (rule seq_catches [OF one(3) consumes_plus_Chr]) (use that one(2) in \<open>simp del: leads_to.simps\<close>)
  have "g = w" using m(3) two(2) keeps [OF two(3)] by (simp add: group_text_def)
  then have "s = u @ lit a @ g @ st_rest st2" using m(1) one(1) two(1) by simp
  moreover have "u = [] \<or> last u = 10" using at_start by (auto simp: char_before_def split: if_splits)
  ultimately show ?thesis using two(3) by blast
qed

definition at_line_start :: "str \<Rightarrow> bool" where
  "at_line_start u \<longleftrightarrow> u = [] \<or> last u = 10"

definition at_line_end :: "str \<Rightarrow> bool" where
  "at_line_end v \<longleftrightarrow> v = [] \<or> hd v = 10"

lemma heading_found:
  assumes "g \<in> set (re_findall CANARY_CLASSIFICATION_HEADING_RE s)"
  shows "\<exists>u v. s = u @ lit ''### `'' @ g @ lit ''`'' @ v \<and> at_line_start u \<and> at_line_end v"
proof -
  have r: "CANARY_CLASSIFICATION_HEADING_RE =
      Seq Bol (Seq (re_lit ''### `'') (Seq (Grp 1 (re_plus (Chr upper_or_underscore))) (Seq (re_lit ''`'') AtEnd)))"
    by (simp add: CANARY_CLASSIFICATION_HEADING_RE_def)
  have ended: "\<exists>v. st_rest st = lit ''`'' @ v \<and> x = eaten st (lit ''`'') \<and> at_line_end v"
    if "x \<in> leads_to (Seq (re_lit ''`'') AtEnd) st" for x st
  proof -
    have "\<exists>u\<in>leads_to (re_lit ''`'') st. x = u \<and> (st_rest u = [] \<or> hd (st_rest u) = 10)"
      using that by auto
    then obtain u where u: "u \<in> leads_to (re_lit ''`'') st" "x = u" "st_rest u = [] \<or> hd (st_rest u) = 10" by blast
    then obtain v where "st_rest st = lit ''`'' @ v" "u = eaten st (lit ''`'')"
      using leads_to_consumes [OF consumes_lit] by blast
    then show ?thesis using u by (auto simp: at_line_end_def length_lit)
  qed
  obtain u st x where f: "s = u @ lit ''### `'' @ g @ st_rest st" "u = [] \<or> last u = 10"
      "x \<in> leads_to (Seq (re_lit ''`'') AtEnd) st"
    using found_after [OF assms [unfolded r]] ended eaten_simps(2) by metis
  then show ?thesis using ended [OF f(3)] by (auto simp: at_line_start_def)
qed

lemma row_found:
  assumes "g \<in> set (re_findall CANARY_CLASSIFICATION_ROW_RE s)"
  shows "\<exists>u v. s = u @ lit ''| `'' @ g @ lit ''` |'' @ v \<and> at_line_start u"
proof -
  have r: "CANARY_CLASSIFICATION_ROW_RE =
      Seq Bol (Seq (re_lit ''| `'') (Seq (Grp 1 (re_plus (Chr upper_or_underscore))) (re_lit ''` |'')))"
    by (simp add: CANARY_CLASSIFICATION_ROW_RE_def)
  have ended: "\<exists>v. st_rest st = lit ''` |'' @ v \<and> x = eaten st (lit ''` |'')" if "x \<in> leads_to (re_lit ''` |'') st" for x st
    using that leads_to_consumes [OF consumes_lit] by blast
  obtain u st x where f: "s = u @ lit ''| `'' @ g @ st_rest st" "u = [] \<or> last u = 10" "x \<in> leads_to (re_lit ''` |'') st"
    using found_after [OF assms [unfolded r]] ended eaten_simps(2) by metis
  then show ?thesis using ended [OF f(3)] by (auto simp: at_line_start_def)
qed

text \<open>
  Every outcome of the canary is documented: when the gate passes, the compatibility page has, for every
  classification the probe can end with, a line that is the heading of its section and a line that begins
  its row of the table.
\<close>

theorem outcomes_documented:
  assumes "docs_parity_main word t = Some 0"
  shows "\<exists>page. read_docs t CANARY_CLASSIFICATION_PAGE = Inr page \<and>
     (\<forall>c. (\<exists>u v. page = u @ lit ''### `'' @ classification_name c @ lit ''`'' @ v \<and> at_line_start u \<and> at_line_end v)
        \<and> (\<exists>u v. page = u @ lit ''| `'' @ classification_name c @ lit ''` |'' @ v \<and> at_line_start u))"
proof -
  have "check_canary_classifications t = Inr ()" using assms by (simp add: main_passes checks_pass)
  then obtain b page where p: "dt_files t CANARY_CLASSIFICATION_PAGE = Some b" "read_utf8 b = Some page"
    "names_differ (re_findall CANARY_CLASSIFICATION_HEADING_RE page) outcome_names = None"
    "names_differ (re_findall CANARY_CLASSIFICATION_ROW_RE page) outcome_names = None"
    unfolding check_canary_classifications_def by (auto split: option.splits)
  have all: "classification_name c \<in> set outcome_names" for c using all_classifications by auto
  show ?thesis
  proof (rule exI, rule conjI, rule_tac [2] allI)
    show "read_docs t CANARY_CLASSIFICATION_PAGE = Inr page" using p by (simp add: read_docs_def)
  next
    fix c
    have "classification_name c \<in> set (re_findall CANARY_CLASSIFICATION_HEADING_RE page)"
      "classification_name c \<in> set (re_findall CANARY_CLASSIFICATION_ROW_RE page)"
      using all p(3,4) by (simp_all only: names_agree)
    then show "(\<exists>u v. page = u @ lit ''### `'' @ classification_name c @ lit ''`'' @ v \<and> at_line_start u \<and> at_line_end v)
       \<and> (\<exists>u v. page = u @ lit ''| `'' @ classification_name c @ lit ''` |'' @ v \<and> at_line_start u)"
      by (simp only: heading_found row_found)
  qed
qed

section \<open>A repository that passes\<close>

definition eg_lines :: "string list \<Rightarrow> str" where
  "eg_lines ls = lines_of (map lit ls)"

definition eg_block :: "string \<Rightarrow> string list" where
  "eg_block s = [''```'', s, ''```'']"

definition eg_docs_text :: "path \<Rightarrow> str" where
  "eg_docs_text p =
     (if p = README_PATH then eg_lines (''## Quick start'' # eg_block ''a'' @ eg_block ''b'' @ eg_block ''c'')
      else if p = relative [''docs'', ''getting-started.md'']
      then eg_lines (eg_block ''b'' @ eg_block ''x'' @ eg_block ''c'' @ eg_block ''y'' @ eg_block ''z'')
      else if p = MKDOCS_PATH
      then eg_lines [''docs_dir: docs'', ''site_dir: build/site'', ''exclude_docs: |'', ''  plans/'', ''  superpowers/'', ''nav:'',
             ''  - index.md'', ''  - install.md'', ''  - getting-started.md'']
      else if p = CANARY_CLASSIFICATION_PAGE
      then lines_of (lit ''It ends in exactly one of eight classifications.''
             # map (\<lambda>n. lit ''| `'' @ n @ lit ''` |'') outcome_names @ map (\<lambda>n. lit ''### `'' @ n @ lit ''`'') outcome_names)
      else eg_lines (eg_block ''a''))"

definition eg_docs :: docs_tree where
  "eg_docs = \<lparr> dt_files = (\<lambda>p. Some (utf8_encode (eg_docs_text p))), dt_is_file = (\<lambda>_. True),
               dt_tracked = Some (SITE_PAGES @ REFERENCE_PAGES) \<rparr>"

lemma eg_docs_declared: "check_declarations eg_docs = Inr ()"
  by code_simp

lemma eg_docs_mirrored: "check_parity_blocks eg_docs = Inr ()"
  by code_simp

lemma eg_docs_swept: "check_site_blocks_are_all_declared ascii_word eg_docs = Inr ()"
  by code_simp

lemma eg_docs_listed: "check_no_undeclared_pages eg_docs = Inr ()"
  by code_simp

lemma eg_docs_configured: "check_site_configuration eg_docs = Inr ()"
  by code_simp

lemma eg_docs_classified: "check_canary_classifications eg_docs = Inr ()"
  by code_simp

lemmas eg_docs_checks =
  eg_docs_declared eg_docs_mirrored eg_docs_swept eg_docs_listed eg_docs_configured eg_docs_classified

lemma eg_docs_pass: "docs_parity_main ascii_word eg_docs = Some 0"
  by (simp add: main_passes checks_pass eg_docs_checks)

lemma eg_site_page: "relative [''docs'', ''getting-started.md''] \<in> set SITE_PAGES"
  by code_simp


theorem outcomes_documented_witness:
  "\<exists>page. read_docs eg_docs CANARY_CLASSIFICATION_PAGE = Inr page \<and>
     (\<forall>c. (\<exists>u v. page = u @ lit ''### `'' @ classification_name c @ lit ''`'' @ v \<and> at_line_start u \<and> at_line_end v)
        \<and> (\<exists>u v. page = u @ lit ''| `'' @ classification_name c @ lit ''` |'' @ v \<and> at_line_start u))"
  by (rule outcomes_documented [OF eg_docs_pass])

text \<open>
  A line indented by a tab renders as a code block as well; the scan measures spaces only and does not see it.
\<close>

lemma tab_indented_unseen: "indented_code_lines (9 # lit ''rm'' @ [10]) [] = Inr []"
  by code_simp

end
