(* ===== verification/Profiles.thy ===== *)
theory Profiles
  imports Text_Files
begin

text \<open>
  scripts/build/profiles.py: the strict inventory of production build profiles, and the profile of a host.
  The file is its bytes, \<open>None\<close> when it cannot be read; a failure carries the line its message names.
\<close>

section \<open>The inventory\<close>

record production_profile =
  pp_name :: str
  pp_system :: str
  pp_machine :: str
  pp_mojo_cpu :: str
  pp_mojo_triple :: "str option"
  pp_c_flags :: "str list"
  pp_deployment_target :: "str option"

text \<open>What \<open>SystemExit\<close> says; only the decoding error is not one.\<close>

datatype profile_fault =
    InventoryUnreadable
  | InventoryNotUtf8
  | MissingKeys nat str "str list"
  | DuplicatePlatform nat str str
  | MalformedSection nat
  | EmptySection nat
  | DuplicateSection nat str
  | KeyBeforeSection nat
  | MalformedRow nat
  | UnknownKey nat str
  | EmptyValue nat str
  | DuplicateKey nat str
  | EmptyInventory
  | UnsupportedHost str str
  | DuplicateHost str str

definition SINGLETON_KEYS :: "str list" where
  "SINGLETON_KEYS = map lit [''system'', ''machine'', ''mojo_cpu'', ''mojo_triple'', ''deployment_target'']"

text \<open>In the order \<open>sorted\<close> gives them.\<close>

definition REQUIRED_KEYS :: "str list" where
  "REQUIRED_KEYS = map lit [''machine'', ''mojo_cpu'', ''system'']"

definition KNOWN_KEYS :: "str list" where
  "KNOWN_KEYS = SINGLETON_KEYS @ [lit ''c_flag'']"

text \<open>The variables of \<open>load_profiles\<close>: what is finished, and the section being read with its line.\<close>

record profile_reader =
  rd_profiles :: "production_profile list"
  rd_names :: "str list"
  rd_platforms :: "(str \<times> str) list"
  rd_current :: "(str \<times> nat) option"
  rd_scalars :: "(str, str) dict"
  rd_flags :: "str list"

definition fresh_reader :: profile_reader where
  "fresh_reader = \<lparr> rd_profiles = [], rd_names = [], rd_platforms = [], rd_current = None, rd_scalars = [], rd_flags = [] \<rparr>"

definition scalar_of :: "profile_reader \<Rightarrow> string \<Rightarrow> str option" where
  "scalar_of s key = map_of (rd_scalars s) (lit key)"

definition missing_keys :: "profile_reader \<Rightarrow> str list" where
  "missing_keys s = filter (\<lambda>k. map_of (rd_scalars s) k = None) REQUIRED_KEYS @ (if rd_flags s = [] then [lit ''c_flag''] else [])"

definition profile_of :: "str \<Rightarrow> profile_reader \<Rightarrow> production_profile" where
  "profile_of name s =
     \<lparr> pp_name = name, pp_system = the (scalar_of s ''system''), pp_machine = the (scalar_of s ''machine''),
       pp_mojo_cpu = the (scalar_of s ''mojo_cpu''), pp_mojo_triple = scalar_of s ''mojo_triple'',
       pp_c_flags = rd_flags s, pp_deployment_target = scalar_of s ''deployment_target'' \<rparr>"

definition platform_of :: "production_profile \<Rightarrow> str \<times> str" where
  "platform_of p = (pp_system p, pp_machine p)"

definition finish_profile :: "profile_reader \<Rightarrow> profile_fault + profile_reader" where
  "finish_profile s =
     (case rd_current s of
        None \<Rightarrow> Inr s
      | Some (name, line) \<Rightarrow>
          if missing_keys s \<noteq> [] then Inl (MissingKeys line name (missing_keys s))
          else let p = profile_of name s
               in if platform_of p \<in> set (rd_platforms s) then Inl (DuplicatePlatform line (pp_system p) (pp_machine p))
                  else Inr (s \<lparr> rd_platforms := rd_platforms s @ [platform_of p], rd_profiles := rd_profiles s @ [p],
                                rd_current := None, rd_scalars := [], rd_flags := [] \<rparr>))"

definition read_section :: "nat \<Rightarrow> str \<Rightarrow> profile_reader \<Rightarrow> profile_fault + profile_reader" where
  "read_section n line s =
     (if \<not> endswith line (lit '']'') \<or> count_list line 91 \<noteq> 1 \<or> count_list line 93 \<noteq> 1 then Inl (MalformedSection n)
      else let name = strip (butlast (tl line))
           in if name = [] then Inl (EmptySection n)
              else rbind (finish_profile s) (\<lambda>s.
                if name \<in> set (rd_names s) then Inl (DuplicateSection n name)
                else Inr (s \<lparr> rd_names := rd_names s @ [name], rd_current := Some (name, n) \<rparr>)))"

definition read_row :: "nat \<Rightarrow> str \<Rightarrow> profile_reader \<Rightarrow> profile_fault + profile_reader" where
  "read_row n line s =
     (if rd_current s = None then Inl (KeyBeforeSection n)
      else if 61 \<notin> set line then Inl (MalformedRow n)
      else let key = strip (takeWhile (\<lambda>c. c \<noteq> 61) line); value = strip (tl (dropWhile (\<lambda>c. c \<noteq> 61) line))
           in if key \<notin> set KNOWN_KEYS then Inl (UnknownKey n key)
              else if value = [] then Inl (EmptyValue n key)
              else if key = lit ''c_flag'' then Inr (s \<lparr> rd_flags := rd_flags s @ [value] \<rparr>)
              else if map_of (rd_scalars s) key \<noteq> None then Inl (DuplicateKey n key)
              else Inr (s \<lparr> rd_scalars := rd_scalars s @ [(key, value)] \<rparr>))"

definition read_profile_line :: "nat \<Rightarrow> str \<Rightarrow> profile_reader \<Rightarrow> profile_fault + profile_reader" where
  "read_profile_line n raw s =
     (let line = strip raw
      in if line = [] \<or> startswith line (lit ''#'') then Inr s
         else if startswith line (lit ''['') then read_section n line s
         else read_row n line s)"

fun read_profile_lines :: "nat \<Rightarrow> str list \<Rightarrow> profile_reader \<Rightarrow> profile_fault + profile_reader" where
  "read_profile_lines n [] s = Inr s"
| "read_profile_lines n (l # ls) s = rbind (read_profile_line n l s) (read_profile_lines (Suc n) ls)"

definition load_profiles :: "bytes option \<Rightarrow> profile_fault + production_profile list" where
  "load_profiles file =
     (case file of
        None \<Rightarrow> Inl InventoryUnreadable
      | Some b \<Rightarrow>
          (case read_utf8 b of
             None \<Rightarrow> Inl InventoryNotUtf8
           | Some text_read \<Rightarrow>
               rbind (read_profile_lines 1 (splitlines text_read) fresh_reader) (\<lambda>s.
               rbind (finish_profile s) (\<lambda>s.
                 if rd_profiles s = [] then Inl EmptyInventory else Inr (rd_profiles s)))))"

definition host_profile :: "str \<Rightarrow> str \<Rightarrow> production_profile list \<Rightarrow> profile_fault + production_profile" where
  "host_profile system machine profiles =
     (case filter (\<lambda>p. pp_system p = system \<and> pp_machine p = machine) profiles of
        [p] \<Rightarrow> Inr p
      | [] \<Rightarrow> Inl (UnsupportedHost system machine)
      | _ \<Rightarrow> Inl (DuplicateHost system machine))"

section \<open>What an accepted inventory is\<close>

definition tidy :: "str \<Rightarrow> bool" where
  "tidy v \<longleftrightarrow> v \<noteq> [] \<and> strip v = v"

definition profile_ok :: "production_profile \<Rightarrow> bool" where
  "profile_ok p \<longleftrightarrow> tidy (pp_name p) \<and> tidy (pp_system p) \<and> tidy (pp_machine p) \<and> tidy (pp_mojo_cpu p)
     \<and> (\<forall>v\<in>set_option (pp_mojo_triple p). tidy v) \<and> (\<forall>v\<in>set_option (pp_deployment_target p). tidy v)
     \<and> pp_c_flags p \<noteq> [] \<and> (\<forall>v\<in>set (pp_c_flags p). tidy v)"

definition inventory_ok :: "production_profile list \<Rightarrow> bool" where
  "inventory_ok ps \<longleftrightarrow> distinct (map pp_name ps) \<and> distinct (map platform_of ps) \<and> (\<forall>p\<in>set ps. profile_ok p)"

definition reader_ok :: "profile_reader \<Rightarrow> bool" where
  "reader_ok s \<longleftrightarrow> inventory_ok (rd_profiles s) \<and> rd_platforms s = map platform_of (rd_profiles s)
     \<and> rd_names s = map pp_name (rd_profiles s) @ (case rd_current s of None \<Rightarrow> [] | Some (name, _) \<Rightarrow> [name])
     \<and> distinct (rd_names s) \<and> (\<forall>name line. rd_current s = Some (name, line) \<longrightarrow> tidy name)
     \<and> (\<forall>k v. map_of (rd_scalars s) k = Some v \<longrightarrow> tidy v) \<and> (\<forall>v\<in>set (rd_flags s). tidy v)
     \<and> (rd_current s = None \<longrightarrow> rd_scalars s = [] \<and> rd_flags s = [])"

lemma strip_idem: "strip (strip s) = strip s"
proof (rule strip_id)
  assume ne: "strip s \<noteq> []"
  have hd: "\<not> is_space (hd (strip s))"
  proof -
    let ?l = "dropWhile is_space s"
    obtain t where t: "?l = strip s @ t"
      using rstrip_of_split [of ?l is_space] by (auto simp: strip_def lstrip_of_def)
    then have "?l \<noteq> []" "hd (strip s) = hd ?l" using ne by auto
    then show ?thesis using hd_dropWhile [of is_space s] by auto
  qed
  have r: "strip s = rev (dropWhile is_space (rev (dropWhile is_space s)))"
    by (simp add: strip_def lstrip_of_def rstrip_of_def)
  then have "\<not> is_space (last (strip s))"
    using ne hd_dropWhile [of is_space "rev (dropWhile is_space s)"] by (simp add: last_rev)
  with hd show "\<not> is_space (hd (strip s)) \<and> \<not> is_space (last (strip s))" by simp
qed

lemma tidy_strip: "strip v \<noteq> [] \<Longrightarrow> tidy (strip v)"
  by (simp add: tidy_def strip_idem)

lemma profile_of_ok:
  assumes "reader_ok s" "rd_current s = Some (name, line)" "missing_keys s = []"
  shows "profile_ok (profile_of name s)"
proof -
  have tidied: "tidy v" if "scalar_of s key = Some v" for key v
    using assms(1) that by (auto simp: reader_ok_def scalar_of_def)
  have "tidy name" using assms(1,2) by (auto simp: reader_ok_def)
  moreover obtain a b c where "scalar_of s ''system'' = Some a" "scalar_of s ''machine'' = Some b" "scalar_of s ''mojo_cpu'' = Some c"
    using assms(3) by (auto simp: missing_keys_def REQUIRED_KEYS_def scalar_of_def split: if_splits)
  moreover have "rd_flags s \<noteq> []" using assms(3) by (simp add: missing_keys_def split: if_splits)
  moreover have "\<forall>v\<in>set (rd_flags s). tidy v" using assms(1) by (simp add: reader_ok_def)
  ultimately show ?thesis using tidied by (auto simp: profile_ok_def profile_of_def)
qed

lemma finish_ok:
  assumes "finish_profile s = Inr s'" "reader_ok s"
  shows "reader_ok s' \<and> rd_current s' = None"
proof (cases "rd_current s")
  case None
  then show ?thesis using assms by (simp add: finish_profile_def)
next
  case (Some c)
  then obtain name line where c: "rd_current s = Some (name, line)" by (cases c) simp
  define p where "p = profile_of name s"
  have m: "missing_keys s = []" and fresh: "platform_of p \<notin> set (rd_platforms s)"
    and s': "s' = s \<lparr> rd_platforms := rd_platforms s @ [platform_of p], rd_profiles := rd_profiles s @ [p],
                     rd_current := None, rd_scalars := [], rd_flags := [] \<rparr>"
    using assms(1) c by (auto simp: finish_profile_def p_def Let_def split: if_splits)
  have named: "pp_name p = name" by (simp add: p_def profile_of_def)
  have "profile_ok p"
    using profile_of_ok [OF assms(2) c m] by (simp add: p_def)
  moreover have names: "rd_names s = map pp_name (rd_profiles s) @ [name]"
    and platforms: "rd_platforms s = map platform_of (rd_profiles s)" and sound: "inventory_ok (rd_profiles s)"
    using assms(2) c by (simp_all add: reader_ok_def)
  moreover have "distinct (rd_names s)" using assms(2) unfolding reader_ok_def by blast
  then have "distinct (map pp_name (rd_profiles s @ [p]))" using names named by simp
  moreover have "distinct (map platform_of (rd_profiles s @ [p]))" using sound platforms fresh by (simp add: inventory_ok_def)
  ultimately have "inventory_ok (rd_profiles s @ [p])"
    by (simp add: inventory_ok_def)
  then show ?thesis using names platforms named \<open>distinct (rd_names s)\<close> by (simp add: reader_ok_def s')
qed

lemma read_line_ok:
  assumes "read_profile_line n raw s = Inr s'" "reader_ok s"
  shows "reader_ok s'"
proof -
  have "s' = s \<or> read_section n (strip raw) s = Inr s' \<or> read_row n (strip raw) s = Inr s'"
    using assms(1) unfolding read_profile_line_def Let_def by (metis Inr_inject)
  then consider "s' = s" | "read_section n (strip raw) s = Inr s'" | "read_row n (strip raw) s = Inr s'" by blast
  then show ?thesis
  proof cases
    case 2
    then obtain u where u: "finish_profile s = Inr u" "strip (butlast (tl (strip raw))) \<notin> set (rd_names u)"
        "strip (butlast (tl (strip raw))) \<noteq> []"
        "s' = u \<lparr> rd_names := rd_names u @ [strip (butlast (tl (strip raw)))],
                  rd_current := Some (strip (butlast (tl (strip raw))), n) \<rparr>"
      by (auto simp: read_section_def Let_def rbind_Inr split: if_splits)
    show ?thesis using finish_ok [OF u(1) assms(2)] u(2-4) tidy_strip by (auto simp: reader_ok_def)
  next
    case 3
    then show ?thesis
      using assms(2) tidy_strip by (auto simp: read_row_def Let_def reader_ok_def map_add_def split: if_splits option.splits)
  qed (use assms in simp)
qed

lemma read_lines_ok: "read_profile_lines n ls s = Inr s' \<Longrightarrow> reader_ok s \<Longrightarrow> reader_ok s'"
  by (induction n ls s rule: read_profile_lines.induct) (auto simp: rbind_Inr dest: read_line_ok)

lemma fresh_ok: "reader_ok fresh_reader"
  by (simp add: reader_ok_def fresh_reader_def inventory_ok_def)

lemma loaded_ok:
  assumes "load_profiles file = Inr ps"
  shows "inventory_ok ps \<and> ps \<noteq> []"
proof -
  obtain text_read s u where "read_profile_lines 1 (splitlines text_read) fresh_reader = Inr s" "finish_profile s = Inr u"
      "rd_profiles u \<noteq> []" "ps = rd_profiles u"
    using assms by (auto simp: load_profiles_def rbind_Inr split: option.splits if_splits)
  then show ?thesis using read_lines_ok finish_ok fresh_ok by (metis reader_ok_def)
qed

lemma one_match: "distinct (map f xs) \<Longrightarrow> filter (\<lambda>x. f x = y) xs = [] \<or> (\<exists>x. filter (\<lambda>x. f x = y) xs = [x])"
proof (induction xs)
  case (Cons x xs)
  then show ?case
  proof (cases "f x = y")
    case True
    then have "f z \<noteq> y" if "z \<in> set xs" for z using Cons.prems that by (metis distinct.simps(2) image_eqI list.set_map list.simps(9))
    then have "filter (\<lambda>x. f x = y) xs = []" by (simp add: filter_empty_conv)
    then show ?thesis using True by simp
  qed simp
qed simp

text \<open>
  C24 (an accepted inventory names one profile per host): every profile of an accepted inventory is complete,
  no two have the same name or platform, and a host of one of them gets exactly that one, any other host none.
\<close>

theorem accepted_inventory_decides:
  assumes "load_profiles file = Inr ps"
  shows "ps \<noteq> [] \<and> inventory_ok ps
    \<and> (\<forall>p\<in>set ps. host_profile (pp_system p) (pp_machine p) ps = Inr p)
    \<and> (\<forall>system machine. (system, machine) \<notin> platform_of ` set ps \<longrightarrow>
         host_profile system machine ps = Inl (UnsupportedHost system machine))"
proof -
  have ok: "inventory_ok ps" "ps \<noteq> []" using loaded_ok [OF assms] by auto
  then have d: "distinct (map platform_of ps)" by (simp add: inventory_ok_def)
  have same: "filter (\<lambda>q. pp_system q = s \<and> pp_machine q = m) ps = filter (\<lambda>q. platform_of q = (s, m)) ps" for s m
    by (rule filter_cong) (auto simp: platform_of_def)
  have one: "filter (\<lambda>q. platform_of q = platform_of p) ps = [p]" if "p \<in> set ps" for p
  proof -
    have "p \<in> set (filter (\<lambda>q. platform_of q = platform_of p) ps)" using that by simp
    then show ?thesis using one_match [OF d, of "platform_of p"] by (metis empty_iff empty_set list.set(2) singletonD)
  qed
  have "host_profile (pp_system p) (pp_machine p) ps = Inr p" if "p \<in> set ps" for p
  proof -
    have "platform_of p = (pp_system p, pp_machine p)" by (simp add: platform_of_def)
    then show ?thesis using one [OF that] by (simp add: host_profile_def same)
  qed
  moreover have "host_profile s m ps = Inl (UnsupportedHost s m)" if "(s, m) \<notin> platform_of ` set ps" for s m
  proof -
    have "platform_of q \<noteq> (s, m)" if "q \<in> set ps" for q using that \<open>(s, m) \<notin> platform_of ` set ps\<close> image_eqI by metis
    then have "filter (\<lambda>q. platform_of q = (s, m)) ps = []" by (simp add: filter_empty_conv)
    then show ?thesis by (simp add: host_profile_def same)
  qed
  ultimately show ?thesis using ok by blast
qed

definition eg_inventory :: bytes where
  "eg_inventory = utf8_encode (lines_of (map lit
     [''# production profiles'', [], ''[linux-x86_64]'', ''system=Linux'', ''machine=x86_64'', ''mojo_cpu=x86-64'',
      ''c_flag=-march=x86-64'', ''c_flag=-mtune=generic'', [], ''[darwin-arm64]'', ''system = Darwin'',
      ''machine = arm64'', ''mojo_cpu = apple-m1'', ''mojo_triple = arm64-apple-macosx14.0.0'',
      ''c_flag = -mcpu=apple-m1'', ''deployment_target = 14.0'']))"

definition eg_profiles :: "production_profile list" where
  "eg_profiles =
     [\<lparr> pp_name = lit ''linux-x86_64'', pp_system = lit ''Linux'', pp_machine = lit ''x86_64'', pp_mojo_cpu = lit ''x86-64'',
        pp_mojo_triple = None, pp_c_flags = [lit ''-march=x86-64'', lit ''-mtune=generic''], pp_deployment_target = None \<rparr>,
      \<lparr> pp_name = lit ''darwin-arm64'', pp_system = lit ''Darwin'', pp_machine = lit ''arm64'', pp_mojo_cpu = lit ''apple-m1'',
        pp_mojo_triple = Some (lit ''arm64-apple-macosx14.0.0''), pp_c_flags = [lit ''-mcpu=apple-m1''],
        pp_deployment_target = Some (lit ''14.0'') \<rparr>]"

lemma eg_inventory_loads: "load_profiles (Some eg_inventory) = Inr eg_profiles"
  by code_simp

theorem accepted_inventory_decides_witness:
  "inventory_ok eg_profiles
    \<and> host_profile (pp_system (hd eg_profiles)) (pp_machine (hd eg_profiles)) eg_profiles = Inr (hd eg_profiles)
    \<and> host_profile (lit ''Plan9'') (lit ''mips'') eg_profiles = Inl (UnsupportedHost (lit ''Plan9'') (lit ''mips''))"
proof -
  note decided = accepted_inventory_decides [OF eg_inventory_loads]
  have "(lit ''Plan9'', lit ''mips'') \<notin> platform_of ` set eg_profiles" by code_simp
  with decided show ?thesis by (auto simp: hd_in_set)
qed

end
