(* ===== verification/Build_Profile.thy ===== *)
theory Build_Profile
  imports Profiles Regex
begin

text \<open>
  scripts/checks/build_profile.py: the CPU, debug and deployment profile of the shipped binary, read from the
  compiler's LLVM output and from what readelf or otool print about the binary.  The commands, the files and
  the host are arguments.
\<close>

section \<open>Faults and patterns\<close>

datatype profile_error =
    MalformedGroup str
  | DuplicateGroup int
  | NotOneTargetPair str
  | MalformedDefinition str
  | NotOneReference str
  | MissingGroup int str
  | TargetlessGroup int str
  | NoDefinition
  | NoTargetGroup
  | NoTextSection
  | MalformedVersion str str
  | MinimumMissing str
  | NoMinimum
  | MalformedFeatures str
  | CommandFailed "str list" int
  | NoTargetOracle str
  | ProbeDiffers str "str \<times> str" "str \<times> str"
  | MainDiffers str "str \<times> str" "str \<times> str"
  | BinaryMissing
  | DebugSections "str list"
  | DwarfSegment
  | WrongMinimum "(int \<times> int \<times> int) list"

text \<open>\<open>BuildProfileError\<close> and \<open>OSError\<close> are caught; the others end the command.\<close>

datatype profile_exn =
    BuildProfileError profile_error
  | ProfileOSError
  | ProfileDecodeError
  | ProfileValueError
  | ProfileSystemExit profile_fault

definition not_eol :: "int \<Rightarrow> bool" where "not_eol c \<longleftrightarrow> c \<noteq> 10"
definition not_quote :: "int \<Rightarrow> bool" where "not_quote c \<longleftrightarrow> c \<noteq> 34"
definition tab_or_blank :: "int \<Rightarrow> bool" where "tab_or_blank c \<longleftrightarrow> c = 32 \<or> c = 9"
definition not_space :: "int \<Rightarrow> bool" where "not_space c \<longleftrightarrow> \<not> is_space c"

abbreviation any_spaces :: re where "any_spaces \<equiv> re_star (Chr is_space)"

text \<open>\<open>^attributes #(?P<number>\\d+) = \\{(?P<body>.*)\\}\\s*$\<close>\<close>

definition LLVM_ATTRIBUTE_GROUP :: re where
  "LLVM_ATTRIBUTE_GROUP = re_seq
     [re_lit ''attributes #'', Grp 1 re_digits, re_lit '' = {'', Grp 2 (re_star (Chr not_eol)), re_lit ''}'', any_spaces]"

text \<open>\<open>^[ \\t]*define(?:[ \\t]|$)\<close>\<close>

definition LLVM_DEFINITION :: re where
  "LLVM_DEFINITION = re_seq [re_star (Chr tab_or_blank), re_lit ''define'', Alt (Chr tab_or_blank) AtEnd]"

text \<open>\<open>\\{\\s*(?:;.*)?$\<close>\<close>

definition LLVM_DEFINITION_END :: re where
  "LLVM_DEFINITION_END = re_seq
     [re_lit ''{'', any_spaces, re_opt (Seq (re_lit '';'') (re_star (Chr not_eol))), AtEnd]"

text \<open>\<open>(?<!\\S)#(\\d+)(?=\\s|$)\<close>\<close>

definition LLVM_GROUP_REFERENCE :: re where
  "LLVM_GROUP_REFERENCE = re_seq
     [Before (\<lambda>p. case p of None \<Rightarrow> True | Some c \<Rightarrow> is_space c), re_lit ''#'', Grp 1 re_digits,
      Look (Alt (Chr is_space) AtEnd)]"

definition LLVM_CPU :: re where
  "LLVM_CPU = re_seq [re_lit ''\"target-cpu\"=\"'', Grp 1 (re_plus (Chr not_quote)), re_lit ''\"'']"

definition LLVM_FEATURES :: re where
  "LLVM_FEATURES = re_seq [re_lit ''\"target-features\"=\"'', Grp 1 (re_plus (Chr not_quote)), re_lit ''\"'']"

text \<open>\<open>^\\s*\\[\\s*\\d+\\]\\s+(\\.\\S+)\<close>\<close>

definition ELF_SECTION :: re where
  "ELF_SECTION = re_seq
     [any_spaces, re_lit ''['', any_spaces, re_digits, re_lit '']'', re_spaces,
      Grp 1 (Seq (re_lit ''.'') (re_plus (Chr not_space)))]"

text \<open>\<open>^\\s*cmd\\s+(LC_[A-Z0-9_]+)\\s*$\<close> and the two minimum fields\<close>

definition MACHO_COMMAND :: re where
  "MACHO_COMMAND = re_seq
     [any_spaces, re_lit ''cmd'', re_spaces,
      Grp 1 (Seq (re_lit ''LC_'') (re_plus (Chr (\<lambda>c. (65 \<le> c \<and> c \<le> 90) \<or> is_ascii_digit c \<or> c = 95)))), any_spaces, AtEnd]"

definition minimum_field :: "string \<Rightarrow> re" where
  "minimum_field name = re_seq [any_spaces, re_lit name, re_spaces, Grp 1 (re_plus (Chr not_space)), any_spaces, AtEnd]"

definition MACHO_BUILD_MINIMUM :: re where "MACHO_BUILD_MINIMUM = minimum_field ''minos''"
definition MACHO_LEGACY_MINIMUM :: re where "MACHO_LEGACY_MINIMUM = minimum_field ''version''"

text \<open>\<open>(?m)^\\s*segname\\s+__DWARF\\s*$\<close>\<close>

definition DWARF_SEGMENT :: re where
  "DWARF_SEGMENT = re_seq [Bol, any_spaces, re_lit ''segname'', re_spaces, re_lit ''__DWARF'', any_spaces, AtEnd]"

definition first_group :: "re \<Rightarrow> str \<Rightarrow> str option" where
  "first_group r line = map_option (\<lambda>st. group_text (st_caps st) 1) (re_match_at r None line)"

text \<open>\<open>int(s)\<close> on a run of digits, with Python's digit limit.\<close>

definition limited_int :: "str \<Rightarrow> profile_exn + int" where
  "limited_int s = (if 4300 < length s then Inl ProfileValueError else Inr (int_of_digits s))"

abbreviation fault :: "profile_error \<Rightarrow> profile_exn + 'a" where
  "fault e \<equiv> Inl (BuildProfileError e)"

section \<open>The targets of the LLVM output\<close>

type_synonym llvm_target = "str \<times> str"
type_synonym llvm_groups = "(int, llvm_target option) dict"

definition read_group :: "str \<Rightarrow> llvm_groups \<Rightarrow> profile_exn + llvm_groups" where
  "read_group line groups =
     (case re_fullmatch LLVM_ATTRIBUTE_GROUP (strip line) of
        None \<Rightarrow> fault (MalformedGroup line)
      | Some m \<Rightarrow>
          rbind (limited_int (group_text m 1)) (\<lambda>number.
            if map_of groups number \<noteq> None then fault (DuplicateGroup number)
            else let cpus = re_findall LLVM_CPU (group_text m 2); features = re_findall LLVM_FEATURES (group_text m 2)
                 in if cpus = [] \<and> features = [] then Inr (groups @ [(number, None)])
                    else if length cpus \<noteq> 1 \<or> length features \<noteq> 1 then fault (NotOneTargetPair line)
                    else Inr (groups @ [(number, Some (hd cpus, hd features))])))"

fun read_groups :: "str list \<Rightarrow> llvm_groups \<Rightarrow> profile_exn + llvm_groups" where
  "read_groups [] groups = Inr groups"
| "read_groups (l # ls) groups =
     (if startswith (strip l) (lit ''attributes '') then rbind (read_group l groups) (read_groups ls) else read_groups ls groups)"

text \<open>The targets in the order their groups stand.\<close>

definition group_targets :: "llvm_groups \<Rightarrow> llvm_target list" where
  "group_targets groups = List.map_filter snd groups"

definition is_definition :: "str \<Rightarrow> bool" where
  "is_definition line = re_matches LLVM_DEFINITION line"

definition ends_header :: "str \<Rightarrow> bool" where
  "ends_header line = re_search LLVM_DEFINITION_END line"

definition interrupts_header :: "str \<Rightarrow> bool" where
  "interrupts_header line \<longleftrightarrow> list_ex (\<lambda>p. startswith line (lit p)) [''attributes '', ''declare '', ''define '']"

definition header_text :: "str list \<Rightarrow> str" where "header_text ls = join_with [32] ls"

definition references :: "str \<Rightarrow> str list" where
  "references header = re_findall LLVM_GROUP_REFERENCE (re_remove LLVM_DEFINITION_END header)"

definition check_reference :: "llvm_groups \<Rightarrow> str \<Rightarrow> profile_exn + unit" where
  "check_reference groups header =
     (case references header of
        [r] \<Rightarrow>
          rbind (limited_int r) (\<lambda>number.
            case map_of groups number of
              None \<Rightarrow> fault (MissingGroup number header)
            | Some None \<Rightarrow> fault (TargetlessGroup number header)
            | Some (Some _) \<Rightarrow> Inr ())
      | _ \<Rightarrow> fault (NotOneReference header))"

text \<open>The definitions, with the header lines read so far when one is open; the result is their number.\<close>

fun check_definitions :: "llvm_groups \<Rightarrow> str list option \<Rightarrow> nat \<Rightarrow> str list \<Rightarrow> profile_exn + nat" where
  "check_definitions groups None n [] = Inr n"
| "check_definitions groups (Some hs) n [] = fault (MalformedDefinition (header_text hs))"
| "check_definitions groups None n (l # ls) =
     (if \<not> is_definition l then check_definitions groups None n ls
      else if ends_header (strip l)
      then rbind (check_reference groups (header_text [strip l])) (\<lambda>_. check_definitions groups None (Suc n) ls)
      else check_definitions groups (Some [strip l]) (Suc n) ls)"
| "check_definitions groups (Some hs) n (l # ls) =
     (if interrupts_header (strip l) then fault (MalformedDefinition (header_text hs))
      else if ends_header (strip l)
      then rbind (check_reference groups (header_text (hs @ [strip l]))) (\<lambda>_. check_definitions groups None n ls)
      else check_definitions groups (Some (hs @ [strip l])) n ls)"

definition parse_llvm_target_attributes :: "str \<Rightarrow> profile_exn + llvm_target list" where
  "parse_llvm_target_attributes output =
     rbind (read_groups (splitlines output) []) (\<lambda>groups.
     rbind (check_definitions groups None 0 (splitlines output)) (\<lambda>count.
       if count = 0 then fault NoDefinition
       else if group_targets groups = [] then fault NoTargetGroup
       else Inr (group_targets groups)))"

section \<open>The sections and load commands of the binary\<close>

definition parse_elf_debug_sections :: "str \<Rightarrow> profile_exn + str list" where
  "parse_elf_debug_sections output =
     (let names = List.map_filter (first_group ELF_SECTION) (splitlines output)
      in if lit ''.text'' \<notin> set names then fault NoTextSection
         else Inr (filter (\<lambda>n. startswith n (lit ''.debug_'')) names))"

type_synonym macho_version = "int \<times> int \<times> int"

definition parse_version :: "str \<Rightarrow> str \<Rightarrow> profile_exn + macho_version" where
  "parse_version value command =
     (let parts = split_on 46 value
      in if 3 < length parts \<or> list_ex (\<lambda>p. p = [] \<or> \<not> list_all is_digit p) parts
         then fault (MalformedVersion command value)
         else rbind (rmap limited_int parts) (\<lambda>numbers.
           let padded = numbers @ [0, 0] in Inr (padded ! 0, padded ! 1, padded ! 2)))"

definition MINIMUM_COMMANDS :: "str list" where
  "MINIMUM_COMMANDS = map lit [''LC_BUILD_VERSION'', ''LC_VERSION_MIN_MACOSX'']"

record macho_reader =
  ma_versions :: "macho_version list"
  ma_command :: str
  ma_version :: "str option"

definition finish_command :: "macho_reader \<Rightarrow> profile_exn + macho_reader" where
  "finish_command s =
     (if ma_command s \<notin> set MINIMUM_COMMANDS then Inr s
      else case ma_version s of
             None \<Rightarrow> fault (MinimumMissing (ma_command s))
           | Some v \<Rightarrow> rbind (parse_version v (ma_command s)) (\<lambda>version. Inr (s \<lparr> ma_versions := ma_versions s @ [version] \<rparr>)))"

definition read_load_command :: "str \<Rightarrow> macho_reader \<Rightarrow> profile_exn + macho_reader" where
  "read_load_command line s =
     (case first_group MACHO_COMMAND line of
        Some command \<Rightarrow>
          rbind (finish_command s) (\<lambda>s. Inr (s \<lparr> ma_command := command, ma_version := None \<rparr>))
      | None \<Rightarrow>
          let found = (if ma_command s = lit ''LC_BUILD_VERSION'' then first_group MACHO_BUILD_MINIMUM line
                       else if ma_command s = lit ''LC_VERSION_MIN_MACOSX'' then first_group MACHO_LEGACY_MINIMUM line
                       else None)
          in case found of None \<Rightarrow> Inr s | Some v \<Rightarrow> Inr (s \<lparr> ma_version := Some v \<rparr>))"

fun read_load_commands :: "str list \<Rightarrow> macho_reader \<Rightarrow> profile_exn + macho_reader" where
  "read_load_commands [] s = Inr s"
| "read_load_commands (l # ls) s = rbind (read_load_command l s) (read_load_commands ls)"

definition parse_macho_minimum_versions :: "str \<Rightarrow> profile_exn + macho_version list" where
  "parse_macho_minimum_versions output =
     rbind (read_load_commands (splitlines output) \<lparr> ma_versions = [], ma_command = [], ma_version = None \<rparr>) (\<lambda>s.
     rbind (finish_command s) (\<lambda>s. if ma_versions s = [] then fault NoMinimum else Inr (ma_versions s)))"

section \<open>The checks\<close>

definition EXPECTED_TARGETS :: "(str \<times> llvm_target) list" where
  "EXPECTED_TARGETS =
     [(lit ''linux-x86_64'', (lit ''x86-64'', lit ''+cmov,+cx8,+fxsr,+mmx,+sse,+sse2,+x87'')),
      (lit ''darwin-arm64'', (lit ''apple-m1'',
         lit ''+aes,+altnzcv,+ccdp,+complxnum,+crc,+dotprod,+fp-armv8,+fp16fml,'' @
         lit ''+fptoint,+fullfp16,+jsconv,+lse,+neon,+pauth,+perfmon,+predres,+ras,'' @
         lit ''+rcpc,+rdm,+sb,+sha2,+sha3,+specrestrict,+ssbs''))]"

definition normalized_target :: "llvm_target \<Rightarrow> profile_exn + str \<times> str list" where
  "normalized_target target =
     (let tokens = split_on 44 (snd target)
      in if [] \<in> set tokens then fault (MalformedFeatures (snd target)) else Inr (fst target, sort tokens))"

text \<open>What the world answers: a command its exit status and standard output, \<open>None\<close> for one that cannot be started.\<close>

record build_world =
  bw_run :: "str list \<Rightarrow> (int \<times> str) option"
  bw_file :: "str \<Rightarrow> bytes option"
  bw_binary :: bool
  bw_system :: str
  bw_machine :: str
  bw_inventory :: "bytes option"
  bw_temp :: str
  bw_binary_path :: str

definition run_tool :: "build_world \<Rightarrow> str list \<Rightarrow> profile_exn + str" where
  "run_tool w argv =
     (case bw_run w argv of
        None \<Rightarrow> Inl ProfileOSError
      | Some (code, out) \<Rightarrow> if code \<noteq> 0 then fault (CommandFailed argv code) else Inr out)"

definition llvm_command :: "production_profile \<Rightarrow> str \<Rightarrow> str \<Rightarrow> bool \<Rightarrow> str list" where
  "llvm_command profile source out_path real_main =
     map lit [''mojo'', ''build'', ''--emit=llvm'', ''-O3'', ''-g0'', ''--Werror'', ''--target-cpu''] @ [pp_mojo_cpu profile]
     @ (case pp_mojo_triple profile of None \<Rightarrow> [] | Some t \<Rightarrow> [lit ''--target-triple'', t])
     @ (if real_main then map lit [''-I'', ''build''] else []) @ [source, lit ''-o'', out_path]"

definition TARGET_PROBE :: str where "TARGET_PROBE = lit ''tests/fixtures/build_profile/target_probe.mojo''"
definition MAIN_SOURCE :: str where "MAIN_SOURCE = lit ''src/main.mojo''"

definition read_ir :: "build_world \<Rightarrow> str \<Rightarrow> profile_exn + str" where
  "read_ir w p =
     (case bw_file w p of
        None \<Rightarrow> Inl ProfileOSError
      | Some b \<Rightarrow> (case read_utf8 b of None \<Rightarrow> Inl ProfileDecodeError | Some s \<Rightarrow> Inr s))"

definition llvm_targets :: "build_world \<Rightarrow> production_profile \<Rightarrow> str \<Rightarrow> string \<Rightarrow> bool \<Rightarrow> profile_exn + llvm_target list" where
  "llvm_targets w profile source name real_main =
     (let out_path = bw_temp w @ lit ''/'' @ lit name
      in rbind (run_tool w (llvm_command profile source out_path real_main)) (\<lambda>_.
         rbind (read_ir w out_path) parse_llvm_target_attributes))"

fun require_targets ::
  "(llvm_target \<Rightarrow> profile_error) \<Rightarrow> str \<times> str list \<Rightarrow> llvm_target list \<Rightarrow> profile_exn + unit" where
  "require_targets differs expected [] = Inr ()"
| "require_targets differs expected (t # ts) =
     rbind (normalized_target t) (\<lambda>n. if n \<noteq> expected then fault (differs t) else require_targets differs expected ts)"

definition verify_llvm_profile :: "build_world \<Rightarrow> production_profile \<Rightarrow> profile_exn + unit" where
  "verify_llvm_profile w profile =
     (case map_of EXPECTED_TARGETS (pp_name profile) of
        None \<Rightarrow> fault (NoTargetOracle (pp_name profile))
      | Some expected \<Rightarrow>
          rbind (normalized_target expected) (\<lambda>wanted.
          rbind (llvm_targets w profile TARGET_PROBE ''target-probe.ll'' False) (\<lambda>probe.
          rbind (require_targets (ProbeDiffers (pp_name profile) expected) wanted probe) (\<lambda>_.
          rbind (llvm_targets w profile MAIN_SOURCE ''main.ll'' True) (\<lambda>main_targets.
          rbind (normalized_target (hd probe)) (\<lambda>proven.
            require_targets (MainDiffers (pp_name profile) (hd probe)) proven main_targets))))))"

definition verify_binary :: "build_world \<Rightarrow> production_profile \<Rightarrow> profile_exn + unit" where
  "verify_binary w profile =
     (if \<not> bw_binary w then fault BinaryMissing
      else if pp_system profile = lit ''Linux''
      then rbind (run_tool w [lit ''readelf'', lit ''-S'', bw_binary_path w]) (\<lambda>out.
           rbind (parse_elf_debug_sections out) (\<lambda>sections.
             if sections \<noteq> [] then fault (DebugSections sections) else Inr ()))
      else rbind (run_tool w [lit ''otool'', lit ''-l'', bw_binary_path w]) (\<lambda>loads.
             if re_search DWARF_SEGMENT loads then fault DwarfSegment
             else rbind (parse_macho_minimum_versions loads) (\<lambda>minimums.
               if list_ex (\<lambda>v. v \<noteq> (14, 0, 0)) minimums then fault (WrongMinimum minimums) else Inr ())))"

definition profile_exit :: "profile_fault + 'a \<Rightarrow> profile_exn + 'a" where
  "profile_exit r = (case r of Inl InventoryNotUtf8 \<Rightarrow> Inl ProfileDecodeError | Inl e \<Rightarrow> Inl (ProfileSystemExit e) | Inr a \<Rightarrow> Inr a)"

definition build_profile_check :: "build_world \<Rightarrow> profile_exn + unit" where
  "build_profile_check w =
     rbind (profile_exit (load_profiles (bw_inventory w))) (\<lambda>profiles.
     rbind (profile_exit (host_profile (bw_system w) (bw_machine w) profiles)) (\<lambda>profile.
     rbind (verify_llvm_profile w profile) (\<lambda>_. verify_binary w profile)))"

text \<open>\<open>Inl\<close> is the exception that ends the command.\<close>

definition build_profile_main :: "build_world \<Rightarrow> profile_exn + int" where
  "build_profile_main w =
     (case build_profile_check w of
        Inr _ \<Rightarrow> Inr 0
      | Inl (BuildProfileError _) \<Rightarrow> Inr 1
      | Inl ProfileOSError \<Rightarrow> Inr 1
      | Inl e \<Rightarrow> Inl e)"

section \<open>What a passing run shows\<close>

text \<open>The header of the definition a list of lines begins with: the lines up to the first that ends one.\<close>

fun header_of_lines :: "str list \<Rightarrow> str list" where
  "header_of_lines [] = []"
| "header_of_lines (l # ls) = strip l # (if ends_header (strip l) then [] else header_of_lines ls)"

lemma open_header_checked:
  "check_definitions groups (Some hs) n ls = Inr k \<Longrightarrow> check_reference groups (header_text (hs @ header_of_lines ls)) = Inr ()"
proof (induction ls arbitrary: hs)
  case (Cons l ls)
  then show ?case using Cons.IH [of "hs @ [strip l]"] by (auto simp: rbind_Inr split: if_splits)
qed simp

lemma definition_checked:
  "check_definitions groups st n ls = Inr k \<Longrightarrow> ls = pre @ l # post \<Longrightarrow> is_definition l \<Longrightarrow> interrupts_header (strip l)
   \<Longrightarrow> check_reference groups (header_text (header_of_lines (l # post))) = Inr ()"
proof (induction groups st n ls arbitrary: pre rule: check_definitions.induct)
  case (3 groups n x xs)
  show ?case
  proof (cases pre)
    case Nil
    then have x: "x = l" "xs = post" using "3.prems" by auto
    show ?thesis
    proof (cases "ends_header (strip l)")
      case False
      then have "check_definitions groups (Some [strip l]) (Suc n) post = Inr k" using "3.prems" x by simp
      then show ?thesis using open_header_checked [of groups "[strip l]"] False by simp
    qed (use "3.prems" x in \<open>simp add: rbind_Inr\<close>)
  next
    case (Cons y pre')
    then show ?thesis using "3.prems" "3.IH" by (auto simp: rbind_Inr split: if_splits)
  qed
next
  case (4 groups hs n x xs)
  then show ?case by (cases pre) (auto simp: rbind_Inr split: if_splits)
qed auto

lemma reference_checked:
  assumes "check_reference groups header = Inr ()"
  obtains r number t where "references header = [r]" "limited_int r = Inr number" "map_of groups number = Some (Some t)"
  using assms by (auto simp: check_reference_def rbind_Inr split: list.splits option.splits)

lemma targets_required: "require_targets differs expected ts = Inr () \<longleftrightarrow> (\<forall>t\<in>set ts. normalized_target t = Inr expected)"
proof (induction ts)
  case (Cons t ts)
  then show ?case by (cases expected) (auto simp: rbind_Inr)
qed simp

lemma group_is_target: "map_of groups number = Some (Some t) \<Longrightarrow> t \<in> set (group_targets groups)"
  by (force simp: group_targets_def set_map_filter dest: map_of_SomeD)

lemma parsed_targets:
  assumes "parse_llvm_target_attributes output = Inr targets"
  shows "targets \<noteq> [] \<and> (\<exists>groups k. read_groups (splitlines output) [] = Inr groups \<and> targets = group_targets groups
     \<and> check_definitions groups None 0 (splitlines output) = Inr k \<and> k \<noteq> 0)"
  using assms by (auto simp: parse_llvm_target_attributes_def rbind_Inr split: if_splits)

definition main_ir :: "build_world \<Rightarrow> str" where
  "main_ir w = bw_temp w @ lit ''/'' @ lit ''main.ll''"

lemma verified_targets:
  assumes "verify_llvm_profile w profile = Inr ()"
  obtains expected wanted ir targets where "map_of EXPECTED_TARGETS (pp_name profile) = Some expected"
    "normalized_target expected = Inr wanted" "read_ir w (main_ir w) = Inr ir"
    "parse_llvm_target_attributes ir = Inr targets" "\<forall>t\<in>set targets. normalized_target t = Inr wanted"
proof -
  obtain expected wanted probe main_targets proven where
      e: "map_of EXPECTED_TARGETS (pp_name profile) = Some expected" "normalized_target expected = Inr wanted"
    and p: "llvm_targets w profile TARGET_PROBE ''target-probe.ll'' False = Inr probe"
    and q: "\<forall>t\<in>set probe. normalized_target t = Inr wanted"
    and m: "llvm_targets w profile MAIN_SOURCE ''main.ll'' True = Inr main_targets"
    and n: "normalized_target (hd probe) = Inr proven" "\<forall>t\<in>set main_targets. normalized_target t = Inr proven"
    using assms by (auto simp: verify_llvm_profile_def rbind_Inr targets_required split: option.splits)
  have "probe \<noteq> []" using p parsed_targets by (auto simp: llvm_targets_def Let_def rbind_Inr)
  then have "proven = wanted" using q n(1) by simp
  moreover obtain ir where "read_ir w (main_ir w) = Inr ir" "parse_llvm_target_attributes ir = Inr main_targets"
    using m by (auto simp: llvm_targets_def Let_def rbind_Inr main_ir_def)
  ultimately show thesis using that e n(2) by blast
qed

lemma build_profile_passes:
  "build_profile_main w = Inr 0 \<longleftrightarrow> build_profile_check w = Inr ()"
  by (auto simp: build_profile_main_def split: sum.splits profile_exn.splits)

text \<open>
  C18 (every function is compiled for the promised processor): when the check passes, the profile of the host
  is one of the inventory with an independent oracle, and every line of the program's LLVM output that begins a function
  definition begins a header that references exactly one attribute group, whose processor and features are those of
  the oracle.
\<close>

theorem shipped_functions_target_oracle:
  assumes "build_profile_main w = Inr 0"
  shows "\<exists>profiles profile expected wanted ir groups.
     load_profiles (bw_inventory w) = Inr profiles \<and> host_profile (bw_system w) (bw_machine w) profiles = Inr profile
     \<and> map_of EXPECTED_TARGETS (pp_name profile) = Some expected \<and> normalized_target expected = Inr wanted
     \<and> read_ir w (main_ir w) = Inr ir \<and> read_groups (splitlines ir) [] = Inr groups
     \<and> (\<forall>pre l post. splitlines ir = pre @ l # post \<longrightarrow> is_definition l \<longrightarrow> startswith (strip l) (lit ''define '') \<longrightarrow>
          (\<exists>r number t. references (header_text (header_of_lines (l # post))) = [r] \<and> limited_int r = Inr number
             \<and> map_of groups number = Some (Some t) \<and> normalized_target t = Inr wanted))"
proof -
  obtain profiles profile where p: "profile_exit (load_profiles (bw_inventory w)) = Inr profiles"
      "profile_exit (host_profile (bw_system w) (bw_machine w) profiles) = Inr profile" "verify_llvm_profile w profile = Inr ()"
    using assms by (auto simp: build_profile_passes build_profile_check_def rbind_Inr)
  have loaded: "load_profiles (bw_inventory w) = Inr profiles" "host_profile (bw_system w) (bw_machine w) profiles = Inr profile"
    using p(1,2) by (auto simp: profile_exit_def split: sum.splits profile_fault.splits)
  obtain expected wanted ir targets where t: "map_of EXPECTED_TARGETS (pp_name profile) = Some expected"
      "normalized_target expected = Inr wanted" "read_ir w (main_ir w) = Inr ir"
      "parse_llvm_target_attributes ir = Inr targets" "\<forall>t\<in>set targets. normalized_target t = Inr wanted"
    by (rule verified_targets [OF p(3)])
  obtain groups k where g: "read_groups (splitlines ir) [] = Inr groups" "targets = group_targets groups"
      "check_definitions groups None 0 (splitlines ir) = Inr k"
    using parsed_targets [OF t(4)] by blast
  have "\<exists>r number t. references (header_text (header_of_lines (l # post))) = [r] \<and> limited_int r = Inr number
      \<and> map_of groups number = Some (Some t) \<and> normalized_target t = Inr wanted"
    if "splitlines ir = pre @ l # post" "is_definition l" "startswith (strip l) (lit ''define '')" for pre l post
  proof -
    have "interrupts_header (strip l)" using that(3) by (simp add: interrupts_header_def)
    then have "check_reference groups (header_text (header_of_lines (l # post))) = Inr ()"
      by (rule definition_checked [OF g(3) that(1,2)])
    then obtain r number u where "references (header_text (header_of_lines (l # post))) = [r]" "limited_int r = Inr number"
        "map_of groups number = Some (Some u)"
      by (rule reference_checked)
    then show ?thesis using group_is_target t(5) g(2) by blast
  qed
  then show ?thesis using loaded t(1-3) g(1) by blast
qed

text \<open>A host and a compiler whose run passes.\<close>

definition eg_ir :: str where
  "eg_ir = lines_of (map lit
     [''define internal void @f(i64 %0,'', ''  i64 %1) #0 {'', ''}'', ''define void @g() #0 {'', ''}'',
      ''attributes #0 = { \"target-cpu\"=\"x86-64\" \"target-features\"=\"+cmov,+cx8,+fxsr,+mmx,+sse,+sse2,+x87\" }'',
      ''attributes #1 = { nounwind }''])"

definition eg_build :: build_world where
  "eg_build =
     \<lparr> bw_run = (\<lambda>argv. Some (0, if hd argv = lit ''readelf'' then lit ''  [ 1] .text PROGBITS'' else [])),
       bw_file = (\<lambda>_. Some (utf8_encode eg_ir)), bw_binary = True, bw_system = lit ''Linux'', bw_machine = lit ''x86_64'',
       bw_inventory = Some eg_inventory, bw_temp = lit ''/tmp/x'', bw_binary_path = lit ''build/mtest'' \<rparr>"

lemma eg_build_passes: "build_profile_main eg_build = Inr 0"
  by code_simp

theorem shipped_functions_target_oracle_witness:
  "\<exists>profiles profile expected wanted ir groups.
     load_profiles (bw_inventory eg_build) = Inr profiles \<and> host_profile (bw_system eg_build) (bw_machine eg_build) profiles = Inr profile
     \<and> map_of EXPECTED_TARGETS (pp_name profile) = Some expected \<and> normalized_target expected = Inr wanted
     \<and> read_ir eg_build (main_ir eg_build) = Inr ir \<and> read_groups (splitlines ir) [] = Inr groups
     \<and> (\<forall>pre l post. splitlines ir = pre @ l # post \<longrightarrow> is_definition l \<longrightarrow> startswith (strip l) (lit ''define '') \<longrightarrow>
          (\<exists>r number t. references (header_text (header_of_lines (l # post))) = [r] \<and> limited_int r = Inr number
             \<and> map_of groups number = Some (Some t) \<and> normalized_target t = Inr wanted))"
  by (rule shipped_functions_target_oracle [OF eg_build_passes])

text \<open>
  A binary that passes on Linux has no debug section, one that passes elsewhere has the deployment minimum 14.0
  in each of its load commands.
\<close>

lemma binary_verified:
  assumes "verify_binary w profile = Inr ()"
  shows "bw_binary w \<and>
    (if pp_system profile = lit ''Linux''
     then \<exists>out. run_tool w [lit ''readelf'', lit ''-S'', bw_binary_path w] = Inr out
            \<and> (\<forall>l\<in>set (splitlines out). \<forall>n. first_group ELF_SECTION l = Some n \<longrightarrow> \<not> startswith n (lit ''.debug_''))
     else \<exists>out versions. run_tool w [lit ''otool'', lit ''-l'', bw_binary_path w] = Inr out
            \<and> parse_macho_minimum_versions out = Inr versions \<and> (\<forall>v\<in>set versions. v = (14, 0, 0)))"
proof -
  have "\<not> startswith n (lit ''.debug_'')"
    if "parse_elf_debug_sections out = Inr []" "l \<in> set (splitlines out)" "first_group ELF_SECTION l = Some n" for out l n
  proof -
    have "n \<in> set (List.map_filter (first_group ELF_SECTION) (splitlines out))"
      using that(2,3) by (auto simp: set_map_filter)
    then show ?thesis using that(1) by (auto simp: parse_elf_debug_sections_def Let_def filter_empty_conv split: if_splits)
  qed
  then show ?thesis
    using assms by (auto simp: verify_binary_def rbind_Inr list_ex_iff split: if_splits)
qed

end
