(* ===== verification/Native_Abi.thy ===== *)
theory Native_Abi
  imports Profiles Regex
begin

text \<open>
  scripts/checks/native_sources.py and scripts/checks/native_abi.py: the tracked native sources, the strict flags, the
  exported symbols of the native objects, and the evidence that the production object is protected against
  stack overruns, read from a disassembly and its relocations.  The compiler, nm, objdump and otool are the
  argument \<open>nw_run\<close>; no command is run twice.
\<close>

section \<open>Tracked sources\<close>

text \<open>\<open>SystemExit\<close> of either module; the last two are other exceptions.\<close>

datatype abi_fault =
    GitFailed
  | EscapesRoot str
  | SourceMissing str
  | NoSources
  | NoStrictFlags
  | NotStronglyProtected
  | WeaklyProtected
  | WarningsSuppressed "str list"
  | WarningFlagsDiffer "str list" "str list"
  | CompilerFails
  | WrongCompiler str
  | NmFailed str
  | UnknownPlatform str
  | DuplicateLabel str
  | TextSections nat
  | NoFunctions
  | NoInstructions str
  | AddressesNotIncreasing str
  | AmbiguousStart int "str list"
  | OverlappingRanges "int \<times> int \<times> str" "int \<times> int \<times> str"
  | UnparsedHeader str
  | RelocationOutside str
  | UnparsedRelocation str
  | NotExactRelocation str
  | DuplicateRelocation int
  | NotOneFunction int
  | RelocationsNeeded
  | NothingProtected
  | DisassemblyFailed
  | RelocationsFailed
  | NotReferenced str
  | CanaryCompileFails bool
  | CanaryUnprotected
  | CanaryStillProtected
  | FlagsChanged
  | SourceListEmpty
  | RequiredFileMissing str
  | ObjectMissing str
  | SymbolsDiffer bool "str list" "str list"
  | AbiProfileExit profile_fault
  | NativeCompileFails
  | UnexpectedSymbols bool
  | ProductionBuildFails
  | AbiOSError
  | AbiDecodeError

definition NATIVE_DIRS :: "str list" where "NATIVE_DIRS = [lit ''native'', lit ''tests/native'']"
definition SOURCE_SUFFIXES :: "str list" where "SOURCE_SUFFIXES = [lit ''.c'', lit ''.h'']"

text \<open>\<open>Path.suffix\<close>: from the last dot of the name, which is neither its first nor its last character.\<close>

definition name_suffix :: "str \<Rightarrow> str" where
  "name_suffix name =
     (let ext = takeWhile (\<lambda>c. c \<noteq> 46) (rev name)
      in if ext = [] \<or> length name \<le> Suc (length ext) then [] else 46 # rev ext)"

definition parts_of :: "str \<Rightarrow> str list" where
  "parts_of s = filter (\<lambda>c. c \<noteq> [] \<and> c \<noteq> [46]) (split_on 47 s)"

text \<open>
  What the world answers: \<open>git ls-files\<close>, the resolution of a path below the root, the files, the commands with
  their exit status and output, and the environment.
\<close>

record native_world =
  nw_listed :: "str list option"
  nw_root :: "str list"
  nw_resolve :: "str list \<Rightarrow> str list"
  nw_is_file :: "str list \<Rightarrow> bool"
  nw_flags_loaded :: "bytes option"
  nw_flags_now :: "bytes option"
  nw_inventory :: "bytes option"
  nw_run :: "str list \<Rightarrow> (int \<times> str) option"
  nw_env :: "str \<Rightarrow> str option"
  nw_platform :: str
  nw_system :: str
  nw_machine :: str
  nw_temp :: str

definition take_source :: "native_world \<Rightarrow> str \<Rightarrow> abi_fault + str list option" where
  "take_source w entry =
     (let parts = parts_of entry
      in if parts = [] \<or> name_suffix (last parts) \<notin> set SOURCE_SUFFIXES then Inr None
         else if startswith entry (lit ''/'') then Inl (EscapesRoot entry)
         else let source = nw_resolve w (nw_root w @ parts)
              in if take (length (nw_root w)) source \<noteq> nw_root w then Inl (EscapesRoot entry)
                 else if \<not> nw_is_file w source then Inl (SourceMissing entry)
                 else Inr (Some source))"

definition below_root :: "native_world \<Rightarrow> str list \<Rightarrow> str" where
  "below_root w source = join_with [47] (drop (length (nw_root w)) source)"

definition tracked_native_sources :: "native_world \<Rightarrow> abi_fault + str list list" where
  "tracked_native_sources w =
     (case nw_listed w of
        None \<Rightarrow> Inl GitFailed
      | Some listed \<Rightarrow>
          rbind (rmap (take_source w) (filter (\<lambda>e. e \<noteq> []) listed)) (\<lambda>found.
            let sources = sort_key (below_root w) (List.map_filter id found)
            in if sources = [] then Inl NoSources else Inr sources))"

section \<open>Strict flags\<close>

definition CURATED_WARNING_FLAGS :: "str list" where
  "CURATED_WARNING_FLAGS = map lit
     [''-Wall'', ''-Wextra'', ''-Werror'', ''-Wpedantic'', ''-Wconversion'', ''-Wsign-conversion'', ''-Wshadow'',
      ''-Wstrict-prototypes'', ''-Wmissing-prototypes'', ''-Wformat=2'', ''-Wundef'', ''-Wcast-qual'',
      ''-Wwrite-strings'', ''-Wvla'', ''-Wimplicit-fallthrough'', ''-Wdouble-promotion'', ''-Wnull-dereference'',
      ''-Wswitch-enum'', ''-Wswitch-default'', ''-Wcast-align'', ''-Wbad-function-cast'', ''-Wmissing-noreturn'',
      ''-Wredundant-decls'', ''-Walloca'', ''-Warray-bounds'', ''-Wconditional-uninitialized'',
      ''-Wunreachable-code-aggressive'']"

definition STRONG_PROTECTOR :: str where "STRONG_PROTECTOR = lit ''-fstack-protector-strong''"

definition PRODUCTION_SYMBOLS :: "str list" where
  "PRODUCTION_SYMBOLS = map (\<lambda>n. lit ''mtest_exec_'' @ lit n)
     [''fd_limit'', ''interrupt_count'', ''interrupt_requested'', ''monotonic_ms'', ''native_abi_version'', ''poll_set'',
      ''process_abort'', ''process_channel_close'', ''process_close'', ''process_group'', ''process_observe'',
      ''process_open'', ''process_poll'', ''process_read'', ''process_reap'', ''process_setup_drain'',
      ''runtime_close'', ''runtime_open'']"

definition TEST_ONLY_SYMBOLS :: "str list" where
  "TEST_ONLY_SYMBOLS = map (\<lambda>n. lit ''mtest_exec_test_'' @ lit n)
     [''arm_interrupt_reentry'', ''asan_leak'', ''asan_oob'', ''asan_uaf'', ''constant'', ''fault_configure'',
      ''fault_configure_handle'', ''fault_configure_secondary'', ''fault_handle_seen'', ''fault_reset'', ''fault_seen'',
      ''group_signal_eperm_configure'', ''group_signal_eperm_seen'', ''invoke_interrupt'', ''monotonic_wait_configure'',
      ''monotonic_wait_fired'', ''nested_interrupt_count'', ''deliver_interrupt_after'', ''memcheck_fd_leak'',
      ''memcheck_invalid'', ''memcheck_undefined'', ''reset_interrupt'']"

definition flag_lines :: "str \<Rightarrow> str list" where
  "flag_lines s = filter (\<lambda>l. l \<noteq> [] \<and> \<not> startswith l (lit ''#'')) (map strip (splitlines s))"

definition check_flags :: "str list \<Rightarrow> abi_fault + str list" where
  "check_flags flags =
     (let suppressors = filter (\<lambda>f. f = lit ''-w'' \<or> f = lit ''--no-warnings'') flags;
          warnings = filter (\<lambda>f. startswith f (lit ''-W'')) flags
      in if flags = [] then Inl NoStrictFlags
         else if count_list flags STRONG_PROTECTOR \<noteq> 1 then Inl NotStronglyProtected
         else if lit ''-fstack-protector'' \<in> set flags then Inl WeaklyProtected
         else if suppressors \<noteq> [] then Inl (WarningsSuppressed suppressors)
         else if warnings \<noteq> CURATED_WARNING_FLAGS
         then Inl (WarningFlagsDiffer (filter (\<lambda>f. f \<notin> set warnings) CURATED_WARNING_FLAGS)
                                      (filter (\<lambda>f. f \<notin> set CURATED_WARNING_FLAGS) warnings))
         else Inr flags)"

definition load_strict_flags :: "bytes option \<Rightarrow> abi_fault + str list" where
  "load_strict_flags file =
     (case file of
        None \<Rightarrow> Inl AbiOSError
      | Some b \<Rightarrow> (case read_utf8 b of None \<Rightarrow> Inl AbiDecodeError | Some s \<Rightarrow> check_flags (flag_lines s)))"

section \<open>Commands\<close>

definition run_native :: "native_world \<Rightarrow> str list \<Rightarrow> abi_fault + int \<times> str" where
  "run_native w argv = (case nw_run w argv of None \<Rightarrow> Inl AbiOSError | Some answer \<Rightarrow> Inr answer)"

definition require_run :: "native_world \<Rightarrow> abi_fault \<Rightarrow> str list \<Rightarrow> abi_fault + str" where
  "require_run w failed argv =
     rbind (run_native w argv) (\<lambda>(code, out). if code \<noteq> 0 then Inl failed else Inr out)"

definition tool :: "native_world \<Rightarrow> string \<Rightarrow> string \<Rightarrow> str" where
  "tool w variable otherwise = (case nw_env w (lit variable) of None \<Rightarrow> lit otherwise | Some t \<Rightarrow> t)"

abbreviation on_darwin :: "native_world \<Rightarrow> bool" where
  "on_darwin w \<equiv> nw_platform w = lit ''darwin''"

definition compiler :: "native_world \<Rightarrow> abi_fault + str" where
  "compiler w =
     (let cc = tool w ''CC'' ''clang''
      in rbind (require_run w CompilerFails [cc, lit ''--version'']) (\<lambda>version.
           if contains version (lit ''clang version 18.1.8'') then Inr cc else Inl (WrongCompiler version)))"

definition current_profile :: "native_world \<Rightarrow> abi_fault + production_profile" where
  "current_profile w =
     (case rbind (load_profiles (nw_inventory w)) (host_profile (nw_system w) (nw_machine w)) of
        Inl InventoryNotUtf8 \<Rightarrow> Inl AbiDecodeError
      | Inl e \<Rightarrow> Inl (AbiProfileExit e)
      | Inr p \<Rightarrow> Inr p)"

text \<open>The symbols \<open>nm\<close> lists, as a list whose set is the set of the source.\<close>

definition defined_symbol :: "bool \<Rightarrow> str \<Rightarrow> str option" where
  "defined_symbol darwin line =
     (let fields = split_words [] line
      in if length fields < 2 then None
         else let symbol = last fields in Some (if darwin \<and> startswith symbol (lit ''_'') then tl symbol else symbol))"

definition defined_symbols :: "native_world \<Rightarrow> str \<Rightarrow> abi_fault + str list" where
  "defined_symbols w object_path =
     (let nm = tool w ''NM'' ''nm'';
          argv = (if on_darwin w then [nm, lit ''-gU'', object_path] else [nm, lit ''-g'', lit ''--defined-only'', object_path])
      in rbind (require_run w (NmFailed object_path) argv) (\<lambda>out.
           Inr (List.map_filter (defined_symbol (on_darwin w)) (splitlines out))))"

definition undefined_symbols :: "native_world \<Rightarrow> str \<Rightarrow> abi_fault + str list" where
  "undefined_symbols w object_path =
     rbind (require_run w (NmFailed object_path) [tool w ''NM'' ''nm'', lit ''-u'', object_path]) (\<lambda>out.
       Inr (map last (filter (\<lambda>fields. fields \<noteq> []) (map (split_words []) (splitlines out)))))"

section \<open>Function regions\<close>

definition is_hex :: "int \<Rightarrow> bool" where
  "is_hex c \<longleftrightarrow> is_ascii_digit c \<or> (65 \<le> c \<and> c \<le> 70) \<or> (97 \<le> c \<and> c \<le> 102)"

definition hex_digit :: "int \<Rightarrow> int" where
  "hex_digit c = (if is_ascii_digit c then c - 48 else if c \<le> 70 then c - 55 else c - 87)"

definition hex_value :: "str \<Rightarrow> int" where
  "hex_value s = foldl (\<lambda>n c. n * 16 + hex_digit c) 0 s"

text \<open>\<open>[A-Za-z0-9_.$]\<close>, and the first character of a Darwin label\<close>

definition symbol_char :: "int \<Rightarrow> bool" where
  "symbol_char c \<longleftrightarrow> is_ascii_alnum c \<or> c = 95 \<or> c = 46 \<or> c = 36"

definition label_start :: "int \<Rightarrow> bool" where
  "label_start c \<longleftrightarrow> symbol_char c \<and> \<not> is_ascii_digit c \<and> c \<noteq> 46"

text \<open>\<open>^_(?P<name>[A-Za-z_$][A-Za-z0-9_.$]*):$\<close> and \<open>^[0-9A-Fa-f]+ <(?P<name>[^>]+)>:$\<close>\<close>

definition DARWIN_LABEL :: re where
  "DARWIN_LABEL = re_seq [re_lit ''_'', Grp 1 (Seq (Chr label_start) (re_star (Chr symbol_char))), re_lit '':'']"

definition LINUX_LABEL :: re where
  "LINUX_LABEL = re_seq [re_plus (Chr is_hex), re_lit '' <'', Grp 1 (re_plus (Chr (\<lambda>c. c \<noteq> 62))), re_lit ''>:'']"

definition label_name :: "re \<Rightarrow> str \<Rightarrow> str option" where
  "label_name label line = map_option (\<lambda>m. group_text m 1) (re_fullmatch label (strip line))"

definition labels :: "re \<Rightarrow> str list \<Rightarrow> (nat \<times> str) list" where
  "labels label lines = List.map_filter (\<lambda>(i, l). map_option (Pair i) (label_name label l)) (enumerate 0 lines)"

text \<open>Each label with the line behind the last of its region.\<close>

fun bounded_labels :: "nat \<Rightarrow> (nat \<times> str) list \<Rightarrow> (nat \<times> nat \<times> str) list" where
  "bounded_labels stop [] = []"
| "bounded_labels stop [(i, name)] = [(i, stop, name)]"
| "bounded_labels stop ((i, name) # (j, next_name) # rest) = (i, j, name) # bounded_labels stop ((j, next_name) # rest)"

fun regions_from :: "str list \<Rightarrow> (nat \<times> nat \<times> str) list \<Rightarrow> (str, str) dict \<Rightarrow> abi_fault + (str, str) dict" where
  "regions_from lines [] regions = Inr regions"
| "regions_from lines ((i, j, name) # rest) regions =
     (if map_of regions name \<noteq> None then Inl (DuplicateLabel name)
      else regions_from lines rest (regions @ [(name, join_with [10] (drop i (take j lines)))]))"

definition function_regions :: "str \<Rightarrow> str \<Rightarrow> abi_fault + (str, str) dict" where
  "function_regions listing platform_name =
     (let lines = splitlines listing;
          read = (\<lambda>label. regions_from lines (bounded_labels (length lines) (labels label lines)) [])
      in if platform_name = lit ''darwin'' then read DARWIN_LABEL
         else if platform_name = lit ''linux'' then read LINUX_LABEL
         else Inl (UnknownPlatform platform_name))"

definition re_text :: "str \<Rightarrow> re" where
  "re_text s = re_seq (map (\<lambda>c. Chr (\<lambda>x. x = c)) s)"

text \<open>\<open>(?<![A-Za-z0-9_.$])symbol(?![A-Za-z0-9_.$])\<close>\<close>

definition SYMBOL_REFERENCE :: "str \<Rightarrow> re" where
  "SYMBOL_REFERENCE symbol =
     Seq (Before (\<lambda>p. case p of None \<Rightarrow> True | Some c \<Rightarrow> \<not> symbol_char c)) (Seq (re_text symbol) (NotLook (Chr symbol_char)))"

definition references_symbol :: "str \<Rightarrow> str \<Rightarrow> bool" where
  "references_symbol region symbol = re_search (SYMBOL_REFERENCE symbol) region"

definition protected_names :: "(str, str) dict \<Rightarrow> str \<Rightarrow> str list" where
  "protected_names regions symbol = sort (map fst (filter (\<lambda>(_, region). references_symbol region symbol) regions))"

section \<open>Function ranges on Darwin\<close>

primrec re_upto :: "nat \<Rightarrow> re \<Rightarrow> re" where
  "re_upto 0 r = Eps"
| "re_upto (Suc n) r = Alt (Seq r (re_upto n r)) Eps"

text \<open>\<open>[0-9A-Fa-f]{8,16}\<close>\<close>

definition hex_address :: re where
  "hex_address = re_seq (replicate 8 (Chr is_hex) @ [re_upto 8 (Chr is_hex)])"

definition INSTRUCTION :: re where
  "INSTRUCTION = Seq (Grp 1 hex_address) re_spaces"

definition instruction_address :: "str \<Rightarrow> int option" where
  "instruction_address line =
     map_option (\<lambda>st. hex_value (group_text (st_caps st) 1)) (re_match_at INSTRUCTION None (strip line))"

type_synonym function_range = "int \<times> int \<times> str"

definition TEXT_SECTION :: str where "TEXT_SECTION = lit ''(__TEXT,__text) section''"

definition function_addresses :: "str list \<Rightarrow> nat \<times> nat \<times> str \<Rightarrow> int list" where
  "function_addresses lines f = List.map_filter instruction_address (drop (Suc (fst f)) (take (fst (snd f)) lines))"

fun read_ranges :: "str list \<Rightarrow> (nat \<times> nat \<times> str) list \<Rightarrow> function_range list \<Rightarrow> abi_fault + function_range list" where
  "read_ranges lines [] ranges = Inr ranges"
| "read_ranges lines (f # rest) ranges =
     (let name = snd (snd f); addresses = function_addresses lines f
      in if name \<in> (snd \<circ> snd) ` set ranges then Inl (DuplicateLabel name)
         else if addresses = [] then Inl (NoInstructions name)
         else if addresses \<noteq> sort (remdups addresses) then Inl (AddressesNotIncreasing name)
         else read_ranges lines rest (ranges @ [(hd addresses, last addresses + 4, name)]))"

text \<open>The names that start at an address, in the order of the ranges; the first address with two is refused.\<close>

definition names_starting_at :: "function_range list \<Rightarrow> int \<Rightarrow> str list" where
  "names_starting_at ranges start = map (snd \<circ> snd) (filter (\<lambda>f. fst f = start) ranges)"

definition check_starts :: "function_range list \<Rightarrow> abi_fault + unit" where
  "check_starts ranges =
     (case List.find (\<lambda>start. length (names_starting_at ranges start) \<noteq> 1) (map fst ranges) of
        None \<Rightarrow> Inr ()
      | Some start \<Rightarrow> Inl (AmbiguousStart start (sort (names_starting_at ranges start))))"

fun check_pairs :: "function_range list \<Rightarrow> abi_fault + unit" where
  "check_pairs (f # g # rest) =
     (if fst g < fst (snd f) then Inl (OverlappingRanges f g) else check_pairs (g # rest))"
| "check_pairs fs = Inr ()"

definition darwin_function_ranges :: "str \<Rightarrow> abi_fault + function_range list" where
  "darwin_function_ranges listing =
     (let lines = splitlines listing; headers = filter (\<lambda>(_, l). strip l = TEXT_SECTION) (enumerate 0 lines)
      in case headers of
           [(i, _)] \<Rightarrow>
             (let text_lines = drop (Suc i) lines; found = labels DARWIN_LABEL text_lines
              in if found = [] then Inl NoFunctions
                 else rbind (read_ranges text_lines (bounded_labels (length text_lines) found) []) (\<lambda>ranges.
                      rbind (check_starts ranges) (\<lambda>_.
                      rbind (check_pairs (sort ranges)) (\<lambda>_. Inr (sort ranges)))))
         | _ \<Rightarrow> Inl (TextSections (length headers)))"

section \<open>Relocations on Darwin\<close>

definition in_brackets :: "int \<Rightarrow> bool" where
  "in_brackets c \<longleftrightarrow> c \<noteq> 44 \<and> c \<noteq> 40 \<and> c \<noteq> 41 \<and> \<not> is_space c"

definition SECTION_HEADER :: re where
  "SECTION_HEADER = re_seq
     [re_lit ''Relocation information ('', Grp 1 (re_plus (Chr in_brackets)), re_lit '','', Grp 2 (re_plus (Chr in_brackets)),
      re_lit '') '', re_plus (Chr is_ascii_digit), re_lit '' entries'']"

definition true_or_false :: re where "true_or_false = Alt (re_lit ''True'') (re_lit ''False'')"

definition RELOCATION :: re where
  "RELOCATION = re_seq
     [Grp 1 hex_address, re_spaces, Grp 2 true_or_false, re_spaces,
      Grp 3 (re_alt [re_lit ''byte'', re_lit ''word'', re_lit ''long'', re_lit ''quad'']), re_spaces, Grp 4 true_or_false, re_spaces,
      Grp 5 (re_plus (Chr (\<lambda>c. (65 \<le> c \<and> c \<le> 90) \<or> is_ascii_digit c \<or> c = 95))), re_spaces, Grp 6 true_or_false, re_spaces,
      Grp 7 (re_plus (Chr (\<lambda>c. \<not> is_space c)))]"

definition exact_relocation :: "str \<Rightarrow> re_match \<Rightarrow> bool" where
  "exact_relocation symbol m \<longleftrightarrow>
     map (group_text m) [2, 3, 4, 5, 6, 7] =
     [lit ''True'', lit ''long'', lit ''True'', lit ''BR26'', lit ''False'', symbol]"

definition read_relocation :: "str \<Rightarrow> str \<Rightarrow> int list \<Rightarrow> abi_fault + int list" where
  "read_relocation symbol line addresses =
     (case re_fullmatch RELOCATION line of
        None \<Rightarrow> Inl (UnparsedRelocation line)
      | Some m \<Rightarrow>
          let address = hex_value (group_text m 1)
          in if \<not> exact_relocation symbol m then Inl (NotExactRelocation line)
             else if address \<in> set addresses then Inl (DuplicateRelocation address)
             else Inr (addresses @ [address]))"

fun read_relocations ::
  "str \<Rightarrow> (str \<times> str) option \<Rightarrow> str list \<Rightarrow> int list \<Rightarrow> abi_fault + int list" where
  "read_relocations symbol current [] addresses = Inr addresses"
| "read_relocations symbol current (raw # rest) addresses =
     (let line = strip raw
      in case re_fullmatch SECTION_HEADER line of
           Some m \<Rightarrow> read_relocations symbol (Some (group_text m 1, group_text m 2)) rest addresses
         | None \<Rightarrow>
             if startswith line (lit ''Relocation information '') then Inl (UnparsedHeader line)
             else if \<not> references_symbol line symbol then read_relocations symbol current rest addresses
             else if current \<noteq> Some (lit ''__TEXT'', lit ''__text'') then Inl (RelocationOutside line)
             else rbind (read_relocation symbol line addresses) (read_relocations symbol current rest))"

definition darwin_target_relocation_addresses :: "str \<Rightarrow> str \<Rightarrow> abi_fault + int list" where
  "darwin_target_relocation_addresses relocations symbol =
     rbind (read_relocations symbol None (splitlines relocations) []) (\<lambda>addresses. Inr (sort addresses))"

definition covers :: "int \<Rightarrow> function_range \<Rightarrow> bool" where
  "covers address f \<longleftrightarrow> fst f \<le> address \<and> address < fst (snd f)"

definition function_at :: "function_range list \<Rightarrow> int \<Rightarrow> abi_fault + str" where
  "function_at ranges address =
     (case filter (covers address) ranges of [f] \<Rightarrow> Inr (snd (snd f)) | _ \<Rightarrow> Inl (NotOneFunction address))"

definition darwin_protected_names :: "str \<Rightarrow> str \<Rightarrow> str \<Rightarrow> abi_fault + str list" where
  "darwin_protected_names listing relocations symbol =
     rbind (darwin_function_ranges listing) (\<lambda>ranges.
     rbind (darwin_target_relocation_addresses relocations symbol) (\<lambda>addresses.
     rbind (rmap (function_at ranges) addresses) (\<lambda>names. Inr (sort (remdups names)))))"

section \<open>The evidence\<close>

definition protected_function_names :: "str \<Rightarrow> str \<Rightarrow> str \<Rightarrow> str option \<Rightarrow> abi_fault + str list" where
  "protected_function_names listing symbol platform_name relocations =
     (if platform_name = lit ''darwin''
      then (case relocations of
              None \<Rightarrow> Inl RelocationsNeeded
            | Some r \<Rightarrow> darwin_protected_names listing r symbol)
      else rbind (function_regions listing platform_name) (\<lambda>regions. Inr (protected_names regions symbol)))"

definition require_protected_functions :: "str \<Rightarrow> str \<Rightarrow> str \<Rightarrow> str option \<Rightarrow> abi_fault + str list" where
  "require_protected_functions listing symbol platform_name relocations =
     rbind (protected_function_names listing symbol platform_name relocations) (\<lambda>names.
       if names = [] then Inl NothingProtected else Inr names)"

definition disassembly :: "native_world \<Rightarrow> str \<Rightarrow> abi_fault + str" where
  "disassembly w object_path =
     (if nw_platform w = lit ''linux'' then require_run w DisassemblyFailed [tool w ''OBJDUMP'' ''objdump'', lit ''-dr'', object_path]
      else if on_darwin w then require_run w DisassemblyFailed [tool w ''OTOOL'' ''otool'', lit ''-tvV'', object_path]
      else Inl (UnknownPlatform (nw_platform w)))"

definition darwin_relocations :: "native_world \<Rightarrow> str \<Rightarrow> abi_fault + str" where
  "darwin_relocations w object_path =
     (if \<not> on_darwin w then Inl (UnknownPlatform (nw_platform w))
      else require_run w RelocationsFailed [tool w ''OTOOL'' ''otool'', lit ''-rv'', object_path])"

definition stack_check_symbol :: "str \<Rightarrow> abi_fault + str" where
  "stack_check_symbol platform_name =
     (if platform_name = lit ''linux'' then Inr (lit ''__stack_chk_fail'')
      else if platform_name = lit ''darwin'' then Inr (lit ''___stack_chk_fail'')
      else Inl (UnknownPlatform platform_name))"

definition root_path :: "native_world \<Rightarrow> string \<Rightarrow> str" where
  "root_path w below = lit ''/'' @ join_with [47] (nw_root w @ [lit below])"

definition compile_canary :: "native_world \<Rightarrow> str \<Rightarrow> production_profile \<Rightarrow> str list \<Rightarrow> string \<Rightarrow> abi_fault + str" where
  "compile_canary w cc profile flags name =
     (let out_path = nw_temp w @ lit ''/'' @ lit name
      in rbind (require_run w (CanaryCompileFails (STRONG_PROTECTOR \<in> set flags))
                  ([cc] @ flags @ pp_c_flags profile
                   @ [lit ''-c'', root_path w ''tests/native/stack_protector_canary.c'', lit ''-o'', out_path])) (\<lambda>_. Inr out_path))"

definition verify_stack_protector ::
  "native_world \<Rightarrow> str \<Rightarrow> str list \<Rightarrow> production_profile \<Rightarrow> str \<Rightarrow> abi_fault + str list" where
  "verify_stack_protector w cc strict profile production =
     rbind (stack_check_symbol (nw_platform w)) (\<lambda>symbol.
     rbind (undefined_symbols w production) (\<lambda>undefineds.
       if symbol \<notin> set undefineds then Inl (NotReferenced symbol)
       else rbind (disassembly w production) (\<lambda>listing.
       rbind (if on_darwin w then rbind (darwin_relocations w production) (\<lambda>r. Inr (Some r)) else Inr None) (\<lambda>relocations.
       rbind (require_protected_functions listing symbol (nw_platform w) relocations) (\<lambda>names.
       rbind (compile_canary w cc profile strict ''positive.o'') (\<lambda>positive.
       rbind (compile_canary w cc profile (filter (\<lambda>f. f \<noteq> STRONG_PROTECTOR) strict) ''negative.o'') (\<lambda>negative.
       rbind (undefined_symbols w positive) (\<lambda>in_positive.
         if symbol \<notin> set in_positive then Inl CanaryUnprotected
         else rbind (undefined_symbols w negative) (\<lambda>in_negative.
           if symbol \<in> set in_negative then Inl CanaryStillProtected else Inr names)))))))))"

section \<open>The command\<close>

definition PRODUCTION_OBJECT :: string where "PRODUCTION_OBJECT = ''build/native/mtest_exec_native.o''"
definition TESTING_OBJECT :: string where "TESTING_OBJECT = ''build/native/mtest_exec_native_test.o''"

definition require_symbols :: "bool \<Rightarrow> str list \<Rightarrow> str list \<Rightarrow> abi_fault + unit" where
  "require_symbols testing expected got =
     (if set got \<noteq> set expected
      then Inl (SymbolsDiffer testing (sort (filter (\<lambda>s. s \<notin> set got) expected))
                                      (sort (remdups (filter (\<lambda>s. s \<notin> set expected) got))))
      else Inr ())"

definition require_file :: "native_world \<Rightarrow> (str \<Rightarrow> abi_fault) \<Rightarrow> str list \<Rightarrow> abi_fault + unit" where
  "require_file w missing p = (if nw_is_file w p then Inr () else Inl (missing (below_root w p)))"

text \<open>The module reads the sources and the flags when it is imported; the command reads the flags again.\<close>

definition native_abi_main :: "native_world \<Rightarrow> abi_fault + str list" where
  "native_abi_main w =
     rbind (tracked_native_sources w) (\<lambda>sources.
     rbind (load_strict_flags (nw_flags_loaded w)) (\<lambda>strict.
     rbind (load_strict_flags (nw_flags_now w)) (\<lambda>again.
       if again \<noteq> strict then Inl FlagsChanged
       else if sources = [] then Inl SourceListEmpty
       else rbind (rmap (require_file w RequiredFileMissing) sources) (\<lambda>_.
       rbind (rmap (\<lambda>p. require_file w ObjectMissing (nw_root w @ split_on 47 (lit p))) [PRODUCTION_OBJECT, TESTING_OBJECT]) (\<lambda>_.
       rbind (compiler w) (\<lambda>cc. rbind (current_profile w) (\<lambda>profile.
       rbind (defined_symbols w (root_path w PRODUCTION_OBJECT)) (\<lambda>production.
       rbind (require_symbols False PRODUCTION_SYMBOLS production) (\<lambda>_.
       rbind (defined_symbols w (root_path w TESTING_OBJECT)) (\<lambda>testing.
       rbind (require_symbols True (PRODUCTION_SYMBOLS @ TEST_ONLY_SYMBOLS) testing) (\<lambda>_.
         verify_stack_protector w cc strict profile (root_path w PRODUCTION_OBJECT))))))))))))"

section \<open>Building the objects\<close>

text \<open>
  scripts/build/native.py: the production object from the build script and the testing object from the flags.  The
  module imports the check's module first, which reads the sources and the flags.
\<close>

definition variant_compile_command :: "native_world \<Rightarrow> str \<Rightarrow> str list \<Rightarrow> production_profile \<Rightarrow> str \<Rightarrow> bool \<Rightarrow> str list" where
  "variant_compile_command w cc strict profile out_path testing =
     [cc] @ strict @ pp_c_flags profile
     @ [if testing then lit ''-DMTEST_EXEC_TESTING=1'' else lit ''-DMTEST_EXEC_TESTING=0'', lit ''-I'', root_path w ''native'',
        lit ''-c'', root_path w ''native/mtest_exec_native.c'', lit ''-o'', out_path]"

definition compile_variant :: "native_world \<Rightarrow> str \<Rightarrow> str list \<Rightarrow> production_profile \<Rightarrow> str \<Rightarrow> bool \<Rightarrow> abi_fault + unit" where
  "compile_variant w cc strict profile out_path testing =
     rbind (require_run w NativeCompileFails (variant_compile_command w cc strict profile out_path testing)) (\<lambda>_. Inr ())"

definition expect_symbols :: "native_world \<Rightarrow> string \<Rightarrow> str list \<Rightarrow> bool \<Rightarrow> abi_fault + unit" where
  "expect_symbols w object_path expected testing =
     rbind (defined_symbols w (root_path w object_path)) (\<lambda>got.
       if set got = set expected then Inr () else Inl (UnexpectedSymbols testing))"

definition build_native_main :: "native_world \<Rightarrow> abi_fault + unit" where
  "build_native_main w =
     rbind (tracked_native_sources w) (\<lambda>_. rbind (load_strict_flags (nw_flags_loaded w)) (\<lambda>strict.
     rbind (current_profile w) (\<lambda>profile.
     rbind (require_run w ProductionBuildFails [lit ''bash'', lit ''scripts/build/production_build.sh'', lit ''native'']) (\<lambda>_.
     rbind (compiler w) (\<lambda>cc.
     rbind (compile_variant w cc strict profile (root_path w TESTING_OBJECT) True) (\<lambda>_.
     rbind (expect_symbols w PRODUCTION_OBJECT PRODUCTION_SYMBOLS False) (\<lambda>_.
       expect_symbols w TESTING_OBJECT (PRODUCTION_SYMBOLS @ TEST_ONLY_SYMBOLS) True)))))))"

lemma built_objects_export:
  assumes "build_native_main w = Inr ()"
  shows "\<exists>production testing. defined_symbols w (root_path w PRODUCTION_OBJECT) = Inr production
     \<and> set production = set PRODUCTION_SYMBOLS
     \<and> defined_symbols w (root_path w TESTING_OBJECT) = Inr testing
     \<and> set testing = set PRODUCTION_SYMBOLS \<union> set TEST_ONLY_SYMBOLS"
  using assms by (auto simp: build_native_main_def expect_symbols_def rbind_Inr split: if_splits)

section \<open>What the evidence is worth\<close>

text \<open>Accepted ranges lie behind one another, so an address is in one of them at most.\<close>

definition apart :: "function_range list \<Rightarrow> bool" where
  "apart fs \<longleftrightarrow> sorted_wrt (\<lambda>f g. fst (snd f) \<le> fst g) fs"

lemma read_ranges_wide:
  "read_ranges lines fs ranges = Inr ranges' \<Longrightarrow> \<forall>f\<in>set ranges. fst f < fst (snd f) \<Longrightarrow> \<forall>f\<in>set ranges'. fst f < fst (snd f)"
proof (induction lines fs ranges rule: read_ranges.induct)
  case (2 lines f rest ranges)
  let ?as = "function_addresses lines f"
  have as: "?as \<noteq> []" "?as = sort (remdups ?as)"
    and r: "read_ranges lines rest (ranges @ [(hd ?as, last ?as + 4, snd (snd f))]) = Inr ranges'"
    using "2.prems"(1) by (auto simp: Let_def split: if_splits)
  have "sorted ?as" by (subst as(2)) simp
  then have "hd ?as \<le> last ?as" using as(1) by (cases ?as) (auto simp: sorted_wrt_append)
  with "2.IH" [OF refl refl _ _ _ r] as "2.prems" show ?case by (auto simp: Let_def split: if_splits)
qed simp

lemma pairs_apart:
  "check_pairs fs = Inr () \<Longrightarrow> \<forall>f\<in>set fs. fst f < fst (snd f) \<Longrightarrow> apart fs"
proof (induction fs rule: check_pairs.induct)
  case (1 f g rest)
  then have "apart (g # rest)" "fst (snd f) \<le> fst g" "fst g < fst (snd g)" by (auto split: if_splits)
  then show ?case unfolding apart_def by (auto intro: order_trans less_imp_le)
qed (auto simp: apart_def)

lemma ranges_apart:
  assumes "darwin_function_ranges listing = Inr ranges"
  shows "apart ranges \<and> (\<forall>f\<in>set ranges. fst f < fst (snd f))"
proof -
  obtain lines fs rs where r: "read_ranges lines fs [] = Inr rs" "check_pairs (sort rs) = Inr ()" "ranges = sort rs"
    using assms by (auto simp: darwin_function_ranges_def Let_def rbind_Inr split: list.splits prod.splits if_splits)
  then show ?thesis using read_ranges_wide [OF r(1)] pairs_apart by auto
qed

lemma covered_once:
  assumes "apart fs" "f \<in> set fs" "g \<in> set fs" "covers a f" "covers a g" "\<forall>f\<in>set fs. fst f < fst (snd f)"
  shows "f = g"
  using assms
proof (induction fs)
  case (Cons x fs)
  then show ?case by (auto simp: apart_def covers_def)
qed simp

lemma function_found:
  "function_at ranges a = Inr name \<longleftrightarrow> (\<exists>f. filter (covers a) ranges = [f] \<and> name = snd (snd f))"
  by (auto simp: function_at_def split: list.splits)

lemma filter_one: "filter P xs = [x] \<Longrightarrow> x \<in> set xs \<and> P x"
  by (metis list.set_intros(1) mem_Collect_eq set_filter)

lemma rmap_both:
  "rmap f xs = Inr ys \<Longrightarrow> (\<forall>x\<in>set xs. \<exists>y\<in>set ys. f x = Inr y) \<and> (\<forall>y\<in>set ys. \<exists>x\<in>set xs. f x = Inr y)"
proof (induction xs arbitrary: ys)
  case (Cons x xs)
  then obtain y zs where "f x = Inr y" "rmap f xs = Inr zs" "ys = y # zs" by (auto simp: rbind_Inr)
  with Cons.IH [of zs] show ?case by simp
qed simp

text \<open>
  Accepted evidence on Darwin lists exactly the
  functions whose range holds a relocation to the stack check, the ranges lie apart, and every relocation lies in one.
\<close>

lemma darwin_evidence_exact:
  assumes "darwin_protected_names listing relocations symbol = Inr names"
  shows "\<exists>ranges addresses. darwin_function_ranges listing = Inr ranges \<and> apart ranges
     \<and> darwin_target_relocation_addresses relocations symbol = Inr addresses
     \<and> (\<forall>a\<in>set addresses. \<exists>f\<in>set ranges. covers a f)
     \<and> set names = {snd (snd f) | f. f \<in> set ranges \<and> (\<exists>a\<in>set addresses. covers a f)}"
proof -
  obtain ranges addresses found where e: "darwin_function_ranges listing = Inr ranges"
      "darwin_target_relocation_addresses relocations symbol = Inr addresses"
      "rmap (function_at ranges) addresses = Inr found" "names = sort (remdups found)"
    using assms by (auto simp: darwin_protected_names_def rbind_Inr)
  have each: "\<exists>f\<in>set ranges. covers a f \<and> snd (snd f) \<in> set found" if "a \<in> set addresses" for a
  proof -
    obtain name where "name \<in> set found" "function_at ranges a = Inr name" using rmap_both [OF e(3)] \<open>a \<in> set addresses\<close> by blast
    then obtain f where "filter (covers a) ranges = [f]" "snd (snd f) \<in> set found" by (auto simp: function_found)
    then show ?thesis using filter_one by metis
  qed
  have back_at: "\<exists>f\<in>set ranges. \<exists>a\<in>set addresses. covers a f \<and> name = snd (snd f)" if "name \<in> set found" for name
  proof -
    obtain a where "a \<in> set addresses" "function_at ranges a = Inr name" using rmap_both [OF e(3)] \<open>name \<in> set found\<close> by blast
    then obtain f where "a \<in> set addresses" "filter (covers a) ranges = [f]" "name = snd (snd f)" by (auto simp: function_found)
    then show ?thesis using filter_one by metis
  qed
  have apart: "apart ranges" "\<forall>f\<in>set ranges. fst f < fst (snd f)" using ranges_apart [OF e(1)] by auto
  have "set names = {snd (snd f) | f. f \<in> set ranges \<and> (\<exists>a\<in>set addresses. covers a f)}" (is "_ = ?r")
  proof (intro equalityI subsetI)
    fix name
    assume "name \<in> set names"
    then show "name \<in> ?r" using back_at e(4) by fastforce
  next
    fix name
    assume "name \<in> ?r"
    then obtain f a where f: "f \<in> set ranges" "a \<in> set addresses" "covers a f" "name = snd (snd f)" by blast
    obtain g where g: "g \<in> set ranges" "covers a g" "snd (snd g) \<in> set found" using each [OF f(2)] by blast
    have "g = f" by (rule covered_once [OF apart(1) g(1) f(1) g(2) f(3) apart(2)])
    then show "name \<in> set names" using g(3) f(4) e(4) by simp
  qed
  moreover have "\<forall>a\<in>set addresses. \<exists>f\<in>set ranges. covers a f" using each by blast
  ultimately show ?thesis using e(1,2) apart(1) by (intro exI [of _ ranges] exI [of _ addresses] conjI)
qed

text \<open>A reference to a symbol is the symbol's text with no identifier character on either side.\<close>

definition mentions :: "str \<Rightarrow> str \<Rightarrow> bool" where
  "mentions region symbol \<longleftrightarrow> (\<exists>u v. region = u @ symbol @ v
     \<and> (u = [] \<or> \<not> symbol_char (last u)) \<and> (v = [] \<or> \<not> symbol_char (hd v)))"

lemma consumes_text: "consumes (re_text s) {s}"
proof (induction s)
  case (Cons c s)
  have "{[x] | x. x = c} = {[c]}" by auto
  then have head: "consumes (Chr (\<lambda>x. x = c)) {[c]}" using consumes_Chr [of "\<lambda>x. x = c"] by simp
  have "{u @ v | u v. u \<in> {[c]} \<and> v \<in> {s}} = {c # s}" by simp
  then show ?case using head consumes_Seq [OF head Cons.IH] by (cases s) (simp_all add: re_text_def)
qed (simp add: re_text_def consumes_Eps)

lemma references_mentions:
  assumes "references_symbol region symbol"
  shows "mentions region symbol"
proof -
  obtain u rest st where m: "region = u @ rest" "re_match_at (SYMBOL_REFERENCE symbol) (char_before None u) rest = Some st"
    using re_search_places assms unfolding references_symbol_def by blast
  let ?at = "\<lparr> st_prev = char_before None u, st_rest = rest, st_caps = [] \<rparr>"
  have b: "case char_before None u of None \<Rightarrow> True | Some c \<Rightarrow> \<not> symbol_char c"
    and t: "st \<in> leads_to (Seq (re_text symbol) (NotLook (Chr symbol_char))) ?at"
    using re_match_at_leads [OF m(2)] by (auto simp: SYMBOL_REFERENCE_def)
  obtain st1 where one: "rest = symbol @ st_rest st1" "st \<in> leads_to (NotLook (Chr symbol_char)) st1"
    by (rule seq_eats [OF t consumes_text]) (use that in \<open>simp del: leads_to.simps\<close>)
  have "st_rest st1 = [] \<or> \<not> symbol_char (hd (st_rest st1))"
    using one(2) by (cases "st_rest st1") (auto simp: leads_to_Chr)
  moreover have "u = [] \<or> \<not> symbol_char (last u)" using b by (auto simp: char_before_def split: if_splits)
  ultimately show ?thesis using m(1) one(1) by (auto simp: mentions_def)
qed

section \<open>What a passing run shows\<close>

text \<open>
  A function of the production object that is protected: on Darwin its range holds a relocation to the stack check
  and is the only one that holds it, on Linux its region mentions the stack check.
\<close>

definition evidence :: "native_world \<Rightarrow> str \<Rightarrow> str \<Rightarrow> str \<Rightarrow> bool" where
  "evidence w listing symbol name \<longleftrightarrow>
     (if on_darwin w
      then \<exists>relocations ranges addresses f a. darwin_relocations w (root_path w PRODUCTION_OBJECT) = Inr relocations
             \<and> darwin_function_ranges listing = Inr ranges
             \<and> darwin_target_relocation_addresses relocations symbol = Inr addresses
             \<and> f \<in> set ranges \<and> snd (snd f) = name \<and> a \<in> set addresses \<and> covers a f \<and> (\<forall>g\<in>set ranges. covers a g \<longrightarrow> g = f)
      else \<exists>regions region. function_regions listing (nw_platform w) = Inr regions \<and> (name, region) \<in> set regions
             \<and> mentions region symbol)"

lemma required_evidence:
  assumes "require_protected_functions listing symbol (nw_platform w) relocations = Inr names" "name \<in> set names"
    and "on_darwin w \<Longrightarrow> \<exists>r. relocations = Some r \<and> darwin_relocations w (root_path w PRODUCTION_OBJECT) = Inr r"
  shows "evidence w listing symbol name"
proof (cases "on_darwin w")
  case True
  then obtain r where r: "relocations = Some r" "darwin_relocations w (root_path w PRODUCTION_OBJECT) = Inr r"
    using assms(3) by blast
  then have "darwin_protected_names listing r symbol = Inr names"
    using assms(1) True by (auto simp: require_protected_functions_def protected_function_names_def rbind_Inr split: if_splits)
  then obtain ranges addresses where e: "darwin_function_ranges listing = Inr ranges" "apart ranges"
      "darwin_target_relocation_addresses r symbol = Inr addresses"
      "set names = {snd (snd f) | f. f \<in> set ranges \<and> (\<exists>a\<in>set addresses. covers a f)}"
    using darwin_evidence_exact by blast
  then obtain f a where f: "f \<in> set ranges" "snd (snd f) = name" "a \<in> set addresses" "covers a f" using assms(2) by auto
  have wide: "\<forall>f\<in>set ranges. fst f < fst (snd f)" using ranges_apart [OF e(1)] by blast
  have only: "\<forall>g\<in>set ranges. covers a g \<longrightarrow> g = f"
    by (intro ballI impI covered_once [OF e(2) _ f(1) _ f(4) wide])
  show ?thesis
    unfolding evidence_def if_P [OF True]
    by (intro exI conjI) (rule r(2) e(1) e(3) f(1) f(2) f(3) f(4) only)+
next
  case False
  then obtain regions where r: "function_regions listing (nw_platform w) = Inr regions" "names = protected_names regions symbol"
    using assms(1) by (auto simp: require_protected_functions_def protected_function_names_def rbind_Inr split: if_splits)
  then obtain region where "(name, region) \<in> set regions" "references_symbol region symbol"
    using assms(2) by (auto simp: protected_names_def)
  then show ?thesis
    unfolding evidence_def if_not_P [OF False] using r(1) references_mentions by blast
qed

lemma if_Inl: "(if b then Inl e else m) = Inr x \<longleftrightarrow> \<not> b \<and> m = Inr x"
  by simp

text \<open>
  C19 (the native object is the reviewed one and protected): when the check passes, the production object exports exactly
  the reviewed symbols and the testing object exactly these and the test-only ones, the production object refers to the stack
  check, at least one function is named and each named one has its evidence, and a canary compiled with the same flags
  refers to the stack check while the one compiled without the protector does not.
\<close>

theorem native_object_verified:
  assumes "native_abi_main w = Inr names"
  shows "names \<noteq> [] \<and> (\<exists>production testing symbol listing undefineds.
     defined_symbols w (root_path w PRODUCTION_OBJECT) = Inr production \<and> set production = set PRODUCTION_SYMBOLS
     \<and> defined_symbols w (root_path w TESTING_OBJECT) = Inr testing
     \<and> set testing = set PRODUCTION_SYMBOLS \<union> set TEST_ONLY_SYMBOLS
     \<and> stack_check_symbol (nw_platform w) = Inr symbol
     \<and> undefined_symbols w (root_path w PRODUCTION_OBJECT) = Inr undefineds \<and> symbol \<in> set undefineds
     \<and> disassembly w (root_path w PRODUCTION_OBJECT) = Inr listing \<and> (\<forall>name\<in>set names. evidence w listing symbol name)
     \<and> (\<exists>cc strict profile positive negative in_positive in_negative.
          load_strict_flags (nw_flags_now w) = Inr strict
          \<and> compile_canary w cc profile strict ''positive.o'' = Inr positive
          \<and> compile_canary w cc profile (filter (\<lambda>f. f \<noteq> STRONG_PROTECTOR) strict) ''negative.o'' = Inr negative
          \<and> undefined_symbols w positive = Inr in_positive \<and> symbol \<in> set in_positive
          \<and> undefined_symbols w negative = Inr in_negative \<and> symbol \<notin> set in_negative))"
proof -
  obtain strict cc profile production testing where m: "load_strict_flags (nw_flags_now w) = Inr strict"
      "defined_symbols w (root_path w PRODUCTION_OBJECT) = Inr production" "require_symbols False PRODUCTION_SYMBOLS production = Inr ()"
      "defined_symbols w (root_path w TESTING_OBJECT) = Inr testing"
      "require_symbols True (PRODUCTION_SYMBOLS @ TEST_ONLY_SYMBOLS) testing = Inr ()"
      "verify_stack_protector w cc strict profile (root_path w PRODUCTION_OBJECT) = Inr names"
    using assms by (auto simp: native_abi_main_def rbind_Inr split: if_splits)
  have symbols: "set production = set PRODUCTION_SYMBOLS" "set testing = set PRODUCTION_SYMBOLS \<union> set TEST_ONLY_SYMBOLS"
    using m(3,5) by (auto simp: require_symbols_def split: if_splits)
  obtain symbol undefineds listing relocations positive negative in_positive in_negative where
      v: "stack_check_symbol (nw_platform w) = Inr symbol" "undefined_symbols w (root_path w PRODUCTION_OBJECT) = Inr undefineds"
      "symbol \<in> set undefineds" "disassembly w (root_path w PRODUCTION_OBJECT) = Inr listing"
    and r: "(if on_darwin w then rbind (darwin_relocations w (root_path w PRODUCTION_OBJECT)) (\<lambda>r. Inr (Some r)) else Inr None) = Inr relocations"
    and n: "require_protected_functions listing symbol (nw_platform w) relocations = Inr names"
    and c: "compile_canary w cc profile strict ''positive.o'' = Inr positive"
      "compile_canary w cc profile (filter (\<lambda>f. f \<noteq> STRONG_PROTECTOR) strict) ''negative.o'' = Inr negative"
      "undefined_symbols w positive = Inr in_positive" "symbol \<in> set in_positive"
      "undefined_symbols w negative = Inr in_negative" "symbol \<notin> set in_negative"
    using m(6) unfolding verify_stack_protector_def
    by (simp only: rbind_Inr if_Inl not_not Inr_inject) (elim exE conjE, rule that, (assumption | simp only: Inr_inject)+)
  have "\<exists>q. relocations = Some q \<and> darwin_relocations w (root_path w PRODUCTION_OBJECT) = Inr q" if "on_darwin w"
    using r that by (auto simp: rbind_Inr)
  then have "\<forall>name\<in>set names. evidence w listing symbol name" using required_evidence [OF n] by blast
  moreover have "names \<noteq> []" using n by (auto simp: require_protected_functions_def rbind_Inr split: if_splits)
  ultimately show ?thesis using m(1,2,4) symbols v c by blast
qed

text \<open>A Linux host whose check passes.\<close>

definition eg_run :: "str list \<Rightarrow> (int \<times> str) option" where
  "eg_run argv =
     (let stack_check = lit ''U __stack_chk_fail'';
          listed = (\<lambda>symbols. lines_of (map (\<lambda>s. lit ''T '' @ s) symbols))
      in Some (0,
           if argv = [lit ''clang'', lit ''--version''] then lit ''clang version 18.1.8''
           else if hd argv = lit ''objdump''
           then lines_of (map lit [''0000 <mtest_exec_poll_set>:'', '' 4: call'', '' 5: R_X86_64_PLT32 __stack_chk_fail-0x4''])
           else if argv ! 1 = lit ''-g''
           then (if endswith (last argv) (lit ''_test.o'') then listed (PRODUCTION_SYMBOLS @ TEST_ONLY_SYMBOLS)
                 else listed PRODUCTION_SYMBOLS)
           else if argv ! 1 = lit ''-u'' \<and> \<not> endswith (last argv) (lit ''negative.o'') then stack_check
           else []))"

definition eg_native :: native_world where
  "eg_native =
     (let flags = Some (utf8_encode (lines_of (STRONG_PROTECTOR # CURATED_WARNING_FLAGS)))
      in \<lparr> nw_listed = Some [lit ''native/mtest_exec_native.c''], nw_root = [lit ''r''], nw_resolve = id, nw_is_file = (\<lambda>_. True),
           nw_flags_loaded = flags, nw_flags_now = flags, nw_inventory = Some eg_inventory, nw_run = eg_run,
           nw_env = (\<lambda>_. None), nw_platform = lit ''linux'', nw_system = lit ''Linux'', nw_machine = lit ''x86_64'',
           nw_temp = lit ''/tmp/x'' \<rparr>)"

definition eg_profile :: production_profile where
  "eg_profile = hd eg_profiles"

lemma eg_native_sources: "tracked_native_sources eg_native = Inr [[lit ''r'', lit ''native'', lit ''mtest_exec_native.c'']]"
  by code_simp

lemma eg_native_flags:
  "load_strict_flags (nw_flags_loaded eg_native) = Inr (STRONG_PROTECTOR # CURATED_WARNING_FLAGS)"
  by code_simp

lemma eg_native_again: "nw_flags_now eg_native = nw_flags_loaded eg_native"
  by (simp add: eg_native_def Let_def)

lemma eg_native_files:
  "rmap (require_file eg_native RequiredFileMissing) [[lit ''r'', lit ''native'', lit ''mtest_exec_native.c'']] = Inr [()]"
  "rmap (\<lambda>p. require_file eg_native ObjectMissing (nw_root eg_native @ split_on 47 (lit p))) [PRODUCTION_OBJECT, TESTING_OBJECT] = Inr [(), ()]"
  by code_simp+

lemma eg_native_compiler: "compiler eg_native = Inr (lit ''clang'')"
  by code_simp

lemma eg_native_profile: "current_profile eg_native = Inr eg_profile"
  by code_simp

lemma eg_native_production: "defined_symbols eg_native (root_path eg_native PRODUCTION_OBJECT) = Inr PRODUCTION_SYMBOLS"
  by code_simp

lemma eg_native_testing:
  "defined_symbols eg_native (root_path eg_native TESTING_OBJECT) = Inr (PRODUCTION_SYMBOLS @ TEST_ONLY_SYMBOLS)"
  by code_simp

lemma eg_native_protected:
  "verify_stack_protector eg_native (lit ''clang'') (STRONG_PROTECTOR # CURATED_WARNING_FLAGS) eg_profile
     (root_path eg_native PRODUCTION_OBJECT) = Inr [lit ''mtest_exec_poll_set'']"
  by code_simp

lemma eg_native_passes: "native_abi_main eg_native = Inr [lit ''mtest_exec_poll_set'']"
  by (simp add: native_abi_main_def eg_native_sources eg_native_flags eg_native_again eg_native_files eg_native_compiler
      eg_native_profile eg_native_production eg_native_testing require_symbols_def eg_native_protected
      del: rmap.simps lit_Cons)

theorem native_object_verified_witness:
  "[lit ''mtest_exec_poll_set''] \<noteq> [] \<and> (\<exists>production testing symbol listing undefineds.
     defined_symbols eg_native (root_path eg_native PRODUCTION_OBJECT) = Inr production \<and> set production = set PRODUCTION_SYMBOLS
     \<and> defined_symbols eg_native (root_path eg_native TESTING_OBJECT) = Inr testing
     \<and> set testing = set PRODUCTION_SYMBOLS \<union> set TEST_ONLY_SYMBOLS
     \<and> stack_check_symbol (nw_platform eg_native) = Inr symbol
     \<and> undefined_symbols eg_native (root_path eg_native PRODUCTION_OBJECT) = Inr undefineds \<and> symbol \<in> set undefineds
     \<and> disassembly eg_native (root_path eg_native PRODUCTION_OBJECT) = Inr listing \<and> (\<forall>name\<in>set [lit ''mtest_exec_poll_set'']. evidence eg_native listing symbol name)
     \<and> (\<exists>cc strict profile positive negative in_positive in_negative.
          load_strict_flags (nw_flags_now eg_native) = Inr strict
          \<and> compile_canary eg_native cc profile strict ''positive.o'' = Inr positive
          \<and> compile_canary eg_native cc profile (filter (\<lambda>f. f \<noteq> STRONG_PROTECTOR) strict) ''negative.o'' = Inr negative
          \<and> undefined_symbols eg_native positive = Inr in_positive \<and> symbol \<in> set in_positive
          \<and> undefined_symbols eg_native negative = Inr in_negative \<and> symbol \<notin> set in_negative))"
  by (rule native_object_verified [OF eg_native_passes])

text \<open>A Darwin listing with one protected function of two.\<close>

lemma eg_darwin_evidence:
  "darwin_protected_names
     (lines_of (map lit [''(__TEXT,__text) section'', ''_main:'', ''0000000000000000 stp'', ''0000000000000004 bl'',
        ''_helper:'', ''0000000000000008 ret'']))
     (lines_of (map lit [''Relocation information (__TEXT,__text) 1 entries'', ''address pcrel length extern type'',
        ''00000004 True long True BR26 False ___stack_chk_fail'']))
     (lit ''___stack_chk_fail'') = Inr [lit ''main'']"
  by code_simp

end
