(* ===== verification/Abi_Probe.thy ===== *)
theory Abi_Probe
  imports Inventory Text_Files Regex
begin

text \<open>
  scripts/checks/abi_probe.py: no two files of the test tree declare the same \<open>external_call\<close> symbol.  The
  Mojo files below \<open>tests\<close> with their bytes, in the order of their paths, are the argument.
\<close>

section \<open>Declarations\<close>

definition EXTERNAL_CALL_OPEN_RE :: re where
  "EXTERNAL_CALL_OPEN_RE = re_lit ''external_call[''"

text \<open>\<open>"([A-Za-z0-9_]+)"\<close>\<close>

definition SYMBOL_IN_SPAN_RE :: re where
  "SYMBOL_IN_SPAN_RE = re_seq [Chr ((=) 34), Grp 1 (re_plus (Chr ascii_word)), Chr ((=) 34)]"

text \<open>The quote that is open after the characters before a column; a backslash inside a literal takes the next with it.\<close>

fun open_quote :: "int option \<Rightarrow> str \<Rightarrow> int option" where
  "open_quote quote [] = quote"
| "open_quote (Some q) (c # cs) =
     (if c = 92 then (case cs of [] \<Rightarrow> Some q | _ # cs' \<Rightarrow> open_quote (Some q) cs')
      else open_quote (if c = q then None else Some q) cs)"
| "open_quote None (c # cs) = open_quote (if c = 39 \<or> c = 34 then Some c else None) cs"

definition opens_inside_string_literal :: "str \<Rightarrow> nat \<Rightarrow> bool" where
  "opens_inside_string_literal line column \<longleftrightarrow> open_quote None (take column line) \<noteq> None"

text \<open>The line around an offset: \<open>rfind\<close> and \<open>find\<close> of the newlines beside it.\<close>

definition line_and_column :: "str \<Rightarrow> nat \<Rightarrow> str \<times> nat" where
  "line_and_column source index =
     (let head_part = last (split_on 10 (take index source))
      in (head_part @ hd (split_on 10 (drop index source)), length head_part))"

text \<open>How many characters the bracket that opens a text takes, up to its closing one.\<close>

fun span_length :: "int \<Rightarrow> str \<Rightarrow> nat option" where
  "span_length depth [] = None"
| "span_length depth (c # cs) =
     (if c = 91 then map_option Suc (span_length (depth + 1) cs)
      else if c = 93 then (if depth - 1 = 0 then Some 1 else map_option Suc (span_length (depth - 1) cs))
      else map_option Suc (span_length depth cs))"

datatype abi_probe_fault =
    ProbeUnreadable path
  | ProbeNotUtf8 path
  | Unbalanced path nat
  | NoMojoSources
  | SharedSymbols "(str \<times> path list) list"

definition bracket_span :: "path \<Rightarrow> str \<Rightarrow> nat \<Rightarrow> abi_probe_fault + str" where
  "bracket_span p source open_index =
     (case span_length 0 (drop open_index source) of
        None \<Rightarrow> Inl (Unbalanced p open_index)
      | Some n \<Rightarrow> Inr (take n (drop open_index source)))"

definition span_symbol :: "str \<Rightarrow> str option" where
  "span_symbol spanned = (case re_find_iter SYMBOL_IN_SPAN_RE spanned of [] \<Rightarrow> None | (_, _, m) # _ \<Rightarrow> Some (group_text m 1))"

definition site_symbol :: "path \<Rightarrow> str \<Rightarrow> nat \<times> nat \<times> re_match \<Rightarrow> abi_probe_fault + str option" where
  "site_symbol p source site =
     (let (start, stop, _) = site; (line, column) = line_and_column source start
      in if opens_inside_string_literal line column then Inr None
         else rbind (bracket_span p source (stop - 1)) (\<lambda>spanned. Inr (span_symbol spanned)))"

definition source_symbols :: "path \<Rightarrow> str \<Rightarrow> abi_probe_fault + str list" where
  "source_symbols p source =
     rbind (rmap (site_symbol p source) (re_find_iter EXTERNAL_CALL_OPEN_RE source)) (\<lambda>found.
       Inr (remdups (List.map_filter id found)))"

definition declared_symbols :: "path \<times> bytes option \<Rightarrow> abi_probe_fault + str list" where
  "declared_symbols file =
     (case snd file of
        None \<Rightarrow> Inl (ProbeUnreadable (fst file))
      | Some b \<Rightarrow>
          (case read_utf8 b of
             None \<Rightarrow> Inl (ProbeNotUtf8 (fst file))
           | Some source \<Rightarrow> source_symbols (fst file) source))"

section \<open>The check\<close>

definition declaring_sources :: "(path \<times> bytes option) list \<Rightarrow> abi_probe_fault + (path \<times> bytes option) list" where
  "declaring_sources found = (if found = [] then Inl NoMojoSources else Inr found)"

definition record_symbols :: "path \<Rightarrow> str list \<Rightarrow> (str, path list) dict \<Rightarrow> (str, path list) dict" where
  "record_symbols p symbols by_symbol =
     fold (\<lambda>s d. dict_set s ((case map_of d s of None \<Rightarrow> [] | Some ps \<Rightarrow> ps) @ [p]) d) symbols by_symbol"

fun symbol_files :: "(path \<times> bytes option) list \<Rightarrow> (str, path list) dict \<Rightarrow> abi_probe_fault + (str, path list) dict" where
  "symbol_files [] by_symbol = Inr by_symbol"
| "symbol_files (f # fs) by_symbol =
     rbind (declared_symbols f) (\<lambda>symbols. symbol_files fs (record_symbols (fst f) symbols by_symbol))"

definition shared_symbol_files :: "(path \<times> bytes option) list \<Rightarrow> abi_probe_fault + (str \<times> path list) list" where
  "shared_symbol_files sources =
     rbind (symbol_files sources []) (\<lambda>by_symbol.
       Inr (map (\<lambda>(s, ps). (s, sort ps)) (filter (\<lambda>(s, ps). 1 < length ps) by_symbol)))"

definition abi_probe_check :: "(path \<times> bytes option) list \<Rightarrow> abi_probe_fault + unit" where
  "abi_probe_check found =
     rbind (declaring_sources found) (\<lambda>sources.
     rbind (shared_symbol_files sources) (\<lambda>shared.
       if shared \<noteq> [] then Inl (SharedSymbols (sort_key fst shared)) else Inr ()))"

text \<open>\<open>SystemExit\<close> with a message ends with status 1; \<open>None\<close> is another exception.\<close>

definition abi_probe_main :: "(path \<times> bytes option) list \<Rightarrow> int option" where
  "abi_probe_main found =
     (case abi_probe_check found of
        Inr _ \<Rightarrow> Some 0 | Inl NoMojoSources \<Rightarrow> Some 1 | Inl (SharedSymbols _) \<Rightarrow> Some 1 | Inl _ \<Rightarrow> None)"

section \<open>When it passes\<close>

lemma record_symbols_get:
  "distinct symbols \<Longrightarrow> map_of (record_symbols p symbols d) s =
     (if s \<in> set symbols then Some ((case map_of d s of None \<Rightarrow> [] | Some ps \<Rightarrow> ps) @ [p]) else map_of d s)"
  by (induction symbols arbitrary: d) (auto simp: record_symbols_def AList.update_conv')

lemma declared_distinct: "declared_symbols f = Inr symbols \<Longrightarrow> distinct symbols"
  by (auto simp: declared_symbols_def source_symbols_def rbind_Inr split: option.splits)

definition declares :: "path \<times> bytes option \<Rightarrow> str \<Rightarrow> bool" where
  "declares f s \<longleftrightarrow> (\<exists>symbols. declared_symbols f = Inr symbols \<and> s \<in> set symbols)"

lemma symbol_files_get:
  assumes "symbol_files fs d = Inr d'"
  shows "(\<forall>f\<in>set fs. \<exists>symbols. declared_symbols f = Inr symbols) \<and>
    (case map_of d' s of None \<Rightarrow> [] | Some ps \<Rightarrow> ps) =
      (case map_of d s of None \<Rightarrow> [] | Some ps \<Rightarrow> ps) @ map fst (filter (\<lambda>f. declares f s) fs)"
  using assms
proof (induction fs d rule: symbol_files.induct)
  case (2 f fs d)
  then obtain symbols where s: "declared_symbols f = Inr symbols" "symbol_files fs (record_symbols (fst f) symbols d) = Inr d'"
    by (auto simp: rbind_Inr)
  then have "declares f s \<longleftrightarrow> s \<in> set symbols" by (simp add: declares_def)
  then show ?case using "2.IH" [OF s(2)] s(1) declared_distinct [OF s(1)]
    by (auto simp: record_symbols_get split: option.splits)
qed simp

lemma symbol_files_runs:
  "(\<exists>d'. symbol_files fs d = Inr d') \<longleftrightarrow> (\<forall>f\<in>set fs. \<exists>symbols. declared_symbols f = Inr symbols)"
  by (induction fs arbitrary: d) (auto simp: rbind_Inr)

lemma record_symbols_distinct: "distinct (map fst d) \<Longrightarrow> distinct (map fst (record_symbols p symbols d))"
  unfolding record_symbols_def by (induction symbols arbitrary: d) (simp_all add: distinct_update)

lemma symbol_files_distinct: "symbol_files fs d = Inr d' \<Longrightarrow> distinct (map fst d) \<Longrightarrow> distinct (map fst d')"
  by (induction fs d rule: symbol_files.induct) (auto simp: rbind_Inr dest: record_symbols_distinct)

lemma two_of_many: "length (filter P xs) \<le> 1 \<longleftrightarrow> (\<forall>i j. i < j \<longrightarrow> j < length xs \<longrightarrow> \<not> (P (xs ! i) \<and> P (xs ! j)))"
proof (induction xs)
  case (Cons x xs)
  have all: "filter P xs = [] \<longleftrightarrow> (\<forall>j<length xs. \<not> P (xs ! j))"
    unfolding filter_empty_conv by (metis in_set_conv_nth)
  have "(\<forall>i j. i < j \<longrightarrow> j < length (x # xs) \<longrightarrow> \<not> (P ((x # xs) ! i) \<and> P ((x # xs) ! j))) \<longleftrightarrow>
      (P x \<longrightarrow> (\<forall>j<length xs. \<not> P (xs ! j))) \<and> (\<forall>i j. i < j \<longrightarrow> j < length xs \<longrightarrow> \<not> (P (xs ! i) \<and> P (xs ! j)))"
    (is "?l \<longleftrightarrow> ?r")
  proof
    assume l: ?l
    show ?r
    proof (intro conjI allI impI)
      fix j assume "P x" "j < length xs"
      then show "\<not> P (xs ! j)" using l [rule_format, of 0 "Suc j"] by simp
    next
      fix i j assume "i < j" "j < length xs"
      then show "\<not> (P (xs ! i) \<and> P (xs ! j))" using l [rule_format, of "Suc i" "Suc j"] by simp
    qed
  next
    assume r: ?r
    show ?l
    proof (intro allI impI)
      fix i j assume "i < j" "j < length (x # xs)"
      then show "\<not> (P ((x # xs) ! i) \<and> P ((x # xs) ! j))" using r by (cases i; cases j) auto
    qed
  qed
  then show ?case using Cons all by (auto simp: Suc_le_eq)
qed simp

text \<open>
  C21 (one declaration per symbol): the check exits with 0 exactly when there are test files, each can be read and its
  declarations are balanced, and no two of them declare the same symbol.
\<close>

theorem passes_iff_declared_once:
  "abi_probe_main files = Some 0 \<longleftrightarrow>
     files \<noteq> [] \<and> (\<forall>f\<in>set files. \<exists>symbols. declared_symbols f = Inr symbols)
     \<and> (\<forall>i j s. i < j \<longrightarrow> j < length files \<longrightarrow> \<not> (declares (files ! i) s \<and> declares (files ! j) s))"
proof -
  have shared: "filter (\<lambda>(s, ps). 1 < length ps) d = [] \<longleftrightarrow> (\<forall>s. length (filter (\<lambda>f. declares f s) files) \<le> 1)"
    if d: "symbol_files files [] = Inr d" for d
  proof -
    have get: "(case map_of d s of None \<Rightarrow> [] | Some ps \<Rightarrow> ps) = map fst (filter (\<lambda>f. declares f s) files)" for s
      using symbol_files_get [OF d] by simp
    have unique: "(s, ps) \<in> set d \<longleftrightarrow> map_of d s = Some ps" for s ps
      using symbol_files_distinct [OF d] by simp
    have "filter (\<lambda>(s, ps). 1 < length ps) d = [] \<longleftrightarrow> (\<forall>s ps. map_of d s = Some ps \<longrightarrow> length ps \<le> 1)"
      by (fastforce simp: filter_empty_conv not_less simp flip: unique)
    also have "\<dots> \<longleftrightarrow> (\<forall>s. length (case map_of d s of None \<Rightarrow> [] | Some ps \<Rightarrow> ps) \<le> 1)"
      by (auto split: option.splits)
    finally show ?thesis by (simp add: get)
  qed
  have "abi_probe_main files = Some 0 \<longleftrightarrow> abi_probe_check files = Inr ()"
    by (auto simp: abi_probe_main_def split: sum.splits abi_probe_fault.splits)
  also have "\<dots> \<longleftrightarrow> files \<noteq> [] \<and> (\<exists>d. symbol_files files [] = Inr d \<and> filter (\<lambda>(s, ps). 1 < length ps) d = [])"
    by (auto simp: abi_probe_check_def declaring_sources_def shared_symbol_files_def rbind_Inr)
  also have "\<dots> \<longleftrightarrow> files \<noteq> [] \<and> (\<exists>d. symbol_files files [] = Inr d) \<and> (\<forall>s. length (filter (\<lambda>f. declares f s) files) \<le> 1)"
    using shared by blast
  finally show ?thesis unfolding symbol_files_runs two_of_many by blast
qed

text \<open>
  A declaration goes on over lines, a nested bracket does not end it, and one that is text of a literal is none; a quote
  of the other kind in a literal and an escaped one do not end the literal.
\<close>

lemma eg_declarations:
  "source_symbols [] (lit ''external_call['' @ [10] @ lit '' \"getpid\", A[Int32]]; \"it's external_call[\"; \"a\", external_call[\"dup\"]'')
     = Inr [lit ''getpid'', lit ''dup'']"
  "source_symbols [] ([34, 92, 34] @ lit '' external_call[\"kill\"]'') = Inr []"
  by code_simp+

lemma eg_two_files:
  "abi_probe_main [([lit ''a''], Some (lit ''external_call[\"dup\"]'')), ([lit ''b''], Some (lit ''external_call[\"kill\"]''))] = Some 0"
  "abi_probe_main [([lit ''a''], Some (lit ''external_call[\"dup\"]'')), ([lit ''b''], Some (lit ''external_call[\"dup\"]''))] = Some 1"
  by code_simp+

definition eg_probe_files :: "(path \<times> bytes option) list" where
  "eg_probe_files = [([lit ''a''], Some (lit ''external_call[\"dup\"]'')), ([lit ''b''], Some (lit ''external_call[\"kill\"]''))]"

theorem passes_iff_declared_once_witness:
  "abi_probe_main eg_probe_files = Some 0 \<and> (\<exists>a b. declared_symbols (eg_probe_files ! 0) = Inr a
     \<and> declared_symbols (eg_probe_files ! 1) = Inr b \<and> set a \<inter> set b = {})"
proof -
  have ok: "abi_probe_main eg_probe_files = Some 0" by (simp only: eg_probe_files_def eg_two_files)
  note once = passes_iff_declared_once [of eg_probe_files, THEN iffD1, OF ok]
  have two: "0 < length eg_probe_files" "1 < length eg_probe_files" by (simp_all add: eg_probe_files_def)
  obtain a b where ab: "declared_symbols (eg_probe_files ! 0) = Inr a" "declared_symbols (eg_probe_files ! 1) = Inr b"
    using once two nth_mem by meson
  have "\<not> (declares (eg_probe_files ! 0) s \<and> declares (eg_probe_files ! 1) s)" for s
    using once two(2) zero_less_one by blast
  then have "set a \<inter> set b = {}" using ab by (auto simp: declares_def)
  with ok ab show ?thesis by blast
qed

end
