(* ===== verification/Coverage_Probe.thy ===== *)
theory Coverage_Probe
  imports Text_Files Regex
begin

text \<open>
  scripts/checks/coverage_capability.py: the probe that fails when the pinned toolchain names a coverage facility.  What
  the TOML reader finds as the \<open>mojo\<close> dependency and what the two commands print are arguments.
\<close>

section \<open>The texts\<close>

definition PINNED_MOJO_VERSION :: str where "PINNED_MOJO_VERSION = lit ''1.1.0''"

definition PROBE_COMMANDS :: "str list list" where
  "PROBE_COMMANDS = [[lit ''mojo'', lit ''build'', lit ''--help''], [lit ''mojo'', lit ''--help'']]"

definition RELEVANT_WORDS :: "str list" where
  "RELEVANT_WORDS = [lit ''cover'', lit ''profile'', lit ''instrument'']"

definition MINIMUM_HELP_BYTES :: nat where "MINIMUM_HELP_BYTES = 200"

definition flag_char :: "int \<Rightarrow> bool" where "flag_char c \<longleftrightarrow> is_ascii_alnum c \<or> c = 45"

text \<open>\<open>--[A-Za-z0-9][A-Za-z0-9-]*\<close>, with the whole match as its group\<close>

definition FLAG :: re where
  "FLAG = Grp 1 (Seq (re_lit ''--'') (Seq (Chr is_ascii_alnum) (re_star (Chr flag_char))))"

text \<open>
  \<open>lower()\<close> as far as the relevant words go: no other character has a lower case that puts one of them into a text.
\<close>

definition lower :: "str \<Rightarrow> str" where
  "lower s = map (\<lambda>c. if 65 \<le> c \<and> c \<le> 90 then c + 32 else c) s"

definition is_relevant :: "str \<Rightarrow> bool" where
  "is_relevant s \<longleftrightarrow> list_ex (contains (lower s)) RELEVANT_WORDS"

fun first_seen :: "str list \<Rightarrow> str list \<Rightarrow> str list" where
  "first_seen found [] = found"
| "first_seen found (x # xs) = first_seen (if is_relevant x \<and> x \<notin> set found then found @ [x] else found) xs"

definition discover_coverage_flags :: "str \<Rightarrow> str list" where
  "discover_coverage_flags help_text = first_seen [] (re_findall FLAG help_text)"

definition relevant_lines :: "str \<Rightarrow> str list" where
  "relevant_lines help_text = map strip (filter (\<lambda>l. is_relevant l \<and> strip l \<noteq> []) (splitlines help_text))"

section \<open>The probe\<close>

text \<open>What \<open>tomllib\<close> makes of \<open>pixi.toml\<close>, and the end of a command.\<close>

datatype mojo_dependency = ManifestUnreadable | NoStringDependency | DependencySpec str
datatype help_run = NotFound | RunTimedOut | CannotRun | Ran int bytes bytes

datatype probe_error =
    CannotReadManifest
  | NoMojoString
  | PinMoved str
  | ExecutableNotFound "str list"
  | ProbeTimedOut "str list"
  | ProbeExited "str list" int
  | UncaughtOSError

definition check_version_pin :: "mojo_dependency \<Rightarrow> probe_error + unit" where
  "check_version_pin d =
     (case d of
        ManifestUnreadable \<Rightarrow> Inl CannotReadManifest
      | NoStringDependency \<Rightarrow> Inl NoMojoString
      | DependencySpec spec \<Rightarrow>
          if lit ''=='' @ PINNED_MOJO_VERSION \<in> set (map strip (split_on 44 spec)) then Inr () else Inl (PinMoved spec))"

type_synonym report = "str list \<times> str"

definition help_report :: "(str list \<Rightarrow> help_run) \<Rightarrow> str list \<Rightarrow> probe_error + report" where
  "help_report run_command argv =
     (case run_command argv of
        NotFound \<Rightarrow> Inl (ExecutableNotFound argv)
      | RunTimedOut \<Rightarrow> Inl (ProbeTimedOut argv)
      | CannotRun \<Rightarrow> Inl UncaughtOSError
      | Ran code out err \<Rightarrow>
          if code \<noteq> 0 then Inl (ProbeExited argv code) else Inr (argv, utf8_decode True out @ utf8_decode True err))"

definition collect_help_text :: "(str list \<Rightarrow> help_run) \<Rightarrow> probe_error + report list" where
  "collect_help_text run_command = rmap (help_report run_command) PROBE_COMMANDS"

definition is_readable :: "str \<Rightarrow> bool" where
  "is_readable help_text \<longleftrightarrow> MINIMUM_HELP_BYTES \<le> length help_text \<and> re_search FLAG help_text"

definition unreadable_reports :: "report list \<Rightarrow> report list" where
  "unreadable_reports reports = filter (\<lambda>(_, t). \<not> is_readable t) reports"

text \<open>What the message lists, and the exit status; without any report the probe has not looked.\<close>

datatype verdict =
    Unavailable
  | CannotClaim "report list"
  | Discovered "(str list \<times> str) list"

definition discovered :: "report \<Rightarrow> (str list \<times> str) list" where
  "discovered r =
     (let (argv, help_text) = r; flags = discover_coverage_flags help_text
      in map (Pair argv) (if flags \<noteq> [] then flags else relevant_lines help_text))"

definition evaluate :: "report list \<Rightarrow> verdict \<times> int" where
  "evaluate reports =
     (let found = concat (map discovered reports)
      in if found = []
         then (if reports = [] \<or> unreadable_reports reports \<noteq> [] then (CannotClaim (unreadable_reports reports), 1)
               else (Unavailable, 0))
         else (Discovered found, 1))"

definition coverage_main :: "mojo_dependency \<Rightarrow> (str list \<Rightarrow> help_run) \<Rightarrow> int option" where
  "coverage_main d run_command =
     (case rbind (check_version_pin d) (\<lambda>_. collect_help_text run_command) of
        Inl UncaughtOSError \<Rightarrow> None
      | Inl _ \<Rightarrow> Some 1
      | Inr reports \<Rightarrow> Some (snd (evaluate reports)))"

section \<open>When it passes\<close>

lemma unbroken_append: "unbroken u \<Longrightarrow> splitlines_acc cur (u @ q) = splitlines_acc (rev u @ cur) q"
  by (induction u arbitrary: cur) (auto simp: unbroken_def)

lemma line_continues: "cur \<noteq> [] \<Longrightarrow> \<exists>l rest. splitlines_acc cur q = (rev cur @ l) # rest"
proof (induction q arbitrary: cur)
  case (Cons c q)
  show ?case
  proof (cases "is_linebreak c")
    case False
    then obtain l rest where "splitlines_acc (c # cur) q = (rev (c # cur) @ l) # rest" using Cons.IH [of "c # cur"] by auto
    then show ?thesis using False by simp
  qed simp
qed simp

lemma unbroken_in_line:
  "unbroken u \<Longrightarrow> u \<noteq> [] \<Longrightarrow> \<exists>l\<in>set (splitlines_acc cur (p @ u @ q)). contains l u"
proof (induction "length p" arbitrary: p cur rule: less_induct)
  case less
  show ?case
  proof (cases p)
    case Nil
    then obtain l rest where "splitlines_acc cur (p @ u @ q) = (rev (rev u @ cur) @ l) # rest"
      using less.prems line_continues [of "rev u @ cur" q] by (auto simp: unbroken_append)
    then have "rev cur @ u @ l \<in> set (splitlines_acc cur (p @ u @ q))" by simp
    moreover have "contains (rev cur @ u @ l) u" unfolding contains_iff by blast
    ultimately show ?thesis by blast
  next
    case (Cons x p')
    consider "\<not> is_linebreak x" | "is_linebreak x" "x = 13" "p' \<noteq> []" "hd p' = 10" | "is_linebreak x" "\<not> (x = 13 \<and> p' \<noteq> [] \<and> hd p' = 10)"
      by blast
    then show ?thesis
    proof cases
      case 1
      then show ?thesis using less.hyps [of p' "x # cur"] less.prems Cons by simp
    next
      case 2
      then obtain p'' where "p' = 10 # p''" by (cases p') auto
      then show ?thesis using less.hyps [of p'' "[]"] less.prems Cons 2 by simp
    next
      case 3
      have "is_linebreak 10" by (simp add: is_linebreak_def)
      then have "hd u \<noteq> 10" using less.prems by (metis hd_in_set unbroken_def)
      then have n: "\<not> (x = 13 \<and> p' @ u @ q \<noteq> [] \<and> hd (p' @ u @ q) = 10)"
        using 3(2) less.prems(2) by (cases "p' = []") simp_all
      have "splitlines_acc cur (p @ u @ q) = rev cur # splitlines_acc [] (p' @ u @ q)"
        by (simp only: Cons append_Cons splitlines_acc.simps 3(1) if_True if_not_P [OF n])
      moreover obtain l where "l \<in> set (splitlines_acc [] (p' @ u @ q))" "contains l u"
        using less.hyps [of p' "[]"] less.prems Cons by auto
      ultimately show ?thesis by (metis list.set_intros(2))
    qed
  qed
qed

lemma relevant_inside: "contains l u \<Longrightarrow> is_relevant u \<Longrightarrow> is_relevant l"
proof -
  assume "contains l u" "is_relevant u"
  then obtain a b word x y where "l = a @ u @ b" "word \<in> set RELEVANT_WORDS" "lower u = x @ word @ y"
    by (auto simp: contains_iff is_relevant_def list_ex_iff)
  then have "lower l = (lower a @ x) @ word @ (y @ lower b)" by (simp add: lower_def)
  then show "is_relevant l" using \<open>word \<in> set RELEVANT_WORDS\<close> unfolding is_relevant_def list_ex_iff contains_iff by blast
qed

lemma flag_found:
  assumes "g \<in> set (re_findall FLAG s)"
  shows "\<exists>p q. s = p @ g @ q \<and> unbroken g \<and> g \<noteq> []"
proof -
  let ?r = "Seq (re_lit ''--'') (Seq (Chr is_ascii_alnum) (re_star (Chr flag_char)))"
  obtain p rest st where m: "s = p @ rest" "re_match_at FLAG (char_before None p) rest = Some st" "g = group_text (st_caps st) 1"
    using re_findall_places [OF assms] by blast
  define L where "L = {u @ v | u v. u \<in> {lit ''--''} \<and> v \<in> {u @ v | u v. u \<in> {[c] | c. is_ascii_alnum c} \<and> v \<in> {u. list_all flag_char u}}}"
  have c: "consumes ?r L"
    unfolding L_def by (intro consumes_Seq consumes_lit consumes_Chr consumes_star_Chr)
  obtain u v where u: "u \<in> L" "rest = u @ v" "g = u"
    using re_match_at_leads [OF m(2)] m(3) unfolding FLAG_def leads_to_group [OF c] by (auto simp: group_text_def)
  have "list_all flag_char u" using u(1) by (auto simp: L_def flag_char_def list_all_iff)
  then have "unbroken u" by (auto simp: unbroken_def list_all_iff flag_char_def is_linebreak_def is_ascii_alnum_def is_ascii_digit_def)
  moreover have "u \<noteq> []" using u(1) by (auto simp: L_def)
  ultimately show ?thesis using m(1) u(2,3) by blast
qed

lemma first_seen_set: "set (first_seen found xs) = set found \<union> {x \<in> set xs. is_relevant x}"
  by (induction xs arbitrary: found) auto

lemma relevant_not_blank: "is_relevant l \<Longrightarrow> strip l \<noteq> []"
proof -
  assume "is_relevant l"
  then obtain word x y where w: "word \<in> set RELEVANT_WORDS" "lower l = x @ word @ y"
    by (auto simp: contains_iff is_relevant_def list_ex_iff)
  then have "\<exists>c\<in>set (lower l). 97 \<le> c \<and> c \<le> 122" by (auto simp: RELEVANT_WORDS_def)
  then obtain c where "c \<in> set l" "(97 \<le> c \<and> c \<le> 122) \<or> (65 \<le> c \<and> c \<le> 90)" by (auto simp: lower_def split: if_splits)
  then have c: "c \<in> set l" "\<not> is_space c" by (auto simp: is_space_def)
  then have "c \<in> set (dropWhile is_space l)" by (induction l) auto
  then have "\<exists>x\<in>set (rev (dropWhile is_space l)). \<not> is_space x" using c(2) by auto
  then have "dropWhile is_space (rev (dropWhile is_space l)) \<noteq> []" by (simp only: dropWhile_eq_Nil_conv) blast
  then show "strip l \<noteq> []" by (simp add: strip_def lstrip_of_def rstrip_of_def)
qed

lemma discovered_none: "discovered (argv, t) = [] \<longleftrightarrow> (\<forall>l\<in>set (splitlines t). \<not> is_relevant l)"
proof -
  have lines: "relevant_lines t = [] \<longleftrightarrow> (\<forall>l\<in>set (splitlines t). \<not> is_relevant l)"
    using relevant_not_blank by (auto simp: relevant_lines_def filter_empty_conv)
  have flags: "discover_coverage_flags t = []" if none: "\<forall>l\<in>set (splitlines t). \<not> is_relevant l"
  proof (rule ccontr)
    assume "discover_coverage_flags t \<noteq> []"
    then have "hd (discover_coverage_flags t) \<in> set (discover_coverage_flags t)" by simp
    then obtain g where g: "g \<in> set (re_findall FLAG t)" "is_relevant g"
      by (auto simp: discover_coverage_flags_def first_seen_set)
    obtain p q where t: "t = p @ g @ q" "unbroken g" "g \<noteq> []" using flag_found [OF g(1)] by blast
    obtain l where "l \<in> set (splitlines t)" "contains l g"
      using unbroken_in_line [OF t(2,3), of "[]" p q] t(1) by (auto simp: splitlines_def)
    then show False using none relevant_inside [OF _ g(2)] by blast
  qed
  have "discovered (argv, t) = [] \<longleftrightarrow> discover_coverage_flags t = [] \<and> relevant_lines t = []"
    by (simp add: discovered_def Let_def)
  then show ?thesis using lines flags by blast
qed

lemma evaluates_zero:
  "snd (evaluate reports) = 0 \<longleftrightarrow> reports \<noteq> [] \<and> (\<forall>(argv, t)\<in>set reports. is_readable t \<and> (\<forall>l\<in>set (splitlines t). \<not> is_relevant l))"
proof -
  have "snd (evaluate reports) = 0 \<longleftrightarrow> concat (map discovered reports) = [] \<and> reports \<noteq> [] \<and> unreadable_reports reports = []"
    by (simp add: evaluate_def Let_def)
  moreover have "concat (map discovered reports) = [] \<longleftrightarrow> (\<forall>(argv, t)\<in>set reports. \<forall>l\<in>set (splitlines t). \<not> is_relevant l)"
    by (auto simp: discovered_none)
  moreover have "unreadable_reports reports = [] \<longleftrightarrow> (\<forall>(argv, t)\<in>set reports. is_readable t)"
    by (auto simp: unreadable_reports_def filter_empty_conv)
  ultimately show ?thesis by auto
qed

text \<open>
  C23 (absence is only claimed after looking): the probe exits with 0 exactly when the manifest pins the recorded version,
  each command ran and exited with 0, and its output is long enough, names a flag, and has no line with one of
  the relevant words.
\<close>

theorem absence_claimed_iff:
  "coverage_main d run_command = Some 0 \<longleftrightarrow>
     (\<exists>spec. d = DependencySpec spec \<and> lit ''=='' @ PINNED_MOJO_VERSION \<in> set (map strip (split_on 44 spec)))
     \<and> (\<forall>argv\<in>set PROBE_COMMANDS. \<exists>out err. run_command argv = Ran 0 out err
          \<and> is_readable (utf8_decode True out @ utf8_decode True err)
          \<and> (\<forall>l\<in>set (splitlines (utf8_decode True out @ utf8_decode True err)). \<not> is_relevant l))"
proof -
  have pin: "check_version_pin d = Inr () \<longleftrightarrow>
      (\<exists>spec. d = DependencySpec spec \<and> lit ''=='' @ PINNED_MOJO_VERSION \<in> set (map strip (split_on 44 spec)))"
    by (auto simp: check_version_pin_def split: mojo_dependency.splits)
  have report: "help_report run_command argv = Inr (argv', t) \<longleftrightarrow>
      argv' = argv \<and> (\<exists>out err. run_command argv = Ran 0 out err \<and> t = utf8_decode True out @ utf8_decode True err)" for argv argv' t
    by (auto simp: help_report_def split: help_run.splits)
  have "coverage_main d run_command = Some 0 \<longleftrightarrow>
      check_version_pin d = Inr () \<and> (\<exists>reports. collect_help_text run_command = Inr reports \<and> snd (evaluate reports) = 0)"
    by (auto simp: coverage_main_def rbind_def split: sum.splits probe_error.splits)
  also have "(\<exists>reports. collect_help_text run_command = Inr reports \<and> snd (evaluate reports) = 0) \<longleftrightarrow>
      (\<forall>argv\<in>set PROBE_COMMANDS. \<exists>out err. run_command argv = Ran 0 out err
          \<and> is_readable (utf8_decode True out @ utf8_decode True err)
          \<and> (\<forall>l\<in>set (splitlines (utf8_decode True out @ utf8_decode True err)). \<not> is_relevant l))"
    unfolding evaluates_zero collect_help_text_def PROBE_COMMANDS_def
    by (auto simp: rbind_Inr report del: lit_Cons)
  finally show ?thesis unfolding pin .
qed

definition eg_help :: bytes where
  "eg_help = lit ''--emit=llvm '' @ replicate 200 46"

lemma eg_probe:
  "coverage_main (DependencySpec (lit ''>=1.0, ==1.1.0'')) (\<lambda>_. Ran 0 eg_help []) = Some 0"
  "coverage_main (DependencySpec (lit ''==1.1.0'')) (\<lambda>_. Ran 0 (eg_help @ lit '' --Profile-x'') []) = Some 1"
  "coverage_main (DependencySpec (lit ''==1.1.0'')) (\<lambda>_. Ran 0 [] []) = Some 1"
  "coverage_main (DependencySpec (lit ''==1.1.1'')) (\<lambda>_. Ran 0 eg_help []) = Some 1"
  by code_simp+

theorem absence_claimed_iff_witness:
  "coverage_main (DependencySpec (lit ''>=1.0, ==1.1.0'')) (\<lambda>_. Ran 0 eg_help []) = Some 0
     \<and> lit ''==1.1.0'' \<in> set (map strip (split_on 44 (lit ''>=1.0, ==1.1.0'')))
     \<and> filter is_relevant (splitlines (utf8_decode True eg_help @ utf8_decode True [])) = []"
proof -
  note found = absence_claimed_iff [of "DependencySpec (lit ''>=1.0, ==1.1.0'')" "\<lambda>_. Ran 0 eg_help []", THEN iffD1, OF eg_probe(1)]
  have "hd PROBE_COMMANDS \<in> set PROBE_COMMANDS" by (simp add: PROBE_COMMANDS_def)
  with found have "filter is_relevant (splitlines (utf8_decode True eg_help @ utf8_decode True [])) = []"
    by (auto simp: filter_empty_conv)
  moreover have "lit ''==1.1.0'' \<in> set (map strip (split_on 44 (lit ''>=1.0, ==1.1.0'')))" by code_simp
  ultimately show ?thesis using eg_probe(1) by blast
qed

end
