(* ===== verification/Vocabulary.thy ===== *)
theory Vocabulary
  imports Text_Files Regex
begin

text \<open>
  scripts/formats/vocabulary.py: the report vocabulary, read from its rows and checked.  The file is its bytes,
  \<open>None\<close> when it cannot be read.
\<close>

section \<open>Integers\<close>

text \<open>
  \<open>int(s)\<close> on a text: space around it, a sign, digits of any script with single underscores between them, and at most 4300
  digits.
\<close>

definition py_int :: "str \<Rightarrow> int option" where
  "py_int s =
     (let t = strip s; negative = (t \<noteq> [] \<and> hd t = 45);
          groups = split_on 95 (if t \<noteq> [] \<and> (hd t = 45 \<or> hd t = 43) then tl t else t); digits = concat groups
      in if list_all (\<lambda>g. g \<noteq> [] \<and> list_all is_digit g) groups \<and> length digits \<le> 4300
         then Some (if negative then - int_of_digits digits else int_of_digits digits) else None)"

section \<open>The rows\<close>

record vocabulary =
  vo_console :: "(int, str) dict"
  vo_labels :: "(int, str) dict"
  vo_json_tokens :: "(int, str) dict"
  vo_exits :: "(str, int) dict"
  vo_model :: "str list"
  vo_wire :: "str list"
  vo_version :: int

datatype vocabulary_fault =
    VocabularyUnreadable
  | VocabularyNotUtf8
  | NotAnInteger string str
  | OutcomeFields "str list"
  | OutcomeTwice int
  | ExitFields "str list"
  | ExitTwice str
  | EventFields "str list"
  | VersionRepeated "str list"
  | UnknownSection str
  | CodesNotARange "int list"
  | NoOutcomes
  | NoExits
  | NoEvents
  | EventTwice
  | VersionMissing
  | ExitNameMissing str

definition vocabulary_int :: "str \<Rightarrow> string \<Rightarrow> vocabulary_fault + int" where
  "vocabulary_int field what = (case py_int field of None \<Rightarrow> Inl (NotAnInteger what field) | Some n \<Rightarrow> Inr n)"

definition rows_of :: "str \<Rightarrow> str list list" where
  "rows_of source =
     map (split_words []) (filter (\<lambda>l. l \<noteq> [] \<and> \<not> startswith l (lit ''#'')) (map strip (splitlines source)))"

definition read_rows :: "bytes option \<Rightarrow> vocabulary_fault + str list list" where
  "read_rows file =
     (case file of
        None \<Rightarrow> Inl VocabularyUnreadable
      | Some b \<Rightarrow> (case read_utf8 b of None \<Rightarrow> Inl VocabularyNotUtf8 | Some source \<Rightarrow> Inr (rows_of source)))"

text \<open>The vocabulary being read, with the version when it has been seen.\<close>

type_synonym reading = "vocabulary \<times> int option"

definition take_outcome :: "str list \<Rightarrow> vocabulary \<Rightarrow> vocabulary_fault + vocabulary" where
  "take_outcome row v =
     (if length row \<noteq> 5 then Inl (OutcomeFields row)
      else rbind (vocabulary_int (row ! 1) ''an outcome code'') (\<lambda>code.
        if map_of (vo_console v) code \<noteq> None then Inl (OutcomeTwice code)
        else Inr (v \<lparr> vo_console := vo_console v @ [(code, row ! 2)], vo_labels := vo_labels v @ [(code, row ! 3)],
                      vo_json_tokens := vo_json_tokens v @ [(code, row ! 4)] \<rparr>)))"

definition take_exit :: "str list \<Rightarrow> vocabulary \<Rightarrow> vocabulary_fault + vocabulary" where
  "take_exit row v =
     (if length row \<noteq> 3 then Inl (ExitFields row)
      else if map_of (vo_exits v) (row ! 1) \<noteq> None then Inl (ExitTwice (row ! 1))
      else rbind (vocabulary_int (row ! 2) ''an exit code'') (\<lambda>code. Inr (v \<lparr> vo_exits := vo_exits v @ [(row ! 1, code)] \<rparr>)))"

definition take_event :: "str list \<Rightarrow> vocabulary \<Rightarrow> vocabulary_fault + vocabulary" where
  "take_event row v =
     (if length row \<noteq> 3 \<or> row ! 1 \<notin> {lit ''model'', lit ''wire''} then Inl (EventFields row)
      else if row ! 1 = lit ''model'' then Inr (v \<lparr> vo_model := vo_model v @ [row ! 2] \<rparr>)
      else Inr (v \<lparr> vo_wire := vo_wire v @ [row ! 2] \<rparr>))"

definition take_row :: "str list \<Rightarrow> reading \<Rightarrow> vocabulary_fault + reading" where
  "take_row row r =
     (let (v, version) = r; kind = hd row; keep = (\<lambda>taken. rbind taken (\<lambda>v'. Inr (v', version)))
      in if kind = lit ''outcome'' then keep (take_outcome row v)
         else if kind = lit ''exit'' then keep (take_exit row v)
         else if kind = lit ''event'' then keep (take_event row v)
         else if kind = lit ''stream_version''
         then (if length row \<noteq> 2 \<or> version \<noteq> None then Inl (VersionRepeated row)
               else rbind (vocabulary_int (row ! 1) ''the stream version'') (\<lambda>n. Inr (v, Some n)))
         else Inl (UnknownSection kind))"

fun take_rows :: "str list list \<Rightarrow> reading \<Rightarrow> vocabulary_fault + reading" where
  "take_rows [] r = Inr r"
| "take_rows (row # rows) r = rbind (take_row row r) (take_rows rows)"

definition empty_reading :: reading where
  "empty_reading = (\<lparr> vo_console = [], vo_labels = [], vo_json_tokens = [], vo_exits = [], vo_model = [], vo_wire = [],
                      vo_version = 0 \<rparr>, None)"

definition check_vocabulary :: "reading \<Rightarrow> vocabulary_fault + vocabulary" where
  "check_vocabulary r =
     (let (v, version) = r; codes = sort (map fst (vo_console v))
      in if codes \<noteq> map int [0..<length codes] then Inl (CodesNotARange codes)
         else if vo_console v = [] then Inl NoOutcomes
         else if vo_exits v = [] then Inl NoExits
         else if vo_model v = [] \<or> vo_wire v = [] then Inl NoEvents
         else if \<not> distinct (vo_model v) \<or> \<not> distinct (vo_wire v) then Inl EventTwice
         else case version of None \<Rightarrow> Inl VersionMissing | Some n \<Rightarrow> Inr (v \<lparr> vo_version := n \<rparr>))"

definition parse_vocabulary :: "bytes option \<Rightarrow> vocabulary_fault + vocabulary" where
  "parse_vocabulary file =
     rbind (read_rows file) (\<lambda>rows. rbind (take_rows rows empty_reading) check_vocabulary)"

text \<open>The constants the module exports; a missing exit name is a \<open>KeyError\<close> on import.\<close>

definition code_by_label :: "vocabulary \<Rightarrow> (str, int) dict" where
  "code_by_label v = dict_of (map (\<lambda>(code, label). (label, code)) (vo_labels v))"

definition EXIT_NAMES :: "str list" where
  "EXIT_NAMES = map lit [''SUCCESS'', ''FAILURE'', ''INTERRUPTED'', ''INTERNAL_ERROR'', ''USAGE_ERROR'', ''NOTHING_RAN'']"

definition exit_constants :: "vocabulary \<Rightarrow> vocabulary_fault + int list" where
  "exit_constants v =
     rmap (\<lambda>name. case map_of (vo_exits v) name of None \<Rightarrow> Inl (ExitNameMissing name) | Some n \<Rightarrow> Inr n) EXIT_NAMES"

section \<open>Accepted vocabularies\<close>

definition vocabulary_ok :: "vocabulary \<Rightarrow> bool" where
  "vocabulary_ok v \<longleftrightarrow>
     sort (map fst (vo_console v)) = map int [0..<length (vo_console v)] \<and> vo_console v \<noteq> []
     \<and> map fst (vo_labels v) = map fst (vo_console v) \<and> map fst (vo_json_tokens v) = map fst (vo_console v)
     \<and> vo_exits v \<noteq> [] \<and> distinct (map fst (vo_exits v))
     \<and> vo_model v \<noteq> [] \<and> distinct (vo_model v) \<and> vo_wire v \<noteq> [] \<and> distinct (vo_wire v)"

definition reading_ok :: "vocabulary \<Rightarrow> bool" where
  "reading_ok v \<longleftrightarrow> distinct (map fst (vo_console v)) \<and> distinct (map fst (vo_exits v))
     \<and> map fst (vo_labels v) = map fst (vo_console v) \<and> map fst (vo_json_tokens v) = map fst (vo_console v)"

lemma map_of_fresh: "map_of d k = None \<longleftrightarrow> k \<notin> fst ` set d"
  by (simp add: map_of_eq_None_iff)

lemma take_row_ok: "take_row row r = Inr r' \<Longrightarrow> reading_ok (fst r) \<Longrightarrow> reading_ok (fst r')"
  by (auto simp: take_row_def Let_def rbind_Inr take_outcome_def take_exit_def take_event_def reading_ok_def map_of_fresh
      split: if_splits prod.splits)

lemma take_rows_ok: "take_rows rows r = Inr r' \<Longrightarrow> reading_ok (fst r) \<Longrightarrow> reading_ok (fst r')"
  by (induction rows r rule: take_rows.induct) (auto simp: rbind_Inr dest: take_row_ok)

lemma parsed_ok:
  assumes "parse_vocabulary file = Inr v"
  shows "vocabulary_ok v"
proof -
  obtain rows r where r: "take_rows rows empty_reading = Inr r" "check_vocabulary r = Inr v"
    using assms by (auto simp: parse_vocabulary_def rbind_Inr)
  have "reading_ok (fst r)" by (rule take_rows_ok [OF r(1)]) (simp add: reading_ok_def empty_reading_def)
  then show ?thesis using r(2)
    by (auto simp: check_vocabulary_def Let_def vocabulary_ok_def reading_ok_def split: if_splits option.splits prod.splits)
qed

section \<open>Written and read back\<close>

definition outcome_rows :: "vocabulary \<Rightarrow> str list list" where
  "outcome_rows v =
     map (\<lambda>((code, c), (_, l), (_, j)). [lit ''outcome'', int_repr code, c, l, j])
       (zip (vo_console v) (zip (vo_labels v) (vo_json_tokens v)))"

definition vocabulary_rows :: "vocabulary \<Rightarrow> str list list" where
  "vocabulary_rows v =
     outcome_rows v @ map (\<lambda>(name, code). [lit ''exit'', name, int_repr code]) (vo_exits v)
     @ map (\<lambda>k. [lit ''event'', lit ''model'', k]) (vo_model v) @ map (\<lambda>k. [lit ''event'', lit ''wire'', k]) (vo_wire v)
     @ [[lit ''stream_version'', int_repr (vo_version v)]]"

definition written_vocabulary :: "vocabulary \<Rightarrow> bytes" where
  "written_vocabulary v = utf8_encode (lines_of (map (join_with [32]) (vocabulary_rows v)))"

definition word_field :: "str \<Rightarrow> bool" where
  "word_field f \<longleftrightarrow> f \<noteq> [] \<and> list_all (\<lambda>c. \<not> is_space c \<and> scalar c) f"

definition short_int :: "int \<Rightarrow> bool" where
  "short_int n \<longleftrightarrow> length (decimal (nat \<bar>n\<bar>)) \<le> 4300"

definition writable :: "vocabulary \<Rightarrow> bool" where
  "writable v \<longleftrightarrow> (\<forall>x\<in>set (vo_console v). short_int (fst x) \<and> word_field (snd x)) \<and> (\<forall>x\<in>set (vo_labels v). word_field (snd x))
     \<and> (\<forall>x\<in>set (vo_json_tokens v). word_field (snd x)) \<and> (\<forall>x\<in>set (vo_exits v). word_field (fst x) \<and> short_int (snd x))
     \<and> (\<forall>k\<in>set (vo_model v @ vo_wire v). word_field k) \<and> short_int (vo_version v)"

lemma digit_of_ascii: "is_ascii_digit c \<Longrightarrow> digit_of c = Some (c - 48)"
  by (simp add: digit_of_def digit_zeros_def is_ascii_digit_def)

lemma int_of_ascii: "list_all is_ascii_digit s \<Longrightarrow> int_of_digits s = digits_value s"
proof (induction s rule: rev_induct)
  case (snoc c s)
  then show ?case by (simp add: int_of_digits_def digits_value_def digit_of_ascii)
qed (simp add: int_of_digits_def digits_value_def)

lemma decimal_chars: "\<forall>c\<in>set (decimal n). is_ascii_digit c"
  using decimal_digits by (simp add: list_all_iff)

lemma int_repr_word: "word_field (int_repr n)"
proof -
  have "\<not> is_space c \<and> scalar c" if "is_ascii_digit c \<or> c = 45" for c
    using that by (auto simp: is_ascii_digit_def is_space_def scalar_def)
  then show ?thesis using decimal_chars by (auto simp: word_field_def int_repr_def list_all_iff)
qed

lemma strip_word: "word_field f \<Longrightarrow> strip f = f"
  by (rule strip_id) (auto simp: word_field_def list_all_iff)

lemma py_int_repr:
  assumes "short_int n"
  shows "py_int (int_repr n) = Some n"
proof -
  define d where "d = decimal (nat \<bar>n\<bar>)"
  have d: "list_all is_ascii_digit d" "d \<noteq> []" "digits_value d = \<bar>n\<bar>" "length d \<le> 4300"
    using decimal_digits digits_value_decimal assms by (simp_all add: d_def short_int_def)
  have "95 \<notin> set d" using d(1) by (auto simp: list_all_iff is_ascii_digit_def)
  then have g: "split_on 95 d = [d]" by (rule split_on_no)
  have all: "list_all is_digit d" using d(1) by (auto simp: list_all_iff is_digit_def digit_of_ascii)
  have sign: "hd d \<noteq> 45 \<and> hd d \<noteq> 43" using d(1,2) by (cases d) (auto simp: is_ascii_digit_def)
  have r: "int_repr n = (if n < 0 then 45 # d else d)" by (simp add: int_repr_def d_def)
  show ?thesis
    unfolding py_int_def strip_word [OF int_repr_word] unfolding r
    using g all d sign by (simp add: Let_def int_of_ascii)
qed

lemma split_words_word: "list_all (\<lambda>c. \<not> is_space c) f \<Longrightarrow> split_words cur (f @ s) = split_words (cur @ f) s"
  by (induction f arbitrary: cur) auto

lemma split_words_join:
  "\<forall>f\<in>set fs. word_field f \<Longrightarrow> split_words [] (join_with [32] fs) = fs"
proof (induction fs)
  case (Cons f fs)
  then have f: "list_all (\<lambda>c. \<not> is_space c) f" "f \<noteq> []" by (auto simp: word_field_def list_all_iff)
  show ?case
  proof (cases fs)
    case Nil
    then show ?thesis using split_words_word [OF f(1), of "[]" "[]"] f(2) by simp
  next
    case (Cons g gs)
    then have "split_words [] (join_with [32] (f # fs)) = split_words f (32 # join_with [32] fs)"
      using split_words_word [OF f(1), of "[]"] by simp
    then show ?thesis using Cons.IH Cons.prems f(2) by (simp add: is_space_def)
  qed
qed simp

text \<open>The written rows are lines, and a line is read as its row.\<close>

definition row_ok :: "str list \<Rightarrow> bool" where
  "row_ok row \<longleftrightarrow> row \<noteq> [] \<and> (\<forall>f\<in>set row. word_field f) \<and> hd (hd row) \<noteq> 35"

lemma join_chars: "c \<in> set (join_with [32] fs) \<Longrightarrow> c = 32 \<or> (\<exists>f\<in>set fs. c \<in> set f)"
proof (induction fs)
  case (Cons f fs)
  then show ?case by (cases fs) auto
qed simp

lemma join_ends:
  "fs \<noteq> [] \<Longrightarrow> \<forall>f\<in>set fs. f \<noteq> [] \<Longrightarrow>
   join_with [32] fs \<noteq> [] \<and> hd (join_with [32] fs) = hd (hd fs) \<and> last (join_with [32] fs) = last (last fs)"
proof (induction fs)
  case (Cons f fs)
  then show ?case by (cases fs) auto
qed simp

lemma row_line:
  assumes "row_ok row"
  shows "strip (join_with [32] row) = join_with [32] row" "join_with [32] row \<noteq> []"
    "\<not> startswith (join_with [32] row) (lit ''#'')" "split_words [] (join_with [32] row) = row"
    "unbroken (join_with [32] row)" "list_all scalar (join_with [32] row)" "13 \<notin> set (join_with [32] row)"
proof -
  let ?l = "join_with [32] row"
  have words: "\<forall>f\<in>set row. word_field f" "row \<noteq> []" "hd (hd row) \<noteq> 35" using assms by (auto simp: row_ok_def)
  have ne: "\<forall>f\<in>set row. f \<noteq> []" using words(1) by (auto simp: word_field_def)
  note ends = join_ends [OF words(2) ne]
  have first: "hd (hd row) \<in> set (hd row)" "last (last row) \<in> set (last row)" "hd row \<in> set row" "last row \<in> set row"
    using words(2) ne by auto
  then have "\<not> is_space (hd ?l) \<and> \<not> is_space (last ?l)"
    using words(1) ends by (auto simp: word_field_def list_all_iff)
  then show "strip ?l = ?l" by (intro strip_id) simp
  show "?l \<noteq> []" using ends by simp
  then show "\<not> startswith ?l (lit ''#'')" using ends words(3) by (cases ?l) simp_all
  show "split_words [] ?l = row" using words(1) by (rule split_words_join)
  have chars: "c = 32 \<or> (\<not> is_space c \<and> scalar c)" if "c \<in> set ?l" for c
    using join_chars [OF that] words(1) by (auto simp: word_field_def list_all_iff)
  show "unbroken ?l" using chars by (force simp: unbroken_def is_linebreak_def is_space_def)
  show "list_all scalar ?l" using chars by (force simp: list_all_iff scalar_def)
  show "13 \<notin> set ?l" using chars by (force simp: is_space_def)
qed

lemma vocabulary_rows_ok:
  assumes "writable v"
  shows "\<forall>row\<in>set (vocabulary_rows v). row_ok row"
proof -
  have fixed: "word_field (lit s)" if "s \<in> {''outcome'', ''exit'', ''event'', ''model'', ''wire'', ''stream_version''}" for s
    using that by (auto simp: word_field_def is_space_def scalar_def)
  have "row_ok row" if "row \<in> set (outcome_rows v)" for row
  proof -
    obtain code c k l m j where z: "((code, c), (k, l), (m, j)) \<in> set (zip (vo_console v) (zip (vo_labels v) (vo_json_tokens v)))"
        and row: "row = [lit ''outcome'', int_repr code, c, l, j]"
      using \<open>row \<in> set (outcome_rows v)\<close> by (auto simp: outcome_rows_def)
    have "(code, c) \<in> set (vo_console v)" "(k, l) \<in> set (vo_labels v)" "(m, j) \<in> set (vo_json_tokens v)"
      using set_zip_leftD [OF z] set_zip_rightD [OF z] by (auto dest: set_zip_leftD set_zip_rightD)
    then have "word_field c" "word_field l" "word_field j" using assms unfolding writable_def by force+
    then show ?thesis using fixed [of "''outcome''"] int_repr_word by (simp add: row_ok_def row)
  qed
  moreover have "row_ok [lit ''exit'', fst x, int_repr (snd x)]" if "x \<in> set (vo_exits v)" for x
    using assms that fixed [of "''exit''"] int_repr_word by (simp add: row_ok_def writable_def)
  moreover have "row_ok [lit ''event'', lit s, k]" if "k \<in> set (vo_model v @ vo_wire v)" "s \<in> {''model'', ''wire''}" for s k
    using assms that fixed [of "''event''"] fixed [of s] by (auto simp: row_ok_def writable_def)
  moreover have "row_ok [lit ''stream_version'', int_repr (vo_version v)]"
    using fixed [of "''stream_version''"] int_repr_word by (simp add: row_ok_def)
  ultimately show ?thesis unfolding vocabulary_rows_def by (auto simp: case_prod_unfold simp del: lit_Cons)
qed

lemma rows_read_back:
  assumes "\<forall>row\<in>set rows. row_ok row"
  shows "read_rows (Some (utf8_encode (lines_of (map (join_with [32]) rows)))) = Inr rows"
proof -
  let ?ls = "map (join_with [32]) rows"
  have "list_all scalar (lines_of ?ls)" "13 \<notin> set (lines_of ?ls)"
    using assms row_line(6,7) by (auto simp: lines_of_def list_all_iff scalar_def)
  then have read: "read_utf8 (utf8_encode (lines_of ?ls)) = Some (lines_of ?ls)" by (rule read_utf8_encode)
  have "splitlines (lines_of ?ls) = ?ls" using assms row_line(5) by (intro splitlines_lines_of) auto
  moreover have "map strip ?ls = ?ls" using assms row_line(1) by (auto intro: map_idI)
  moreover have "filter (\<lambda>l. l \<noteq> [] \<and> \<not> startswith l (lit ''#'')) ?ls = ?ls" using assms row_line(2,3) by (auto intro: filter_True)
  moreover have "map (split_words []) ?ls = rows" using assms row_line(4) by (auto intro: map_idI)
  ultimately show ?thesis using read by (simp add: read_rows_def rows_of_def del: map_map)
qed

lemma take_rows_append: "take_rows (a @ b) r = rbind (take_rows a r) (take_rows b)"
  by (induction a r rule: take_rows.induct) (auto simp: rbind_def split: sum.splits)

lemma vocabulary_int_repr: "short_int n \<Longrightarrow> vocabulary_int (int_repr n) what = Inr n"
  by (simp add: vocabulary_int_def py_int_repr)

lemma take_one_outcome:
  assumes "short_int code" "code \<notin> fst ` set (vo_console v)"
  shows "take_row [lit ''outcome'', int_repr code, c, l, j] (v, version) =
    Inr (v \<lparr> vo_console := vo_console v @ [(code, c)], vo_labels := vo_labels v @ [(code, l)],
             vo_json_tokens := vo_json_tokens v @ [(code, j)] \<rparr>, version)"
  using assms by (simp add: take_row_def take_outcome_def vocabulary_int_repr map_of_fresh)

lemma take_outcomes:
  assumes "map fst ls = map fst cs" "map fst js = map fst cs" "distinct (map fst (vo_console v @ cs))" "\<forall>x\<in>set cs. short_int (fst x)"
  shows "take_rows (map (\<lambda>((code, c), (_, l), (_, j)). [lit ''outcome'', int_repr code, c, l, j]) (zip cs (zip ls js))) (v, version) =
    Inr (v \<lparr> vo_console := vo_console v @ cs, vo_labels := vo_labels v @ ls, vo_json_tokens := vo_json_tokens v @ js \<rparr>, version)"
  using assms
proof (induction cs arbitrary: ls js v)
  case (Cons x cs)
  obtain code c where x: "x = (code, c)" by (cases x)
  obtain l ls' j js' where l: "ls = (code, l) # ls'" "js = (code, j) # js'" "map fst ls' = map fst cs" "map fst js' = map fst cs"
    using Cons.prems(1,2) x by (cases ls; cases js) auto
  show ?case
    using Cons.prems(3,4) x l Cons.IH [OF l(3,4), of "v \<lparr> vo_console := vo_console v @ [(code, c)],
        vo_labels := vo_labels v @ [(code, l)], vo_json_tokens := vo_json_tokens v @ [(code, j)] \<rparr>"]
    by (simp add: take_one_outcome del: lit_Cons)
qed simp

lemma take_exits:
  assumes "distinct (map fst (vo_exits v @ es))" "\<forall>x\<in>set es. short_int (snd x)"
  shows "take_rows (map (\<lambda>(name, code). [lit ''exit'', name, int_repr code]) es) (v, version) =
    Inr (v \<lparr> vo_exits := vo_exits v @ es \<rparr>, version)"
  using assms
proof (induction es arbitrary: v)
  case (Cons x es)
  obtain name code where x: "x = (name, code)" by (cases x)
  have "take_row [lit ''exit'', name, int_repr code] (v, version) = Inr (v \<lparr> vo_exits := vo_exits v @ [(name, code)] \<rparr>, version)"
    using Cons.prems x by (simp add: take_row_def take_exit_def vocabulary_int_repr map_of_fresh)
  then show ?case using Cons.prems x Cons.IH [of "v \<lparr> vo_exits := vo_exits v @ [(name, code)] \<rparr>"] by (simp del: lit_Cons)
qed simp

lemma take_model: "take_rows (map (\<lambda>k. [lit ''event'', lit ''model'', k]) ks) (v, version) = Inr (v \<lparr> vo_model := vo_model v @ ks \<rparr>, version)"
proof (induction ks arbitrary: v)
  case (Cons k ks)
  have "take_row [lit ''event'', lit ''model'', k] (v, version) = Inr (v \<lparr> vo_model := vo_model v @ [k] \<rparr>, version)"
    by (simp add: take_row_def take_event_def)
  then show ?case using Cons.IH [of "v \<lparr> vo_model := vo_model v @ [k] \<rparr>"] by (simp del: lit_Cons)
qed simp

lemma take_wire: "take_rows (map (\<lambda>k. [lit ''event'', lit ''wire'', k]) ks) (v, version) = Inr (v \<lparr> vo_wire := vo_wire v @ ks \<rparr>, version)"
proof (induction ks arbitrary: v)
  case (Cons k ks)
  have "take_row [lit ''event'', lit ''wire'', k] (v, version) = Inr (v \<lparr> vo_wire := vo_wire v @ [k] \<rparr>, version)"
    by (simp add: take_row_def take_event_def)
  then show ?case using Cons.IH [of "v \<lparr> vo_wire := vo_wire v @ [k] \<rparr>"] by (simp del: lit_Cons)
qed simp

lemma codes_distinct: "sort xs = map int [0..<n] \<Longrightarrow> distinct xs"
  by (metis distinct_map distinct_sort distinct_upt inj_on_of_nat)

lemma rows_taken:
  assumes "vocabulary_ok v" "writable v"
  shows "take_rows (vocabulary_rows v) empty_reading = Inr (v \<lparr> vo_version := 0 \<rparr>, Some (vo_version v))"
proof -
  have codes: "distinct (map fst (vo_console v))" "map fst (vo_labels v) = map fst (vo_console v)"
      "map fst (vo_json_tokens v) = map fst (vo_console v)" "distinct (map fst (vo_exits v))"
    using assms(1) codes_distinct by (auto simp: vocabulary_ok_def)
  have ints: "\<forall>x\<in>set (vo_console v). short_int (fst x)" "\<forall>x\<in>set (vo_exits v). short_int (snd x)" "short_int (vo_version v)"
    using assms(2) by (auto simp: writable_def)
  have version: "take_row [lit ''stream_version'', int_repr (vo_version v)] (u, None) = Inr (u, Some (vo_version v))" for u
    using ints(3) by (simp add: take_row_def vocabulary_int_repr)
  show ?thesis
    unfolding vocabulary_rows_def outcome_rows_def empty_reading_def
    using codes ints by (simp add: take_rows_append take_outcomes take_exits take_model take_wire version del: lit_Cons)
qed

text \<open>
  C22 (the vocabulary survives its file): parsing the rows of a vocabulary gives it back, and whatever
  parses has outcome codes 0 to n-1 with a label and a token each, and distinct exits and event kinds.
\<close>

theorem vocabulary_round_trip:
  "(vocabulary_ok v \<and> writable v \<longrightarrow> parse_vocabulary (Some (written_vocabulary v)) = Inr v)
   \<and> (parse_vocabulary file = Inr v \<longrightarrow> vocabulary_ok v)"
proof -
  have "parse_vocabulary (Some (written_vocabulary v)) = Inr v" if "vocabulary_ok v" "writable v"
  proof -
    have "check_vocabulary (v \<lparr> vo_version := 0 \<rparr>, Some (vo_version v)) = Inr v"
      using \<open>vocabulary_ok v\<close> by (simp add: check_vocabulary_def vocabulary_ok_def)
    then show ?thesis
      using rows_taken [OF that] rows_read_back [OF vocabulary_rows_ok [OF \<open>writable v\<close>]]
      by (simp add: parse_vocabulary_def written_vocabulary_def)
  qed
  then show ?thesis using parsed_ok by blast
qed

definition eg_vocabulary :: vocabulary where
  "eg_vocabulary =
     \<lparr> vo_console = [(0, lit ''PASS''), (1, lit ''FAIL'')], vo_labels = [(0, lit ''PASS''), (1, lit ''FAIL'')],
       vo_json_tokens = [(0, lit ''pass''), (1, lit ''fail'')], vo_exits = [(lit ''SUCCESS'', 0), (lit ''FAILURE'', 1)],
       vo_model = [lit ''WARNING''], vo_wire = [lit ''warning''], vo_version = 1 \<rparr>"

lemma eg_vocabulary_ok: "vocabulary_ok eg_vocabulary" "writable eg_vocabulary"
  by code_simp+

theorem vocabulary_round_trip_witness:
  "parse_vocabulary (Some (written_vocabulary eg_vocabulary)) = Inr eg_vocabulary"
  using vocabulary_round_trip [of eg_vocabulary None] eg_vocabulary_ok by blast

end
