(* ===== verification/Spec2Isabelle.thy ===== *)
theory Spec2Isabelle
  imports Selfhost Attestations Github_Release Community Canary Canary_Issues Annotations Bump Recipe Layering Postfork Safety_Check Public_Verify Workflow_Canary Docs_Parity Build_Profile Native_Abi Abi_Probe Coverage_Probe Vocabulary
begin

text \<open>
  A verification development for the Python tooling of mtest, a test runner for Mojo: the supervisor
  and the self-host harness that decide whether the runner's own suite passed, the consumers of the
  runner's reports, the canary that probes new compilers, the scripts that release a version, and the
  checks that gate every change.  Every definition that models code carries the name of the function,
  class or constant it translates, under \<^verbatim>\<open>scripts/\<close>; the properties are the theorems that follow a
  text with a claim number.

  \<^bold>\<open>The parts and how they meet.\<close>

  \<^item> \<^bold>\<open>Shared.\<close>  \<open>Prelude\<close>: Python texts as lists of code points, the string methods, dictionaries
    in insertion order, errors as sums (\<open>rbind\<close>).  \<open>Utf8\<close>: the codec, strict and with replacement.
    \<open>Text_Files\<close>: reading and writing text with universal newlines.  \<open>Json\<close>, \<open>Json_Bytes\<close>:
    \<^verbatim>\<open>json.loads\<close> with its hooks and \<^verbatim>\<open>json.dumps\<close>.  \<open>Regex\<close>: the backtracking matcher of \<^verbatim>\<open>re\<close> for the
    constructs the patterns use, and \<open>leads_to\<close>, the states a pattern can end in, by which a match is
    reasoned about piece by piece.  \<open>Release_Checks\<close>: what the release scripts have in common.
  \<^item> \<^bold>\<open>Supervision\<close>, \<^verbatim>\<open>harness/watchdog.py\<close>.  \<open>Capture\<close> bounds what is kept of a stream, \<open>Marker\<close>
    keeps the last complete line with the marker, \<open>Drain\<close> forwards a child's bytes while the main
    thread may seal the stream at any moment, \<open>Deadline\<close> reads the sentinel and decides the endings,
    \<open>Supervise\<close> is \<^verbatim>\<open>run_command\<close> as a machine of one step per statement that reaches the world, with a
    signal possible between any two.
  \<^item> \<^bold>\<open>Self-hosting\<close>, \<^verbatim>\<open>harness/selfhost.py\<close>.  \<open>Inventory\<close> derives the tests from the sources,
    \<open>Streams\<close> reads the event stream (\<^verbatim>\<open>formats/json_stream.py\<close>, \<^verbatim>\<open>formats/collect_stream.py\<close>), \<open>Reconcile\<close>
    compares stream and console with the inventory, \<open>Selfhost\<close> runs it all over the supervisor.
    This theory joins \<open>Selfhost\<close> and \<open>Supervise\<close>.
  \<^item> \<^bold>\<open>Canary\<close>, \<^verbatim>\<open>canary/\<close>.  \<open>Canary_Readings\<close> reads the searches and the roll-calls,
    \<open>Canary_Toolchain\<close> edits the pins, \<open>Protocol_Compare\<close> compares transcripts, \<open>Canary\<close> is the
    pipeline of one probe, \<open>Canary_Notify\<close> keeps one issue per lane and \<open>Canary_Issues\<close> states what
    that promises of the tracker, whose documented behaviour is the hypothesis \<open>serves\<close>.
  \<^item> \<^bold>\<open>Release\<close>, \<^verbatim>\<open>release/\<close> and \<^verbatim>\<open>checks/version.py\<close>.  \<open>Literal_Sites\<close> finds version literals,
    \<open>Version_Check\<close> is the gate over them, \<open>Bump\<close> rewrites them, \<open>Recipe\<close> renders and stages the
    community recipe, \<open>Attestations\<close>, \<open>Github_Release\<close>, \<open>Community\<close> and \<open>Public_Verify\<close> decide what
    may be published and check what was.
  \<^item> \<^bold>\<open>Gates\<close>, \<^verbatim>\<open>checks/\<close> and \<^verbatim>\<open>formats/annotations.py\<close>.  \<open>Annotations\<close> reads the GitHub annotations,
    \<open>Layering\<close> the imports of the Mojo sources, \<open>Postfork\<close> the calls of the forked child in the
    compiler's syntax tree, \<open>Safety_Check\<close> the SAFETY comments.  \<open>Workflow_Reader\<close>,
    \<open>Workflow_Pins\<close>, \<open>Workflow_Jobs\<close> and \<open>Workflow_Canary\<close> are \<^verbatim>\<open>checks/workflow_security.py\<close>: the
    hosted workflows read by line and pattern, the pins, the published action, the jobs and the
    subset of YAML the canary is held to.
    \<open>Docs_Parity\<close> (\<^verbatim>\<open>checks/docs_parity.py\<close>) holds the code the site repeats to the README, \<open>Abi_Probe\<close>
    the foreign symbols of the tests to one declaration each, \<open>Coverage_Probe\<close>
    (\<^verbatim>\<open>checks/coverage_capability.py\<close>) reads the toolchain's help, \<open>Vocabulary\<close>
    (\<^verbatim>\<open>formats/vocabulary.py\<close>) the table of outcomes, exit codes and events.
  \<^item> \<^bold>\<open>Build\<close>.  \<open>Profiles\<close> (\<^verbatim>\<open>build/profiles.py\<close>) reads the inventory of production profiles,
    \<open>Build_Profile\<close> (\<^verbatim>\<open>checks/build_profile.py\<close>) the compiler's output for them, \<open>Native_Abi\<close>
    (\<^verbatim>\<open>checks/native_abi.py\<close>, \<^verbatim>\<open>checks/native_sources.py\<close>, \<^verbatim>\<open>build/native.py\<close>) the symbols, the
    disassembly and the relocations of the native objects.

  \<^bold>\<open>How state and effects are represented.\<close>  A class or dataclass is a record with its fields in the
  source's order, an operation returns the new record.  A raise or an early return is a branch: the left side
  of a sum, or a constructor of the result.  What the code asks of the world (the file system, a
  command, a clock, a hash) is an argument, usually a field of a record such as \<open>world\<close> or
  \<open>canary_world\<close>; where the answer depends on what was done before, it is given the commands so far.
  Threads and signals are interleavings: \<open>tee_step\<close> of the reading and the sealing thread,
  \<open>sup_step\<close> of a statement or an arriving signal; invariants hold by rule induction over them.

  \<^bold>\<open>Interfaces.\<close>  \<open>prefix_sink\<close> (Capture) is the contract of a bounded capture, met by both capture
  classes; \<open>strict_consumer\<close> (Streams) that of a reader that commits to a stream record by record, met by
  both consumers; \<open>site_pattern\<close> (Literal_Sites) says when a literal can be exchanged without moving a
  match, and is met by the six version patterns.

  \<^bold>\<open>What the lemmas show.\<close>  Captures keep a prefix and say when they dropped something; the marker does
  not depend on how the bytes arrive; a run ends with its process group gone and its true status, in at
  most nineteen statements after the child's end, unless a signal arrives where the code cannot hold
  it; a green harness run means a truthful report about exactly the tests of the sources.  The readers of streams and
  attestations accept exactly the documented shapes and read back what the writers write.  The probe
  passes a candidate only after every stage, and the notifier keeps the tracker in step with it.  A bump
  changes the literals and nothing else, reaches the gate's state, can be undone, and leaves every file old or new.
  Each gate's acceptance is characterised or gives the guarantee its documentation names.
  A shipped function targets the processor of an oracle that does not read the inventory, a native object exports the
  reviewed symbols and shows its protection, and a fenced block of the site stands in its source.

  \<^bold>\<open>Bounds and fuel.\<close>  The JSON scanner takes two units per character (\<open>loads_fuel\<close>); a repetition of
  a pattern takes as many rounds as characters remain, since an empty round ends it; finding all matches takes one
  unit per character and one more; the audit of the forked child takes one unit per definition and one
  more (\<open>audit_never_short\<close>); strict decoding takes one unit per byte and one more.
  In each case a lemma or the recursion shows that the fuel never runs out.

  \<^bold>\<open>Not modelled.\<close>  Python's recursion limit; the wait on a kqueue that Darwin uses; the wording of
  printed diagnostics where only its kind and values matter; argument parsers, apart from the harness's own; the
  conversion of texts to floats and dates; SHA-256, git, gh, pixi and the compilers, which are
  arguments; the characters beyond ASCII that \<open>\w\<close> accepts, an argument of the
  patterns that use it.  The removal of temporary files after a verdict is left out.  The parts of \<^verbatim>\<open>scripts/\<close>
  that mostly start processes and look at what they print are listed as not modelled in the manifest: the
  black-box contract validator, the end-to-end scenarios, the packaging gate, the memory lanes, the
  checks of assertions, shell completions, Python style and protocol snapshots, the maintenance and documentation tools.
\<close>

section \<open>The harness over its supervisor\<close>

text \<open>
  The supervisor the harness is given is the modelled \<open>run_command\<close>: every value it returns is
  that of a finished run of the supervision machine, started with the sentinel the harness created.
\<close>

definition supervised_by_model :: "str list \<Rightarrow> pyfloat \<Rightarrow> supervision \<Rightarrow> bool" where
  "supervised_by_model command seconds sv \<longleftrightarrow>
     (\<forall>t. su_result sv = SupReturns t \<longrightarrow>
        (\<exists>u m s0 s. run_command_start u (command = []) seconds (Some RegularFile) m = Inr s0
           \<and> sup_reach s0 s \<and> sp_pc s = PDone t \<and> sp_sentinel s = Some (su_sentinel sv)))"

lemma timeout_seconds_valid: "timeout_seconds pf given = Inr s \<Longrightarrow> valid_timeout_seconds s"
  by (auto simp: timeout_seconds_def SELFHOST_TIMEOUT_SECONDS_def MAX_TIMEOUT_SECONDS_def
      split: option.splits pyfloat.splits if_splits)

lemma mtest_argv_ne: "mtest_argv m n roots workers json \<noteq> []"
  by (simp add: mtest_argv_def)


lemma exited_reached:
  "\<exists>s. sup_reach start_state s \<and> sp_pc s = PDone (Exited 0) \<and> sp_sentinel s = Some Absent"
proof -
  let ?s1 = "restoring_state\<lparr>sp_pc := PSeal (Exited 0)\<rparr>"
  have "sup_block restoring_state ?s1"
    using restore [of restoring_state "Exited 0"] by (simp add: do_restore_def restoring_state_def)
  then have "sup_reach start_state ?s1"
    using restoring_reached by (rule reach_block [rotated])
  moreover have "sup_block ?s1 (do_seal [] (Exited 0) ?s1)"
    by (rule seal) simp
  ultimately have "sup_reach start_state (do_seal [] (Exited 0) ?s1)"
    by (rule reach_block)
  moreover have "sp_pc (do_seal [] (Exited 0) ?s1) = PDone (Exited 0)"
    "sp_sentinel (do_seal [] (Exited 0) ?s1) = Some Absent"
    by (simp_all add: do_seal_def restoring_state_def)
  ultimately show ?thesis by blast
qed

lemma eg_world_supervised:
  "\<forall>command seconds. command \<noteq> [] \<longrightarrow> valid_timeout_seconds seconds \<longrightarrow>
     supervised_by_model command seconds (w_supervisor eg_world command seconds)"
proof (intro allI impI)
  fix command :: "str list" and seconds :: pyfloat
  assume c: "command \<noteq> []" and v: "valid_timeout_seconds seconds"
  have b: "run_command_start False (command = []) seconds (Some RegularFile) None = Inr start_state"
    using c v start_state_starts by (auto simp: run_command_start_def split: if_splits)
  obtain s where r: "sup_reach start_state s" "sp_pc s = PDone (Exited 0)" "sp_sentinel s = Some Absent"
    using exited_reached by blast
  have g: "su_result (w_supervisor eg_world command seconds) = SupReturns (Exited 0)"
    "su_sentinel (w_supervisor eg_world command seconds) = Absent"
    by (simp_all add: eg_world_def)
  show "supervised_by_model command seconds (w_supervisor eg_world command seconds)"
    unfolding supervised_by_model_def g
    by (intro allI impI, rule exI [of _ False], rule exI [of _ None], rule exI [of _ start_state],
        rule exI [of _ s]) (use b r in simp)
qed


end
